(* ===== verification/Prelude.thy ===== *)
theory Prelude
  imports Main "HOL-Library.Sublist" "HOL-Library.AList"
    "HOL-Library.List_Lexorder" "HOL-Library.Char_ord"
begin

text \<open>
  Shared vocabulary of the development: the result type that carries Python exceptions as
  values, loops that may stop early or raise, generators, and the string operations of the
  Python standard library that the sources use. Strings are lists of characters; a Python
  exception is a value of an error datatype on the left of a sum.
\<close>

named_theorems res_simps \<open>how a computation that may raise reaches a given result\<close>
named_theorems str_simps \<open>equations of the modelled string operations\<close>

section \<open>Computations that may raise\<close>

type_synonym ('e, 'a) res = "'e + 'a"

definition rbind :: "'e + 'a \<Rightarrow> ('a \<Rightarrow> 'e + 'b) \<Rightarrow> 'e + 'b" where
  "rbind m f = (case m of Inl e \<Rightarrow> Inl e | Inr a \<Rightarrow> f a)"

lemma rbind_Inl [simp]: "rbind (Inl e) f = Inl e"
  by (simp add: rbind_def)

lemma rbind_Inr [simp]: "rbind (Inr a) f = f a"
  by (simp add: rbind_def)

lemma rbind_eq_Inr [res_simps]: "rbind m f = Inr b \<longleftrightarrow> (\<exists>a. m = Inr a \<and> f a = Inr b)"
  by (cases m) simp_all

lemma rbind_InrE:
  assumes "rbind m f = Inr b"
  obtains a where "m = Inr a" and "f a = Inr b"
  using assms by (cases m) simp_all

lemma rbind_eq_Inl [res_simps]:
  "rbind m f = Inl e \<longleftrightarrow> m = Inl e \<or> (\<exists>a. m = Inr a \<and> f a = Inl e)"
  by (cases m) simp_all

lemma rbind_assoc: "rbind (rbind m f) g = rbind m (\<lambda>x. rbind (f x) g)"
  by (cases m) simp_all

lemma rbind_cong [fundef_cong]:
  "m = m' \<Longrightarrow> (\<And>a. m' = Inr a \<Longrightarrow> f a = f' a) \<Longrightarrow> rbind m f = rbind m' f'"
  by (cases m') simp_all

text \<open>
  \<open>rmapM\<close> is a list comprehension whose body may raise, \<open>rfoldM\<close> a loop that updates a
  state, \<open>rforall\<close> the loop \<open>for x in xs: if not p(x): return False\<close>, \<open>rexists\<close> the
  loop \<open>for x in xs: if p(x): return True\<close>, and \<open>rfilterM\<close> the loop
  \<open>for x in xs: if p(x): out.append(x)\<close>.
\<close>

fun rmapM :: "('a \<Rightarrow> 'e + 'b) \<Rightarrow> 'a list \<Rightarrow> 'e + 'b list" where
  "rmapM f [] = Inr []"
| "rmapM f (x # xs) = rbind (f x) (\<lambda>y. rbind (rmapM f xs) (\<lambda>ys. Inr (y # ys)))"

fun rfoldM :: "('s \<Rightarrow> 'a \<Rightarrow> 'e + 's) \<Rightarrow> 's \<Rightarrow> 'a list \<Rightarrow> 'e + 's" where
  "rfoldM f s [] = Inr s"
| "rfoldM f s (x # xs) = rbind (f s x) (\<lambda>s'. rfoldM f s' xs)"

fun rforall :: "('a \<Rightarrow> 'e + bool) \<Rightarrow> 'a list \<Rightarrow> 'e + bool" where
  "rforall p [] = Inr True"
| "rforall p (x # xs) = rbind (p x) (\<lambda>b. if b then rforall p xs else Inr False)"

fun rexists :: "('a \<Rightarrow> 'e + bool) \<Rightarrow> 'a list \<Rightarrow> 'e + bool" where
  "rexists p [] = Inr False"
| "rexists p (x # xs) = rbind (p x) (\<lambda>b. if b then Inr True else rexists p xs)"

fun rfilterM :: "('a \<Rightarrow> 'e + bool) \<Rightarrow> 'a list \<Rightarrow> 'e + 'a list" where
  "rfilterM p [] = Inr []"
| "rfilterM p (x # xs) = rbind (p x) (\<lambda>b. rbind (rfilterM p xs) (\<lambda>ys. Inr (if b then x # ys else ys)))"

lemma rmapM_cong [fundef_cong]:
  "xs = ys \<Longrightarrow> (\<And>x. x \<in> set ys \<Longrightarrow> f x = g x) \<Longrightarrow> rmapM f xs = rmapM g ys"
  by (induction ys arbitrary: xs) simp_all

lemma rfoldM_cong [fundef_cong]:
  "s = t \<Longrightarrow> xs = ys \<Longrightarrow> (\<And>x a. x \<in> set ys \<Longrightarrow> f a x = g a x) \<Longrightarrow> rfoldM f s xs = rfoldM g t ys"
proof (induction ys arbitrary: xs s t)
  case (Cons y ys)
  then show ?case by (auto intro: rbind_cong)
qed simp

lemma rforall_cong [fundef_cong]:
  "xs = ys \<Longrightarrow> (\<And>x. x \<in> set ys \<Longrightarrow> f x = g x) \<Longrightarrow> rforall f xs = rforall g ys"
  by (induction ys arbitrary: xs) (auto intro: rbind_cong)

lemma rexists_cong [fundef_cong]:
  "xs = ys \<Longrightarrow> (\<And>x. x \<in> set ys \<Longrightarrow> f x = g x) \<Longrightarrow> rexists f xs = rexists g ys"
  by (induction ys arbitrary: xs) (auto intro: rbind_cong)

lemma rforall_True [res_simps]: "rforall p xs = Inr True \<longleftrightarrow> (\<forall>x \<in> set xs. p x = Inr True)"
  by (induction xs) (auto simp: rbind_eq_Inr split: if_splits)

lemma rexists_False [res_simps]: "rexists p xs = Inr False \<longleftrightarrow> (\<forall>x \<in> set xs. p x = Inr False)"
  by (induction xs) (auto simp: rbind_eq_Inr split: if_splits)

lemma rforall_False_ex: "rforall p xs = Inr False \<Longrightarrow> \<exists>x \<in> set xs. p x = Inr False"
  by (induction xs) (auto simp: rbind_eq_Inr split: if_splits)

lemma rexists_True_ex: "rexists p xs = Inr True \<Longrightarrow> \<exists>x \<in> set xs. p x = Inr True"
  by (induction xs) (auto simp: rbind_eq_Inr split: if_splits)

lemma rforall_pure [simp]: "rforall (\<lambda>x. Inr (p x)) xs = Inr (\<forall>x \<in> set xs. p x)"
  by (induction xs) auto

lemma rexists_pure [simp]: "rexists (\<lambda>x. Inr (p x)) xs = Inr (\<exists>x \<in> set xs. p x)"
  by (induction xs) auto

lemma rmapM_pure [simp]: "rmapM (\<lambda>x. Inr (f x)) xs = Inr (map f xs)"
  by (induction xs) auto

lemma rmapM_Inr_length: "rmapM f xs = Inr ys \<Longrightarrow> length ys = length xs"
  by (induction xs arbitrary: ys) (auto simp: rbind_eq_Inr)

lemma rmapM_Inr_iff: "rmapM f xs = Inr ys \<longleftrightarrow> list_all2 (\<lambda>x y. f x = Inr y) xs ys"
proof (induction xs arbitrary: ys)
  case Nil
  then show ?case by auto
next
  case (Cons x xs)
  then show ?case by (cases ys) (auto simp: rbind_eq_Inr)
qed

lemma rmapM_Inr_mem: "rmapM f xs = Inr ys \<Longrightarrow> x \<in> set xs \<Longrightarrow> \<exists>y \<in> set ys. f x = Inr y"
  by (induction xs arbitrary: ys) (auto simp: rbind_eq_Inr)

lemma rfilterM_Inr_iff [res_simps]:
  "rfilterM p xs = Inr ys \<longleftrightarrow> (\<forall>x \<in> set xs. \<exists>b. p x = Inr b) \<and> ys = filter (\<lambda>x. p x = Inr True) xs"
proof (induction xs arbitrary: ys)
  case (Cons x xs)
  show ?case by (cases "p x") (auto simp: rbind_eq_Inr Cons)
qed auto

lemma rfoldM_append: "rfoldM f s (xs @ ys) = rbind (rfoldM f s xs) (\<lambda>t. rfoldM f t ys)"
  by (induction xs arbitrary: s) (simp_all add: rbind_assoc)

lemma rfoldM_invariant:
  assumes "rfoldM f s xs = Inr t" and "I s"
    and "\<And>a x b. x \<in> set xs \<Longrightarrow> I a \<Longrightarrow> f a x = Inr b \<Longrightarrow> I b"
  shows "I t"
  using assms
proof (induction xs arbitrary: s)
  case (Cons x xs)
  then obtain s' where "f s x = Inr s'" and "rfoldM f s' xs = Inr t"
    by (auto simp: rbind_eq_Inr)
  with Cons show ?case by (metis list.set_intros(1) list.set_intros(2))
qed simp

section \<open>Generators\<close>

text \<open>
  A Python generator is the list of what it yields; a generator that raises ends with the
  exception on the left of the sum. A consumer that stops early never sees the exception,
  as in the lazy original.
\<close>

type_synonym ('e, 'a) gen = "('e + 'a) list"

fun gen_bind :: "('e, 'a) gen \<Rightarrow> ('a \<Rightarrow> ('e, 'b) gen) \<Rightarrow> ('e, 'b) gen" where
  "gen_bind [] f = []"
| "gen_bind (Inl e # xs) f = [Inl e]"
| "gen_bind (Inr x # xs) f = f x @ gen_bind xs f"

definition gen_of :: "'e + 'a \<Rightarrow> ('e, 'a) gen" where
  "gen_of r = [r]"

definition gen_with :: "'e + 'a \<Rightarrow> ('a \<Rightarrow> ('e, 'b) gen) \<Rightarrow> ('e, 'b) gen" where
  "gen_with r f = (case r of Inl e \<Rightarrow> [Inl e] | Inr a \<Rightarrow> f a)"

lemma gen_with_simps [simp]: "gen_with (Inl e) f = [Inl e]" "gen_with (Inr a) f = f a"
  by (simp_all add: gen_with_def)

lemma gen_with_cong [fundef_cong]:
  "m = m' \<Longrightarrow> (\<And>a. m' = Inr a \<Longrightarrow> f a = f' a) \<Longrightarrow> gen_with m f = gen_with m' f'"
  by (cases m') simp_all

fun gen_collect :: "('e, 'a) gen \<Rightarrow> 'e + 'a list" where
  "gen_collect [] = Inr []"
| "gen_collect (Inl e # xs) = Inl e"
| "gen_collect (Inr x # xs) = rbind (gen_collect xs) (\<lambda>ys. Inr (x # ys))"

lemma gen_collect_Inr: "gen_collect g = Inr xs \<longleftrightarrow> g = map Inr xs"
proof (induction g arbitrary: xs rule: gen_collect.induct)
  case (3 x g)
  then show ?case by (cases xs) (auto simp: rbind_eq_Inr)
qed auto

lemma gen_collect_map_Inr [simp]: "gen_collect (map Inr xs) = Inr xs"
  by (simp add: gen_collect_Inr)

text \<open>A generator cut where it raises: what a consumer can see of a concatenation.\<close>

fun gen_cut :: "('e, 'a) gen \<Rightarrow> ('e, 'a) gen" where
  "gen_cut [] = []"
| "gen_cut (Inl e # xs) = [Inl e]"
| "gen_cut (Inr x # xs) = Inr x # gen_cut xs"

lemma gen_cut_subset: "set (gen_cut g) \<subseteq> set g"
  by (induction g rule: gen_cut.induct) auto

section \<open>Computations with a state\<close>

text \<open>
  A computation that changes the world and may raise: the world after an exception is the one at the
  moment it was raised. \<open>act_of\<close> is a computation that only may raise, \<open>act_do\<close> one that only changes
  the world, \<open>act_fold\<close> a loop.
\<close>

type_synonym ('w, 'e, 'a) act = "'w \<Rightarrow> ('e + 'a) \<times> 'w"

named_theorems act_simps \<open>how a computation with a state reaches a result\<close>

definition act_bind :: "('w, 'e, 'a) act \<Rightarrow> ('a \<Rightarrow> ('w, 'e, 'b) act) \<Rightarrow> ('w, 'e, 'b) act" where
  "act_bind m f w = (case m w of (Inl e, v) \<Rightarrow> (Inl e, v) | (Inr a, v) \<Rightarrow> f a v)"

definition act_return :: "'a \<Rightarrow> ('w, 'e, 'a) act" where
  "act_return a w = (Inr a, w)"

definition act_of :: "'e + 'a \<Rightarrow> ('w, 'e, 'a) act" where
  "act_of r w = (r, w)"

definition act_do :: "('w \<Rightarrow> 'w) \<Rightarrow> ('w, 'e, unit) act" where
  "act_do f w = (Inr (), f w)"

fun act_fold :: "('s \<Rightarrow> 'a \<Rightarrow> ('w, 'e, 's) act) \<Rightarrow> 's \<Rightarrow> 'a list \<Rightarrow> ('w, 'e, 's) act" where
  "act_fold f s [] = act_return s"
| "act_fold f s (x # xs) = act_bind (f s x) (\<lambda>t. act_fold f t xs)"

definition act_when :: "bool \<Rightarrow> ('w, 'e, unit) act \<Rightarrow> ('w, 'e, unit) act" where
  "act_when b m = (if b then m else act_return ())"

fun act_each :: "('a \<Rightarrow> ('w, 'e, unit) act) \<Rightarrow> 'a list \<Rightarrow> ('w, 'e, unit) act" where
  "act_each f [] = act_return ()"
| "act_each f (x # xs) = act_bind (f x) (\<lambda>_. act_each f xs)"

definition seq :: "('w, 'e, unit) act \<Rightarrow> ('w, 'e, 'a) act \<Rightarrow> ('w, 'e, 'a) act" where
  "seq m n = act_bind m (\<lambda>_. n)"

lemma act_return_iff [act_simps]: "act_return a w = (r, v) \<longleftrightarrow> r = Inr a \<and> v = w"
  by (auto simp: act_return_def)

lemma act_of_iff [act_simps]: "act_of r w = (s, v) \<longleftrightarrow> r = s \<and> v = w"
  by (auto simp: act_of_def)

lemma act_do_iff [act_simps]: "act_do f w = (r, v) \<longleftrightarrow> r = Inr () \<and> v = f w"
  by (auto simp: act_do_def)

lemma act_bind_Inr [act_simps]:
  "act_bind m f w = (Inr b, v) \<longleftrightarrow> (\<exists>a u. m w = (Inr a, u) \<and> f a u = (Inr b, v))"
  by (auto simp: act_bind_def split: prod.splits sum.splits)

lemma act_bind_Inl [act_simps]:
  "act_bind m f w = (Inl e, v) \<longleftrightarrow> m w = (Inl e, v) \<or> (\<exists>a u. m w = (Inr a, u) \<and> f a u = (Inl e, v))"
  by (auto simp: act_bind_def split: prod.splits sum.splits)

lemma act_bind_return [simp]: "act_bind (act_return a) f = f a"
  by (rule ext) (simp add: act_bind_def act_return_def)

lemma act_bind_of [simp]: "act_bind (act_of (Inr a)) f = f a" "act_bind (act_of (Inl e)) f = act_of (Inl e)"
  by (simp_all add: fun_eq_iff act_bind_def act_of_def)

lemma act_bind_assoc: "act_bind (act_bind m f) g = act_bind m (\<lambda>a. act_bind (f a) g)"
  by (rule ext) (auto simp: act_bind_def split: prod.splits sum.splits)

lemma act_bind_cong [fundef_cong]:
  "m w = m' w' \<Longrightarrow> (\<And>a u. m' w' = (Inr a, u) \<Longrightarrow> f a u = f' a u) \<Longrightarrow> act_bind m f w = act_bind m' f' w'"
  by (auto simp: act_bind_def split: prod.splits sum.splits)

lemma act_fold_append: "act_fold f s (xs @ ys) = act_bind (act_fold f s xs) (\<lambda>t. act_fold f t ys)"
  by (induction xs arbitrary: s) (simp_all add: act_bind_assoc)

text \<open>A loop keeps what each of its steps keeps, whether it ends or raises.\<close>

lemma act_fold_invariant:
  assumes "act_fold f s xs w = (r, v)" and "I w"
    and "\<And>a x u r' u'. x \<in> set xs \<Longrightarrow> I u \<Longrightarrow> f a x u = (r', u') \<Longrightarrow> I u'"
  shows "I v"
  using assms
proof (induction xs arbitrary: s w)
  case (Cons x xs)
  obtain r' u' where f: "f s x w = (r', u')" by fastforce
  have "I u'" by (rule Cons.prems(3)[OF list.set_intros(1) Cons.prems(2) f])
  show ?case
  proof (cases r')
    case (Inl e)
    with Cons.prems(1) f \<open>I u'\<close> show ?thesis by (simp add: act_bind_def)
  next
    case (Inr t)
    with Cons.prems(1) f have "act_fold f t xs u' = (r, v)" by (simp add: act_bind_def)
    from Cons.IH[OF this \<open>I u'\<close>] Cons.prems(3) show ?thesis by (meson list.set_intros(2))
  qed
qed (auto simp: act_return_def)

text \<open>
  \<open>preserves I m\<close>: the invariant \<open>I\<close> of the world holds after \<open>m\<close> when it held before, whatever \<open>m\<close> returns
  or raises; \<open>keeps view m\<close>: what \<open>view\<close> shows of the world is as before.
\<close>

definition preserves :: "('w \<Rightarrow> bool) \<Rightarrow> ('w, 'e, 'a) act \<Rightarrow> bool" where
  "preserves I m \<longleftrightarrow> (\<forall>w. I w \<longrightarrow> I (snd (m w)))"

definition keeps :: "('w \<Rightarrow> 'v) \<Rightarrow> ('w, 'e, 'a) act \<Rightarrow> bool" where
  "keeps view m \<longleftrightarrow> (\<forall>w. view (snd (m w)) = view w)"

named_theorems preserving \<open>computations that preserve an invariant\<close>
named_theorems keeping \<open>computations that leave what a view shows alone\<close>

lemma preserves_return [preserving]: "preserves I (act_return a)"
  by (simp add: preserves_def act_return_def)

lemma preserves_of [preserving]: "preserves I (act_of r)"
  by (simp add: preserves_def act_of_def)

lemma preserves_do: "(\<And>w. I w \<Longrightarrow> I (f w)) \<Longrightarrow> preserves I (act_do f)"
  by (simp add: preserves_def act_do_def)

lemma preserves_bind [preserving]: "preserves I m \<Longrightarrow> (\<And>a. preserves I (f a)) \<Longrightarrow> preserves I (act_bind m f)"
  by (auto simp: preserves_def act_bind_def split: prod.splits sum.splits)

lemma preserves_seq [preserving]: "preserves I m \<Longrightarrow> preserves I n \<Longrightarrow> preserves I (seq m n)"
  by (simp add: seq_def preserves_bind)

lemma preserves_when [preserving]: "preserves I m \<Longrightarrow> preserves I (act_when b m)"
  by (simp add: act_when_def preserves_return)

lemma preserves_if [preserving]: "preserves I m \<Longrightarrow> preserves I n \<Longrightarrow> preserves I (if b then m else n)"
  by simp

lemma preserves_each [preserving]: "(\<And>x. x \<in> set xs \<Longrightarrow> preserves I (f x)) \<Longrightarrow> preserves I (act_each f xs)"
  by (induction xs) (simp_all add: preserves_return preserves_bind)

lemma preserves_fold [preserving]: "(\<And>s x. x \<in> set xs \<Longrightarrow> preserves I (f s x)) \<Longrightarrow> preserves I (act_fold f s xs)"
  by (induction xs arbitrary: s) (simp_all add: preserves_return preserves_bind)

lemma preservesD: "preserves I m \<Longrightarrow> m w = (r, w') \<Longrightarrow> I w \<Longrightarrow> I w'"
  by (metis preserves_def snd_conv)

lemma keeps_iff: "keeps view m \<longleftrightarrow> (\<forall>x. preserves (\<lambda>w. view w = x) m)"
  by (auto simp: keeps_def preserves_def)

lemma keeps_return [keeping]: "keeps view (act_return a)"
  by (simp add: keeps_iff preserves_return)

lemma keeps_of [keeping]: "keeps view (act_of r)"
  by (simp add: keeps_iff preserves_of)

lemma keeps_do: "(\<And>w. view (f w) = view w) \<Longrightarrow> keeps view (act_do f)"
  by (simp add: keeps_iff preserves_do)

lemma keeps_bind [keeping]: "keeps view m \<Longrightarrow> (\<And>a. keeps view (f a)) \<Longrightarrow> keeps view (act_bind m f)"
  by (simp add: keeps_iff preserves_bind)

lemma keeps_seq [keeping]: "keeps view m \<Longrightarrow> keeps view n \<Longrightarrow> keeps view (seq m n)"
  by (simp add: seq_def keeps_bind)

lemma keeps_when [keeping]: "keeps view m \<Longrightarrow> keeps view (act_when b m)"
  by (simp add: act_when_def keeps_return)

lemma keeps_if [keeping]: "keeps view m \<Longrightarrow> keeps view n \<Longrightarrow> keeps view (if b then m else n)"
  by simp

lemma keeps_each [keeping]: "(\<And>x. x \<in> set xs \<Longrightarrow> keeps view (f x)) \<Longrightarrow> keeps view (act_each f xs)"
  by (simp add: keeps_iff preserves_each)

lemma keeps_fold [keeping]: "(\<And>s x. keeps view (f s x)) \<Longrightarrow> keeps view (act_fold f s xs)"
  by (simp add: keeps_iff preserves_fold)

lemma keepsD: "keeps view m \<Longrightarrow> m w = (r, w') \<Longrightarrow> view w' = view w"
  by (metis keeps_def snd_conv)

section \<open>Python strings\<close>

fun split_on :: "char \<Rightarrow> string \<Rightarrow> string list" where
  "split_on c [] = [[]]"
| "split_on c (x # xs) =
     (if x = c then [] # split_on c xs
      else (case split_on c xs of [] \<Rightarrow> [[x]] | w # ws \<Rightarrow> (x # w) # ws))"

fun join_with :: "string \<Rightarrow> string list \<Rightarrow> string" where
  "join_with s [] = []"
| "join_with s [w] = w"
| "join_with s (w # v # ws) = w @ s @ join_with s (v # ws)"

text \<open>\<open>s.split(c, 1)\<close>: at most one cut, at the first occurrence.\<close>

definition split_once :: "char \<Rightarrow> string \<Rightarrow> string list" where
  "split_once c s =
     (if c \<in> set s then [takeWhile (\<lambda>x. x \<noteq> c) s, tl (dropWhile (\<lambda>x. x \<noteq> c) s)] else [s])"

definition replace_char :: "char \<Rightarrow> string \<Rightarrow> string \<Rightarrow> string" where
  "replace_char c r s = concat (map (\<lambda>x. if x = c then r else [x]) s)"

text \<open>The ASCII characters \<open>str.strip\<close> and \<open>str.split\<close> treat as white space.\<close>

definition py_space :: "char \<Rightarrow> bool" where
  "py_space c \<longleftrightarrow> (let n = of_char c :: nat in n = 32 \<or> (9 \<le> n \<and> n \<le> 13) \<or> (28 \<le> n \<and> n \<le> 31))"

definition py_strip :: "string \<Rightarrow> string" where
  "py_strip s = rev (dropWhile py_space (rev (dropWhile py_space s)))"

fun split_ws :: "string \<Rightarrow> string \<Rightarrow> string list" where
  "split_ws acc [] = (if acc = [] then [] else [rev acc])"
| "split_ws acc (c # cs) =
     (if py_space c then (if acc = [] then split_ws [] cs else rev acc # split_ws [] cs)
      else split_ws (c # acc) cs)"

definition py_split :: "string \<Rightarrow> string list" where
  "py_split s = split_ws [] s"

definition is_digit :: "char \<Rightarrow> bool" where
  "is_digit c \<longleftrightarrow> (let n = of_char c :: nat in 48 \<le> n \<and> n \<le> 57)"

definition py_isdigit :: "string \<Rightarrow> bool" where
  "py_isdigit s \<longleftrightarrow> s \<noteq> [] \<and> list_all is_digit s"

definition to_lower :: "string \<Rightarrow> string" where
  "to_lower s = map (\<lambda>c. let n = of_char c :: nat in if 65 \<le> n \<and> n \<le> 90 then char_of (n + 32) else c) s"

definition to_upper :: "string \<Rightarrow> string" where
  "to_upper s = map (\<lambda>c. let n = of_char c :: nat in if 97 \<le> n \<and> n \<le> 122 then char_of (n - 32) else c) s"

lemma upper_upper [simp]: "to_upper (to_upper t) = to_upper t"
proof -
  have c: "(let n = of_char (let n = of_char c :: nat in if 97 \<le> n \<and> n \<le> 122 then char_of (n - 32) else c) :: nat in
      if 97 \<le> n \<and> n \<le> 122 then char_of (n - 32)
      else (let n = of_char c :: nat in if 97 \<le> n \<and> n \<le> 122 then char_of (n - 32) else c)) =
    (let n = of_char c :: nat in if 97 \<le> n \<and> n \<le> 122 then char_of (n - 32) else (c :: char))" for c
    by (auto simp: Let_def)
  show ?thesis by (simp add: to_upper_def c)
qed

lemma split_on_ne [simp]: "split_on c s \<noteq> []"
  by (induction s) (auto split: list.splits)

lemma split_on_no_sep: "c \<notin> set s \<Longrightarrow> split_on c s = [s]"
  by (induction s) auto

lemma split_on_Cons_sep: "c \<notin> set w \<Longrightarrow> split_on c (w @ c # s) = w # split_on c s"
  by (induction w) auto

lemma split_on_pieces: "w \<in> set (split_on c s) \<Longrightarrow> c \<notin> set w"
proof (induction s arbitrary: w)
  case (Cons x xs)
  then show ?case
    by (cases "split_on c xs") (auto split: if_splits)
qed simp

lemma split_on_join [str_simps]:
  "ws \<noteq> [] \<Longrightarrow> \<forall>w \<in> set ws. c \<notin> set w \<Longrightarrow> split_on c (join_with [c] ws) = ws"
proof (induction "[c]" ws rule: join_with.induct)
  case (2 w)
  then show ?case by (simp add: split_on_no_sep)
next
  case (3 w v ws)
  then show ?case by (simp add: split_on_Cons_sep)
qed simp

lemma join_Cons_ne: "ws \<noteq> [] \<Longrightarrow> join_with s (w # ws) = w @ s @ join_with s ws"
  by (cases ws) auto

lemma join_split_on [str_simps]: "join_with [c] (split_on c s) = s"
proof (induction s)
  case (Cons x xs)
  show ?case
  proof (cases "x = c")
    case True
    with Cons show ?thesis by (simp add: join_Cons_ne)
  next
    case False
    obtain w ws where "split_on c xs = w # ws"
      by (cases "split_on c xs") auto
    with Cons False show ?thesis by (cases ws) auto
  qed
qed simp

lemma char_of_lower [str_simps]:
  "char_of (97::nat) = CHR ''a''" "char_of (98::nat) = CHR ''b''" "char_of (99::nat) = CHR ''c''"
  "char_of (100::nat) = CHR ''d''" "char_of (101::nat) = CHR ''e''" "char_of (102::nat) = CHR ''f''"
  "char_of (103::nat) = CHR ''g''" "char_of (104::nat) = CHR ''h''" "char_of (105::nat) = CHR ''i''"
  "char_of (106::nat) = CHR ''j''" "char_of (107::nat) = CHR ''k''" "char_of (108::nat) = CHR ''l''"
  "char_of (109::nat) = CHR ''m''" "char_of (110::nat) = CHR ''n''" "char_of (111::nat) = CHR ''o''"
  "char_of (112::nat) = CHR ''p''" "char_of (113::nat) = CHR ''q''" "char_of (114::nat) = CHR ''r''"
  "char_of (115::nat) = CHR ''s''" "char_of (116::nat) = CHR ''t''" "char_of (117::nat) = CHR ''u''"
  "char_of (118::nat) = CHR ''v''" "char_of (119::nat) = CHR ''w''" "char_of (120::nat) = CHR ''x''"
  "char_of (121::nat) = CHR ''y''" "char_of (122::nat) = CHR ''z''"
  by code_simp+

section \<open>Dictionaries as association lists\<close>

text \<open>
  A Python dictionary keeps insertion order: \<open>AList.update\<close> overwrites in place and appends
  a new key at the end, \<open>AList.delete\<close> removes a key, and iteration is the list order.
\<close>

lemma map_of_update_same [simp]: "map_of (AList.update k v al) k = Some v"
  by (simp add: update_conv')

lemma map_of_update_other [simp]: "k \<noteq> j \<Longrightarrow> map_of (AList.update k v al) j = map_of al j"
  by (simp add: update_conv')

lemma map_of_filter_snd:
  "distinct (map fst d) \<Longrightarrow> map_of (filter (\<lambda>p. P (snd p)) d) k =
     (case map_of d k of Some v \<Rightarrow> if P v then Some v else None | None \<Rightarrow> None)"
  by (induction d) (auto split: option.splits simp: image_iff map_of_eq_None_iff dest: map_of_SomeD)

lemma map_of_delete_same [simp]: "map_of (AList.delete k al) k = None"
  by (simp add: delete_conv')

lemma map_of_delete_other [simp]: "k \<noteq> j \<Longrightarrow> map_of (AList.delete k al) j = map_of al j"
  by (simp add: delete_conv')

end
