(* ===== verification/PyJson.thy ===== *)
theory PyJson
  imports Prelude
begin

text \<open>
  JSON documents as Python holds them after \<open>json.loads\<close>: dictionaries keep insertion order,
  so an object is an association list with distinct keys (\<open>wf_json\<close>); \<open>==\<close> ignores that order and
  identifies \<open>True\<close> with 1 (\<open>json_eq\<close>). Floats do not occur in a ConfigDB document and are not
  modelled. The operators the sources apply to such values (\<open>[]\<close>, \<open>in\<close>, iteration, truth
  value, \<open>get\<close>) are functions that raise what Python raises.
\<close>

section \<open>Values and exceptions\<close>

datatype json =
    JNull
  | JBool bool
  | JInt int
  | JStr string
  | JArr "json list"
  | JObj "(string \<times> json) list"

type_synonym dict = "(string \<times> json) list"

datatype token = TStr string | TIdx int

text \<open>
  The exceptions of the sources and of the libraries they call, without their messages.
  \<open>OutOfFuel\<close> is no Python exception: it marks a bounded loop or recursion that was cut off.
\<close>

datatype err =
    KeyError | IndexError | TypeError | ValueError | AttributeError | NameError | AssertionError
  | GenericConfigUpdaterError | IllegalPatchOperationError | EmptyTableError
  | SonicYangException | JsonPatchException | JsonPointerException
  | ImportError | OSError | FileNotFoundError | RuntimeError | PyException
  | PackageManagerError | PackageNotFoundError | PackageAlreadyExistsError
  | PackageInstallationError | PackageUninstallationError | PackageUpgradeError
  | PackageSonicRequirementError | PackageDependencyError | PackageComponentDependencyError
  | PackageConflictError | PackageComponentConflictError
  | ManifestError | MetadataError | ServiceCreatorError | AclLoaderException
  | SystemExit | OutOfFuel

fun is_arr :: "json \<Rightarrow> bool" where
  "is_arr (JArr _) = True"
| "is_arr _ = False"

fun is_obj :: "json \<Rightarrow> bool" where
  "is_obj (JObj _) = True"
| "is_obj _ = False"

fun is_str :: "json \<Rightarrow> bool" where
  "is_str (JStr _) = True"
| "is_str _ = False"

definition keys :: "dict \<Rightarrow> string list" where
  "keys d = map fst d"

fun wf_json :: "json \<Rightarrow> bool" where
  "wf_json (JArr xs) = (\<forall>x \<in> set xs. wf_json x)"
| "wf_json (JObj d) = (distinct (map fst d) \<and> (\<forall>p \<in> set d. wf_json (snd p)))"
| "wf_json _ = True"

section \<open>Equality\<close>

lemma size_zip_left [termination_simp]:
  "(a, b) \<in> set (zip xs ys) \<Longrightarrow> size a < Suc (size_list size xs)"
  by (meson le_imp_less_Suc order_refl set_zip_leftD size_list_estimation')

lemma size_map_of [termination_simp]:
  "map_of d k = Some v \<Longrightarrow> size v < Suc (size_list (\<lambda>p. Suc (size (snd p))) d)"
  by (induction d) (auto split: if_splits)

fun json_eq :: "json \<Rightarrow> json \<Rightarrow> bool" where
  "json_eq (JArr xs) b =
     (case b of JArr ys \<Rightarrow> length xs = length ys \<and> (\<forall>p \<in> set (zip xs ys). json_eq (fst p) (snd p))
      | _ \<Rightarrow> False)"
| "json_eq (JObj d) b =
     (case b of JObj e \<Rightarrow> length d = length e \<and>
        (\<forall>p \<in> set d. case map_of e (fst p) of None \<Rightarrow> False | Some w \<Rightarrow> json_eq (snd p) w)
      | _ \<Rightarrow> False)"
| "json_eq JNull b = (b = JNull)"
| "json_eq (JStr s) b = (b = JStr s)"
| "json_eq (JBool x) b = (b = JBool x \<or> b = JInt (of_bool x))"
| "json_eq (JInt i) b = (case b of JInt j \<Rightarrow> i = j | JBool x \<Rightarrow> i = of_bool x | _ \<Rightarrow> False)"

lemma json_eq_JArr: "json_eq (JArr xs) (JArr ys) \<longleftrightarrow> list_all2 json_eq xs ys"
  by (auto simp: list_all2_iff)

lemma json_eq_JObj:
  "json_eq (JObj d) (JObj e) \<longleftrightarrow> length d = length e \<and>
     (\<forall>k v. (k, v) \<in> set d \<longrightarrow> (\<exists>w. map_of e k = Some w \<and> json_eq v w))"
  by (auto split: option.splits) (blast, metis option.inject)

lemma json_eq_JObjD:
  "json_eq (JObj d) (JObj e) \<Longrightarrow> (k, v) \<in> set d \<Longrightarrow> \<exists>w. map_of e k = Some w \<and> json_eq v w"
  by (simp only: json_eq_JObj)

lemma json_eq_refl [simp]: "wf_json a \<Longrightarrow> json_eq a a"
proof (induction a rule: wf_json.induct)
  case (1 xs)
  then show ?case by (auto simp: in_set_zip)
next
  case (2 d)
  have "map_of d k = Some v" if "(k, v) \<in> set d" for k v
    using 2 that by simp
  with 2 show ?case by fastforce
qed auto

lemma map_of_wf: "wf_json (JObj d) \<Longrightarrow> map_of d k = Some v \<Longrightarrow> wf_json v"
  by (auto dest!: map_of_SomeD)

lemma json_eq_JObj_keys:
  assumes "json_eq (JObj d) (JObj e)" and "distinct (map fst d)"
  shows "set (map fst d) = set (map fst e)"
proof -
  have sub: "set (map fst d) \<subseteq> set (map fst e)"
  proof
    fix k assume "k \<in> set (map fst d)"
    then obtain v where "(k, v) \<in> set d" by auto
    then obtain w where "map_of e k = Some w"
      using json_eq_JObjD[OF assms(1)] by blast
    then show "k \<in> set (map fst e)"
      by (metis domI dom_map_of_conv_image_fst list.set_map)
  qed
  have "card (set (map fst d)) = length e"
    using assms by (simp add: distinct_card del: set_map)
  moreover have "card (set (map fst e)) \<le> length e"
    using card_length[of "map fst e"] by simp
  ultimately show ?thesis
    using sub by (metis List.finite_set card_subset_eq card_mono le_antisym)
qed

lemma json_eq_JObj_map_of:
  assumes "json_eq (JObj d) (JObj e)" and "distinct (map fst d)"
  shows "rel_option json_eq (map_of d k) (map_of e k)"
proof (cases "map_of d k")
  case None
  then have "k \<notin> set (map fst e)"
    using json_eq_JObj_keys[OF assms] by (simp add: map_of_eq_None_iff)
  then have "map_of e k = None"
    by (simp add: map_of_eq_None_iff)
  with None show ?thesis by simp
next
  case (Some v)
  then have "(k, v) \<in> set d" by (rule map_of_SomeD)
  then obtain w where "map_of e k = Some w" "json_eq v w"
    using json_eq_JObjD[OF assms(1)] by blast
  with Some show ?thesis by simp
qed

lemma json_eq_JObj_I:
  assumes "distinct (map fst d)" and "distinct (map fst e)" and "\<And>k. rel_option json_eq (map_of d k) (map_of e k)"
  shows "json_eq (JObj d) (JObj e)"
proof -
  have same: "map_of d k = None \<longleftrightarrow> map_of e k = None" for k using assms(3)[of k] by (auto simp: option.rel_sel)
  then have "set (map fst d) = set (map fst e)" by (simp add: map_of_eq_None_iff set_eq_iff)
  then have "length d = length e" using assms(1,2) by (metis distinct_card length_map)
  moreover have "\<exists>w. map_of e k = Some w \<and> json_eq v w" if "(k, v) \<in> set d" for k v
  proof -
    have "map_of d k = Some v" using assms(1) that by simp
    with assms(3)[of k] show ?thesis by (cases "map_of e k") auto
  qed
  ultimately show ?thesis unfolding json_eq_JObj by blast
qed

lemma json_eq_sym: "wf_json a \<Longrightarrow> wf_json b \<Longrightarrow> json_eq a b \<Longrightarrow> json_eq b a"
proof (induction a b rule: json_eq.induct)
  case (1 xs b)
  then obtain ys where b: "b = JArr ys" and len: "length xs = length ys"
    by (cases b) auto
  have "json_eq (ys ! n) (xs ! n)" if n: "n < length ys" for n
  proof -
    have "(xs ! n, ys ! n) \<in> set (zip xs ys)"
      using n len by (force simp: in_set_zip)
    moreover have "wf_json (xs ! n)" "wf_json (ys ! n)"
      using 1(2,3) b len n by simp_all
    moreover have "json_eq (xs ! n) (ys ! n)"
      using 1(4) b n by (simp only: json_eq_JArr list_all2_conv_all_nth)
    ultimately show ?thesis
      using 1(1)[OF b] by fastforce
  qed
  with len show ?case unfolding b json_eq_JArr list_all2_conv_all_nth by simp
next
  case (2 d b)
  show ?case
  proof (cases b)
    case (JObj e)
    have eq: "json_eq (JObj d) (JObj e)" and dd: "distinct (map fst d)"
      using 2 JObj by auto
    have "\<exists>v. map_of d k = Some v \<and> json_eq w v" if kw: "(k, w) \<in> set e" for k w
    proof -
      from kw 2(3) JObj have w: "map_of e k = Some w" by simp
      with json_eq_JObj_map_of[OF eq dd, of k] obtain v where v: "map_of d k = Some v" "json_eq v w"
        by (cases "map_of d k") auto
      from v(1) have mem: "(k, v) \<in> set d" by (rule map_of_SomeD)
      have "wf_json v" "wf_json w"
        using 2(2,3) JObj mem kw by auto
      with 2(1)[OF JObj mem] v w have "json_eq w v" by simp
      with v show ?thesis by blast
    qed
    moreover have "length e = length d" using eq by simp
    ultimately show ?thesis unfolding JObj json_eq_JObj by blast
  qed (use 2 in auto)
qed (auto split: json.splits)

lemma json_eq_trans: "wf_json a \<Longrightarrow> wf_json b \<Longrightarrow> wf_json c \<Longrightarrow> json_eq a b \<Longrightarrow> json_eq b c \<Longrightarrow> json_eq a c"
proof (induction a b arbitrary: c rule: json_eq.induct)
  case (1 xs b)
  obtain ys where b: "b = JArr ys" "length xs = length ys" using 1(5) by (cases b) auto
  obtain zs where c: "c = JArr zs" "length ys = length zs" using 1(6) b by (cases c) auto
  have "json_eq (xs ! n) (zs ! n)" if n: "n < length xs" for n
  proof -
    have "(xs ! n, ys ! n) \<in> set (zip xs ys)" using n b by (force simp: in_set_zip)
    moreover have "json_eq (xs ! n) (ys ! n)" "json_eq (ys ! n) (zs ! n)"
      using 1(5,6) b c n by (simp_all only: json_eq_JArr list_all2_conv_all_nth)
    moreover have "wf_json (xs ! n)" "wf_json (ys ! n)" "wf_json (zs ! n)" using 1(2-4) b c n by simp_all
    ultimately show ?thesis using 1(1)[OF b(1)] by fastforce
  qed
  with b c show ?case unfolding c(1) json_eq_JArr list_all2_conv_all_nth by simp
next
  case (2 d b)
  obtain e where b: "b = JObj e" using 2(5) by (cases b) auto
  obtain f where c: "c = JObj f" using 2(6) b by (cases c) auto
  have dist: "distinct (map fst d)" "distinct (map fst e)" "distinct (map fst f)" using 2 b c by auto
  show ?case unfolding c
  proof (rule json_eq_JObj_I[OF dist(1,3)])
    fix k
    have r: "rel_option json_eq (map_of d k) (map_of e k)" "rel_option json_eq (map_of e k) (map_of f k)"
      using json_eq_JObj_map_of[of d e] json_eq_JObj_map_of[of e f] 2(5,6) dist b c by simp_all
    show "rel_option json_eq (map_of d k) (map_of f k)"
    proof (cases "map_of d k")
      case None
      with r show ?thesis by (auto simp: option.rel_sel)
    next
      case (Some v)
      then obtain w x where wx: "map_of e k = Some w" "map_of f k = Some x" "json_eq v w" "json_eq w x"
        using r by (cases "map_of e k"; cases "map_of f k") auto
      have "wf_json v" "wf_json w" "wf_json x" using 2(2-4) b c Some wx by (auto dest: map_of_wf)
      then have "json_eq v x" using 2(1)[OF b, of "(k, v)" w x] map_of_SomeD[OF Some] wx by simp
      then show ?thesis using Some wx by simp
    qed
  qed
qed (auto split: json.splits if_splits)

lemma json_eq_null: "json_eq a JNull \<longleftrightarrow> a = JNull" "json_eq JNull a \<longleftrightarrow> a = JNull"
  by (cases a; simp)+
section \<open>Truth value, indexing, membership, iteration\<close>

fun py_truthy :: "json \<Rightarrow> bool" where
  "py_truthy JNull = False"
| "py_truthy (JBool b) = b"
| "py_truthy (JInt i) = (i \<noteq> 0)"
| "py_truthy (JStr s) = (s \<noteq> [])"
| "py_truthy (JArr xs) = (xs \<noteq> [])"
| "py_truthy (JObj d) = (d \<noteq> [])"

definition list_get :: "'a list \<Rightarrow> int \<Rightarrow> err + 'a" where
  "list_get xs i =
     (let j = (if i < 0 then i + int (length xs) else i)
      in if j < 0 \<or> int (length xs) \<le> j then Inl IndexError else Inr (xs ! nat j))"

text \<open>\<open>value[token]\<close>.\<close>

fun py_getitem :: "json \<Rightarrow> token \<Rightarrow> err + json" where
  "py_getitem (JObj d) (TStr k) = (case map_of d k of None \<Rightarrow> Inl KeyError | Some v \<Rightarrow> Inr v)"
| "py_getitem (JObj d) (TIdx i) = Inl KeyError"
| "py_getitem (JArr xs) (TIdx i) = list_get xs i"
| "py_getitem (JStr s) (TIdx i) = rbind (list_get s i) (\<lambda>c. Inr (JStr [c]))"
| "py_getitem _ _ = Inl TypeError"

definition py_key :: "json \<Rightarrow> string \<Rightarrow> err + json" where
  "py_key v k = py_getitem v (TStr k)"

fun token_json :: "token \<Rightarrow> json" where
  "token_json (TStr s) = JStr s"
| "token_json (TIdx i) = JInt i"

text \<open>\<open>token in value\<close>: a key of a dictionary, an item of a list, a substring of a string.\<close>

fun py_contains :: "json \<Rightarrow> token \<Rightarrow> err + bool" where
  "py_contains (JObj d) (TStr k) = Inr (map_of d k \<noteq> None)"
| "py_contains (JObj d) (TIdx i) = Inr False"
| "py_contains (JArr xs) t = Inr (\<exists>x \<in> set xs. json_eq x (token_json t))"
| "py_contains (JStr s) (TStr k) = Inr (sublist k s)"
| "py_contains _ _ = Inl TypeError"

text \<open>\<open>for x in value\<close>: the keys of a dictionary, the items of a list, the characters of a string.\<close>

fun py_iter :: "json \<Rightarrow> err + json list" where
  "py_iter (JObj d) = Inr (map (JStr \<circ> fst) d)"
| "py_iter (JArr xs) = Inr xs"
| "py_iter (JStr s) = Inr (map (\<lambda>c. JStr [c]) s)"
| "py_iter _ = Inl TypeError"

fun py_len :: "json \<Rightarrow> err + nat" where
  "py_len (JObj d) = Inr (length d)"
| "py_len (JArr xs) = Inr (length xs)"
| "py_len (JStr s) = Inr (length s)"
| "py_len _ = Inl TypeError"

text \<open>\<open>value.get(key)\<close> and \<open>value.keys()\<close>; only dictionaries have these methods.\<close>

fun py_get :: "json \<Rightarrow> string \<Rightarrow> err + json option" where
  "py_get (JObj d) k = Inr (map_of d k)"
| "py_get _ _ = Inl AttributeError"

fun py_keys :: "json \<Rightarrow> err + string list" where
  "py_keys (JObj d) = Inr (map fst d)"
| "py_keys _ = Inl AttributeError"

fun as_dict :: "json \<Rightarrow> err + dict" where
  "as_dict (JObj d) = Inr d"
| "as_dict _ = Inl TypeError"

text \<open>\<open>.get(key)\<close> where a missing key and a null value both read as None.\<close>

definition opt_json :: "json option \<Rightarrow> json" where
  "opt_json o' = (case o' of None \<Rightarrow> JNull | Some v \<Rightarrow> v)"

section \<open>Paths\<close>

text \<open>The value a list of tokens leads to: \<open>value[t1][t2]\<dots>\<close>.\<close>

fun py_path :: "json \<Rightarrow> token list \<Rightarrow> err + json" where
  "py_path v [] = Inr v"
| "py_path v (t # ts) = rbind (py_getitem v t) (\<lambda>w. py_path w ts)"

lemma py_path_append: "py_path v (ts @ us) = rbind (py_path v ts) (\<lambda>w. py_path w us)"
  by (induction ts arbitrary: v) (simp_all add: rbind_assoc)

lemma py_key_JObj [simp]:
  "py_key (JObj d) k = (case map_of d k of None \<Rightarrow> Inl KeyError | Some v \<Rightarrow> Inr v)"
  by (simp add: py_key_def)

lemma py_getitem_wf: "wf_json v \<Longrightarrow> py_getitem v t = Inr w \<Longrightarrow> wf_json w"
  by (cases "(v, t)" rule: py_getitem.cases)
     (auto simp: list_get_def rbind_eq_Inr Let_def split: option.splits if_splits dest!: map_of_SomeD)

lemma py_path_wf: "wf_json v \<Longrightarrow> py_path v ts = Inr w \<Longrightarrow> wf_json w"
  by (induction ts arbitrary: v) (auto simp: rbind_eq_Inr dest: py_getitem_wf)

lemma set_update_subset: "set (AList.update k v d) \<subseteq> insert (k, v) (set d)"
  by (induction d) (auto split: if_splits)

lemma wf_update [simp]: "wf_json (JObj d) \<Longrightarrow> wf_json v \<Longrightarrow> wf_json (JObj (AList.update k v d))"
  using set_update_subset[of k v d] by (fastforce simp: distinct_update)

lemma wf_delete [simp]: "wf_json (JObj d) \<Longrightarrow> wf_json (JObj (AList.delete k d))"
  using distinct_delete[of d k] by (auto simp: AList.delete_eq)

end
