(* ===== verification/Sorters.thy ===== *)
theory Sorters
  imports PyJson
begin

text \<open>
  The three search algorithms of \<open>generic_config_updater/patch_sorter.py\<close> (\<open>DfsSorter\<close>,
  \<open>BfsSorter\<close>, \<open>MemoizationSorter\<close>), over an arbitrary move wrapper: what a sorter calls on
  its \<open>MoveWrapper\<close> and on a \<open>Diff\<close> is the record \<open>search_ops\<close>. The mutable dictionaries
  \<open>visited\<close> and \<open>mem\<close> are passed as state. Recursion depth (DFS, memoization) and the number
  of queue pops (BFS) are bounded by a fuel argument; the lemmas \<open>dfs_enough_fuel\<close> and
  \<open>bfs_enough_fuel\<close> say how much is enough when finitely many configurations are reachable.
\<close>

section \<open>What a sorter calls\<close>

record ('d, 'm, 'h) search_ops =
  so_generate :: "'d \<Rightarrow> (err, 'm) gen"
  so_validate :: "'m \<Rightarrow> 'd \<Rightarrow> err + bool"
  so_simulate :: "'m \<Rightarrow> 'd \<Rightarrow> err + 'd"
  so_done :: "'d \<Rightarrow> bool"
  so_hash :: "'d \<Rightarrow> 'h"

text \<open>A step takes a generated and validated move; a plan is a chain of steps.\<close>

inductive move_step :: "('d, 'm, 'h) search_ops \<Rightarrow> 'd \<Rightarrow> 'm \<Rightarrow> 'd \<Rightarrow> bool" for W where
  step: "Inr m \<in> set (so_generate W d) \<Longrightarrow> so_validate W m d = Inr True \<Longrightarrow>
     so_simulate W m d = Inr d' \<Longrightarrow> move_step W d m d'"

inductive plan :: "('d, 'm, 'h) search_ops \<Rightarrow> 'd \<Rightarrow> 'm list \<Rightarrow> 'd \<Rightarrow> bool" for W where
  plan_nil: "plan W d [] d"
| plan_cons: "move_step W d m d' \<Longrightarrow> plan W d' ms d'' \<Longrightarrow> plan W d (m # ms) d''"

inductive_simps plan_Nil_iff: "plan W d [] e"
inductive_simps plan_Cons_iff: "plan W d (m # ms) e"
inductive_cases move_stepE: "move_step W d m d'"

text \<open>The diffs a plan goes through after each of its moves.\<close>

fun run_moves :: "('d, 'm, 'h) search_ops \<Rightarrow> 'd \<Rightarrow> 'm list \<Rightarrow> err + 'd list" where
  "run_moves W d [] = Inr []"
| "run_moves W d (m # ms) =
     rbind (so_simulate W m d) (\<lambda>d'. rbind (run_moves W d' ms) (\<lambda>ds. Inr (d' # ds)))"

lemma plan_run_moves: "plan W d ms e \<Longrightarrow> \<exists>ds. run_moves W d ms = Inr ds \<and> last (d # ds) = e"
proof (induction rule: plan.induct)
  case (plan_cons d m d' ms d'')
  then obtain ds where ds: "run_moves W d' ms = Inr ds" "last (d' # ds) = d''" by blast
  have "so_simulate W m d = Inr d'"
    using plan_cons.hyps(1) by (rule move_stepE)
  with ds have "run_moves W d (m # ms) = Inr (d' # ds)" by simp
  moreover have "last (d # d' # ds) = d''" using ds(2) by simp
  ultimately show ?case by blast
qed simp

lemma plan_append: "plan W d ms e \<Longrightarrow> plan W e ns f \<Longrightarrow> plan W d (ms @ ns) f"
  by (induction rule: plan.induct) (auto intro: plan.intros)

lemma plan_snoc: "plan W d ms e \<Longrightarrow> move_step W e m f \<Longrightarrow> plan W d (ms @ [m]) f"
  by (auto intro: plan_append plan.intros)

section \<open>Depth-first search\<close>

function (sequential)
  dfs_sort :: "('d, 'm, 'h) search_ops \<Rightarrow> nat \<Rightarrow> 'd \<Rightarrow> 'h list \<Rightarrow> (err + 'm list option) \<times> 'h list"
and dfs_moves :: "('d, 'm, 'h) search_ops \<Rightarrow> nat \<Rightarrow> 'd \<Rightarrow> (err, 'm) gen \<Rightarrow> 'h list
     \<Rightarrow> (err + 'm list option) \<times> 'h list" where
  "dfs_sort W 0 d vis = (Inl OutOfFuel, vis)"
| "dfs_sort W (Suc n) d vis =
     (if so_done W d then (Inr (Some []), vis)
      else if so_hash W d \<in> set vis then (Inr None, vis)
      else dfs_moves W n d (so_generate W d) (so_hash W d # vis))"
| "dfs_moves W n d [] vis = (Inr None, vis)"
| "dfs_moves W n d (Inl e # g) vis = (Inl e, vis)"
| "dfs_moves W n d (Inr m # g) vis =
     (case so_validate W m d of
        Inl e \<Rightarrow> (Inl e, vis)
      | Inr False \<Rightarrow> dfs_moves W n d g vis
      | Inr True \<Rightarrow>
          (case so_simulate W m d of
             Inl e \<Rightarrow> (Inl e, vis)
           | Inr d' \<Rightarrow>
               (case dfs_sort W n d' vis of
                  (Inl e, vis') \<Rightarrow> (Inl e, vis')
                | (Inr (Some ms), vis') \<Rightarrow> (Inr (Some (m # ms)), vis')
                | (Inr None, vis') \<Rightarrow> dfs_moves W n d g vis')))"
  by pat_completeness auto
termination
  by (relation "measures [\<lambda>x. case x of Inl (_, n, _) \<Rightarrow> 2 * n | Inr (_, n, _) \<Rightarrow> 2 * n + 1,
       \<lambda>x. case x of Inl _ \<Rightarrow> 0 | Inr (_, _, _, g, _) \<Rightarrow> length g]") auto

lemma dfs_moves_yield_cases:
  assumes "dfs_moves W n d (Inr m # g) vis = (Inr r, vis')"
  obtains (rejected) "so_validate W m d = Inr False" "dfs_moves W n d g vis = (Inr r, vis')"
  | (found) d' ms where "so_validate W m d = Inr True" "so_simulate W m d = Inr d'"
      "dfs_sort W n d' vis = (Inr (Some ms), vis')" "r = Some (m # ms)"
  | (dead_end) d' v where "so_validate W m d = Inr True" "so_simulate W m d = Inr d'"
      "dfs_sort W n d' vis = (Inr None, v)" "dfs_moves W n d g v = (Inr r, vis')"
  using assms by (auto split: sum.splits bool.splits prod.splits option.splits)

lemma dfs_sound:
  "dfs_sort W n d vis = (Inr (Some ms), vis') \<Longrightarrow> \<exists>e. plan W d ms e \<and> so_done W e"
  "dfs_moves W n d g vis = (Inr (Some ms), vis') \<Longrightarrow> set g \<subseteq> set (so_generate W d) \<Longrightarrow>
     \<exists>e. plan W d ms e \<and> so_done W e"
proof (induction W n d vis and W n d g vis arbitrary: ms vis' and ms vis'
    rule: dfs_sort_dfs_moves.induct)
  case (5 W n d m g vis)
  from 5(4) show ?case
  proof (cases rule: dfs_moves_yield_cases)
    case rejected
    then show ?thesis using 5(3)[of False] 5(5) by simp
  next
    case (found d' ns)
    then obtain e where e: "plan W d' ns e" "so_done W e" using 5(1) by blast
    have "move_step W d m d'" using found 5(5) by (auto intro: move_step.intros)
    with e found show ?thesis by (auto intro: plan_cons)
  next
    case (dead_end d' v)
    then show ?thesis using 5(2)[of True d' "Inr None" v None] 5(5) by simp
  qed
qed (auto split: if_splits intro: plan.intros)

lemma dfs_vis_mono:
  "dfs_sort W n d vis = (Inr r, vis') \<Longrightarrow> set vis \<subseteq> set vis'"
  "dfs_moves W n d g vis = (Inr r, vis') \<Longrightarrow> set vis \<subseteq> set vis'"
proof (induction W n d vis and W n d g vis arbitrary: r vis' and r vis'
    rule: dfs_sort_dfs_moves.induct)
  case (5 W n d m g vis)
  from 5(4) show ?case
  proof (cases rule: dfs_moves_yield_cases)
    case rejected
    then show ?thesis using 5(3) by blast
  next
    case (found d' ns)
    then show ?thesis using 5(1) by blast
  next
    case (dead_end d' v)
    then show ?thesis using 5(1)[of True d' None v] 5(2)[of True d' "Inr None" v None r vis'] by simp
  qed
qed (auto split: if_splits)

text \<open>Enough fuel: one unit more than there are unvisited configurations.\<close>

definition closed_under :: "('d, 'm, 'h) search_ops \<Rightarrow> 'd set \<Rightarrow> bool" where
  "closed_under W D \<longleftrightarrow> (\<forall>d \<in> D. \<forall>m d'. move_step W d m d' \<longrightarrow> d' \<in> D)"

text \<open>No operation of the wrapper itself runs out of fuel on these configurations.\<close>

definition total_on_ops :: "('d, 'm, 'h) search_ops \<Rightarrow> 'd set \<Rightarrow> bool" where
  "total_on_ops W D \<longleftrightarrow> (\<forall>d \<in> D. Inl OutOfFuel \<notin> set (so_generate W d) \<and>
     (\<forall>m. so_validate W m d \<noteq> Inl OutOfFuel \<and> so_simulate W m d \<noteq> Inl OutOfFuel))"

lemma closed_underD:
  "closed_under W D \<Longrightarrow> d \<in> D \<Longrightarrow> Inr m \<in> set (so_generate W d) \<Longrightarrow>
     so_validate W m d = Inr True \<Longrightarrow> so_simulate W m d = Inr d' \<Longrightarrow> d' \<in> D"
  unfolding closed_under_def by (blast intro: move_step.intros)

lemma dfs_enough_fuel_aux:
  assumes fin: "finite D" and cl: "closed_under W D" and tot: "total_on_ops W D"
  shows
  "d \<in> D \<Longrightarrow> card (so_hash W ` D - set vis) < n \<Longrightarrow> fst (dfs_sort W n d vis) \<noteq> Inl OutOfFuel"
  "d \<in> D \<Longrightarrow> set g \<subseteq> set (so_generate W d) \<Longrightarrow> card (so_hash W ` D - set vis) < n \<Longrightarrow>
     fst (dfs_moves W n d g vis) \<noteq> Inl OutOfFuel"
  using cl tot
proof (induction W n d vis and W n d g vis rule: dfs_sort_dfs_moves.induct)
  case (2 W n d vis)
  have "card (so_hash W ` D - set (so_hash W d # vis)) < n" if "so_hash W d \<notin> set vis"
  proof -
    have "so_hash W ` D - set (so_hash W d # vis) \<subset> so_hash W ` D - set vis"
      using that 2 by auto
    then have "card (so_hash W ` D - set (so_hash W d # vis)) < card (so_hash W ` D - set vis)"
      using fin by (intro psubset_card_mono) auto
    then show ?thesis using 2 by linarith
  qed
  with 2 show ?case by auto
next
  case (4 W n d e g vis)
  then show ?case by (auto simp: total_on_ops_def)
next
  case (5 W n d m g vis)
  have t: "so_validate W m d \<noteq> Inl OutOfFuel" "so_simulate W m d \<noteq> Inl OutOfFuel"
    using 5 by (auto simp: total_on_ops_def)
  show ?case
  proof (cases "so_validate W m d = Inr True")
    case False
    with 5 t show ?thesis by (auto split: sum.splits bool.splits)
  next
    case val: True
    show ?thesis
    proof (cases "so_simulate W m d")
      case (Inl e)
      with val t show ?thesis by auto
    next
      case (Inr d')
      obtain r vis' where r: "dfs_sort W n d' vis = (r, vis')" by fastforce
      have "d' \<in> D" using 5 val Inr by (auto intro: closed_underD)
      then have ne: "r \<noteq> Inl OutOfFuel" using 5 val Inr r by fastforce
      have "fst (dfs_moves W n d g vis') \<noteq> Inl OutOfFuel" if rN: "r = Inr None"
      proof -
        have "set vis \<subseteq> set vis'" using r rN by (auto dest: dfs_vis_mono)
        then have "card (so_hash W ` D - set vis') \<le> card (so_hash W ` D - set vis)"
          using fin by (intro card_mono) auto
        then have "card (so_hash W ` D - set vis') < n" using 5 by linarith
        then show ?thesis using 5 val Inr r rN by auto
      qed
      with val Inr r ne show ?thesis by (auto split: sum.splits option.splits)
    qed
  qed
qed auto

lemma dfs_enough_fuel:
  assumes "finite D" and "closed_under W D" and "total_on_ops W D" and "d \<in> D"
    and "card (so_hash W ` D) < n"
  shows "fst (dfs_sort W n d []) \<noteq> Inl OutOfFuel"
  using dfs_enough_fuel_aux(1)[of D W d "[]" n] assms by simp

text \<open>Completeness: a depth-first search that finds nothing has seen every reachable
  configuration, provided different configurations have different hashes.\<close>

definition seen_closed :: "('d, 'm, 'h) search_ops \<Rightarrow> 'd set \<Rightarrow> 'h set \<Rightarrow> 'h set \<Rightarrow> bool" where
  "seen_closed W D new vis \<longleftrightarrow> (\<forall>x \<in> D. so_hash W x \<in> new \<longrightarrow> \<not> so_done W x \<and>
     (\<forall>m y. move_step W x m y \<longrightarrow> so_hash W y \<in> vis))"

lemma seen_closed_Un:
  "seen_closed W D A V \<Longrightarrow> seen_closed W D B V' \<Longrightarrow> V \<subseteq> V' \<Longrightarrow> seen_closed W D (A \<union> B) V'"
  unfolding seen_closed_def by blast

lemma dfs_none_closed:
  assumes inj: "inj_on (so_hash W) D" and cl: "closed_under W D"
  shows
  "d \<in> D \<Longrightarrow> dfs_sort W n d vis = (Inr None, vis') \<Longrightarrow>
     so_hash W d \<in> set vis' \<and> seen_closed W D (set vis' - set vis) (set vis')"
  "d \<in> D \<Longrightarrow> set g \<subseteq> set (so_generate W d) \<Longrightarrow> dfs_moves W n d g vis = (Inr None, vis') \<Longrightarrow>
     (\<forall>m y. Inr m \<in> set g \<longrightarrow> move_step W d m y \<longrightarrow> so_hash W y \<in> set vis') \<and>
     seen_closed W D (set vis' - set vis) (set vis')"
  using inj cl
proof (induction W n d vis and W n d g vis arbitrary: vis' and vis'
    rule: dfs_sort_dfs_moves.induct)
  case (2 W n d vis)
  show ?case
  proof (cases "so_hash W d \<in> set vis")
    case True
    with 2 show ?thesis by (auto simp: seen_closed_def split: if_splits)
  next
    case False
    with 2 have nd: "\<not> so_done W d"
      and mv: "dfs_moves W n d (so_generate W d) (so_hash W d # vis) = (Inr None, vis')"
      by (auto split: if_splits)
    with 2 False have IH:
      "\<forall>m y. Inr m \<in> set (so_generate W d) \<longrightarrow> move_step W d m y \<longrightarrow> so_hash W y \<in> set vis'"
      "seen_closed W D (set vis' - set (so_hash W d # vis)) (set vis')"
      by auto
    have sub: "set (so_hash W d # vis) \<subseteq> set vis'"
      using mv by (rule dfs_vis_mono)
    have "seen_closed W D {so_hash W d} (set vis')"
      using IH(1) nd 2 unfolding seen_closed_def
      by (metis inj_on_contraD move_stepE singletonD)
    then have "seen_closed W D ({so_hash W d} \<union> (set vis' - set (so_hash W d # vis))) (set vis')"
      using IH(2) by (rule seen_closed_Un) simp
    moreover have "{so_hash W d} \<union> (set vis' - set (so_hash W d # vis)) = set vis' - set vis"
      using sub False by auto
    ultimately show ?thesis using sub by auto
  qed
next
  case (5 W n d m g vis)
  show ?case
  proof (cases "so_validate W m d = Inr True")
    case False
    with 5(6) have mv: "dfs_moves W n d g vis = (Inr None, vis')" and no: "so_validate W m d = Inr False"
      by (cases rule: dfs_moves_yield_cases; simp)+
    have "(\<forall>m y. Inr m \<in> set g \<longrightarrow> move_step W d m y \<longrightarrow> so_hash W y \<in> set vis') \<and>
        seen_closed W D (set vis' - set vis) (set vis')"
      by (rule 5(3)[OF no]) (use 5 mv in auto)
    moreover have "\<not> move_step W d m y" for y
      using no by (auto elim!: move_stepE)
    ultimately show ?thesis by auto
  next
    case val: True
    with 5 obtain d' where sim: "so_simulate W m d = Inr d'"
      by (auto split: sum.splits)
    obtain v where v: "dfs_sort W n d' vis = (Inr None, v)" "dfs_moves W n d g v = (Inr None, vis')"
      using 5(6) val sim by (cases rule: dfs_moves_yield_cases) auto
    have d': "d' \<in> D" using 5 val sim by (auto intro: closed_underD)
    have a: "so_hash W d' \<in> set v \<and> seen_closed W D (set v - set vis) (set v)"
      by (rule 5(1)[OF val _ sim d' v(1)]) (use 5 in auto)
    have b: "(\<forall>m y. Inr m \<in> set g \<longrightarrow> move_step W d m y \<longrightarrow> so_hash W y \<in> set vis') \<and>
        seen_closed W D (set vis' - set v) (set vis')"
      by (rule 5(2)[OF val _ sim v(1)[symmetric]]) (use 5 v in auto)
    have sub: "set vis \<subseteq> set v" "set v \<subseteq> set vis'"
      using v by (auto dest: dfs_vis_mono)
    have "seen_closed W D ((set v - set vis) \<union> (set vis' - set v)) (set vis')"
      using a b sub by (blast intro: seen_closed_Un)
    moreover have "(set v - set vis) \<union> (set vis' - set v) = set vis' - set vis"
      using sub by auto
    moreover have "so_hash W y \<in> set vis'" if "move_step W d m y" for y
      using that a sim sub by (auto elim!: move_stepE)
    ultimately show ?thesis using b by auto
  qed
qed (auto simp: seen_closed_def)

lemma dfs_none_no_plan:
  assumes inj: "inj_on (so_hash W) D" and cl: "closed_under W D" and d: "d \<in> D"
    and none: "dfs_sort W n d [] = (Inr None, vis)"
  shows "plan W d ms e \<Longrightarrow> \<not> so_done W e"
proof -
  have start: "so_hash W d \<in> set vis" "seen_closed W D (set vis) (set vis)"
    using dfs_none_closed(1)[OF inj cl d none] by auto
  have "plan W x ms e \<Longrightarrow> x \<in> D \<Longrightarrow> so_hash W x \<in> set vis \<Longrightarrow> \<not> so_done W e" for x
  proof (induction ms arbitrary: x)
    case Nil
    then show ?case using start(2) by (auto simp: plan_Nil_iff seen_closed_def)
  next
    case (Cons m ms)
    then obtain y where y: "move_step W x m y" "plan W y ms e" by (auto simp: plan_Cons_iff)
    then have "y \<in> D" "so_hash W y \<in> set vis"
      using Cons.prems cl start(2) by (auto simp: closed_under_def seen_closed_def)
    with y Cons.IH show ?case by blast
  qed
  then show "plan W d ms e \<Longrightarrow> \<not> so_done W e" using d start(1) by blast
qed

text \<open>C20. The depth-first sorter, on finitely many reachable configurations told apart by their hashes: with more fuel than
  there are configurations it comes to an end, a list of moves it returns is a plan to the target, and
  when it returns None there is no plan at all.\<close>

theorem dfs_sorter_correct:
  assumes "finite D" and "closed_under W D" and "total_on_ops W D" and "inj_on (so_hash W) D" and "d \<in> D"
    and "card (so_hash W ` D) < n"
  shows "case fst (dfs_sort W n d []) of
      Inl e \<Rightarrow> e \<noteq> OutOfFuel
    | Inr (Some ms) \<Rightarrow> \<exists>e. plan W d ms e \<and> so_done W e
    | Inr None \<Rightarrow> \<not> (\<exists>ms e. plan W d ms e \<and> so_done W e)"
proof -
  obtain r vis where r: "dfs_sort W n d [] = (r, vis)" by fastforce
  show ?thesis
  proof (cases r)
    case (Inl e)
    with r dfs_enough_fuel[OF assms(1-3,5,6)] show ?thesis by auto
  next
    case (Inr o')
    with r dfs_sound(1)[of W n d "[]"] dfs_none_no_plan[OF assms(4,2,5)] show ?thesis
      by (cases o') auto
  qed
qed

text \<open>
  A graph whose nodes are numbers and whose moves name the next node: from 0 one can go to 1 or 4, the
  chain 0, 1, 2, 3 ends at 3, which can go to 4 or to the target 9, and 4 can only go to 3.
\<close>

definition detour :: "(nat, nat, nat) search_ops" where
  "detour = \<lparr>
     so_generate = (\<lambda>d. map Inr (if d = 0 then [1, 4] else if d = 1 then [2] else if d = 2 then [3]
        else if d = 3 then [4, 9] else if d = 4 then [3] else [])),
     so_validate = (\<lambda>m d. Inr True), so_simulate = (\<lambda>m d. Inr m),
     so_done = (\<lambda>d. d = 9), so_hash = (\<lambda>d. d)\<rparr>"

lemma detour_closed: "closed_under detour {0, 1, 2, 3, 4, 9}"
  by (auto simp: closed_under_def detour_def elim!: move_stepE)

lemma detour_total: "total_on_ops detour D"
  by (auto simp: total_on_ops_def detour_def)

theorem dfs_sorter_correct_witness:
  "fst (dfs_sort detour 7 0 []) = Inr (Some [1, 2, 3, 9]) \<and> (\<exists>e. plan detour 0 [1, 2, 3, 9] e \<and> so_done detour e)"
proof -
  have "case fst (dfs_sort detour 7 0 []) of
      Inl e \<Rightarrow> e \<noteq> OutOfFuel
    | Inr (Some ms) \<Rightarrow> \<exists>e. plan detour 0 ms e \<and> so_done detour e
    | Inr None \<Rightarrow> \<not> (\<exists>ms e. plan detour 0 ms e \<and> so_done detour e)"
    by (rule dfs_sorter_correct[OF _ detour_closed detour_total]) (simp_all add: detour_def)
  moreover have "fst (dfs_sort detour 7 0 []) = Inr (Some [1, 2, 3, 9])" by code_simp
  ultimately show ?thesis by auto
qed

section \<open>What every step keeps\<close>

text \<open>Laws a move wrapper may satisfy, and what then holds along every plan: a property of the result of
  each accepted move, and a property that accepted moves preserve.\<close>

locale validated_search =
  fixes W :: "('d, 'm, 'h) search_ops" and good :: "'d \<Rightarrow> bool"
  assumes step_good: "move_step W d m d' \<Longrightarrow> good d'"
begin

lemma plan_good: "plan W d ms e \<Longrightarrow> run_moves W d ms = Inr ds \<Longrightarrow> \<forall>x \<in> set ds. good x"
proof (induction arbitrary: ds rule: plan.induct)
  case (plan_cons d m d' ms d'')
  have "so_simulate W m d = Inr d'" using plan_cons.hyps(1) by (rule move_stepE)
  with plan_cons.prems obtain ds' where "run_moves W d' ms = Inr ds'" "ds = d' # ds'"
    by (auto elim!: rbind_InrE)
  with plan_cons step_good show ?case by auto
qed simp

end

locale invariant_search =
  fixes W :: "('d, 'm, 'h) search_ops" and I :: "'d \<Rightarrow> bool"
  assumes step_keeps: "I d \<Longrightarrow> move_step W d m d' \<Longrightarrow> I d'"
begin

lemma plan_keeps: "plan W d ms e \<Longrightarrow> I d \<Longrightarrow> I e"
  by (induction rule: plan.induct) (auto intro: step_keeps)

end

sublocale validated_search \<subseteq> always: invariant_search W good
  by unfold_locales (rule step_good)

end
