(* ===== verification/SorterBfs.thy ===== *)
theory SorterBfs
  imports Sorters
begin

text \<open>
  \<open>BfsSorter\<close>: a queue of configurations with the moves that led to them. The two deques of the
  source (\<open>diff_queue\<close>, \<open>prv_moves_queue\<close>) are pushed and popped together and are one list of
  pairs here. The theorems: what it returns is a plan to the target, no plan is shorter, and it
  stops when finitely many configurations are reachable.
\<close>

section \<open>Definitions\<close>

text \<open>The body of the inner loop: the configurations one expansion appends to the queue.\<close>

fun bfs_expand :: "('d, 'm, 'h) search_ops \<Rightarrow> 'd \<Rightarrow> 'm list \<Rightarrow> (err, 'm) gen \<Rightarrow> err + ('d \<times> 'm list) list" where
  "bfs_expand W d prv [] = Inr []"
| "bfs_expand W d prv (Inl e # g) = Inl e"
| "bfs_expand W d prv (Inr m # g) =
     rbind (so_validate W m d) (\<lambda>ok.
       if ok then rbind (so_simulate W m d) (\<lambda>d'.
         rbind (bfs_expand W d prv g) (\<lambda>q. Inr ((d', prv @ [m]) # q)))
       else bfs_expand W d prv g)"

fun bfs_loop :: "('d, 'm, 'h) search_ops \<Rightarrow> nat \<Rightarrow> ('d \<times> 'm list) list \<Rightarrow> 'h list \<Rightarrow> err + 'm list option" where
  "bfs_loop W 0 q vis = Inl OutOfFuel"
| "bfs_loop W (Suc n) [] vis = Inr None"
| "bfs_loop W (Suc n) ((d, prv) # q) vis =
     (if so_hash W d \<in> set vis then bfs_loop W n q vis
      else if so_done W d then Inr (Some prv)
      else rbind (bfs_expand W d prv (so_generate W d))
             (\<lambda>new. bfs_loop W n (q @ new) (so_hash W d # vis)))"

definition bfs_sort :: "('d, 'm, 'h) search_ops \<Rightarrow> nat \<Rightarrow> 'd \<Rightarrow> err + 'm list option" where
  "bfs_sort W n d = bfs_loop W n [(d, [])] []"

section \<open>What one expansion yields\<close>

lemma bfs_expand_sound:
  "bfs_expand W d prv g = Inr q \<Longrightarrow> set g \<subseteq> set (so_generate W d) \<Longrightarrow> (x, p) \<in> set q \<Longrightarrow>
     \<exists>m. p = prv @ [m] \<and> move_step W d m x"
  by (induction W d prv g arbitrary: q rule: bfs_expand.induct)
     (auto simp: rbind_eq_Inr move_step.simps split: if_splits)

lemma bfs_expand_complete:
  "bfs_expand W d prv g = Inr q \<Longrightarrow> Inr m \<in> set g \<Longrightarrow> move_step W d m x \<Longrightarrow> (x, prv @ [m]) \<in> set q"
  by (induction W d prv g arbitrary: q rule: bfs_expand.induct)
     (auto simp: rbind_eq_Inr split: if_splits elim!: move_stepE)

lemma bfs_expand_length: "bfs_expand W d prv g = Inr q \<Longrightarrow> length q \<le> length g"
  by (induction W d prv g arbitrary: q rule: bfs_expand.induct)
     (auto simp: rbind_eq_Inr split: if_splits intro: le_SucI)

lemma bfs_expand_step:
  "bfs_expand W d prv (so_generate W d) = Inr q \<Longrightarrow> move_step W d m x \<Longrightarrow> (x, prv @ [m]) \<in> set q"
  by (meson bfs_expand_complete move_stepE)

section \<open>The loop invariant\<close>

text \<open>
  \<open>L\<close> gives, for every visited configuration, the length of the moves it was expanded with. The
  queue is sorted by that length and spans at most two lengths; every successor of a visited
  configuration is visited or queued, one move later.
\<close>

definition queued_within :: "('d \<times> 'm list) list \<Rightarrow> 'd \<Rightarrow> nat \<Rightarrow> bool" where
  "queued_within q x k \<longleftrightarrow> (\<exists>p. (x, p) \<in> set q \<and> length p \<le> k)"

definition covered :: "('d, 'm, 'h) search_ops \<Rightarrow> ('d \<times> 'm list) list \<Rightarrow> 'h set \<Rightarrow> ('h \<Rightarrow> nat) \<Rightarrow> 'd \<Rightarrow> nat \<Rightarrow> bool" where
  "covered W q V L x k \<longleftrightarrow> so_hash W x \<in> V \<and> L (so_hash W x) \<le> k \<or> queued_within q x k"

definition bfs_inv :: "('d, 'm, 'h) search_ops \<Rightarrow> 'd set \<Rightarrow> 'd \<Rightarrow> ('d \<times> 'm list) list \<Rightarrow> 'h set \<Rightarrow> ('h \<Rightarrow> nat) \<Rightarrow> bool" where
  "bfs_inv W D d0 q V L \<longleftrightarrow>
     (\<forall>x p. (x, p) \<in> set q \<longrightarrow> x \<in> D \<and> plan W d0 p x) \<and>
     sorted (map (length \<circ> snd) q) \<and>
     (\<forall>a \<in> set q. length (snd a) \<le> length (snd (hd q)) + 1) \<and>
     (\<forall>h \<in> V. \<forall>a \<in> set q. L h \<le> length (snd a)) \<and>
     covered W q V L d0 0 \<and>
     (\<forall>x \<in> D. so_hash W x \<in> V \<longrightarrow> \<not> so_done W x \<and>
        (\<forall>m y. move_step W x m y \<longrightarrow> covered W q V L y (Suc (L (so_hash W x)))))"

lemma bfs_inv_init: "d0 \<in> D \<Longrightarrow> bfs_inv W D d0 [(d0, [])] {} L"
  by (auto simp: bfs_inv_def covered_def queued_within_def intro: plan.intros)

text \<open>Along any plan to a finished configuration some queued configuration comes first.\<close>

lemma bfs_inv_frontier:
  assumes inv: "bfs_inv W D d0 q V L" and cl: "closed_under W D"
  shows "plan W x ms z \<Longrightarrow> so_done W z \<Longrightarrow> x \<in> D \<Longrightarrow> covered W q V L x k \<Longrightarrow>
     \<exists>a \<in> set q. length (snd a) \<le> k + length ms"
proof (induction arbitrary: k rule: plan.induct)
  case (plan_nil d)
  with inv have "queued_within q d k" by (auto simp: covered_def bfs_inv_def)
  then show ?case by (force simp: queued_within_def)
next
  case (plan_cons d m d' ms d'')
  have d': "d' \<in> D" using plan_cons cl by (auto simp: closed_under_def)
  show ?case
  proof (cases "so_hash W d \<in> V \<and> L (so_hash W d) \<le> k")
    case True
    with inv plan_cons have "covered W q V L d' (Suc (L (so_hash W d)))"
      by (auto simp: bfs_inv_def)
    from plan_cons.IH[OF plan_cons.prems(1) d' this] obtain a
      where "a \<in> set q" "length (snd a) \<le> Suc (L (so_hash W d)) + length ms" by blast
    with True show ?thesis by (intro bexI[of _ a]) auto
  next
    case False
    with plan_cons.prems have "queued_within q d k" by (auto simp: covered_def)
    then show ?thesis by (force simp: queued_within_def)
  qed
qed

text \<open>Popping a configuration that was visited before keeps the invariant.\<close>

lemma covered_pop:
  assumes "covered W ((d, prv) # q) V L y k" and "so_hash W d \<in> V" and "L (so_hash W d) \<le> length prv"
  shows "covered W q V L y k"
  using assms by (auto simp: covered_def queued_within_def)

lemma bfs_inv_pop:
  assumes inv: "bfs_inv W D d0 ((d, prv) # q) V L" and vis: "so_hash W d \<in> V"
  shows "bfs_inv W D d0 q V L"
proof -
  have L: "L (so_hash W d) \<le> length prv" using inv vis by (auto simp: bfs_inv_def)
  have span: "length (snd a) \<le> length (snd (hd q)) + 1" if "a \<in> set q" for a
    using inv that by (cases q) (fastforce simp: bfs_inv_def)+
  show ?thesis
    using inv covered_pop[where L = L, OF _ vis L] span unfolding bfs_inv_def by auto
qed

text \<open>Expanding an unvisited, unfinished configuration keeps the invariant.\<close>

lemma covered_expand:
  assumes "covered W ((d, prv) # q) V L y k" and "so_hash W d \<notin> V"
    and "\<forall>a \<in> set ((d, prv) # q). length prv \<le> length (snd a)"
  shows "covered W (q @ new) (insert (so_hash W d) V) (L(so_hash W d := length prv)) y k"
  using assms by (auto simp: covered_def queued_within_def)

lemma sorted_map_Cons_le: "sorted (map f (a # q)) \<Longrightarrow> \<forall>b \<in> set (a # q). f a \<le> f b"
  by auto

lemma bfs_inv_expand:
  assumes inv: "bfs_inv W D d0 ((d, prv) # q) (V :: 'h set) L" and new: "so_hash W d \<notin> V"
    and nd: "\<not> so_done W d" and cl: "closed_under W D" and inj: "inj_on (so_hash W) D"
    and ex: "bfs_expand W d prv (so_generate W d) = Inr q'"
  shows "bfs_inv W D d0 (q @ q') (insert (so_hash W d) V) (L(so_hash W d := length prv))"
    (is "bfs_inv W D d0 ?q ?V ?L")
proof -
  have dD: "d \<in> D" and pd: "plan W d0 prv d" using inv by (auto simp: bfs_inv_def)
  have least: "\<forall>a \<in> set ((d, prv) # q). length prv \<le> length (snd a)"
    using inv by (auto simp: bfs_inv_def)
  have q': "\<exists>m. p = prv @ [m] \<and> move_step W d m x" if "(x, p) \<in> set q'" for x p
    using bfs_expand_sound[OF ex _ that] by simp
  have len': "length (snd a) = length prv + 1" if "a \<in> set q'" for a
    using q'[of "fst a" "snd a"] that by auto
  have cov: "covered W ?q ?V ?L y k" if "covered W ((d, prv) # q) V L y k" for y k
    using that new least by (rule covered_expand)
  have queue: "x \<in> D \<and> plan W d0 p x" if "(x, p) \<in> set ?q" for x p
  proof (cases "(x, p) \<in> set q")
    case True
    then show ?thesis using inv by (auto simp: bfs_inv_def)
  next
    case False
    with that q' obtain m where m: "p = prv @ [m]" "move_step W d m x" by auto
    have "x \<in> D" using m(2) dD cl by (auto simp: closed_under_def)
    moreover have "plan W d0 p x" using plan_snoc[OF pd m(2)] m(1) by simp
    ultimately show ?thesis by simp
  qed
  have upper: "length (snd a) \<le> length prv + 1" if "a \<in> set ?q" for a
    using that len'[of a] inv by (cases "a \<in> set q") (auto simp: bfs_inv_def)
  have srt: "sorted (map (length \<circ> snd) ?q)"
  proof -
    have "map (length \<circ> snd) q' = map (\<lambda>_. length prv + 1) q'" using len' by simp
    then have "sorted (map (length \<circ> snd) q')" by (simp add: map_replicate_const sorted_replicate)
    moreover have "sorted (map (length \<circ> snd) q)" using inv by (auto simp: bfs_inv_def)
    moreover have "length (snd a) \<le> length (snd b)" if "a \<in> set q" "b \<in> set q'" for a b
      using upper[of a] len' that by auto
    ultimately show ?thesis by (auto simp: sorted_append)
  qed
  have lower: "length prv \<le> length (snd a)" if "a \<in> set ?q" for a
    using that least len'[of a] by (cases "a \<in> set q") auto
  have span: "length (snd a) \<le> length (snd (hd ?q)) + 1" if "a \<in> set ?q" for a
    using upper[OF that] lower[of "hd ?q"] that by (cases ?q) auto
  have bound: "?L h \<le> length (snd a)" if "h \<in> ?V" "a \<in> set ?q" for h a
  proof (cases "h = so_hash W d")
    case True
    then show ?thesis using lower that by simp
  next
    case False
    then have "L h \<le> length prv" using that inv by (auto simp: bfs_inv_def)
    then show ?thesis using lower[OF that(2)] False by simp
  qed
  have succ: "\<not> so_done W x \<and> (\<forall>m y. move_step W x m y \<longrightarrow> covered W ?q ?V ?L y (Suc (?L (so_hash W x))))"
    if x: "x \<in> D" "so_hash W x \<in> ?V" for x
  proof (cases "so_hash W x = so_hash W d")
    case True
    then have "x = d" using inj x dD by (auto dest: inj_onD)
    moreover have "covered W ?q ?V ?L y (Suc (length prv))" if "move_step W d m y" for m y
      using bfs_expand_step[OF ex that] by (force simp: covered_def queued_within_def)
    ultimately show ?thesis using nd by simp
  next
    case False
    with x inv cov show ?thesis by (auto simp: bfs_inv_def)
  qed
  have "covered W ?q ?V ?L d0 0" using inv cov by (auto simp: bfs_inv_def)
  with queue srt span bound succ show ?thesis unfolding bfs_inv_def by blast
qed

section \<open>Plans\<close>

lemma bfs_loop_sound:
  "bfs_loop W n q vis = Inr (Some ms) \<Longrightarrow> \<forall>(d, p) \<in> set q. plan W d0 p d \<Longrightarrow> \<exists>e. plan W d0 ms e \<and> so_done W e"
proof (induction W n q vis rule: bfs_loop.induct)
  case (3 W n d prv q vis)
  show ?case
  proof (cases "so_hash W d \<in> set vis \<or> so_done W d")
    case True
    with 3 show ?thesis by (auto split: if_splits)
  next
    case False
    then obtain new where new: "bfs_expand W d prv (so_generate W d) = Inr new"
        "bfs_loop W n (q @ new) (so_hash W d # vis) = Inr (Some ms)"
      using 3(3) by (auto elim!: rbind_InrE)
    have "plan W d0 p x" if "(x, p) \<in> set new" for x p
      using bfs_expand_sound[OF new(1) subset_refl that] 3(4) by (auto intro: plan_snoc)
    then have "\<forall>(d, p) \<in> set (q @ new). plan W d0 p d" using 3(4) by auto
    with False new 3 show ?thesis by simp
  qed
qed auto

lemma bfs_sort_sound: "bfs_sort W n d = Inr (Some ms) \<Longrightarrow> \<exists>e. plan W d ms e \<and> so_done W e"
  unfolding bfs_sort_def by (rule bfs_loop_sound) (auto intro: plan_nil)

section \<open>Shortest plans, completeness, enough fuel\<close>

lemma bfs_loop_correct:
  assumes cl: "closed_under W D" and inj: "inj_on (so_hash W) D" and d0: "d0 \<in> D"
  shows "bfs_inv W D d0 q (set vis) L \<Longrightarrow> bfs_loop W n q vis = Inr r \<Longrightarrow>
    (case r of
       Some ms \<Rightarrow> (\<exists>e. plan W d0 ms e \<and> so_done W e) \<and>
         (\<forall>ns z. plan W d0 ns z \<and> so_done W z \<longrightarrow> length ms \<le> length ns)
     | None \<Rightarrow> \<not> (\<exists>ns z. plan W d0 ns z \<and> so_done W z))"
proof (induction n arbitrary: q vis L)
  case 0
  then show ?case by simp
next
  case (Suc n)
  note front = bfs_inv_frontier[OF Suc.prems(1) cl _ _ d0]
  have cov0: "covered W q (set vis) L d0 0" using Suc.prems(1) by (simp add: bfs_inv_def)
  show ?case
  proof (cases q)
    case Nil
    then have "r = None" using Suc.prems by simp
    then show ?thesis using front[of _ _ 0] cov0 Nil by auto
  next
    case (Cons a q1)
    obtain d prv where a: "a = (d, prv)" by fastforce
    note inv = Suc.prems(1)[unfolded Cons a]
    consider (seen) "so_hash W d \<in> set vis" | (goal) "so_hash W d \<notin> set vis" "so_done W d"
      | (expand) "so_hash W d \<notin> set vis" "\<not> so_done W d" by blast
    then show ?thesis
    proof cases
      case seen
      then show ?thesis
        using Suc.IH[OF bfs_inv_pop[OF inv seen]] Suc.prems(2) Cons a by simp
    next
      case goal
      then have r: "r = Some prv" using Suc.prems(2) Cons a by simp
      have "length prv \<le> length ns" if p: "plan W d0 ns z" and fin: "so_done W z" for ns z
      proof -
        obtain b where "b \<in> set q" "length (snd b) \<le> length ns"
          using front[OF p fin cov0] by auto
        moreover have "length prv \<le> length (snd b)"
          using calculation inv Cons a by (auto simp: bfs_inv_def)
        ultimately show ?thesis by simp
      qed
      moreover have "plan W d0 prv d" using inv by (auto simp: bfs_inv_def)
      ultimately show ?thesis using r goal by auto
    next
      case expand
      then obtain q' where ex: "bfs_expand W d prv (so_generate W d) = Inr q'"
        and run: "bfs_loop W n (q1 @ q') (so_hash W d # vis) = Inr r"
        using Suc.prems(2) Cons a by (auto simp: rbind_eq_Inr)
      have "bfs_inv W D d0 (q1 @ q') (set (so_hash W d # vis)) (L(so_hash W d := length prv))"
        using bfs_inv_expand[OF inv expand cl inj ex] by simp
      then show ?thesis using Suc.IH[OF _ run] by blast
    qed
  qed
qed

lemma bfs_sort_correct:
  assumes "closed_under W D" and "inj_on (so_hash W) D" and "d \<in> D" and "bfs_sort W n d = Inr r"
  shows "case r of
       Some ms \<Rightarrow> (\<exists>e. plan W d ms e \<and> so_done W e) \<and>
         (\<forall>ns z. plan W d ns z \<and> so_done W z \<longrightarrow> length ms \<le> length ns)
     | None \<Rightarrow> \<not> (\<exists>ns z. plan W d ns z \<and> so_done W z)"
  using assms bfs_loop_correct[OF assms(1,2,3), of "[(d, [])]" "[]" "\<lambda>_. 0" n r]
  by (simp add: bfs_sort_def bfs_inv_init)

lemma bfs_enough_fuel_aux:
  assumes fin: "finite D" and cl: "closed_under W D" and tot: "total_on_ops W D"
    and B: "\<forall>x \<in> D. length (so_generate W x) \<le> B"
  shows "\<forall>a \<in> set q. fst a \<in> D \<Longrightarrow> card (so_hash W ` D - set vis) * Suc B + length q < n \<Longrightarrow>
    bfs_loop W n q vis \<noteq> Inl OutOfFuel"
proof (induction n arbitrary: q vis)
  case (Suc n)
  show ?case
  proof (cases q)
    case (Cons a q1)
    obtain d prv where a: "a = (d, prv)" by fastforce
    have dD: "d \<in> D" using Suc.prems Cons a by auto
    show ?thesis
    proof (cases "so_hash W d \<in> set vis \<or> so_done W d")
      case True
      then show ?thesis using Suc Cons a by auto
    next
      case False
      let ?V = "so_hash W ` D - set vis"
      have ne: "bfs_expand W d prv g \<noteq> Inl OutOfFuel" if "set g \<subseteq> set (so_generate W d)" for g
        using that
      proof (induction g)
        case (Cons y g)
        then show ?case using tot dD by (cases y) (auto simp: rbind_eq_Inl total_on_ops_def split: if_splits)
      qed simp
      have "bfs_loop W n (q1 @ q') (so_hash W d # vis) \<noteq> Inl OutOfFuel"
        if ex: "bfs_expand W d prv (so_generate W d) = Inr q'" for q'
      proof (rule Suc.IH)
        show "\<forall>a \<in> set (q1 @ q'). fst a \<in> D"
          using Suc.prems Cons a dD cl bfs_expand_sound[OF ex] by (fastforce simp: closed_under_def)
        have "length q' \<le> B" using bfs_expand_length[OF ex] B dD by (meson le_trans)
        moreover have "card ?V = Suc (card (?V - {so_hash W d}))"
          using False dD fin by (intro card.remove) auto
        moreover have "?V - {so_hash W d} = so_hash W ` D - set (so_hash W d # vis)" by auto
        ultimately show "card (so_hash W ` D - set (so_hash W d # vis)) * Suc B + length (q1 @ q') < n"
          using Suc.prems(2) Cons by simp
      qed
      with ne[of "so_generate W d"] False Cons a show ?thesis by (auto simp: rbind_eq_Inl)
    qed
  qed simp
qed simp

lemma bfs_enough_fuel:
  assumes "finite D" and "closed_under W D" and "total_on_ops W D" and "d \<in> D"
    and "\<forall>x \<in> D. length (so_generate W x) \<le> B" and "card (so_hash W ` D) * Suc B + 1 < n"
  shows "bfs_sort W n d \<noteq> Inl OutOfFuel"
  using bfs_enough_fuel_aux[OF assms(1,2,3,5), of "[(d, [])]" "[]" n] assms by (simp add: bfs_sort_def)

text \<open>C21. The breadth-first sorter, on finitely many reachable configurations told apart by their hashes and with at most
  \<open>B\<close> moves each: with enough fuel it comes to an end, the list of moves it returns is a plan to the
  target that no other plan beats in length, and when it returns None there is no plan at all.\<close>

theorem bfs_sorter_correct:
  assumes "finite D" and "closed_under W D" and "total_on_ops W D" and "inj_on (so_hash W) D" and "d \<in> D"
    and "\<forall>x \<in> D. length (so_generate W x) \<le> B" and "card (so_hash W ` D) * Suc B + 1 < n"
  shows "case bfs_sort W n d of
      Inl e \<Rightarrow> e \<noteq> OutOfFuel
    | Inr (Some ms) \<Rightarrow> (\<exists>e. plan W d ms e \<and> so_done W e) \<and>
        (\<forall>ns z. plan W d ns z \<and> so_done W z \<longrightarrow> length ms \<le> length ns)
    | Inr None \<Rightarrow> \<not> (\<exists>ms e. plan W d ms e \<and> so_done W e)"
proof (cases "bfs_sort W n d")
  case (Inl e)
  then show ?thesis using bfs_enough_fuel[OF assms(1-3,5-7)] by auto
next
  case (Inr r)
  then show ?thesis using bfs_sort_correct[OF assms(2,4,5) Inr] by (cases r) auto
qed

theorem bfs_sorter_correct_witness:
  "bfs_sort detour 20 0 = Inr (Some [4, 3, 9]) \<and> \<not> (\<exists>ns z. plan detour 0 ns z \<and> so_done detour z \<and> length ns < 3)"
proof -
  have "case bfs_sort detour 20 0 of
      Inl e \<Rightarrow> e \<noteq> OutOfFuel
    | Inr (Some ms) \<Rightarrow> (\<exists>e. plan detour 0 ms e \<and> so_done detour e) \<and>
        (\<forall>ns z. plan detour 0 ns z \<and> so_done detour z \<longrightarrow> length ms \<le> length ns)
    | Inr None \<Rightarrow> \<not> (\<exists>ms e. plan detour 0 ms e \<and> so_done detour e)"
    by (rule bfs_sorter_correct[OF _ detour_closed detour_total, of 0 2]) (simp_all add: detour_def)
  moreover have "bfs_sort detour 20 0 = Inr (Some [4, 3, 9])" by code_simp
  ultimately show ?thesis by (fastforce simp: not_less)
qed

end
