(* ===== verification/SorterMemo.thy ===== *)
theory SorterMemo
  imports Sorters
begin

text \<open>
  \<open>MemoizationSorter\<close>: a depth-first search that explores every move and keeps the shortest
  continuation, with the result of a finished configuration kept in \<open>mem\<close>. What it returns is a
  plan to the target; because a configuration that is still on the recursion stack counts as a dead
  end and that verdict is memorized, the plan need not be a shortest one (\<open>detour\<close> below).
\<close>

type_synonym ('m, 'h) memo_state = "'h list \<times> ('h \<times> 'm list option) list"

text \<open>\<open>bst_moves\<close> after a move whose continuation is \<open>ns\<close>.\<close>

definition better :: "'m list option \<Rightarrow> 'm \<Rightarrow> 'm list option \<Rightarrow> 'm list option" where
  "better bst m new =
     (case new of None \<Rightarrow> bst
      | Some ns \<Rightarrow> (case bst of None \<Rightarrow> Some (m # ns)
          | Some bs \<Rightarrow> if length bs > length ns + 1 then Some (m # ns) else bst))"

function (sequential)
  memo_sort :: "('d, 'm, 'h) search_ops \<Rightarrow> nat \<Rightarrow> 'd \<Rightarrow> ('m, 'h) memo_state
     \<Rightarrow> (err + 'm list option) \<times> ('m, 'h) memo_state"
and memo_moves :: "('d, 'm, 'h) search_ops \<Rightarrow> nat \<Rightarrow> 'd \<Rightarrow> (err, 'm) gen \<Rightarrow> 'm list option
     \<Rightarrow> ('m, 'h) memo_state \<Rightarrow> (err + 'm list option) \<times> ('m, 'h) memo_state" where
  "memo_sort W 0 d st = (Inl OutOfFuel, st)"
| "memo_sort W (Suc n) d (vis, mem) =
     (if so_done W d then (Inr (Some []), vis, mem)
      else (case map_of mem (so_hash W d) of
          Some r \<Rightarrow> (Inr r, vis, mem)
        | None \<Rightarrow>
            if so_hash W d \<in> set vis then (Inr None, vis, mem)
            else (case memo_moves W n d (so_generate W d) None (so_hash W d # vis, mem) of
                (Inl e, st) \<Rightarrow> (Inl e, st)
              | (Inr bst, vis', mem') \<Rightarrow> (Inr bst, vis', AList.update (so_hash W d) bst mem'))))"
| "memo_moves W n d [] bst st = (Inr bst, st)"
| "memo_moves W n d (Inl e # g) bst st = (Inl e, st)"
| "memo_moves W n d (Inr m # g) bst st =
     (case so_validate W m d of
        Inl e \<Rightarrow> (Inl e, st)
      | Inr False \<Rightarrow> memo_moves W n d g bst st
      | Inr True \<Rightarrow>
          (case so_simulate W m d of
             Inl e \<Rightarrow> (Inl e, st)
           | Inr d' \<Rightarrow>
               (case memo_sort W n d' st of
                  (Inl e, st') \<Rightarrow> (Inl e, st')
                | (Inr new, st') \<Rightarrow> memo_moves W n d g (better bst m new) st')))"
  by pat_completeness auto
termination
  by (relation "measures [\<lambda>x. case x of Inl (_, n, _) \<Rightarrow> 2 * n | Inr (_, n, _) \<Rightarrow> 2 * n + 1,
       \<lambda>x. case x of Inl _ \<Rightarrow> 0 | Inr (_, _, _, g, _) \<Rightarrow> length g]") auto

section \<open>Soundness\<close>

definition reaches :: "('d, 'm, 'h) search_ops \<Rightarrow> 'd \<Rightarrow> 'm list option \<Rightarrow> bool" where
  "reaches W d r \<longleftrightarrow> (case r of None \<Rightarrow> True | Some ms \<Rightarrow> \<exists>e. plan W d ms e \<and> so_done W e)"

definition mem_sound :: "('d, 'm, 'h) search_ops \<Rightarrow> 'd set \<Rightarrow> ('m, 'h) memo_state \<Rightarrow> bool" where
  "mem_sound W D st \<longleftrightarrow> (\<forall>x \<in> D. \<forall>r. map_of (snd st) (so_hash W x) = Some r \<longrightarrow> reaches W x r)"

lemma reaches_simps [simp]: "reaches W d None" "so_done W d \<Longrightarrow> reaches W d (Some [])"
  by (auto simp: reaches_def intro: plan.intros)

lemma reaches_better:
  "reaches W d bst \<Longrightarrow> move_step W d m d' \<Longrightarrow> reaches W d' new \<Longrightarrow> reaches W d (better bst m new)"
  by (auto simp: reaches_def better_def intro: plan_cons split: option.splits)

lemma memo_moves_yield_cases:
  assumes "memo_moves W n d (Inr m # g) bst st = (Inr r, st')"
  obtains (rejected) "so_validate W m d = Inr False" "memo_moves W n d g bst st = (Inr r, st')"
  | (tried) d' new s where "so_validate W m d = Inr True" "so_simulate W m d = Inr d'"
      "memo_sort W n d' st = (Inr new, s)" "memo_moves W n d g (better bst m new) s = (Inr r, st')"
  using assms by (auto split: sum.splits bool.splits prod.splits)

lemma memo_sound:
  assumes inj: "inj_on (so_hash W) D" and cl: "closed_under W D"
  shows
  "d \<in> D \<Longrightarrow> mem_sound W D st \<Longrightarrow> memo_sort W n d st = (Inr r, st') \<Longrightarrow>
     reaches W d r \<and> mem_sound W D st'"
  "d \<in> D \<Longrightarrow> mem_sound W D st \<Longrightarrow> set g \<subseteq> set (so_generate W d) \<Longrightarrow> reaches W d bst \<Longrightarrow>
     memo_moves W n d g bst st = (Inr r, st') \<Longrightarrow> reaches W d r \<and> mem_sound W D st'"
  using inj cl
proof (induction W n d st and W n d g bst st arbitrary: r st' and r st'
    rule: memo_sort_memo_moves.induct)
  case (2 W n d vis mem)
  show ?case
  proof (cases "so_done W d \<or> map_of mem (so_hash W d) \<noteq> None \<or> so_hash W d \<in> set vis")
    case True
    with 2 show ?thesis by (auto simp: mem_sound_def split: if_splits option.splits)
  next
    case False
    with 2(4) obtain vis' mem' where
      run: "memo_moves W n d (so_generate W d) None (so_hash W d # vis, mem) = (Inr r, vis', mem')"
      and st': "st' = (vis', AList.update (so_hash W d) r mem')"
      by (auto split: option.splits sum.splits prod.splits)
    have "mem_sound W D (so_hash W d # vis, mem)" using 2(3) by (simp add: mem_sound_def)
    then have IH: "reaches W d r \<and> mem_sound W D (vis', mem')"
      using 2 False run by auto
    have "mem_sound W D st'"
      unfolding mem_sound_def
    proof (intro ballI allI impI)
      fix x s assume x: "x \<in> D" "map_of (snd st') (so_hash W x) = Some s"
      show "reaches W x s"
      proof (cases "so_hash W x = so_hash W d")
        case True
        then have "x = d" using 2(5) x(1) 2(2) by (auto dest: inj_onD)
        with x IH st' show ?thesis by simp
      next
        case False
        with x IH st' show ?thesis by (auto simp: mem_sound_def)
      qed
    qed
    with IH show ?thesis by simp
  qed
next
  case (5 W n d m g bst st)
  from 5(8) show ?case
  proof (cases rule: memo_moves_yield_cases)
    case rejected
    then show ?thesis using 5(3)[of False] 5 by simp
  next
    case (tried d' new s)
    have step: "move_step W d m d'" using tried 5(6) by (auto intro: move_step.intros)
    then have d': "d' \<in> D" using 5(4) 5(10) by (auto simp: closed_under_def)
    have a: "reaches W d' new \<and> mem_sound W D s"
      by (rule 5(1)[OF tried(1) _ tried(2) d' 5(5) tried(3) 5(9,10)]) simp
    then have b: "reaches W d (better bst m new)" using reaches_better[OF 5(7) step] by blast
    have g: "set g \<subseteq> set (so_generate W d)" using 5(6) by simp
    show ?thesis
      by (rule 5(2)[OF tried(1) _ tried(2) tried(3)[symmetric] refl 5(4) _ g b tried(4) 5(9,10)])
         (use a in simp_all)
  qed
qed auto

lemma memo_sort_sound:
  assumes "inj_on (so_hash W) D" and "closed_under W D" and "d \<in> D"
    and "memo_sort W n d ([], []) = (Inr (Some ms), st)"
  shows "\<exists>e. plan W d ms e \<and> so_done W e"
  using memo_sound(1)[OF assms(1,2,3) _ assms(4)] by (simp add: mem_sound_def reaches_def)

section \<open>Not a shortest plan\<close>

lemma detour_memo: "fst (memo_sort detour 10 0 ([], [])) = Inr (Some [1, 2, 3, 9])"
  by (code_simp)

lemma detour_shorter: "plan detour 0 [4, 3, 9] 9"
  by (auto simp: detour_def intro!: plan.intros move_step.intros)

text \<open>
  In the graph \<open>detour\<close> the shortest plan is 4, 3, 9. The search visits 4 while 3 is on its stack, records 4 as
  a dead end, and returns the chain 1, 2, 3, 9.
\<close>

text \<open>The memoizing sorter returns a plan to the target, but not always a shortest one: on \<open>detour\<close> it returns four
  moves where three suffice.\<close>

theorem memo_sorter_not_shortest:
  "\<exists>ms st ns e. memo_sort detour 10 0 ([], []) = (Inr (Some ms), st) \<and> (\<exists>e. plan detour 0 ms e \<and> so_done detour e) \<and>
     plan detour 0 ns e \<and> so_done detour e \<and> length ns < length ms"
proof -
  obtain st where st: "memo_sort detour 10 0 ([], []) = (Inr (Some [1, 2, 3, 9]), st)"
    by (metis detour_memo prod.collapse)
  moreover have "\<exists>e. plan detour 0 [1, 2, 3, 9] e \<and> so_done detour e"
    by (rule memo_sort_sound[OF _ detour_closed _ st]) (simp_all add: detour_def)
  moreover have "so_done detour 9" by (simp add: detour_def)
  ultimately show ?thesis using detour_shorter by fastforce
qed

end
