(* ===== verification/JsonLibs.thy ===== *)
theory JsonLibs
  imports PyJson
begin

text \<open>
  The JsonPatch operations of \<open>gu_common.py\<close> (\<open>OperationType\<close>, \<open>OperationWrapper\<close>, \<open>JsonChange\<close>) and the
  interface of the two third-party packages below them, \<open>jsonpointer\<close> (RFC 6901) and \<open>jsonpatch\<close>
  (RFC 6902). The packages are not part of the repository: what the code calls on them is the record
  \<open>json_lib\<close>, a parameter of every definition that uses it, and what a theorem needs of them is
  one of the named hypotheses below, which restate the RFCs. \<open>ref_lib\<close> is a concrete function
  for each entry and serves the witnesses only.
\<close>

section \<open>Operations\<close>

datatype op_type = ADD | REMOVE | REPLACE

text \<open>One entry of a patch; \<open>op\<close> is a string, since a patch given by a user may hold any RFC 6902
  operation (\<open>move\<close> and \<open>copy\<close> have a \<open>from\<close>).\<close>

record operation =
  op :: string
  path :: string
  op_value :: "json option"
  op_from :: "string option"

type_synonym patch = "operation list"

fun op_name :: "op_type \<Rightarrow> string" where
  "op_name ADD = ''add''"
| "op_name REMOVE = ''remove''"
| "op_name REPLACE = ''replace''"

text \<open>\<open>OperationWrapper.create\<close>: the value of a removal is dropped.\<close>

definition create_operation :: "op_type \<Rightarrow> string \<Rightarrow> json option \<Rightarrow> operation" where
  "create_operation t p v =
     \<lparr>op = op_name t, path = p,
      op_value = (if t \<in> {ADD, REPLACE} then Some (opt_json v) else None), op_from = None\<rparr>"

text \<open>\<open>OperationType[s.upper()]\<close>: KeyError for any other name.\<close>

definition op_type_of :: "string \<Rightarrow> err + op_type" where
  "op_type_of s = (let l = to_lower s in
     if l = ''add'' then Inr ADD else if l = ''remove'' then Inr REMOVE
     else if l = ''replace'' then Inr REPLACE else Inl KeyError)"

lemma op_type_of_name [simp]: "op_type_of (op_name t) = Inr t"
  by (cases t) (simp_all add: op_type_of_def to_lower_def)

section \<open>Numbers and strings\<close>

fun nat_str :: "nat \<Rightarrow> string" where
  "nat_str n = (if n < 10 then [char_of (48 + n)] else nat_str (n div 10) @ [char_of (48 + n mod 10)])"

declare nat_str.simps [simp del]

definition int_str :: "int \<Rightarrow> string" where
  "int_str i = (if i < 0 then CHR ''-'' # nat_str (nat (- i)) else nat_str (nat i))"

fun token_str :: "token \<Rightarrow> string" where
  "token_str (TStr s) = s"
| "token_str (TIdx i) = int_str i"

definition digit_val :: "char \<Rightarrow> nat" where
  "digit_val c = of_char c - 48"

fun digits_nat :: "nat \<Rightarrow> string \<Rightarrow> nat option" where
  "digits_nat n [] = Some n"
| "digits_nat n (c # cs) =
     (if is_digit c then digits_nat (10 * n + digit_val c) cs
      else if c = CHR ''_'' then (case cs of d # ds \<Rightarrow> if is_digit d then digits_nat n cs else None | [] \<Rightarrow> None)
      else None)"

text \<open>\<open>int(s)\<close>: white space around, one sign, digits with single underscores between them.\<close>

definition py_int :: "string \<Rightarrow> err + int" where
  "py_int s =
     (let t = py_strip s; neg = (case t of c # _ \<Rightarrow> c = CHR ''-'' | [] \<Rightarrow> False);
          body = (case t of c # r \<Rightarrow> if c = CHR ''-'' \<or> c = CHR ''+'' then r else t | [] \<Rightarrow> [])
      in case body of [] \<Rightarrow> Inl ValueError
         | c # r \<Rightarrow> if \<not> is_digit c then Inl ValueError
             else (case digits_nat 0 body of None \<Rightarrow> Inl ValueError
                    | Some n \<Rightarrow> Inr (if neg then - int n else int n)))"

lemma digit_char: "n < 10 \<Longrightarrow> is_digit (char_of (48 + n)) \<and> digit_val (char_of (48 + n)) = n"
  by (simp add: is_digit_def digit_val_def)

lemma digits_nat_append:
  "list_all is_digit s \<Longrightarrow> digits_nat m (s @ t) = digits_nat (the (digits_nat m s)) t"
  by (induction m s rule: digits_nat.induct) auto

lemma nat_str_digits: "list_all is_digit (nat_str n)"
proof (induction n rule: nat_str.induct)
  case (1 n)
  then show ?case by (subst nat_str.simps) (auto simp: digit_char)
qed

lemma digits_nat_str: "digits_nat 0 (nat_str n) = Some n"
proof (induction n rule: nat_str.induct)
  case (1 n)
  show ?case
  proof (cases "n < 10")
    case True
    then show ?thesis by (subst nat_str.simps) (simp add: digit_char)
  next
    case False
    then have "digits_nat 0 (nat_str n) =
        digits_nat (the (digits_nat 0 (nat_str (n div 10)))) [char_of (48 + n mod 10)]"
      by (subst nat_str.simps) (simp add: digits_nat_append nat_str_digits)
    with 1 False show ?thesis by (simp add: digit_char)
  qed
qed

section \<open>The interface of jsonpointer and jsonpatch\<close>

record json_lib =
  jl_parts :: "string \<Rightarrow> err + string list"
  jl_from_parts :: "token list \<Rightarrow> string"
  jl_get :: "json \<Rightarrow> string \<Rightarrow> err + json"
  jl_apply :: "patch \<Rightarrow> json \<Rightarrow> err + json"
  jl_make :: "json \<Rightarrow> json \<Rightarrow> patch"

text \<open>RFC 6901: an array is addressed by a decimal index without leading zeros.\<close>

definition array_index :: "string \<Rightarrow> nat option" where
  "array_index s = (if s = ''0'' then Some 0
     else if py_isdigit s \<and> hd s \<noteq> CHR ''0'' then digits_nat 0 s else None)"

fun json_get_at :: "string list \<Rightarrow> json \<Rightarrow> json option" where
  "json_get_at [] v = Some v"
| "json_get_at (k # ks) (JObj d) = (case map_of d k of None \<Rightarrow> None | Some w \<Rightarrow> json_get_at ks w)"
| "json_get_at (k # ks) (JArr xs) =
     (case array_index k of None \<Rightarrow> None
      | Some i \<Rightarrow> if i < length xs then json_get_at ks (xs ! i) else None)"
| "json_get_at (k # ks) _ = None"

text \<open>RFC 6902, section 4: the effect of an operation with path \<open>ks\<close> on a document. At the leaf, \<open>f\<close>
  says what happens to the parent.\<close>

fun json_edit_at :: "(json \<Rightarrow> string \<Rightarrow> json option) \<Rightarrow> string list \<Rightarrow> json \<Rightarrow> json option" where
  "json_edit_at f [] v = None"
| "json_edit_at f [k] v = f v k"
| "json_edit_at f (k # j # ks) (JObj d) =
     (case map_of d k of None \<Rightarrow> None
      | Some w \<Rightarrow> map_option (\<lambda>w'. JObj (AList.update k w' d)) (json_edit_at f (j # ks) w))"
| "json_edit_at f (k # j # ks) (JArr xs) =
     (case array_index k of None \<Rightarrow> None
      | Some i \<Rightarrow> if i < length xs then map_option (\<lambda>w'. JArr (xs[i := w'])) (json_edit_at f (j # ks) (xs ! i))
          else None)"
| "json_edit_at f (k # j # ks) _ = None"

fun add_leaf :: "json \<Rightarrow> json \<Rightarrow> string \<Rightarrow> json option" where
  "add_leaf v (JObj d) k = Some (JObj (AList.update k v d))"
| "add_leaf v (JArr xs) k =
     (if k = ''-'' then Some (JArr (xs @ [v]))
      else case array_index k of None \<Rightarrow> None
        | Some i \<Rightarrow> if i \<le> length xs then Some (JArr (take i xs @ v # drop i xs)) else None)"
| "add_leaf v _ k = None"

fun remove_leaf :: "json \<Rightarrow> string \<Rightarrow> json option" where
  "remove_leaf (JObj d) k = (if map_of d k = None then None else Some (JObj (AList.delete k d)))"
| "remove_leaf (JArr xs) k =
     (case array_index k of None \<Rightarrow> None
      | Some i \<Rightarrow> if i < length xs then Some (JArr (take i xs @ drop (Suc i) xs)) else None)"
| "remove_leaf _ k = None"

fun replace_leaf :: "json \<Rightarrow> json \<Rightarrow> string \<Rightarrow> json option" where
  "replace_leaf v (JObj d) k = (if map_of d k = None then None else Some (JObj (AList.update k v d)))"
| "replace_leaf v (JArr xs) k =
     (case array_index k of None \<Rightarrow> None
      | Some i \<Rightarrow> if i < length xs then Some (JArr (xs[i := v])) else None)"
| "replace_leaf v _ k = None"

definition rfc_op :: "op_type \<Rightarrow> string list \<Rightarrow> json \<Rightarrow> json \<Rightarrow> json option" where
  "rfc_op t ks v doc =
     (case t of
        ADD \<Rightarrow> if ks = [] then Some v else json_edit_at (add_leaf v) ks doc
      | REPLACE \<Rightarrow> if ks = [] then Some v else json_edit_at (replace_leaf v) ks doc
      | REMOVE \<Rightarrow> json_edit_at remove_leaf ks doc)"

section \<open>Named hypotheses on the packages\<close>

definition pointer_ok :: "json_lib \<Rightarrow> bool" where
  "pointer_ok lib \<longleftrightarrow>
     (\<forall>ts. jl_parts lib (jl_from_parts lib ts) = Inr (map token_str ts)) \<and>
     (\<forall>ts d. jl_get lib d (jl_from_parts lib ts) = Inr (opt_json (json_get_at (map token_str ts) d)))"

definition patch_op_ok :: "json_lib \<Rightarrow> bool" where
  "patch_op_ok lib \<longleftrightarrow> (\<forall>t ts v doc doc'. rfc_op t (map token_str ts) (opt_json v) doc = Some doc' \<longrightarrow>
     jl_apply lib [create_operation t (jl_from_parts lib ts) v] doc = Inr doc')"

definition make_patch_ok :: "json_lib \<Rightarrow> bool" where
  "make_patch_ok lib \<longleftrightarrow> (\<forall>a b. wf_json a \<and> wf_json b \<longrightarrow>
     (\<exists>c. jl_apply lib (jl_make lib a b) a = Inr c \<and> wf_json c \<and> json_eq c b) \<and>
     (jl_make lib a b = [] \<longleftrightarrow> json_eq a b))"

text \<open>\<open>JsonChange.apply\<close> (and \<open>PatchWrapper.simulate_patch\<close>): the package applies the patch.\<close>

definition change_apply :: "json_lib \<Rightarrow> patch \<Rightarrow> json \<Rightarrow> err + json" where
  "change_apply lib change config = jl_apply lib change config"

section \<open>A concrete instance for witnesses\<close>

definition esc :: "string \<Rightarrow> string" where
  "esc s = concat (map (\<lambda>c. if c = CHR ''~'' then ''~0'' else if c = CHR ''/'' then ''~1'' else [c]) s)"

fun unesc :: "string \<Rightarrow> err + string" where
  "unesc [] = Inr []"
| "unesc (c # s) =
     (if c = CHR ''~'' then
        (case s of [] \<Rightarrow> Inl JsonPointerException
         | d # r \<Rightarrow> if d = CHR ''0'' then rbind (unesc r) (\<lambda>u. Inr (CHR ''~'' # u))
             else if d = CHR ''1'' then rbind (unesc r) (\<lambda>u. Inr (CHR ''/'' # u))
             else Inl JsonPointerException)
      else rbind (unesc s) (\<lambda>u. Inr (c # u)))"

definition ref_parts :: "string \<Rightarrow> err + string list" where
  "ref_parts p = (if p = [] then Inr []
     else if hd p = CHR ''/'' then rmapM unesc (split_on (CHR ''/'') (tl p)) else Inl JsonPointerException)"

definition ref_from_parts :: "token list \<Rightarrow> string" where
  "ref_from_parts ts = concat (map (\<lambda>t. CHR ''/'' # esc (token_str t)) ts)"

fun ref_apply :: "patch \<Rightarrow> json \<Rightarrow> err + json" where
  "ref_apply [] doc = Inr doc"
| "ref_apply (o1 # os) doc =
     rbind (op_type_of (op o1)) (\<lambda>t. rbind (ref_parts (path o1)) (\<lambda>ks.
       case rfc_op t ks (opt_json (op_value o1)) doc of None \<Rightarrow> Inl JsonPatchException
       | Some doc' \<Rightarrow> ref_apply os doc'))"

definition ref_lib :: json_lib where
  "ref_lib = \<lparr>jl_parts = ref_parts, jl_from_parts = ref_from_parts,
     jl_get = (\<lambda>d p. case ref_parts p of Inl e \<Rightarrow> Inl e | Inr ks \<Rightarrow> Inr (opt_json (json_get_at ks d))),
     jl_apply = ref_apply,
     jl_make = (\<lambda>a b. if json_eq a b then [] else [create_operation REPLACE [] (Some b)])\<rparr>"

lemma esc_no_slash: "CHR ''/'' \<notin> set (esc s)"
  by (auto simp: esc_def)

lemma unesc_esc [simp]: "unesc (esc s) = Inr s"
  by (induction s) (auto simp: esc_def)

lemma ref_from_parts_join:
  "ts \<noteq> [] \<Longrightarrow> ref_from_parts ts = CHR ''/'' # join_with ''/'' (map (esc \<circ> token_str) ts)"
  by (induction ts rule: induct_list012) (auto simp: ref_from_parts_def)

lemma ref_parts_from_parts [simp]: "ref_parts (ref_from_parts ts) = Inr (map token_str ts)"
proof (cases "ts = []")
  case True
  then show ?thesis by (simp add: ref_from_parts_def ref_parts_def)
next
  case False
  have "split_on (CHR ''/'') (join_with ''/'' (map (esc \<circ> token_str) ts)) = map (esc \<circ> token_str) ts"
    using False by (intro split_on_join) (auto simp: esc_no_slash)
  then show ?thesis
    using False by (simp add: ref_from_parts_join ref_parts_def rmapM_Inr_iff list_all2_conv_all_nth)
qed

lemma ref_pointer_ok [simp]: "pointer_ok ref_lib"
  by (simp add: pointer_ok_def ref_lib_def)

lemma rfc_op_remove_value: "rfc_op REMOVE ks v doc = rfc_op REMOVE ks w doc"
  by (simp add: rfc_op_def)

lemma ref_patch_op_ok [simp]: "patch_op_ok ref_lib"
  unfolding patch_op_ok_def
proof (intro allI impI)
  fix t ts v doc doc'
  assume a: "rfc_op t (map token_str ts) (opt_json v) doc = Some doc'"
  show "jl_apply ref_lib [create_operation t (jl_from_parts ref_lib ts) v] doc = Inr doc'"
    using a rfc_op_remove_value[of "map token_str ts" "opt_json v" doc "opt_json None"]
    by (cases t) (auto simp: ref_lib_def create_operation_def op_type_of_def to_lower_def opt_json_def
        dest!: sym[of "Some doc'"] split: option.splits)
qed

lemma ref_make_patch_ok [simp]: "make_patch_ok ref_lib"
  by (simp add: make_patch_ok_def ref_lib_def create_operation_def op_type_of_def to_lower_def
      ref_parts_def rfc_op_def opt_json_def)

end
