(* ===== verification/XpathTokens.thy ===== *)
theory XpathTokens
  imports JsonLibs
begin

text \<open>
  The lexical part of \<open>PathAddressing\<close> in \<open>gu_common.py\<close>: cutting an XPATH into tokens at the slashes
  that lie outside predicates (\<open>get_xpath_tokens\<close> and its four scanners, which move an index over the
  string), joining tokens (\<open>create_xpath\<close>), and the regular expressions that read the keys of a list
  token (\<open>_extract_key_dict\<close>).
\<close>

section \<open>Scanners\<close>

text \<open>The two quote scanners: from the opening quote to the closing one or to the end.\<close>

function find_from :: "char \<Rightarrow> string \<Rightarrow> nat \<Rightarrow> nat" where
  "find_from c s idx = (if idx < length s then if s ! idx = c then idx else find_from c s (idx + 1) else idx)"
  by pat_completeness auto
termination
  by (relation "measure (\<lambda>(c, s, idx). length s - idx)") auto

declare find_from.simps [simp del]

definition get_xpath_single_quote_str_end :: "nat \<Rightarrow> string \<Rightarrow> nat" where
  "get_xpath_single_quote_str_end start xpath = find_from CHR 0x27 xpath (start + 1)"

definition get_xpath_double_quote_str_end :: "nat \<Rightarrow> string \<Rightarrow> nat" where
  "get_xpath_double_quote_str_end start xpath = find_from CHR 0x22 xpath (start + 1)"

lemma find_from_ge: "idx \<le> find_from c s idx"
proof (induction c s idx rule: find_from.induct)
  case (1 c s idx)
  then show ?case by (subst find_from.simps) auto
qed

lemma quote_end_gt:
  "start < get_xpath_single_quote_str_end start xpath"
  "start < get_xpath_double_quote_str_end start xpath"
  using find_from_ge[of "start + 1"]
  by (simp_all add: get_xpath_single_quote_str_end_def get_xpath_double_quote_str_end_def Suc_le_eq)

function get_xpath_predicate_end :: "nat \<Rightarrow> string \<Rightarrow> nat" where
  "get_xpath_predicate_end idx xpath =
     (if idx < length xpath then
        if xpath ! idx = CHR '']'' then idx
        else if xpath ! idx = CHR 0x27
        then get_xpath_predicate_end (get_xpath_single_quote_str_end idx xpath + 1) xpath
        else if xpath ! idx = CHR 0x22
        then get_xpath_predicate_end (get_xpath_double_quote_str_end idx xpath + 1) xpath
        else get_xpath_predicate_end (idx + 1) xpath
      else idx)"
  by pat_completeness auto
termination
proof (relation "measure (\<lambda>(idx, xpath). length xpath - idx)", goal_cases)
  case (2 idx xpath)
  then show ?case using quote_end_gt(1)[of idx xpath] by auto
next
  case (3 idx xpath)
  then show ?case using quote_end_gt(2)[of idx xpath] by auto
qed auto

declare get_xpath_predicate_end.simps [simp del]

lemma predicate_end_ge: "idx \<le> get_xpath_predicate_end idx xpath"
proof (induction idx xpath rule: get_xpath_predicate_end.induct)
  case (1 idx xpath)
  then show ?case
    using quote_end_gt[of idx xpath] by (subst get_xpath_predicate_end.simps) auto
qed

function get_xpath_token_end :: "nat \<Rightarrow> string \<Rightarrow> nat" where
  "get_xpath_token_end idx xpath =
     (if idx < length xpath then
        if xpath ! idx = CHR ''/'' then idx
        else if xpath ! idx = CHR ''[''
        then get_xpath_token_end (get_xpath_predicate_end idx xpath + 1) xpath
        else get_xpath_token_end (idx + 1) xpath
      else idx)"
  by pat_completeness auto
termination
proof (relation "measure (\<lambda>(idx, xpath). length xpath - idx)", goal_cases)
  case (2 idx xpath)
  then show ?case using predicate_end_ge[of idx xpath] by auto
qed auto

declare get_xpath_token_end.simps [simp del]

lemma token_end_ge: "idx \<le> get_xpath_token_end idx xpath"
proof (induction idx xpath rule: get_xpath_token_end.induct)
  case (1 idx xpath)
  then show ?case
    using predicate_end_ge[of idx xpath] by (subst get_xpath_token_end.simps) auto
qed

section \<open>get\_xpath\_tokens and create\_xpath\<close>

text \<open>The loop of \<open>get_xpath_tokens\<close> and its slices \<open>xpath[idx+1:end]\<close>.\<close>

definition slice :: "nat \<Rightarrow> nat \<Rightarrow> string \<Rightarrow> string" where
  "slice i j s = take (j - i) (drop i s)"

function xpath_token_loop :: "nat \<Rightarrow> string \<Rightarrow> string list" where
  "xpath_token_loop idx xpath =
     (if idx < length xpath then
        slice (idx + 1) (get_xpath_token_end (idx + 1) xpath) xpath
          # xpath_token_loop (get_xpath_token_end (idx + 1) xpath) xpath
      else [])"
  by pat_completeness auto
termination
proof (relation "measure (\<lambda>(idx, xpath). length xpath - idx)", goal_cases)
  case (2 idx xpath)
  then show ?case using token_end_ge[of "idx + 1" xpath] by auto
qed auto

declare xpath_token_loop.simps [simp del]

definition get_xpath_tokens :: "string \<Rightarrow> err + string list" where
  "get_xpath_tokens xpath =
     (if xpath = '''' then Inl ValueError
      else if xpath = ''/'' then Inr []
      else Inr (xpath_token_loop 0 xpath))"

definition create_xpath :: "string list \<Rightarrow> string" where
  "create_xpath tokens = (if length tokens = 0 then ''/'' else ''/'' @ join_with ''/'' tokens)"

section \<open>Cutting and joining are inverse\<close>

lemma token_end_slash:
  "get_xpath_token_end idx xpath < length xpath \<Longrightarrow> xpath ! get_xpath_token_end idx xpath = CHR ''/''"
proof (induction idx xpath rule: get_xpath_token_end.induct)
  case (1 idx xpath)
  then show ?case
    by (auto simp: get_xpath_token_end.simps[of idx xpath] split: if_splits)
qed

lemma join_slash: "ts \<noteq> [] \<Longrightarrow> ''/'' @ join_with ''/'' ts = concat (map (Cons (CHR ''/'')) ts)"
  by (induction ts rule: induct_list012) auto

text \<open>No character is lost: the tokens, each after a slash, spell the XPATH again.\<close>

lemma xpath_token_loop_concat:
  "idx < length xpath \<Longrightarrow> xpath ! idx = CHR ''/'' \<Longrightarrow>
     concat (map (Cons (CHR ''/'')) (xpath_token_loop idx xpath)) = drop idx xpath"
proof (induction idx xpath rule: xpath_token_loop.induct)
  case (1 idx xpath)
  let ?e = "get_xpath_token_end (idx + 1) xpath"
  have e: "idx < ?e" using token_end_ge[of "idx + 1" xpath] by simp
  have head: "drop idx xpath = CHR ''/'' # drop (idx + 1) xpath"
    using 1 by (metis Cons_nth_drop_Suc Suc_eq_plus1)
  have cut: "drop (idx + 1) xpath = slice (idx + 1) ?e xpath @ drop ?e xpath"
    using e by (simp add: slice_def) (metis Suc_leI append_take_drop_id drop_drop le_add_diff_inverse2)
  have rest: "concat (map (Cons (CHR ''/'')) (xpath_token_loop ?e xpath)) = drop ?e xpath"
  proof (cases "?e < length xpath")
    case True
    then show ?thesis using 1 token_end_slash by blast
  next
    case False
    then show ?thesis by (simp add: xpath_token_loop.simps)
  qed
  show ?case
    using 1(2) head cut rest by (subst xpath_token_loop.simps) simp
qed

lemma xpath_token_loop_ne: "idx < length xpath \<Longrightarrow> xpath_token_loop idx xpath \<noteq> []"
  by (subst xpath_token_loop.simps) simp

text \<open>
  A well-formed token: slashes occur inside predicates only, predicates and the quotes in them are
  closed. It is what an XPATH built by \<open>convert_path_to_xpath\<close> consists of.
\<close>

fun token_ok :: "string \<Rightarrow> bool"
and pred_ok :: "string \<Rightarrow> bool"
and quote_ok :: "char \<Rightarrow> string \<Rightarrow> bool" where
  "token_ok [] = True"
| "token_ok (c # s) = (if c = CHR ''/'' then False else if c = CHR ''['' then pred_ok s else token_ok s)"
| "pred_ok [] = False"
| "pred_ok (c # s) = (if c = CHR '']'' then token_ok s
     else if c = CHR 0x27 \<or> c = CHR 0x22 then quote_ok c s else pred_ok s)"
| "quote_ok q [] = False"
| "quote_ok q (c # s) = (if c = q then pred_ok s else quote_ok q s)"

text \<open>Where the scanners stop, seen from a position \<open>length p\<close> in \<open>p @ s\<close>.\<close>

lemma find_from_at:
  "find_from c (p @ s) (length p) = length p + length (takeWhile (\<lambda>x. x \<noteq> c) s)"
proof (induction s arbitrary: p)
  case Nil
  then show ?case by (simp add: find_from.simps)
next
  case (Cons x s)
  show ?case
  proof (cases "x = c")
    case True
    then show ?thesis by (simp add: find_from.simps)
  next
    case False
    have "find_from c (p @ x # s) (length p) = find_from c ((p @ [x]) @ s) (length (p @ [x]))"
      using False by (subst find_from.simps) simp
    with Cons[of "p @ [x]"] False show ?thesis by simp
  qed
qed

lemma quote_end_at:
  assumes "c \<in> set s" and "q = CHR 0x27 \<or> q = CHR 0x22" and "c = q"
  shows "find_from c (p @ q # s) (length p + 1) = length p + 1 + length (takeWhile (\<lambda>x. x \<noteq> c) s)"
  using find_from_at[of c "p @ [q]" s] by simp

lemma quote_ok_split:
  "quote_ok q s \<Longrightarrow> \<exists>u v. s = u @ q # v \<and> q \<notin> set u \<and> pred_ok v"
proof (induction s)
  case (Cons c s)
  show ?case
  proof (cases "c = q")
    case True
    with Cons show ?thesis by (intro exI[of _ "[]"] exI[of _ s]) auto
  next
    case False
    with Cons obtain u v where "s = u @ q # v" "q \<notin> set u" "pred_ok v" by auto
    with False have "c # s = (c # u) @ q # v \<and> q \<notin> set (c # u) \<and> pred_ok v" by simp
    then show ?thesis by blast
  qed
qed simp

lemma takeWhile_until: "q \<notin> set u \<Longrightarrow> takeWhile (\<lambda>x. x \<noteq> q) (u @ q # v) = u"
  by (induction u) auto

text \<open>A predicate that closes is left behind its bracket, where the token goes on.\<close>

lemma pred_ok_end:
  "pred_ok s \<Longrightarrow> \<exists>u v. s = u @ CHR '']'' # v \<and> token_ok v \<and>
     (\<forall>p r. get_xpath_predicate_end (length p) (p @ s @ r) = length p + length u)"
proof (induction s rule: length_induct)
  case (1 s)
  then obtain c s' where s: "s = c # s'" by (cases s) auto
  consider (close) "c = CHR '']''" | (quote) "c = CHR 0x27 \<or> c = CHR 0x22"
    | (other) "c \<noteq> CHR '']''" "c \<noteq> CHR 0x27" "c \<noteq> CHR 0x22" by blast
  then show ?case
  proof cases
    case close
    with 1 s show ?thesis
      by (intro exI[of _ "[]"] exI[of _ s']) (auto simp: get_xpath_predicate_end.simps)
  next
    case quote
    then have "quote_ok c s'" using 1(2) s by auto
    then obtain u v where uv: "s' = u @ c # v" "c \<notin> set u" "pred_ok v"
      using quote_ok_split by blast
    then obtain w z where wz: "v = w @ CHR '']'' # z" "token_ok z"
      "\<forall>p r. get_xpath_predicate_end (length p) (p @ v @ r) = length p + length w"
      using 1(1) s by (metis length_Cons length_append less_SucI less_add_Suc2 add_Suc_right)
    have "get_xpath_predicate_end (length p) (p @ s @ r) = length p + length (c # u @ c # w)" for p r
    proof -
      have "find_from c (p @ c # u @ c # v @ r) (length p + 1) = length p + 1 + length u"
        using find_from_at[of c "p @ [c]" "u @ c # v @ r"] uv(2) by (simp add: takeWhile_until)
      then have "get_xpath_predicate_end (length p) (p @ s @ r) =
          get_xpath_predicate_end (length (p @ c # u @ [c])) ((p @ c # u @ [c]) @ v @ r)"
        using quote s uv
        by (subst get_xpath_predicate_end.simps)
           (auto simp: get_xpath_single_quote_str_end_def get_xpath_double_quote_str_end_def)
      then show ?thesis using wz(3)[rule_format, of "p @ c # u @ [c]" r] by simp
    qed
    with s uv wz show ?thesis by (intro exI[of _ "c # u @ c # w"] exI[of _ z]) auto
  next
    case other
    then have "pred_ok s'" using 1(2) s by auto
    then obtain w z where wz: "s' = w @ CHR '']'' # z" "token_ok z"
      "\<forall>p r. get_xpath_predicate_end (length p) (p @ s' @ r) = length p + length w"
      using 1(1) s by (metis length_Cons lessI)
    have "get_xpath_predicate_end (length p) (p @ s @ r) = length p + length (c # w)" for p r
      using other s wz(3)[rule_format, of "p @ [c]" r]
      by (subst get_xpath_predicate_end.simps) simp
    with s wz show ?thesis by (intro exI[of _ "c # w"] exI[of _ z]) auto
  qed
qed

lemma token_ok_end:
  "token_ok s \<Longrightarrow> r = [] \<or> hd r = CHR ''/'' \<Longrightarrow>
     get_xpath_token_end (length p) (p @ s @ r) = length p + length s"
proof (induction s arbitrary: p rule: length_induct)
  case (1 s)
  show ?case
  proof (cases s)
    case Nil
    with 1 show ?thesis by (cases r) (auto simp: get_xpath_token_end.simps)
  next
    case (Cons c s')
    show ?thesis
    proof (cases "c = CHR ''[''")
      case True
      then have "pred_ok s'" using 1 Cons by auto
      from pred_ok_end[OF this] obtain u v where uv: "s' = u @ CHR '']'' # v" "token_ok v"
        "\<forall>p r. get_xpath_predicate_end (length p) (p @ s' @ r) = length p + length u" by blast
      have "get_xpath_predicate_end (length p) (p @ s @ r) = get_xpath_predicate_end (length (p @ [c])) ((p @ [c]) @ s' @ r)"
        using True Cons by (subst get_xpath_predicate_end.simps) simp
      then have pe: "get_xpath_predicate_end (length p) (p @ s @ r) = length p + 1 + length u"
        using uv(3)[rule_format, of "p @ [c]" r] by simp
      have "get_xpath_token_end (length p) (p @ s @ r) =
          get_xpath_token_end (length (p @ c # u @ '']'')) ((p @ c # u @ '']'') @ v @ r)"
        using True Cons pe uv(1) by (subst get_xpath_token_end.simps) simp
      also have "\<dots> = length (p @ c # u @ '']'') + length v"
        by (rule 1(1)[rule_format]) (use 1 uv Cons in auto)
      finally show ?thesis using Cons uv(1) by simp
    next
      case False
      then have ok: "token_ok s'" "c \<noteq> CHR ''/''" using 1 Cons by (auto split: if_splits)
      have "get_xpath_token_end (length p) (p @ s @ r) = get_xpath_token_end (length (p @ [c])) ((p @ [c]) @ s' @ r)"
        using False Cons ok by (subst get_xpath_token_end.simps) simp
      also have "\<dots> = length (p @ [c]) + length s'"
        by (rule 1(1)[rule_format]) (use 1 ok Cons in auto)
      finally show ?thesis using Cons by simp
    qed
  qed
qed

lemma xpath_token_loop_join:
  "\<forall>t \<in> set ts. token_ok t \<Longrightarrow>
     xpath_token_loop (length p) (p @ concat (map (Cons (CHR ''/'')) ts)) = ts"
proof (induction ts arbitrary: p)
  case Nil
  then show ?case by (simp add: xpath_token_loop.simps)
next
  case (Cons t ts)
  let ?r = "concat (map (Cons (CHR ''/'')) ts)"
  have e: "get_xpath_token_end (length (p @ ''/'')) ((p @ ''/'') @ t @ ?r) = length (p @ ''/'') + length t"
    using Cons.prems by (intro token_ok_end) (cases ts; auto)+
  have "xpath_token_loop (length p) (p @ concat (map (Cons (CHR ''/'')) (t # ts))) =
      t # xpath_token_loop (length (p @ ''/'' @ t)) ((p @ ''/'' @ t) @ ?r)"
    using e by (subst xpath_token_loop.simps) (simp add: slice_def)
  also have "\<dots> = t # ts" using Cons.IH[of "p @ ''/'' @ t"] Cons.prems by simp
  finally show ?case .
qed

lemma token_loop_ne_slash: "ts \<noteq> [] \<Longrightarrow> ts \<noteq> [[]] \<Longrightarrow> ''/'' @ join_with ''/'' ts \<noteq> ''/''"
  by (cases ts rule: remdups_adj.cases) auto

text \<open>Cutting any rooted XPATH (also one with slashes inside quoted key values) and joining the
  tokens gives the XPATH back: \<open>create_xpath\<close> inverts \<open>get_xpath_tokens\<close>.\<close>

theorem create_get_xpath_tokens:
  assumes "xpath \<noteq> []" and "hd xpath = CHR ''/''"
  shows "\<exists>ts. get_xpath_tokens xpath = Inr ts \<and> create_xpath ts = xpath"
proof (cases "xpath = ''/''")
  case True
  then show ?thesis by (simp add: get_xpath_tokens_def create_xpath_def)
next
  case False
  let ?ts = "xpath_token_loop 0 xpath"
  have l: "0 < length xpath" "xpath ! 0 = CHR ''/''"
    using assms by (simp_all add: hd_conv_nth)
  then have "concat (map (Cons (CHR ''/'')) ?ts) = xpath"
    using xpath_token_loop_concat by fastforce
  with l show ?thesis
    using False assms join_slash[of ?ts] xpath_token_loop_ne[of 0 xpath]
    by (simp add: get_xpath_tokens_def create_xpath_def)
qed

theorem create_get_xpath_tokens_witness:
  "\<exists>ts. get_xpath_tokens ''/m:m/T/L[k=\"a/b\"]/f'' = Inr ts \<and> create_xpath ts = ''/m:m/T/L[k=\"a/b\"]/f''"
  by (rule create_get_xpath_tokens) simp_all

lemma get_create_xpath:
  assumes "\<forall>t \<in> set ts. token_ok t" and "ts \<noteq> [[]]"
  shows "get_xpath_tokens (create_xpath ts) = Inr ts"
proof (cases "ts = []")
  case True
  then show ?thesis by (simp add: get_xpath_tokens_def create_xpath_def)
next
  case False
  have "xpath_token_loop 0 (''/'' @ join_with ''/'' ts) = ts"
    using xpath_token_loop_join[OF assms(1), of "[]"] join_slash[OF False] by simp
  then show ?thesis
    using token_loop_ne_slash[OF False assms(2)] False
    by (simp add: get_xpath_tokens_def create_xpath_def)
qed

text \<open>Joining well-formed tokens and cutting the result gives the same tokens: a slash inside a quoted
  key value does not split the token it is in.\<close>

theorem get_create_xpath_tokens:
  assumes "\<forall>t \<in> set ts. token_ok t" and "ts \<noteq> [[]]"
  shows "get_xpath_tokens (create_xpath ts) = Inr ts"
  using assms by (rule get_create_xpath)

theorem get_create_xpath_tokens_witness:
  "get_xpath_tokens (create_xpath [''m:m'', ''T'', ''L[k=\"a/b\"]'', ''f'']) =
     Inr [''m:m'', ''T'', ''L[k=\"a/b\"]'', ''f'']"
  by (rule get_create_xpath_tokens) simp_all

section \<open>The keys of a list token\<close>

text \<open>One match of \<open>[key='value']\<close> after its bracket: the key runs to the first equals sign, the value
  to the first single quote. \<open>findall_key_value\<close> is \<open>re.findall\<close> with that pattern: matches from the
  left that do not overlap.\<close>

definition match_key_value :: "string \<Rightarrow> (string \<times> string \<times> string) option" where
  "match_key_value s =
     (let k = takeWhile (\<lambda>c. c \<noteq> CHR ''='') s; r = dropWhile (\<lambda>c. c \<noteq> CHR ''='') s
      in if k = [] \<or> take 2 r \<noteq> [CHR ''='', CHR 0x27] then None
         else let v = takeWhile (\<lambda>c. c \<noteq> CHR 0x27) (drop 2 r); e = dropWhile (\<lambda>c. c \<noteq> CHR 0x27) (drop 2 r)
              in if take 2 e = [CHR 0x27, CHR '']''] then Some (k, v, drop 2 e) else None)"

lemma match_key_value_shorter: "match_key_value s = Some (k, v, r) \<Longrightarrow> length r < length s"
proof -
  assume a: "match_key_value s = Some (k, v, r)"
  define e where "e = dropWhile (\<lambda>c. c \<noteq> CHR 0x27) (drop 2 (dropWhile (\<lambda>c. c \<noteq> CHR ''='') s))"
  have r: "r = drop 2 e" "take 2 e = [CHR 0x27, CHR '']'']"
    using a by (auto simp: match_key_value_def Let_def e_def split: if_splits)
  have "length e \<le> length s"
    unfolding e_def using length_dropWhile_le[of "\<lambda>c. c \<noteq> CHR ''=''" s]
    by (intro order_trans[OF length_dropWhile_le]) simp
  moreover have "2 \<le> length e" using arg_cong[OF r(2), of length] by simp
  ultimately show ?thesis using r(1) by simp
qed

function findall_key_value :: "string \<Rightarrow> (string \<times> string) list" where
  "findall_key_value [] = []"
| "findall_key_value (c # s) =
     (if c = CHR ''['' then
        (case match_key_value s of None \<Rightarrow> findall_key_value s
         | Some (k, v, r) \<Rightarrow> (k, v) # findall_key_value r)
      else findall_key_value s)"
  by pat_completeness auto
termination
  by (relation "measure length") (auto dest: match_key_value_shorter)

text \<open>The text after the list name, or AttributeError (\<open>match\<close> is None): the token is empty or starts with
  a bracket, or a newline that is not the last character follows the name.\<close>

definition after_list_name :: "string \<Rightarrow> err + string" where
  "after_list_name t =
     (let r = dropWhile (\<lambda>c. c \<noteq> CHR ''['') t; nl = CHR 0x0A
      in if t = [] \<or> hd t = CHR ''['' then Inl AttributeError
         else if nl \<notin> set r then Inr r
         else if nl \<notin> set (butlast r) then Inr (butlast r) else Inl AttributeError)"

fun dict_of :: "('k \<times> 'v) list \<Rightarrow> ('k \<times> 'v) list \<Rightarrow> ('k \<times> 'v) list" where
  "dict_of d [] = d"
| "dict_of d ((k, v) # kvs) = dict_of (AList.update k v d) kvs"

definition extract_key_dict :: "string \<Rightarrow> err + (string \<times> string) list" where
  "extract_key_dict list_token =
     rbind (after_list_name list_token) (\<lambda>all_key_value. Inr (dict_of [] (findall_key_value all_key_value)))"

text \<open>\<open>_extractKey\<close> and the item token \<open>_get_xpath_tokens_from_list\<close> builds from it.\<close>

definition extractKey :: "string \<Rightarrow> string \<Rightarrow> err + (string \<times> string) list" where
  "extractKey tableKey ks =
     (let keyList = py_split ks; value = split_on (CHR ''|'') tableKey
      in if length keyList \<noteq> length value then Inl ValueError
         else Inr (dict_of [] (zip keyList (map py_strip value))))"

definition key_token :: "string \<times> string \<Rightarrow> string" where
  "key_token kv = ''['' @ fst kv @ [CHR ''='', CHR 0x27] @ snd kv @ [CHR 0x27, CHR '']'']"

definition item_token :: "string \<Rightarrow> (string \<times> string) list \<Rightarrow> string" where
  "item_token list_name keyDict = list_name @ concat (map key_token keyDict)"

lemma dict_of_fresh:
  "distinct (map fst (d @ kvs)) \<Longrightarrow> dict_of d kvs = d @ kvs"
proof (induction d kvs rule: dict_of.induct)
  case (2 d k v kvs)
  then have "k \<notin> fst ` set d" by auto
  then have "AList.update k v d = d @ [(k, v)]" by (induction d) auto
  with 2 show ?case by simp
qed simp

definition key_value_ok :: "string \<times> string \<Rightarrow> bool" where
  "key_value_ok kv \<longleftrightarrow> fst kv \<noteq> [] \<and> CHR ''='' \<notin> set (fst kv) \<and> CHR 0x27 \<notin> set (snd kv) \<and>
     CHR 0x0A \<notin> set (fst kv) \<union> set (snd kv)"

lemma match_key_token:
  "key_value_ok (k, v) \<Longrightarrow>
     match_key_value (k @ [CHR ''='', CHR 0x27] @ v @ [CHR 0x27, CHR '']''] @ r) = Some (k, v, r)"
proof -
  assume ok: "key_value_ok (k, v)"
  have tw: "takeWhile (\<lambda>c. c \<noteq> q) (u @ q # w) = u" "dropWhile (\<lambda>c. c \<noteq> q) (u @ q # w) = q # w"
    if "q \<notin> set u" for q :: char and u w
    using that by (induction u) auto
  show ?thesis
    using ok tw[of "CHR ''=''" k] tw[of "CHR 0x27" v]
    by (simp add: match_key_value_def key_value_ok_def Let_def)
qed

lemma findall_key_tokens:
  "\<forall>kv \<in> set kvs. key_value_ok kv \<Longrightarrow> findall_key_value (concat (map key_token kvs)) = kvs"
proof (induction kvs)
  case (Cons kv kvs)
  obtain k v where kv: "kv = (k, v)" by fastforce
  have "match_key_value (k @ [CHR ''='', CHR 0x27] @ v @ [CHR 0x27, CHR '']''] @ concat (map key_token kvs)) =
      Some (k, v, concat (map key_token kvs))"
    using Cons.prems kv by (intro match_key_token) simp
  with Cons kv show ?case by (simp add: key_token_def[of "(k, v)"])
qed simp

lemma extract_key_dict_item_token:
  assumes "list_name \<noteq> []" and "CHR ''['' \<notin> set list_name"
    and "\<forall>kv \<in> set kvs. key_value_ok kv" and "distinct (map fst kvs)"
  shows "extract_key_dict (item_token list_name kvs) = Inr kvs"
proof -
  have dw: "dropWhile (\<lambda>c. c \<noteq> CHR ''['') (item_token list_name kvs) = concat (map key_token kvs)"
    using assms(2) unfolding item_token_def
    by (induction list_name) (cases kvs; auto simp: key_token_def)+
  have nl: "CHR 0x0A \<notin> set (concat (map key_token kvs))"
    using assms(3) by (auto simp: key_token_def key_value_ok_def)
  have "hd (item_token list_name kvs) \<noteq> CHR ''[''" "item_token list_name kvs \<noteq> []"
    using assms(1,2) by (cases list_name; auto simp: item_token_def)+
  with dw nl have "after_list_name (item_token list_name kvs) = Inr (concat (map key_token kvs))"
    by (simp add: after_list_name_def)
  then show ?thesis
    using assms(3,4) findall_key_tokens[of kvs] dict_of_fresh[of "[]" kvs]
    by (simp add: extract_key_dict_def)
qed

text \<open>The keys read back: for a table key whose parts are trimmed and quote free, the list token built
  from \<open>_extractKey\<close> gives the same keys and values to \<open>_extract_key_dict\<close>, and joining the values in
  key order with bars gives the table key.\<close>

theorem table_key_roundtrip:
  assumes "list_name \<noteq> []" and "CHR ''['' \<notin> set list_name"
    and "extractKey tableKey ks = Inr keyDict" and "distinct (py_split ks)"
    and "\<forall>v \<in> set (split_on (CHR ''|'') tableKey). py_strip v = v"
    and "\<forall>kv \<in> set keyDict. key_value_ok kv"
  shows "extract_key_dict (item_token list_name keyDict) = Inr keyDict \<and>
    join_with ''|'' (map (\<lambda>k. the (map_of keyDict k)) (py_split ks)) = tableKey"
proof -
  let ?ks = "py_split ks" and ?vs = "split_on (CHR ''|'') tableKey"
  have len: "length ?ks = length ?vs" using assms(3) by (auto simp: extractKey_def Let_def split: if_splits)
  have strip: "map py_strip ?vs = ?vs" using assms(5) by (simp add: map_idI)
  have kd: "keyDict = zip ?ks ?vs"
    using assms(3) len strip dict_of_fresh[of "[]" "zip ?ks ?vs"] assms(4)
    by (simp add: extractKey_def)
  then have d: "distinct (map fst keyDict)" using assms(4) len by simp
  have "map (\<lambda>k. the (map_of keyDict k)) ?ks = ?vs"
    using kd len assms(4) by (auto intro!: nth_equalityI simp: map_of_zip_nth)
  then show ?thesis
    using extract_key_dict_item_token[OF assms(1,2,6) d] by (simp add: join_split_on)
qed

theorem table_key_roundtrip_witness:
  "extract_key_dict (item_token ''VLAN_MEMBER_LIST'' [(''name'', ''Vlan1000''), (''port'', ''Ethernet8'')]) =
     Inr [(''name'', ''Vlan1000''), (''port'', ''Ethernet8'')] \<and>
   join_with ''|'' (map (\<lambda>k. the (map_of [(''name'', ''Vlan1000''), (''port'', ''Ethernet8'')] k))
     (py_split ''name port'')) = ''Vlan1000|Ethernet8''"
  by (rule table_key_roundtrip)
     (simp_all add: extractKey_def py_split_def py_space_def py_strip_def key_value_ok_def)

end
