(* ===== verification/PathAddressing.thy ===== *)
theory PathAddressing
  imports XpathTokens
begin

text \<open>
  \<open>PathAddressing\<close> of \<open>gu_common.py\<close>: translation between JsonPatch paths and YANG XPATHs, and the search
  for the paths that reference a configuration. A YANG model is the JSON document that \<open>sonic_yang\<close>
  builds from it; \<open>sonic_yang\<close> and \<open>libyang\<close> themselves are not part of the repository and are the record
  \<open>yang_lib\<close>. Model names and key lists are strings; a function that meets another value there raises
  AttributeError, as the string method it calls would.
\<close>

section \<open>What the code calls on sonic\_yang and libyang\<close>

text \<open>\<open>yl_load\<close> is \<open>loadData\<close> and returns a handle of the data tree; nodes of the tree are numbers.\<close>

record yang_lib =
  yl_map :: dict
  yl_preprocessed :: json
  yl_type1 :: "string list"
  yl_module_of_prefix :: "string \<Rightarrow> json \<Rightarrow> err + string"
  yl_load :: "json \<Rightarrow> err + nat"
  yl_validate :: "nat \<Rightarrow> err + unit"
  yl_tree_for :: "nat \<Rightarrow> nat list"
  yl_find_path :: "nat \<Rightarrow> string \<Rightarrow> err + nat list"
  yl_tree_dfs :: "nat \<Rightarrow> nat \<Rightarrow> nat list"
  yl_nodetype :: "nat \<Rightarrow> nat \<Rightarrow> nat"
  yl_node_path :: "nat \<Rightarrow> nat \<Rightarrow> string"
  yl_LYS_LEAF :: nat
  yl_data_dependencies :: "nat \<Rightarrow> string \<Rightarrow> err + string list"
  yl_crop :: "json \<Rightarrow> err + json"
  yl_xlate :: "json \<Rightarrow> err + json"
  yl_rev_xlate :: "json \<Rightarrow> err + json"

section \<open>Small helpers\<close>

definition nth_res :: "'a list \<Rightarrow> nat \<Rightarrow> err + 'a" where
  "nth_res xs i = (if i < length xs then Inr (xs ! i) else Inl IndexError)"

fun as_str :: "json \<Rightarrow> err + string" where
  "as_str (JStr s) = Inr s"
| "as_str _ = Inl AttributeError"

text \<open>\<open>str(value)\<close>, with \<open>repr\<close> for what is inside a container.\<close>

definition repr_str :: "string \<Rightarrow> string" where
  "repr_str s =
     (let q = (if CHR 0x27 \<in> set s \<and> CHR 0x22 \<notin> set s then CHR 0x22 else CHR 0x27)
      in q # concat (map (\<lambda>c. if c = CHR 0x5C then [CHR 0x5C, CHR 0x5C]
           else if c = q then [CHR 0x5C, q] else if c = CHR 0x0A then [CHR 0x5C, CHR ''n''] else [c]) s) @ [q])"

fun py_repr :: "json \<Rightarrow> string" where
  "py_repr JNull = ''None''"
| "py_repr (JBool b) = (if b then ''True'' else ''False'')"
| "py_repr (JInt i) = int_str i"
| "py_repr (JStr s) = repr_str s"
| "py_repr (JArr xs) = ''['' @ join_with '', '' (map py_repr xs) @ '']''"
| "py_repr (JObj d) = ''{'' @ join_with '', '' (map (\<lambda>p. repr_str (fst p) @ '': '' @ py_repr (snd p)) d) @ ''}''"

fun py_str :: "json \<Rightarrow> string" where
  "py_str (JStr s) = s"
| "py_str v = py_repr v"

section \<open>Looking models up\<close>

fun find_model :: "string \<Rightarrow> json list \<Rightarrow> err + json" where
  "find_model name [] = Inr JNull"
| "find_model name (m # ms) =
     rbind (py_key m ''@name'') (\<lambda>n. if json_eq n (JStr name) then Inr m else find_model name ms)"

text \<open>\<open>_get_model\<close>; None is \<open>JNull\<close>.\<close>

definition get_model :: "json \<Rightarrow> string \<Rightarrow> err + json" where
  "get_model model name =
     (case model of
        JObj d \<Rightarrow> rbind (py_key model ''@name'') (\<lambda>n. Inr (if json_eq n (JStr name) then model else JNull))
      | JArr ms \<Rightarrow> find_model name ms
      | _ \<Rightarrow> Inr JNull)"

definition get_child_model :: "json \<Rightarrow> string \<Rightarrow> string \<Rightarrow> err + json" where
  "get_child_model model kind name = rbind (py_get model kind) (\<lambda>c. get_model (opt_json c) name)"

definition model_keys :: "json \<Rightarrow> err + string" where
  "model_keys model = rbind (py_key model ''key'') (\<lambda>k. rbind (py_key k ''@value'') as_str)"

definition model_name :: "json \<Rightarrow> err + string" where
  "model_name model = rbind (py_key model ''@name'') as_str"

fun find_list_model :: "nat \<Rightarrow> json list \<Rightarrow> err + json" where
  "find_list_model n [] = Inl GenericConfigUpdaterError"
| "find_list_model n (m # ms) =
     rbind (model_keys m) (\<lambda>ks. if length (py_split ks) = n then Inr m else find_list_model n ms)"

definition get_list_model :: "json \<Rightarrow> nat \<Rightarrow> string list \<Rightarrow> err + json" where
  "get_list_model model token_index path_tokens =
     rbind (nth_res path_tokens token_index) (\<lambda>parent_container_name.
     rbind (py_get model ''list'') (\<lambda>clist.
       case opt_json clist of
         JObj d \<Rightarrow> Inr (JObj d)
       | JArr ms \<Rightarrow> rbind (nth_res path_tokens (token_index + 1)) (\<lambda>configdb_values_str.
           find_list_model (length (split_on (CHR ''|'') configdb_values_str)) ms)
       | _ \<Rightarrow> Inr JNull))"

definition get_type_1_list_model :: "yang_lib \<Rightarrow> json \<Rightarrow> err + json" where
  "get_type_1_list_model sy model =
     rbind (model_name model) (\<lambda>list_name.
       if list_name \<notin> set (yl_type1 sy) then Inr JNull
       else rbind (py_get model ''list'') (\<lambda>l. Inr (opt_json l)))"

text \<open>The loop over choices and their cases, common to both directions.\<close>

definition leaf_in_choices :: "json \<Rightarrow> string \<Rightarrow> err + bool" where
  "leaf_in_choices model token =
     rbind (py_get model ''choice'') (\<lambda>c. let choices = opt_json c in
       if \<not> py_truthy choices then Inr False
       else rbind (py_iter choices) (rexists (\<lambda>choice.
         rbind (py_key choice ''case'') (\<lambda>cs. rbind (py_iter cs) (rexists (\<lambda>cas.
           rbind (get_child_model cas ''leaf'' token) (\<lambda>m. Inr (py_truthy m))))))))"

text \<open>\<open>_get_uses_leaf_model\<close>: groupings of this module, or of the module another prefix names.\<close>

definition uses_grouping :: "yang_lib \<Rightarrow> json \<Rightarrow> json \<Rightarrow> err + (string \<times> string)" where
  "uses_grouping sy table_module uses =
     (if \<not> is_obj uses then Inl GenericConfigUpdaterError
      else rbind (model_name uses) (\<lambda>n.
        if CHR '':'' \<in> set n then
          (let name_parts = split_on (CHR '':'') n; prefix = py_strip (hd name_parts)
           in rbind (yl_module_of_prefix sy prefix table_module) (\<lambda>m. Inr (m, py_strip (last name_parts))))
        else rbind (model_name table_module) (\<lambda>m. Inr (m, n))))"

fun find_uses_leaf :: "yang_lib \<Rightarrow> json \<Rightarrow> string \<Rightarrow> json list \<Rightarrow> err + json" where
  "find_uses_leaf sy table_module token [] = Inr JNull"
| "find_uses_leaf sy table_module token (uses # us) =
     rbind (uses_grouping sy table_module uses) (\<lambda>(m, grouping).
     rbind (py_path (yl_preprocessed sy) [TStr ''grouping'', TStr m, TStr grouping]) (\<lambda>leafs.
     rbind (get_model leafs token) (\<lambda>leaf_model.
       if py_truthy leaf_model then Inr leaf_model else find_uses_leaf sy table_module token us)))"

definition get_uses_leaf_model :: "yang_lib \<Rightarrow> json \<Rightarrow> string \<Rightarrow> string \<Rightarrow> err + json" where
  "get_uses_leaf_model sy model table token =
     rbind (py_get model ''uses'') (\<lambda>u. let uses_s = opt_json u in
       if \<not> py_truthy uses_s then Inr JNull
       else rbind (py_path (JObj (yl_map sy)) [TStr table, TStr ''yangModule'']) (\<lambda>table_module.
         find_uses_leaf sy table_module token (case uses_s of JArr us \<Rightarrow> us | v \<Rightarrow> [v])))"

section \<open>From a path to an XPATH\<close>

definition xpath_tokens_from_leaf :: "yang_lib \<Rightarrow> json \<Rightarrow> nat \<Rightarrow> string list \<Rightarrow> json \<Rightarrow> err + string list" where
  "xpath_tokens_from_leaf sy model token_index path_tokens config =
     rbind (nth_res path_tokens token_index) (\<lambda>token.
     rbind (get_child_model model ''leaf'' token) (\<lambda>leaf_model.
     if py_truthy leaf_model then Inr [token] else
     rbind (leaf_in_choices model token) (\<lambda>in_choice.
     if in_choice then Inr [token] else
     rbind (get_child_model model ''leaf-list'' token) (\<lambda>leaf_list_model.
     if py_truthy leaf_list_model then
       (if length path_tokens - 1 = token_index then Inr [token]
        else rbind (py_key config token) (\<lambda>list_config.
             rbind (nth_res path_tokens (token_index + 1)) (\<lambda>t.
             rbind (py_int t) (\<lambda>i.
             rbind (py_getitem list_config (TIdx i)) (\<lambda>v.
               Inr [token @ ''[.='' @ [CHR 0x27] @ py_str v @ [CHR 0x27] @ '']''])))))
     else rbind (py_key config token) (\<lambda>value.
       if is_arr value then Inl ValueError
       else rbind (nth_res path_tokens 0) (\<lambda>table.
            rbind (get_uses_leaf_model sy model table token) (\<lambda>uses_leaf_model.
              if py_truthy uses_leaf_model then Inr [token] else Inl ValueError)))))))"

definition xpath_tokens_from_type_1_list :: "json \<Rightarrow> nat \<Rightarrow> string list \<Rightarrow> err + string list" where
  "xpath_tokens_from_type_1_list model token_index path_tokens =
     rbind (model_name model) (\<lambda>type_1_list_name. rbind (model_keys model) (\<lambda>keyName.
     rbind (nth_res path_tokens token_index) (\<lambda>value.
       Inr [type_1_list_name @ key_token (keyName, value)])))"

definition xpath_tokens_from_list :: "yang_lib \<Rightarrow> json \<Rightarrow> nat \<Rightarrow> string list \<Rightarrow> json \<Rightarrow> err + string list" where
  "xpath_tokens_from_list sy model token_index path_tokens config =
     rbind (model_name model) (\<lambda>list_name.
     rbind (nth_res path_tokens token_index) (\<lambda>tableKey.
     rbind (model_keys model) (\<lambda>listKeys.
     rbind (extractKey tableKey listKeys) (\<lambda>keyDict.
       if length path_tokens - 1 = token_index then Inr [item_token list_name keyDict]
       else rbind (get_type_1_list_model sy model) (\<lambda>type_1_list_model.
         rbind (py_key config tableKey) (\<lambda>sub.
         rbind (if py_truthy type_1_list_model
                then xpath_tokens_from_type_1_list type_1_list_model (token_index + 1) path_tokens
                else xpath_tokens_from_leaf sy model (token_index + 1) path_tokens sub)
           (\<lambda>ts. Inr (item_token list_name keyDict # ts))))))))"

function xpath_tokens_from_container :: "yang_lib \<Rightarrow> json \<Rightarrow> nat \<Rightarrow> string list \<Rightarrow> json \<Rightarrow> err + string list" where
  "xpath_tokens_from_container sy model token_index path_tokens config =
     (if token_index \<ge> length path_tokens then Inl IndexError
      else let token = path_tokens ! token_index in
        if length path_tokens - 1 = token_index then Inr [token] else
        rbind (get_list_model model token_index path_tokens) (\<lambda>list_model.
          if py_truthy list_model then
            rbind (py_key config token) (\<lambda>sub.
            rbind (xpath_tokens_from_list sy list_model (token_index + 1) path_tokens sub) (\<lambda>ts. Inr (token # ts)))
          else
            rbind (get_child_model model ''container'' (path_tokens ! (token_index + 1))) (\<lambda>child.
            rbind (py_key config token) (\<lambda>sub.
              if py_truthy child then
                rbind (xpath_tokens_from_container sy child (token_index + 1) path_tokens sub) (\<lambda>ts. Inr (token # ts))
              else
                rbind (xpath_tokens_from_leaf sy model (token_index + 1) path_tokens sub) (\<lambda>ts. Inr (token # ts))))))"
  by pat_completeness auto
termination
  by (relation "measure (\<lambda>(_, _, i, ts, _). length ts - i)") auto

declare xpath_tokens_from_container.simps [simp del]

text \<open>\<open>get_path_tokens\<close>, \<open>create_path\<close>, \<open>get_from_path\<close>, \<open>has_path\<close>, \<open>is_config_different\<close>.\<close>

definition get_path_tokens :: "json_lib \<Rightarrow> string \<Rightarrow> err + string list" where
  "get_path_tokens lib path' = jl_parts lib path'"

definition create_path :: "json_lib \<Rightarrow> token list \<Rightarrow> string" where
  "create_path lib tokens = jl_from_parts lib tokens"

definition get_from_path :: "json_lib \<Rightarrow> json \<Rightarrow> string \<Rightarrow> err + json" where
  "get_from_path lib doc path' = jl_get lib doc path'"

definition has_path :: "json_lib \<Rightarrow> json \<Rightarrow> string \<Rightarrow> err + bool" where
  "has_path lib doc path' = rbind (get_from_path lib doc path') (\<lambda>v. Inr (v \<noteq> JNull))"

definition is_config_different :: "json_lib \<Rightarrow> string \<Rightarrow> json \<Rightarrow> json \<Rightarrow> err + bool" where
  "is_config_different lib path' current target =
     rbind (get_from_path lib current path') (\<lambda>c. rbind (get_from_path lib target path') (\<lambda>t. Inr (\<not> json_eq c t)))"

definition convert_path_to_xpath :: "json_lib \<Rightarrow> yang_lib \<Rightarrow> string \<Rightarrow> json \<Rightarrow> err + string" where
  "convert_path_to_xpath lib sy path' config =
     rbind (get_path_tokens lib path') (\<lambda>tokens.
       case tokens of
         [] \<Rightarrow> Inr (create_xpath [])
       | table # _ \<Rightarrow>
           rbind (py_key (JObj (yl_map sy)) table) (\<lambda>cmap.
           rbind (rbind (py_key cmap ''module'') as_str) (\<lambda>m.
           rbind (rbind (py_key cmap ''topLevelContainer'') as_str) (\<lambda>top.
           rbind (py_key cmap ''container'') (\<lambda>container.
           rbind (xpath_tokens_from_container sy container 0 tokens config) (\<lambda>ts.
             Inr (create_xpath ((m @ '':'' @ top) # ts))))))))"

section \<open>From an XPATH to a path\<close>

text \<open>The regular expression of a leaf-list token, \<open>name[.='value']\<close>: the value, or AttributeError where
  \<open>match\<close> is None.\<close>

definition leaf_list_value :: "string \<Rightarrow> err + string" where
  "leaf_list_value token =
     (let r = dropWhile (\<lambda>c. c \<noteq> CHR ''['') token;
          b = (if r \<noteq> [] \<and> last r = CHR 0x0A then butlast r else r);
          v = takeWhile (\<lambda>c. c \<noteq> CHR 0x27) (drop 4 b)
      in if token \<noteq> [] \<and> hd token \<noteq> CHR ''['' \<and> b = ''[.='' @ [CHR 0x27] @ v @ [CHR 0x27] @ '']'' then Inr v
         else Inl AttributeError)"

fun index_of :: "json \<Rightarrow> json list \<Rightarrow> nat \<Rightarrow> err + nat" where
  "index_of v [] i = Inl ValueError"
| "index_of v (x # xs) i = (if json_eq x v then Inr i else index_of v xs (i + 1))"

definition path_tokens_from_leaf :: "yang_lib \<Rightarrow> json \<Rightarrow> nat \<Rightarrow> string list \<Rightarrow> json \<Rightarrow> err + token list" where
  "path_tokens_from_leaf sy model token_index xpath_tokens config =
     rbind (nth_res xpath_tokens token_index) (\<lambda>token.
     rbind (get_child_model model ''leaf'' token) (\<lambda>leaf_model.
     if py_truthy leaf_model then Inr [TStr token] else
     rbind (leaf_in_choices model token) (\<lambda>in_choice.
     if in_choice then Inr [TStr token] else
     (let leaf_list_name = hd (split_once (CHR ''['') token) in
     rbind (get_child_model model ''leaf-list'' leaf_list_name) (\<lambda>leaf_list_model.
     if py_truthy leaf_list_model then
       (if length (split_once (CHR ''['') token) = 1 then Inr [TStr leaf_list_name]
        else rbind (leaf_list_value token) (\<lambda>v.
             rbind (py_key config leaf_list_name) (\<lambda>list_config.
               case list_config of
                 JStr _ \<Rightarrow> Inr [TStr leaf_list_name]
               | JArr xs \<Rightarrow> rbind (index_of (JStr v) xs 0) (\<lambda>i. Inr [TStr leaf_list_name, TIdx (int i)])
               | _ \<Rightarrow> Inl ValueError)))
     else rbind (py_key config leaf_list_name) (\<lambda>value.
       if is_arr value then Inl ValueError
       else rbind (nth_res xpath_tokens 1) (\<lambda>table.
            rbind (get_uses_leaf_model sy model table token) (\<lambda>uses_leaf_model.
              if py_truthy uses_leaf_model then Inr [TStr token] else Inl ValueError))))))))"

definition path_tokens_from_type_1_list :: "json \<Rightarrow> nat \<Rightarrow> string list \<Rightarrow> err + token list" where
  "path_tokens_from_type_1_list model token_index xpath_tokens =
     rbind (model_name model) (\<lambda>type_1_inner_list_name.
     rbind (nth_res xpath_tokens token_index) (\<lambda>token.
       if type_1_inner_list_name \<noteq> hd (split_once (CHR ''['') token) then Inl GenericConfigUpdaterError
       else rbind (extract_key_dict token) (\<lambda>key_dict.
         case key_dict of
           [] \<Rightarrow> Inr []
         | (k, value) # others \<Rightarrow>
             if others \<noteq> [] then Inl GenericConfigUpdaterError
             else if token_index + 1 \<ge> length xpath_tokens then Inr [TStr value]
             else rbind (get_child_model model ''leaf'' (xpath_tokens ! (token_index + 1))) (\<lambda>leaf_model.
               if py_truthy leaf_model then Inr [TStr value] else Inl GenericConfigUpdaterError))))"

definition dict_lookup :: "('k \<times> 'v) list \<Rightarrow> 'k \<Rightarrow> err + 'v" where
  "dict_lookup d k = (case map_of d k of None \<Rightarrow> Inl KeyError | Some v \<Rightarrow> Inr v)"

definition path_tokens_from_list :: "yang_lib \<Rightarrow> json \<Rightarrow> nat \<Rightarrow> string list \<Rightarrow> json \<Rightarrow> err + token list" where
  "path_tokens_from_list sy model token_index xpath_tokens config =
     rbind (nth_res xpath_tokens token_index) (\<lambda>token.
     rbind (extract_key_dict token) (\<lambda>key_dict.
       if key_dict = [] then Inr []
       else rbind (model_keys model) (\<lambda>listKeys. let key_list = py_split listKeys in
         if length key_list \<noteq> length key_dict then Inl GenericConfigUpdaterError
         else rbind (rmapM (dict_lookup key_dict) key_list) (\<lambda>values. let path_token = join_with ''|'' values in
           if length xpath_tokens - 1 = token_index then Inr [TStr path_token]
           else rbind (nth_res xpath_tokens (token_index + 1)) (\<lambda>next_token.
             if map_of key_dict next_token \<noteq> None then Inr [TStr path_token]
             else rbind (get_type_1_list_model sy model) (\<lambda>type_1_list_model.
               rbind (py_key config path_token) (\<lambda>sub.
               rbind (if py_truthy type_1_list_model
                      then path_tokens_from_type_1_list type_1_list_model (token_index + 1) xpath_tokens
                      else path_tokens_from_leaf sy model (token_index + 1) xpath_tokens sub)
                 (\<lambda>ts. Inr (TStr path_token # ts)))))))))"

function path_tokens_from_container :: "yang_lib \<Rightarrow> json \<Rightarrow> nat \<Rightarrow> string list \<Rightarrow> json \<Rightarrow> err + token list" where
  "path_tokens_from_container sy model token_index xpath_tokens config =
     (if token_index \<ge> length xpath_tokens then Inl IndexError
      else let token = xpath_tokens ! token_index in
        if length xpath_tokens - 1 = token_index then Inr [TStr token] else
        (let next_token = xpath_tokens ! (token_index + 1) in
        rbind (get_child_model model ''list'' (hd (split_on (CHR ''['') next_token))) (\<lambda>list_model.
        rbind (if py_truthy list_model then Inr JNull else get_child_model model ''container'' next_token) (\<lambda>child.
        rbind (py_key config token) (\<lambda>sub.
        rbind (if py_truthy list_model then path_tokens_from_list sy list_model (token_index + 1) xpath_tokens sub
               else if py_truthy child then path_tokens_from_container sy child (token_index + 1) xpath_tokens sub
               else path_tokens_from_leaf sy model (token_index + 1) xpath_tokens sub)
          (\<lambda>ts. Inr (TStr token # ts)))))))"
  by pat_completeness auto
termination
  by (relation "measure (\<lambda>(_, _, i, ts, _). length ts - i)") auto

declare path_tokens_from_container.simps [simp del]

definition convert_xpath_to_path :: "json_lib \<Rightarrow> yang_lib \<Rightarrow> string \<Rightarrow> json \<Rightarrow> err + string" where
  "convert_xpath_to_path lib sy xpath config =
     rbind (get_xpath_tokens xpath) (\<lambda>tokens.
       case tokens of
         [] \<Rightarrow> Inr (create_path lib [])
       | [_] \<Rightarrow> Inl GenericConfigUpdaterError
       | _ # table # _ \<Rightarrow>
           rbind (py_key (JObj (yl_map sy)) table) (\<lambda>cmap.
           rbind (py_key cmap ''container'') (\<lambda>container.
           rbind (path_tokens_from_container sy container 1 tokens config) (\<lambda>ts.
             Inr (create_path lib ts)))))"

section \<open>References\<close>

definition is_leaf_node :: "yang_lib \<Rightarrow> nat \<Rightarrow> nat \<Rightarrow> bool" where
  "is_leaf_node sy tree node \<longleftrightarrow> yl_LYS_LEAF sy = yl_nodetype sy tree node"

definition get_inner_leaf_xpaths :: "yang_lib \<Rightarrow> nat \<Rightarrow> string \<Rightarrow> err + string list" where
  "get_inner_leaf_xpaths sy tree xpath =
     rbind (if xpath = ''/'' then Inr (yl_tree_for sy tree) else yl_find_path sy tree xpath) (\<lambda>nodes.
       Inr (concat (map (\<lambda>node. map (yl_node_path sy tree)
              (filter (is_leaf_node sy tree) (yl_tree_dfs sy tree node))) nodes)))"

text \<open>\<open>_find_leafref_paths\<close>: every reference to a leaf under the path, without duplicates, sorted.\<close>

definition find_ref_paths :: "json_lib \<Rightarrow> yang_lib \<Rightarrow> string \<Rightarrow> json \<Rightarrow> err + string list" where
  "find_ref_paths lib sy path' config =
     rbind (yl_load sy config) (\<lambda>tree.
     rbind (convert_path_to_xpath lib sy path' config) (\<lambda>xpath.
     rbind (get_inner_leaf_xpaths sy tree xpath) (\<lambda>leaf_xpaths.
     rbind (rmapM (yl_data_dependencies sy tree) leaf_xpaths) (\<lambda>ref_xpaths.
     rbind (rmapM (\<lambda>x. convert_xpath_to_path lib sy x config) (concat ref_xpaths)) (\<lambda>ref_paths.
       Inr (sort (remdups ref_paths)))))))"

section \<open>A field of a row: from path to XPATH and back\<close>

text \<open>The usual shape of a ConfigDB table: one container with one list, whose keys make the row key and
  whose leaves are the fields; \<open>config\<close> holds the row.\<close>

record row_schema =
  rs_table :: string
  rs_module :: string
  rs_top :: string
  rs_list :: string
  rs_keys :: string

definition row_model :: "yang_lib \<Rightarrow> row_schema \<Rightarrow> json \<Rightarrow> json \<Rightarrow> bool" where
  "row_model sy r C L \<longleftrightarrow>
     rbind (py_key (JObj (yl_map sy)) (rs_table r)) (\<lambda>cmap. rbind (py_key cmap ''module'') as_str) = Inr (rs_module r) \<and>
     rbind (py_key (JObj (yl_map sy)) (rs_table r)) (\<lambda>cmap. rbind (py_key cmap ''topLevelContainer'') as_str) = Inr (rs_top r) \<and>
     rbind (py_key (JObj (yl_map sy)) (rs_table r)) (\<lambda>cmap. py_key cmap ''container'') = Inr C \<and>
     py_get C ''list'' = Inr (Some L) \<and> is_obj L \<and> L \<noteq> JObj [] \<and>
     py_key L ''@name'' = Inr (JStr (rs_list r)) \<and> model_keys L = Inr (rs_keys r) \<and>
     rs_list r \<notin> set (yl_type1 sy)"

definition plain :: "string \<Rightarrow> bool" where
  "plain s \<longleftrightarrow> s \<noteq> [] \<and> CHR ''/'' \<notin> set s \<and> CHR ''['' \<notin> set s"

definition key_plain :: "string \<times> string \<Rightarrow> bool" where
  "key_plain kv \<longleftrightarrow> key_value_ok kv \<and> CHR '']'' \<notin> set (fst kv) \<and> CHR 0x27 \<notin> set (fst kv) \<and> CHR 0x22 \<notin> set (fst kv)"

lemma plain_token_ok_append: "plain s \<Longrightarrow> token_ok (s @ t) = token_ok t"
proof -
  have "CHR ''/'' \<notin> set s \<Longrightarrow> CHR ''['' \<notin> set s \<Longrightarrow> token_ok (s @ t) = token_ok t" by (induction s) auto
  then show "plain s \<Longrightarrow> token_ok (s @ t) = token_ok t" by (simp add: plain_def)
qed

lemma plain_token_ok: "plain s \<Longrightarrow> token_ok s"
  using plain_token_ok_append[of s "[]"] by simp

lemma pred_ok_skip:
  "CHR '']'' \<notin> set k \<Longrightarrow> CHR 0x27 \<notin> set k \<Longrightarrow> CHR 0x22 \<notin> set k \<Longrightarrow> pred_ok (k @ t) = pred_ok t"
  by (induction k) auto

lemma quote_ok_skip: "q \<notin> set v \<Longrightarrow> quote_ok q (v @ q # t) = pred_ok t"
  by (induction v) auto

lemma key_tokens_ok: "\<forall>kv \<in> set kvs. key_plain kv \<Longrightarrow> token_ok (concat (map key_token kvs))"
proof (induction kvs)
  case (Cons kv kvs)
  then show ?case
    by (auto simp: key_token_def[of kv] key_plain_def key_value_ok_def pred_ok_skip quote_ok_skip)
qed simp

lemma item_token_ok: "plain ln \<Longrightarrow> \<forall>kv \<in> set kvs. key_plain kv \<Longrightarrow> token_ok (item_token ln kvs)"
  by (simp add: item_token_def plain_token_ok_append key_tokens_ok)

lemma item_token_name:
  "plain ln \<Longrightarrow> hd (split_on (CHR ''['') (item_token ln kvs)) = ln"
proof -
  assume p: "plain ln"
  show ?thesis
  proof (cases kvs)
    case Nil
    then show ?thesis using p by (simp add: item_token_def plain_def split_on_no_sep)
  next
    case (Cons kv r)
    then show ?thesis using p by (simp add: item_token_def key_token_def plain_def split_on_Cons_sep)
  qed
qed

lemma row_model_lookups:
  assumes "row_model sy r C L"
  shows "get_list_model C 0 [rs_table r, key, field] = Inr L" "py_truthy L"
    "get_child_model C ''list'' (rs_list r) = Inr L"
    "model_name L = Inr (rs_list r)" "get_type_1_list_model sy L = Inr JNull"
  using assms
  by (cases L; auto simp: row_model_def get_list_model_def nth_res_def opt_json_def get_child_model_def
      get_model_def model_name_def get_type_1_list_model_def rbind_eq_Inr)+

text \<open>The row key reads as \<open>keyDict\<close>, and the row and the field are in the configuration.\<close>

definition row_in :: "row_schema \<Rightarrow> json \<Rightarrow> json \<Rightarrow> string \<Rightarrow> string \<Rightarrow> (string \<times> string) list \<Rightarrow> bool" where
  "row_in r L config key field keyDict \<longleftrightarrow>
     extractKey key (rs_keys r) = Inr keyDict \<and> keyDict \<noteq> [] \<and> distinct (py_split (rs_keys r)) \<and>
     (\<forall>v \<in> set (split_on (CHR ''|'') key). py_strip v = v) \<and> (\<forall>kv \<in> set keyDict. key_plain kv) \<and>
     map_of keyDict field = None \<and>
     (\<exists>m. get_child_model L ''leaf'' field = Inr m \<and> py_truthy m) \<and>
     (\<exists>tbl row. py_key config (rs_table r) = Inr tbl \<and> py_key tbl key = Inr row)"

lemma row_to_xpath:
  assumes m: "row_model sy r C L" and i: "row_in r L config key field kd"
  shows "xpath_tokens_from_container sy C 0 [rs_table r, key, field] config =
    Inr [rs_table r, item_token (rs_list r) kd, field]"
proof -
  note look = row_model_lookups[OF m]
  have mk: "model_keys L = Inr (rs_keys r)" using m by (simp add: row_model_def)
  obtain tbl row where c: "py_key config (rs_table r) = Inr tbl" "py_key tbl key = Inr row"
    using i by (auto simp: row_in_def)
  obtain lm where lm: "get_child_model L ''leaf'' field = Inr lm" "py_truthy lm"
    using i by (auto simp: row_in_def)
  have leaf: "xpath_tokens_from_leaf sy L 2 [rs_table r, key, field] row = Inr [field]"
    using lm by (simp add: xpath_tokens_from_leaf_def nth_res_def)
  have "xpath_tokens_from_list sy L 1 [rs_table r, key, field] tbl = Inr [item_token (rs_list r) kd, field]"
    using look mk leaf c i by (simp add: xpath_tokens_from_list_def nth_res_def row_in_def numeral_2_eq_2)
  then show ?thesis
    using look(1)[of key field] look(2) c by (subst xpath_tokens_from_container.simps) simp
qed

lemma rmapM_dict_lookup:
  "\<forall>k \<in> set ks. map_of d k \<noteq> None \<Longrightarrow> rmapM (dict_lookup d) ks = Inr (map (\<lambda>k. the (map_of d k)) ks)"
  by (induction ks) (auto simp: dict_lookup_def)

lemma extractKey_zip:
  assumes "extractKey key ks = Inr kd" and "distinct (py_split ks)"
  shows "kd = zip (py_split ks) (map py_strip (split_on (CHR ''|'') key))"
    and "length (py_split ks) = length (split_on (CHR ''|'') key)"
  using assms dict_of_fresh[of "[]" "zip (py_split ks) (map py_strip (split_on (CHR ''|'') key))"]
  by (auto simp: extractKey_def Let_def split: if_splits)

lemma row_to_path:
  assumes m: "row_model sy r C L" and i: "row_in r L config key field kd" and p: "plain (rs_list r)"
  shows "path_tokens_from_container sy C 1 [mtop, rs_table r, item_token (rs_list r) kd, field] config =
    Inr [TStr (rs_table r), TStr key, TStr field]"
proof -
  note look = row_model_lookups[OF m]
  have mk: "model_keys L = Inr (rs_keys r)" using m by (simp add: row_model_def)
  obtain tbl row where c: "py_key config (rs_table r) = Inr tbl" "py_key tbl key = Inr row"
    using i by (auto simp: row_in_def)
  obtain lm where lm: "get_child_model L ''leaf'' field = Inr lm" "py_truthy lm"
    using i by (auto simp: row_in_def)
  have ex: "extractKey key (rs_keys r) = Inr kd" and dist: "distinct (py_split (rs_keys r))"
    using i by (auto simp: row_in_def)
  note z = extractKey_zip[OF ex dist]
  have dk: "distinct (map fst kd)" using z dist by simp
  have rt: "extract_key_dict (item_token (rs_list r) kd) = Inr kd"
    using i p dk by (intro extract_key_dict_item_token) (auto simp: row_in_def plain_def key_plain_def)
  have "map py_strip (split_on (CHR ''|'') key) = split_on (CHR ''|'') key"
    using i by (simp add: row_in_def map_idI)
  then have kdv: "kd = zip (py_split (rs_keys r)) (split_on (CHR ''|'') key)" using z by simp
  have "map (\<lambda>k. the (map_of kd k)) (py_split (rs_keys r)) = split_on (CHR ''|'') key"
    using kdv z(2) dist by (auto intro!: nth_equalityI simp: map_of_zip_nth)
  moreover have "\<forall>k \<in> set (py_split (rs_keys r)). map_of kd k \<noteq> None"
    using kdv z(2) by (auto simp: map_of_zip_is_None)
  ultimately have vals: "rmapM (dict_lookup kd) (py_split (rs_keys r)) = Inr (split_on (CHR ''|'') key)"
    by (simp add: rmapM_dict_lookup)
  have len: "length (py_split (rs_keys r)) = length kd" using kdv z(2) by simp
  have leaf: "path_tokens_from_leaf sy L 3 [mtop, rs_table r, item_token (rs_list r) kd, field] row = Inr [TStr field]"
    using lm by (simp add: path_tokens_from_leaf_def nth_res_def)
  have "path_tokens_from_list sy L 2 [mtop, rs_table r, item_token (rs_list r) kd, field] tbl = Inr [TStr key, TStr field]"
    using look mk leaf c i rt vals len
    by (simp add: path_tokens_from_list_def nth_res_def row_in_def numeral_3_eq_3 numeral_2_eq_2 join_split_on)
  then show ?thesis
    using look c item_token_name[OF p, of kd]
    by (subst path_tokens_from_container.simps) (simp add: numeral_2_eq_2)
qed

text \<open>C36. A JsonPatch path to a field of a row, converted to an XPATH and back, is the path again, whatever
  the row key holds that needs no trimming and no quote (it may hold slashes and brackets).\<close>

theorem convert_path_xpath_roundtrip:
  assumes "pointer_ok lib" and "row_model sy r C L" and "row_in r L config key field kd"
    and "plain (rs_list r)" and "plain (rs_table r)" and "plain (rs_module r @ '':'' @ rs_top r)" and "plain field"
  shows "rbind (convert_path_to_xpath lib sy (create_path lib [TStr (rs_table r), TStr key, TStr field]) config)
      (\<lambda>x. convert_xpath_to_path lib sy x config) =
    Inr (create_path lib [TStr (rs_table r), TStr key, TStr field])"
proof -
  let ?ts = "[rs_module r @ '':'' @ rs_top r, rs_table r, item_token (rs_list r) kd, field]"
  obtain cmap where cm: "py_key (JObj (yl_map sy)) (rs_table r) = Inr cmap"
      "rbind (py_key cmap ''module'') as_str = Inr (rs_module r)"
      "rbind (py_key cmap ''topLevelContainer'') as_str = Inr (rs_top r)" "py_key cmap ''container'' = Inr C"
    using assms(2) by (auto simp: row_model_def rbind_eq_Inr simp del: py_key_JObj)
  have parts: "get_path_tokens lib (create_path lib [TStr (rs_table r), TStr key, TStr field]) = Inr [rs_table r, key, field]"
    using assms(1) by (simp add: get_path_tokens_def create_path_def pointer_ok_def)
  have fwd: "convert_path_to_xpath lib sy (create_path lib [TStr (rs_table r), TStr key, TStr field]) config =
      Inr (create_xpath ?ts)"
    using parts cm row_to_xpath[OF assms(2,3)]
    by (simp add: convert_path_to_xpath_def del: py_key_JObj)
  have "token_ok (item_token (rs_list r) kd)"
    using assms(3,4) by (intro item_token_ok) (auto simp: row_in_def)
  then have tok: "get_xpath_tokens (create_xpath ?ts) = Inr ?ts"
    using assms(5-7) by (intro get_create_xpath) (auto simp: plain_token_ok)
  show ?thesis
    using fwd tok cm row_to_path[OF assms(2,3,4)]
    by (simp add: convert_xpath_to_path_def del: py_key_JObj)
qed

text \<open>The table \<open>PORT\<close>, with one key and the field \<open>mtu\<close>.\<close>

definition port_list_model :: json where
  "port_list_model = JObj [(''@name'', JStr ''PORT_LIST''), (''key'', JObj [(''@value'', JStr ''name'')]),
     (''leaf'', JArr [JObj [(''@name'', JStr ''name'')], JObj [(''@name'', JStr ''mtu'')]])]"

definition port_container :: json where
  "port_container = JObj [(''@name'', JStr ''PORT''), (''list'', port_list_model)]"

definition port_yang :: yang_lib where
  "port_yang = \<lparr>yl_map = [(''PORT'', JObj [(''module'', JStr ''sonic-port''),
       (''topLevelContainer'', JStr ''sonic-port''), (''container'', port_container)])],
     yl_preprocessed = JObj [], yl_type1 = [], yl_module_of_prefix = (\<lambda>_ _. Inl ValueError),
     yl_load = (\<lambda>_. Inr 0), yl_validate = (\<lambda>_. Inr ()), yl_tree_for = (\<lambda>_. []),
     yl_find_path = (\<lambda>_ _. Inr []), yl_tree_dfs = (\<lambda>_ _. []), yl_nodetype = (\<lambda>_ _. 0),
     yl_node_path = (\<lambda>_ _. []), yl_LYS_LEAF = 4, yl_data_dependencies = (\<lambda>_ _. Inr []),
     yl_crop = Inr, yl_xlate = Inr, yl_rev_xlate = Inr\<rparr>"

definition port_schema :: row_schema where
  "port_schema = \<lparr>rs_table = ''PORT'', rs_module = ''sonic-port'', rs_top = ''sonic-port'',
     rs_list = ''PORT_LIST'', rs_keys = ''name''\<rparr>"

definition port_config :: json where
  "port_config = JObj [(''PORT'', JObj [(''Ethernet0/1'', JObj [(''mtu'', JStr ''9100'')])])]"

lemmas port_defs = port_list_model_def port_container_def port_yang_def port_schema_def port_config_def

lemma port_row_model: "row_model port_yang port_schema port_container port_list_model"
  by (simp add: row_model_def port_defs model_keys_def)

lemma port_row_in: "row_in port_schema port_list_model port_config ''Ethernet0/1'' ''mtu'' [(''name'', ''Ethernet0/1'')]"
  by (simp add: row_in_def port_defs extractKey_def py_split_def py_space_def py_strip_def key_plain_def
      key_value_ok_def get_child_model_def get_model_def opt_json_def)

theorem convert_path_xpath_roundtrip_witness:
  "rbind (convert_path_to_xpath ref_lib port_yang
       (create_path ref_lib [TStr (rs_table port_schema), TStr ''Ethernet0/1'', TStr ''mtu'']) port_config)
      (\<lambda>x. convert_xpath_to_path ref_lib port_yang x port_config) =
    Inr (create_path ref_lib [TStr (rs_table port_schema), TStr ''Ethernet0/1'', TStr ''mtu''])"
  by (rule convert_path_xpath_roundtrip[OF ref_pointer_ok port_row_model port_row_in])
     (simp_all add: plain_def port_schema_def)

end
