(* ===== verification/MoveFilters.thy ===== *)
theory MoveFilters
  imports PathAddressing "HOL-Library.Product_Lexorder"
begin

text \<open>
  \<open>JsonPointerFilter\<close>, \<open>RequiredValueIdentifier\<close> and \<open>CreateOnlyFilter\<close> of \<open>patch_sorter.py\<close>: pattern lists that
  select paths of a configuration. \<open>get_paths\<close> is a generator; its result is specified without reference to
  the traversal in \<open>get_paths_spec\<close>. \<open>is_match\<close> is modelled with the two slips it has: it asks that all
  patterns match, and its branch for tokens with a bar names an undefined variable.
\<close>

section \<open>JsonPointerFilter\<close>

definition subst_common :: "string option \<Rightarrow> string \<Rightarrow> string" where
  "subst_common common_key t = (case common_key of
      Some k \<Rightarrow> if k = [] then t else replace_char (CHR ''@'') k t
    | None \<Rightarrow> t)"

definition starts_with :: "string \<Rightarrow> string \<Rightarrow> bool" where
  "starts_with p s \<longleftrightarrow> take (length p) s = p"

definition ends_with :: "string \<Rightarrow> string \<Rightarrow> bool" where
  "ends_with q s \<longleftrightarrow> length q \<le> length s \<and> drop (length s - length q) s = q"

definition matching_keys :: "json \<Rightarrow> string \<Rightarrow> err + string list" where
  "matching_keys config t =
     (if t = ''*'' then py_keys config
      else if starts_with ''*|'' t then rbind (py_keys config) (\<lambda>ks. Inr (filter (ends_with (tl t)) ks))
      else if ends_with ''|*'' t then rbind (py_keys config) (\<lambda>ks. Inr (filter (starts_with (butlast t)) ks))
      else rbind (py_contains config (TStr t)) (\<lambda>b. Inr (if b then [t] else [])))"

fun get_paths_recursive :: "json_lib \<Rightarrow> json \<Rightarrow> string list \<Rightarrow> string list \<Rightarrow> string option \<Rightarrow> (err, string) gen" where
  "get_paths_recursive lib config [] matching_tokens common_key = [Inr (create_path lib (map TStr matching_tokens))]"
| "get_paths_recursive lib config (t # ts) matching_tokens common_key =
     gen_with (matching_keys config (subst_common common_key t)) (\<lambda>ks.
       gen_bind (map Inr ks) (\<lambda>key. gen_with (py_key config key) (\<lambda>v.
         get_paths_recursive lib v ts (matching_tokens @ [key]) common_key)))"

definition get_paths :: "json_lib \<Rightarrow> string list list \<Rightarrow> json \<Rightarrow> string option \<Rightarrow> (err, string) gen" where
  "get_paths lib patterns config common_key =
     gen_bind (map Inr patterns) (\<lambda>pattern. get_paths_recursive lib config pattern [] common_key)"

definition is_simple_token_match :: "string \<Rightarrow> string \<Rightarrow> bool" where
  "is_simple_token_match pattern_token t \<longleftrightarrow> pattern_token = ''*'' \<or> pattern_token = ''@'' \<or> pattern_token = t"

text \<open>In the branch for tokens with a bar the code reads \<open>token_part\<close>, a name that is not defined.\<close>

definition is_token_match :: "string \<Rightarrow> string \<Rightarrow> err + bool" where
  "is_token_match pattern_token t =
     (if CHR ''|'' \<in> set pattern_token then
        (if length (split_once (CHR ''|'') pattern_token) \<noteq> length (split_once (CHR ''|'') t)
         then Inr False else Inl NameError)
      else Inr (is_simple_token_match pattern_token t))"

definition is_match :: "json_lib \<Rightarrow> string list list \<Rightarrow> string \<Rightarrow> err + bool" where
  "is_match lib patterns path' =
     rbind (get_path_tokens lib path') (\<lambda>tokens.
       rforall (\<lambda>pattern. if length pattern \<noteq> length tokens then Inr False
         else rforall (\<lambda>(p, t). is_token_match p t) (zip pattern tokens)) patterns)"

section \<open>What get\_paths selects\<close>

definition key_matches :: "string option \<Rightarrow> string \<Rightarrow> string \<Rightarrow> bool" where
  "key_matches common_key pattern_token key \<longleftrightarrow>
     (let t = subst_common common_key pattern_token
      in if t = ''*'' then True
         else if starts_with ''*|'' t then ends_with (tl t) key
         else if ends_with ''|*'' t then starts_with (butlast t) key
         else key = t)"

lemma gen_bind_append: "gen_collect (g @ h) = Inr xs \<longleftrightarrow> (\<exists>ys zs. gen_collect g = Inr ys \<and> gen_collect h = Inr zs \<and> xs = ys @ zs)"
  by (auto simp: gen_collect_Inr append_eq_map_conv map_eq_append_conv)

lemma gen_bind_map:
  "gen_collect (gen_bind (map Inr ks) f) = Inr ps \<Longrightarrow> k \<in> set ks \<Longrightarrow> \<exists>qs. gen_collect (f k) = Inr qs \<and> set qs \<subseteq> set ps"
proof (induction ks arbitrary: ps)
  case (Cons a ks)
  then obtain ys zs where "gen_collect (f a) = Inr ys" "gen_collect (gen_bind (map Inr ks) f) = Inr zs" "ps = ys @ zs"
    by (auto simp: gen_bind_append)
  with Cons show ?case by (cases "k = a") fastforce+
qed simp

lemma gen_bind_map_mem:
  "gen_collect (gen_bind (map Inr ks) f) = Inr ps \<Longrightarrow> p \<in> set ps \<Longrightarrow> \<exists>k \<in> set ks. Inr p \<in> set (f k)"
proof (induction ks arbitrary: ps)
  case (Cons a ks)
  then obtain ys zs where *: "gen_collect (f a) = Inr ys" "gen_collect (gen_bind (map Inr ks) f) = Inr zs" "ps = ys @ zs"
    by (auto simp: gen_bind_append)
  show ?case
  proof (cases "p \<in> set ys")
    case True
    with * show ?thesis by (auto simp: gen_collect_Inr)
  next
    case False
    with * Cons show ?thesis by auto
  qed
qed simp

lemma matching_keys_mem:
  assumes "matching_keys v (subst_common ck t) = Inr ks" and "py_key v k = Inr w"
  shows "k \<in> set ks \<longleftrightarrow> key_matches ck t k"
proof -
  obtain d where "v = JObj d" "map_of d k = Some w"
    using assms(2) by (cases v) (auto simp: py_key_def split: option.splits)
  moreover from this have "k \<in> set (map fst d)" by (metis domI dom_map_of_conv_image_fst list.set_map)
  ultimately show ?thesis
    using assms(1) by (auto simp: matching_keys_def key_matches_def Let_def split: if_splits simp del: set_map)
qed

lemma get_paths_recursive_spec:
  "gen_collect (get_paths_recursive lib v ts acc ck) = Inr ps \<Longrightarrow>
   set ps = {create_path lib (map TStr (acc @ us)) |us. list_all2 (key_matches ck) ts us \<and> (\<exists>w. py_path v (map TStr us) = Inr w)}"
proof (induction lib v ts acc ck arbitrary: ps rule: get_paths_recursive.induct)
  case (2 lib v t ts acc ck)
  then obtain ks where ks: "matching_keys v (subst_common ck t) = Inr ks"
    by (cases "matching_keys v (subst_common ck t)") auto
  let ?f = "\<lambda>key. gen_with (py_key v key) (\<lambda>w. get_paths_recursive lib w ts (acc @ [key]) ck)"
  from 2(2) ks have col: "gen_collect (gen_bind (map Inr ks) ?f) = Inr ps" by simp
  have sub: "\<exists>w qs. py_key v k = Inr w \<and> gen_collect (get_paths_recursive lib w ts (acc @ [k]) ck) = Inr qs \<and> set qs \<subseteq> set ps"
    if "k \<in> set ks" for k
    using gen_bind_map[OF col that] by (cases "py_key v k") auto
  have IH: "set qs = {create_path lib (map TStr ((acc @ [k]) @ us)) |us. list_all2 (key_matches ck) ts us \<and> (\<exists>x. py_path w (map TStr us) = Inr x)}"
    if "k \<in> set ks" "py_key v k = Inr w" "gen_collect (get_paths_recursive lib w ts (acc @ [k]) ck) = Inr qs" for k w qs
    using 2(1)[OF ks that(2,3)] by auto
  show ?case
  proof (intro set_eqI iffI)
    fix p assume "p \<in> set ps"
    then obtain k where k: "k \<in> set ks" "Inr p \<in> set (?f k)" using gen_bind_map_mem[OF col] by blast
    obtain w qs where w: "py_key v k = Inr w" "gen_collect (get_paths_recursive lib w ts (acc @ [k]) ck) = Inr qs"
      using sub[OF k(1)] by blast
    then have "p \<in> set qs" using k(2) by (auto simp: gen_collect_Inr)
    then obtain us x where us: "p = create_path lib (map TStr ((acc @ [k]) @ us))" "list_all2 (key_matches ck) ts us"
        "py_path w (map TStr us) = Inr x"
      using IH[OF k(1) w] by auto
    moreover have "key_matches ck t k" using matching_keys_mem[OF ks w(1)] k(1) by simp
    ultimately show "p \<in> {create_path lib (map TStr (acc @ us)) |us. list_all2 (key_matches ck) (t # ts) us \<and>
        (\<exists>w. py_path v (map TStr us) = Inr w)}"
      using w(1) by (intro CollectI exI[of _ "k # us"]) (auto simp: py_key_def)
  next
    fix p assume "p \<in> {create_path lib (map TStr (acc @ us)) |us. list_all2 (key_matches ck) (t # ts) us \<and>
        (\<exists>w. py_path v (map TStr us) = Inr w)}"
    then obtain k us x where us: "p = create_path lib (map TStr (acc @ k # us))" "key_matches ck t k"
        "list_all2 (key_matches ck) ts us" "py_path v (map TStr (k # us)) = Inr x"
      by (auto simp: list_all2_Cons1)
    then obtain w where w: "py_key v k = Inr w" "py_path w (map TStr us) = Inr x"
      by (auto simp: py_key_def rbind_eq_Inr)
    then have k: "k \<in> set ks" using matching_keys_mem[OF ks w(1)] us(2) by simp
    obtain w' qs where qs: "py_key v k = Inr w'" "gen_collect (get_paths_recursive lib w' ts (acc @ [k]) ck) = Inr qs" "set qs \<subseteq> set ps"
      using sub[OF k] by blast
    with w have "p \<in> set qs" using IH[OF k w(1), of qs] us by auto
    with qs show "p \<in> set ps" by blast
  qed
qed simp

lemma get_paths_spec_aux:
  assumes "gen_collect (get_paths lib patterns config common_key) = Inr ps"
  shows "set ps = {create_path lib (map TStr us) |us pattern. pattern \<in> set patterns \<and>
    list_all2 (key_matches common_key) pattern us \<and> (\<exists>w. py_path config (map TStr us) = Inr w)}"
proof -
  have col: "gen_collect (gen_bind (map Inr patterns) (\<lambda>pattern. get_paths_recursive lib config pattern [] common_key)) = Inr ps"
    using assms by (simp add: get_paths_def)
  have "p \<in> set ps \<longleftrightarrow> (\<exists>pattern \<in> set patterns. p \<in> {create_path lib (map TStr us) |us.
      list_all2 (key_matches common_key) pattern us \<and> (\<exists>w. py_path config (map TStr us) = Inr w)})" for p
  proof
    assume "p \<in> set ps"
    then obtain pat where pat: "pat \<in> set patterns" "Inr p \<in> set (get_paths_recursive lib config pat [] common_key)"
      using gen_bind_map_mem[OF col] by blast
    then obtain qs where qs: "gen_collect (get_paths_recursive lib config pat [] common_key) = Inr qs"
      using gen_bind_map[OF col] by blast
    moreover have "p \<in> set qs" using pat(2) qs by (auto simp: gen_collect_Inr)
    ultimately show "\<exists>pattern \<in> set patterns. p \<in> {create_path lib (map TStr us) |us.
      list_all2 (key_matches common_key) pattern us \<and> (\<exists>w. py_path config (map TStr us) = Inr w)}"
      using get_paths_recursive_spec[OF qs] pat(1) by auto
  next
    assume "\<exists>pattern \<in> set patterns. p \<in> {create_path lib (map TStr us) |us.
      list_all2 (key_matches common_key) pattern us \<and> (\<exists>w. py_path config (map TStr us) = Inr w)}"
    then obtain pat where pat: "pat \<in> set patterns" "p \<in> {create_path lib (map TStr us) |us.
      list_all2 (key_matches common_key) pat us \<and> (\<exists>w. py_path config (map TStr us) = Inr w)}" by blast
    obtain qs where qs: "gen_collect (get_paths_recursive lib config pat [] common_key) = Inr qs" "set qs \<subseteq> set ps"
      using gen_bind_map[OF col pat(1)] by blast
    with pat(2) show "p \<in> set ps" using get_paths_recursive_spec[OF qs(1)] by auto
  qed
  then show ?thesis by blast
qed

text \<open>The paths \<open>get_paths\<close> yields, when no pattern runs into a value that has no keys, are exactly the paths that
  exist in the configuration and match a pattern token by token.\<close>

theorem get_paths_spec:
  assumes "gen_collect (get_paths lib patterns config common_key) = Inr ps"
  shows "set ps = {create_path lib (map TStr us) |us pattern. pattern \<in> set patterns \<and>
    list_all2 (key_matches common_key) pattern us \<and> (\<exists>w. py_path config (map TStr us) = Inr w)}"
  using assms by (rule get_paths_spec_aux)

theorem get_paths_spec_witness:
  "let c = JObj [(''QUEUE'', JObj [(''Ethernet0|1'', JObj []), (''Ethernet4|1'', JObj [])]), (''PORT'', JObj [])];
       ps = [create_path ref_lib [TStr ''QUEUE'', TStr ''Ethernet0|1'']]
   in gen_collect (get_paths ref_lib [[''QUEUE'', ''@|*''], [''BUFFER_PG'', ''@|*'']] c (Some ''Ethernet0'')) = Inr ps \<and>
      set ps = {create_path ref_lib (map TStr us) |us pattern. pattern \<in> set [[''QUEUE'', ''@|*''], [''BUFFER_PG'', ''@|*'']] \<and>
        list_all2 (key_matches (Some ''Ethernet0'')) pattern us \<and> (\<exists>w. py_path c (map TStr us) = Inr w)}"
proof -
  let ?c = "JObj [(''QUEUE'', JObj [(''Ethernet0|1'', JObj []), (''Ethernet4|1'', JObj [])]), (''PORT'', JObj [])]"
  have "gen_collect (get_paths ref_lib [[''QUEUE'', ''@|*''], [''BUFFER_PG'', ''@|*'']] ?c (Some ''Ethernet0'')) =
      Inr [create_path ref_lib [TStr ''QUEUE'', TStr ''Ethernet0|1'']]"
    by (simp add: get_paths_def matching_keys_def subst_common_def replace_char_def starts_with_def ends_with_def)
  from this get_paths_spec[OF this] show ?thesis by (simp only: Let_def)
qed

section \<open>RequiredValueIdentifier\<close>

record setting =
  st_required_pattern :: "string list"
  st_required_value :: string
  st_default_value :: string
  st_requiring_patterns :: "string list list"

definition required_settings :: "setting list" where
  "required_settings = [\<lparr>st_required_pattern = [''PORT'', ''@'', ''admin_status''],
     st_required_value = ''down'', st_default_value = ''down'',
     st_requiring_patterns = [[''BUFFER_PG'', ''@|*''], [''BUFFER_PORT_EGRESS_PROFILE_LIST'', ''@''],
       [''BUFFER_PORT_INGRESS_PROFILE_LIST'', ''@''], [''BUFFER_QUEUE'', ''@|*''], [''PORT_QOS_MAP'', ''@''],
       [''QUEUE'', ''@|*'']]\<rparr>]"

text \<open>What \<open>__init__\<close> computes from a setting.\<close>

definition required_parent_filter :: "setting \<Rightarrow> string list list" where
  "required_parent_filter st = [map (replace_char (CHR ''@'') ''*'') (butlast (st_required_pattern st))]"

definition required_field_name :: "setting \<Rightarrow> string" where
  "required_field_name st = last (st_required_pattern st)"

definition common_key_index :: "setting \<Rightarrow> nat" where
  "common_key_index st = last (filter (\<lambda>i. st_required_pattern st ! i = ''@'') [0..<length (st_required_pattern st)])"

type_synonym required_data = "(string \<times> (string \<times> string) list) list"

text \<open>The pairs one setting contributes for one configuration, in the order they are found.\<close>

definition required_pairs :: "json_lib \<Rightarrow> setting \<Rightarrow> json \<Rightarrow> err + (string \<times> (string \<times> string)) list" where
  "required_pairs lib st config =
     rbind (gen_collect (get_paths lib (required_parent_filter st) config None)) (\<lambda>parents.
     rbind (rmapM (\<lambda>parent.
       rbind (get_path_tokens lib parent) (\<lambda>parent_tokens.
       let required_path = create_path lib (map TStr (parent_tokens @ [required_field_name st]))
       in rbind (nth_res parent_tokens (common_key_index st)) (\<lambda>common_key.
          rbind (gen_collect (get_paths lib (st_requiring_patterns st) config (Some common_key))) (\<lambda>requires.
            Inr (map (\<lambda>r. (r, (required_path, st_required_value st))) requires))))) parents) (\<lambda>pss. Inr (concat pss)))"

text \<open>The sets become sorted lists without duplicates, the dictionary is ordered by path.\<close>

definition group_pairs :: "(string \<times> (string \<times> string)) list \<Rightarrow> required_data" where
  "group_pairs pairs = map (\<lambda>p. (p, sort (remdups (map snd (filter (\<lambda>q. fst q = p) pairs))))) (sort (remdups (map fst pairs)))"

definition get_required_value_data :: "json_lib \<Rightarrow> json list \<Rightarrow> err + required_data" where
  "get_required_value_data lib configs =
     rbind (rmapM (\<lambda>st. rbind (rmapM (required_pairs lib st) configs) (\<lambda>pss. Inr (concat pss))) required_settings)
       (\<lambda>pss. Inr (group_pairs (concat pss)))"

fun default_value_from_settings :: "json_lib \<Rightarrow> string \<Rightarrow> string \<Rightarrow> setting list \<Rightarrow> err + json" where
  "default_value_from_settings lib parent_path field_name [] = Inr JNull"
| "default_value_from_settings lib parent_path field_name (st # sts) =
     rbind (is_match lib (required_parent_filter st) parent_path) (\<lambda>b.
       if b \<and> field_name = required_field_name st then Inr (JStr (st_default_value st))
       else default_value_from_settings lib parent_path field_name sts)"

definition get_value_or_default :: "json_lib \<Rightarrow> json \<Rightarrow> string \<Rightarrow> err + json" where
  "get_value_or_default lib config path' =
     rbind (get_from_path lib config path') (\<lambda>value.
       if value \<noteq> JNull then Inr value
       else rbind (get_path_tokens lib path') (\<lambda>tokens.
         if tokens = [] then Inl IndexError
         else let parent_path = create_path lib (map TStr (butlast tokens))
           in rbind (get_from_path lib config parent_path) (\<lambda>parent_value.
             if parent_value = JNull then Inr JNull
             else default_value_from_settings lib parent_path (last tokens) required_settings)))"

section \<open>CreateOnlyFilter\<close>

definition create_only_patterns :: "string list list" where
  "create_only_patterns = [
     [''PORT'', ''*'', ''lanes''], [''LOOPBACK_INTERFACE'', ''*'', ''vrf_name''],
     [''BGP_NEIGHBOR'', ''*'', ''holdtime''], [''BGP_NEIGHBOR'', ''*'', ''keepalive''],
     [''BGP_NEIGHBOR'', ''*'', ''name''], [''BGP_NEIGHBOR'', ''*'', ''asn''],
     [''BGP_NEIGHBOR'', ''*'', ''local_addr''], [''BGP_NEIGHBOR'', ''*'', ''nhopself''],
     [''BGP_NEIGHBOR'', ''*'', ''rrclient''], [''BGP_PEER_RANGE'', ''*'', ''*''],
     [''BGP_MONITORS'', ''*'', ''holdtime''], [''BGP_MONITORS'', ''*'', ''keepalive''],
     [''BGP_MONITORS'', ''*'', ''name''], [''BGP_MONITORS'', ''*'', ''asn''],
     [''BGP_MONITORS'', ''*'', ''local_addr''], [''BGP_MONITORS'', ''*'', ''nhopself''],
     [''BGP_MONITORS'', ''*'', ''rrclient''], [''MIRROR_SESSION'', ''*'', ''*'']]"

definition create_only_paths :: "json_lib \<Rightarrow> json \<Rightarrow> (err, string) gen" where
  "create_only_paths lib config = get_paths lib create_only_patterns config None"

lemma group_pairs_mem:
  "p \<in> fst ` set (group_pairs pairs) \<longleftrightarrow> p \<in> fst ` set pairs"
  "(p, rs) \<in> set (group_pairs pairs) \<Longrightarrow> r \<in> set rs \<longleftrightarrow> (p, r) \<in> set pairs"
  by (force simp: group_pairs_def)+

lemma concat_rmapM_mem:
  "rmapM f xs = Inr yss \<Longrightarrow> y \<in> set (concat yss) \<longleftrightarrow> (\<exists>x \<in> set xs. \<exists>ys. f x = Inr ys \<and> y \<in> set ys)"
proof (induction xs arbitrary: yss)
  case (Cons x xs)
  then obtain ys zss where "f x = Inr ys" "rmapM f xs = Inr zss" "yss = ys # zss"
    by (auto simp: rbind_eq_Inr)
  with Cons.IH[of zss] show ?case by auto
qed simp

definition the_setting :: setting where
  "the_setting = hd required_settings"

lemma setting_simps:
  "required_settings = [the_setting]" "required_parent_filter the_setting = [[''PORT'', ''*'']]"
  "required_field_name the_setting = ''admin_status''" "common_key_index the_setting = 1"
  "st_required_value the_setting = ''down''"
  by (simp_all add: the_setting_def required_settings_def required_parent_filter_def replace_char_def
      required_field_name_def common_key_index_def upt_rec)

lemma port_parents:
  assumes "gen_collect (get_paths lib [[''PORT'', ''*'']] config None) = Inr parents"
  shows "set parents = {create_path lib (map TStr [''PORT'', port]) |port. \<exists>w. py_path config (map TStr [''PORT'', port]) = Inr w}"
proof -
  have "list_all2 (key_matches None) [''PORT'', ''*''] us \<longleftrightarrow> (\<exists>port. us = [''PORT'', port])" for us
    by (auto simp: list_all2_Cons1 key_matches_def subst_common_def starts_with_def ends_with_def)
  then show ?thesis
    unfolding get_paths_spec_aux[OF assms] by (simp del: py_path.simps list.map) blast
qed

text \<open>The path of a requiring configuration of a port.\<close>

definition requires_port :: "json_lib \<Rightarrow> json \<Rightarrow> string \<Rightarrow> string \<Rightarrow> bool" where
  "requires_port lib config port p \<longleftrightarrow> (\<exists>w. py_path config (map TStr [''PORT'', port]) = Inr w) \<and>
     (\<exists>us pattern. pattern \<in> set (st_requiring_patterns the_setting) \<and> list_all2 (key_matches (Some port)) pattern us \<and>
       (\<exists>w. py_path config (map TStr us) = Inr w) \<and> p = create_path lib (map TStr us))"

lemma required_pairs_mem:
  assumes "pointer_ok lib" and "required_pairs lib the_setting config = Inr ps"
  shows "(p, rp, rv) \<in> set ps \<longleftrightarrow> (\<exists>port. requires_port lib config port p \<and>
    rp = create_path lib (map TStr [''PORT'', port, ''admin_status'']) \<and> rv = ''down'')"
proof -
  have tok: "get_path_tokens lib (create_path lib [TStr a, TStr b]) = Inr [a, b]" for a b
    using assms(1) by (simp add: pointer_ok_def get_path_tokens_def create_path_def)
  obtain parents pss where par: "gen_collect (get_paths lib [[''PORT'', ''*'']] config None) = Inr parents"
      "rmapM (\<lambda>parent. rbind (get_path_tokens lib parent) (\<lambda>parent_tokens.
        rbind (nth_res parent_tokens 1) (\<lambda>common_key.
        rbind (gen_collect (get_paths lib (st_requiring_patterns the_setting) config (Some common_key))) (\<lambda>requires.
          Inr (map (\<lambda>r. (r, (create_path lib (map TStr (parent_tokens @ [''admin_status''])), ''down''))) requires))))) parents = Inr pss"
      "ps = concat pss"
    using assms(2) by (auto simp: required_pairs_def setting_simps rbind_eq_Inr Let_def)
  show ?thesis
    unfolding par(3) concat_rmapM_mem[OF par(2)] port_parents[OF par(1)]
  proof
    assume "\<exists>x\<in>{create_path lib (map TStr [''PORT'', port]) |port. \<exists>w. py_path config (map TStr [''PORT'', port]) = Inr w}.
      \<exists>ys. rbind (get_path_tokens lib x) (\<lambda>parent_tokens. rbind (nth_res parent_tokens 1) (\<lambda>common_key.
        rbind (gen_collect (get_paths lib (st_requiring_patterns the_setting) config (Some common_key))) (\<lambda>requires.
          Inr (map (\<lambda>r. (r, (create_path lib (map TStr (parent_tokens @ [''admin_status''])), ''down''))) requires)))) = Inr ys \<and>
        (p, rp, rv) \<in> set ys"
    then obtain port w qs where "py_path config (map TStr [''PORT'', port]) = Inr w"
        "gen_collect (get_paths lib (st_requiring_patterns the_setting) config (Some port)) = Inr qs"
        "p \<in> set qs" "rp = create_path lib (map TStr [''PORT'', port, ''admin_status''])" "rv = ''down''"
      by (auto simp: tok nth_res_def rbind_eq_Inr simp del: py_path.simps)
    then show "\<exists>port. requires_port lib config port p \<and>
        rp = create_path lib (map TStr [''PORT'', port, ''admin_status'']) \<and> rv = ''down''"
      using get_paths_spec_aux by (fastforce simp: requires_port_def simp del: py_path.simps)
  next
    assume "\<exists>port. requires_port lib config port p \<and>
        rp = create_path lib (map TStr [''PORT'', port, ''admin_status'']) \<and> rv = ''down''"
    then obtain port where port: "requires_port lib config port p"
        "rp = create_path lib (map TStr [''PORT'', port, ''admin_status''])" "rv = ''down''" by blast
    let ?x = "create_path lib (map TStr [''PORT'', port])"
    have "?x \<in> set parents" using port(1) port_parents[OF par(1)] by (auto simp: requires_port_def simp del: py_path.simps)
    then obtain ys where "rbind (get_path_tokens lib ?x) (\<lambda>parent_tokens. rbind (nth_res parent_tokens 1) (\<lambda>common_key.
        rbind (gen_collect (get_paths lib (st_requiring_patterns the_setting) config (Some common_key))) (\<lambda>requires.
          Inr (map (\<lambda>r. (r, (create_path lib (map TStr (parent_tokens @ [''admin_status''])), ''down''))) requires)))) = Inr ys"
      using par(2) by (blast dest: rmapM_Inr_mem)
    moreover from this obtain qs where qs: "gen_collect (get_paths lib (st_requiring_patterns the_setting) config (Some port)) = Inr qs"
        "ys = map (\<lambda>r. (r, rp, rv)) qs"
      using port by (auto simp: tok nth_res_def rbind_eq_Inr)
    moreover have "p \<in> set qs" using port(1) get_paths_spec_aux[OF qs(1)] by (auto simp: requires_port_def simp del: py_path.simps)
    ultimately show "\<exists>x\<in>{create_path lib (map TStr [''PORT'', port]) |port. \<exists>w. py_path config (map TStr [''PORT'', port]) = Inr w}.
      \<exists>ys. rbind (get_path_tokens lib x) (\<lambda>parent_tokens. rbind (nth_res parent_tokens 1) (\<lambda>common_key.
        rbind (gen_collect (get_paths lib (st_requiring_patterns the_setting) config (Some common_key))) (\<lambda>requires.
          Inr (map (\<lambda>r. (r, (create_path lib (map TStr (parent_tokens @ [''admin_status''])), ''down''))) requires)))) = Inr ys \<and>
        (p, rp, rv) \<in> set ys"
      using port(1) by (intro bexI[of _ ?x]) (auto simp: requires_port_def simp del: py_path.simps)
  qed
qed

lemma required_data_mem:
  assumes "pointer_ok lib" and "get_required_value_data lib configs = Inr data"
  shows "(\<exists>rs. (p, rs) \<in> set data \<and> (rp, rv) \<in> set rs) \<longleftrightarrow> (\<exists>config \<in> set configs. \<exists>port.
    requires_port lib config port p \<and> rp = create_path lib (map TStr [''PORT'', port, ''admin_status'']) \<and> rv = ''down'')"
proof -
  obtain pss where pss: "rmapM (required_pairs lib the_setting) configs = Inr pss" "data = group_pairs (concat pss)"
    using assms(2) by (auto simp: get_required_value_data_def setting_simps(1) rbind_eq_Inr)
  have "(\<exists>rs. (p, rs) \<in> set data \<and> (rp, rv) \<in> set rs) \<longleftrightarrow> (p, rp, rv) \<in> set (concat pss)"
  proof
    assume "(p, rp, rv) \<in> set (concat pss)"
    then have "p \<in> fst ` set (group_pairs (concat pss))" unfolding group_pairs_mem(1) by force
    then obtain rs where "(p, rs) \<in> set (group_pairs (concat pss))" by auto
    with \<open>(p, rp, rv) \<in> set (concat pss)\<close> group_pairs_mem(2)[OF this] show "\<exists>rs. (p, rs) \<in> set data \<and> (rp, rv) \<in> set rs"
      unfolding pss(2) by blast
  qed (use group_pairs_mem(2) pss(2) in blast)
  also have "\<dots> \<longleftrightarrow> (\<exists>config \<in> set configs. \<exists>ps. required_pairs lib the_setting config = Inr ps \<and> (p, rp, rv) \<in> set ps)"
    by (rule concat_rmapM_mem[OF pss(1)])
  also have "\<dots> \<longleftrightarrow> (\<exists>config \<in> set configs. \<exists>port. requires_port lib config port p \<and>
      rp = create_path lib (map TStr [''PORT'', port, ''admin_status'']) \<and> rv = ''down'')"
  proof -
    have "\<exists>ps. required_pairs lib the_setting config = Inr ps" if "config \<in> set configs" for config
      using pss(1) that by (blast dest: rmapM_Inr_mem)
    then show ?thesis using required_pairs_mem[OF assms(1)] by metis
  qed
  finally show ?thesis .
qed

text \<open>What \<open>get_required_value_data\<close> returns: a path is listed exactly when it is a requiring path (a queue, a buffer
  profile) of a port of one of the configurations, and what is required is that port's admin status, down.\<close>

theorem required_value_data_spec:
  assumes "pointer_ok lib" and "get_required_value_data lib configs = Inr data"
  shows "(\<exists>rs. (p, rs) \<in> set data \<and> (rp, rv) \<in> set rs) \<longleftrightarrow> (\<exists>config \<in> set configs. \<exists>port.
    requires_port lib config port p \<and> rp = create_path lib (map TStr [''PORT'', port, ''admin_status'']) \<and> rv = ''down'')"
  using assms by (rule required_data_mem)

definition queue_config :: json where
  "queue_config = JObj [(''PORT'', JObj [(''Ethernet0'', JObj [(''admin_status'', JStr ''up'')])]),
     (''QUEUE'', JObj [(''Ethernet0|1'', JObj [])])]"

theorem required_value_data_spec_witness:
  "\<exists>data. get_required_value_data ref_lib [queue_config] = Inr data \<and>
     (\<exists>rs. (create_path ref_lib (map TStr [''QUEUE'', ''Ethernet0|1'']), rs) \<in> set data \<and>
        (create_path ref_lib (map TStr [''PORT'', ''Ethernet0'', ''admin_status'']), ''down'') \<in> set rs)"
proof -
  have "\<exists>data. get_required_value_data ref_lib [queue_config] = Inr data"
    by (rule exI[of _ "[(''/QUEUE/Ethernet0|1'', [(''/PORT/Ethernet0/admin_status'', ''down'')])]"]) code_simp
  then obtain data where d: "get_required_value_data ref_lib [queue_config] = Inr data" by blast
  have "requires_port ref_lib queue_config ''Ethernet0'' (create_path ref_lib (map TStr [''QUEUE'', ''Ethernet0|1'']))"
    unfolding requires_port_def
    by (intro conjI exI[of _ "[''QUEUE'', ''Ethernet0|1'']"] exI[of _ "[''QUEUE'', ''@|*'']"])
       (simp_all add: queue_config_def the_setting_def required_settings_def key_matches_def subst_common_def
         replace_char_def starts_with_def ends_with_def)
  then show ?thesis
    using d required_value_data_spec[OF ref_pointer_ok d] by fastforce
qed

lemma is_match_all:
  "is_match lib patterns p = Inr True \<Longrightarrow> \<exists>tokens. \<forall>pattern \<in> set patterns. length pattern = length tokens \<and>
     (\<forall>i < length tokens. is_token_match (pattern ! i) (tokens ! i) = Inr True)"
  by (fastforce simp: is_match_def rbind_eq_Inr rforall_True set_zip split: if_splits)

text \<open>\<open>is_match\<close> of a filter asks for all patterns at once: the filter of create-only fields, whose patterns name
  different tables, matches no path at all, even those its \<open>get_paths\<close> yields.\<close>

theorem create_only_is_match_never:
  "is_match lib create_only_patterns p \<noteq> Inr True \<and>
   Inr (create_path ref_lib (map TStr [''PORT'', ''Ethernet0'', ''lanes''])) \<in>
     set (create_only_paths ref_lib (JObj [(''PORT'', JObj [(''Ethernet0'', JObj [(''lanes'', JStr ''1,2'')])])]))"
proof
  show "is_match lib create_only_patterns p \<noteq> Inr True"
  proof
    assume "is_match lib create_only_patterns p = Inr True"
    then obtain tokens where t: "\<forall>pattern \<in> set create_only_patterns. length pattern = length tokens \<and>
       (\<forall>i < length tokens. is_token_match (pattern ! i) (tokens ! i) = Inr True)"
      using is_match_all by blast
    have mem: "[''PORT'', ''*'', ''lanes''] \<in> set create_only_patterns" "[''MIRROR_SESSION'', ''*'', ''*''] \<in> set create_only_patterns"
      by (simp_all add: create_only_patterns_def)
    have "0 < length tokens" using t[rule_format, OF mem(1)] by (cases tokens) auto
    then have "is_token_match ([''PORT'', ''*'', ''lanes''] ! 0) (tokens ! 0) = Inr True"
        "is_token_match ([''MIRROR_SESSION'', ''*'', ''*''] ! 0) (tokens ! 0) = Inr True"
      using t[rule_format, OF mem(1)] t[rule_format, OF mem(2)] by blast+
    then have "tokens ! 0 = ''PORT''" "tokens ! 0 = ''MIRROR_SESSION''"
      by (simp_all add: is_token_match_def is_simple_token_match_def)
    then show False by simp
  qed
  show "Inr (create_path ref_lib (map TStr [''PORT'', ''Ethernet0'', ''lanes''])) \<in>
     set (create_only_paths ref_lib (JObj [(''PORT'', JObj [(''Ethernet0'', JObj [(''lanes'', JStr ''1,2'')])])]))"
    by (simp add: create_only_paths_def create_only_patterns_def get_paths_def matching_keys_def
        subst_common_def starts_with_def ends_with_def)
qed

end
