(* ===== verification/JsonMove.thy ===== *)
theory JsonMove
  imports Sorters PathAddressing
begin

text \<open>
  \<open>Diff\<close> and \<open>JsonMove\<close> of \<open>patch_sorter.py\<close>. A move is the one JsonPatch operation it stands
  for, together with the tokens it was made from; an addition below a missing element becomes the
  addition of the whole missing element.
\<close>

section \<open>Diff\<close>

record diff =
  d_current :: json
  d_target :: json

definition has_no_diff :: "diff \<Rightarrow> bool" where
  "has_no_diff d \<longleftrightarrow> json_eq (d_current d) (d_target d)"

text \<open>The hash of a \<open>Diff\<close> is that of the two dumps with sorted keys. The document with sorted keys stands
  for its dump, and the hash function is taken to have no collisions.\<close>

fun sort_keys :: "json \<Rightarrow> json" where
  "sort_keys (JArr xs) = JArr (map sort_keys xs)"
| "sort_keys (JObj d) = JObj (sort_key fst (map (\<lambda>p. (fst p, sort_keys (snd p))) d))"
| "sort_keys v = v"

definition diff_hash :: "diff \<Rightarrow> json \<times> json" where
  "diff_hash d = (sort_keys (d_current d), sort_keys (d_target d))"

section \<open>JsonMove\<close>

record move =
  mv_op :: op_type
  mv_operation :: operation
  mv_current :: "token list"
  mv_target :: "token list option"

definition target_value :: "diff \<Rightarrow> token list option \<Rightarrow> err + json" where
  "target_value d tgt = (case tgt of None \<Rightarrow> Inl TypeError | Some ts \<Rightarrow> py_path (d_target d) ts)"

text \<open>The first loop of \<open>_to_jsonpatch_add_operation\<close>: the target configuration cut down to one path. A list
  on the way becomes a list of one item. (A number can also index a string of the target; Python then
  makes a dictionary with a number for a key, here its decimal form.)\<close>

fun filter_config :: "json \<Rightarrow> token list \<Rightarrow> err + json" where
  "filter_config target [] = Inr target"
| "filter_config target (t # ts) =
     rbind (py_getitem target t) (\<lambda>v. rbind (filter_config v ts) (\<lambda>f.
       Inr (if is_arr target then JArr [f] else JObj [(token_str t, f)])))"

definition filtered_target :: "diff \<Rightarrow> token list \<Rightarrow> err + json" where
  "filtered_target d ts =
     (case ts of [] \<Rightarrow> Inr (JObj [])
      | t # r \<Rightarrow> rbind (py_getitem (d_target d) t) (\<lambda>v. rbind (filter_config v r) (\<lambda>f.
          Inr (JObj [(token_str t, f)]))))"

text \<open>The second loop: the path up to the first token the current configuration does not have.\<close>

definition beyond :: "json \<Rightarrow> token \<Rightarrow> err + bool" where
  "beyond current t = (case t of TStr _ \<Rightarrow> Inl TypeError
     | TIdx i \<Rightarrow> rbind (py_len current) (\<lambda>n. Inr (i \<ge> int n)))"

definition absent :: "json \<Rightarrow> token \<Rightarrow> err + bool" where
  "absent current t = rbind (py_contains current t) (\<lambda>b. Inr (\<not> b))"

definition filter_step :: "json \<Rightarrow> token \<Rightarrow> err + json" where
  "filter_step f t = (case f of JArr xs \<Rightarrow> list_get xs 0 | _ \<Rightarrow> py_getitem f t)"

fun add_point :: "json \<Rightarrow> json \<Rightarrow> token list \<Rightarrow> err + (token list \<times> json)" where
  "add_point current f [] = Inr ([], f)"
| "add_point current f (t # ts) =
     rbind (filter_step f t) (\<lambda>f'.
     rbind (if is_arr f then beyond current t else absent current t) (\<lambda>stop.
       if stop then Inr ([t], f')
       else rbind (py_getitem current t) (\<lambda>c. rbind (add_point c f' ts) (\<lambda>(ns, v). Inr (t # ns, v)))))"

definition to_add_operation :: "json_lib \<Rightarrow> diff \<Rightarrow> token list \<Rightarrow> token list option \<Rightarrow> err + operation" where
  "to_add_operation lib d cur tgt =
     (if cur = [] then rbind (target_value d tgt) (\<lambda>v. Inr (create_operation ADD (create_path lib []) (Some v)))
      else case tgt of None \<Rightarrow> Inl TypeError
        | Some ts \<Rightarrow> rbind (filtered_target d ts) (\<lambda>f. rbind (add_point (d_current d) f cur) (\<lambda>(ns, v).
            Inr (create_operation ADD (create_path lib ns) (Some v)))))"

definition to_operation :: "json_lib \<Rightarrow> diff \<Rightarrow> op_type \<Rightarrow> token list \<Rightarrow> token list option \<Rightarrow> err + operation" where
  "to_operation lib d t cur tgt =
     (case t of
        REMOVE \<Rightarrow> Inr (create_operation REMOVE (create_path lib cur) None)
      | REPLACE \<Rightarrow> rbind (target_value d tgt) (\<lambda>v. Inr (create_operation REPLACE (create_path lib cur) (Some v)))
      | ADD \<Rightarrow> to_add_operation lib d cur tgt)"

definition json_move :: "json_lib \<Rightarrow> diff \<Rightarrow> op_type \<Rightarrow> token list \<Rightarrow> token list option \<Rightarrow> err + move" where
  "json_move lib d t cur tgt =
     rbind (to_operation lib d t cur tgt) (\<lambda>operation.
       Inr \<lparr>mv_op = t, mv_operation = operation, mv_current = cur, mv_target = tgt\<rparr>)"

text \<open>\<open>from_operation\<close>: a diff just large enough to hold the path.\<close>

fun nest :: "string list \<Rightarrow> json \<Rightarrow> json" where
  "nest [] v = v"
| "nest (k # ks) v = JObj [(k, nest ks v)]"

definition from_operation :: "json_lib \<Rightarrow> operation \<Rightarrow> err + move" where
  "from_operation lib o1 =
     rbind (op_type_of (op o1)) (\<lambda>t.
     rbind (if t \<in> {ADD, REPLACE} then (case op_value o1 of None \<Rightarrow> Inl KeyError | Some v \<Rightarrow> Inr v) else Inr JNull) (\<lambda>v.
     rbind (get_path_tokens lib (path o1)) (\<lambda>ks.
       let ts = map TStr ks;
           d = \<lparr>d_current = nest (butlast ks) (JObj []), d_target = nest ks v\<rparr>
       in json_move lib d t ts (if t \<in> {ADD, REPLACE} then Some ts else None))))"

definition from_patch :: "json_lib \<Rightarrow> patch \<Rightarrow> err + move" where
  "from_patch lib p = (case p of [o1] \<Rightarrow> from_operation lib o1 | _ \<Rightarrow> Inl GenericConfigUpdaterError)"

definition move_apply :: "json_lib \<Rightarrow> move \<Rightarrow> json \<Rightarrow> err + json" where
  "move_apply lib m config = jl_apply lib [mv_operation m] config"

definition apply_move :: "json_lib \<Rightarrow> diff \<Rightarrow> move \<Rightarrow> err + diff" where
  "apply_move lib d m = rbind (move_apply lib m (d_current d)) (\<lambda>c. Inr \<lparr>d_current = c, d_target = d_target d\<rparr>)"

text \<open>Membership of a move in a set: equal hashes (operation type, path, dump of the value) and equal
  patches. Two values with one dump are the same value, so this is equality of the operations.\<close>

definition same_move :: "move \<Rightarrow> move \<Rightarrow> bool" where
  "same_move a b \<longleftrightarrow> mv_op a = mv_op b \<and> mv_operation a = mv_operation b"

definition move_in :: "move \<Rightarrow> move list \<Rightarrow> bool" where
  "move_in m ms \<longleftrightarrow> (\<exists>x \<in> set ms. same_move m x)"

section \<open>Additions below missing elements\<close>

text \<open>The intended effect of an addition: the value at the path, with the dictionaries on the way made when
  they are missing. \<open>put_ok\<close>: nothing but dictionaries on the part of the way that exists.\<close>

fun json_put :: "string list \<Rightarrow> json \<Rightarrow> json \<Rightarrow> json" where
  "json_put [] v c = v"
| "json_put (k # ks) v (JObj d) =
     JObj (AList.update k (case map_of d k of None \<Rightarrow> nest ks v | Some w \<Rightarrow> json_put ks v w) d)"
| "json_put (k # ks) v c = c"

fun put_ok :: "string list \<Rightarrow> json \<Rightarrow> bool" where
  "put_ok [] c = True"
| "put_ok (k # ks) (JObj d) = (case map_of d k of None \<Rightarrow> True | Some w \<Rightarrow> put_ok ks w)"
| "put_ok (k # ks) c = False"

lemma py_path_TStr:
  "py_path v (TStr k # ts) = Inr w \<longleftrightarrow> (\<exists>d x. v = JObj d \<and> map_of d k = Some x \<and> py_path x ts = Inr w)"
  by (cases v) (auto split: option.splits)

lemma py_path_nest [simp]: "py_path (nest ks v) (map TStr ks) = Inr v"
  by (induction ks) auto

lemma put_get: "put_ok ks c \<Longrightarrow> py_path (json_put ks v c) (map TStr ks) = Inr v"
  by (induction ks v c rule: json_put.induct) (auto split: option.splits)

lemma nest_other:
  "\<not> prefix us ks \<Longrightarrow> \<not> prefix ks us \<Longrightarrow> py_path (nest ks v) (map TStr us) = Inl KeyError"
proof (induction ks arbitrary: us)
  case (Cons k ks)
  then show ?case by (cases us) auto
qed simp

lemma put_other:
  "put_ok ks c \<Longrightarrow> \<not> prefix us ks \<Longrightarrow> \<not> prefix ks us \<Longrightarrow>
     py_path (json_put ks v c) (map TStr us) = py_path c (map TStr us)"
proof (induction ks v c arbitrary: us rule: json_put.induct)
  case (2 k ks v d)
  then obtain u us' where us: "us = u # us'" by (cases us) auto
  show ?case
  proof (cases "u = k")
    case False
    with us show ?thesis by simp
  next
    case True
    with us 2 have np: "\<not> prefix us' ks" "\<not> prefix ks us'" by auto
    show ?thesis
    proof (cases "map_of d k")
      case None
      with us True np show ?thesis by (simp add: nest_other)
    next
      case (Some w)
      with us True np 2 show ?thesis by simp
    qed
  qed
qed auto

lemma filter_config_nest:
  "py_path target (map TStr ks) = Inr v \<Longrightarrow> filter_config target (map TStr ks) = Inr (nest ks v)"
proof (induction ks arbitrary: target)
  case (Cons k ks)
  then obtain d x where "target = JObj d" "map_of d k = Some x" "py_path x (map TStr ks) = Inr v"
    by (auto simp: py_path_TStr simp del: py_path.simps)
  with Cons show ?case by simp
qed simp

lemma filtered_target_nest:
  "ks \<noteq> [] \<Longrightarrow> py_path (d_target d) (map TStr ks) = Inr v \<Longrightarrow> filtered_target d (map TStr ks) = Inr (nest ks v)"
  using filter_config_nest[of "d_target d" ks v]
  by (cases ks) (auto simp: filtered_target_def rbind_eq_Inr split: if_splits)

lemma add_point_puts:
  "ks \<noteq> [] \<Longrightarrow> put_ok ks c \<Longrightarrow> \<exists>ns x. add_point c (nest ks v) (map TStr ks) = Inr (map TStr ns, x) \<and> ns \<noteq> [] \<and>
     json_edit_at (add_leaf x) ns c = Some (json_put ks v c)"
proof (induction ks v c rule: json_put.induct)
  case (2 k ks v d)
  show ?case
  proof (cases "map_of d k")
    case None
    then show ?thesis
      by (intro exI[of _ "[k]"] exI[of _ "nest ks v"]) (simp add: filter_step_def absent_def)
  next
    case (Some w)
    show ?thesis
    proof (cases "ks = []")
      case True
      with Some show ?thesis
        by (intro exI[of _ "[k]"] exI[of _ v]) (simp add: filter_step_def absent_def)
    next
      case False
      with Some 2 obtain ns x where ih: "add_point w (nest ks v) (map TStr ks) = Inr (map TStr ns, x)" "ns \<noteq> []"
          "json_edit_at (add_leaf x) ns w = Some (json_put ks v w)"
        by auto
      then have "json_edit_at (add_leaf x) (k # ns) (JObj d) = Some (json_put (k # ks) v (JObj d))"
        using Some by (cases ns) auto
      with Some ih show ?thesis
        by (intro exI[of _ "k # ns"] exI[of _ x]) (simp add: filter_step_def absent_def)
    qed
  qed
qed auto

lemma add_move_puts:
  assumes "patch_op_ok lib" and "py_path (d_target d) (map TStr ks) = Inr v" and "put_ok ks (d_current d)"
  shows "\<exists>m. json_move lib d ADD (map TStr ks) (Some (map TStr ks)) = Inr m \<and>
    move_apply lib m (d_current d) = Inr (json_put ks v (d_current d))"
proof (cases "ks = []")
  case True
  then show ?thesis
    using assms unfolding patch_op_ok_def
    by (auto simp: json_move_def to_operation_def to_add_operation_def target_value_def move_apply_def
        create_path_def rfc_op_def opt_json_def dest!: spec[of _ ADD] spec[of _ "[]"] spec[of _ "Some v"])
next
  case False
  then obtain ns x where ap: "add_point (d_current d) (nest ks v) (map TStr ks) = Inr (map TStr ns, x)" "ns \<noteq> []"
      "json_edit_at (add_leaf x) ns (d_current d) = Some (json_put ks v (d_current d))"
    using add_point_puts assms(3) by blast
  have "rfc_op ADD (map token_str (map TStr ns)) (opt_json (Some x)) (d_current d) = Some (json_put ks v (d_current d))"
    using ap by (simp add: rfc_op_def opt_json_def comp_def)
  then have "jl_apply lib [create_operation ADD (create_path lib (map TStr ns)) (Some x)] (d_current d) =
      Inr (json_put ks v (d_current d))"
    using assms(1) unfolding patch_op_ok_def create_path_def by blast
  then show ?thesis
    using False filtered_target_nest[OF False assms(2)] ap(1)
    by (simp add: json_move_def to_operation_def to_add_operation_def move_apply_def)
qed

text \<open>A \<open>JsonMove\<close> that adds the target's value at a path of dictionary keys can be made and applied, however
  many dictionaries of the path the current configuration lacks, and its effect is exactly the
  intended one; so the path then holds the target's value and every path beside it keeps its own.\<close>

theorem add_move_effect:
  assumes "patch_op_ok lib" and "py_path (d_target d) (map TStr ks) = Inr v" and "put_ok ks (d_current d)"
  shows "\<exists>m. json_move lib d ADD (map TStr ks) (Some (map TStr ks)) = Inr m \<and>
    move_apply lib m (d_current d) = Inr (json_put ks v (d_current d)) \<and>
    py_path (json_put ks v (d_current d)) (map TStr ks) = Inr v \<and>
    (\<forall>us. \<not> prefix us ks \<longrightarrow> \<not> prefix ks us \<longrightarrow>
       py_path (json_put ks v (d_current d)) (map TStr us) = py_path (d_current d) (map TStr us))"
  using add_move_puts[OF assms] assms(3) by (auto simp: put_get put_other)

theorem add_move_effect_witness:
  "\<exists>m. json_move ref_lib \<lparr>d_current = JObj [(''VLAN'', JObj [])], d_target = JObj [(''PORT'', JObj [(''Ethernet0'', JObj [(''mtu'', JStr ''9100'')])])]\<rparr>
      ADD (map TStr [''PORT'', ''Ethernet0'', ''mtu'']) (Some (map TStr [''PORT'', ''Ethernet0'', ''mtu''])) = Inr m \<and>
    move_apply ref_lib m (JObj [(''VLAN'', JObj [])]) =
      Inr (JObj [(''VLAN'', JObj []), (''PORT'', JObj [(''Ethernet0'', JObj [(''mtu'', JStr ''9100'')])])])"
  using add_move_effect[OF ref_patch_op_ok, of "\<lparr>d_current = JObj [(''VLAN'', JObj [])], d_target = JObj [(''PORT'', JObj [(''Ethernet0'', JObj [(''mtu'', JStr ''9100'')])])]\<rparr>"
      "[''PORT'', ''Ethernet0'', ''mtu'']" "JStr ''9100''"]
  by auto

lemma nest_butlast_put_ok: "put_ok ks (nest (butlast ks) (JObj []))"
  by (induction ks) auto

lemma add_point_nest:
  "ks \<noteq> [] \<Longrightarrow> add_point (nest (butlast ks) (JObj [])) (nest ks v) (map TStr ks) = Inr (map TStr ks, v)"
proof (induction ks)
  case (Cons k ks)
  then show ?case
    by (cases ks) (auto simp: filter_step_def absent_def)
qed simp

text \<open>An operation of type add, remove or replace on a path of keys, read by \<open>from_operation\<close>, becomes a move of
  the same type whose JsonPatch operation is that very operation.\<close>

theorem from_operation_roundtrip:
  fixes ks :: "string list" and lib t v
  defines "o1 \<equiv> create_operation t (create_path lib (map TStr ks)) v"
  assumes "pointer_ok lib" and "t = REMOVE \<longleftrightarrow> v = None"
  shows "\<exists>m. from_operation lib o1 = Inr m \<and> mv_op m = t \<and> mv_operation m = o1 \<and> mv_current m = map TStr ks"
proof -
  have tok: "get_path_tokens lib (create_path lib (map TStr ks)) = Inr ks"
    using assms(2) by (simp add: get_path_tokens_def create_path_def pointer_ok_def comp_def)
  have op1: "op_type_of (op o1) = Inr t" "path o1 = create_path lib (map TStr ks)"
      "op_value o1 = (if t = REMOVE then None else v)"
    using assms(3) unfolding o1_def create_operation_def
    by (cases v; cases t; simp add: opt_json_def op_type_of_def to_lower_def)+
  show ?thesis
  proof (cases t)
    case REMOVE
    with op1 tok show ?thesis
      by (simp add: from_operation_def Let_def json_move_def to_operation_def o1_def create_operation_def)
  next
    case REPLACE
    with assms(3) obtain x where "v = Some x" by auto
    with REPLACE op1 tok show ?thesis
      by (simp add: from_operation_def Let_def json_move_def to_operation_def target_value_def o1_def)
  next
    case ADD
    with assms(3) obtain x where v: "v = Some x" by auto
    show ?thesis
    proof (cases "ks = []")
      case True
      with ADD v op1 tok show ?thesis
        by (simp add: from_operation_def Let_def json_move_def to_operation_def to_add_operation_def target_value_def o1_def)
    next
      case False
      have "filtered_target \<lparr>d_current = nest (butlast ks) (JObj []), d_target = nest ks x\<rparr> (map TStr ks) = Inr (nest ks x)"
        using False by (intro filtered_target_nest) simp_all
      with False ADD v op1 tok show ?thesis
        by (simp add: from_operation_def Let_def json_move_def to_operation_def to_add_operation_def add_point_nest o1_def)
    qed
  qed
qed

theorem from_operation_roundtrip_witness:
  "\<exists>m. from_operation ref_lib (create_operation REPLACE (create_path ref_lib (map TStr [''PORT'', ''Ethernet0/1'', ''mtu''])) (Some (JStr ''1500''))) = Inr m \<and>
     mv_op m = REPLACE \<and>
     mv_operation m = create_operation REPLACE (create_path ref_lib (map TStr [''PORT'', ''Ethernet0/1'', ''mtu''])) (Some (JStr ''1500'')) \<and>
     mv_current m = map TStr [''PORT'', ''Ethernet0/1'', ''mtu'']"
  by (rule from_operation_roundtrip) simp_all

end
