(* ===== verification/MoveWrapper.thy ===== *)
theory MoveWrapper
  imports JsonMove
begin

text \<open>
  \<open>MoveWrapper\<close> of \<open>patch_sorter.py\<close>: the generators, extenders and validators a sorter works with.
  \<open>generate\<close> is a generator with two sets (moves already yielded, moves already extended) and a queue
  of moves to extend; its fuel bounds the number of moves taken from the queue
  (\<open>generate_enough_fuel\<close> says how much is enough). What is yielded has no duplicates, comes from the
  generators and extenders, misses no generated move, and is closed under the extenders, up to moves with the same operation.
\<close>

section \<open>The wrapper\<close>

record wrapper =
  w_generators :: "(diff \<Rightarrow> (err, move) gen) list"
  w_non_extendable :: "(diff \<Rightarrow> (err, move) gen) list"
  w_extenders :: "(move \<Rightarrow> diff \<Rightarrow> (err, move) gen) list"
  w_validators :: "(move \<Rightarrow> diff \<Rightarrow> err + bool) list"

text \<open>Generators one after the other; one that raises ends the whole.\<close>

fun chain_gens :: "('e, 'a) gen list \<Rightarrow> ('e, 'a) gen" where
  "chain_gens [] = []"
| "chain_gens (g # gs) = (case gen_collect g of Inl _ \<Rightarrow> gen_cut g | Inr _ \<Rightarrow> g @ chain_gens gs)"

definition generate_moves :: "wrapper \<Rightarrow> diff \<Rightarrow> (err, move) gen" where
  "generate_moves w d = chain_gens (map (\<lambda>g. g d) (w_generators w))"

definition generate_non_extendable_moves :: "wrapper \<Rightarrow> diff \<Rightarrow> (err, move) gen" where
  "generate_non_extendable_moves w d = chain_gens (map (\<lambda>g. g d) (w_non_extendable w))"

definition extend_moves :: "wrapper \<Rightarrow> move \<Rightarrow> diff \<Rightarrow> (err, move) gen" where
  "extend_moves w m d = chain_gens (map (\<lambda>e. e m d) (w_extenders w))"

text \<open>The three loops of \<open>generate\<close>, last one first. \<open>processed\<close> and \<open>extended\<close> are the two sets.\<close>

definition yield_new :: "move \<Rightarrow> move list \<Rightarrow> (err, move) gen" where
  "yield_new m processed = (if move_in m processed then [] else [Inr m])"

definition insert_new :: "move \<Rightarrow> move list \<Rightarrow> move list" where
  "insert_new m ms = (if move_in m ms then ms else m # ms)"

fun drain_queue :: "wrapper \<Rightarrow> diff \<Rightarrow> nat \<Rightarrow> move list \<Rightarrow> move list \<Rightarrow> move list \<Rightarrow> (err, move) gen" where
  "drain_queue w d n processed extended [] = []"
| "drain_queue w d 0 processed extended (m # queue) = [Inl OutOfFuel]"
| "drain_queue w d (Suc n) processed extended (m # queue) =
     yield_new m processed @
       (if move_in m extended then drain_queue w d n (insert_new m processed) extended queue
        else (case gen_collect (extend_moves w m d) of
                Inl e \<Rightarrow> [Inl e]
              | Inr ms \<Rightarrow> drain_queue w d n (insert_new m processed) (m # extended) (queue @ ms)))"

fun take_extendable :: "wrapper \<Rightarrow> diff \<Rightarrow> nat \<Rightarrow> move list \<Rightarrow> move list \<Rightarrow> move list \<Rightarrow> (err, move) gen
     \<Rightarrow> (err, move) gen" where
  "take_extendable w d n processed extended queue [] = drain_queue w d n processed extended queue"
| "take_extendable w d n processed extended queue (Inl e # g) = [Inl e]"
| "take_extendable w d n processed extended queue (Inr m # g) =
     yield_new m processed @
       (if move_in m extended then take_extendable w d n (insert_new m processed) extended queue g
        else (case gen_collect (extend_moves w m d) of
                Inl e \<Rightarrow> [Inl e]
              | Inr ms \<Rightarrow> take_extendable w d n (insert_new m processed) (m # extended) (queue @ ms) g))"

fun take_non_extendable :: "wrapper \<Rightarrow> diff \<Rightarrow> nat \<Rightarrow> move list \<Rightarrow> (err, move) gen \<Rightarrow> (err, move) gen" where
  "take_non_extendable w d n processed [] = take_extendable w d n processed [] [] (generate_moves w d)"
| "take_non_extendable w d n processed (Inl e # g) = [Inl e]"
| "take_non_extendable w d n processed (Inr m # g) =
     yield_new m processed @ take_non_extendable w d n (insert_new m processed) g"

definition wrapper_generate :: "wrapper \<Rightarrow> nat \<Rightarrow> diff \<Rightarrow> (err, move) gen" where
  "wrapper_generate w n d = take_non_extendable w d n [] (generate_non_extendable_moves w d)"

definition wrapper_validate :: "wrapper \<Rightarrow> move \<Rightarrow> diff \<Rightarrow> err + bool" where
  "wrapper_validate w m d = rforall (\<lambda>v. v m d) (w_validators w)"

definition wrapper_simulate :: "json_lib \<Rightarrow> move \<Rightarrow> diff \<Rightarrow> err + diff" where
  "wrapper_simulate lib m d = apply_move lib d m"

text \<open>What the sorters see of a wrapper.\<close>

definition wrapper_ops :: "json_lib \<Rightarrow> wrapper \<Rightarrow> nat \<Rightarrow> (diff, move, json \<times> json) search_ops" where
  "wrapper_ops lib w n = \<lparr>so_generate = wrapper_generate w n, so_validate = wrapper_validate w,
     so_simulate = wrapper_simulate lib, so_done = has_no_diff, so_hash = diff_hash\<rparr>"

section \<open>What generate yields\<close>

text \<open>A move a chain of extensions leads to from a move of a generator.\<close>

inductive extendable :: "wrapper \<Rightarrow> diff \<Rightarrow> move \<Rightarrow> bool" for w d where
  generated: "Inr m \<in> set (generate_moves w d) \<Longrightarrow> extendable w d m"
| extended: "extendable w d m \<Longrightarrow> Inr m' \<in> set (extend_moves w m d) \<Longrightarrow> extendable w d m'"

definition offered :: "wrapper \<Rightarrow> diff \<Rightarrow> move \<Rightarrow> bool" where
  "offered w d m \<longleftrightarrow> extendable w d m \<or> Inr m \<in> set (generate_non_extendable_moves w d)"

lemma same_move_refl [simp]: "same_move m m"
  by (simp add: same_move_def)

lemma same_move_sym: "same_move a b \<Longrightarrow> same_move b a"
  by (simp add: same_move_def)

lemma same_move_trans: "same_move a b \<Longrightarrow> same_move b c \<Longrightarrow> same_move a c"
  by (simp add: same_move_def)

lemma set_yield_new: "Inr x \<in> set (yield_new m P) \<longleftrightarrow> x = m \<and> \<not> move_in m P"
  by (auto simp: yield_new_def)

lemma move_in_insert_new [simp]: "move_in x (insert_new m P) \<longleftrightarrow> same_move x m \<or> move_in x P"
  by (auto simp: move_in_def insert_new_def intro: same_move_trans same_move_sym)

lemma gen_collect_mem: "gen_collect g = Inr ms \<Longrightarrow> x \<in> set ms \<Longrightarrow> Inr x \<in> set g"
  by (auto simp: gen_collect_Inr)

lemma drain_offered:
  "Inr x \<in> set (drain_queue w d n P X q) \<Longrightarrow> \<forall>m \<in> set q. extendable w d m \<Longrightarrow> extendable w d x"
proof (induction w d n P X q rule: drain_queue.induct)
  case (3 w d n P X m q)
  then show ?case
    by (auto simp: set_yield_new split: if_splits sum.splits) (metis UnE extended gen_collect_mem)
qed auto

lemma take_extendable_offered:
  "Inr x \<in> set (take_extendable w d n P X q g) \<Longrightarrow> \<forall>m \<in> set q. extendable w d m \<Longrightarrow>
     set g \<subseteq> set (generate_moves w d) \<Longrightarrow> extendable w d x"
proof (induction w d n P X q g rule: take_extendable.induct)
  case (3 w d n P X q m g)
  then show ?case
    by (auto simp: set_yield_new intro: generated split: if_splits sum.splits)
       (metis UnE extended generated gen_collect_mem)
qed (auto dest: drain_offered)

lemma take_non_extendable_offered:
  "Inr x \<in> set (take_non_extendable w d n P g) \<Longrightarrow> set g \<subseteq> set (generate_non_extendable_moves w d) \<Longrightarrow> offered w d x"
  by (induction w d n P g rule: take_non_extendable.induct)
     (auto simp: offered_def set_yield_new dest: take_extendable_offered)

text \<open>No move is yielded twice, nor one that is in the set already.\<close>

definition fresh_distinct :: "move list \<Rightarrow> (err, move) gen \<Rightarrow> bool" where
  "fresh_distinct P g \<longleftrightarrow> sorted_wrt (\<lambda>a b. \<forall>x y. a = Inr x \<longrightarrow> b = Inr y \<longrightarrow> \<not> same_move x y) g \<and>
     (\<forall>x. Inr x \<in> set g \<longrightarrow> \<not> move_in x P)"

lemma fresh_distinct_Inl [simp]: "fresh_distinct P [Inl e]"
  by (simp add: fresh_distinct_def)

lemma fresh_distinct_yield:
  "fresh_distinct (insert_new m P) g \<Longrightarrow> fresh_distinct P (yield_new m P @ g)"
  by (auto simp: fresh_distinct_def yield_new_def dest: same_move_sym)

lemma drain_fresh: "fresh_distinct P (drain_queue w d n P X q)"
proof (induction w d n P X q rule: drain_queue.induct)
  case (3 w d n P X m q)
  then show ?case
    by (auto split: sum.splits intro!: fresh_distinct_yield)
qed (auto simp: fresh_distinct_def)

lemma take_extendable_fresh: "fresh_distinct P (take_extendable w d n P X q g)"
proof (induction w d n P X q g rule: take_extendable.induct)
  case (3 w d n P X q m g)
  then show ?case
    by (auto split: sum.splits intro!: fresh_distinct_yield)
qed (auto simp: drain_fresh)

lemma take_non_extendable_fresh: "fresh_distinct P (take_non_extendable w d n P g)"
  by (induction w d n P g rule: take_non_extendable.induct)
     (auto simp: take_extendable_fresh intro!: fresh_distinct_yield)

text \<open>Every generated move is yielded, or one with the same operation was.\<close>

definition gen_covers :: "(err, move) gen \<Rightarrow> move list \<Rightarrow> move \<Rightarrow> bool" where
  "gen_covers g P m \<longleftrightarrow> move_in m P \<or> (\<exists>x. Inr x \<in> set g \<and> same_move m x)"

lemma move_in_same: "same_move x m \<Longrightarrow> move_in m P \<Longrightarrow> move_in x P"
  by (auto simp: move_in_def intro: same_move_trans)

lemma covers_inserted [simp]: "gen_covers g (insert_new m P) m"
  by (simp add: gen_covers_def)

lemma covers_yield: "gen_covers g (insert_new m P) x \<Longrightarrow> gen_covers (yield_new m P @ g) P x"
  by (auto simp: gen_covers_def set_yield_new intro: move_in_same)

lemma covers_self: "gen_covers (yield_new m P @ g) P m"
  by (auto simp: gen_covers_def yield_new_def)

lemma covers_P: "move_in m P \<Longrightarrow> gen_covers g P m"
  by (simp add: gen_covers_def)

lemma take_extendable_covers:
  "Inl ` UNIV \<inter> set (take_extendable w d n P X q g) = {} \<Longrightarrow> Inr x \<in> set g \<Longrightarrow>
     gen_covers (take_extendable w d n P X q g) P x"
proof (induction w d n P X q g rule: take_extendable.induct)
  case (3 w d n P X q m g)
  then show ?case
    by (cases "x = m") (auto split: if_splits sum.splits intro!: covers_yield)
qed auto

lemma take_non_extendable_covers:
  "Inl ` UNIV \<inter> set (take_non_extendable w d n P g) = {} \<Longrightarrow>
     Inr x \<in> set g \<or> Inr x \<in> set (generate_moves w d) \<Longrightarrow>
     gen_covers (take_non_extendable w d n P g) P x"
proof (induction w d n P g rule: take_non_extendable.induct)
  case (1 w d n P)
  then show ?case by (auto intro: take_extendable_covers)
next
  case (3 w d n P m g)
  then show ?case
    by (cases "x = m") (auto simp: covers_self intro!: covers_yield)
qed auto

text \<open>
  Repeated extension: \<open>R\<close> holds the moves extended, one for each operation met. \<open>represented R m\<close>: a move with the
  operation of \<open>m\<close> is among them. They are closed under extension, and each is yielded.
\<close>

definition represented :: "move set \<Rightarrow> move \<Rightarrow> bool" where
  "represented R m \<longleftrightarrow> (\<exists>r \<in> R. same_move m r)"

definition drained :: "wrapper \<Rightarrow> diff \<Rightarrow> move list \<Rightarrow> move set \<Rightarrow> (err, move) gen \<Rightarrow> move list \<Rightarrow> bool" where
  "drained w d X R g P \<longleftrightarrow> set X \<subseteq> R \<and> (\<forall>r \<in> R - set X. extendable w d r \<and> gen_covers g P r \<and>
     (\<forall>m. Inr m \<in> set (extend_moves w r d) \<longrightarrow> represented R m))"

lemma represented_in: "m \<in> R \<Longrightarrow> represented R m"
  unfolding represented_def using same_move_refl by blast

lemma represented_extended: "set X \<subseteq> R \<Longrightarrow> move_in m X \<Longrightarrow> represented R m"
  by (auto simp: represented_def move_in_def)

lemma drained_yield: "drained w d X R g (insert_new m P) \<Longrightarrow> drained w d X R (yield_new m P @ g) P"
  by (auto simp: drained_def intro: covers_yield)

lemma drained_extend:
  assumes "drained w d (m # X) R g (insert_new m P)" and "extendable w d m"
    and "gen_collect (extend_moves w m d) = Inr ms" and "\<forall>x \<in> set ms. represented R x"
  shows "drained w d X R (yield_new m P @ g) P"
proof -
  have "Inr x \<in> set (extend_moves w m d) \<longleftrightarrow> x \<in> set ms" for x using assms(3) by (auto simp: gen_collect_Inr)
  then show ?thesis using assms by (auto simp: drained_def covers_self intro: covers_yield)
qed

lemma drain_closed:
  "Inl ` UNIV \<inter> set (drain_queue w d n P X q) = {} \<Longrightarrow> \<forall>m \<in> set q. extendable w d m \<Longrightarrow>
     \<exists>R. drained w d X R (drain_queue w d n P X q) P \<and> (\<forall>m \<in> set q. represented R m)"
proof (induction w d n P X q rule: drain_queue.induct)
  case (1 w d n P X)
  then show ?case by (intro exI[of _ "set X"]) (simp add: drained_def)
next
  case (3 w d n P X m q)
  show ?case
  proof (cases "move_in m X")
    case True
    with "3.IH"(1) "3.prems" obtain R where R: "drained w d X R (drain_queue w d n (insert_new m P) X q) (insert_new m P)"
        "\<forall>x \<in> set q. represented R x" by auto
    then have "represented R m" using True represented_extended unfolding drained_def by blast
    with R(2) drained_yield[OF R(1)] True show ?thesis by auto
  next
    case False
    then obtain ms where ms: "gen_collect (extend_moves w m d) = Inr ms" using "3.prems"(1) by (auto split: sum.splits)
    then have "\<forall>x \<in> set (q @ ms). extendable w d x"
      using "3.prems"(2) by (auto dest: gen_collect_mem intro: extended)
    with "3.IH"(2)[OF False ms] "3.prems"(1) False ms obtain R
      where R: "drained w d (m # X) R (drain_queue w d n (insert_new m P) (m # X) (q @ ms)) (insert_new m P)"
        "\<forall>x \<in> set (q @ ms). represented R x" by auto
    have "drained w d X R (drain_queue w d (Suc n) P X (m # q)) P"
      using drained_extend[OF R(1) _ ms] R(2) "3.prems"(2) False ms by simp
    moreover have "represented R m" using R(1) by (simp add: drained_def represented_in)
    ultimately show ?thesis using R(2) by auto
  qed
qed auto

lemma take_extendable_closed:
  "Inl ` UNIV \<inter> set (take_extendable w d n P X q g) = {} \<Longrightarrow> \<forall>m \<in> set q. extendable w d m \<Longrightarrow>
     set g \<subseteq> set (generate_moves w d) \<Longrightarrow>
     \<exists>R. drained w d X R (take_extendable w d n P X q g) P \<and> (\<forall>m \<in> set q. represented R m) \<and> (\<forall>m. Inr m \<in> set g \<longrightarrow> represented R m)"
proof (induction w d n P X q g rule: take_extendable.induct)
  case (1 w d n P X q)
  then show ?case using drain_closed by simp
next
  case (3 w d n P X q m g)
  have m: "extendable w d m" using "3.prems"(3) by (auto intro: generated)
  show ?case
  proof (cases "move_in m X")
    case True
    with "3.IH"(1) "3.prems" obtain R where R: "drained w d X R (take_extendable w d n (insert_new m P) X q g) (insert_new m P)"
        "\<forall>x \<in> set q. represented R x" "\<forall>x. Inr x \<in> set g \<longrightarrow> represented R x" by auto
    then have "represented R m" using True represented_extended unfolding drained_def by blast
    with R(2,3) drained_yield[OF R(1)] True show ?thesis by auto
  next
    case False
    then obtain ms where ms: "gen_collect (extend_moves w m d) = Inr ms" using "3.prems"(1) by (auto split: sum.splits)
    then have "\<forall>x \<in> set (q @ ms). extendable w d x"
      using "3.prems"(2) m by (auto dest: gen_collect_mem intro: extended)
    with "3.IH"(2)[OF False ms] "3.prems"(1,3) False ms obtain R
      where R: "drained w d (m # X) R (take_extendable w d n (insert_new m P) (m # X) (q @ ms) g) (insert_new m P)"
        "\<forall>x \<in> set (q @ ms). represented R x" "\<forall>x. Inr x \<in> set g \<longrightarrow> represented R x" by auto
    have "drained w d X R (take_extendable w d n P X q (Inr m # g)) P"
      using drained_extend[OF R(1) m ms] R(2) False ms by simp
    moreover have "represented R m" using R(1) by (simp add: drained_def represented_in)
    ultimately show ?thesis using R(2,3) by auto
  qed
qed auto

lemma take_non_extendable_closed:
  "Inl ` UNIV \<inter> set (take_non_extendable w d n P g) = {} \<Longrightarrow>
     \<exists>R. drained w d [] R (take_non_extendable w d n P g) P \<and> (\<forall>m. Inr m \<in> set (generate_moves w d) \<longrightarrow> represented R m)"
proof (induction w d n P g rule: take_non_extendable.induct)
  case (1 w d n P)
  then show ?case using take_extendable_closed[of w d n P "[]" "[]" "generate_moves w d"] by auto
next
  case (3 w d n P m g)
  then obtain R where "drained w d [] R (take_non_extendable w d n (insert_new m P) g) (insert_new m P)"
    "\<forall>m. Inr m \<in> set (generate_moves w d) \<longrightarrow> represented R m" by auto
  then show ?case using drained_yield[of w d "[]" R _ m P] by auto
qed auto

section \<open>Enough fuel\<close>

text \<open>A move enters the queue as an extension of a move not extended before; when the extensions stay within
  a finite set of operations, and one move has at most \<open>K\<close> of them, the queue empties.\<close>

definition move_key :: "move \<Rightarrow> op_type \<times> operation" where
  "move_key m = (mv_op m, mv_operation m)"

lemma move_in_key: "move_in m ms \<longleftrightarrow> move_key m \<in> move_key ` set ms"
  by (auto simp: move_in_def same_move_def move_key_def)

definition extensions_within :: "wrapper \<Rightarrow> diff \<Rightarrow> move set \<Rightarrow> nat \<Rightarrow> bool" where
  "extensions_within w d S K \<longleftrightarrow> (\<forall>m \<in> S. Inl OutOfFuel \<notin> set (extend_moves w m d) \<and>
     length (extend_moves w m d) \<le> K \<and> (\<forall>x. Inr x \<in> set (extend_moves w m d) \<longrightarrow> x \<in> S))"

lemma gen_collect_Inl_mem: "gen_collect g = Inl e \<Longrightarrow> Inl e \<in> set g"
  by (induction g rule: gen_collect.induct) (auto simp: rbind_eq_Inl)

lemma gen_collect_length: "gen_collect g = Inr ms \<Longrightarrow> length ms = length g"
  by (auto simp: gen_collect_Inr)

lemma card_extend:
  assumes "finite S" and "m \<in> S" and "\<not> move_in m X"
  shows "Suc (card (move_key ` S - move_key ` set (m # X))) \<le> card (move_key ` S - move_key ` set X)"
proof -
  have "move_key ` S - move_key ` set (m # X) \<subset> move_key ` S - move_key ` set X"
    using assms by (auto simp: move_in_key)
  then show ?thesis using assms(1) by (intro Suc_leI psubset_card_mono) auto
qed

definition queue_work :: "move set \<Rightarrow> nat \<Rightarrow> move list \<Rightarrow> move list \<Rightarrow> nat" where
  "queue_work S K X q = length q + K * card (move_key ` S - move_key ` set X)"

lemma queue_work_extend:
  assumes "finite S" and "m \<in> S" and "\<not> move_in m X" and "length ms \<le> K"
  shows "queue_work S K (m # X) (q @ ms) \<le> queue_work S K X q"
proof -
  have "K * Suc (card (move_key ` S - move_key ` set (m # X))) \<le> K * card (move_key ` S - move_key ` set X)"
    using card_extend[OF assms(1-3)] by (rule mult_le_mono2)
  then show ?thesis using assms(4) by (simp add: queue_work_def)
qed

lemma queue_work_Cons [simp]: "queue_work S K X (m # q) = Suc (queue_work S K X q)"
  by (simp add: queue_work_def)

lemma extensions_withinD:
  assumes "extensions_within w d S K" and "m \<in> S"
  shows "gen_collect (extend_moves w m d) \<noteq> Inl OutOfFuel"
    and "gen_collect (extend_moves w m d) = Inr ms \<Longrightarrow> set ms \<subseteq> S \<and> length ms \<le> K"
  using assms unfolding extensions_within_def by (metis gen_collect_Inl_mem, metis gen_collect_length gen_collect_mem subsetI)

lemma fuel_not_yielded [simp]: "Inl e \<notin> set (yield_new m P)"
  by (simp add: yield_new_def)

lemma drain_enough_fuel:
  "finite S \<Longrightarrow> extensions_within w d S K \<Longrightarrow> set q \<subseteq> S \<Longrightarrow> queue_work S K X q \<le> n \<Longrightarrow> Inl OutOfFuel \<notin> set (drain_queue w d n P X q)"
proof (induction w d n P X q rule: drain_queue.induct)
  case (3 w d n P X m q)
  have m: "m \<in> S" using 3 by simp
  note ext = extensions_withinD[OF \<open>extensions_within w d S K\<close> m]
  show ?case
  proof (cases "gen_collect (extend_moves w m d)")
    case (Inl e)
    then have "e \<noteq> OutOfFuel" using ext(1) by metis
    with 3 Inl show ?thesis by auto
  next
    case (Inr ms)
    with 3 ext(2)[of ms] queue_work_extend[OF \<open>finite S\<close> m, of X ms K q] show ?thesis by auto
  qed
qed auto

lemma take_extendable_enough_fuel:
  "finite S \<Longrightarrow> extensions_within w d S K \<Longrightarrow> Inl OutOfFuel \<notin> set g \<Longrightarrow> (\<forall>m. Inr m \<in> set g \<longrightarrow> m \<in> S) \<Longrightarrow> set q \<subseteq> S \<Longrightarrow> queue_work S K X q \<le> n \<Longrightarrow>
    Inl OutOfFuel \<notin> set (take_extendable w d n P X q g)"
proof (induction w d n P X q g rule: take_extendable.induct)
  case (3 w d n P X q m g)
  have m: "m \<in> S" using 3 by simp
  note ext = extensions_withinD[OF \<open>extensions_within w d S K\<close> m]
  show ?case
  proof (cases "gen_collect (extend_moves w m d)")
    case (Inl e)
    then have "e \<noteq> OutOfFuel" using ext(1) by metis
    with 3 Inl show ?thesis by auto
  next
    case (Inr ms)
    with 3 ext(2)[of ms] queue_work_extend[OF \<open>finite S\<close> m, of X ms K q] show ?thesis by auto
  qed
next
  case (1 w d n P X q)
  then show ?case by (simp add: drain_enough_fuel)
qed auto

lemma generate_enough_fuel_aux:
  "finite S \<Longrightarrow> extensions_within w d S K \<Longrightarrow> \<forall>m. Inr m \<in> set (generate_moves w d) \<longrightarrow> m \<in> S \<Longrightarrow>
    Inl OutOfFuel \<notin> set (generate_moves w d) \<Longrightarrow> Inl OutOfFuel \<notin> set g \<Longrightarrow> K * card (move_key ` S) \<le> n \<Longrightarrow>
    Inl OutOfFuel \<notin> set (take_non_extendable w d n P g)"
proof (induction w d n P g rule: take_non_extendable.induct)
  case (1 w d n P)
  then show ?case
    using take_extendable_enough_fuel[of S w d K "generate_moves w d" "[]" "[]" n P] by (simp add: queue_work_def)
qed auto

text \<open>C32. What \<open>MoveWrapper.generate\<close> yields: only moves of the generators and, by repeated extension, of the extenders;
  never two moves with one operation. Unless it raises, every move of the non-extendable generators is yielded (or one with
  its operation), and there is a set \<open>R\<close> of moves, all reached by repeated extension and all yielded, that represents every
  move of the generators and every extension of every move in \<open>R\<close>: the moves extended, one for each operation. And it does
  come to its end: when the extensions of moves stay within finitely many operations, a bounded number of queue steps
  suffices.\<close>

theorem wrapper_generate_correct:
  shows "(\<forall>m. Inr m \<in> set (wrapper_generate w n d) \<longrightarrow> offered w d m) \<and>
    (\<forall>i j a b. i < j \<longrightarrow> j < length (wrapper_generate w n d) \<longrightarrow> wrapper_generate w n d ! i = Inr a \<longrightarrow>
       wrapper_generate w n d ! j = Inr b \<longrightarrow> \<not> same_move a b) \<and>
    (\<forall>ms. gen_collect (wrapper_generate w n d) = Inr ms \<longrightarrow>
       (\<forall>m. Inr m \<in> set (generate_non_extendable_moves w d) \<or> Inr m \<in> set (generate_moves w d) \<longrightarrow> (\<exists>x \<in> set ms. same_move m x)) \<and>
       (\<exists>R. (\<forall>m. Inr m \<in> set (generate_moves w d) \<longrightarrow> represented R m) \<and>
          (\<forall>r \<in> R. extendable w d r \<and> (\<exists>x \<in> set ms. same_move r x) \<and>
             (\<forall>m. Inr m \<in> set (extend_moves w r d) \<longrightarrow> represented R m)))) \<and>
    (\<forall>S K. finite S \<longrightarrow> extensions_within w d S K \<longrightarrow> (\<forall>m. Inr m \<in> set (generate_moves w d) \<longrightarrow> m \<in> S) \<longrightarrow>
       Inl OutOfFuel \<notin> set (generate_moves w d) \<longrightarrow> Inl OutOfFuel \<notin> set (generate_non_extendable_moves w d) \<longrightarrow>
       K * card (move_key ` S) \<le> n \<longrightarrow> Inl OutOfFuel \<notin> set (wrapper_generate w n d))"
proof (intro conjI)
  show "\<forall>m. Inr m \<in> set (wrapper_generate w n d) \<longrightarrow> offered w d m"
    by (auto simp: wrapper_generate_def dest: take_non_extendable_offered)
  show "\<forall>i j a b. i < j \<longrightarrow> j < length (wrapper_generate w n d) \<longrightarrow> wrapper_generate w n d ! i = Inr a \<longrightarrow>
       wrapper_generate w n d ! j = Inr b \<longrightarrow> \<not> same_move a b"
    using take_non_extendable_fresh[of "[]" w d n "generate_non_extendable_moves w d"]
    unfolding fresh_distinct_def wrapper_generate_def sorted_wrt_iff_nth_less by blast
  show "\<forall>ms. gen_collect (wrapper_generate w n d) = Inr ms \<longrightarrow>
       (\<forall>m. Inr m \<in> set (generate_non_extendable_moves w d) \<or> Inr m \<in> set (generate_moves w d) \<longrightarrow> (\<exists>x \<in> set ms. same_move m x)) \<and>
       (\<exists>R. (\<forall>m. Inr m \<in> set (generate_moves w d) \<longrightarrow> represented R m) \<and>
          (\<forall>r \<in> R. extendable w d r \<and> (\<exists>x \<in> set ms. same_move r x) \<and>
             (\<forall>m. Inr m \<in> set (extend_moves w r d) \<longrightarrow> represented R m)))"
  proof (intro allI impI)
    fix ms assume "gen_collect (wrapper_generate w n d) = Inr ms"
    then have g: "take_non_extendable w d n [] (generate_non_extendable_moves w d) = map Inr ms"
      by (simp add: wrapper_generate_def gen_collect_Inr)
    have cov: "gen_covers (map Inr ms) [] m \<longleftrightarrow> (\<exists>x \<in> set ms. same_move m x)" for m
      by (auto simp: gen_covers_def move_in_def)
    have no_error: "Inl ` UNIV \<inter> set (take_non_extendable w d n [] (generate_non_extendable_moves w d)) = {}" by (auto simp: g)
    from take_non_extendable_covers[OF no_error] take_non_extendable_closed[OF no_error]
    show "(\<forall>m. Inr m \<in> set (generate_non_extendable_moves w d) \<or> Inr m \<in> set (generate_moves w d) \<longrightarrow> (\<exists>x \<in> set ms. same_move m x)) \<and>
       (\<exists>R. (\<forall>m. Inr m \<in> set (generate_moves w d) \<longrightarrow> represented R m) \<and>
          (\<forall>r \<in> R. extendable w d r \<and> (\<exists>x \<in> set ms. same_move r x) \<and>
             (\<forall>m. Inr m \<in> set (extend_moves w r d) \<longrightarrow> represented R m)))"
      unfolding g drained_def cov by auto
  qed
  show "\<forall>S K. finite S \<longrightarrow> extensions_within w d S K \<longrightarrow> (\<forall>m. Inr m \<in> set (generate_moves w d) \<longrightarrow> m \<in> S) \<longrightarrow>
       Inl OutOfFuel \<notin> set (generate_moves w d) \<longrightarrow> Inl OutOfFuel \<notin> set (generate_non_extendable_moves w d) \<longrightarrow>
       K * card (move_key ` S) \<le> n \<longrightarrow> Inl OutOfFuel \<notin> set (wrapper_generate w n d)"
    unfolding wrapper_generate_def by (blast dest: generate_enough_fuel_aux)
qed

text \<open>A generator that yields one removal twice, and an extender that removes the parent.\<close>

definition drop_move :: "token list \<Rightarrow> move" where
  "drop_move ts = \<lparr>mv_op = REMOVE, mv_operation = create_operation REMOVE (ref_from_parts ts) None,
     mv_current = ts, mv_target = None\<rparr>"

definition drop_wrapper :: wrapper where
  "drop_wrapper = \<lparr>w_generators = [\<lambda>d. [Inr (drop_move [TStr ''A'', TStr ''B'']), Inr (drop_move [TStr ''A'', TStr ''B''])]],
     w_non_extendable = [], w_extenders = [\<lambda>m d. [Inr (drop_move (butlast (mv_current m)))]], w_validators = []\<rparr>"

theorem wrapper_generate_correct_witness:
  "let g = wrapper_generate drop_wrapper 4 \<lparr>d_current = JNull, d_target = JNull\<rparr>
   in length g = 3 \<and> g ! 0 = Inr (drop_move [TStr ''A'', TStr ''B'']) \<and> g ! 1 = Inr (drop_move [TStr ''A'']) \<and>
      \<not> same_move (drop_move [TStr ''A'', TStr ''B'']) (drop_move [TStr ''A'']) \<and>
      offered drop_wrapper \<lparr>d_current = JNull, d_target = JNull\<rparr> (drop_move [TStr ''A'']) \<and>
      Inl OutOfFuel \<notin> set g"
proof -
  let ?d = "\<lparr>d_current = JNull, d_target = JNull\<rparr>"
  let ?w = drop_wrapper and ?g = "wrapper_generate drop_wrapper 4 \<lparr>d_current = JNull, d_target = JNull\<rparr>"
  have g: "?g = [Inr (drop_move [TStr ''A'', TStr ''B'']), Inr (drop_move [TStr ''A'']), Inr (drop_move [])]"
    by code_simp
  let ?S = "{drop_move [TStr ''A'', TStr ''B''], drop_move [TStr ''A''], drop_move []}"
  have s: "extensions_within ?w ?d ?S 1"
    by (simp add: extensions_within_def extend_moves_def drop_wrapper_def drop_move_def)
  have gm: "generate_moves ?w ?d = [Inr (drop_move [TStr ''A'', TStr ''B'']), Inr (drop_move [TStr ''A'', TStr ''B''])]"
      "generate_non_extendable_moves ?w ?d = []"
    by code_simp+
  have c: "1 * card (move_key ` ?S) \<le> 4"
    using card_image_le[of ?S move_key] card_length[of "[drop_move [TStr ''A'', TStr ''B''], drop_move [TStr ''A''], drop_move []]"]
    by simp
  note all = wrapper_generate_correct[of ?w 4 ?d]
  have "\<not> same_move (drop_move [TStr ''A'', TStr ''B'']) (drop_move [TStr ''A''])"
    using all[THEN conjunct2, THEN conjunct1, rule_format, of 0 1] g by simp
  moreover have "offered ?w ?d (drop_move [TStr ''A''])"
    using all[THEN conjunct1, rule_format, of "drop_move [TStr ''A'']"] g by simp
  moreover have "Inl OutOfFuel \<notin> set ?g"
    using all[THEN conjunct2, THEN conjunct2, THEN conjunct2, rule_format, of ?S 1] s gm c by simp
  ultimately show ?thesis using g by simp
qed

end
