(* ===== verification/ConfigWrapper.thy ===== *)
theory ConfigWrapper
  imports PathAddressing
begin

text \<open>
  \<open>ConfigWrapper\<close>, \<open>DryRunConfigWrapper\<close> and \<open>PatchWrapper\<close> of \<open>gu_common.py\<close>: reading the running
  configuration, translating it to and from YANG JSON, and the checks a configuration or a patch has to
  pass. What \<open>sonic_yang\<close> does is the parameter \<open>yang_lib\<close>; the running configuration is what the command
  \<open>show runningconfiguration all\<close> prints, read as a document. A check returns whether it
  passed; the accompanying error text is not kept.
\<close>

section \<open>Reading the running configuration\<close>

datatype command_result = Failed int | Printed json

definition pop_key :: "string \<Rightarrow> json \<Rightarrow> err + json" where
  "pop_key k v = (case v of JObj d \<Rightarrow> Inr (JObj (AList.delete k d)) | JArr _ \<Rightarrow> Inl TypeError | _ \<Rightarrow> Inl AttributeError)"

definition get_config_db_as_text :: "command_result \<Rightarrow> err + json" where
  "get_config_db_as_text r = (case r of Failed code \<Rightarrow> Inl GenericConfigUpdaterError | Printed doc \<Rightarrow> Inr doc)"

definition get_config_db_as_json :: "command_result \<Rightarrow> err + json" where
  "get_config_db_as_json r = rbind (get_config_db_as_text r) (pop_key ''bgpraw'')"

section \<open>Translation to and from YANG\<close>

definition crop_tables_without_yang :: "yang_lib \<Rightarrow> json \<Rightarrow> err + json" where
  "crop_tables_without_yang sy config = yl_crop sy config"

definition convert_config_db_to_sonic_yang :: "yang_lib \<Rightarrow> json \<Rightarrow> err + json" where
  "convert_config_db_to_sonic_yang sy config = rbind (crop_tables_without_yang sy config) (yl_xlate sy)"

text \<open>\<open>running\<close> stands for \<open>get_config_db_as_json()\<close> of the wrapper at hand, which a dry run overrides.\<close>

definition get_sonic_yang_as_json :: "yang_lib \<Rightarrow> err + json \<Rightarrow> err + json" where
  "get_sonic_yang_as_json sy running = rbind running (convert_config_db_to_sonic_yang sy)"

text \<open>A container \<open>module:table\<close> becomes \<open>table\<close>.\<close>

definition container_table :: "string \<Rightarrow> err + string" where
  "container_table container = (case split_on (CHR '':'') container of
      [t] \<Rightarrow> Inr container
    | [m, t] \<Rightarrow> Inr t
    | _ \<Rightarrow> Inl ValueError)"

definition strip_module :: "json \<Rightarrow> err + json" where
  "strip_module containers =
     rbind (py_iter containers) (\<lambda>cs.
     rbind (rfoldM (\<lambda>new c. rbind (as_str c) (\<lambda>container. rbind (container_table container) (\<lambda>table.
       rbind (py_key containers container) (\<lambda>v. Inr (AList.update table v new))))) [] cs) (\<lambda>new. Inr (JObj new)))"

definition strip_modules :: "json \<Rightarrow> err + json" where
  "strip_modules yang =
     rbind (py_iter yang) (\<lambda>ms.
     rbind (rfoldM (\<lambda>new m. rbind (as_str m) (\<lambda>module_top. rbind (py_key yang module_top) (\<lambda>containers.
       rbind (strip_module containers) (\<lambda>v. Inr (AList.update module_top v new))))) [] ms) (\<lambda>new. Inr (JObj new)))"

definition convert_sonic_yang_to_config_db :: "yang_lib \<Rightarrow> json \<Rightarrow> err + json" where
  "convert_sonic_yang_to_config_db sy yang = rbind (strip_modules yang) (yl_rev_xlate sy)"

section \<open>Validation\<close>

definition catch_yang :: "err + bool \<Rightarrow> err + bool" where
  "catch_yang r = (case r of Inl e \<Rightarrow> if e = SonicYangException then Inr False else Inl e | Inr b \<Rightarrow> Inr b)"

definition load_and_validate :: "yang_lib \<Rightarrow> json \<Rightarrow> err + unit" where
  "load_and_validate sy config = rbind (yl_load sy config) (yl_validate sy)"

definition validate_sonic_yang_config :: "yang_lib \<Rightarrow> json \<Rightarrow> err + bool" where
  "validate_sonic_yang_config sy yang =
     rbind (convert_sonic_yang_to_config_db sy yang) (\<lambda>config.
       catch_yang (rbind (load_and_validate sy config) (\<lambda>_. Inr True)))"

definition py_get_default :: "json \<Rightarrow> string \<Rightarrow> json \<Rightarrow> err + json" where
  "py_get_default v k dflt = rbind (py_get v k) (\<lambda>r. Inr (case r of None \<Rightarrow> dflt | Some w \<Rightarrow> w))"

text \<open>Membership tests and keys of a Python dictionary need a hashable value.\<close>

definition hashable :: "json \<Rightarrow> bool" where
  "hashable v \<longleftrightarrow> \<not> is_arr v \<and> \<not> is_obj v"

definition seen_before :: "json \<Rightarrow> json list \<Rightarrow> err + bool" where
  "seen_before v seen = (if hashable v then Inr (\<exists>x \<in> set seen. json_eq x v) else Inl TypeError)"

text \<open>\<open>validate_lanes\<close>: the lanes of each port, then uniqueness.\<close>

definition port_lanes :: "json \<Rightarrow> err + string list option" where
  "port_lanes attrs =
     rbind (py_contains attrs (TStr ''lanes'')) (\<lambda>b.
       if \<not> b then Inr None
       else rbind (rbind (py_key attrs ''lanes'') as_str) (\<lambda>s. Inr (Some (map py_strip (split_on (CHR '','') s)))))"

definition lane_ok :: "string \<Rightarrow> bool" where
  "lane_ok lane \<longleftrightarrow> lane \<noteq> [] \<and> py_isdigit lane"

text \<open>None when some lane is empty or no number.\<close>

fun collect_lanes :: "json \<Rightarrow> json list \<Rightarrow> err + (json \<times> string list) list option" where
  "collect_lanes ports [] = Inr (Some [])"
| "collect_lanes ports (port # rest) =
     rbind (rbind (as_str port) (py_key ports)) (\<lambda>attrs.
     rbind (port_lanes attrs) (\<lambda>lanes.
       case lanes of
         None \<Rightarrow> collect_lanes ports rest
       | Some ls \<Rightarrow>
           if list_all lane_ok ls
           then rbind (collect_lanes ports rest) (\<lambda>m. Inr (case m of None \<Rightarrow> None | Some m' \<Rightarrow> Some ((port, ls) # m')))
           else Inr None))"

fun lanes_unused :: "string list \<Rightarrow> string list \<Rightarrow> string list option" where
  "lanes_unused existing [] = Some existing"
| "lanes_unused existing (lane # ls) = (if lane \<in> set existing then None else lanes_unused (lane # existing) ls)"

fun lanes_unique :: "string list \<Rightarrow> (json \<times> string list) list \<Rightarrow> bool" where
  "lanes_unique existing [] = True"
| "lanes_unique existing (pl # rest) =
     (case lanes_unused existing (snd pl) of None \<Rightarrow> False | Some ex \<Rightarrow> lanes_unique ex rest)"

definition dup_lanes_platforms :: "string list" where
  "dup_lanes_platforms = [''x86_64-arista_7050cx3_32s'', ''x86_64-dellemc_s5232f_c3538-r0'']"

definition get_platform :: "json \<Rightarrow> err + json" where
  "get_platform config =
     rbind (py_get_default config ''DEVICE_METADATA'' (JObj [])) (\<lambda>metadata.
     rbind (py_get_default metadata ''localhost'' (JObj [])) (\<lambda>localhost.
       py_get_default localhost ''platform'' JNull))"

definition validate_lanes :: "json \<Rightarrow> err + bool" where
  "validate_lanes config =
     rbind (py_contains config (TStr ''PORT'')) (\<lambda>b. if \<not> b then Inr True else
     rbind (py_key config ''PORT'') (\<lambda>ports.
     rbind (py_iter ports) (\<lambda>names.
     rbind (collect_lanes ports names) (\<lambda>lanes_map.
       case lanes_map of None \<Rightarrow> Inr False
       | Some m \<Rightarrow> rbind (get_platform config) (\<lambda>platform.
           if \<exists>p \<in> set dup_lanes_platforms. json_eq (JStr p) platform then Inr True
           else Inr (lanes_unique [] m))))))"

text \<open>\<open>validate_bgp_peer_group\<close>: an address range in one group only.\<close>

fun visit_ips :: "json list \<Rightarrow> json list \<Rightarrow> err + json list option" where
  "visit_ips visited [] = Inr (Some visited)"
| "visit_ips visited (ip # ips) =
     rbind (seen_before ip visited) (\<lambda>b. if b then Inr None else visit_ips (ip # visited) ips)"

fun visit_groups :: "json \<Rightarrow> json list \<Rightarrow> json list \<Rightarrow> err + bool" where
  "visit_groups table visited [] = Inr True"
| "visit_groups table visited (name # names) =
     rbind (rbind (as_str name) (py_key table)) (\<lambda>peer_group.
     rbind (py_contains peer_group (TStr ''ip_range'')) (\<lambda>b.
       if \<not> b then visit_groups table visited names
       else rbind (rbind (py_key peer_group ''ip_range'') py_iter) (\<lambda>ips.
            rbind (visit_ips visited ips) (\<lambda>v. case v of None \<Rightarrow> Inr False | Some vis \<Rightarrow> visit_groups table vis names))))"

definition validate_bgp_peer_group :: "json \<Rightarrow> err + bool" where
  "validate_bgp_peer_group config =
     rbind (py_contains config (TStr ''BGP_PEER_RANGE'')) (\<lambda>b. if \<not> b then Inr True else
     rbind (py_key config ''BGP_PEER_RANGE'') (\<lambda>table. rbind (py_iter table) (visit_groups table [])))"

definition validate_config_db_config :: "yang_lib \<Rightarrow> json \<Rightarrow> err + bool" where
  "validate_config_db_config sy config =
     catch_yang (rbind (load_and_validate sy config) (\<lambda>_.
       rforall (\<lambda>validator. validator config) [validate_bgp_peer_group, validate_lanes]))"

text \<open>\<open>validate_field_operation\<close>: raises when the difference removes a protected field.\<close>

definition illegal_operations :: "(string \<times> string list) list" where
  "illegal_operations = [(''add'', []), (''replace'', []),
     (''remove'', [''/PFC_WD/GLOBAL/POLL_INTERVAL'', ''/PFC_WD/GLOBAL'', ''/LOOPBACK_INTERFACE/Loopback0''])]"

definition validate_field_operation :: "json_lib \<Rightarrow> json \<Rightarrow> json \<Rightarrow> err + unit" where
  "validate_field_operation lib old_config target_config =
     (let difference = jl_make lib old_config target_config
      in if \<exists>(operation, fields) \<in> set illegal_operations. \<exists>field \<in> set fields.
              \<exists>o1 \<in> set difference. op o1 = operation \<and> field = path o1
         then Inl IllegalPatchOperationError else Inr ())"

section \<open>Empty tables\<close>

definition get_empty_tables :: "json \<Rightarrow> err + string list" where
  "get_empty_tables config =
     rbind (py_keys config) (\<lambda>ks. rfoldM (\<lambda>acc k. rbind (py_key config k) (\<lambda>v.
       Inr (if py_truthy v then acc else acc @ [k]))) [] ks)"

definition remove_empty_tables :: "json \<Rightarrow> err + json" where
  "remove_empty_tables config =
     rbind (py_iter config) (\<lambda>ts.
     rbind (rfoldM (\<lambda>new t. rbind (as_str t) (\<lambda>table. rbind (py_key config table) (\<lambda>v.
       Inr (if py_truthy v then AList.update table v new else new)))) [] ts) (\<lambda>new. Inr (JObj new)))"

section \<open>Dry run\<close>

text \<open>The state is the imitated database; None until the first use, when the running configuration is read.\<close>

type_synonym dry_run = "json option"

definition init_imitated :: "command_result \<Rightarrow> dry_run \<Rightarrow> err + json" where
  "init_imitated r db = (case db of None \<Rightarrow> get_config_db_as_json r | Some c \<Rightarrow> Inr c)"

definition dry_apply_change :: "json_lib \<Rightarrow> command_result \<Rightarrow> patch \<Rightarrow> dry_run \<Rightarrow> err + dry_run" where
  "dry_apply_change lib r change db =
     rbind (init_imitated r db) (\<lambda>c. rbind (change_apply lib change c) (\<lambda>c'. Inr (Some c')))"

definition dry_get_config :: "command_result \<Rightarrow> dry_run \<Rightarrow> err + (json \<times> dry_run)" where
  "dry_get_config r db = rbind (init_imitated r db) (\<lambda>c. Inr (c, Some c))"

section \<open>PatchWrapper\<close>

definition touch_tables :: "json_lib \<Rightarrow> dict \<Rightarrow> operation \<Rightarrow> err + dict" where
  "touch_tables lib db o1 =
     rbind (get_path_tokens lib (path o1)) (\<lambda>tokens.
       case tokens of
         [] \<Rightarrow> (case op_value o1 of None \<Rightarrow> Inl KeyError
                 | Some v \<Rightarrow> rbind (py_iter v) (\<lambda>ts. rfoldM (\<lambda>db' t. rbind (as_str t) (\<lambda>n.
                                 Inr (AList.update n (JObj []) db'))) db ts))
       | t # _ \<Rightarrow> if t = [] then Inl ValueError else Inr (AList.update t (JObj []) db))"

definition touched_tables :: "json_lib \<Rightarrow> patch \<Rightarrow> err + dict" where
  "touched_tables lib p = rfoldM (touch_tables lib) [] p"

definition validate_patch_has_yang_models :: "json_lib \<Rightarrow> yang_lib \<Rightarrow> patch \<Rightarrow> err + bool" where
  "validate_patch_has_yang_models lib sy p =
     rbind (touched_tables lib p) (\<lambda>db.
     rbind (crop_tables_without_yang sy (JObj db)) (\<lambda>cropped.
     rbind (py_keys cropped) (\<lambda>ks. Inr (length ks = length db))))"

definition verify_same_json :: "json_lib \<Rightarrow> json \<Rightarrow> json \<Rightarrow> bool" where
  "verify_same_json lib expected actual \<longleftrightarrow> jl_make lib expected actual = []"

definition generate_patch :: "json_lib \<Rightarrow> json \<Rightarrow> json \<Rightarrow> patch" where
  "generate_patch lib current target = jl_make lib current target"

definition simulate_patch :: "json_lib \<Rightarrow> patch \<Rightarrow> json \<Rightarrow> err + json" where
  "simulate_patch lib p config = jl_apply lib p config"

definition convert_to_sonic_yang_patch :: "json_lib \<Rightarrow> yang_lib \<Rightarrow> err + json \<Rightarrow> patch \<Rightarrow> err + patch" where
  "convert_to_sonic_yang_patch lib sy running p =
     rbind (validate_patch_has_yang_models lib sy p) (\<lambda>b. if \<not> b then Inl ValueError else
     rbind running (\<lambda>current.
     rbind (simulate_patch lib p current) (\<lambda>target.
     rbind (convert_config_db_to_sonic_yang sy current) (\<lambda>current_yang.
     rbind (convert_config_db_to_sonic_yang sy target) (\<lambda>target_yang.
       Inr (generate_patch lib current_yang target_yang))))))"

definition convert_to_config_db_patch :: "json_lib \<Rightarrow> yang_lib \<Rightarrow> err + json \<Rightarrow> patch \<Rightarrow> err + patch" where
  "convert_to_config_db_patch lib sy running p =
     rbind (get_sonic_yang_as_json sy running) (\<lambda>current_yang.
     rbind (simulate_patch lib p current_yang) (\<lambda>target_yang.
     rbind (convert_sonic_yang_to_config_db sy current_yang) (\<lambda>current.
     rbind (convert_sonic_yang_to_config_db sy target_yang) (\<lambda>target.
       Inr (generate_patch lib current target)))))"

section \<open>Lemmas\<close>

lemma py_iter_JObj: "py_iter (JObj d) = Inr (map JStr (map fst d))"
  by simp

lemma rfoldM_map: "rfoldM f s (map g xs) = rfoldM (\<lambda>a x. f a (g x)) s xs"
  by (induction xs arbitrary: s) simp_all

lemma update_fresh: "k \<notin> fst ` set d \<Longrightarrow> AList.update k v d = d @ [(k, v)]"
  by (induction d) auto

lemma py_key_mem: "distinct (map fst d) \<Longrightarrow> p \<in> set d \<Longrightarrow> py_key (JObj d) (fst p) = Inr (snd p)"
  by (cases p) simp

lemma remove_empty_tables_aux:
  "set ps \<subseteq> set d \<Longrightarrow> distinct (map fst d) \<Longrightarrow> distinct (map fst (new @ ps)) \<Longrightarrow>
   rfoldM (\<lambda>new k. rbind (py_key (JObj d) k) (\<lambda>v. Inr (if py_truthy v then AList.update k v new else new))) new (map fst ps)
     = Inr (new @ filter (\<lambda>p. py_truthy (snd p)) ps)"
proof (induction ps arbitrary: new)
  case (Cons p ps)
  then have "py_key (JObj d) (fst p) = Inr (snd p)" by (intro py_key_mem) simp_all
  with Cons show ?case by (auto simp: update_fresh simp del: py_key_JObj)
qed simp

lemma remove_empty_tables_JObj:
  "distinct (map fst d) \<Longrightarrow> remove_empty_tables (JObj d) = Inr (JObj (filter (\<lambda>p. py_truthy (snd p)) d))"
  using remove_empty_tables_aux[of d d "[]"]
  by (simp add: remove_empty_tables_def rfoldM_map comp_def del: py_key_JObj)

lemma get_empty_tables_aux:
  "set ps \<subseteq> set d \<Longrightarrow> distinct (map fst d) \<Longrightarrow>
   rfoldM (\<lambda>acc k. rbind (py_key (JObj d) k) (\<lambda>v. Inr (if py_truthy v then acc else acc @ [k]))) acc (map fst ps)
     = Inr (acc @ map fst (filter (\<lambda>p. \<not> py_truthy (snd p)) ps))"
proof (induction ps arbitrary: acc)
  case (Cons p ps)
  then have "py_key (JObj d) (fst p) = Inr (snd p)" by (intro py_key_mem) simp_all
  with Cons show ?case by (auto simp del: py_key_JObj)
qed simp

lemma get_empty_tables_JObj:
  "distinct (map fst d) \<Longrightarrow> get_empty_tables (JObj d) = Inr (map fst (filter (\<lambda>p. \<not> py_truthy (snd p)) d))"
  using get_empty_tables_aux[of d d "[]"] by (simp add: get_empty_tables_def del: py_key_JObj)

text \<open>Removing the empty tables of a configuration leaves a configuration that has none, in which every
  other table has its old content, and which is again a well-formed document.\<close>

theorem remove_empty_tables_correct:
  assumes "wf_json (JObj d)"
  shows "\<exists>e. remove_empty_tables (JObj d) = Inr (JObj e) \<and> get_empty_tables (JObj e) = Inr [] \<and> wf_json (JObj e) \<and>
    (\<forall>t. map_of e t = (case map_of d t of Some v \<Rightarrow> if py_truthy v then Some v else None | None \<Rightarrow> None))"
proof -
  let ?e = "filter (\<lambda>p. py_truthy (snd p)) d"
  have dd: "distinct (map fst d)" using assms by simp
  then have de: "distinct (map fst ?e)" by (simp add: distinct_map_filter)
  have "map_of ?e t = (case map_of d t of Some v \<Rightarrow> if py_truthy v then Some v else None | None \<Rightarrow> None)" for t
    by (rule map_of_filter_snd[OF dd])
  moreover have "wf_json (JObj ?e)" using assms de by auto
  ultimately show ?thesis
    using dd de by (simp add: remove_empty_tables_JObj get_empty_tables_JObj filter_empty_conv)
qed

theorem remove_empty_tables_correct_witness:
  "\<exists>e. remove_empty_tables (JObj [(''PORT'', JObj []), (''VLAN'', JObj [(''Vlan1'', JObj [])])]) = Inr (JObj e) \<and>
    map_of e ''PORT'' = None \<and> map_of e ''VLAN'' = Some (JObj [(''Vlan1'', JObj [])])"
  using remove_empty_tables_correct[of "[(''PORT'', JObj []), (''VLAN'', JObj [(''Vlan1'', JObj [])])]"]
  by auto

text \<open>The lanes of a port, and ports as the schema has them.\<close>

definition lanes_of :: "json \<Rightarrow> string list" where
  "lanes_of v = (case v of JObj a \<Rightarrow>
       (case map_of a ''lanes'' of Some (JStr s) \<Rightarrow> map py_strip (split_on (CHR '','') s) | _ \<Rightarrow> []) | _ \<Rightarrow> [])"

definition port_ok :: "json \<Rightarrow> bool" where
  "port_ok v \<longleftrightarrow> (\<exists>a. v = JObj a \<and> (\<forall>l. map_of a ''lanes'' = Some l \<longrightarrow> is_str l))"

lemma port_lanes_ok: "port_ok v \<Longrightarrow> port_lanes v = Inr None \<and> lanes_of v = [] \<or> port_lanes v = Inr (Some (lanes_of v))"
proof -
  assume "port_ok v"
  then obtain a where "v = JObj a" "\<forall>l. map_of a ''lanes'' = Some l \<longrightarrow> is_str l" by (auto simp: port_ok_def)
  then show ?thesis
    by (cases "map_of a ''lanes''"; cases "the (map_of a ''lanes'')") (auto simp: port_lanes_def lanes_of_def)
qed

lemma collect_lanes_spec:
  assumes "distinct (map fst ports)"
  shows "set ps \<subseteq> set ports \<Longrightarrow> \<forall>p \<in> set ps. port_ok (snd p) \<Longrightarrow>
    \<exists>m. collect_lanes (JObj ports) (map JStr (map fst ps)) =
        Inr (if \<forall>p \<in> set ps. list_all lane_ok (lanes_of (snd p)) then Some m else None) \<and>
      concat (map snd m) = concat (map (lanes_of \<circ> snd) ps)"
proof (induction ps)
  case (Cons p ps)
  have "set ps \<subseteq> set ports" "\<forall>p \<in> set ps. port_ok (snd p)" using Cons.prems by simp_all
  from Cons.IH[OF this] obtain m where m: "collect_lanes (JObj ports) (map JStr (map fst ps)) =
        Inr (if \<forall>p \<in> set ps. list_all lane_ok (lanes_of (snd p)) then Some m else None)"
      "concat (map snd m) = concat (map (lanes_of \<circ> snd) ps)"
    by (elim exE conjE)
  have k: "py_key (JObj ports) (fst p) = Inr (snd p)"
    using Cons assms by (intro py_key_mem) simp_all
  have "port_ok (snd p)" using Cons by simp
  from port_lanes_ok[OF this] show ?case
  proof
    assume "port_lanes (snd p) = Inr None \<and> lanes_of (snd p) = []"
    with m k show ?thesis by (intro exI[of _ m]) (simp add: comp_def del: py_key_JObj)
  next
    assume "port_lanes (snd p) = Inr (Some (lanes_of (snd p)))"
    with m k show ?thesis
      by (intro exI[of _ "(JStr (fst p), lanes_of (snd p)) # m"]) (simp add: comp_def del: py_key_JObj)
  qed
qed simp

lemma lanes_unused_spec:
  "lanes_unused ex ls = (if distinct ls \<and> set ls \<inter> set ex = {} then Some (rev ls @ ex) else None)"
  by (induction ex ls rule: lanes_unused.induct) auto

lemma lanes_unique_spec:
  "lanes_unique ex m \<longleftrightarrow> distinct (concat (map snd m)) \<and> set (concat (map snd m)) \<inter> set ex = {}"
  by (induction ex m rule: lanes_unique.induct) (auto simp: lanes_unused_spec split: if_splits)

text \<open>\<open>validate_lanes\<close> accepts a port table exactly when every lane is a non-empty number and, unless the platform
  may repeat lanes, no lane is used twice, within one port or in two.\<close>

theorem validate_lanes_spec:
  assumes "map_of d ''PORT'' = Some (JObj ports)" and "distinct (map fst ports)"
    and "\<forall>p \<in> set ports. port_ok (snd p)" and "get_platform (JObj d) = Inr platform"
  shows "validate_lanes (JObj d) = Inr ((\<forall>p \<in> set ports. list_all lane_ok (lanes_of (snd p))) \<and>
    ((\<exists>p \<in> set dup_lanes_platforms. json_eq (JStr p) platform) \<or> distinct (concat (map (lanes_of \<circ> snd) ports))))"
proof -
  obtain m where "collect_lanes (JObj ports) (map JStr (map fst ports)) =
        Inr (if \<forall>p \<in> set ports. list_all lane_ok (lanes_of (snd p)) then Some m else None)"
      "concat (map snd m) = concat (map (lanes_of \<circ> snd) ports)"
    using collect_lanes_spec[OF assms(2), of ports] assms(3) by auto
  then show ?thesis
    using assms by (simp add: validate_lanes_def lanes_unique_spec)
qed

theorem validate_lanes_spec_witness:
  "validate_lanes (JObj [(''PORT'', JObj [(''Ethernet0'', JObj [(''lanes'', JStr ''1, 2'')]),
      (''Ethernet4'', JObj [(''lanes'', JStr ''2'')])])]) = Inr False"
proof -
  let ?ports = "[(''Ethernet0'', JObj [(''lanes'', JStr ''1, 2'')]), (''Ethernet4'', JObj [(''lanes'', JStr ''2'')])]"
  have "validate_lanes (JObj [(''PORT'', JObj ?ports)]) = Inr ((\<forall>p \<in> set ?ports. list_all lane_ok (lanes_of (snd p))) \<and>
    ((\<exists>p \<in> set dup_lanes_platforms. json_eq (JStr p) JNull) \<or> distinct (concat (map (lanes_of \<circ> snd) ?ports))))"
    by (rule validate_lanes_spec) (simp_all add: port_ok_def get_platform_def py_get_default_def)
  then show ?thesis by (simp add: lanes_of_def py_strip_def py_space_def)
qed

section \<open>Peer groups\<close>

definition group_ips :: "json \<Rightarrow> string list" where
  "group_ips v = (case v of JObj a \<Rightarrow> (case map_of a ''ip_range'' of
       Some (JArr xs) \<Rightarrow> map (\<lambda>x. case x of JStr s \<Rightarrow> s | _ \<Rightarrow> []) xs | _ \<Rightarrow> []) | _ \<Rightarrow> [])"

definition group_ok :: "json \<Rightarrow> bool" where
  "group_ok v \<longleftrightarrow> (\<exists>a. v = JObj a \<and> (\<forall>r. map_of a ''ip_range'' = Some r \<longrightarrow> (\<exists>ss. r = JArr (map JStr ss))))"

lemma group_ok_ips: "group_ok (JObj [(''ip_range'', JArr (map JStr ss))])"
  by (auto simp: group_ok_def)

lemma visit_ips_spec:
  "visit_ips (map JStr vis) (map JStr ips) =
     Inr (if distinct ips \<and> set ips \<inter> set vis = {} then Some (map JStr (rev ips @ vis)) else None)"
proof (induction ips arbitrary: vis)
  case (Cons ip ips)
  show ?case
  proof (cases "ip \<in> set vis")
    case True
    then show ?thesis by (auto simp: seen_before_def hashable_def)
  next
    case False
    then show ?thesis using Cons[of "ip # vis"] by (auto simp: seen_before_def hashable_def)
  qed
qed simp

lemma group_ips_cases:
  assumes "group_ok v"
  obtains "py_contains v (TStr ''ip_range'') = Inr False" "group_ips v = []"
  | "py_contains v (TStr ''ip_range'') = Inr True" "rbind (py_key v ''ip_range'') py_iter = Inr (map JStr (group_ips v))"
proof -
  obtain a where a: "v = JObj a" "\<forall>r. map_of a ''ip_range'' = Some r \<longrightarrow> (\<exists>ss. r = JArr (map JStr ss))"
    using assms by (auto simp: group_ok_def)
  show thesis
  proof (cases "map_of a ''ip_range''")
    case None
    with a that(1) show ?thesis by (simp add: group_ips_def)
  next
    case (Some r)
    with a obtain ss where "r = JArr (map JStr ss)" by blast
    with Some a that(2) show ?thesis by (simp add: group_ips_def comp_def)
  qed
qed

lemma visit_groups_spec:
  assumes "distinct (map fst table)"
  shows "set ps \<subseteq> set table \<Longrightarrow> \<forall>p \<in> set ps. group_ok (snd p) \<Longrightarrow>
    visit_groups (JObj table) (map JStr vis) (map JStr (map fst ps)) =
      Inr (distinct (concat (map (group_ips \<circ> snd) ps)) \<and> set (concat (map (group_ips \<circ> snd) ps)) \<inter> set vis = {})"
proof (induction ps arbitrary: vis)
  case (Cons p ps)
  have k: "py_key (JObj table) (fst p) = Inr (snd p)"
    using Cons assms by (intro py_key_mem) simp_all
  have "group_ok (snd p)" using Cons by simp
  then show ?case
  proof (cases rule: group_ips_cases)
    case 1
    with Cons k show ?thesis by (simp del: py_key_JObj)
  next
    case 2
    have "visit_groups (JObj table) (map JStr (rev (group_ips (snd p)) @ vis)) (map JStr (map fst ps)) =
      Inr (distinct (concat (map (group_ips \<circ> snd) ps)) \<and>
        set (concat (map (group_ips \<circ> snd) ps)) \<inter> set (rev (group_ips (snd p)) @ vis) = {})"
      using Cons.prems by (intro Cons.IH) simp_all
    with 2 k show ?thesis
      by (auto simp: visit_ips_spec rbind_assoc[symmetric] comp_def simp del: py_key_JObj)
  qed
qed simp

text \<open>\<open>validate_bgp_peer_group\<close> accepts a table exactly when no address range occurs twice, in one peer group or in
  two.\<close>

theorem validate_bgp_peer_group_spec:
  assumes "map_of d ''BGP_PEER_RANGE'' = Some (JObj table)" and "distinct (map fst table)"
    and "\<forall>p \<in> set table. group_ok (snd p)"
  shows "validate_bgp_peer_group (JObj d) = Inr (distinct (concat (map (group_ips \<circ> snd) table)))"
  using assms visit_groups_spec[OF assms(2), of table "[]"]
  by (simp add: validate_bgp_peer_group_def)

theorem validate_bgp_peer_group_spec_witness:
  "validate_bgp_peer_group (JObj [(''BGP_PEER_RANGE'', JObj
      [(''A'', JObj [(''ip_range'', JArr [JStr ''10.0.0.0/24''])]), (''B'', JObj [(''ip_range'', JArr [JStr ''10.0.0.0/24''])])])]) = Inr False"
proof -
  let ?t = "[(''A'', JObj [(''ip_range'', JArr (map JStr [''10.0.0.0/24'']))]), (''B'', JObj [(''ip_range'', JArr (map JStr [''10.0.0.0/24'']))])]"
  have "validate_bgp_peer_group (JObj [(''BGP_PEER_RANGE'', JObj ?t)]) = Inr (distinct (concat (map (group_ips \<circ> snd) ?t)))"
    by (rule validate_bgp_peer_group_spec) (simp, simp, simp add: group_ok_ips del: list.map)
  then show ?thesis by (simp add: group_ips_def)
qed

section \<open>Patches and YANG models\<close>

text \<open>\<open>sonic_yang\<close> drops exactly the tables it has no model for.\<close>

definition crop_ok :: "yang_lib \<Rightarrow> (string \<Rightarrow> bool) \<Rightarrow> bool" where
  "crop_ok sy has_model \<longleftrightarrow> (\<forall>d. yl_crop sy (JObj d) = Inr (JObj (filter (\<lambda>p. has_model (fst p)) d)))"

definition first_token :: "json_lib \<Rightarrow> operation \<Rightarrow> string" where
  "first_token lib o1 = (case get_path_tokens lib (path o1) of Inr (t # _) \<Rightarrow> t | _ \<Rightarrow> [])"

lemma touch_tables_first:
  "get_path_tokens lib (path o1) = Inr (t # ts) \<Longrightarrow> t \<noteq> [] \<Longrightarrow>
     touch_tables lib db o1 = Inr (AList.update t (JObj []) db) \<and> first_token lib o1 = t"
  by (simp add: touch_tables_def first_token_def)

lemma keys_update: "fst ` set (AList.update t v db) = insert t (fst ` set db)"
  using dom_update[of t v db] by (simp only: dom_map_of_conv_image_fst insert_is_Un[symmetric])

lemma touched_tables_keys:
  "\<forall>o1 \<in> set p. \<exists>t ts. get_path_tokens lib (path o1) = Inr (t # ts) \<and> t \<noteq> [] \<Longrightarrow>
   \<exists>db'. rfoldM (touch_tables lib) db p = Inr db' \<and> fst ` set db' = fst ` set db \<union> first_token lib ` set p"
proof (induction p arbitrary: db)
  case (Cons o1 p)
  from Cons.prems obtain t ts where "get_path_tokens lib (path o1) = Inr (t # ts)" "t \<noteq> []" by auto
  note t = touch_tables_first[OF this, of db]
  have "\<forall>o1 \<in> set p. \<exists>t ts. get_path_tokens lib (path o1) = Inr (t # ts) \<and> t \<noteq> []" using Cons.prems by simp
  from Cons.IH[OF this, of "AList.update t (JObj []) db"] t show ?case by (auto simp: keys_update)
qed simp

text \<open>A patch none of whose operations addresses the whole configuration passes
  \<open>validate_config_db_patch_has_yang_models\<close> exactly when every table it touches has a YANG model.\<close>

theorem patch_has_yang_models_spec:
  assumes "crop_ok sy has_model"
    and "\<forall>o1 \<in> set p. \<exists>t ts. get_path_tokens lib (path o1) = Inr (t # ts) \<and> t \<noteq> []"
  shows "validate_patch_has_yang_models lib sy p =
    Inr (\<forall>o1 \<in> set p. \<forall>t ts. get_path_tokens lib (path o1) = Inr (t # ts) \<longrightarrow> has_model t)"
proof -
  obtain db where db: "touched_tables lib p = Inr db"
      "fst ` set db = first_token lib ` set p"
    using touched_tables_keys[OF assms(2), of "[]"] unfolding touched_tables_def by auto
  have "length (filter (\<lambda>q. has_model (fst q)) db) = length db \<longleftrightarrow> (\<forall>t \<in> fst ` set db. has_model t)"
    using length_filter_less[of _ db "\<lambda>q. has_model (fst q)"] by (fastforce simp: filter_id_conv)
  also have "\<dots> \<longleftrightarrow> (\<forall>o1 \<in> set p. \<forall>t ts. get_path_tokens lib (path o1) = Inr (t # ts) \<longrightarrow> has_model t)"
    unfolding db(2) using assms(2) by (fastforce simp: first_token_def)
  finally show ?thesis
    using db(1) assms(1) by (simp add: validate_patch_has_yang_models_def crop_tables_without_yang_def crop_ok_def)
qed

theorem patch_has_yang_models_spec_witness:
  "validate_patch_has_yang_models ref_lib (port_yang\<lparr>yl_crop := \<lambda>v. case v of
        JObj d \<Rightarrow> Inr (JObj (filter (\<lambda>p. fst p = ''PORT'') d)) | _ \<Rightarrow> Inl TypeError\<rparr>)
     [create_operation REMOVE ''/FEATURE/bgp'' None] = Inr False"
proof -
  let ?sy = "port_yang\<lparr>yl_crop := \<lambda>v. case v of
        JObj d \<Rightarrow> Inr (JObj (filter (\<lambda>p. fst p = ''PORT'') d)) | _ \<Rightarrow> Inl TypeError\<rparr>"
  let ?p = "[create_operation REMOVE ''/FEATURE/bgp'' None]"
  have t: "get_path_tokens ref_lib ''/FEATURE/bgp'' = Inr [''FEATURE'', ''bgp'']"
    by (simp add: get_path_tokens_def ref_lib_def ref_parts_def)
  have "validate_patch_has_yang_models ref_lib ?sy ?p = Inr (\<forall>o1 \<in> set ?p. \<forall>t ts.
      get_path_tokens ref_lib (path o1) = Inr (t # ts) \<longrightarrow> t = ''PORT'')"
    by (rule patch_has_yang_models_spec) (simp_all add: crop_ok_def create_operation_def t)
  then show ?thesis by (simp add: create_operation_def t)
qed

end
