(* ===== verification/MoveValidators.thy ===== *)
theory MoveValidators
  imports MoveFilters MoveWrapper ConfigWrapper
begin

text \<open>
  The seven move validators of \<open>patch_sorter.py\<close>, in the order of the file. A validator maps a move and a
  diff to a truth value or raises; \<open>move.path\<close> is the path of the JsonPatch operation.
\<close>

definition move_path :: "move \<Rightarrow> string" where
  "move_path m = path (mv_operation m)"

section \<open>RemoveCreateOnlyDependencyMoveValidator\<close>

definition get_create_only_field :: "json \<Rightarrow> string \<Rightarrow> string \<Rightarrow> string \<Rightarrow> err + json" where
  "get_create_only_field config table member field =
     rbind (py_key config table) (\<lambda>members. rbind (py_key members member) (\<lambda>attrs.
     rbind (py_get attrs field) (\<lambda>v. Inr (opt_json v))))"

text \<open>The paths are f-strings: the names are not escaped.\<close>

definition member_path_str :: "string \<Rightarrow> string \<Rightarrow> string" where
  "member_path_str table member = ''/'' @ table @ ''/'' @ member"

definition admin_change_blocked :: "json_lib \<Rightarrow> string \<Rightarrow> string \<Rightarrow> json \<Rightarrow> json \<Rightarrow> err + bool" where
  "admin_change_blocked lib table member current simulated =
     (if table \<noteq> ''PORT'' then Inr False
      else rbind (get_from_path lib current (member_path_str table member @ ''/admin_status'')) (\<lambda>c.
           rbind (get_from_path lib simulated (member_path_str table member @ ''/admin_status'')) (\<lambda>s.
             Inr (\<not> json_eq c s \<and> \<not> json_eq c (JStr ''up'')))))"

definition rcod_validate_member :: "json_lib \<Rightarrow> yang_lib \<Rightarrow> string list \<Rightarrow> string \<Rightarrow> json \<Rightarrow> json \<Rightarrow> json \<Rightarrow> err + bool" where
  "rcod_validate_member lib sy tokens member current target simulated =
     (let table = hd tokens; field = last tokens in
      rbind (get_create_only_field current table member field) (\<lambda>current_field.
      rbind (get_create_only_field target table member field) (\<lambda>target_field.
      if json_eq current_field target_field then Inr True else
      rbind (get_from_path lib simulated (member_path_str table member)) (\<lambda>simulated_member.
      if simulated_member = JNull then Inr True else
      rbind (admin_change_blocked lib table member current simulated) (\<lambda>blocked.
      if blocked then Inr False else
      rbind (find_ref_paths lib sy (member_path_str table member) simulated) (\<lambda>refs.
        rforall (has_path lib current) refs))))))"

definition rcod_validate_members :: "json_lib \<Rightarrow> yang_lib \<Rightarrow> string list \<Rightarrow> json \<Rightarrow> json \<Rightarrow> json \<Rightarrow> json \<Rightarrow> json \<Rightarrow> err + bool" where
  "rcod_validate_members lib sy tokens current target simulated current_members target_members =
     rbind (py_iter current_members) (\<lambda>names. rforall (\<lambda>name.
       rbind (as_str name) (\<lambda>member.
       rbind (py_contains target_members (TStr member)) (\<lambda>b.
         if \<not> b then Inr True else rcod_validate_member lib sy tokens member current target simulated))) names)"

text \<open>One table: None of the early \<open>continue\<close>s is an error.\<close>

definition rcod_validate_table :: "json_lib \<Rightarrow> yang_lib \<Rightarrow> move \<Rightarrow> diff \<Rightarrow> string list \<Rightarrow> string \<Rightarrow> err + bool" where
  "rcod_validate_table lib sy m d tokens table =
     rbind (py_contains (d_current d) (TStr table)) (\<lambda>in_current.
     if \<not> in_current then Inr True else
     rbind (py_key (d_current d) table) (\<lambda>current_members.
     if \<not> py_truthy current_members then Inr True else
     rbind (py_contains (d_target d) (TStr table)) (\<lambda>in_target.
     if \<not> in_target then Inr True else
     rbind (py_key (d_target d) table) (\<lambda>target_members.
     if \<not> py_truthy target_members then Inr True else
     rbind (move_apply lib m (d_current d)) (\<lambda>simulated.
       rcod_validate_members lib sy tokens (d_current d) (d_target d) simulated current_members target_members)))))"

fun rcod_loop :: "json_lib \<Rightarrow> yang_lib \<Rightarrow> move \<Rightarrow> diff \<Rightarrow> string list \<Rightarrow> (err, string) gen \<Rightarrow> err + bool" where
  "rcod_loop lib sy m d processed_tables [] = Inr True"
| "rcod_loop lib sy m d processed_tables (Inl e # g) = Inl e"
| "rcod_loop lib sy m d processed_tables (Inr p # g) =
     rbind (get_path_tokens lib p) (\<lambda>tokens.
     rbind (nth_res tokens 0) (\<lambda>table.
       if table \<in> set processed_tables then rcod_loop lib sy m d processed_tables g
       else rbind (rcod_validate_table lib sy m d tokens table) (\<lambda>b.
         if b then rcod_loop lib sy m d (table # processed_tables) g else Inr False)))"

definition remove_create_only_dependency_validate :: "json_lib \<Rightarrow> yang_lib \<Rightarrow> move \<Rightarrow> diff \<Rightarrow> err + bool" where
  "remove_create_only_dependency_validate lib sy m d = rcod_loop lib sy m d [] (create_only_paths lib (d_current d))"

section \<open>DeleteWholeConfigMoveValidator and FullConfigMoveValidator\<close>

definition delete_whole_config_validate :: "move \<Rightarrow> diff \<Rightarrow> err + bool" where
  "delete_whole_config_validate m d = Inr (\<not> (mv_op m = REMOVE \<and> move_path m = []))"

definition full_config_validate :: "json_lib \<Rightarrow> yang_lib \<Rightarrow> move \<Rightarrow> diff \<Rightarrow> err + bool" where
  "full_config_validate lib sy m d =
     rbind (move_apply lib m (d_current d)) (\<lambda>simulated. validate_config_db_config sy simulated)"

section \<open>CreateOnlyMoveValidator\<close>

definition exist_only_in_first :: "json_lib \<Rightarrow> string list \<Rightarrow> json \<Rightarrow> json \<Rightarrow> err + bool" where
  "exist_only_in_first lib tokens first second =
     (let p = create_path lib (map TStr tokens) in
      rbind (has_path lib first p) (\<lambda>a. if \<not> a then Inr False else
      rbind (has_path lib second p) (\<lambda>b. Inr (\<not> b))))"

fun value_exist_but_different :: "string list \<Rightarrow> json \<Rightarrow> json \<Rightarrow> err + bool" where
  "value_exist_but_different [] current simulated = Inr (\<not> json_eq current simulated)"
| "value_exist_but_different (t # ts) current simulated =
     rbind (if is_arr current then rbind (py_int t) (\<lambda>i. Inr (TIdx i)) else Inr (TStr t)) (\<lambda>mod_token.
     rbind (py_contains current mod_token) (\<lambda>a. if \<not> a then Inr False else
     rbind (py_contains simulated mod_token) (\<lambda>b. if \<not> b then Inr False else
     rbind (py_getitem current mod_token) (\<lambda>c. rbind (py_getitem simulated mod_token) (\<lambda>s.
       value_exist_but_different ts c s)))))"

definition value_added_but_parent_exist :: "json_lib \<Rightarrow> string list \<Rightarrow> json \<Rightarrow> json \<Rightarrow> err + bool" where
  "value_added_but_parent_exist lib tokens current simulated =
     rbind (exist_only_in_first lib tokens simulated current) (\<lambda>added. if \<not> added then Inr False else
     rbind (exist_only_in_first lib (butlast tokens) simulated current) (\<lambda>parent. Inr (\<not> parent)))"

definition value_removed_but_parent_remain :: "json_lib \<Rightarrow> string list \<Rightarrow> json \<Rightarrow> json \<Rightarrow> err + bool" where
  "value_removed_but_parent_remain lib tokens current simulated =
     rbind (exist_only_in_first lib tokens current simulated) (\<lambda>removed. if \<not> removed then Inr False else
     rbind (exist_only_in_first lib (butlast tokens) current simulated) (\<lambda>parent. Inr (\<not> parent)))"

definition parent_added_child_not_as_target :: "json_lib \<Rightarrow> string list \<Rightarrow> json \<Rightarrow> json \<Rightarrow> json \<Rightarrow> err + bool" where
  "parent_added_child_not_as_target lib tokens current simulated target =
     rbind (exist_only_in_first lib (butlast tokens) simulated current) (\<lambda>added. if \<not> added then Inr False else
     (let child = create_path lib (map TStr tokens) in
      rbind (has_path lib target child) (\<lambda>in_target.
      rbind (has_path lib simulated child) (\<lambda>in_simulated.
        Inr (if in_target then \<not> in_simulated else in_simulated)))))"

definition create_only_path_ok :: "json_lib \<Rightarrow> json \<Rightarrow> json \<Rightarrow> json \<Rightarrow> string \<Rightarrow> err + bool" where
  "create_only_path_ok lib current simulated target p =
     rbind (get_path_tokens lib p) (\<lambda>tokens.
     rbind (value_exist_but_different tokens current simulated) (\<lambda>b1. if b1 then Inr False else
     rbind (value_added_but_parent_exist lib tokens current simulated) (\<lambda>b2. if b2 then Inr False else
     rbind (value_removed_but_parent_remain lib tokens current simulated) (\<lambda>b3. if b3 then Inr False else
     rbind (parent_added_child_not_as_target lib tokens current simulated target) (\<lambda>b4. Inr (\<not> b4))))))"

text \<open>The set of paths is visited in some order; here, that of first occurrence.\<close>

definition create_only_validate :: "json_lib \<Rightarrow> move \<Rightarrow> diff \<Rightarrow> err + bool" where
  "create_only_validate lib m d =
     rbind (move_apply lib m (d_current d)) (\<lambda>simulated.
     rbind (gen_collect (create_only_paths lib (d_current d))) (\<lambda>ps1.
     rbind (gen_collect (create_only_paths lib simulated)) (\<lambda>ps2.
     rbind (gen_collect (create_only_paths lib (d_target d))) (\<lambda>ps3.
       rforall (create_only_path_ok lib (d_current d) simulated (d_target d)) (remdups (ps1 @ ps2 @ ps3))))))"

section \<open>NoDependencyMoveValidator\<close>

text \<open>\<open>set(values)\<close> and \<open>value not in set\<close>: all values must be hashable.\<close>

definition hash_set :: "json list \<Rightarrow> err + json list" where
  "hash_set vs = (if \<forall>v \<in> set vs. hashable v then Inr vs else Inl TypeError)"

definition not_in_set :: "json list \<Rightarrow> json \<Rightarrow> err + bool" where
  "not_in_set vs v = rbind (seen_before v vs) (\<lambda>b. Inr (\<not> b))"

fun missing_items :: "json_lib \<Rightarrow> json list \<Rightarrow> token list \<Rightarrow> nat \<Rightarrow> json list \<Rightarrow> err + string list" where
  "missing_items lib others tokens i [] = Inr []"
| "missing_items lib others tokens i (v # vs) =
     rbind (not_in_set others v) (\<lambda>b. rbind (missing_items lib others tokens (i + 1) vs) (\<lambda>ps.
       Inr (if b then create_path lib (tokens @ [TIdx (int i)]) # ps else ps)))"

definition get_list_paths :: "json_lib \<Rightarrow> json \<Rightarrow> json \<Rightarrow> token list \<Rightarrow> err + (string list \<times> string list)" where
  "get_list_paths lib current_list target_list tokens =
     rbind (rbind (py_iter target_list) hash_set) (\<lambda>hashed_target.
     rbind (py_iter current_list) (\<lambda>current_items.
     rbind (missing_items lib hashed_target tokens 0 current_items) (\<lambda>deleted.
     rbind (hash_set current_items) (\<lambda>hashed_current.
     rbind (missing_items lib hashed_current tokens 0 hashed_target) (\<lambda>added. Inr (deleted, added))))))"

fun json_token :: "json \<Rightarrow> err + token" where
  "json_token (JStr s) = Inr (TStr s)"
| "json_token (JInt i) = Inr (TIdx i)"
| "json_token _ = Inl TypeError"

fun added_keys :: "json_lib \<Rightarrow> dict \<Rightarrow> token list \<Rightarrow> json list \<Rightarrow> err + string list" where
  "added_keys lib current tokens [] = Inr []"
| "added_keys lib current tokens (k # ks) =
     rbind (json_token k) (\<lambda>t. rbind (py_contains (JObj current) t) (\<lambda>b. rbind (added_keys lib current tokens ks) (\<lambda>ps.
       Inr (if b then ps else create_path lib (tokens @ [t]) # ps))))"

fun diff_paths :: "json_lib \<Rightarrow> json \<Rightarrow> json \<Rightarrow> token list \<Rightarrow> err + (string list \<times> string list)" where
  "diff_paths lib (JObj d) target tokens =
     (if is_arr target then get_list_paths lib (JObj d) target tokens
      else rbind (rmapM (\<lambda>p.
             rbind (py_contains target (TStr (fst p))) (\<lambda>b.
               if \<not> b then Inr ([create_path lib (tokens @ [TStr (fst p)])], [])
               else rbind (py_getitem target (TStr (fst p))) (\<lambda>t.
                    diff_paths lib (snd p) t (tokens @ [TStr (fst p)])))) d) (\<lambda>rs.
           rbind (py_iter target) (\<lambda>ks. rbind (added_keys lib d tokens ks) (\<lambda>added.
             Inr (concat (map fst rs), concat (map snd rs) @ added)))))"
| "diff_paths lib current target tokens =
     (if is_arr current \<or> is_arr target then get_list_paths lib current target tokens
      else if \<not> json_eq current target then Inr ([create_path lib tokens], [create_path lib tokens])
      else Inr ([], []))"

definition find_ref_paths_of :: "json_lib \<Rightarrow> yang_lib \<Rightarrow> string list \<Rightarrow> json \<Rightarrow> err + string list" where
  "find_ref_paths_of lib sy paths config =
     rbind (rmapM (\<lambda>p. find_ref_paths lib sy p config) paths) (\<lambda>rss. Inr (concat rss))"

definition validate_paths_config :: "json_lib \<Rightarrow> yang_lib \<Rightarrow> string list \<Rightarrow> json \<Rightarrow> err + bool" where
  "validate_paths_config lib sy paths config =
     rbind (find_ref_paths_of lib sy paths config) (\<lambda>refs.
       Inr (\<forall>r \<in> set refs. \<forall>p \<in> set paths. \<not> starts_with p r))"

definition validate_replace :: "json_lib \<Rightarrow> yang_lib \<Rightarrow> move \<Rightarrow> diff \<Rightarrow> err + bool" where
  "validate_replace lib sy m d =
     rbind (move_apply lib m (d_current d)) (\<lambda>simulated.
     rbind (diff_paths lib (d_current d) simulated []) (\<lambda>(deleted, added).
     rbind (validate_paths_config lib sy deleted (d_current d)) (\<lambda>b.
       if b then validate_paths_config lib sy added simulated else Inr False)))"

definition no_dependency_validate :: "json_lib \<Rightarrow> yang_lib \<Rightarrow> move \<Rightarrow> diff \<Rightarrow> err + bool" where
  "no_dependency_validate lib sy m d =
     (case mv_op m of
        ADD \<Rightarrow> rbind (move_apply lib m (d_current d)) (validate_paths_config lib sy [move_path m])
      | REMOVE \<Rightarrow> validate_paths_config lib sy [move_path m] (d_current d)
      | REPLACE \<Rightarrow> validate_replace lib sy m d)"

section \<open>NoEmptyTableMoveValidator\<close>

definition validate_table :: "string \<Rightarrow> json \<Rightarrow> err + bool" where
  "validate_table table config =
     rbind (py_contains config (TStr table)) (\<lambda>b. if \<not> b then Inr True else
     rbind (py_key config table) (\<lambda>v. Inr (py_truthy v)))"

definition no_empty_table_validate :: "json_lib \<Rightarrow> move \<Rightarrow> diff \<Rightarrow> err + bool" where
  "no_empty_table_validate lib m d =
     rbind (move_apply lib m (d_current d)) (\<lambda>simulated.
     rbind (if move_path m = [] then py_keys simulated
            else rbind (get_path_tokens lib (move_path m)) (\<lambda>tokens. rbind (nth_res tokens 0) (\<lambda>t. Inr [t])))
       (\<lambda>tables. rforall (\<lambda>t. validate_table t simulated) tables))"

section \<open>RequiredValueMoveValidator\<close>

text \<open>For the removal of the whole configuration \<open>validate\<close> returns None, which \<open>MoveWrapper.validate\<close>
  takes for False.\<close>

definition requiring_change_ok :: "json_lib \<Rightarrow> json \<Rightarrow> (string \<times> string) list \<Rightarrow> err + bool" where
  "requiring_change_ok lib current required = rforall (\<lambda>(rp, rv).
     rbind (get_value_or_default lib current rp) (\<lambda>actual.
       Inr (actual = JNull \<or> json_eq actual (JStr rv)))) required"

definition required_change_ok :: "json_lib \<Rightarrow> json \<Rightarrow> json \<Rightarrow> (string \<times> string) list \<Rightarrow> err + bool" where
  "required_change_ok lib current simulated required = rforall (\<lambda>(rp, rv).
     rbind (get_value_or_default lib current rp) (\<lambda>c.
     rbind (get_value_or_default lib simulated rp) (\<lambda>s.
       Inr (s = JNull \<or> json_eq c s \<or> json_eq s (JStr rv))))) required"

definition required_value_validate :: "json_lib \<Rightarrow> move \<Rightarrow> diff \<Rightarrow> err + bool" where
  "required_value_validate lib m d =
     (if mv_op m = REMOVE \<and> move_path m = [] then Inr False
      else rbind (move_apply lib m (d_current d)) (\<lambda>simulated.
        rbind (get_required_value_data lib [d_current d, simulated, d_target d]) (\<lambda>required_data.
        rbind (rforall (\<lambda>(p, required).
            rbind (is_config_different lib p (d_current d) simulated) (\<lambda>b.
              if b then requiring_change_ok lib (d_current d) required else Inr True)) required_data) (\<lambda>ok1.
        if \<not> ok1 then Inr False
        else rforall (\<lambda>(p, required).
            rbind (is_config_different lib p (d_current d) (d_target d)) (\<lambda>b.
              if b then required_change_ok lib (d_current d) simulated required else Inr True)) required_data))))"

section \<open>Create-only fields\<close>

definition present :: "string list \<Rightarrow> json \<Rightarrow> bool" where
  "present us doc \<longleftrightarrow> opt_json (json_get_at us doc) \<noteq> JNull"

lemma has_path_present: "pointer_ok lib \<Longrightarrow> has_path lib doc (create_path lib (map TStr us)) = Inr (present us doc)"
  by (simp add: pointer_ok_def has_path_def get_from_path_def create_path_def present_def comp_def)

lemma path_tokens_back: "pointer_ok lib \<Longrightarrow> get_path_tokens lib (create_path lib (map TStr us)) = Inr us"
  by (simp add: pointer_ok_def get_path_tokens_def create_path_def comp_def)

lemma exist_only_in_first_present:
  "pointer_ok lib \<Longrightarrow> exist_only_in_first lib us a b = Inr (present us a \<and> \<not> present us b)"
  by (simp add: exist_only_in_first_def has_path_present)

lemma value_different_at:
  "py_path c (map TStr us) = Inr a \<Longrightarrow> py_path s (map TStr us) = Inr b \<Longrightarrow>
     value_exist_but_different us c s = Inr (\<not> json_eq a b)"
proof (induction us arbitrary: c s)
  case (Cons u us)
  then obtain dc ds x y where "c = JObj dc" "s = JObj ds" "map_of dc u = Some x" "map_of ds u = Some y"
      "py_path x (map TStr us) = Inr a" "py_path y (map TStr us) = Inr b"
    by (auto simp: py_path_TStr simp del: py_path.simps)
  with Cons.IH show ?case by simp
qed simp

definition create_only_path :: "string list \<Rightarrow> bool" where
  "create_only_path us \<longleftrightarrow> (\<exists>pattern \<in> set create_only_patterns. list_all2 (key_matches None) pattern us)"

lemma create_only_paths_mem:
  assumes "gen_collect (create_only_paths lib config) = Inr ps" and "create_only_path us" and "py_path config (map TStr us) = Inr v"
  shows "create_path lib (map TStr us) \<in> set ps"
  using get_paths_spec_aux[OF assms(1)[unfolded create_only_paths_def]] assms(2,3)
  by (auto simp: create_only_path_def)

lemma create_only_validate_paths:
  assumes "create_only_validate lib m d = Inr True" and "move_apply lib m (d_current d) = Inr sim"
    and "create_only_path us" and "config \<in> {d_current d, sim, d_target d}" and "py_path config (map TStr us) = Inr v"
  shows "create_only_path_ok lib (d_current d) sim (d_target d) (create_path lib (map TStr us)) = Inr True"
proof -
  from assms(1,2) obtain ps1 ps2 ps3 where
      "gen_collect (create_only_paths lib (d_current d)) = Inr ps1" "gen_collect (create_only_paths lib sim) = Inr ps2"
      "gen_collect (create_only_paths lib (d_target d)) = Inr ps3"
      "\<forall>p \<in> set (ps1 @ ps2 @ ps3). create_only_path_ok lib (d_current d) sim (d_target d) p = Inr True"
    by (auto simp: create_only_validate_def rbind_eq_Inr rforall_True)
  then show ?thesis using create_only_paths_mem assms(3-5) by fastforce
qed

text \<open>C15. A move the create-only validator accepts changes no create-only field in place: where the field is in the
  configuration before and after, its value is the same; it appears only together with its parent,
  disappears only together with its parent, and with a new parent it is there exactly when the target has it.\<close>

theorem create_only_validate_safe:
  assumes "pointer_ok lib" and "create_only_validate lib m d = Inr True"
    and "move_apply lib m (d_current d) = Inr sim" and "create_only_path us"
    and "config \<in> {d_current d, sim, d_target d}" and "py_path config (map TStr us) = Inr v"
  shows "(\<forall>a b. py_path (d_current d) (map TStr us) = Inr a \<longrightarrow> py_path sim (map TStr us) = Inr b \<longrightarrow> json_eq a b) \<and>
    (present us sim \<and> \<not> present us (d_current d) \<longrightarrow> present (butlast us) sim \<and> \<not> present (butlast us) (d_current d)) \<and>
    (present us (d_current d) \<and> \<not> present us sim \<longrightarrow> present (butlast us) (d_current d) \<and> \<not> present (butlast us) sim) \<and>
    (present (butlast us) sim \<and> \<not> present (butlast us) (d_current d) \<longrightarrow> (present us sim \<longleftrightarrow> present us (d_target d)))"
  using create_only_validate_paths[OF assms(2-6)] assms(1)
  by (auto simp: create_only_path_ok_def path_tokens_back rbind_eq_Inr value_different_at
      value_added_but_parent_exist_def value_removed_but_parent_remain_def parent_added_child_not_as_target_def
      exist_only_in_first_present has_path_present Let_def split: if_splits)

text \<open>A port whose status goes down while its lanes stay.\<close>

definition port_diff :: diff where
  "port_diff = \<lparr>d_current = JObj [(''PORT'', JObj [(''Ethernet0'', JObj [(''lanes'', JStr ''1,2''), (''admin_status'', JStr ''up'')])])],
     d_target = JObj [(''PORT'', JObj [(''Ethernet0'', JObj [(''lanes'', JStr ''1,2''), (''admin_status'', JStr ''down'')])])]\<rparr>"

definition port_down :: move where
  "port_down = \<lparr>mv_op = REPLACE, mv_operation = create_operation REPLACE ''/PORT/Ethernet0/admin_status'' (Some (JStr ''down'')),
     mv_current = map TStr [''PORT'', ''Ethernet0'', ''admin_status''], mv_target = Some (map TStr [''PORT'', ''Ethernet0'', ''admin_status''])\<rparr>"

lemma port_down_apply: "move_apply ref_lib port_down (d_current port_diff) = Inr (d_target port_diff)"
  by code_simp

theorem create_only_validate_safe_witness:
  "create_only_validate ref_lib port_down port_diff = Inr True \<and> json_eq (JStr ''1,2'') (JStr ''1,2'') \<and>
   \<not> (present [''PORT'', ''Ethernet0'', ''lanes''] (d_current port_diff) \<and> \<not> present [''PORT'', ''Ethernet0'', ''lanes''] (d_target port_diff) \<and>
      present (butlast [''PORT'', ''Ethernet0'', ''lanes'']) (d_target port_diff))"
proof -
  let ?lanes = "[''PORT'', ''Ethernet0'', ''lanes'']"
  have v: "create_only_validate ref_lib port_down port_diff = Inr True" by code_simp
  have c: "create_only_path ?lanes"
    by (simp add: create_only_path_def create_only_patterns_def key_matches_def subst_common_def starts_with_def ends_with_def)
  have p: "py_path (d_current port_diff) (map TStr ?lanes) = Inr (JStr ''1,2'')"
    by (simp add: port_diff_def)
  have q: "py_path (d_target port_diff) (map TStr ?lanes) = Inr (JStr ''1,2'')"
    by (simp add: port_diff_def)
  note safe = create_only_validate_safe[OF ref_pointer_ok v port_down_apply c insertI1 p]
  then have "json_eq (JStr ''1,2'') (JStr ''1,2'')" using p q by blast
  with v safe show ?thesis by blast
qed

section \<open>Required values\<close>

lemma get_value_or_default_present:
  assumes "pointer_ok lib" and "json_get_at us config = Some v" and "v \<noteq> JNull"
  shows "get_value_or_default lib config (create_path lib (map TStr us)) = Inr v"
  using assms by (simp add: get_value_or_default_def get_from_path_def create_path_def pointer_ok_def comp_def opt_json_def)

definition admin_tokens :: "string \<Rightarrow> string list" where
  "admin_tokens port = [''PORT'', port, ''admin_status'']"

text \<open>C33. A move the required-value validator accepts changes a requiring path of a port (a queue, a buffer profile)
  only while the port is administratively down, as far as its status is given; and while requiring
  changes of the port are still to be made, it changes the status of the port to nothing but down.\<close>

theorem required_value_validate_safe:
  assumes "pointer_ok lib" and "required_value_validate lib m d = Inr True"
    and "move_apply lib m (d_current d) = Inr sim"
    and "config \<in> {d_current d, sim, d_target d}" and "requires_port lib config port p"
  shows "(is_config_different lib p (d_current d) sim = Inr True \<longrightarrow>
      (\<forall>v. json_get_at (admin_tokens port) (d_current d) = Some v \<longrightarrow> v \<noteq> JNull \<longrightarrow> json_eq v (JStr ''down''))) \<and>
    (is_config_different lib p (d_current d) (d_target d) = Inr True \<longrightarrow>
      (\<forall>c s. json_get_at (admin_tokens port) (d_current d) = Some c \<longrightarrow> c \<noteq> JNull \<longrightarrow>
         json_get_at (admin_tokens port) sim = Some s \<longrightarrow> s \<noteq> JNull \<longrightarrow> json_eq c s \<or> json_eq s (JStr ''down'')))"
proof -
  let ?changed = "\<lambda>(p, required). rbind (is_config_different lib p (d_current d) sim) (\<lambda>b.
              if b then requiring_change_ok lib (d_current d) required else Inr True)"
  let ?left = "\<lambda>(p, required). rbind (is_config_different lib p (d_current d) (d_target d)) (\<lambda>b.
              if b then required_change_ok lib (d_current d) sim required else Inr True)"
  have "rbind (get_required_value_data lib [d_current d, sim, d_target d]) (\<lambda>data. rbind (rforall ?changed data) (\<lambda>ok1.
      if \<not> ok1 then Inr False else rforall ?left data)) = Inr True"
    using assms(2,3) by (simp add: required_value_validate_def split: if_splits)
  then obtain data ok1 where data: "get_required_value_data lib [d_current d, sim, d_target d] = Inr data"
      and ok: "rforall ?changed data = Inr ok1" "(if \<not> ok1 then Inr False else rforall ?left data) = Inr True"
    by (elim rbind_InrE)
  from ok have "rforall ?changed data = Inr True" "rforall ?left data = Inr True" by (simp_all split: if_splits)
  then have all: "\<forall>x \<in> set data. ?changed x = Inr True" "\<forall>x \<in> set data. ?left x = Inr True"
    unfolding rforall_True by blast+
  obtain rs where rs: "(p, rs) \<in> set data" "(create_path lib (map TStr (admin_tokens port)), ''down'') \<in> set rs"
    using required_data_mem[OF assms(1) data, of p "create_path lib (map TStr (admin_tokens port))" "''down''"] assms(4,5)
    unfolding admin_tokens_def by (auto simp del: list.map)
  note val = get_value_or_default_present[OF assms(1)]
  show ?thesis
  proof (intro conjI impI allI)
    fix v assume a: "is_config_different lib p (d_current d) sim = Inr True"
      "json_get_at (admin_tokens port) (d_current d) = Some v" "v \<noteq> JNull"
    have "requiring_change_ok lib (d_current d) rs = Inr True"
      using bspec[OF all(1) rs(1)] a(1) by simp
    from this[unfolded requiring_change_ok_def rforall_True, THEN bspec, OF rs(2)] val[OF a(2,3)] a(3)
    show "json_eq v (JStr ''down'')" by simp
  next
    fix c s assume a: "is_config_different lib p (d_current d) (d_target d) = Inr True"
      "json_get_at (admin_tokens port) (d_current d) = Some c" "c \<noteq> JNull"
      "json_get_at (admin_tokens port) sim = Some s" "s \<noteq> JNull"
    have "required_change_ok lib (d_current d) sim rs = Inr True"
      using bspec[OF all(2) rs(1)] a(1) by simp
    from this[unfolded required_change_ok_def rforall_True, THEN bspec, OF rs(2)] val[OF a(2,3)] val[OF a(4,5)] a(5)
    show "json_eq c s \<or> json_eq s (JStr ''down'')" by simp
  qed
qed

definition queue_diff :: diff where
  "queue_diff = \<lparr>d_current = JObj [(''PORT'', JObj [(''Ethernet0'', JObj [(''admin_status'', JStr ''down'')])])],
     d_target = JObj [(''PORT'', JObj [(''Ethernet0'', JObj [(''admin_status'', JStr ''down'')])]), (''QUEUE'', JObj [(''Ethernet0|1'', JObj [(''s'', JStr ''1'')])])]\<rparr>"

definition queue_add :: move where
  "queue_add = \<lparr>mv_op = ADD, mv_operation = create_operation ADD ''/QUEUE'' (Some (JObj [(''Ethernet0|1'', JObj [(''s'', JStr ''1'')])])),
     mv_current = [TStr ''QUEUE''], mv_target = Some [TStr ''QUEUE'']\<rparr>"

theorem required_value_validate_safe_witness:
  "is_config_different ref_lib (create_path ref_lib (map TStr [''QUEUE'', ''Ethernet0|1''])) (d_current queue_diff) (d_target queue_diff) = Inr True \<and>
   json_get_at (admin_tokens ''Ethernet0'') (d_current queue_diff) = Some (JStr ''down'') \<and> json_eq (JStr ''down'') (JStr ''down'')"
proof -
  have v: "required_value_validate ref_lib queue_add queue_diff = Inr True" by code_simp
  have a: "move_apply ref_lib queue_add (d_current queue_diff) = Inr (d_target queue_diff)" by code_simp
  have r: "requires_port ref_lib (d_target queue_diff) ''Ethernet0'' (create_path ref_lib (map TStr [''QUEUE'', ''Ethernet0|1'']))"
    unfolding requires_port_def
    by (intro conjI exI[of _ "[''QUEUE'', ''Ethernet0|1'']"] exI[of _ "[''QUEUE'', ''@|*'']"])
       (simp_all add: queue_diff_def the_setting_def required_settings_def key_matches_def subst_common_def
         replace_char_def starts_with_def ends_with_def)
  have c: "is_config_different ref_lib (create_path ref_lib (map TStr [''QUEUE'', ''Ethernet0|1''])) (d_current queue_diff) (d_target queue_diff) = Inr True"
      "json_get_at (admin_tokens ''Ethernet0'') (d_current queue_diff) = Some (JStr ''down'')"
    by code_simp+
  show ?thesis
    using required_value_validate_safe[OF ref_pointer_ok v a _ r] c by simp
qed

section \<open>Empty tables\<close>

lemma edit_other_tables:
  "json_edit_at f (k # ks) (JObj d) = Some (JObj e) \<Longrightarrow> (\<And>e'. f (JObj d) k = Some (JObj e') \<Longrightarrow> map_of e' j = map_of d j) \<Longrightarrow>
     j \<noteq> k \<Longrightarrow> map_of e j = map_of d j"
  by (cases ks) (auto split: option.splits)

lemma rfc_op_other_tables:
  "rfc_op t (k # ks) v (JObj d) = Some (JObj e) \<Longrightarrow> j \<noteq> k \<Longrightarrow> map_of e j = map_of d j"
  by (cases t) (auto simp: rfc_op_def split: if_splits elim!: edit_other_tables)

text \<open>C9. The validator of empty tables keeps its promise: a move it accepts, applied to a configuration without empty
  tables, gives a configuration without empty tables (and so does every accepted sequence of moves).\<close>

theorem no_empty_table_preserved:
  assumes "pointer_ok lib" and "patch_op_ok lib"
    and "mv_operation m = create_operation t (create_path lib ts) v"
    and "rfc_op t (map token_str ts) (opt_json v) (JObj dict) = Some (JObj dict')"
    and "d_current d = JObj dict" and "no_empty_table_validate lib m d = Inr True"
    and "\<forall>k x. map_of dict k = Some x \<longrightarrow> py_truthy x"
  shows "move_apply lib m (d_current d) = Inr (JObj dict') \<and> (\<forall>k x. map_of dict' k = Some x \<longrightarrow> py_truthy x)"
proof -
  have ap: "move_apply lib m (d_current d) = Inr (JObj dict')"
    using assms(2-5) by (simp add: move_apply_def create_path_def patch_op_ok_def)
  have mp: "move_path m = create_path lib ts" using assms(3) by (simp add: move_path_def create_operation_def)
  have tok: "get_path_tokens lib (create_path lib ts) = Inr (map token_str ts)"
    using assms(1) by (simp add: pointer_ok_def get_path_tokens_def create_path_def)
  have tab: "py_truthy x" if "validate_table k (JObj dict') = Inr True" "map_of dict' k = Some x" for k x
    using that by (simp add: validate_table_def)
  have "py_truthy x" if x: "map_of dict' k = Some x" for k x
  proof (cases "move_path m = []")
    case True
    have "k \<in> set (map fst dict')" using x by (metis domI dom_map_of_conv_image_fst list.set_map)
    moreover have "\<forall>t \<in> set (map fst dict'). validate_table t (JObj dict') = Inr True"
      using assms(6) True ap by (simp add: no_empty_table_validate_def rforall_True)
    ultimately have "validate_table k (JObj dict') = Inr True" by blast
    with x show ?thesis by (rule tab[rotated])
  next
    case False
    with assms(6) ap mp tok obtain k0 ks where k0: "map token_str ts = k0 # ks" "validate_table k0 (JObj dict') = Inr True"
      by (cases ts) (auto simp: no_empty_table_validate_def nth_res_def rbind_eq_Inr split: if_splits)
    show ?thesis
    proof (cases "k = k0")
      case True
      with k0 x tab show ?thesis by blast
    next
      case False
      then have "map_of dict k = Some x" using rfc_op_other_tables[OF assms(4)[unfolded k0(1)]] x by simp
      then show ?thesis using assms(7) by blast
    qed
  qed
  with ap show ?thesis by blast
qed

theorem no_empty_table_preserved_witness:
  "move_apply ref_lib queue_add (d_current queue_diff) = Inr (d_target queue_diff) \<and>
   py_truthy (JObj [(''Ethernet0|1'', JObj [(''s'', JStr ''1'')])])"
proof -
  obtain dict where d: "d_current queue_diff = JObj dict" by (simp add: queue_diff_def)
  obtain dict' where d': "d_target queue_diff = JObj dict'" by (simp add: queue_diff_def)
  have v: "no_empty_table_validate ref_lib queue_add queue_diff = Inr True" by code_simp
  have o1: "mv_operation queue_add = create_operation ADD (create_path ref_lib [TStr ''QUEUE'']) (Some (JObj [(''Ethernet0|1'', JObj [(''s'', JStr ''1'')])]))"
    by code_simp
  have r: "rfc_op ADD (map token_str [TStr ''QUEUE'']) (opt_json (Some (JObj [(''Ethernet0|1'', JObj [(''s'', JStr ''1'')])]))) (JObj dict) = Some (JObj dict')"
    using d d' by (auto simp: rfc_op_def opt_json_def queue_diff_def)
  have t: "\<forall>k x. map_of dict k = Some x \<longrightarrow> py_truthy x"
    using d by (auto simp: queue_diff_def split: if_splits)
  from no_empty_table_preserved[OF ref_pointer_ok ref_patch_op_ok o1 r d v t]
  have "move_apply ref_lib queue_add (d_current queue_diff) = Inr (JObj dict')"
    and e: "\<forall>k x. map_of dict' k = Some x \<longrightarrow> py_truthy x" by blast+
  moreover have "map_of dict' ''QUEUE'' = Some (JObj [(''Ethernet0|1'', JObj [(''s'', JStr ''1'')])])"
    using d' by (auto simp: queue_diff_def)
  ultimately show ?thesis using d' by auto
qed

section \<open>Dependencies\<close>

text \<open>Along the path, a list of one configuration does not face a dictionary of the other.\<close>

definition lists_align :: "json \<Rightarrow> json \<Rightarrow> string list \<Rightarrow> bool" where
  "lists_align a b us \<longleftrightarrow> (\<forall>vs x y. prefix vs us \<longrightarrow> py_path a (map TStr vs) = Inr x \<longrightarrow> py_path b (map TStr vs) = Inr y \<longrightarrow>
     is_arr x = is_arr y)"

lemma lists_align_Nil: "lists_align a b us \<Longrightarrow> is_arr a = is_arr b"
  unfolding lists_align_def by (auto dest: spec[of _ "[]"])

lemma lists_align_step:
  assumes "lists_align (JObj d) (JObj e) (u # us)" and "map_of d u = Some x" and "map_of e u = Some y"
  shows "lists_align x y us"
  unfolding lists_align_def
proof (intro allI impI)
  fix vs x' y' assume "prefix vs us" "py_path x (map TStr vs) = Inr x'" "py_path y (map TStr vs) = Inr y'"
  then show "is_arr x' = is_arr y'"
    using assms(1)[unfolded lists_align_def, rule_format, of "u # vs" x' y'] assms(2,3) by simp
qed

lemma added_keys_mem:
  "added_keys lib d tokens (map JStr us) = Inr ps \<Longrightarrow> u \<in> set us \<Longrightarrow> map_of d u = None \<Longrightarrow>
     create_path lib (tokens @ [TStr u]) \<in> set ps"
  by (induction us arbitrary: ps) (auto simp: rbind_eq_Inr split: if_splits)

text \<open>The entries a dictionary contributes.\<close>

lemma diff_paths_JObj:
  assumes "diff_paths lib (JObj d) (JObj e) tokens = Inr (del, add)"
  shows "(k, x) \<in> set d \<Longrightarrow> map_of e k = None \<Longrightarrow> create_path lib (tokens @ [TStr k]) \<in> set del"
    and "(k, x) \<in> set d \<Longrightarrow> map_of e k = Some y \<Longrightarrow>
       \<exists>r. diff_paths lib x y (tokens @ [TStr k]) = Inr r \<and> set (fst r) \<subseteq> set del \<and> set (snd r) \<subseteq> set add"
    and "(k, y) \<in> set e \<Longrightarrow> map_of d k = None \<Longrightarrow> create_path lib (tokens @ [TStr k]) \<in> set add"
proof -
  let ?g = "\<lambda>p. rbind (py_contains (JObj e) (TStr (fst p))) (\<lambda>b.
               if \<not> b then Inr ([create_path lib (tokens @ [TStr (fst p)])], [])
               else rbind (py_getitem (JObj e) (TStr (fst p))) (\<lambda>t.
                    diff_paths lib (snd p) t (tokens @ [TStr (fst p)])))"
  have "rbind (rmapM ?g d) (\<lambda>rs. rbind (py_iter (JObj e)) (\<lambda>ks. rbind (added_keys lib d tokens ks) (\<lambda>added.
      Inr (concat (map fst rs), concat (map snd rs) @ added)))) = Inr (del, add)"
    using assms by simp
  then obtain rs ks added where rs: "rmapM ?g d = Inr rs" "py_iter (JObj e) = Inr ks" "added_keys lib d tokens ks = Inr added"
      "del = concat (map fst rs)" "add = concat (map snd rs) @ added"
    by (elim rbind_InrE) auto
  have ks: "ks = map JStr (map fst e)" using rs(2) by auto
  {
    assume kx: "(k, x) \<in> set d" "map_of e k = None"
    from rmapM_Inr_mem[OF rs(1) kx(1)] kx(2) have "([create_path lib (tokens @ [TStr k])], []) \<in> set rs" by simp
    then show "create_path lib (tokens @ [TStr k]) \<in> set del" using rs(4) by force
  next
    assume kx: "(k, x) \<in> set d" "map_of e k = Some y"
    from rmapM_Inr_mem[OF rs(1) kx(1)] kx(2) obtain r where "r \<in> set rs" "diff_paths lib x y (tokens @ [TStr k]) = Inr r"
      by auto
    then show "\<exists>r. diff_paths lib x y (tokens @ [TStr k]) = Inr r \<and> set (fst r) \<subseteq> set del \<and> set (snd r) \<subseteq> set add"
      using rs(4,5) by (intro exI[of _ r]) force
  next
    assume "(k, y) \<in> set e" "map_of d k = None"
    then show "create_path lib (tokens @ [TStr k]) \<in> set add"
      using added_keys_mem[of lib d tokens "map fst e" added k] rs(3,5) ks by force
  }
qed

lemma scalar_diff: "\<not> is_arr c \<Longrightarrow> \<not> is_obj c \<Longrightarrow> is_obj t \<Longrightarrow> \<not> json_eq c t"
  by (cases c; cases t) auto

definition covered_by :: "json_lib \<Rightarrow> token list \<Rightarrow> string list \<Rightarrow> string list \<Rightarrow> bool" where
  "covered_by lib tokens us ps \<longleftrightarrow> (\<exists>vs. prefix vs us \<and> create_path lib (tokens @ map TStr vs) \<in> set ps)"

lemma covered_by_step:
  "covered_by lib (tokens @ [TStr u]) us ps \<Longrightarrow> set ps \<subseteq> set qs \<Longrightarrow> covered_by lib tokens (u # us) qs"
  unfolding covered_by_def by (elim exE, rule_tac x = "u # vs" in exI) auto

lemma covered_by_here: "create_path lib (tokens @ [TStr u]) \<in> set qs \<Longrightarrow> covered_by lib tokens (u # us) qs"
  unfolding covered_by_def by (rule exI[of _ "[u]"]) simp

lemma diff_paths_deleted:
  "diff_paths lib c t tokens = Inr (del, add) \<Longrightarrow> py_path c (map TStr us) = Inr a \<Longrightarrow> \<nexists>b. py_path t (map TStr us) = Inr b \<Longrightarrow>
     lists_align c t us \<Longrightarrow> covered_by lib tokens us del"
proof (induction us arbitrary: c t tokens del add)
  case (Cons u us)
  from Cons.prems(2) obtain d x where c: "c = JObj d" "map_of d u = Some x" "py_path x (map TStr us) = Inr a"
    by (auto simp: py_path_TStr simp del: py_path.simps)
  have mem: "(u, x) \<in> set d" using c(2) by (rule map_of_SomeD)
  have na: "\<not> is_arr t" using lists_align_Nil[OF Cons.prems(4)] c by simp
  show ?case
  proof (cases "is_obj t")
    case True
    then obtain e where t: "t = JObj e" by (cases t) auto
    note R = diff_paths_JObj[OF Cons.prems(1)[unfolded c(1) t]]
    show ?thesis
    proof (cases "map_of e u")
      case None
      then show ?thesis using R(1)[OF mem] by (simp add: covered_by_here)
    next
      case (Some y)
      obtain r where r: "diff_paths lib x y (tokens @ [TStr u]) = Inr r" "set (fst r) \<subseteq> set del" using R(2)[OF mem Some] by blast
      have "covered_by lib (tokens @ [TStr u]) us (fst r)"
      proof (rule Cons.IH)
        show "diff_paths lib x y (tokens @ [TStr u]) = Inr (fst r, snd r)" using r by simp
        show "py_path x (map TStr us) = Inr a" by (rule c)
        show "\<nexists>b. py_path y (map TStr us) = Inr b" using Cons.prems(3) t Some by simp
        show "lists_align x y us" using Cons.prems(4) c t Some by (auto intro: lists_align_step)
      qed
      then show ?thesis using r(2) by (rule covered_by_step)
    qed
  next
    case False
    with na c Cons.prems(1) show ?thesis
    proof -
      let ?g = "\<lambda>p. rbind (py_contains t (TStr (fst p))) (\<lambda>b.
               if \<not> b then Inr ([create_path lib (tokens @ [TStr (fst p)])], [])
               else rbind (py_getitem t (TStr (fst p))) (\<lambda>t'.
                    diff_paths lib (snd p) t' (tokens @ [TStr (fst p)])))"
      from Cons.prems(1) na c obtain rs where rs: "rmapM ?g d = Inr rs" "del = concat (map fst rs)"
        by (auto elim!: rbind_InrE)
      from rmapM_Inr_mem[OF rs(1) mem] obtain r where r: "r \<in> set rs" "?g (u, x) = Inr r" by auto
      from r(2) False na have "r = ([create_path lib (tokens @ [TStr u])], [])"
        by (cases t) (auto split: if_splits)
      then show ?thesis using r(1) rs(2) by (intro covered_by_here) force
    qed
  qed
qed auto

lemma diff_paths_added:
  "diff_paths lib c t tokens = Inr (del, add) \<Longrightarrow> py_path t (map TStr us) = Inr a \<Longrightarrow> \<nexists>b. py_path c (map TStr us) = Inr b \<Longrightarrow>
     lists_align c t us \<Longrightarrow> covered_by lib tokens us add"
proof (induction us arbitrary: c t tokens del add)
  case (Cons u us)
  from Cons.prems(2) obtain e y where t: "t = JObj e" "map_of e u = Some y" "py_path y (map TStr us) = Inr a"
    by (auto simp: py_path_TStr simp del: py_path.simps)
  have mem: "(u, y) \<in> set e" using t(2) by (rule map_of_SomeD)
  have na: "\<not> is_arr c" using lists_align_Nil[OF Cons.prems(4)] t by simp
  show ?case
  proof (cases "is_obj c")
    case True
    then obtain d where c: "c = JObj d" by (cases c) auto
    note R = diff_paths_JObj[OF Cons.prems(1)[unfolded c t(1)]]
    show ?thesis
    proof (cases "map_of d u")
      case None
      then show ?thesis using R(3)[OF mem] by (simp add: covered_by_here)
    next
      case (Some x)
      then have "(u, x) \<in> set d" by (rule map_of_SomeD)
      then obtain r where r: "diff_paths lib x y (tokens @ [TStr u]) = Inr r" "set (snd r) \<subseteq> set add" using R(2) t(2) by blast
      have "covered_by lib (tokens @ [TStr u]) us (snd r)"
      proof (rule Cons.IH)
        show "diff_paths lib x y (tokens @ [TStr u]) = Inr (fst r, snd r)" using r by simp
        show "py_path y (map TStr us) = Inr a" by (rule t)
        show "\<nexists>b. py_path x (map TStr us) = Inr b" using Cons.prems(3) c Some by simp
        show "lists_align x y us" using Cons.prems(4) c t Some by (auto intro: lists_align_step)
      qed
      then show ?thesis using r(2) by (rule covered_by_step)
    qed
  next
    case False
    have "create_path lib tokens \<in> set add"
      using Cons.prems(1) na False t scalar_diff[OF na False, of t] by (cases c) (auto split: if_splits)
    then show ?thesis unfolding covered_by_def by (intro exI[of _ "[]"]) simp
  qed
qed auto

text \<open>A path one configuration has and another has not.\<close>

definition only_in :: "json \<Rightarrow> json \<Rightarrow> string list \<Rightarrow> bool" where
  "only_in a b us \<longleftrightarrow> (\<exists>x. py_path a (map TStr us) = Inr x) \<and> (\<nexists>y. py_path b (map TStr us) = Inr y)"

definition independent :: "json_lib \<Rightarrow> yang_lib \<Rightarrow> json \<Rightarrow> string list \<Rightarrow> string list \<Rightarrow> bool" where
  "independent lib sy config us us' \<longleftrightarrow> (\<exists>vs vs' refs. prefix vs us \<and> prefix vs' us' \<and>
     find_ref_paths lib sy (create_path lib (map TStr vs)) config = Inr refs \<and>
     (\<forall>r \<in> set refs. \<not> starts_with (create_path lib (map TStr vs')) r))"

lemma validate_paths_independent:
  assumes "validate_paths_config lib sy ps config = Inr True" and "covered_by lib [] us ps" and "covered_by lib [] us' ps"
  shows "independent lib sy config us us'"
proof -
  obtain vs vs' where vs: "prefix vs us" "create_path lib (map TStr vs) \<in> set ps"
      "prefix vs' us'" "create_path lib (map TStr vs') \<in> set ps"
    using assms(2,3) by (auto simp: covered_by_def)
  obtain rss where rss: "rmapM (\<lambda>p. find_ref_paths lib sy p config) ps = Inr rss"
      "\<forall>r \<in> set (concat rss). \<forall>p \<in> set ps. \<not> starts_with p r"
    using assms(1) by (auto simp: validate_paths_config_def find_ref_paths_of_def elim!: rbind_InrE)
  obtain refs where "refs \<in> set rss" "find_ref_paths lib sy (create_path lib (map TStr vs)) config = Inr refs"
    using rmapM_Inr_mem[OF rss(1) vs(2)] by blast
  with vs rss(2) show ?thesis
    unfolding independent_def by (intro exI[of _ vs] exI[of _ vs'] exI[of _ refs]) auto
qed

text \<open>A replacement the no-dependency validator accepts never deletes a configuration together with a reference to
  it, nor adds both at once: for any two paths the move deletes, a level at or above the first is deleted whose
  references (as \<open>find_ref_paths\<close> finds them) do not lie at or below a deleted level of the second; and
  the same of the paths it adds, in the resulting configuration.\<close>

theorem no_dependency_replace_safe:
  assumes "mv_op m = REPLACE" and "no_dependency_validate lib sy m d = Inr True"
    and "move_apply lib m (d_current d) = Inr sim"
    and "lists_align (d_current d) sim us" and "lists_align (d_current d) sim us'"
  shows "(only_in (d_current d) sim us \<longrightarrow> only_in (d_current d) sim us' \<longrightarrow> independent lib sy (d_current d) us us') \<and>
    (only_in sim (d_current d) us \<longrightarrow> only_in sim (d_current d) us' \<longrightarrow> independent lib sy sim us us')"
proof -
  have "validate_replace lib sy m d = Inr True" using assms(1,2) by (simp add: no_dependency_validate_def)
  then obtain del add where r1: "diff_paths lib (d_current d) sim [] = Inr (del, add)"
      and v: "validate_paths_config lib sy del (d_current d) = Inr True" "validate_paths_config lib sy add sim = Inr True"
    using assms(3) by (auto simp: validate_replace_def elim!: rbind_InrE split: if_splits)
  have "covered_by lib [] ws del" if "only_in (d_current d) sim ws" "lists_align (d_current d) sim ws" for ws
    using that diff_paths_deleted[OF r1] unfolding only_in_def by blast
  moreover have "covered_by lib [] ws add" if "only_in sim (d_current d) ws" "lists_align (d_current d) sim ws" for ws
    using that diff_paths_added[OF r1] unfolding only_in_def by blast
  ultimately show ?thesis using validate_paths_independent v assms(4,5) by blast
qed

text \<open>The removal of two ports by a replacement of their table.\<close>

definition ports_diff :: diff where
  "ports_diff = \<lparr>d_current = JObj [(''PORT'', JObj [(''E0'', JObj []), (''E1'', JObj []), (''E2'', JObj [])])],
     d_target = JObj [(''PORT'', JObj [(''E0'', JObj [])])]\<rparr>"

definition ports_replace :: move where
  "ports_replace = \<lparr>mv_op = REPLACE, mv_operation = create_operation REPLACE ''/PORT'' (Some (JObj [(''E0'', JObj [])])),
     mv_current = [TStr ''PORT''], mv_target = Some [TStr ''PORT'']\<rparr>"

theorem no_dependency_replace_safe_witness:
  "independent ref_lib port_yang (d_current ports_diff) [''PORT'', ''E1''] [''PORT'', ''E2'']"
proof -
  have v: "no_dependency_validate ref_lib port_yang ports_replace ports_diff = Inr True" by code_simp
  have a: "move_apply ref_lib ports_replace (d_current ports_diff) = Inr (d_target ports_diff)" by code_simp
  have o: "mv_op ports_replace = REPLACE" by (simp add: ports_replace_def)
  have al: "lists_align (d_current ports_diff) (d_target ports_diff) [''PORT'', k]" for k
    by (auto simp: lists_align_def ports_diff_def prefix_Cons split: if_splits)
  have "only_in (d_current ports_diff) (d_target ports_diff) [''PORT'', ''E1'']"
      "only_in (d_current ports_diff) (d_target ports_diff) [''PORT'', ''E2'']"
    by (simp_all add: only_in_def ports_diff_def)
  then show ?thesis using no_dependency_replace_safe[OF o v a al al] by blast
qed

section \<open>One field per table\<close>

text \<open>A neighbour whose \<open>asn\<close> changes while a table \<open>X\<close> comes to refer to it.\<close>

definition x_row :: json where
  "x_row = JObj [(''a'', JObj [(''ref'', JStr ''n'')])]"

definition bgp_diff :: diff where
  "bgp_diff = \<lparr>d_current = JObj [(''BGP_NEIGHBOR'', JObj [(''n'', JObj [(''holdtime'', JStr ''10''), (''asn'', JStr ''1'')])])],
     d_target = JObj [(''BGP_NEIGHBOR'', JObj [(''n'', JObj [(''holdtime'', JStr ''10''), (''asn'', JStr ''2'')])]), (''X'', x_row)]\<rparr>"

definition x_add :: move where
  "x_add = \<lparr>mv_op = ADD, mv_operation = create_operation ADD ''/X'' (Some x_row),
     mv_current = [TStr ''X''], mv_target = Some [TStr ''X'']\<rparr>"

definition bgp_table :: "string \<Rightarrow> string \<Rightarrow> string \<Rightarrow> json" where
  "bgp_table table key leaf = JObj [(''module'', JStr ''m''), (''topLevelContainer'', JStr ''m''),
     (''container'', JObj [(''@name'', JStr table), (''list'', JObj [(''@name'', JStr (table @ ''_LIST'')),
        (''key'', JObj [(''@value'', JStr key)]), (''leaf'', JArr [JObj [(''@name'', JStr leaf)]])])])]"

definition bgp_yang :: yang_lib where
  "bgp_yang = port_yang\<lparr>yl_map := [(''BGP_NEIGHBOR'', bgp_table ''BGP_NEIGHBOR'' ''neighbor'' ''asn''), (''X'', bgp_table ''X'' ''name'' ''ref'')],
     yl_find_path := (\<lambda>_ _. Inr [0]), yl_tree_dfs := (\<lambda>_ _. [0]), yl_nodetype := (\<lambda>_ _. 4),
     yl_data_dependencies := (\<lambda>_ _. Inr [''/m:m/X/X_LIST[name='' @ [CHR 0x27] @ ''a'' @ [CHR 0x27] @ '']/ref''])\<rparr>"

text \<open>The validator of create-only dependencies compares one create-only field per table only, that of the first path
  the filter yields: here the check of the field that does change rejects the move, and the
  validator accepts it.\<close>

theorem create_only_dependency_first_field_only:
  "remove_create_only_dependency_validate ref_lib bgp_yang x_add bgp_diff = Inr True \<and>
   rcod_validate_member ref_lib bgp_yang [''BGP_NEIGHBOR'', ''n'', ''asn''] ''n'' (d_current bgp_diff) (d_target bgp_diff)
     (JObj [(''BGP_NEIGHBOR'', JObj [(''n'', JObj [(''holdtime'', JStr ''10''), (''asn'', JStr ''1'')])]), (''X'', x_row)]) = Inr False \<and>
   move_apply ref_lib x_add (d_current bgp_diff) =
     Inr (JObj [(''BGP_NEIGHBOR'', JObj [(''n'', JObj [(''holdtime'', JStr ''10''), (''asn'', JStr ''1'')])]), (''X'', x_row)])"
  by (intro conjI; code_simp)

end
