(* ===== verification/MoveGenerators.thy ===== *)
theory MoveGenerators
  imports MoveValidators
begin

text \<open>
  The move generators of \<open>patch_sorter.py\<close>: whole tables, keys of tables, the dependencies of create-only
  fields, and the low-level generator, which walks both configurations side by side. All are
  generators: what is yielded before an exception is still seen. \<open>low_level_live\<close> says that the low-level
  generator yields moves only, no exception, and at least one exactly while the configurations differ, on configurations of
  one shape whose lists hold scalars.
\<close>

definition gen_move :: "json_lib \<Rightarrow> diff \<Rightarrow> op_type \<Rightarrow> token list \<Rightarrow> token list option \<Rightarrow> (err, move) gen" where
  "gen_move lib d t cur tgt = gen_of (json_move lib d t cur tgt)"

text \<open>\<open>for x in v\<close> in a generator.\<close>

definition gen_for :: "json \<Rightarrow> (json \<Rightarrow> (err, 'a) gen) \<Rightarrow> (err, 'a) gen" where
  "gen_for v f = gen_with (py_iter v) (\<lambda>xs. gen_bind (map Inr xs) f)"

section \<open>TableLevelMoveGenerator and KeyLevelMoveGenerator\<close>

definition non_existing_tables :: "json \<Rightarrow> json \<Rightarrow> (err, token list) gen" where
  "non_existing_tables config1 config2 =
     gen_for config1 (\<lambda>k. gen_with (json_token k) (\<lambda>table. gen_with (py_contains config2 table) (\<lambda>b.
       if b then [] else [Inr [table]])))"

definition table_level_generate :: "json_lib \<Rightarrow> diff \<Rightarrow> (err, move) gen" where
  "table_level_generate lib d =
     gen_bind (non_existing_tables (d_current d) (d_target d)) (\<lambda>ts. gen_move lib d REMOVE ts None) @
     gen_bind (non_existing_tables (d_target d) (d_current d)) (\<lambda>ts. gen_move lib d ADD ts (Some ts))"

definition key_missing :: "json \<Rightarrow> token \<Rightarrow> token \<Rightarrow> err + bool" where
  "key_missing config2 table key =
     rbind (py_contains config2 table) (\<lambda>b. if \<not> b then Inr True else
     rbind (py_getitem config2 table) (\<lambda>ks. rbind (py_contains ks key) (\<lambda>c. Inr (\<not> c))))"

definition non_existing_keys :: "json \<Rightarrow> json \<Rightarrow> (err, token list) gen" where
  "non_existing_keys config1 config2 =
     gen_for config1 (\<lambda>t. gen_with (json_token t) (\<lambda>table.
     gen_with (py_getitem config1 table) (\<lambda>ks. gen_for ks (\<lambda>k. gen_with (json_token k) (\<lambda>key.
     gen_with (key_missing config2 table key) (\<lambda>b. if b then [Inr [table, key]] else []))))))"

definition remove_key :: "json_lib \<Rightarrow> diff \<Rightarrow> token list \<Rightarrow> (err, move) gen" where
  "remove_key lib d ts =
     gen_with (nth_res ts 0) (\<lambda>table.
     gen_with (rbind (py_getitem (d_current d) table) py_len) (\<lambda>n.
       if n = 1 then gen_move lib d REMOVE [table] None else gen_move lib d REMOVE ts None))"

definition key_level_generate :: "json_lib \<Rightarrow> diff \<Rightarrow> (err, move) gen" where
  "key_level_generate lib d =
     gen_bind (non_existing_keys (d_current d) (d_target d)) (remove_key lib d) @
     gen_bind (non_existing_keys (d_target d) (d_current d)) (\<lambda>ts. gen_move lib d ADD ts (Some ts))"

section \<open>RemoveCreateOnlyDependencyMoveGenerator\<close>

definition remove_references :: "json_lib \<Rightarrow> yang_lib \<Rightarrow> diff \<Rightarrow> string \<Rightarrow> string \<Rightarrow> (err, move) gen" where
  "remove_references lib sy d table member =
     gen_with (find_ref_paths lib sy (member_path_str table member) (d_current d)) (\<lambda>refs.
       gen_bind (map Inr refs) (\<lambda>r. gen_with (get_path_tokens lib r) (\<lambda>ts. gen_move lib d REMOVE (map TStr ts) None)))"

definition rcod_member_moves :: "json_lib \<Rightarrow> yang_lib \<Rightarrow> diff \<Rightarrow> string list \<Rightarrow> json \<Rightarrow> json \<Rightarrow> (err, move) gen" where
  "rcod_member_moves lib sy d tokens target_members name =
     (let table = hd tokens; field = last tokens in
      gen_with (as_str name) (\<lambda>member.
      gen_with (py_contains target_members (TStr member)) (\<lambda>b. if \<not> b then [] else
      gen_with (get_create_only_field (d_current d) table member field) (\<lambda>current_field.
      gen_with (get_create_only_field (d_target d) table member field) (\<lambda>target_field.
        if json_eq current_field target_field then [] else remove_references lib sy d table member)))))"

definition rcod_table_moves :: "json_lib \<Rightarrow> yang_lib \<Rightarrow> diff \<Rightarrow> string list \<Rightarrow> string \<Rightarrow> (err, move) gen" where
  "rcod_table_moves lib sy d tokens table =
     gen_with (py_contains (d_current d) (TStr table)) (\<lambda>in_current. if \<not> in_current then [] else
     gen_with (py_key (d_current d) table) (\<lambda>current_members. if \<not> py_truthy current_members then [] else
     gen_with (py_contains (d_target d) (TStr table)) (\<lambda>in_target. if \<not> in_target then [] else
     gen_with (py_key (d_target d) table) (\<lambda>target_members. if \<not> py_truthy target_members then [] else
       gen_for current_members (rcod_member_moves lib sy d tokens target_members)))))"

fun rcod_generate_loop :: "json_lib \<Rightarrow> yang_lib \<Rightarrow> diff \<Rightarrow> string list \<Rightarrow> (err, string) gen \<Rightarrow> (err, move) gen" where
  "rcod_generate_loop lib sy d processed_tables [] = []"
| "rcod_generate_loop lib sy d processed_tables (Inl e # g) = [Inl e]"
| "rcod_generate_loop lib sy d processed_tables (Inr p # g) =
     gen_with (get_path_tokens lib p) (\<lambda>tokens. gen_with (nth_res tokens 0) (\<lambda>table.
       if table \<in> set processed_tables then rcod_generate_loop lib sy d processed_tables g
       else rcod_table_moves lib sy d tokens table @ rcod_generate_loop lib sy d (table # processed_tables) g))"

definition remove_create_only_dependency_generate :: "json_lib \<Rightarrow> yang_lib \<Rightarrow> diff \<Rightarrow> (err, move) gen" where
  "remove_create_only_dependency_generate lib sy d = rcod_generate_loop lib sy d [] (create_only_paths lib (d_current d))"

section \<open>SingleRunLowLevelMoveGenerator\<close>

definition traverse_value :: "json_lib \<Rightarrow> diff \<Rightarrow> json \<Rightarrow> json \<Rightarrow> token list \<Rightarrow> token list \<Rightarrow> (err, move) gen" where
  "traverse_value lib d current target cts tts =
     (if json_eq current target then [] else gen_move lib d REPLACE cts (Some tts))"

text \<open>Only in the current configuration.\<close>

definition traverse_current_list :: "json_lib \<Rightarrow> diff \<Rightarrow> json list \<Rightarrow> token list \<Rightarrow> (err, move) gen" where
  "traverse_current_list lib d xs cts =
     (if xs = [] then gen_move lib d REMOVE cts None
      else concat (map (\<lambda>i. gen_move lib d REMOVE (cts @ [TIdx (int i)]) None) [0..<length xs]))"

fun traverse_current :: "json_lib \<Rightarrow> diff \<Rightarrow> json \<Rightarrow> token list \<Rightarrow> (err, move) gen" where
  "traverse_current lib d (JArr xs) cts = traverse_current_list lib d xs cts"
| "traverse_current lib d (JObj kvs) cts =
     (if kvs = [] then gen_move lib d REMOVE cts None
      else concat (map (\<lambda>p. traverse_current lib d (snd p) (cts @ [TStr (fst p)])) kvs))"
| "traverse_current lib d v cts = gen_move lib d REMOVE cts None"

text \<open>Only in the target.\<close>

definition traverse_target_list :: "json_lib \<Rightarrow> diff \<Rightarrow> json list \<Rightarrow> token list \<Rightarrow> token list \<Rightarrow> (err, move) gen" where
  "traverse_target_list lib d xs cts tts =
     (if xs = [] then gen_move lib d ADD cts (Some tts)
      else concat (map (\<lambda>i. gen_move lib d ADD (cts @ [TIdx 0]) (Some (tts @ [TIdx (int i)]))) [0..<length xs]))"

fun traverse_target :: "json_lib \<Rightarrow> diff \<Rightarrow> json \<Rightarrow> token list \<Rightarrow> token list \<Rightarrow> (err, move) gen" where
  "traverse_target lib d (JArr xs) cts tts = traverse_target_list lib d xs cts tts"
| "traverse_target lib d (JObj kvs) cts tts =
     (if kvs = [] then gen_move lib d ADD cts (Some tts)
      else concat (map (\<lambda>p. traverse_target lib d (snd p) (cts @ [TStr (fst p)]) (tts @ [TStr (fst p)])) kvs))"
| "traverse_target lib d v cts tts = gen_move lib d ADD cts (Some tts)"

text \<open>\<open>_list_to_dict_with_count\<close>: the dictionary of counts is the function \<open>count_of\<close> of the items; making it fails
  when an item cannot be hashed. Two such dictionaries are equal when the counts agree on all items.\<close>

definition counted_items :: "json \<Rightarrow> err + json list" where
  "counted_items v = (if v = JNull then Inr [] else rbind (py_iter v) hash_set)"

definition count_of :: "json list \<Rightarrow> json \<Rightarrow> nat" where
  "count_of xs x = length (filter (json_eq x) xs)"

definition same_counts :: "json list \<Rightarrow> json list \<Rightarrow> bool" where
  "same_counts xs ys \<longleftrightarrow> (\<forall>x \<in> set xs \<union> set ys. count_of xs x = count_of ys x)"

definition traverse_list :: "json_lib \<Rightarrow> diff \<Rightarrow> json \<Rightarrow> json \<Rightarrow> token list \<Rightarrow> token list \<Rightarrow> (err, move) gen" where
  "traverse_list lib d current target cts tts =
     gen_with (counted_items current) (\<lambda>xs. gen_with (counted_items target) (\<lambda>ys.
       if same_counts xs ys then traverse_value lib d current target cts tts
       else
         concat (map (\<lambda>i. if count_of xs (xs ! i) > count_of ys (xs ! i)
             then gen_move lib d REMOVE (cts @ [TIdx (int i)]) None else []) [0..<length xs]) @
         concat (map (\<lambda>j. if count_of ys (ys ! j) > count_of xs (ys ! j)
             then gen_move lib d ADD (cts @ [TIdx (int (min (length xs) j))]) (Some (tts @ [TIdx (int j)])) else []) [0..<length ys]) @
         concat (map (\<lambda>i. concat (map (\<lambda>j.
             if count_of xs (xs ! i) > count_of ys (xs ! i) \<and> count_of ys (ys ! j) > count_of xs (ys ! j)
             then traverse_value lib d (xs ! i) (ys ! j) (cts @ [TIdx (int i)]) (tts @ [TIdx (int j)]) else [])
             [0..<length ys])) [0..<length xs])))"

text \<open>The second loop of \<open>_traverse\<close>: the keys of the target the current value does not have.\<close>

definition traverse_new_keys :: "json_lib \<Rightarrow> diff \<Rightarrow> json \<Rightarrow> json \<Rightarrow> token list \<Rightarrow> token list \<Rightarrow> (err, move) gen" where
  "traverse_new_keys lib d current target cts tts =
     gen_for target (\<lambda>k. gen_with (json_token k) (\<lambda>key. gen_with (py_contains current key) (\<lambda>b. if b then [] else
       gen_with (py_getitem target key) (\<lambda>v. traverse_target lib d v (cts @ [key]) (tts @ [key])))))"

text \<open>The first loop when the current value is no dictionary: a string is walked by its characters, and
  looking one up in it raises.\<close>

definition traverse_no_keys :: "json_lib \<Rightarrow> diff \<Rightarrow> json \<Rightarrow> json \<Rightarrow> (err, move) gen" where
  "traverse_no_keys lib d current target =
     gen_for current (\<lambda>k. gen_with (json_token k) (\<lambda>key. gen_with (py_contains target key) (\<lambda>b.
       gen_with (py_getitem current key) (\<lambda>_. []))))"

fun traverse :: "json_lib \<Rightarrow> diff \<Rightarrow> json \<Rightarrow> json \<Rightarrow> token list \<Rightarrow> token list \<Rightarrow> (err, move) gen" where
  "traverse lib d (JObj kvs) target cts tts =
     (if is_arr target then traverse_list lib d (JObj kvs) target cts tts
      else concat (map (\<lambda>p. gen_with (py_contains target (TStr (fst p))) (\<lambda>b.
             if b then gen_with (py_getitem target (TStr (fst p))) (\<lambda>t.
               traverse lib d (snd p) t (cts @ [TStr (fst p)]) (tts @ [TStr (fst p)]))
             else traverse_current lib d (snd p) (cts @ [TStr (fst p)]))) kvs) @
           traverse_new_keys lib d (JObj kvs) target cts tts)"
| "traverse lib d current target cts tts =
     (if is_arr current \<or> is_arr target then traverse_list lib d current target cts tts
      else if is_obj target then traverse_no_keys lib d current target @ traverse_new_keys lib d current target cts tts
      else traverse_value lib d current target cts tts)"

definition low_level_generate :: "json_lib \<Rightarrow> diff \<Rightarrow> (err, move) gen" where
  "low_level_generate lib d = traverse lib d (d_current d) (d_target d) [] []"

section \<open>The low-level generator stops only at the target\<close>

lemma gen_move_ne [simp]: "gen_move lib d t cur tgt \<noteq> []"
  by (simp add: gen_move_def gen_of_def)

lemma gen_with_eq_Nil: "gen_with r f = [] \<longleftrightarrow> (\<exists>a. r = Inr a \<and> f a = [])"
  by (cases r) auto

lemma gen_bind_map_Nil: "gen_bind (map Inr xs) f = [] \<longleftrightarrow> (\<forall>x \<in> set xs. f x = [])"
  by (induction xs) auto

lemma concat_map_upt_Nil: "concat (map f [0..<n]) = [] \<longleftrightarrow> (\<forall>i < n. f i = [])"
  by auto

lemma traverse_current_ne: "traverse_current lib d v cts \<noteq> []"
proof (induction lib d v cts rule: traverse_current.induct)
  case (1 lib d xs cts)
  then show ?case by (cases xs) (auto simp: traverse_current_list_def concat_map_upt_Nil simp del: upt_Suc)
next
  case (2 lib d kvs cts)
  then show ?case by (cases kvs) auto
qed auto

lemma traverse_target_ne: "traverse_target lib d v cts tts \<noteq> []"
proof (induction lib d v cts tts rule: traverse_target.induct)
  case (1 lib d xs cts tts)
  then show ?case by (cases xs) (auto simp: traverse_target_list_def concat_map_upt_Nil simp del: upt_Suc)
next
  case (2 lib d kvs cts tts)
  then show ?case by (cases kvs) auto
qed auto

text \<open>Values of a ConfigDB document: dictionaries, scalars, and lists of scalars.\<close>

fun plain_lists :: "json \<Rightarrow> bool" where
  "plain_lists (JArr xs) = (\<forall>x \<in> set xs. hashable x)"
| "plain_lists (JObj kvs) = (\<forall>p \<in> set kvs. plain_lists (snd p))"
| "plain_lists v = True"

lemma json_eq_hashable: "hashable a \<Longrightarrow> json_eq a b \<Longrightarrow> json_eq a c \<longleftrightarrow> json_eq b c"
  by (cases a; cases b; cases c) (auto simp: hashable_def of_bool_def split: if_splits)

lemma json_eq_hashable_sym: "hashable a \<Longrightarrow> hashable b \<Longrightarrow> json_eq a b \<Longrightarrow> json_eq b a"
  by (cases a; cases b) (auto simp: hashable_def)

lemma json_eq_hashable_right: "hashable a \<Longrightarrow> json_eq a b \<Longrightarrow> hashable b"
  by (cases a; cases b) (auto simp: hashable_def)

lemma count_of_eq: "hashable a \<Longrightarrow> json_eq a b \<Longrightarrow> count_of xs a = count_of xs b"
  unfolding count_of_def by (rule arg_cong[where f = length], rule filter_cong[OF refl], rule json_eq_hashable)

lemma count_of_pos: "0 < count_of xs x \<Longrightarrow> \<exists>y \<in> set xs. json_eq x y"
  by (auto simp: count_of_def filter_empty_conv)

lemma counts_le_same:
  assumes "\<forall>x \<in> set xs \<union> set ys. hashable x"
    and "\<forall>x \<in> set xs. count_of xs x \<le> count_of ys x" and "\<forall>y \<in> set ys. count_of ys y \<le> count_of xs y"
  shows "same_counts xs ys"
proof -
  have half: "count_of ys x \<le> count_of xs x" if "hashable x" "\<forall>y \<in> set ys. count_of ys y \<le> count_of xs y" for x xs ys
  proof (cases "count_of ys x")
    case (Suc n)
    then obtain y where "y \<in> set ys" "json_eq x y" using count_of_pos[of ys x] by auto
    with that show ?thesis using count_of_eq[OF that(1)] by metis
  qed simp
  show ?thesis
    unfolding same_counts_def using assms half by (meson Un_iff le_antisym)
qed

lemma counted_items_hashable: "counted_items v = Inr xs \<Longrightarrow> \<forall>x \<in> set xs. hashable x"
  by (auto simp: counted_items_def hash_set_def elim!: rbind_InrE split: if_splits)

lemma traverse_list_NilD:
  assumes "traverse_list lib d c t cts tts = []"
  shows "json_eq c t"
proof -
  from assms obtain xs ys where items: "counted_items c = Inr xs" "counted_items t = Inr ys"
    unfolding traverse_list_def gen_with_eq_Nil by blast
  show ?thesis
  proof (cases "same_counts xs ys")
    case True
    with assms items show ?thesis by (auto simp: traverse_list_def traverse_value_def split: if_splits)
  next
    case False
    have c: "concat (map (\<lambda>i. if count_of xs (xs ! i) > count_of ys (xs ! i)
             then gen_move lib d REMOVE (cts @ [TIdx (int i)]) None else []) [0..<length xs]) = []"
        "concat (map (\<lambda>j. if count_of ys (ys ! j) > count_of xs (ys ! j)
             then gen_move lib d ADD (cts @ [TIdx (int (min (length xs) j))]) (Some (tts @ [TIdx (int j)])) else []) [0..<length ys]) = []"
      using assms items False by (simp_all only: traverse_list_def gen_with_simps if_False append_is_Nil_conv)
    have le1: "count_of xs (xs ! i) \<le> count_of ys (xs ! i)" if "i < length xs" for i
      using c(1)[unfolded concat_map_upt_Nil, rule_format, OF that] by (simp split: if_splits)
    have le2: "count_of ys (ys ! j) \<le> count_of xs (ys ! j)" if "j < length ys" for j
      using c(2)[unfolded concat_map_upt_Nil, rule_format, OF that] by (simp split: if_splits)
    have "same_counts xs ys"
      using counted_items_hashable[OF items(1)] counted_items_hashable[OF items(2)] le1 le2
      by (intro counts_le_same) (auto simp: in_set_conv_nth)
    with False show ?thesis by simp
  qed
qed

lemma traverse_list_Nil:
  assumes "json_eq (JArr xs) (JArr ys)" and "\<forall>x \<in> set xs. hashable x"
  shows "traverse_list lib d (JArr xs) (JArr ys) cts tts = []"
proof -
  have l: "list_all2 json_eq xs ys" using assms(1) by (simp only: json_eq_JArr)
  have hy: "\<forall>y \<in> set ys. hashable y"
  proof
    fix y assume "y \<in> set ys"
    then obtain i where "i < length ys" "y = ys ! i" by (auto simp: in_set_conv_nth)
    with l have "i < length xs" "json_eq (xs ! i) y" by (auto simp: list_all2_conv_all_nth)
    with assms(2) show "hashable y" using json_eq_hashable_right nth_mem by blast
  qed
  have cnt: "count_of xs z = count_of ys z" if "hashable z" for z
    using l assms(2) hy that
  proof (induction rule: list_all2_induct)
    case (Cons x xs y ys)
    then have "json_eq z x \<longleftrightarrow> json_eq z y"
      by (metis json_eq_hashable json_eq_hashable_sym list.set_intros(1))
    with Cons show ?case by (auto simp: count_of_def)
  qed simp
  have "same_counts xs ys" unfolding same_counts_def using cnt assms(2) hy by blast
  with assms hy show ?thesis
    by (simp add: traverse_list_def counted_items_def hash_set_def traverse_value_def del: json_eq.simps)
qed

lemma gen_for_JObj_Nil: "gen_for (JObj e) f = [] \<longleftrightarrow> (\<forall>k \<in> fst ` set e. f (JStr k) = [])"
  unfolding gen_for_def py_iter.simps gen_with_simps gen_bind_map_Nil by auto

lemma traverse_new_keys_Nil:
  "traverse_new_keys lib d (JObj kvs) (JObj e) cts tts = [] \<longleftrightarrow> (\<forall>k \<in> fst ` set e. k \<in> fst ` set kvs)"
proof -
  have "gen_with (py_contains (JObj kvs) (TStr k)) (\<lambda>b. if b then [] else
       gen_with (py_getitem (JObj e) (TStr k)) (\<lambda>v. traverse_target lib d v (cts @ [TStr k]) (tts @ [TStr k]))) = []
     \<longleftrightarrow> k \<in> fst ` set kvs" for k
    by (auto simp: gen_with_eq_Nil traverse_target_ne map_of_eq_None_iff split: option.splits if_splits)
  then show ?thesis
    unfolding traverse_new_keys_def gen_for_JObj_Nil json_token.simps gen_with_simps by blast
qed

text \<open>A dictionary does not face a value of another kind.\<close>

definition dicts_align :: "json \<Rightarrow> json \<Rightarrow> bool" where
  "dicts_align a b \<longleftrightarrow> (\<forall>us x y. py_path a (map TStr us) = Inr x \<longrightarrow> py_path b (map TStr us) = Inr y \<longrightarrow> is_obj x = is_obj y)"

lemma dicts_align_Nil: "dicts_align a b \<Longrightarrow> is_obj a = is_obj b"
  unfolding dicts_align_def by (auto dest: spec[of _ "[]"])

lemma dicts_align_step:
  assumes "dicts_align (JObj d) (JObj e)" and "map_of d k = Some x" and "map_of e k = Some y"
  shows "dicts_align x y"
  unfolding dicts_align_def
proof (intro allI impI)
  fix us x' y' assume "py_path x (map TStr us) = Inr x'" "py_path y (map TStr us) = Inr y'"
  then show "is_obj x' = is_obj y'"
    using assms(1)[unfolded dicts_align_def, rule_format, of "k # us" x' y'] assms(2,3) by simp
qed

lemma traverse_list_eq_scalar:
  assumes "\<not> is_obj c" and "\<not> is_obj t" and "wf_json c" and "plain_lists c" and "is_arr c \<or> is_arr t"
  shows "traverse_list lib d c t cts tts = [] \<longleftrightarrow> json_eq c t"
proof
  assume "json_eq c t"
  with assms(1,2,5) obtain xs ys where "c = JArr xs" "t = JArr ys" by (cases c; cases t) auto
  with \<open>json_eq c t\<close> assms(4) show "traverse_list lib d c t cts tts = []"
    using traverse_list_Nil by (simp del: json_eq.simps)
qed (rule traverse_list_NilD)

lemma traverse_Nil_iff:
  "wf_json c \<Longrightarrow> wf_json t \<Longrightarrow> plain_lists c \<Longrightarrow> dicts_align c t \<Longrightarrow> traverse lib d c t cts tts = [] \<longleftrightarrow> json_eq c t"
proof (induction lib d c t cts tts rule: traverse.induct)
  case (1 lib d kvs t cts tts)
  obtain e where JObj: "t = JObj e"
    using dicts_align_Nil[OF 1(5)] by (cases t) auto
    have sub: "gen_with (py_contains t (TStr (fst p))) (\<lambda>b.
             if b then gen_with (py_getitem t (TStr (fst p))) (\<lambda>t'.
               traverse lib d (snd p) t' (cts @ [TStr (fst p)]) (tts @ [TStr (fst p)]))
             else traverse_current lib d (snd p) (cts @ [TStr (fst p)])) = []
        \<longleftrightarrow> (\<exists>w. map_of e (fst p) = Some w \<and> json_eq (snd p) w)" if p: "p \<in> set kvs" for p
    proof (cases "map_of e (fst p)")
      case None
      then show ?thesis using JObj by (simp add: traverse_current_ne)
    next
      case (Some w)
      have "wf_json w" using 1(3) JObj Some by (auto dest: map_of_wf)
      moreover have "wf_json (snd p)" "plain_lists (snd p)" using 1(2,4) p by auto
      moreover have "map_of kvs (fst p) = Some (snd p)" using 1(2) p by simp
      then have "dicts_align (snd p) w" using 1(5) JObj Some by (auto intro: dicts_align_step)
      ultimately show ?thesis using 1(1)[of p True w] JObj Some p by simp
    qed
    let ?f = "\<lambda>p. gen_with (py_contains t (TStr (fst p))) (\<lambda>b.
             if b then gen_with (py_getitem t (TStr (fst p))) (\<lambda>t'.
               traverse lib d (snd p) t' (cts @ [TStr (fst p)]) (tts @ [TStr (fst p)]))
             else traverse_current lib d (snd p) (cts @ [TStr (fst p)]))"
    have "traverse lib d (JObj kvs) t cts tts = concat (map ?f kvs) @ traverse_new_keys lib d (JObj kvs) t cts tts"
      unfolding JObj traverse.simps(1) by simp
    then have "traverse lib d (JObj kvs) t cts tts = [] \<longleftrightarrow>
        (\<forall>p \<in> set kvs. ?f p = []) \<and> traverse_new_keys lib d (JObj kvs) t cts tts = []"
      by (simp only: append_is_Nil_conv concat_eq_Nil_conv set_map ball_simps)
    also have "\<dots> \<longleftrightarrow> (\<forall>p \<in> set kvs. \<exists>w. map_of e (fst p) = Some w \<and> json_eq (snd p) w) \<and> fst ` set e \<subseteq> fst ` set kvs"
      using sub traverse_new_keys_Nil[of lib d kvs e cts tts] unfolding JObj by blast
    also have "\<dots> \<longleftrightarrow> json_eq (JObj kvs) (JObj e)"
    proof
      assume a: "(\<forall>p \<in> set kvs. \<exists>w. map_of e (fst p) = Some w \<and> json_eq (snd p) w) \<and> fst ` set e \<subseteq> fst ` set kvs"
      then have "fst ` set kvs \<subseteq> fst ` set e" by (force dest: map_of_SomeD)
      with a have "set (map fst kvs) = set (map fst e)" by auto
      moreover have "distinct (map fst kvs)" "distinct (map fst e)" using 1(2,3) JObj by auto
      ultimately have "length kvs = length e" by (metis distinct_card length_map)
      with a show "json_eq (JObj kvs) (JObj e)" unfolding json_eq_JObj by fastforce
    next
      assume a: "json_eq (JObj kvs) (JObj e)"
      have "set (map fst kvs) = set (map fst e)" using json_eq_JObj_keys[OF a] 1(2) by simp
      then have "fst ` set e \<subseteq> fst ` set kvs" by simp
      with a show "(\<forall>p \<in> set kvs. \<exists>w. map_of e (fst p) = Some w \<and> json_eq (snd p) w) \<and> fst ` set e \<subseteq> fst ` set kvs"
        unfolding json_eq_JObj by fastforce
    qed
    finally show ?case using JObj by simp
qed (auto dest: dicts_align_Nil simp: traverse_list_eq_scalar traverse_value_def)

section \<open>The low-level generator does not raise\<close>

definition moves_only :: "(err, move) gen \<Rightarrow> bool" where
  "moves_only g \<longleftrightarrow> (\<forall>x \<in> set g. \<exists>m. x = Inr m)"

lemma moves_only_simps [simp]: "moves_only []" "moves_only (g @ h) \<longleftrightarrow> moves_only g \<and> moves_only h"
  "moves_only (concat gs) \<longleftrightarrow> (\<forall>g \<in> set gs. moves_only g)" "moves_only (gen_move lib d t cur tgt) \<longleftrightarrow> (\<exists>m. json_move lib d t cur tgt = Inr m)"
  by (auto simp: moves_only_def gen_move_def gen_of_def)

lemma moves_only_map: "moves_only g \<longleftrightarrow> (\<exists>moves. g = map Inr moves)"
  by (simp add: moves_only_def ex_map_conv)

lemma moves_only_if: "(b \<Longrightarrow> moves_only g) \<Longrightarrow> (\<not> b \<Longrightarrow> moves_only h) \<Longrightarrow> moves_only (if b then g else h)"
  by simp

lemma moves_only_bind: "(\<And>x. x \<in> set xs \<Longrightarrow> moves_only (f x)) \<Longrightarrow> moves_only (gen_bind (map Inr xs) f)"
  by (induction xs) auto

lemma remove_move: "\<exists>m. json_move lib d REMOVE cur tgt = Inr m"
  by (simp add: json_move_def to_operation_def)

lemma replace_move: "py_path (d_target d) ts = Inr v \<Longrightarrow> \<exists>m. json_move lib d REPLACE cur (Some ts) = Inr m"
  by (simp add: json_move_def to_operation_def target_value_def)

lemma list_get_nth: "i < length xs \<Longrightarrow> list_get xs (int i) = Inr (xs ! i)"
  by (simp add: list_get_def)

text \<open>The path of an item of a list, and where its addition stops.\<close>

lemma filter_config_item:
  "py_path target (map TStr ks) = Inr (JArr ys) \<Longrightarrow> j < length ys \<Longrightarrow>
     filter_config target (map TStr ks @ [TIdx (int j)]) = Inr (nest ks (JArr [ys ! j]))"
proof (induction ks arbitrary: target)
  case (Cons k ks)
  then obtain d x where "target = JObj d" "map_of d k = Some x" "py_path x (map TStr ks) = Inr (JArr ys)"
    by (auto simp: py_path_TStr simp del: py_path.simps)
  with Cons show ?case by simp
qed (simp add: list_get_nth)

lemma filtered_target_item:
  "ks \<noteq> [] \<Longrightarrow> py_path (d_target d) (map TStr ks) = Inr (JArr ys) \<Longrightarrow> j < length ys \<Longrightarrow>
     filtered_target d (map TStr ks @ [TIdx (int j)]) = Inr (nest ks (JArr [ys ! j]))"
  using filter_config_item[of "d_target d" ks ys j]
  by (cases ks) (auto simp: filtered_target_def rbind_eq_Inr split: if_splits)

lemma add_point_list:
  "py_path c (map TStr ks) = Inr (JArr xs) \<Longrightarrow> \<exists>r. add_point c (nest ks (JArr [y])) (map TStr ks @ [TIdx (int i)]) = Inr r"
proof (induction ks arbitrary: c)
  case Nil
  then show ?case by (cases "i < length xs") (simp_all add: filter_step_def beyond_def list_get_def)
next
  case (Cons k ks)
  then obtain d x where c: "c = JObj d" "map_of d k = Some x" "py_path x (map TStr ks) = Inr (JArr xs)"
    by (auto simp: py_path_TStr simp del: py_path.simps)
  from Cons.IH[OF c(3)] obtain r where "add_point x (nest ks (JArr [y])) (map TStr ks @ [TIdx (int i)]) = Inr r" by blast
  with c show ?case by (cases r) (simp add: filter_step_def absent_def)
qed

text \<open>A path with a part the configuration lacks: dictionaries as far as it exists.\<close>

definition lacks :: "json \<Rightarrow> string list \<Rightarrow> bool" where
  "lacks c ks \<longleftrightarrow> put_ok ks c \<and> (\<forall>v. py_path c (map TStr ks) \<noteq> Inr v)"

lemma lacks_Cons: "lacks c (k # ks) \<longleftrightarrow> (\<exists>d. c = JObj d \<and> (case map_of d k of None \<Rightarrow> True | Some w \<Rightarrow> lacks w ks))"
  by (cases c) (auto simp: lacks_def split: option.split)

lemma lacks_append: "lacks c ks \<Longrightarrow> lacks c (ks @ us)"
  by (induction ks arbitrary: c) (auto simp: lacks_Cons split: option.splits, simp add: lacks_def)

lemma lacks_key: "py_path c (map TStr ks) = Inr (JObj d) \<Longrightarrow> map_of d k = None \<Longrightarrow> lacks c (ks @ [k])"
proof (induction ks arbitrary: c)
  case (Cons j ks)
  then obtain e x where "c = JObj e" "map_of e j = Some x" "py_path x (map TStr ks) = Inr (JObj d)"
    by (auto simp: py_path_TStr simp del: py_path.simps)
  with Cons show ?case by (simp add: lacks_Cons)
qed (simp add: lacks_Cons)

lemma add_point_lacks: "lacks c ks \<Longrightarrow> \<exists>r. add_point c (nest ks v) (map TStr ks @ ts) = Inr r"
proof (induction ks arbitrary: c)
  case (Cons k ks)
  then obtain d where c: "c = JObj d" "case map_of d k of None \<Rightarrow> True | Some w \<Rightarrow> lacks w ks" by (auto simp: lacks_Cons)
  show ?case
  proof (cases "map_of d k")
    case (Some w)
    with Cons.IH[of w] c obtain r where "add_point w (nest ks v) (map TStr ks @ ts) = Inr r" by auto
    with Some c show ?thesis by (cases r) (simp add: filter_step_def absent_def)
  qed (simp add: c filter_step_def absent_def)
qed (simp add: lacks_def)

lemma add_move_lacks:
  assumes "lacks (d_current d) ks" and "ks \<noteq> []" and "py_path (d_target d) (map TStr ks) = Inr v"
  shows "\<exists>m. json_move lib d ADD (map TStr ks) (Some (map TStr ks)) = Inr m"
    and "v = JArr ys \<Longrightarrow> j < length ys \<Longrightarrow>
      \<exists>m. json_move lib d ADD (map TStr ks @ [TIdx 0]) (Some (map TStr ks @ [TIdx (int j)])) = Inr m"
  using add_point_lacks[OF assms(1), of v "[]"] add_point_lacks[OF assms(1), of "JArr [ys ! j]" "[TIdx 0]"] assms(2,3)
  by (auto simp: json_move_def to_operation_def to_add_operation_def filtered_target_nest filtered_target_item)

lemma traverse_target_moves:
  "py_path (d_target d) (map TStr ks) = Inr v \<Longrightarrow> wf_json v \<Longrightarrow> ks \<noteq> [] \<Longrightarrow> lacks (d_current d) ks \<Longrightarrow> cts = map TStr ks \<Longrightarrow> tts = map TStr ks \<Longrightarrow>
     moves_only (traverse_target lib d v cts tts)"
proof (induction lib d v cts tts arbitrary: ks rule: traverse_target.induct)
  case (1 lib d xs cts tts)
  then show ?case
    using add_move_lacks[OF "1.prems"(4,3,1)] by (auto simp: traverse_target_list_def simp del: upt_Suc)
next
  case (2 lib d kvs cts tts)
  have "moves_only (traverse_target lib d (snd p) (cts @ [TStr (fst p)]) (tts @ [TStr (fst p)]))" if p: "p \<in> set kvs" "kvs \<noteq> []" for p
  proof (rule "2.IH"[OF p(2,1), of "ks @ [fst p]"])
    have "map_of kvs (fst p) = Some (snd p)" using "2.prems"(2) p(1) by simp
    then show "py_path (d_target d) (map TStr (ks @ [fst p])) = Inr (snd p)"
      using "2.prems"(1) by (simp add: py_path_append)
  qed (use "2.prems" p lacks_append in auto)
  then show ?case using add_move_lacks(1)[OF "2.prems"(4,3,1)] "2.prems"(5,6) by auto
qed (auto dest: add_move_lacks(1))

text \<open>Two lists that face each other.\<close>

lemma traverse_list_moves:
  assumes c: "py_path (d_current d) (map TStr ks) = Inr (JArr xs)" and t: "py_path (d_target d) (map TStr ks) = Inr (JArr ys)"
    and "ks \<noteq> []" and h: "\<forall>x \<in> set xs. hashable x" "\<forall>y \<in> set ys. hashable y"
  shows "moves_only (traverse_list lib d (JArr xs) (JArr ys) (map TStr ks) (map TStr ks))"
proof -
  have items: "counted_items (JArr xs) = Inr xs" "counted_items (JArr ys) = Inr ys"
    using h by (simp_all add: counted_items_def hash_set_def)
  have add: "\<exists>m. json_move lib d ADD (map TStr ks @ [TIdx (int i)]) (Some (map TStr ks @ [TIdx (int j)])) = Inr m" if "j < length ys" for i j
    using add_point_list[OF c, of "ys ! j" i] filtered_target_item[OF assms(3) t that]
    by (auto simp: json_move_def to_operation_def to_add_operation_def)
  have item: "py_path (d_target d) (map TStr ks @ [TIdx (int j)]) = Inr (ys ! j)" if "j < length ys" for j
    using t that by (simp add: py_path_append list_get_nth)
  have replace: "moves_only (traverse_value lib d x y cts (map TStr ks @ [TIdx (int j)]))" if "j < length ys" for x y cts j
    using replace_move[OF item[OF that]] by (auto simp: traverse_value_def)
  have whole: "moves_only (traverse_value lib d (JArr xs) (JArr ys) (map TStr ks) (map TStr ks))"
    using replace_move[OF t] by (auto simp: traverse_value_def)
  show ?thesis
    unfolding traverse_list_def items gen_with_simps
    by (intro moves_only_if whole) (auto simp: remove_move intro!: add replace simp del: upt_Suc)
qed

text \<open>Dictionaries face dictionaries and lists face lists.\<close>

definition kinds_align :: "json \<Rightarrow> json \<Rightarrow> bool" where
  "kinds_align a b \<longleftrightarrow> (\<forall>us x y. py_path a (map TStr us) = Inr x \<longrightarrow> py_path b (map TStr us) = Inr y \<longrightarrow>
     is_obj x = is_obj y \<and> is_arr x = is_arr y)"

lemma kinds_dicts_align: "kinds_align a b \<Longrightarrow> dicts_align a b"
  by (auto simp: kinds_align_def dicts_align_def)

lemma kinds_align_Nil: "kinds_align a b \<Longrightarrow> is_obj a = is_obj b \<and> is_arr a = is_arr b"
  unfolding kinds_align_def by (auto dest: spec[of _ "[]"])

lemma kinds_align_step:
  assumes "kinds_align (JObj d) (JObj e)" and "map_of d k = Some x" and "map_of e k = Some y"
  shows "kinds_align x y"
  unfolding kinds_align_def
proof (intro allI impI)
  fix us x' y' assume "py_path x (map TStr us) = Inr x'" "py_path y (map TStr us) = Inr y'"
  then show "is_obj x' = is_obj y' \<and> is_arr x' = is_arr y'"
    using assms(1)[unfolded kinds_align_def, rule_format, of "k # us" x' y'] assms(2,3) by simp
qed

lemma traverse_current_moves: "moves_only (traverse_current lib d v cts)"
  by (induction lib d v cts rule: traverse_current.induct) (auto simp: traverse_current_list_def remove_move simp del: upt_Suc)

lemma new_keys_moves:
  assumes "py_path (d_current d) (map TStr ks) = Inr (JObj kvs)" and "py_path (d_target d) (map TStr ks) = Inr (JObj e)" and "wf_json (JObj e)"
  shows "moves_only (traverse_new_keys lib d (JObj kvs) (JObj e) (map TStr ks) (map TStr ks))"
proof -
  have "moves_only (traverse_target lib d v (map TStr ks @ [TStr k]) (map TStr ks @ [TStr k]))"
    if "map_of kvs k = None" "map_of e k = Some v" for k v
  proof (rule traverse_target_moves)
    show "py_path (d_target d) (map TStr (ks @ [k])) = Inr v" using assms(2) that(2) by (simp add: py_path_append)
    show "wf_json v" using assms(3) that(2) by (rule map_of_wf)
    show "lacks (d_current d) (ks @ [k])" using assms(1) that(1) by (rule lacks_key)
  qed simp_all
  then have step: "moves_only (gen_with (py_contains (JObj kvs) (TStr k)) (\<lambda>b. if b then [] else
       gen_with (py_getitem (JObj e) (TStr k)) (\<lambda>v. traverse_target lib d v (map TStr ks @ [TStr k]) (map TStr ks @ [TStr k]))))"
    if "k \<in> fst ` set e" for k
    using that by (auto simp: map_of_eq_None_iff split: option.split dest: weak_map_of_SomeI)
  then have "moves_only (gen_with (json_token x) (\<lambda>key. gen_with (py_contains (JObj kvs) key) (\<lambda>b. if b then [] else
       gen_with (py_getitem (JObj e) key) (\<lambda>v. traverse_target lib d v (map TStr ks @ [key]) (map TStr ks @ [key])))))"
    if x: "x \<in> set (map (JStr \<circ> fst) e)" for x
  proof -
    obtain k where "x = JStr k" "k \<in> fst ` set e" using x by auto
    then show ?thesis using step by (simp only: json_token.simps gen_with_simps)
  qed
  then show ?thesis
    unfolding traverse_new_keys_def gen_for_def py_iter.simps gen_with_simps by (intro moves_only_bind) (simp only: comp_def)
qed

text \<open>A value that is not a dictionary faces another one that is not.\<close>

lemma facing_moves:
  assumes "kinds_align c t" and "\<not> is_obj c" and "ks \<noteq> []" and "plain_lists c" and "plain_lists t"
    and "py_path (d_current d) (map TStr ks) = Inr c" and "py_path (d_target d) (map TStr ks) = Inr t"
  shows "\<not> is_obj t" and "is_arr c \<or> is_arr t \<Longrightarrow> moves_only (traverse_list lib d c t (map TStr ks) (map TStr ks))"
    and "moves_only (traverse_value lib d c t (map TStr ks) (map TStr ks))"
proof -
  note k = kinds_align_Nil[OF assms(1)]
  then show "\<not> is_obj t" using assms(2) by simp
  show "moves_only (traverse_list lib d c t (map TStr ks) (map TStr ks))" if a: "is_arr c \<or> is_arr t"
  proof -
    obtain xs ys where "c = JArr xs" "t = JArr ys" using k a by (cases c; cases t) auto
    then show ?thesis using traverse_list_moves assms by simp
  qed
  show "moves_only (traverse_value lib d c t (map TStr ks) (map TStr ks))"
    using replace_move[OF assms(7)] by (auto simp: traverse_value_def)
qed

lemma traverse_moves:
  "cts = map TStr ks \<Longrightarrow> tts = map TStr ks \<Longrightarrow> py_path (d_current d) (map TStr ks) = Inr c \<Longrightarrow> py_path (d_target d) (map TStr ks) = Inr t \<Longrightarrow>
     wf_json c \<Longrightarrow> wf_json t \<Longrightarrow> plain_lists c \<Longrightarrow> plain_lists t \<Longrightarrow> kinds_align c t \<Longrightarrow> (ks = [] \<longrightarrow> is_obj c) \<Longrightarrow>
     moves_only (traverse lib d c t cts tts)"
proof (induction lib d c t cts tts arbitrary: ks rule: traverse.induct)
  case (1 lib d kvs t cts tts)
  obtain e where e: "t = JObj e" using kinds_align_Nil[OF "1.prems"(9)] by (cases t) auto
  have "moves_only (traverse lib d (snd p) w (cts @ [TStr (fst p)]) (tts @ [TStr (fst p)]))"
    if p: "p \<in> set kvs" and w: "map_of e (fst p) = Some w" for p w
  proof (rule "1.IH"[of p True w "ks @ [fst p]"])
    have m: "map_of kvs (fst p) = Some (snd p)" using "1.prems"(5) p by simp
    show "py_path (d_current d) (map TStr (ks @ [fst p])) = Inr (snd p)" using "1.prems"(3) m by (simp add: py_path_append)
    show "py_path (d_target d) (map TStr (ks @ [fst p])) = Inr w" using "1.prems"(4) w e by (simp add: py_path_append)
    show "kinds_align (snd p) w" using "1.prems"(9) m w unfolding e by (rule kinds_align_step)
    show "wf_json w" "plain_lists w" using "1.prems"(6,8) w e by (auto dest: map_of_wf map_of_SomeD)
  qed (use "1.prems" p w e in auto)
  then have "moves_only (gen_with (py_contains t (TStr (fst p))) (\<lambda>b.
             if b then gen_with (py_getitem t (TStr (fst p))) (\<lambda>t.
               traverse lib d (snd p) t (cts @ [TStr (fst p)]) (tts @ [TStr (fst p)]))
             else traverse_current lib d (snd p) (cts @ [TStr (fst p)])))" if "p \<in> set kvs" for p
    using that traverse_current_moves by (auto simp: e split: option.splits)
  moreover have "moves_only (traverse_new_keys lib d (JObj kvs) t cts tts)"
    using new_keys_moves "1.prems" unfolding e by simp
  ultimately show ?case unfolding traverse.simps(1) moves_only_simps by (auto simp: e simp del: py_contains.simps py_getitem.simps)
qed (use facing_moves in auto)

text \<open>C30. The low-level generator always has a move to offer while work is left, and never raises: on well-formed
  configurations whose lists hold scalars, the current one a dictionary, in which at every path of keys they share a
  dictionary faces a dictionary and a list a list, everything it yields is a move (every lookup in the two
  configurations and every construction of a move succeeds), and it yields none exactly when the configurations are
  equal.\<close>

theorem low_level_live:
  assumes "wf_json (d_current d)" and "wf_json (d_target d)" and "plain_lists (d_current d)" and "plain_lists (d_target d)"
    and "is_obj (d_current d)" and "kinds_align (d_current d) (d_target d)"
  shows "\<exists>moves. low_level_generate lib d = map Inr moves \<and> (moves = [] \<longleftrightarrow> has_no_diff d)"
proof -
  have "moves_only (low_level_generate lib d)"
    unfolding low_level_generate_def using assms by (intro traverse_moves[of "[]" "[]"]) simp_all
  then obtain moves where "low_level_generate lib d = map Inr moves" by (auto simp: moves_only_map)
  moreover have "low_level_generate lib d = [] \<longleftrightarrow> has_no_diff d"
    using assms kinds_dicts_align by (simp add: low_level_generate_def has_no_diff_def traverse_Nil_iff)
  ultimately show ?thesis by auto
qed

theorem low_level_live_witness:
  "\<exists>moves. low_level_generate ref_lib port_diff = map Inr moves \<and> moves \<noteq> []"
proof -
  have "kinds_align (d_current port_diff) (d_target port_diff)"
    unfolding kinds_align_def
  proof (intro allI impI)
    fix us x y assume "py_path (d_current port_diff) (map TStr us) = Inr x" "py_path (d_target port_diff) (map TStr us) = Inr y"
    then show "is_obj x = is_obj y \<and> is_arr x = is_arr y"
      by (cases us; cases "tl us"; cases "tl (tl us)"; cases "tl (tl (tl us))")
         (auto simp: port_diff_def py_path_TStr split: if_splits simp del: py_path.simps(2))
  qed
  then have "\<exists>moves. low_level_generate ref_lib port_diff = map Inr moves \<and> (moves = [] \<longleftrightarrow> has_no_diff port_diff)"
    by (intro low_level_live) (simp_all add: port_diff_def)
  moreover have "\<not> has_no_diff port_diff" by (simp add: has_no_diff_def port_diff_def)
  ultimately show ?thesis by simp
qed

end
