(* ===== verification/MoveExtenders.thy ===== *)
theory MoveExtenders
  imports MoveValidators
begin

text \<open>
  The move extenders of \<open>patch_sorter.py\<close>. \<open>MoveWrapper\<close> takes all that an extender yields before it goes on,
  so an extender is the list of its moves, or the exception it raises. The moves of the low-level
  generator share one mutable token list, which is emptied when the generator is through; a removal
  that \<open>DeleteInsteadOfReplaceMoveExtender\<close> makes from such a move is extended later with that empty
  list, so that its parent is not offered again (it was, by the replacement it was made from). Token lists
  here are values.
\<close>

definition gen_all :: "err + 'a list \<Rightarrow> (err, 'a) gen" where
  "gen_all r = (case r of Inl e \<Rightarrow> [Inl e] | Inr xs \<Rightarrow> map Inr xs)"

section \<open>RequiredValueMoveExtender\<close>

text \<open>The moves that turn a required path to its value, one per path.\<close>

definition turn_move :: "json_lib \<Rightarrow> json \<Rightarrow> string \<times> string \<Rightarrow> err + move list" where
  "turn_move lib current = (\<lambda>(rp, rv).
     rbind (get_value_or_default lib current rp) (\<lambda>actual.
       if actual = JNull \<or> json_eq actual (JStr rv) then Inr []
       else rbind (from_operation lib \<lparr>op = ''replace'', path = rp, op_value = Some (JStr rv), op_from = None\<rparr>) (\<lambda>m. Inr [m])))"

definition turn_moves :: "json_lib \<Rightarrow> json \<Rightarrow> json \<Rightarrow> required_data \<Rightarrow> err + move list" where
  "turn_moves lib current simulated required_data =
     rfoldM (\<lambda>processed (p, required).
       rbind (is_config_different lib p current simulated) (\<lambda>b. if \<not> b then Inr processed else
       rbind (rmapM (turn_move lib current) required) (\<lambda>mss.
         Inr (fold (\<lambda>m ms. if move_in m ms then ms else ms @ [m]) (concat mss) processed)))) [] required_data"

definition flip_pair :: "json_lib \<Rightarrow> json \<Rightarrow> json \<Rightarrow> string \<times> string \<Rightarrow> err + (string \<times> string) list" where
  "flip_pair lib current simulated = (\<lambda>(rp, rv).
     rbind (get_value_or_default lib current rp) (\<lambda>c.
     rbind (get_value_or_default lib simulated rp) (\<lambda>s.
       Inr (if s \<noteq> JNull \<and> \<not> json_eq c s \<and> \<not> json_eq s (JStr rv) then [(rp, rv)] else []))))"

definition flip_pairs :: "json_lib \<Rightarrow> json \<Rightarrow> json \<Rightarrow> json \<Rightarrow> required_data \<Rightarrow> err + (string \<times> string) list" where
  "flip_pairs lib current simulated target required_data =
     rbind (rmapM (\<lambda>(p, required).
       rbind (is_config_different lib p current target) (\<lambda>b. if \<not> b then Inr [] else
       rbind (rmapM (flip_pair lib current simulated) required) (\<lambda>pss. Inr (concat pss)))) required_data)
       (\<lambda>pss. Inr (remdups (concat pss)))"

fun set_at :: "string list \<Rightarrow> json \<Rightarrow> json \<Rightarrow> err + json" where
  "set_at [] v c = Inr v"
| "set_at [k] v c = (case c of JObj d \<Rightarrow> Inr (JObj (AList.update k v d)) | _ \<Rightarrow> Inl TypeError)"
| "set_at (k # j # ks) v c =
     (case c of JObj d \<Rightarrow> rbind (py_key c k) (\<lambda>w. rbind (set_at (j # ks) v w) (\<lambda>w'. Inr (JObj (AList.update k w' d))))
      | _ \<Rightarrow> Inl TypeError)"

definition change_value :: "string list \<Rightarrow> json \<Rightarrow> string list \<Rightarrow> json \<Rightarrow> err + json" where
  "change_value field_tokens field_value move_tokens move_value =
     set_at (drop (length move_tokens) field_tokens) field_value move_value"

definition flip_move :: "json_lib \<Rightarrow> move \<Rightarrow> (string \<times> string) list \<Rightarrow> err + move" where
  "flip_move lib m pairs =
     rbind (get_path_tokens lib (move_path m)) (\<lambda>move_tokens.
     rbind (rfoldM (\<lambda>v (fp, fv). rbind (get_path_tokens lib fp) (\<lambda>field_tokens.
        change_value field_tokens (JStr fv) move_tokens v)) (opt_json (op_value (mv_operation m))) pairs) (\<lambda>new_value.
       from_operation lib (create_operation (mv_op m) (move_path m) (Some new_value))))"

definition required_value_extend :: "json_lib \<Rightarrow> move \<Rightarrow> diff \<Rightarrow> (err, move) gen" where
  "required_value_extend lib m d =
     (if mv_op m = REMOVE \<and> move_path m = [] then []
      else gen_all (
        rbind (move_apply lib m (d_current d)) (\<lambda>simulated.
        rbind (get_required_value_data lib [d_current d, simulated, d_target d]) (\<lambda>required_data.
        rbind (turn_moves lib (d_current d) simulated required_data) (\<lambda>turned.
        rbind (flip_pairs lib (d_current d) simulated (d_target d) required_data) (\<lambda>pairs.
          if pairs = [] then Inr turned
          else rbind (flip_move lib m pairs) (\<lambda>flipped. Inr (turned @ [flipped]))))))))"

section \<open>UpperLevelMoveExtender\<close>

fun upper_operation :: "token list \<Rightarrow> json \<Rightarrow> json \<Rightarrow> err + op_type" where
  "upper_operation [] current target = Inr REPLACE"
| "upper_operation (t # ts) current target =
     rbind (py_contains current t) (\<lambda>in_current. if \<not> in_current then Inr ADD else
     rbind (py_getitem current t) (\<lambda>c.
     rbind (py_contains target t) (\<lambda>in_target. if \<not> in_target then Inr REMOVE else
     rbind (py_getitem target t) (\<lambda>t'. upper_operation ts c t'))))"

definition upper_level_extend :: "json_lib \<Rightarrow> move \<Rightarrow> diff \<Rightarrow> (err, move) gen" where
  "upper_level_extend lib m d =
     (if mv_current m = [] then []
      else gen_all (let upper = butlast (mv_current m) in
        rbind (upper_operation upper (d_current d) (d_target d)) (\<lambda>t.
        rbind (json_move lib d t upper (if t \<in> {ADD, REPLACE} then Some upper else None)) (\<lambda>u. Inr [u]))))"

section \<open>DeleteInsteadOfReplaceMoveExtender and DeleteRefsMoveExtender\<close>

definition delete_instead_of_replace_extend :: "json_lib \<Rightarrow> move \<Rightarrow> diff \<Rightarrow> (err, move) gen" where
  "delete_instead_of_replace_extend lib m d =
     (if mv_op m \<noteq> REPLACE \<or> mv_current m = [] then []
      else gen_all (rbind (json_move lib d REMOVE (mv_current m) None) (\<lambda>r. Inr [r])))"

definition delete_refs_extend :: "json_lib \<Rightarrow> yang_lib \<Rightarrow> move \<Rightarrow> diff \<Rightarrow> (err, move) gen" where
  "delete_refs_extend lib sy m d =
     (if mv_op m \<noteq> REMOVE then []
      else gen_all (
        rbind (find_ref_paths lib sy (move_path m) (d_current d)) (\<lambda>refs.
        rmapM (\<lambda>r. rbind (get_path_tokens lib r) (\<lambda>ts. json_move lib d REMOVE (map TStr ts) None)) refs)))"

end
