(* ===== verification/PatchSorter.thy ===== *)
theory PatchSorter
  imports SorterBfs SorterMemo MoveGenerators MoveExtenders
begin

text \<open>
  \<open>SortAlgorithmFactory\<close>, \<open>PatchSorter\<close> and \<open>StrictPatchSorter\<close> of \<open>patch_sorter.py\<close>: the wrapper with its
  generators, extenders and validators, the choice of the algorithm, and the sorting of a patch into a list
  of changes. The search runs with two bounds, \<open>queue_fuel\<close> for the queue of moves to extend and
  \<open>search_fuel\<close> for the search itself; a run that exceeds one ends with \<open>OutOfFuel\<close>, and
  \<open>wrapper_generate_correct\<close>, \<open>dfs_sorter_correct\<close> and \<open>bfs_sorter_correct\<close> say how large they need to be.
\<close>

section \<open>SortAlgorithmFactory\<close>

datatype algorithm = DFS | BFS | MEMOIZATION

definition sort_wrapper :: "json_lib \<Rightarrow> yang_lib \<Rightarrow> wrapper" where
  "sort_wrapper lib sy = \<lparr>
     w_generators = [remove_create_only_dependency_generate lib sy, low_level_generate lib],
     w_non_extendable = [key_level_generate lib],
     w_extenders = [required_value_extend lib, upper_level_extend lib, delete_instead_of_replace_extend lib, delete_refs_extend lib sy],
     w_validators = [delete_whole_config_validate, full_config_validate lib sy, no_dependency_validate lib sy,
       create_only_validate lib, required_value_validate lib, remove_create_only_dependency_validate lib sy,
       no_empty_table_validate lib]\<rparr>"

record sort_env =
  se_lib :: json_lib
  se_yang :: yang_lib
  se_running :: "err + json"
  se_queue_fuel :: nat
  se_search_fuel :: nat

definition sort_ops :: "sort_env \<Rightarrow> (diff, move, json \<times> json) search_ops" where
  "sort_ops E = wrapper_ops (se_lib E) (sort_wrapper (se_lib E) (se_yang E)) (se_queue_fuel E)"

definition sort_moves :: "sort_env \<Rightarrow> algorithm \<Rightarrow> diff \<Rightarrow> err + move list option" where
  "sort_moves E algorithm d =
     (case algorithm of
        DFS \<Rightarrow> fst (dfs_sort (sort_ops E) (se_search_fuel E) d [])
      | BFS \<Rightarrow> bfs_sort (sort_ops E) (se_search_fuel E) d
      | MEMOIZATION \<Rightarrow> fst (memo_sort (sort_ops E) (se_search_fuel E) d ([], [])))"

section \<open>PatchSorter and StrictPatchSorter\<close>

text \<open>A preloaded configuration that is false in Python (the empty one) is not used.\<close>

definition preloaded_or_running :: "sort_env \<Rightarrow> json option \<Rightarrow> err + json" where
  "preloaded_or_running E preloaded =
     (case preloaded of
        Some c \<Rightarrow> if py_truthy c then Inr c else se_running E
      | None \<Rightarrow> se_running E)"

definition patch_sorter_sort :: "sort_env \<Rightarrow> patch \<Rightarrow> algorithm \<Rightarrow> json option \<Rightarrow> err + patch list" where
  "patch_sorter_sort E p algorithm preloaded =
     rbind (preloaded_or_running E preloaded) (\<lambda>current.
     rbind (simulate_patch (se_lib E) p current) (\<lambda>target.
     rbind (sort_moves E algorithm \<lparr>d_current = current, d_target = target\<rparr>) (\<lambda>moves.
       case moves of None \<Rightarrow> Inl GenericConfigUpdaterError
       | Some ms \<Rightarrow> Inr (map (\<lambda>m. [mv_operation m]) ms))))"

definition strict_sort :: "sort_env \<Rightarrow> patch \<Rightarrow> algorithm \<Rightarrow> err + patch list" where
  "strict_sort E p algorithm =
     rbind (se_running E) (\<lambda>current.
     rbind (validate_patch_has_yang_models (se_lib E) (se_yang E) p) (\<lambda>b. if \<not> b then Inl ValueError else
     rbind (simulate_patch (se_lib E) p current) (\<lambda>target.
     rbind (validate_config_db_config (se_yang E) target) (\<lambda>is_valid. if \<not> is_valid then Inl ValueError else
       patch_sorter_sort E p algorithm None))))"

section \<open>What a sequence of changes does\<close>

text \<open>The configurations after each change.\<close>

fun run_changes :: "json_lib \<Rightarrow> json \<Rightarrow> patch list \<Rightarrow> err + json list" where
  "run_changes lib c [] = Inr []"
| "run_changes lib c (p # ps) =
     rbind (change_apply lib p c) (\<lambda>c'. rbind (run_changes lib c' ps) (\<lambda>cs. Inr (c' # cs)))"

text \<open>Accepted moves pass YANG validation, and no move touches the target: the wrapper satisfies both laws.\<close>

definition yang_valid :: "yang_lib \<Rightarrow> diff \<Rightarrow> bool" where
  "yang_valid sy d \<longleftrightarrow> validate_config_db_config sy (d_current d) = Inr True"

lemma sort_ops_sel:
  "so_validate (sort_ops E) m d = wrapper_validate (sort_wrapper (se_lib E) (se_yang E)) m d"
  "so_simulate (sort_ops E) m d = apply_move (se_lib E) d m"
  "so_done (sort_ops E) d = has_no_diff d"
  by (simp_all add: sort_ops_def wrapper_ops_def wrapper_simulate_def)

lemma accepted_by_each:
  assumes "so_validate (sort_ops E) m d = Inr True"
  shows "full_config_validate (se_lib E) (se_yang E) m d = Inr True"
    and "no_dependency_validate (se_lib E) (se_yang E) m d = Inr True"
    and "create_only_validate (se_lib E) m d = Inr True"
    and "required_value_validate (se_lib E) m d = Inr True"
    and "no_empty_table_validate (se_lib E) m d = Inr True"
  using assms unfolding sort_ops_sel wrapper_validate_def sort_wrapper_def by (auto simp: rforall_True simp del: rforall.simps)

lemma apply_moveE:
  assumes "apply_move lib d m = Inr d'"
  obtains c where "move_apply lib m (d_current d) = Inr c" and "d' = \<lparr>d_current = c, d_target = d_target d\<rparr>"
  using assms by (auto simp: apply_move_def elim!: rbind_InrE)

interpretation sorter_yang: validated_search "sort_ops E" "yang_valid (se_yang E)" for E
proof
  fix d m d' assume "move_step (sort_ops E) d m d'"
  then have v: "so_validate (sort_ops E) m d = Inr True" and s: "apply_move (se_lib E) d m = Inr d'"
    by (auto elim!: move_stepE simp: sort_ops_sel)
  from s obtain c where c: "move_apply (se_lib E) m (d_current d) = Inr c" "d' = \<lparr>d_current = c, d_target = d_target d\<rparr>"
    by (rule apply_moveE)
  with accepted_by_each(1)[OF v] show "yang_valid (se_yang E) d'"
    by (simp add: full_config_validate_def yang_valid_def)
qed

interpretation sorter_target: invariant_search "sort_ops E" "\<lambda>d. d_target d = T" for E T
proof
  fix d m d' assume "d_target d = T" "move_step (sort_ops E) d m d'"
  then have "apply_move (se_lib E) d m = Inr d'" by (auto elim!: move_stepE simp: sort_ops_sel)
  then show "d_target d' = T" using \<open>d_target d = T\<close> by (elim apply_moveE) simp
qed

lemma run_moves_changes:
  "run_moves (sort_ops E) d ms = Inr ds \<Longrightarrow>
     run_changes (se_lib E) (d_current d) (map (\<lambda>m. [mv_operation m]) ms) = Inr (map d_current ds)"
proof (induction ms arbitrary: d ds)
  case (Cons m ms)
  then obtain d' ds' where s: "apply_move (se_lib E) d m = Inr d'" "run_moves (sort_ops E) d' ms = Inr ds'" "ds = d' # ds'"
    by (auto simp: sort_ops_sel elim!: rbind_InrE)
  from s(1) obtain c where "move_apply (se_lib E) m (d_current d) = Inr c" "d' = \<lparr>d_current = c, d_target = d_target d\<rparr>"
    by (rule apply_moveE)
  with s Cons.IH[OF s(2)] show ?case by (simp add: change_apply_def move_apply_def)
qed simp

lemma last_map_ne: "last (f d # map f ds) = f (last (d # ds))"
  by (induction ds arbitrary: d) auto

lemma sort_moves_plan:
  "algorithm \<noteq> MEMOIZATION \<Longrightarrow> sort_moves E algorithm d = Inr (Some ms) \<Longrightarrow> \<exists>e. plan (sort_ops E) d ms e \<and> has_no_diff e"
  using dfs_sound(1)[of "sort_ops E" "se_search_fuel E" d "[]" ms] bfs_sort_sound[of "sort_ops E" "se_search_fuel E" d ms]
  by (cases algorithm; cases "dfs_sort (sort_ops E) (se_search_fuel E) d []") (auto simp: sort_moves_def sort_ops_sel)

lemma plan_changes:
  assumes "plan (sort_ops E) d ms e" and "has_no_diff e"
  shows "\<exists>cs. run_changes (se_lib E) (d_current d) (map (\<lambda>m. [mv_operation m]) ms) = Inr cs \<and>
    (\<forall>c \<in> set cs. validate_config_db_config (se_yang E) c = Inr True) \<and> json_eq (last (d_current d # cs)) (d_target d)"
proof -
  obtain ds where ds: "run_moves (sort_ops E) d ms = Inr ds" "last (d # ds) = e"
    using plan_run_moves[OF assms(1)] by blast
  have "d_target e = d_target d" using sorter_target.plan_keeps[OF assms(1)] by simp
  with assms(2) ds(2) have "json_eq (last (d_current d # map d_current ds)) (d_target d)"
    by (simp only: last_map_ne has_no_diff_def)
  moreover have "\<forall>c \<in> set (map d_current ds). validate_config_db_config (se_yang E) c = Inr True"
    using sorter_yang.plan_good[OF assms(1) ds(1)] by (auto simp: yang_valid_def)
  ultimately show ?thesis using run_moves_changes[OF ds(1)] by blast
qed

lemma strict_sort_run:
  assumes "strict_sort E p algorithm = Inr changes" and "algorithm \<noteq> MEMOIZATION"
  shows "\<exists>current target cs. se_running E = Inr current \<and>
    simulate_patch (se_lib E) p current = Inr target \<and> validate_config_db_config (se_yang E) target = Inr True \<and>
    validate_patch_has_yang_models (se_lib E) (se_yang E) p = Inr True \<and>
    run_changes (se_lib E) current changes = Inr cs \<and>
    (\<forall>c \<in> set cs. validate_config_db_config (se_yang E) c = Inr True) \<and> json_eq (last (current # cs)) target"
proof -
  obtain current target where c: "se_running E = Inr current"
      "simulate_patch (se_lib E) p current = Inr target" "validate_config_db_config (se_yang E) target = Inr True"
      "validate_patch_has_yang_models (se_lib E) (se_yang E) p = Inr True"
      "patch_sorter_sort E p algorithm None = Inr changes"
    using assms(1) by (auto simp: strict_sort_def elim!: rbind_InrE split: if_splits)
  then obtain ms where ms: "sort_moves E algorithm \<lparr>d_current = current, d_target = target\<rparr> = Inr (Some ms)"
      "changes = map (\<lambda>m. [mv_operation m]) ms"
    by (auto simp: patch_sorter_sort_def preloaded_or_running_def elim!: rbind_InrE split: option.splits)
  obtain e where "plan (sort_ops E) \<lparr>d_current = current, d_target = target\<rparr> ms e" "has_no_diff e"
    using sort_moves_plan[OF assms(2) ms(1)] by blast
  from plan_changes[OF this] c ms(2) show ?thesis by auto
qed

text \<open>C2. The list of changes \<open>StrictPatchSorter\<close> returns, applied one after the other to the running configuration, can be
  applied throughout; every configuration on the way passes YANG validation; and the last is the
  configuration the patch describes, itself validated beforehand. (Depth-first, the default, or
  breadth-first.)\<close>

theorem strict_sort_safe:
  assumes "strict_sort E p algorithm = Inr changes" and "algorithm \<noteq> MEMOIZATION"
  shows "\<exists>current target cs. se_running E = Inr current \<and>
    simulate_patch (se_lib E) p current = Inr target \<and> validate_config_db_config (se_yang E) target = Inr True \<and>
    validate_patch_has_yang_models (se_lib E) (se_yang E) p = Inr True \<and>
    run_changes (se_lib E) current changes = Inr cs \<and>
    (\<forall>c \<in> set cs. validate_config_db_config (se_yang E) c = Inr True) \<and> json_eq (last (current # cs)) target"
  using strict_sort_run[OF assms] .

text \<open>A patch of two operations, sorted into the two moves below.\<close>

definition port_env :: sort_env where
  "port_env = \<lparr>se_lib = ref_lib, se_yang = port_yang, se_running = get_config_db_as_json (Printed port_config),
     se_queue_fuel = 50, se_search_fuel = 10\<rparr>"

definition port_patch :: patch where
  "port_patch = [create_operation ADD ''/PORT/Ethernet4'' (Some (JObj [(''mtu'', JStr ''1500'')])),
     create_operation REPLACE ''/PORT/Ethernet0~11/mtu'' (Some (JStr ''1500''))]"

lemma port_sorted: "strict_sort port_env port_patch DFS = Inr (map (\<lambda>o1. [o1]) port_patch)"
  by code_simp

theorem strict_sort_safe_witness:
  "\<exists>current target cs. strict_sort port_env port_patch DFS = Inr (map (\<lambda>o1. [o1]) port_patch) \<and>
    get_config_db_as_json (Printed port_config) = Inr current \<and> simulate_patch ref_lib port_patch current = Inr target \<and>
    run_changes ref_lib current (map (\<lambda>o1. [o1]) port_patch) = Inr cs \<and>
    (\<forall>c \<in> set cs. validate_config_db_config port_yang c = Inr True) \<and> json_eq (last (current # cs)) target"
  using strict_sort_safe[OF port_sorted] port_sorted by (fastforce simp: port_env_def)

end
