(* ===== verification/ConfigSplitters.thy ===== *)
theory ConfigSplitters
  imports PatchSorter
begin

text \<open>
  The configuration splitters, \<open>ChangeWrapper\<close> and \<open>NonStrictPatchSorter\<close> of \<open>patch_sorter.py\<close>: a configuration is
  split into a part covered by YANG and the rest, the two are sorted on their own, and the changes are
  adjusted to the merged configuration. What splitting and merging mean is stated on the nodes of a
  document (\<open>node_at\<close>): merging is the left-biased union of the nodes, and the locale \<open>config_splitting\<close> is the
  contract of a splitter.
\<close>

section \<open>Merging\<close>

text \<open>\<open>__recursive_append\<close>: the target must be a dictionary; a value that is none and not empty cannot be
  looked up by its items.\<close>

definition append_scalar :: "json \<Rightarrow> json \<Rightarrow> err + json" where
  "append_scalar target additional =
     (if \<not> is_obj target then Inl ValueError
      else rbind (py_iter additional) (\<lambda>ks. if ks = [] then Inr target else Inl TypeError))"

fun recursive_append :: "json \<Rightarrow> json \<Rightarrow> err + json" where
  "recursive_append target (JObj ad) =
     (case target of
        JObj d \<Rightarrow> rbind (rfoldM (\<lambda>t p. case map_of t (fst p) of
            None \<Rightarrow> Inr (AList.update (fst p) (snd p) t)
          | Some w \<Rightarrow> rbind (recursive_append w (snd p)) (\<lambda>w'. Inr (AList.update (fst p) w' t))) d ad) (\<lambda>d'. Inr (JObj d'))
      | _ \<Rightarrow> Inl ValueError)"
| "recursive_append target additional = append_scalar target additional"

definition merge_configs :: "json \<Rightarrow> json \<Rightarrow> err + json" where
  "merge_configs config1 config2 = recursive_append config1 config2"

section \<open>Splitters\<close>

definition tables_without_yang_split :: "yang_lib \<Rightarrow> json \<Rightarrow> err + (json \<times> json)" where
  "tables_without_yang_split sy config =
     rbind (crop_tables_without_yang sy config) (\<lambda>with_yang.
     rbind (py_iter config) (\<lambda>ts.
     rbind (rfoldM (\<lambda>rest t. rbind (as_str t) (\<lambda>key. rbind (py_contains with_yang (TStr key)) (\<lambda>b.
       if b then Inr rest else rbind (py_key config key) (\<lambda>v. Inr (AList.update key v rest))))) [] ts) (\<lambda>rest.
       Inr (with_yang, JObj rest))))"

fun ignore_paths_loop :: "json_lib \<Rightarrow> json \<Rightarrow> json \<Rightarrow> json \<Rightarrow> string list \<Rightarrow> err + (json \<times> json)" where
  "ignore_paths_loop lib config with_yang without_yang [] =
     rbind (remove_empty_tables with_yang) (\<lambda>a. rbind (remove_empty_tables without_yang) (\<lambda>b. Inr (a, b)))"
| "ignore_paths_loop lib config with_yang without_yang (p # ps) =
     rbind (has_path lib with_yang p) (\<lambda>b.
       if \<not> b then ignore_paths_loop lib config with_yang without_yang ps
       else if p = [] then Inr (JObj [], config)
       else rbind (get_path_tokens lib p) (\<lambda>ks. let ts = map TStr ks in
         rbind (json_move lib \<lparr>d_current = without_yang, d_target = with_yang\<rparr> ADD ts (Some ts)) (\<lambda>add_move.
         rbind (move_apply lib add_move without_yang) (\<lambda>without_yang'.
         rbind (json_move lib \<lparr>d_current = with_yang, d_target = JObj []\<rparr> REMOVE ts None) (\<lambda>remove_move.
         rbind (move_apply lib remove_move with_yang) (\<lambda>with_yang'.
           ignore_paths_loop lib config with_yang' without_yang' ps))))))"

definition ignore_paths_split :: "json_lib \<Rightarrow> string list \<Rightarrow> json \<Rightarrow> err + (json \<times> json)" where
  "ignore_paths_split lib ignore_paths config = ignore_paths_loop lib config config (JObj []) ignore_paths"

type_synonym splitter = "json \<Rightarrow> err + (json \<times> json)"

definition split_step :: "json \<times> json \<Rightarrow> splitter \<Rightarrow> err + (json \<times> json)" where
  "split_step parts inner =
     rbind (inner (fst parts)) (\<lambda>(with_yang, additional).
     rbind (merge_configs (snd parts) additional) (\<lambda>without_yang. Inr (with_yang, without_yang)))"

definition config_split :: "splitter list \<Rightarrow> splitter" where
  "config_split inner_splitters config =
     rbind (get_empty_tables config) (\<lambda>empty_tables.
       if empty_tables \<noteq> [] then Inl ValueError
       else rfoldM split_step (config, JObj []) inner_splitters)"

section \<open>ChangeWrapper and NonStrictPatchSorter\<close>

fun adjust_changes :: "json_lib \<Rightarrow> patch list \<Rightarrow> json \<Rightarrow> json \<Rightarrow> err + patch list" where
  "adjust_changes lib [] assumed_curr remaining = Inr []"
| "adjust_changes lib (change # changes) assumed_curr remaining =
     rbind (change_apply lib change assumed_curr) (\<lambda>assumed_target.
     rbind (merge_configs assumed_curr remaining) (\<lambda>adjusted_curr.
     rbind (merge_configs assumed_target remaining) (\<lambda>adjusted_target.
     rbind (adjust_changes lib changes assumed_target remaining) (\<lambda>rest.
       Inr (generate_patch lib adjusted_curr adjusted_target # rest)))))"

definition non_strict_sort :: "sort_env \<Rightarrow> splitter \<Rightarrow> patch \<Rightarrow> algorithm \<Rightarrow> err + patch list" where
  "non_strict_sort E split p algorithm =
     rbind (se_running E) (\<lambda>current.
     rbind (simulate_patch (se_lib E) p current) (\<lambda>target.
     rbind (split current) (\<lambda>(current_yang, current_non_yang).
     rbind (split target) (\<lambda>(target_yang, target_non_yang).
     rbind (validate_config_db_config (se_yang E) target_yang) (\<lambda>is_valid. if \<not> is_valid then Inl ValueError else
     (let non_yang_patch = generate_patch (se_lib E) current_non_yang target_non_yang;
          non_yang_changes = (if non_yang_patch \<noteq> [] then [non_yang_patch] else []);
          yang_patch = generate_patch (se_lib E) current_yang target_yang
      in
     rbind (validate_patch_has_yang_models (se_lib E) (se_yang E) yang_patch) (\<lambda>b. if \<not> b then Inl ValueError else
     rbind (patch_sorter_sort E yang_patch algorithm (Some current_yang)) (\<lambda>yang_changes.
     rbind (adjust_changes (se_lib E) non_yang_changes current_non_yang current_yang) (\<lambda>adjusted_non_yang.
     rbind (adjust_changes (se_lib E) yang_changes current_yang target_non_yang) (\<lambda>adjusted_yang.
       Inr (adjusted_non_yang @ adjusted_yang)))))))))))"

section \<open>The nodes of a document\<close>

text \<open>Below a path of keys: nothing, a dictionary, or another value.\<close>

datatype node = Dict | Leaf json

definition node_of :: "json \<Rightarrow> node" where
  "node_of v = (if is_obj v then Dict else Leaf v)"

definition node_at :: "json \<Rightarrow> string list \<Rightarrow> node option" where
  "node_at c us = (case py_path c (map TStr us) of Inl e \<Rightarrow> None | Inr v \<Rightarrow> Some (node_of v))"

lemma node_at_Nil [simp]: "node_at c [] = Some (node_of c)"
  by (simp add: node_at_def)

lemma node_at_Cons:
  "node_at c (u # us) = (case c of JObj d \<Rightarrow> (case map_of d u of None \<Rightarrow> None | Some x \<Rightarrow> node_at x us) | _ \<Rightarrow> None)"
  by (cases c) (auto simp: node_at_def split: option.splits)

lemma node_at_JObj_Cons [simp]:
  "node_at (JObj d) (u # us) = (case map_of d u of None \<Rightarrow> None | Some x \<Rightarrow> node_at x us)"
  by (simp add: node_at_Cons)

lemma node_of_JObj [simp]: "node_of (JObj d) = Dict"
  by (simp add: node_of_def)

lemma node_of_eq_Dict: "node_of v = Dict \<longleftrightarrow> is_obj v"
  by (simp add: node_of_def)

lemma node_at_prefix: "node_at c (us @ vs) = Some x \<Longrightarrow> vs \<noteq> [] \<Longrightarrow> node_at c us = Some Dict"
proof (induction us arbitrary: c)
  case Nil
  then show ?case by (cases vs; cases c) (auto simp: node_at_Cons)
next
  case (Cons u us)
  then show ?case by (cases c) (auto split: option.splits simp: node_at_Cons)
qed

text \<open>Documents with the same nodes are equal.\<close>

lemma nodes_json_eq: "wf_json a \<Longrightarrow> wf_json b \<Longrightarrow> node_at a = node_at b \<Longrightarrow> json_eq a b"
proof (induction a arbitrary: b rule: wf_json.induct)
  case (2 d)
  have "node_of b = Dict" using 2(4)[THEN fun_cong, of "[]"] by simp
  then obtain e where b: "b = JObj e" by (cases b) (auto simp: node_of_def)
  have dd: "distinct (map fst d)" "distinct (map fst e)" using 2 b by auto
  have ex: "\<exists>w. map_of e k = Some w \<and> json_eq v w" if kv: "(k, v) \<in> set d" for k v
  proof -
    have mk: "map_of d k = Some v" using kv dd by simp
    have "node_at (JObj e) [k] = Some (node_of v)" using 2(4)[THEN fun_cong, of "[k]"] b mk by simp
    then obtain w where w: "map_of e k = Some w" by (auto split: option.splits)
    have "node_at v us = node_at w us" for us using 2(4)[THEN fun_cong, of "k # us"] b mk w by simp
    moreover have "wf_json v" "wf_json w" using 2(2,3) kv b w by (auto dest: map_of_wf)
    ultimately have "json_eq v w" using 2(1)[of "(k, v)" w] kv by auto
    with w show ?thesis by blast
  qed
  have "set (map fst d) = set (map fst e)"
  proof -
    have "map_of d k = None \<longleftrightarrow> map_of e k = None" for k
      using 2(4)[THEN fun_cong, of "[k]"] b by (auto split: option.splits)
    then show ?thesis by (simp add: map_of_eq_None_iff set_eq_iff)
  qed
  then have "length d = length e" using dd by (metis distinct_card length_map)
  with ex show ?case unfolding b json_eq_JObj by blast
next
  case (1 xs)
  have "node_at (JArr xs) [] = node_at b []" using 1(4) by simp
  then have "b = JArr xs" by (auto simp: node_of_def split: if_splits)
  with 1(2) show ?case using json_eq_refl by blast
qed (auto simp: node_of_def dest!: fun_cong[of _ _ "[]"] split: if_splits)

section \<open>Merging is the left-biased union of the nodes\<close>

definition compatible :: "json \<Rightarrow> json \<Rightarrow> bool" where
  "compatible a b \<longleftrightarrow> (\<forall>us x y. node_at a us = Some x \<longrightarrow> node_at b us = Some y \<longrightarrow> x = Dict \<and> y = Dict)"

lemma compatible_obj: "compatible a b \<Longrightarrow> is_obj a \<and> is_obj b"
  unfolding compatible_def by (drule spec[of _ "[]"]) (simp add: node_of_eq_Dict)

lemma compatible_sym: "compatible a b \<Longrightarrow> compatible b a"
  unfolding compatible_def by blast

lemma compatible_JObj:
  "compatible (JObj d) (JObj e) \<longleftrightarrow> (\<forall>k x y. map_of d k = Some x \<longrightarrow> map_of e k = Some y \<longrightarrow> compatible x y)"
proof
  assume c: "compatible (JObj d) (JObj e)"
  show "\<forall>k x y. map_of d k = Some x \<longrightarrow> map_of e k = Some y \<longrightarrow> compatible x y"
  proof (intro allI impI)
    fix k x y assume kx: "map_of d k = Some x" "map_of e k = Some y"
    show "compatible x y"
      unfolding compatible_def
    proof (intro allI impI)
      fix us x' y' assume "node_at x us = Some x'" "node_at y us = Some y'"
      then show "x' = Dict \<and> y' = Dict"
        using c[unfolded compatible_def, rule_format, of "k # us" x' y'] kx by simp
    qed
  qed
next
  assume c: "\<forall>k x y. map_of d k = Some x \<longrightarrow> map_of e k = Some y \<longrightarrow> compatible x y"
  show "compatible (JObj d) (JObj e)"
    unfolding compatible_def
  proof (intro allI impI)
    fix us x y assume n: "node_at (JObj d) us = Some x" "node_at (JObj e) us = Some y"
    then show "x = Dict \<and> y = Dict"
    proof (cases us)
      case (Cons u ws)
      with n obtain v w where "map_of d u = Some v" "map_of e u = Some w" "node_at v ws = Some x" "node_at w ws = Some y"
        by (auto split: option.splits)
      with c show ?thesis unfolding compatible_def by blast
    qed simp
  qed
qed

definition append_entry :: "dict \<Rightarrow> string \<times> json \<Rightarrow> err + dict" where
  "append_entry t p = (case map_of t (fst p) of
            None \<Rightarrow> Inr (AList.update (fst p) (snd p) t)
          | Some w \<Rightarrow> rbind (recursive_append w (snd p)) (\<lambda>w'. Inr (AList.update (fst p) w' t)))"

lemma recursive_append_JObj:
  "recursive_append (JObj d) (JObj ad) = rbind (rfoldM append_entry d ad) (\<lambda>d'. Inr (JObj d'))"
  by (simp add: append_entry_def[abs_def])

text \<open>One level: keys of both are merged, the others kept.\<close>

lemma append_entries:
  assumes "\<And>p w. p \<in> set ad \<Longrightarrow> wf_json w \<Longrightarrow> compatible w (snd p) \<Longrightarrow>
      \<exists>m. recursive_append w (snd p) = Inr m \<and> wf_json m \<and> node_at m = node_at (snd p) ++ node_at w"
  shows "wf_json (JObj d) \<Longrightarrow> wf_json (JObj ad) \<Longrightarrow> compatible (JObj d) (JObj ad) \<Longrightarrow>
    \<exists>d'. rfoldM append_entry d ad = Inr d' \<and> wf_json (JObj d') \<and> node_at (JObj d') = node_at (JObj ad) ++ node_at (JObj d)"
  using assms
proof (induction ad arbitrary: d)
  case Nil
  have "node_at (JObj []) ++ node_at (JObj d) = node_at (JObj d)"
  proof
    fix us show "(node_at (JObj []) ++ node_at (JObj d)) us = node_at (JObj d) us"
      by (cases us) (auto simp: map_add_def split: option.splits)
  qed
  with Nil show ?case by simp
next
  case (Cons p ad)
  obtain k v where p: "p = (k, v)" by fastforce
  have fresh: "k \<notin> fst ` set ad" and wv: "wf_json v" and wad: "wf_json (JObj ad)" using Cons.prems p by auto
  have cmp: "\<And>j x y. map_of d j = Some x \<Longrightarrow> map_of (p # ad) j = Some y \<Longrightarrow> compatible x y"
    using Cons.prems(3) unfolding compatible_JObj by blast
  have "\<exists>x. append_entry d p = Inr (AList.update k x d) \<and> wf_json x \<and>
      node_at x = (case map_of d k of None \<Rightarrow> node_at v | Some w \<Rightarrow> node_at v ++ node_at w)"
  proof (cases "map_of d k")
    case None
    then show ?thesis using p wv by (auto simp: append_entry_def)
  next
    case (Some w)
    have "wf_json w" using Cons.prems(1) Some by (rule map_of_wf)
    moreover have "compatible w v" using cmp[OF Some, of v] p by simp
    ultimately obtain m where "recursive_append w v = Inr m" "wf_json m" "node_at m = node_at v ++ node_at w"
      using Cons.prems(4)[of p w] p by auto
    then show ?thesis using Some p by (auto simp: append_entry_def)
  qed
  then obtain x where x: "append_entry d p = Inr (AList.update k x d)" "wf_json x"
      "node_at x = (case map_of d k of None \<Rightarrow> node_at v | Some w \<Rightarrow> node_at v ++ node_at w)" by blast
  have wd: "wf_json (JObj (AList.update k x d))" using Cons.prems(1) x(2) by (rule wf_update)
  have "compatible (JObj (AList.update k x d)) (JObj ad)"
    unfolding compatible_JObj
  proof (intro allI impI)
    fix j a b assume j: "map_of (AList.update k x d) j = Some a" "map_of ad j = Some b"
    then have "j \<noteq> k" using fresh by (force dest: map_of_SomeD)
    with j have "map_of d j = Some a" "map_of (p # ad) j = Some b" using p by simp_all
    then show "compatible a b" by (rule cmp)
  qed
  from Cons.IH[OF wd wad this] Cons.prems(4) obtain d' where d': "rfoldM append_entry (AList.update k x d) ad = Inr d'"
      "wf_json (JObj d')" "node_at (JObj d') = node_at (JObj ad) ++ node_at (JObj (AList.update k x d))"
    by auto
  have "node_at (JObj d') us = (node_at (JObj (p # ad)) ++ node_at (JObj d)) us" for us
  proof (cases us)
    case Nil
    then show ?thesis using d'(3) by (simp add: map_add_def)
  next
    case (Cons u ws)
    have "map_of ad k = None" using fresh by (simp add: map_of_eq_None_iff)
    then show ?thesis
      using d'(3) x(3) p Cons by (cases "u = k") (auto simp: map_add_def split: option.splits)
  qed
  with x(1) d' show ?case by auto
qed

lemma merge_nodes:
  "wf_json a \<Longrightarrow> wf_json b \<Longrightarrow> compatible a b \<Longrightarrow>
     \<exists>m. recursive_append a b = Inr m \<and> wf_json m \<and> node_at m = node_at b ++ node_at a"
proof (induction b arbitrary: a rule: wf_json.induct)
  case (2 ad)
  obtain d where a: "a = JObj d" using compatible_obj[OF 2(4)] by (cases a) auto
  have "\<exists>d'. rfoldM append_entry d ad = Inr d' \<and> wf_json (JObj d') \<and> node_at (JObj d') = node_at (JObj ad) ++ node_at (JObj d)"
  proof (rule append_entries)
    fix p w assume "p \<in> set ad" "wf_json w" "compatible w (snd p)"
    moreover from this have "wf_json (snd p)" using 2(3) by auto
    ultimately show "\<exists>m. recursive_append w (snd p) = Inr m \<and> wf_json m \<and> node_at m = node_at (snd p) ++ node_at w"
      using 2(1) by blast
  qed (use 2 a in auto)
  then show ?case unfolding a recursive_append_JObj by auto
qed (auto dest!: compatible_obj)

text \<open>The contract of a splitter: the nodes of the configuration are divided between two configurations that
  have at most dictionaries in common.\<close>

definition splits :: "json \<Rightarrow> json \<Rightarrow> json \<Rightarrow> bool" where
  "splits c a b \<longleftrightarrow> wf_json a \<and> wf_json b \<and> compatible a b \<and> node_at c = node_at b ++ node_at a"

definition no_empty :: "json \<Rightarrow> bool" where
  "no_empty c \<longleftrightarrow> (\<exists>d. c = JObj d \<and> (\<forall>k v. map_of d k = Some v \<longrightarrow> py_truthy v))"

lemma splits_merge:
  assumes "wf_json c" and "splits c a b"
  shows "\<exists>m. merge_configs a b = Inr m \<and> json_eq m c"
proof -
  obtain m where "recursive_append a b = Inr m" "wf_json m" "node_at m = node_at b ++ node_at a"
    using merge_nodes assms(2) unfolding splits_def by blast
  then show ?thesis using nodes_json_eq assms unfolding splits_def merge_configs_def by metis
qed

lemma splits_assoc:
  assumes "splits c w a" and "splits w w' b" and "merge_configs a b = Inr m" and "node_at m = node_at b ++ node_at a" and "wf_json m"
  shows "splits c w' m"
proof -
  have nw: "node_at w us = (node_at b ++ node_at w') us" for us using assms(2) by (simp add: splits_def)
  have cw: "x = Dict \<and> y = Dict" if "node_at w us = Some x" "node_at a us = Some y" for us x y
    using assms(1) that unfolding splits_def compatible_def by blast
  have cb: "x = Dict \<and> y = Dict" if "node_at w' us = Some x" "node_at b us = Some y" for us x y
    using assms(2) that unfolding splits_def compatible_def by blast
  have "compatible w' m"
    unfolding compatible_def
  proof (intro allI impI)
    fix us x y assume x: "node_at w' us = Some x" and y: "node_at m us = Some y"
    have "node_at w us = Some x" using x nw[of us] by (simp add: map_add_def)
    with y assms(4) x cw cb show "x = Dict \<and> y = Dict" by (auto simp: map_add_def split: option.splits)
  qed
  moreover have "node_at c us = (node_at m ++ node_at w') us" for us
    using assms(1,4) nw[of us] cw[of us] cb[of us] unfolding splits_def
    by (auto simp: map_add_def split: option.splits)
  ultimately show ?thesis using assms(2,5) unfolding splits_def by auto
qed

section \<open>The contract of a splitter\<close>

definition split_contract :: "splitter \<Rightarrow> bool" where
  "split_contract split \<longleftrightarrow> (\<forall>c a b. wf_json c \<longrightarrow> no_empty c \<longrightarrow> split c = Inr (a, b) \<longrightarrow> splits c a b \<and> no_empty a)"

locale config_splitting =
  fixes split :: splitter and ok :: bool
  assumes split_law: "ok \<Longrightarrow> split_contract split"
begin

lemma split_then_merge:
  "ok \<Longrightarrow> wf_json c \<Longrightarrow> no_empty c \<Longrightarrow> split c = Inr (a, b) \<Longrightarrow> \<exists>m. merge_configs a b = Inr m \<and> json_eq m c"
  using split_law splits_merge unfolding split_contract_def by blast

lemma parts_disjoint:
  "ok \<Longrightarrow> wf_json c \<Longrightarrow> no_empty c \<Longrightarrow> split c = Inr (a, b) \<Longrightarrow> node_at a us = Some (Leaf v) \<Longrightarrow> node_at b us = None"
  using split_law unfolding split_contract_def splits_def compatible_def by (cases "node_at b us") blast+

end

section \<open>TablesWithoutYangConfigSplitter\<close>

lemma keep_tables_aux:
  "set ps \<subseteq> set d \<Longrightarrow> distinct (map fst d) \<Longrightarrow> distinct (map fst (new @ ps)) \<Longrightarrow>
   rfoldM (\<lambda>rest k. if P k then Inr rest else rbind (py_key (JObj d) k) (\<lambda>v. Inr (AList.update k v rest))) new (map fst ps)
     = Inr (new @ filter (\<lambda>p. \<not> P (fst p)) ps)"
proof (induction ps arbitrary: new)
  case (Cons p ps)
  then have "py_key (JObj d) (fst p) = Inr (snd p)" by (intro py_key_mem) simp_all
  with Cons show ?case by (auto simp: update_fresh simp del: py_key_JObj)
qed simp

lemma map_of_filter_key: "map_of (filter (\<lambda>p. P (fst p)) d) k = (if P k then map_of d k else None)"
  by (induction d) auto

lemma filter_wf: "wf_json (JObj d) \<Longrightarrow> wf_json (JObj (filter P d))"
  by (auto simp: distinct_map_filter)

lemma filter_splits:
  assumes "wf_json (JObj d)"
  shows "splits (JObj d) (JObj (filter (\<lambda>p. P (fst p)) d)) (JObj (filter (\<lambda>p. \<not> P (fst p)) d))"
proof -
  note keys = map_of_filter_key[of P d] map_of_filter_key[of "\<lambda>k. \<not> P k" d]
  have "node_at (JObj d) us = (node_at (JObj (filter (\<lambda>p. \<not> P (fst p)) d)) ++ node_at (JObj (filter (\<lambda>p. P (fst p)) d))) us" for us
    by (cases us) (auto simp: map_add_def keys split: option.splits)
  moreover have "compatible (JObj (filter (\<lambda>p. P (fst p)) d)) (JObj (filter (\<lambda>p. \<not> P (fst p)) d))"
    unfolding compatible_JObj by (auto simp: keys split: if_splits)
  ultimately show ?thesis using assms filter_wf unfolding splits_def by blast
qed

lemma tables_split_JObj:
  assumes "crop_ok sy has_model" and "distinct (map fst d)"
  shows "tables_without_yang_split sy (JObj d) =
    Inr (JObj (filter (\<lambda>p. has_model (fst p)) d), JObj (filter (\<lambda>p. \<not> has_model (fst p)) d))"
proof -
  have eq: "rbind (py_contains (JObj (filter (\<lambda>p. has_model (fst p)) d)) (TStr k)) (\<lambda>b.
       if b then Inr rest else rbind (py_key (JObj d) k) (\<lambda>v. Inr (AList.update k v rest)))
     = (if has_model k \<and> map_of d k \<noteq> None then Inr rest else rbind (py_key (JObj d) k) (\<lambda>v. Inr (AList.update k v rest)))"
    for k rest by (simp add: map_of_filter_key)
  have "filter (\<lambda>p. \<not> (has_model (fst p) \<and> map_of d (fst p) \<noteq> None)) d = filter (\<lambda>p. \<not> has_model (fst p)) d"
    by (rule filter_cong) (auto simp: map_of_eq_None_iff)
  then show ?thesis
    using keep_tables_aux[of d d "[]" "\<lambda>k. has_model k \<and> map_of d k \<noteq> None"] assms
    by (simp add: tables_without_yang_split_def crop_tables_without_yang_def crop_ok_def rfoldM_map comp_def eq
        del: py_key_JObj py_contains.simps)
qed

interpretation tables_splitter: config_splitting "tables_without_yang_split sy" "crop_ok sy has_model" for sy has_model
proof
  assume c: "crop_ok sy has_model"
  show "split_contract (tables_without_yang_split sy)"
    unfolding split_contract_def
  proof (intro allI impI)
    fix c a b assume w: "wf_json c" "no_empty c" and s: "tables_without_yang_split sy c = Inr (a, b)"
    obtain d where d: "c = JObj d" "\<forall>k v. map_of d k = Some v \<longrightarrow> py_truthy v" using w(2) by (auto simp: no_empty_def)
    have "distinct (map fst d)" using w(1) d by simp
    from tables_split_JObj[OF c this] s d have ab: "a = JObj (filter (\<lambda>p. has_model (fst p)) d)"
        "b = JObj (filter (\<lambda>p. \<not> has_model (fst p)) d)" by auto
    have "no_empty a" using d ab by (auto simp: no_empty_def map_of_filter_key split: if_splits)
    with ab filter_splits w d show "splits c a b \<and> no_empty a" by simp
  qed
qed

section \<open>ConfigSplitter\<close>

lemma split_step_contract:
  assumes "split_contract inner" and "splits c w wo" and "no_empty w" and "split_step (w, wo) inner = Inr (w', wo')"
  shows "splits c w' wo' \<and> no_empty w'"
proof -
  obtain a where a: "inner w = Inr (w', a)" "merge_configs wo a = Inr wo'"
    using assms(4) by (auto simp: split_step_def elim!: rbind_InrE)
  have ww: "wf_json w" "wf_json wo" using assms(2) by (auto simp: splits_def)
  then have sa: "splits w w' a" "no_empty w'" using assms(1,3) a(1) unfolding split_contract_def by blast+
  have "compatible wo a"
    unfolding compatible_def
  proof (intro allI impI)
    fix us x y assume x: "node_at wo us = Some x" and y: "node_at a us = Some y"
    obtain z where z: "node_at w us = Some z" "z = y \<or> node_at w' us = Some z"
      using sa(1) y unfolding splits_def by (cases "node_at w' us") (auto simp: map_add_def)
    have "x = Dict" "z = Dict" using assms(2) x z(1) unfolding splits_def compatible_def by blast+
    moreover have "y = Dict" using z(2) \<open>z = Dict\<close> sa(1) y unfolding splits_def compatible_def by blast
    ultimately show "x = Dict \<and> y = Dict" by simp
  qed
  moreover have "wf_json a" using sa(1) by (simp add: splits_def)
  ultimately obtain m where "recursive_append wo a = Inr m" "wf_json m" "node_at m = node_at a ++ node_at wo"
    using merge_nodes ww(2) by blast
  with a(2) splits_assoc[OF assms(2) sa(1)] sa(2) show ?thesis by (auto simp: merge_configs_def)
qed

lemma splits_start: "wf_json c \<Longrightarrow> no_empty c \<Longrightarrow> splits c c (JObj [])"
proof -
  assume w: "wf_json c" "no_empty c"
  then obtain d where d: "c = JObj d" by (auto simp: no_empty_def)
  have "node_at c us = (node_at (JObj []) ++ node_at c) us" for us
    using d by (cases us) (auto simp: map_add_def split: option.splits)
  moreover have "compatible c (JObj [])" unfolding d compatible_JObj by simp
  ultimately show ?thesis using w unfolding splits_def by auto
qed

lemma split_steps_contract:
  "rfoldM split_step parts inner = Inr (a, b) \<Longrightarrow> \<forall>s \<in> set inner. split_contract s \<Longrightarrow> splits c (fst parts) (snd parts) \<Longrightarrow>
     no_empty (fst parts) \<Longrightarrow> splits c a b \<and> no_empty a"
proof (induction inner arbitrary: parts)
  case (Cons s inner)
  then obtain parts' where p: "split_step parts s = Inr parts'" "rfoldM split_step parts' inner = Inr (a, b)"
    by (auto elim!: rbind_InrE)
  have "splits c (fst parts') (snd parts') \<and> no_empty (fst parts')"
    using split_step_contract[of s c "fst parts" "snd parts" "fst parts'" "snd parts'"] Cons.prems p(1) by simp
  with Cons p(2) show ?case by simp
qed simp

interpretation config_splitter: config_splitting "config_split inner" "\<forall>s \<in> set inner. split_contract s" for inner
proof
  assume inner: "\<forall>s \<in> set inner. split_contract s"
  show "split_contract (config_split inner)"
    unfolding split_contract_def
  proof (intro allI impI)
    fix c a b assume w: "wf_json c" "no_empty c" and s: "config_split inner c = Inr (a, b)"
    from s have "rfoldM split_step (c, JObj []) inner = Inr (a, b)"
      by (auto simp: config_split_def elim!: rbind_InrE split: if_splits)
    from split_steps_contract[OF this inner, of c] splits_start[OF w] w(2)
    show "splits c a b \<and> no_empty a" by simp
  qed
qed

section \<open>IgnorePathsFromYangConfigSplitter\<close>

text \<open>The effect of the two moves on the nodes.\<close>

lemma node_at_update:
  "node_at (JObj (AList.update k x d)) (u # us) = (if u = k then node_at x us else node_at (JObj d) (u # us))"
  by simp

lemma remove_effect:
  "ks \<noteq> [] \<Longrightarrow> wf_json c \<Longrightarrow> node_at c ks \<noteq> None \<Longrightarrow>
   \<exists>c'. json_edit_at remove_leaf ks c = Some c' \<and> wf_json c' \<and> (\<forall>us. node_at c' us = (if prefix ks us then None else node_at c us))"
proof (induction ks arbitrary: c)
  case (Cons k ks)
  then obtain d x where c: "c = JObj d" "map_of d k = Some x" "node_at x ks \<noteq> None"
    by (cases c) (auto simp: node_at_Cons split: option.splits)
  show ?case
  proof (cases ks)
    case Nil
    have "node_at (JObj (AList.delete k d)) us = (if prefix [k] us then None else node_at c us)" for us
      using c(1) by (cases us) auto
    moreover have "wf_json (JObj (AList.delete k d))" using Cons.prems(2) c(1) by (intro wf_delete) simp
    ultimately show ?thesis using c Nil by auto
  next
    case (Cons j js)
    have "wf_json x" using Cons.prems(2) c by (auto dest: map_of_wf)
    then obtain x' where x': "json_edit_at remove_leaf ks x = Some x'" "wf_json x'"
        "\<forall>us. node_at x' us = (if prefix ks us then None else node_at x us)"
      using Cons.IH c(3) Cons by auto
    have "node_at (JObj (AList.update k x' d)) us = (if prefix (k # ks) us then None else node_at c us)" for us
      using c(1,2) x'(3) by (cases us; cases "hd us = k") auto
    moreover have "wf_json (JObj (AList.update k x' d))" using Cons.prems(2) c(1) x'(2) by (intro wf_update) simp_all
    ultimately show ?thesis using c(1,2) x'(1) Cons by auto
  qed
qed simp

lemma nest_nodes: "node_at (nest ks v) us = (if prefix ks us then node_at v (drop (length ks) us) else if prefix us ks then Some Dict else None)"
proof (induction ks arbitrary: us)
  case (Cons k ks)
  then show ?case by (cases us) (auto simp: node_of_def)
qed simp

lemma nest_wf: "wf_json v \<Longrightarrow> wf_json (nest ks v)"
  by (induction ks) auto

lemma put_effect:
  "put_ok ks c \<Longrightarrow> wf_json c \<Longrightarrow> wf_json v \<Longrightarrow> wf_json (json_put ks v c) \<and>
   (\<forall>us. node_at (json_put ks v c) us = (if prefix ks us then node_at v (drop (length ks) us) else if prefix us ks then Some Dict else node_at c us))"
proof (induction ks v c rule: json_put.induct)
  case (2 k ks v d)
  let ?x = "case map_of d k of None \<Rightarrow> nest ks v | Some w \<Rightarrow> json_put ks v w"
  have x: "wf_json ?x \<and> (\<forall>us. node_at ?x us = (if prefix ks us then node_at v (drop (length ks) us) else if prefix us ks then Some Dict
      else (case map_of d k of None \<Rightarrow> None | Some w \<Rightarrow> node_at w us)))"
  proof (cases "map_of d k")
    case None
    then show ?thesis using 2 by (simp add: nest_nodes nest_wf)
  next
    case (Some w)
    then have "wf_json w" using 2(3) by (auto dest: map_of_wf)
    then show ?thesis using 2 Some by simp
  qed
  have "node_at (JObj (AList.update k ?x d)) us = (if prefix (k # ks) us then node_at v (drop (length (k # ks)) us)
      else if prefix us (k # ks) then Some Dict else node_at (JObj d) us)" for us
    using x by (cases us; cases "hd us = k") (auto split: option.splits)
  moreover have "wf_json (JObj (AList.update k ?x d))" using 2(3) x by (intro wf_update) auto
  ultimately show ?case by simp
qed auto

lemma compatible_put_ok:
  "compatible a b \<Longrightarrow> node_at a ks \<noteq> None \<Longrightarrow> put_ok ks b"
proof (induction ks arbitrary: a b)
  case (Cons k ks)
  then obtain d x where a: "a = JObj d" "map_of d k = Some x" "node_at x ks \<noteq> None"
    by (cases a) (auto simp: node_at_Cons split: option.splits)
  obtain e where b: "b = JObj e" using compatible_obj[OF Cons.prems(1)] by (cases b) auto
  show ?case
  proof (cases "map_of e k")
    case None
    then show ?thesis using b by simp
  next
    case (Some y)
    have "compatible (JObj d) (JObj e)" using Cons.prems(1) a(1) b by simp
    then have "compatible x y" using a(2) Some unfolding compatible_JObj by blast
    with Cons.IH a(3) Some b show ?thesis by simp
  qed
qed simp

text \<open>What the loop keeps. \<open>moved\<close> are the paths moved so far.\<close>

definition falsy_table :: "json \<Rightarrow> string \<Rightarrow> bool" where
  "falsy_table c t \<longleftrightarrow> (\<exists>d v. c = JObj d \<and> map_of d t = Some v \<and> \<not> py_truthy v)"

definition moving :: "json \<Rightarrow> string list list \<Rightarrow> json \<Rightarrow> json \<Rightarrow> bool" where
  "moving c moved w wo \<longleftrightarrow> splits c w wo \<and>
     (\<forall>us. us \<noteq> [] \<longrightarrow> node_at wo us \<noteq> None \<longrightarrow> (\<exists>q \<in> set moved. prefix us q \<or> prefix q us)) \<and>
     (\<forall>q \<in> set moved. node_at w q = None) \<and>
     (\<forall>t. falsy_table w t \<longrightarrow> (\<exists>r. r \<noteq> [] \<and> t # r \<in> set moved) \<and> node_at wo [t] = Some Dict \<and> node_at w [t] = Some Dict) \<and>
     no_empty wo"

lemma moving_step:
  assumes m: "moving c moved w wo" and ks: "ks \<noteq> []" "\<forall>q \<in> set moved. \<not> prefix ks q"
    and v: "py_path w (map TStr ks) = Inr v"
    and w': "wf_json w'" "\<forall>us. node_at w' us = (if prefix ks us then None else node_at w us)"
    and tab: "\<forall>t d d' x. w = JObj d \<longrightarrow> w' = JObj d' \<longrightarrow> t \<noteq> hd ks \<longrightarrow> map_of d' t = map_of d t"
  shows "moving c (ks # moved) w' (json_put ks v wo)"
proof -
  have sp: "splits c w wo" using m by (simp add: moving_def)
  then have wf: "wf_json w" "wf_json wo" "compatible w wo" by (auto simp: splits_def)
  have nk: "node_at w ks = Some (node_of v)" using v by (simp add: node_at_def)
  have pok: "put_ok ks wo" using compatible_put_ok wf(3) nk by simp
  have "wf_json v" using wf(1) v by (rule py_path_wf)
  note put = put_effect[OF pok wf(2) this]
  have vn: "node_at v us = node_at w (ks @ us)" for us using v by (simp add: node_at_def py_path_append)
  have new: "node_at (json_put ks v wo) us = (if prefix ks us then node_at w us else if prefix us ks then Some Dict else node_at wo us)" for us
    using put vn by (auto simp: prefix_def)
  text \<open>Nothing the configuration has below the path was moved before.\<close>
  have below: "node_at wo us = None" if us: "prefix ks us" for us
  proof (rule ccontr)
    assume "node_at wo us \<noteq> None"
    moreover have "us \<noteq> []" using us ks(1) by auto
    ultimately obtain q where q: "q \<in> set moved" "prefix us q \<or> prefix q us" using m unfolding moving_def by blast
    have nq: "node_at w q = None" using m q(1) unfolding moving_def by blast
    from q(2) show False
    proof
      assume "prefix us q"
      then show False using us ks(2) q(1) prefix_order.trans by blast
    next
      assume "prefix q us"
      with us consider "prefix q ks" | "prefix ks q" using prefix_same_cases by blast
      then show False
      proof cases
        case 1
        then obtain r where r: "ks = q @ r" by (auto simp: prefix_def)
        then show False using nk nq node_at_prefix[of w q r] by (cases r) auto
      next
        case 2
        then show False using ks(2) q(1) by blast
      qed
    qed
  qed
  have dk: "node_at w us = Some Dict" if "prefix us ks" "us \<noteq> ks" for us
    using that nk node_at_prefix[of w us] by (auto simp: prefix_def)
  have cmp: "x = Dict \<and> y = Dict" if "node_at w us = Some x" "node_at wo us = Some y" for us x y
    using wf(3) that unfolding compatible_def by blast
  have "compatible w' (json_put ks v wo)"
    unfolding compatible_def
  proof (intro allI impI)
    fix us x y assume x: "node_at w' us = Some x" and y: "node_at (json_put ks v wo) us = Some y"
    then have np: "\<not> prefix ks us" "node_at w us = Some x" using w'(2) by (auto split: if_splits)
    show "x = Dict \<and> y = Dict"
    proof (cases "prefix us ks")
      case True
      with dk[of us] np y new[of us] show ?thesis by auto
    next
      case False
      with np y new[of us] cmp show ?thesis by simp
    qed
  qed
  moreover have "node_at c us = (node_at (json_put ks v wo) ++ node_at w') us" for us
  proof -
    have c: "node_at c us = (node_at wo ++ node_at w) us" using sp by (simp add: splits_def)
    show ?thesis
    proof (cases "prefix ks us")
      case True
      with c w'(2) new[of us] below[OF True] show ?thesis by (cases "node_at w us") (auto simp: map_add_def)
    next
      case False
      have "node_at w us = Some Dict" if "prefix us ks" using that False dk[of us] by auto
      with c w'(2) new[of us] False show ?thesis by (auto simp: map_add_def split: option.splits)
    qed
  qed
  ultimately have s': "splits c w' (json_put ks v wo)" using w'(1) put unfolding splits_def by auto
  have b: "\<exists>q \<in> set (ks # moved). prefix us q \<or> prefix q us" if "us \<noteq> []" "node_at (json_put ks v wo) us \<noteq> None" for us
    using that new[of us] m unfolding moving_def by (auto split: if_splits)
  have cc: "node_at w' q = None" if "q \<in> set (ks # moved)" for q
    using that w'(2) m unfolding moving_def by auto
  obtain k kr where kk: "ks = k # kr" using ks(1) by (cases ks) auto
  obtain d where d: "w = JObj d" using nk kk by (cases w) (auto simp: node_at_Cons)
  have "is_obj w'" using s' compatible_obj unfolding splits_def by blast
  then obtain d' where d': "w' = JObj d'" by (cases w') auto
  have dd: "(\<exists>r. r \<noteq> [] \<and> t # r \<in> set (ks # moved)) \<and> node_at (json_put ks v wo) [t] = Some Dict \<and> node_at w' [t] = Some Dict"
    if f: "falsy_table w' t" for t
  proof -
    obtain x where x: "map_of d' t = Some x" "\<not> py_truthy x" using f d' by (auto simp: falsy_table_def)
    show ?thesis
    proof (cases "t = k")
      case False
      then have "falsy_table w t" using tab d d' x kk by (auto simp: falsy_table_def)
      then have "(\<exists>r. r \<noteq> [] \<and> t # r \<in> set moved) \<and> node_at wo [t] = Some Dict \<and> node_at w [t] = Some Dict"
        using m unfolding moving_def by blast
      then show ?thesis using False kk new[of "[t]"] w'(2) by auto
    next
      case True
      have ne: "node_at w' [t] \<noteq> None" using x(1) d' by simp
      then have "kr \<noteq> []" using w'(2) True kk by (auto split: if_splits)
      moreover have "node_at w [t] = Some Dict" using dk[of "[t]"] True kk calculation by simp
      ultimately show ?thesis using True kk new[of "[t]"] w'(2) by auto
    qed
  qed
  have "no_empty (json_put ks v wo)"
  proof -
    obtain e where e: "wo = JObj e" using compatible_obj[OF wf(3)] by (cases wo) auto
    have "py_truthy x" if x: "map_of (AList.update k (case map_of e k of None \<Rightarrow> nest kr v | Some y \<Rightarrow> json_put kr v y) e) t = Some x" for t x
    proof (cases "t = k")
      case False
      then show ?thesis using x m e by (auto simp: moving_def no_empty_def)
    next
      case True
      show ?thesis
      proof (cases kr)
        case Nil
        then have mk: "map_of d k = Some v" using v d kk by (auto simp: rbind_eq_Inr split: option.splits)
        have "py_truthy v"
        proof (rule ccontr)
          assume "\<not> py_truthy v"
          then have "falsy_table w k" using d mk by (auto simp: falsy_table_def)
          then obtain r where "k # r \<in> set moved" using m unfolding moving_def by blast
          then show False using ks(2) kk Nil by auto
        qed
        moreover have "x = v" using x True Nil by (auto split: option.splits)
        ultimately show ?thesis by simp
      next
        case (Cons j js)
        have "node_at (json_put ks v wo) [k] = Some (node_of x)" using x True kk e by simp
        moreover have "node_at (json_put ks v wo) [k] = Some Dict" using new[of "[k]"] kk Cons by simp
        ultimately have "node_of x = Dict" by simp
        then have "is_obj x" by (simp only: node_of_eq_Dict)
        then obtain xd where xd: "x = JObj xd" by (cases x) auto
        have "node_at (json_put ks v wo) [k, j] \<noteq> None"
          using new[of "[k, j]"] kk Cons nk by (auto simp: node_at_Nil split: if_splits)
        then have "node_at x [j] \<noteq> None" using x True kk e by simp
        then show ?thesis using xd by auto
      qed
    qed
    then show ?thesis using kk e by (auto simp: no_empty_def)
  qed
  with s' b cc dd show ?thesis unfolding moving_def by blast
qed

lemma filter_truthy_id:
  "no_empty (JObj d) \<Longrightarrow> distinct (map fst d) \<Longrightarrow> filter (\<lambda>p. py_truthy (snd p)) d = d"
  unfolding no_empty_def by (rule filter_True) auto

lemma moving_end:
  assumes m: "moving c moved w wo" and a: "remove_empty_tables w = Inr a" and b: "remove_empty_tables wo = Inr b"
  shows "splits c a b \<and> no_empty a"
proof -
  have sp: "splits c w wo" and ne: "no_empty wo" using m by (auto simp: moving_def)
  then have wf: "wf_json w" "wf_json wo" "compatible w wo" "node_at c = node_at wo ++ node_at w" by (auto simp: splits_def)
  obtain d e where de: "w = JObj d" "wo = JObj e"
    using compatible_obj[OF wf(3)] by (cases w; cases wo) auto
  have dist: "distinct (map fst d)" "distinct (map fst e)" using wf de by auto
  have bw: "b = wo" using b remove_empty_tables_JObj[OF dist(2)] filter_truthy_id[OF _ dist(2)] ne de by auto
  have a': "a = JObj (filter (\<lambda>p. py_truthy (snd p)) d)" using a remove_empty_tables_JObj[OF dist(1)] de by auto
  have top_map: "map_of (filter (\<lambda>p. py_truthy (snd p)) d) t = (case map_of d t of Some v \<Rightarrow> if py_truthy v then Some v else None | None \<Rightarrow> None)" for t
    by (rule map_of_filter_snd[OF dist(1)])
  have gone: "node_at w (t # us) = (if us = [] then Some Dict else None) \<and> node_at wo [t] = Some Dict"
    if t: "map_of d t = Some v" "\<not> py_truthy v" for t v us
  proof -
    have "falsy_table w t" using t de by (auto simp: falsy_table_def)
    then have n: "node_at w [t] = Some Dict" "node_at wo [t] = Some Dict" using m unfolding moving_def by blast+
    then have "is_obj v" using t de by (simp add: node_of_def split: if_splits)
    then have "v = JObj []" using t(2) by (cases v) auto
    with t n de show ?thesis by (cases us) auto
  qed
  have na: "node_at a us = (if \<exists>t r v. us = t # r \<and> map_of d t = Some v \<and> \<not> py_truthy v then None else node_at w us)" for us
    using a' de top_map by (cases us) (auto split: option.splits)
  have "compatible a b" using wf(3) na bw unfolding compatible_def by (auto split: if_splits)
  moreover have "node_at c us = (node_at b ++ node_at a) us" for us
    using wf(4) na[of us] bw gone[of "hd us" _ "tl us"] by (auto simp: map_add_def split: option.splits)
  moreover have "no_empty a" using a' top_map by (auto simp: no_empty_def split: option.splits if_splits)
  moreover have "wf_json a" using a' wf(1) de filter_wf by blast
  ultimately show ?thesis using wf(2) bw unfolding splits_def by auto
qed

lemma filter_config_path: "filter_config v ts = Inr f \<Longrightarrow> \<exists>x. py_path v ts = Inr x"
  by (induction v ts arbitrary: f rule: filter_config.induct) (auto elim!: rbind_InrE)

lemma add_move_path:
  assumes "json_move lib d ADD ts (Some ts) = Inr m"
  shows "\<exists>v. py_path (d_target d) ts = Inr v"
  using assms
  by (cases ts) (auto simp: json_move_def to_operation_def to_add_operation_def filtered_target_def elim!: rbind_InrE
      dest: filter_config_path split: if_splits)

definition ignore_ok :: "json_lib \<Rightarrow> string list list \<Rightarrow> bool" where
  "ignore_ok lib kss \<longleftrightarrow> pointer_ok lib \<and> patch_op_ok lib \<and> [] \<notin> set kss \<and> sorted_wrt (\<lambda>a b. \<not> prefix b a) kss"

definition key_paths :: "json_lib \<Rightarrow> string list list \<Rightarrow> string list" where
  "key_paths lib kss = map (\<lambda>ks. create_path lib (map TStr ks)) kss"

lemma splits_whole: "wf_json c \<Longrightarrow> no_empty c \<Longrightarrow> splits c (JObj []) c \<and> no_empty (JObj [])"
proof -
  assume w: "wf_json c" "no_empty c"
  then obtain d where d: "c = JObj d" by (auto simp: no_empty_def)
  have "node_at c us = (node_at c ++ node_at (JObj [])) us" for us
    using d by (cases us) (auto simp: map_add_def)
  moreover have "compatible (JObj []) c" unfolding d compatible_JObj by simp
  ultimately show ?thesis using w unfolding splits_def no_empty_def by auto
qed

lemma ignore_loop_splits:
  assumes ok: "pointer_ok lib" "patch_op_ok lib" and c: "wf_json c" "no_empty c"
  shows "ignore_paths_loop lib c w wo (key_paths lib kss) = Inr (a, b) \<Longrightarrow> moving c moved w wo \<Longrightarrow> [] \<notin> set kss \<Longrightarrow>
     sorted_wrt (\<lambda>a b. \<not> prefix b a) kss \<Longrightarrow> \<forall>ks \<in> set kss. \<forall>q \<in> set moved. \<not> prefix ks q \<Longrightarrow> splits c a b \<and> no_empty a"
proof (induction kss arbitrary: w wo moved)
  case Nil
  then show ?case by (auto simp: key_paths_def elim!: rbind_InrE dest: moving_end)
next
  case (Cons ks kss)
  let ?p = "create_path lib (map TStr ks)"
  have ne: "ks \<noteq> []" using Cons.prems by auto
  have loop: "ignore_paths_loop lib c w wo (?p # key_paths lib kss) = Inr (a, b)"
    using Cons.prems(1) by (simp add: key_paths_def)
  consider (absent) "\<not> present ks w" | (whole) "present ks w" "?p = []" | (one) "present ks w" "?p \<noteq> []" by blast
  then show ?case
  proof cases
    case absent
    then show ?thesis using loop Cons.IH[of w wo moved] Cons.prems has_path_present[OF ok(1)] by simp
  next
    case whole
    then have "has_path lib w [] = Inr True" using has_path_present[OF ok(1), of w ks] by simp
    then show ?thesis using loop whole(2) splits_whole[OF c] by simp
  next
    case one
    then obtain am wo' rm w' where st:
        "json_move lib \<lparr>d_current = wo, d_target = w\<rparr> ADD (map TStr ks) (Some (map TStr ks)) = Inr am"
        "move_apply lib am wo = Inr wo'"
        "json_move lib \<lparr>d_current = w, d_target = JObj []\<rparr> REMOVE (map TStr ks) None = Inr rm"
        "move_apply lib rm w = Inr w'" "ignore_paths_loop lib c w' wo' (key_paths lib kss) = Inr (a, b)"
      using loop has_path_present[OF ok(1)] path_tokens_back[OF ok(1)] by (auto simp: Let_def elim!: rbind_InrE)
    obtain v where v: "py_path w (map TStr ks) = Inr v" using add_move_path[OF st(1)] by auto
    have sp: "splits c w wo" using Cons.prems(2) by (simp add: moving_def)
    then have wf: "wf_json w" "compatible w wo" by (auto simp: splits_def)
    have nk: "node_at w ks \<noteq> None" using v by (simp add: node_at_def)
    have "put_ok ks wo" using compatible_put_ok[OF wf(2) nk] .
    then have wo': "wo' = json_put ks v wo"
      using add_move_puts[OF ok(2), of "\<lparr>d_current = wo, d_target = w\<rparr>" ks v] v st(1,2) by auto
    obtain w2 where w2: "json_edit_at remove_leaf ks w = Some w2" "wf_json w2"
        "\<forall>us. node_at w2 us = (if prefix ks us then None else node_at w us)"
      using remove_effect[OF ne wf(1) nk] by blast
    have rfc: "rfc_op REMOVE (map token_str (map TStr ks)) (opt_json None) w = Some w2"
      using w2(1) by (simp add: rfc_op_def comp_def)
    then have "jl_apply lib [create_operation REMOVE (create_path lib (map TStr ks)) None] w = Inr w2"
      using ok(2) unfolding patch_op_ok_def create_path_def by blast
    then have w': "w' = w2" using st(3,4) by (auto simp: json_move_def to_operation_def move_apply_def)
    have tab: "\<forall>t d d' x. w = JObj d \<longrightarrow> w2 = JObj d' \<longrightarrow> t \<noteq> hd ks \<longrightarrow> map_of d' t = map_of d t"
      using rfc ne by (cases ks) (auto simp: comp_def dest: rfc_op_other_tables)
    have "moving c (ks # moved) w2 (json_put ks v wo)"
      using moving_step[OF Cons.prems(2) ne _ v w2(2,3) tab] Cons.prems(5) by simp
    moreover have "\<forall>js \<in> set kss. \<forall>q \<in> set (ks # moved). \<not> prefix js q" using Cons.prems(4,5) by auto
    ultimately show ?thesis using Cons.IH[of w' wo' "ks # moved"] st(5) w' wo' Cons.prems(3,4) by simp
  qed
qed

interpretation ignore_splitter: config_splitting "ignore_paths_split lib (key_paths lib kss)" "ignore_ok lib kss" for lib kss
proof
  assume ok: "ignore_ok lib kss"
  show "split_contract (ignore_paths_split lib (key_paths lib kss))"
    unfolding split_contract_def
  proof (intro allI impI)
    fix c a b assume w: "wf_json c" "no_empty c" and s: "ignore_paths_split lib (key_paths lib kss) c = Inr (a, b)"
    obtain d where d: "c = JObj d" using w(2) by (auto simp: no_empty_def)
    have nf: "\<not> falsy_table c t" for t using w(2) by (auto simp: falsy_table_def no_empty_def)
    have "us \<noteq> [] \<Longrightarrow> node_at (JObj []) us = None" for us by (cases us) auto
    then have "moving c [] c (JObj [])"
      using splits_start[OF w] nf unfolding moving_def by (auto simp: no_empty_def)
    from ignore_loop_splits[OF _ _ w _ this, of lib kss] ok s show "splits c a b \<and> no_empty a"
      by (simp add: ignore_ok_def ignore_paths_split_def)
  qed
qed

section \<open>The factory's splitter and the adjusted changes\<close>

lemma split_no_empty:
  assumes "config_split inner c = Inr r" and "wf_json c"
  shows "no_empty c"
proof -
  obtain d where d: "c = JObj d" using assms(1) by (cases c) (auto simp: config_split_def get_empty_tables_def)
  then have "distinct (map fst d)" using assms(2) by simp
  then have "filter (\<lambda>p. \<not> py_truthy (snd p)) d = []"
    using assms(1) by (auto simp: d config_split_def get_empty_tables_JObj split: if_splits)
  then show ?thesis by (auto simp: d no_empty_def filter_empty_conv dest!: map_of_SomeD)
qed

text \<open>C22. The splitter \<open>GenericUpdateFactory\<close> builds (tables without YANG, then ignored paths), on a well-formed
  configuration (objects with distinct keys) and a list of ignored paths in which none lies at or below a later one and
  none is the whole configuration: if it does not raise (as it does for an empty table), it loses nothing. Merging the
  two parts it returns gives the configuration back, and no value is in both parts. \<open>crop_ok\<close> and \<open>ignore_ok\<close> also hold
  what is documented of cropping (the tables that have a model are kept) and of JSON pointers and patches. In the wrong
  order ignored paths do lose a value (\<open>ignore_order_loses\<close>).\<close>

theorem split_merge_roundtrip:
  assumes "config_split [tables_without_yang_split sy, ignore_paths_split lib (key_paths lib kss)] c = Inr (a, b)"
    and "wf_json c" and "crop_ok sy has_model" and "ignore_ok lib kss"
  shows "(\<exists>m. merge_configs a b = Inr m \<and> json_eq m c) \<and>
    (\<forall>us v. node_at a us = Some (Leaf v) \<longrightarrow> node_at b us = None)"
proof -
  have inner: "\<forall>s \<in> set [tables_without_yang_split sy, ignore_paths_split lib (key_paths lib kss)]. split_contract s"
    using tables_splitter.split_law[OF assms(3)] ignore_splitter.split_law[OF assms(4)] by simp
  note no_empty = split_no_empty[OF assms(1,2)]
  show ?thesis
    using config_splitter.split_then_merge[OF inner assms(2) no_empty assms(1)]
      config_splitter.parts_disjoint[OF inner assms(2) no_empty assms(1)] by blast
qed

definition yang_with_ports :: yang_lib where
  "yang_with_ports = port_yang\<lparr>yl_crop := \<lambda>v. case v of
     JObj d \<Rightarrow> Inr (JObj (filter (\<lambda>p. fst p = ''PORT'') d)) | _ \<Rightarrow> Inl TypeError\<rparr>"

definition mixed_config :: json where
  "mixed_config = JObj [(''PORT'', JObj [(''Ethernet0/1'', JObj [(''mtu'', JStr ''9100''), (''lanes'', JStr ''1'')])]),
     (''OTHER'', JObj [(''k'', JStr ''v'')])]"

definition mixed_yang :: json where
  "mixed_yang = JObj [(''PORT'', JObj [(''Ethernet0/1'', JObj [(''lanes'', JStr ''1'')])])]"

definition mixed_rest :: json where
  "mixed_rest = JObj [(''OTHER'', JObj [(''k'', JStr ''v'')]),
     (''PORT'', JObj [(''Ethernet0/1'', JObj [(''mtu'', JStr ''9100'')])])]"

lemma mixed_split:
  "config_split [tables_without_yang_split yang_with_ports,
     ignore_paths_split ref_lib (key_paths ref_lib [[''PORT'', ''Ethernet0/1'', ''mtu'']])] mixed_config = Inr (mixed_yang, mixed_rest)"
  by code_simp

theorem split_merge_roundtrip_witness: "\<exists>m. merge_configs mixed_yang mixed_rest = Inr m \<and> json_eq m mixed_config"
proof -
  have "wf_json mixed_config" by (simp add: mixed_config_def)
  moreover have "crop_ok yang_with_ports (\<lambda>t. t = ''PORT'')" by (simp add: crop_ok_def yang_with_ports_def)
  moreover have "ignore_ok ref_lib [[''PORT'', ''Ethernet0/1'', ''mtu'']]" by (simp add: ignore_ok_def)
  ultimately show ?thesis using split_merge_roundtrip[OF mixed_split] by blast
qed

text \<open>The order of the ignored paths matters: with \<open>/A/B\<close> before \<open>/A\<close> the second move overwrites what the first
  one saved, and neither part of the split holds the value of \<open>/A/B\<close>.\<close>

theorem ignore_order_loses:
  "ignore_paths_split ref_lib [''/A/B'', ''/A''] (JObj [(''A'', JObj [(''B'', JInt 1)])]) = Inr (JObj [], JObj []) \<and>
   ignore_paths_split ref_lib [''/A'', ''/A/B''] (JObj [(''A'', JObj [(''B'', JInt 1)])])
     = Inr (JObj [], JObj [(''A'', JObj [(''B'', JInt 1)])])"
  by code_simp

lemma step_changes:
  assumes "change_apply lib p c = Inr t" and "make_patch_ok lib" and "wf_json c" "compatible c rem" "wf_json t" "compatible t rem" "wf_json rem"
  shows "\<exists>m m' r. merge_configs c rem = Inr m \<and> merge_configs t rem = Inr m' \<and>
    change_apply lib (generate_patch lib m m') m = Inr r \<and> json_eq r m'"
proof -
  obtain m m' where m: "merge_configs c rem = Inr m" "wf_json m" "merge_configs t rem = Inr m'" "wf_json m'"
    using merge_nodes[of c rem] merge_nodes[of t rem] assms unfolding merge_configs_def by blast
  then show ?thesis using assms(2) unfolding make_patch_ok_def change_apply_def generate_patch_def by blast
qed

text \<open>C35. \<open>ChangeWrapper.adjust_changes\<close>: from changes of one part, the adjusted changes do the same on the merged
  configuration, one by one: change \<open>i\<close>, applied to the merge of the other part with the \<open>i\<close>-th intermediate
  configuration, gives its merge with the next one.\<close>

theorem adjust_changes_correct:
  assumes "adjust_changes lib changes c rem = Inr adjusted" and "run_changes lib c changes = Inr cs"
    and "make_patch_ok lib" and "wf_json rem" and "\<forall>x \<in> set (c # cs). wf_json x \<and> compatible x rem"
  shows "length adjusted = length cs \<and> (\<forall>i < length cs. \<exists>m m' r. merge_configs ((c # cs) ! i) rem = Inr m \<and>
    merge_configs (cs ! i) rem = Inr m' \<and> change_apply lib (adjusted ! i) m = Inr r \<and> json_eq r m')"
  using assms(1,2,5)
proof (induction changes arbitrary: c adjusted cs)
  case (Cons p changes)
  then obtain t m m' rest cs' where s: "change_apply lib p c = Inr t" "merge_configs c rem = Inr m" "merge_configs t rem = Inr m'"
      "adjust_changes lib changes t rem = Inr rest" "adjusted = generate_patch lib m m' # rest"
      "run_changes lib t changes = Inr cs'" "cs = t # cs'"
    by (auto elim!: rbind_InrE)
  have "\<exists>r. change_apply lib (generate_patch lib m m') m = Inr r \<and> json_eq r m'"
    using step_changes[OF s(1) assms(3) _ _ _ _ assms(4)] Cons.prems(3) s by auto
  then have first: "\<exists>r. change_apply lib (adjusted ! 0) m = Inr r \<and> json_eq r m'" using s(5) by simp
  have tail: "length rest = length cs' \<and> (\<forall>i < length cs'. \<exists>m m' r. merge_configs ((t # cs') ! i) rem = Inr m \<and>
    merge_configs (cs' ! i) rem = Inr m' \<and> change_apply lib (rest ! i) m = Inr r \<and> json_eq r m')"
    using Cons.IH[OF s(4,6)] Cons.prems(3) s(7) by simp
  show ?case
  proof (intro conjI allI impI)
    fix i assume "i < length cs"
    then show "\<exists>m m' r. merge_configs ((c # cs) ! i) rem = Inr m \<and> merge_configs (cs ! i) rem = Inr m' \<and>
        change_apply lib (adjusted ! i) m = Inr r \<and> json_eq r m'"
      using s first tail by (cases i) simp_all
  qed (use s tail in simp)
qed auto
theorem adjust_changes_correct_witness:
  "\<exists>m m' r. merge_configs mixed_yang mixed_rest = Inr m \<and> merge_configs (JObj []) mixed_rest = Inr m' \<and>
     change_apply ref_lib [create_operation REPLACE [] (Some mixed_rest)] m = Inr r \<and> json_eq r m'"
proof -
  let ?change = "[create_operation REMOVE ''/PORT'' None]" and ?adjusted = "[create_operation REPLACE [] (Some mixed_rest)]"
  have run: "run_changes ref_lib mixed_yang [?change] = Inr [JObj []]" by code_simp
  have adjusted: "adjust_changes ref_lib [?change] mixed_yang mixed_rest = Inr [?adjusted]" by code_simp
  have "wf_json mixed_yang" "wf_json mixed_rest" by (simp_all add: mixed_yang_def mixed_rest_def)
  moreover have "compatible mixed_yang mixed_rest" "compatible (JObj []) mixed_rest"
    by (simp_all add: mixed_yang_def mixed_rest_def compatible_JObj)
  ultimately show ?thesis using adjust_changes_correct[OF adjusted run ref_make_patch_ok] by simp
qed

end
