(* ===== verification/ServicesValidator.thy ===== *)
theory ServicesValidator
  imports ConfigWrapper
begin

text \<open>
  \<open>services_validator.py\<close>: what is done for a service when the tables it depends on have changed. The
  operating system is the record \<open>os\<close> over an arbitrary state of the world: \<open>os.system\<close> runs a command
  and returns its exit status, \<open>time.sleep\<close> lets time pass. Iteration over a set is in the order of first
  occurrence; the results below do not depend on it.
\<close>

record 'w os =
  os_system :: "string \<Rightarrow> 'w \<Rightarrow> int \<times> 'w"
  os_sleep :: "nat \<Rightarrow> 'w \<Rightarrow> 'w"

section \<open>Restarting a service\<close>

definition restart_cmd :: "string \<Rightarrow> string" where
  "restart_cmd svc = ''systemctl restart '' @ svc"

definition reset_cmd :: "string \<Rightarrow> string" where
  "reset_cmd svc = ''systemctl reset-failed '' @ svc"

definition service_restart :: "'w os \<Rightarrow> string \<Rightarrow> 'w \<Rightarrow> bool \<times> 'w" where
  "service_restart O1 svc w =
     (let (rc, w) = os_system O1 (restart_cmd svc) w
      in if rc = 0 then (True, w)
         else let (_, w) = os_system O1 (reset_cmd svc) w;
                  (rc, w) = os_system O1 (restart_cmd svc) w
           in if rc = 0 then (True, w)
              else let (rc, w) = os_system O1 (restart_cmd svc) (os_sleep O1 10 w) in (rc = 0, w))"

section \<open>Validators\<close>

text \<open>A validator gets the configuration before and after the change and the affected keys; a false result
  reports a failure.\<close>

type_synonym 'w validator = "json \<Rightarrow> json \<Rightarrow> json \<Rightarrow> ('w, err, json) act"

definition restart :: "'w os \<Rightarrow> string \<Rightarrow> ('w, err, json) act" where
  "restart O1 svc w = (let (b, w) = service_restart O1 svc w in (Inr (JBool b), w))"

definition rsyslog_validator :: "'w os \<Rightarrow> 'w validator" where
  "rsyslog_validator O1 old_config upd_config ks w =
     (let (rc, w) = os_system O1 ''/usr/bin/rsyslog-config.sh'' w
      in if rc \<noteq> 0 then restart O1 ''rsyslog'' w else (Inr (JBool True), w))"

definition dhcp_validator :: "'w os \<Rightarrow> 'w validator" where
  "dhcp_validator O1 old_config upd_config ks = restart O1 ''dhcp_relay''"

definition dhcp_servers :: "json \<Rightarrow> string \<Rightarrow> err + json" where
  "dhcp_servers vlans key =
     rbind (py_get_default vlans key (JObj [])) (\<lambda>vlan. py_get_default vlan ''dhcp_servers'' (JArr []))"

text \<open>The pure part: whether some VLAN has other DHCP servers than before.\<close>

definition dhcp_servers_changed :: "json \<Rightarrow> json \<Rightarrow> err + bool" where
  "dhcp_servers_changed old_config upd_config =
     rbind (py_get_default old_config ''VLAN'' (JObj [])) (\<lambda>old_vlan.
     rbind (py_get_default upd_config ''VLAN'' (JObj [])) (\<lambda>upd_vlan.
     rbind (py_keys old_vlan) (\<lambda>old_keys. rbind (py_keys upd_vlan) (\<lambda>upd_keys.
       rexists (\<lambda>key. rbind (dhcp_servers old_vlan key) (\<lambda>a. rbind (dhcp_servers upd_vlan key) (\<lambda>b.
         Inr (\<not> json_eq a b)))) (remdups (old_keys @ upd_keys))))))"

definition vlan_validator :: "'w os \<Rightarrow> 'w validator" where
  "vlan_validator O1 old_config upd_config ks =
     act_bind (act_of (dhcp_servers_changed old_config upd_config)) (\<lambda>changed.
       if changed then restart O1 ''dhcp_relay'' else act_return (JBool True))"

definition ctrlplane_tables :: "json \<Rightarrow> err + string list" where
  "ctrlplane_tables acltable =
     rbind (py_keys acltable) (\<lambda>tables. rbind (rmapM (\<lambda>table.
       rbind (py_key acltable table) (\<lambda>fields. rbind (py_get_default fields ''type'' (JStr [])) (\<lambda>t.
         Inr (if json_eq t (JStr ''CTRLPLANE'') then [table] else [])))) tables) (\<lambda>tss. Inr (concat tss)))"

text \<open>\<open>rule.split("|")[0]\<close>.\<close>

definition rule_table :: "string \<Rightarrow> string" where
  "rule_table rule = hd (split_on (CHR ''|'') rule)"

definition ctrlplane_rules :: "json \<Rightarrow> string list \<Rightarrow> err + string list" where
  "ctrlplane_rules aclrule tables =
     rbind (py_iter aclrule) (\<lambda>rules. rbind (rmapM as_str rules) (\<lambda>rs.
       Inr (filter (\<lambda>r. rule_table r \<in> set tables) rs)))"

definition caclrules_changed :: "json \<Rightarrow> json \<Rightarrow> err + bool" where
  "caclrules_changed old_config upd_config =
     rbind (py_get_default old_config ''ACL_TABLE'' (JObj [])) (\<lambda>old_acltable.
     rbind (py_get_default upd_config ''ACL_TABLE'' (JObj [])) (\<lambda>upd_acltable.
     rbind (ctrlplane_tables old_acltable) (\<lambda>old_cacltable.
     rbind (ctrlplane_tables upd_acltable) (\<lambda>upd_cacltable.
     rbind (py_get_default old_config ''ACL_RULE'' (JObj [])) (\<lambda>old_aclrule.
     rbind (py_get_default upd_config ''ACL_RULE'' (JObj [])) (\<lambda>upd_aclrule.
     rbind (ctrlplane_rules old_aclrule old_cacltable) (\<lambda>old_caclrule.
     rbind (ctrlplane_rules upd_aclrule upd_cacltable) (\<lambda>upd_caclrule.
       rexists (\<lambda>key. rbind (py_get_default old_aclrule key (JObj [])) (\<lambda>a.
         rbind (py_get_default upd_aclrule key (JObj [])) (\<lambda>b. Inr (\<not> json_eq a b))))
         (remdups (old_caclrule @ upd_caclrule))))))))))"

definition caclmgrd_validator :: "'w os \<Rightarrow> 'w validator" where
  "caclmgrd_validator O1 old_config upd_config ks =
     act_bind (act_of (caclrules_changed old_config upd_config)) (\<lambda>changed.
     act_bind (act_do (if changed then os_sleep O1 1 else id)) (\<lambda>_. act_return (JBool True)))"

definition ntp_validator :: "'w os \<Rightarrow> 'w validator" where
  "ntp_validator O1 old_config upd_config ks = restart O1 ''ntp-config''"

lemma rmapM_map: "rmapM f (map g xs) = rmapM (\<lambda>x. f (g x)) xs"
  by (induction xs) simp_all

section \<open>When a service is restarted\<close>

text \<open>A table of dictionaries, and what the validators read of it.\<close>

definition rows_ok :: "dict \<Rightarrow> bool" where
  "rows_ok d \<longleftrightarrow> (\<forall>p \<in> set d. is_obj (snd p))"

definition row_field :: "dict \<Rightarrow> string \<Rightarrow> string \<Rightarrow> json \<Rightarrow> json" where
  "row_field d key field dflt = (case map_of d key of
     Some (JObj e) \<Rightarrow> (case map_of e field of Some v \<Rightarrow> v | None \<Rightarrow> dflt) | _ \<Rightarrow> dflt)"

lemma rows_ok_map: "rows_ok d \<Longrightarrow> map_of d k = Some v \<Longrightarrow> \<exists>e. v = JObj e"
  by (cases v) (auto simp: rows_ok_def dest!: map_of_SomeD)

lemma dhcp_servers_row: "rows_ok d \<Longrightarrow> dhcp_servers (JObj d) key = Inr (row_field d key ''dhcp_servers'' (JArr []))"
  by (cases "map_of d key") (auto simp: dhcp_servers_def py_get_default_def row_field_def dest: rows_ok_map split: option.splits)

lemma row_field_None: "map_of d key = None \<Longrightarrow> row_field d key field dflt = dflt"
  by (simp add: row_field_def)

text \<open>\<open>vlan_validator\<close> restarts the DHCP relay exactly when some VLAN, in the configuration before or after, has other
  DHCP servers than on the other side (none counting as the empty list), and otherwise does nothing.\<close>

theorem vlan_validator_spec:
  assumes "py_get_default old ''VLAN'' (JObj []) = Inr (JObj a)" and "py_get_default upd ''VLAN'' (JObj []) = Inr (JObj b)"
    and "rows_ok a" and "rows_ok b"
  shows "vlan_validator O1 old upd ks w =
    (if \<exists>key. \<not> json_eq (row_field a key ''dhcp_servers'' (JArr [])) (row_field b key ''dhcp_servers'' (JArr []))
     then restart O1 ''dhcp_relay'' w else (Inr (JBool True), w))"
proof -
  let ?differ = "\<lambda>key. \<not> json_eq (row_field a key ''dhcp_servers'' (JArr [])) (row_field b key ''dhcp_servers'' (JArr []))"
  have "key \<in> fst ` set a \<union> fst ` set b" if "?differ key" for key
  proof (rule ccontr)
    assume "key \<notin> fst ` set a \<union> fst ` set b"
    then have "map_of a key = None" "map_of b key = None" by (simp_all add: map_of_eq_None_iff)
    with that show False by (simp add: row_field_None)
  qed
  then have "(\<exists>key \<in> set (remdups (map fst a @ map fst b)). ?differ key) \<longleftrightarrow> (\<exists>key. ?differ key)"
    unfolding set_remdups set_append set_map by blast
  moreover have "dhcp_servers_changed old upd = Inr (\<exists>key \<in> set (remdups (map fst a @ map fst b)). ?differ key)"
    using assms(1,2) by (simp add: dhcp_servers_changed_def dhcp_servers_row[OF assms(3)] dhcp_servers_row[OF assms(4)]
        del: set_remdups set_append set_map)
  ultimately show ?thesis by (simp add: vlan_validator_def act_return_def)
qed

definition one_vlan :: "string list \<Rightarrow> json" where
  "one_vlan servers = JObj [(''VLAN'', JObj [(''Vlan5'', JObj [(''dhcp_servers'', JArr (map JStr servers))])])]"

theorem vlan_validator_spec_witness:
  "vlan_validator \<lparr>os_system = (\<lambda>c h. (0, h @ [c])), os_sleep = (\<lambda>n h. h)\<rparr> (one_vlan [''10.0.0.1'']) (JObj []) JNull []
     = (Inr (JBool True), [''systemctl restart dhcp_relay''])"
proof -
  let ?a = "[(''Vlan5'', JObj [(''dhcp_servers'', JArr [JStr ''10.0.0.1''])])]"
  have "\<exists>key. \<not> json_eq (row_field ?a key ''dhcp_servers'' (JArr [])) (row_field [] key ''dhcp_servers'' (JArr []))"
    by (rule exI[of _ "''Vlan5''"]) (simp add: row_field_def)
  then show ?thesis
    using vlan_validator_spec[of "one_vlan [''10.0.0.1'']" ?a "JObj []" "[]" "\<lparr>os_system = (\<lambda>c h. (0, h @ [c])), os_sleep = (\<lambda>n h. h)\<rparr>" JNull "[]"]
    by (simp add: py_get_default_def one_vlan_def rows_ok_def restart_def service_restart_def restart_cmd_def)
qed

text \<open>Control-plane rules: those of a table of type CTRLPLANE.\<close>

definition ctrlplane_rule :: "dict \<Rightarrow> dict \<Rightarrow> string \<Rightarrow> bool" where
  "ctrlplane_rule tables rules r \<longleftrightarrow>
     map_of rules r \<noteq> None \<and> row_field tables (rule_table r) ''type'' (JStr []) = JStr ''CTRLPLANE''"

definition whole_row :: "dict \<Rightarrow> string \<Rightarrow> json" where
  "whole_row d key = (case map_of d key of Some v \<Rightarrow> v | None \<Rightarrow> JObj [])"

lemma ctrlplane_tables_spec:
  assumes "rows_ok d" and "distinct (map fst d)"
  shows "ctrlplane_tables (JObj d) = Inr (filter (\<lambda>t. row_field d t ''type'' (JStr []) = JStr ''CTRLPLANE'') (map fst d))"
proof -
  have "rbind (py_key (JObj d) t) (\<lambda>fields. rbind (py_get_default fields ''type'' (JStr [])) (\<lambda>v.
         Inr (if json_eq v (JStr ''CTRLPLANE'') then [t] else [])))
      = Inr (if row_field d t ''type'' (JStr []) = JStr ''CTRLPLANE'' then [t] else [])" if mem: "t \<in> set (map fst d)" for t
  proof -
    obtain v where v: "map_of d t = Some v" using mem by (cases "map_of d t") (auto simp: map_of_eq_None_iff)
    have str: "json_eq x (JStr s) \<longleftrightarrow> x = JStr s" for x s by (cases x) auto
    obtain e where "v = JObj e" using rows_ok_map[OF assms(1) v] by blast
    with v show ?thesis by (auto simp: py_get_default_def row_field_def str split: option.splits)
  qed
  then have "rmapM (\<lambda>t. rbind (py_key (JObj d) t) (\<lambda>fields. rbind (py_get_default fields ''type'' (JStr [])) (\<lambda>v.
         Inr (if json_eq v (JStr ''CTRLPLANE'') then [t] else [])))) (map fst d)
      = rmapM (\<lambda>t. Inr (if row_field d t ''type'' (JStr []) = JStr ''CTRLPLANE'' then [t] else [])) (map fst d)"
    by (intro rmapM_cong) simp_all
  moreover have "concat (map (\<lambda>t. if P t then [t] else []) ts) = filter P ts" for P and ts :: "string list"
    by (induction ts) auto
  ultimately show ?thesis by (simp add: ctrlplane_tables_def del: map_map)
qed

text \<open>\<open>caclmgrd_validator\<close> always reports success; it sleeps for a second exactly when a rule that is a control-plane rule
  before or after the change differs between the two configurations.\<close>

theorem caclmgrd_validator_spec:
  assumes "py_get_default old ''ACL_TABLE'' (JObj []) = Inr (JObj ta)" and "py_get_default upd ''ACL_TABLE'' (JObj []) = Inr (JObj tb)"
    and "py_get_default old ''ACL_RULE'' (JObj []) = Inr (JObj ra)" and "py_get_default upd ''ACL_RULE'' (JObj []) = Inr (JObj rb)"
    and "rows_ok ta" and "rows_ok tb" and "distinct (map fst ta)" and "distinct (map fst tb)"
  shows "caclmgrd_validator O1 old upd ks w = (Inr (JBool True),
    if \<exists>r. (ctrlplane_rule ta ra r \<or> ctrlplane_rule tb rb r) \<and> \<not> json_eq (whole_row ra r) (whole_row rb r)
    then os_sleep O1 1 w else w)"
proof -
  let ?cp = "\<lambda>ts t. row_field ts t ''type'' (JStr []) = JStr ''CTRLPLANE''"
  let ?rules = "\<lambda>ts rs. filter (\<lambda>r. rule_table r \<in> set (filter (?cp ts) (map fst ts))) (map fst rs)"
  have rules: "ctrlplane_rules (JObj rs) ts = Inr (filter (\<lambda>r. rule_table r \<in> set ts) (map fst rs))" for rs ts
    by (simp add: ctrlplane_rules_def rmapM_map comp_def)
  have row: "py_get_default (JObj rs) r (JObj []) = Inr (whole_row rs r)" for rs r
    by (simp add: py_get_default_def whole_row_def split: option.splits)
  have cp: "t \<in> fst ` set ts" if "?cp ts t" for ts t
    using that by (cases "map_of ts t") (force simp: row_field_def dest: map_of_SomeD)+
  have mem: "r \<in> set (?rules ts rs) \<longleftrightarrow> ctrlplane_rule ts rs r" for ts rs r
    using cp[of ts "rule_table r"] by (auto simp: ctrlplane_rule_def map_of_eq_None_iff)
  have "caclrules_changed old upd = Inr (\<exists>r \<in> set (remdups (?rules ta ra @ ?rules tb rb)). \<not> json_eq (whole_row ra r) (whole_row rb r))"
    using assms(1-4) ctrlplane_tables_spec[OF assms(5,7)] ctrlplane_tables_spec[OF assms(6,8)]
    by (simp add: caclrules_changed_def rules row del: set_remdups set_append set_filter set_map)
  moreover have "(\<exists>r \<in> set (remdups (?rules ta ra @ ?rules tb rb)). \<not> json_eq (whole_row ra r) (whole_row rb r))
      \<longleftrightarrow> (\<exists>r. (ctrlplane_rule ta ra r \<or> ctrlplane_rule tb rb r) \<and> \<not> json_eq (whole_row ra r) (whole_row rb r))"
    using mem by (auto simp del: set_filter)
  ultimately have "caclrules_changed old upd
      = Inr (\<exists>r. (ctrlplane_rule ta ra r \<or> ctrlplane_rule tb rb r) \<and> \<not> json_eq (whole_row ra r) (whole_row rb r))"
    by simp
  then show ?thesis
    unfolding caclmgrd_validator_def act_bind_of by (simp only: act_bind_def act_do_def act_return_def act_of_def) auto
qed
definition acl_tables :: dict where
  "acl_tables = [(''SSH_ONLY'', JObj [(''type'', JStr ''CTRLPLANE'')]), (''DATA'', JObj [(''type'', JStr ''L3'')])]"

theorem caclmgrd_validator_spec_witness:
  "caclmgrd_validator \<lparr>os_system = (\<lambda>c n. (0, n)), os_sleep = (\<lambda>n m. m + n)\<rparr>
     (JObj [(''ACL_TABLE'', JObj acl_tables), (''ACL_RULE'', JObj [(''SSH_ONLY|R1'', JObj [(''PRIORITY'', JStr ''1'')])])])
     (JObj [(''ACL_TABLE'', JObj acl_tables)]) JNull (0::nat) = (Inr (JBool True), 1)"
proof -
  let ?r = "[(''SSH_ONLY|R1'', JObj [(''PRIORITY'', JStr ''1'')])]"
  let ?os = "\<lparr>os_system = (\<lambda>c n. (0, n)), os_sleep = (\<lambda>n m. m + n)\<rparr> :: nat os"
  have "ctrlplane_rule acl_tables ?r ''SSH_ONLY|R1'' \<and> \<not> json_eq (whole_row ?r ''SSH_ONLY|R1'') (whole_row [] ''SSH_ONLY|R1'')"
    by (simp add: ctrlplane_rule_def whole_row_def row_field_def rule_table_def acl_tables_def)
  then have "\<exists>r. (ctrlplane_rule acl_tables ?r r \<or> ctrlplane_rule acl_tables [] r) \<and> \<not> json_eq (whole_row ?r r) (whole_row [] r)"
    by blast
  moreover have "rows_ok acl_tables" "distinct (map fst acl_tables)" by (simp_all add: rows_ok_def acl_tables_def)
  ultimately show ?thesis
    using caclmgrd_validator_spec[of "JObj [(''ACL_TABLE'', JObj acl_tables), (''ACL_RULE'', JObj ?r)]" acl_tables
      "JObj [(''ACL_TABLE'', JObj acl_tables)]" acl_tables ?r "[]" ?os JNull 0]
    by (simp add: py_get_default_def)
qed
end
