(* ===== verification/ChangeApplier.thy ===== *)
theory ChangeApplier
  imports ServicesValidator
begin

text \<open>
  \<open>change_applier.py\<close>: a change is applied to the running configuration entry by entry, the services that
  depend on the affected tables are told, and the result is compared with what the database then holds.
  The database connector, \<open>sonic-cfggen\<close> and modules outside the package are the fields of the record
  \<open>applier\<close>, over an arbitrary state of the world; \<open>shipped_conf\<close> is \<open>generic_config_updater.conf.json\<close>.
\<close>

record 'w applier =
  ca_lib :: json_lib
  ca_os :: "'w os"
  ca_read :: "'w \<Rightarrow> err + json"
  ca_set_entry :: "string \<Rightarrow> string \<Rightarrow> json \<Rightarrow> 'w \<Rightarrow> 'w"
  ca_conf :: json
  ca_import :: "string \<Rightarrow> string \<Rightarrow> 'w validator"

definition shipped_conf :: json where
  "shipped_conf = (let services = (\<lambda>ss. JObj [(''services_to_validate'', JArr (map JStr ss))]);
       commands = (\<lambda>cs. JObj [(''validate_commands'', JArr (map (\<lambda>c. JStr (''generic_config_updater.services_validator.'' @ c)) cs))])
     in JObj [(''tables'', JObj [([], services [''system_health'']), (''PORT'', services [''port_service'']),
         (''SYSLOG_SERVER'', services [''rsyslog'']), (''DHCP_RELAY'', services [''dhcp-relay'']),
         (''DHCP_SERVER'', services [''dhcp-relay'']), (''VLAN'', services [''vlan-service'']),
         (''ACL_RULE'', services [''caclmgrd-service'']), (''NTP_SERVER'', services [''ntp-service''])]),
       (''services'', JObj [(''system_health'', commands []), (''port_service'', commands []),
         (''rsyslog'', commands [''rsyslog_validator'']), (''dhcp-relay'', commands [''dhcp_validator'']),
         (''vlan-service'', commands [''vlan_validator'']), (''caclmgrd-service'', commands [''caclmgrd_validator'']),
         (''ntp-service'', commands [''ntp_validator''])])])"

section \<open>Commands and services\<close>

definition invoke_cmd :: "'w applier \<Rightarrow> string \<Rightarrow> 'w validator" where
  "invoke_cmd A cmd =
     (let parts = split_on (CHR ''.'') cmd; method_name = last parts; module_name = join_with ''.'' (butlast parts)
      in if module_name = ''generic_config_updater.services_validator'' then
           (if method_name = ''rsyslog_validator'' then rsyslog_validator (ca_os A)
            else if method_name = ''dhcp_validator'' then dhcp_validator (ca_os A)
            else if method_name = ''vlan_validator'' then vlan_validator (ca_os A)
            else if method_name = ''caclmgrd_validator'' then caclmgrd_validator (ca_os A)
            else if method_name = ''ntp_validator'' then ntp_validator (ca_os A)
            else ca_import A module_name method_name)
         else ca_import A module_name method_name)"

text \<open>\<open>section.get(name, {}).get(field, [])\<close> of the configuration file, all names together, as a set.\<close>

definition names_of :: "json \<Rightarrow> string \<Rightarrow> string list \<Rightarrow> err + string list" where
  "names_of entries field names =
     rbind (rmapM (\<lambda>name.
       rbind (py_get_default entries name (JObj [])) (\<lambda>e. rbind (py_get_default e field (JArr [])) (\<lambda>l.
       rbind (py_iter l) (rmapM as_str)))) names) (\<lambda>nss. Inr (remdups (concat nss)))"

text \<open>The first false value ends the loop and is returned.\<close>

fun invoke_all :: "'w applier \<Rightarrow> string list \<Rightarrow> 'w validator" where
  "invoke_all A [] old_cfg upd_cfg ks = act_return (JInt 0)"
| "invoke_all A (cmd # cmds) old_cfg upd_cfg ks =
     act_bind (invoke_cmd A cmd old_cfg upd_cfg ks) (\<lambda>ret.
       if \<not> py_truthy ret then act_return ret else invoke_all A cmds old_cfg upd_cfg ks)"

definition commands_for :: "json \<Rightarrow> string list \<Rightarrow> err + string list" where
  "commands_for conf affected =
     rbind (py_key conf ''tables'') (\<lambda>tables.
     rbind (names_of tables ''services_to_validate'' affected) (\<lambda>svcs.
     rbind (py_key conf ''services'') (\<lambda>services.
       names_of services ''validate_commands'' svcs)))"

definition services_validate :: "'w applier \<Rightarrow> json \<Rightarrow> json \<Rightarrow> dict \<Rightarrow> ('w, err, json) act" where
  "services_validate A old_cfg upd_cfg affected =
     (let affected = (if affected = [] then [([], JObj [])] else affected)
      in act_bind (act_of (commands_for (ca_conf A) (map fst affected))) (\<lambda>cmds.
           invoke_all A cmds old_cfg upd_cfg (JObj affected)))"

section \<open>Writing the database\<close>

definition prune_empty_table :: "json \<Rightarrow> err + json" where
  "prune_empty_table data =
     rbind (py_keys data) (\<lambda>tables.
     rfoldM (\<lambda>d tbl. rbind (py_key d tbl) (\<lambda>v. rbind (as_dict d) (\<lambda>e.
       Inr (if py_truthy v then d else JObj (AList.delete tbl e))))) data tables)"

text \<open>\<open>upd_keys[tbl][key] = {}\<close> in a dictionary with default {}.\<close>

definition mark_key :: "string \<Rightarrow> string \<Rightarrow> dict \<Rightarrow> dict" where
  "mark_key tbl key affected =
     AList.update tbl (JObj (AList.update key (JObj [])
       (case map_of affected tbl of Some (JObj e) \<Rightarrow> e | _ \<Rightarrow> []))) affected"

definition upd_key :: "'w applier \<Rightarrow> string \<Rightarrow> json \<Rightarrow> json \<Rightarrow> dict \<Rightarrow> string \<Rightarrow> ('w, err, dict) act" where
  "upd_key A tbl run_tbl upd_tbl affected key =
     act_bind (act_of (py_get_default run_tbl key JNull)) (\<lambda>run_data.
     act_bind (act_of (py_get_default upd_tbl key JNull)) (\<lambda>upd_data.
       if json_eq run_data upd_data then act_return affected
       else act_bind (act_do (ca_set_entry A tbl key upd_data)) (\<lambda>_. act_return (mark_key tbl key affected))))"

definition upd_data :: "'w applier \<Rightarrow> string \<Rightarrow> json \<Rightarrow> json \<Rightarrow> dict \<Rightarrow> ('w, err, dict) act" where
  "upd_data A tbl run_tbl upd_tbl affected =
     act_bind (act_of (py_keys run_tbl)) (\<lambda>ks1. act_bind (act_of (py_keys upd_tbl)) (\<lambda>ks2.
       act_fold (upd_key A tbl run_tbl upd_tbl) affected (remdups (ks1 @ ks2))))"

definition upd_table :: "'w applier \<Rightarrow> json \<Rightarrow> json \<Rightarrow> dict \<Rightarrow> string \<Rightarrow> ('w, err, dict) act" where
  "upd_table A run upd affected tbl =
     act_bind (act_of (py_get_default run tbl (JObj []))) (\<lambda>run_tbl.
     act_bind (act_of (py_get_default upd tbl (JObj []))) (\<lambda>upd_tbl.
       upd_data A tbl run_tbl upd_tbl affected))"

definition upd_tables :: "'w applier \<Rightarrow> json \<Rightarrow> json \<Rightarrow> ('w, err, dict) act" where
  "upd_tables A run upd =
     act_bind (act_of (py_keys run)) (\<lambda>ts1. act_bind (act_of (py_keys upd)) (\<lambda>ts2.
       act_fold (upd_table A run upd) [] (sort (remdups (ts1 @ ts2)))))"

section \<open>ChangeApplier.apply\<close>

definition backend_tables :: "string list" where
  "backend_tables = [''BUFFER_PG'', ''BUFFER_PROFILE'', ''FLEX_COUNTER_TABLE'']"

definition remove_backend_tables :: "json \<Rightarrow> err + json" where
  "remove_backend_tables data =
     (case data of JObj d \<Rightarrow> Inr (JObj (foldl (\<lambda>d key. AList.delete key d) d backend_tables)) | _ \<Rightarrow> Inl AttributeError)"

definition read_running :: "'w applier \<Rightarrow> ('w, err, json) act" where
  "read_running A w = (ca_read A w, w)"

text \<open>After the services: the result is -1 when the database does not hold the expected configuration.\<close>

definition check_running :: "'w applier \<Rightarrow> json \<Rightarrow> json \<Rightarrow> ('w, err, json) act" where
  "check_running A upd ret =
     (if py_truthy ret then act_return ret
      else act_bind (read_running A) (\<lambda>run.
        act_bind (act_of (remove_backend_tables upd)) (\<lambda>upd. act_bind (act_of (remove_backend_tables run)) (\<lambda>run.
          act_return (if json_eq upd run then ret else JInt (-1))))))"

definition change_applier_apply :: "'w applier \<Rightarrow> patch \<Rightarrow> ('w, err, json) act" where
  "change_applier_apply A change =
     act_bind (read_running A) (\<lambda>run.
     act_bind (act_of (change_apply (ca_lib A) change run)) (\<lambda>target.
     act_bind (act_of (prune_empty_table target)) (\<lambda>upd.
     act_bind (upd_tables A run upd) (\<lambda>affected.
     act_bind (services_validate A run upd affected) (check_running A upd)))))"

text \<open>\<open>DryRunChangeApplier\<close> hands the change to the dry-run database and returns None.\<close>

definition dry_applier_apply :: "json_lib \<Rightarrow> command_result \<Rightarrow> patch \<Rightarrow> (dry_run, err, json) act" where
  "dry_applier_apply lib r change db =
     (case dry_apply_change lib r change db of Inl e \<Rightarrow> (Inl e, db) | Inr db' \<Rightarrow> (Inr JNull, db'))"

section \<open>The entries of a configuration\<close>

text \<open>ConfigDB holds entries, dictionaries of strings and lists of strings, under a table and a key; JNull
  stands for no entry.\<close>

fun entry :: "json \<Rightarrow> string \<Rightarrow> string \<Rightarrow> json" where
  "entry (JObj d) t k = (case map_of d t of Some (JObj e) \<Rightarrow> opt_json (map_of e k) | _ \<Rightarrow> JNull)"
| "entry c t k = JNull"

fun field_ok :: "json \<Rightarrow> bool" where
  "field_ok (JStr s) = True"
| "field_ok (JArr xs) = list_all is_str xs"
| "field_ok _ = False"

fun entry_ok :: "json \<Rightarrow> bool" where
  "entry_ok (JObj f) = (wf_json (JObj f) \<and> list_all (\<lambda>p. field_ok (snd p)) f)"
| "entry_ok _ = False"

definition tables_ok :: "json \<Rightarrow> bool" where
  "tables_ok c \<longleftrightarrow> wf_json c \<and> (\<exists>d. c = JObj d \<and>
     (\<forall>t v. map_of d t = Some v \<longrightarrow> (\<exists>e. v = JObj e \<and> (\<forall>k x. map_of e k = Some x \<longrightarrow> entry_ok x))))"

definition db_shape :: "json \<Rightarrow> bool" where
  "db_shape c \<longleftrightarrow> tables_ok c \<and> (\<forall>d t. c = JObj d \<longrightarrow> map_of d t \<noteq> Some (JObj []))"

text \<open>What is assumed of the connector and of \<open>sonic-cfggen\<close>: there is a state of the entries that
  \<open>set_entry\<close> writes, the printed configuration shows, and the service commands leave alone.\<close>

definition db_ok :: "'w applier \<Rightarrow> ('w \<Rightarrow> string \<times> string \<Rightarrow> json) \<Rightarrow> bool" where
  "db_ok A view \<longleftrightarrow>
     (\<forall>w t k x. x = JNull \<or> entry_ok x \<longrightarrow> view (ca_set_entry A t k x w) = (view w)((t, k) := x)) \<and>
     (\<forall>w. \<exists>c. ca_read A w = Inr c \<and> db_shape c \<and> (\<forall>t k. json_eq (entry c t k) (view w (t, k)) \<and> wf_json (view w (t, k)))) \<and>
     (\<forall>w c. view (snd (os_system (ca_os A) c w)) = view w) \<and> (\<forall>w n. view (os_sleep (ca_os A) n w) = view w) \<and>
     (\<forall>m f old upd ks w. view (snd (ca_import A m f old upd ks w)) = view w)"

lemma db_ok_read:
  "db_ok A view \<Longrightarrow> \<exists>c. ca_read A w = Inr c \<and> db_shape c \<and> (\<forall>t k. json_eq (entry c t k) (view w (t, k)) \<and> wf_json (view w (t, k)))"
  unfolding db_ok_def by blast

lemma entry_wf: "wf_json c \<Longrightarrow> wf_json (entry c t k)"
  by (cases c) (auto simp: opt_json_def simp del: wf_json.simps(2) split: option.splits json.splits dest!: map_of_wf)

text \<open>A table of the configuration, and its entries.\<close>

lemma get_table:
  assumes "tables_ok c"
  shows "\<exists>e. py_get_default c t (JObj []) = Inr (JObj e) \<and> (\<forall>k. opt_json (map_of e k) = entry c t k) \<and>
    (\<forall>k. entry c t k = JNull \<or> entry_ok (entry c t k)) \<and> (\<forall>k. k \<in> fst ` set e \<longleftrightarrow> entry c t k \<noteq> JNull)"
proof -
  obtain d where d: "c = JObj d" "\<forall>t v. map_of d t = Some v \<longrightarrow> (\<exists>e. v = JObj e \<and> (\<forall>k x. map_of e k = Some x \<longrightarrow> entry_ok x))"
    using assms unfolding tables_ok_def by blast
  show ?thesis
  proof (cases "map_of d t")
    case None
    then show ?thesis using d(1) by (intro exI[of _ "[]"]) (simp add: py_get_default_def opt_json_def)
  next
    case (Some v)
    then obtain e where e: "v = JObj e" "\<forall>k x. map_of e k = Some x \<longrightarrow> entry_ok x" using d(2) by blast
    have nn: "x \<noteq> JNull" if "entry_ok x" for x using that by auto
    have "k \<in> fst ` set e \<longleftrightarrow> map_of e k \<noteq> None" for k by (simp add: map_of_eq_None_iff)
    moreover have "map_of e k \<noteq> None \<longleftrightarrow> entry c t k \<noteq> JNull" for k
      using d(1) Some e nn by (cases "map_of e k") (auto simp: opt_json_def)
    moreover have "entry c t k = JNull \<or> entry_ok (entry c t k)" for k
      using d(1) Some e by (cases "map_of e k") (auto simp: opt_json_def)
    ultimately show ?thesis using d(1) Some e(1) by (intro exI[of _ e]) (simp add: py_get_default_def)
  qed
qed

section \<open>What is written\<close>

text \<open>One key, one table, all tables: the entries that differ are overwritten with their new value.\<close>

lemma upd_key_view:
  assumes "db_ok A view" and "upd_key A t (JObj r) (JObj u) aff k w = (res, w')"
    and "opt_json (map_of u k) = JNull \<or> entry_ok (opt_json (map_of u k))"
  shows "\<exists>aff'. res = Inr aff' \<and> view w' = (if json_eq (opt_json (map_of r k)) (opt_json (map_of u k)) then view w
    else (view w)((t, k) := opt_json (map_of u k)))"
proof -
  have "py_get_default (JObj e) k JNull = Inr (opt_json (map_of e k))" for e
    by (simp add: py_get_default_def opt_json_def)
  with assms show ?thesis
    by (auto simp: upd_key_def db_ok_def act_bind_def act_do_def act_return_def split: if_splits)
qed

lemma upd_keys_view:
  assumes "db_ok A view" and "\<forall>k. opt_json (map_of u k) = JNull \<or> entry_ok (opt_json (map_of u k))"
  shows "act_fold (upd_key A t (JObj r) (JObj u)) aff ks w = (res, w') \<Longrightarrow>
    \<exists>aff'. res = Inr aff' \<and> (\<forall>t' k. view w' (t', k) = (if t' = t \<and> k \<in> set ks \<and>
      \<not> json_eq (opt_json (map_of r k)) (opt_json (map_of u k)) then opt_json (map_of u k) else view w (t', k)))"
proof (induction ks arbitrary: aff w)
  case (Cons k ks)
  obtain res1 w1 where s: "upd_key A t (JObj r) (JObj u) aff k w = (res1, w1)" by fastforce
  from upd_key_view[OF assms(1) s] assms(2) obtain aff1 where v: "res1 = Inr aff1"
    "view w1 = (if json_eq (opt_json (map_of r k)) (opt_json (map_of u k)) then view w
      else (view w)((t, k) := opt_json (map_of u k)))" by blast
  have "act_fold (upd_key A t (JObj r) (JObj u)) aff1 ks w1 = (res, w')"
    using Cons.prems s v(1) by (simp add: act_bind_def)
  from Cons.IH[OF this] v(2) show ?case by auto
qed (auto simp: act_return_def)

definition differs :: "json \<Rightarrow> json \<Rightarrow> string \<Rightarrow> string \<Rightarrow> bool" where
  "differs run upd t k \<longleftrightarrow> \<not> json_eq (entry run t k) (entry upd t k)"

lemma upd_table_view:
  assumes "db_ok A view" and "tables_ok run" and "tables_ok upd" and "upd_table A run upd aff t w = (res, w')"
  shows "\<exists>aff'. res = Inr aff' \<and> (\<forall>t' k. view w' (t', k) = (if t' = t \<and> differs run upd t k then entry upd t k else view w (t', k)))"
proof -
  obtain r where r: "py_get_default run t (JObj []) = Inr (JObj r)" "\<forall>k. opt_json (map_of r k) = entry run t k"
      "\<forall>k. k \<in> fst ` set r \<longleftrightarrow> entry run t k \<noteq> JNull" using get_table[OF assms(2)] by blast
  obtain u where u: "py_get_default upd t (JObj []) = Inr (JObj u)" "\<forall>k. opt_json (map_of u k) = entry upd t k"
      "\<forall>k. entry upd t k = JNull \<or> entry_ok (entry upd t k)" "\<forall>k. k \<in> fst ` set u \<longleftrightarrow> entry upd t k \<noteq> JNull"
    using get_table[OF assms(3)] by blast
  have f: "act_fold (upd_key A t (JObj r) (JObj u)) aff (remdups (map fst r @ map fst u)) w = (res, w')"
    using assms(4) r(1) u(1) by (simp add: upd_table_def upd_data_def)
  have "k \<in> set (remdups (map fst r @ map fst u))" if "differs run upd t k" for k
    using that r(3) u(4) by (auto simp: differs_def)
  then show ?thesis
    using upd_keys_view[OF assms(1) _ f] u(2,3) r(2) by (auto simp: differs_def)
qed

lemma upd_tables_fold_view:
  assumes "db_ok A view" and "tables_ok run" and "tables_ok upd"
  shows "act_fold (upd_table A run upd) aff ts w = (res, w') \<Longrightarrow>
    \<exists>aff'. res = Inr aff' \<and> (\<forall>t k. view w' (t, k) = (if t \<in> set ts \<and> differs run upd t k then entry upd t k else view w (t, k)))"
proof (induction ts arbitrary: aff w)
  case (Cons t ts)
  obtain res1 w1 where s: "upd_table A run upd aff t w = (res1, w1)" by fastforce
  from upd_table_view[OF assms s] obtain aff1 where v: "res1 = Inr aff1"
    "\<forall>t' k. view w1 (t', k) = (if t' = t \<and> differs run upd t k then entry upd t k else view w (t', k))" by blast
  have "act_fold (upd_table A run upd) aff1 ts w1 = (res, w')" using Cons.prems s v(1) by (simp add: act_bind_def)
  from Cons.IH[OF this] v(2) show ?case by auto
qed (auto simp: act_return_def)

lemma entry_table: "entry (JObj d) t k \<noteq> JNull \<Longrightarrow> t \<in> fst ` set d"
  by (cases "map_of d t") (force dest: map_of_SomeD)+

lemma upd_tables_view:
  assumes "db_ok A view" and "tables_ok run" and "tables_ok upd" and "upd_tables A run upd w = (res, w')"
  shows "\<exists>aff. res = Inr aff \<and> (\<forall>t k. view w' (t, k) = (if differs run upd t k then entry upd t k else view w (t, k)))"
proof -
  obtain d e where de: "run = JObj d" "upd = JObj e" using assms(2,3) by (auto simp: tables_ok_def)
  let ?ts = "sort (remdups (map fst d @ map fst e))"
  have f: "act_fold (upd_table A run upd) [] ?ts w = (res, w')"
    using assms(4) de by (simp add: upd_tables_def)
  have "t \<in> set ?ts" if "differs run upd t k" for t k
    using that entry_table[of d t k] entry_table[of e t k] de
    by (cases "entry run t k = JNull") (auto simp: differs_def simp del: entry.simps)
  then show ?thesis using upd_tables_fold_view[OF assms(1-3) f] by auto
qed

section \<open>Services\<close>

lemma service_restart_view: "db_ok A view \<Longrightarrow> view (snd (service_restart (ca_os A) svc w)) = view w"
proof -
  assume ok: "db_ok A view"
  have "view v' = view v" if "os_system (ca_os A) c v = (rc, v')" for c v rc v'
    using ok that unfolding db_ok_def by (metis snd_conv)
  moreover have "view (os_sleep (ca_os A) n v) = view v" for n v using ok by (simp add: db_ok_def)
  ultimately show ?thesis unfolding service_restart_def by (auto simp: Let_def split: prod.splits)
qed

lemma invoke_cmd_view: 
  assumes ok: "db_ok A view" shows "view (snd (invoke_cmd A cmd old upd ks w)) = view w"
proof -
  note sr = service_restart_view[OF ok]
  have restart: "view (snd (restart (ca_os A) svc v)) = view v" for svc v
    using sr[of svc v] by (simp add: restart_def case_prod_beta Let_def)
  have sys: "view (snd (os_system (ca_os A) c v)) = view v" "view (os_sleep (ca_os A) n v) = view v" for c n v
    using ok by (simp_all add: db_ok_def)
  have imp: "view (snd (ca_import A m f old upd ks w)) = view w" for m f using ok by (simp add: db_ok_def)
  have "view (snd (rsyslog_validator (ca_os A) old upd ks w)) = view w"
    by (simp add: rsyslog_validator_def case_prod_beta Let_def restart sys)
  moreover have "view (snd (vlan_validator (ca_os A) old upd ks w)) = view w"
    by (cases "dhcp_servers_changed old upd") (simp_all add: vlan_validator_def restart act_of_def act_return_def)
  moreover have "view (snd (caclmgrd_validator (ca_os A) old upd ks w)) = view w"
    by (cases "caclrules_changed old upd")
      (simp_all add: caclmgrd_validator_def act_of_def act_do_def act_bind_def act_return_def sys)
  ultimately show ?thesis
    by (simp add: invoke_cmd_def Let_def dhcp_validator_def ntp_validator_def restart imp)
qed

lemma invoke_all_view:
  "db_ok A view \<Longrightarrow> invoke_all A cmds old upd ks w = (r, w') \<Longrightarrow> view w' = view w"
proof (induction cmds arbitrary: w)
  case (Cons cmd cmds)
  obtain r1 w1 where s: "invoke_cmd A cmd old upd ks w = (r1, w1)" by fastforce
  then have "view w1 = view w" using invoke_cmd_view[OF Cons.prems(1), of cmd old upd ks w] by simp
  with Cons s show ?case by (auto simp: act_bind_def act_return_def split: sum.splits if_splits)
qed (simp add: act_return_def)

lemma services_view:
  assumes "db_ok A view" and "services_validate A old upd aff w = (r, w')"
  shows "view w' = view w"
  using assms invoke_all_view[OF assms(1)]
  by (cases "commands_for (ca_conf A) (map fst (if aff = [] then [([], JObj [])] else aff))")
     (auto simp: services_validate_def act_of_def Let_def)

lemma invoke_all_false: "invoke_all A cmds old upd ks w = (Inr ret, w') \<Longrightarrow> \<not> py_truthy ret"
  by (induction cmds arbitrary: w) (auto simp: act_simps split: if_splits)

lemma services_false: "services_validate A old upd aff w = (Inr ret, w') \<Longrightarrow> \<not> py_truthy ret"
  by (auto simp: services_validate_def Let_def act_simps dest: invoke_all_false)

text \<open>Whatever the services answer, their result is false in Python: a validator that fails is reported by
  returning its own false value, which the caller cannot tell from success, so a change whose services
  failed to restart counts as applied.\<close>

theorem services_failure_masked:
  assumes "services_validate A old upd aff w = (Inr ret, w')"
  shows "\<not> py_truthy ret"
  by (rule services_false[OF assms])

definition failing_applier :: "nat applier" where
  "failing_applier = \<lparr>ca_lib = ref_lib, ca_os = \<lparr>os_system = (\<lambda>c n. (1, n + 1)), os_sleep = (\<lambda>n w. w)\<rparr>,
     ca_read = (\<lambda>w. Inr (JObj [])), ca_set_entry = (\<lambda>t k x w. w), ca_conf = shipped_conf,
     ca_import = (\<lambda>m f old upd ks w. (Inl ImportError, w))\<rparr>"

theorem services_failure_masked_witness:
  "services_validate failing_applier (JObj []) (JObj []) [(''NTP_SERVER'', JObj [(''10.0.0.1'', JObj [])])] 0 = (Inr (JBool False), 4) \<and>
   \<not> py_truthy (JBool False)"
proof -
  have "services_validate failing_applier (JObj []) (JObj []) [(''NTP_SERVER'', JObj [(''10.0.0.1'', JObj [])])] 0 = (Inr (JBool False), 4)"
    by code_simp
  from this services_failure_masked[OF this] show ?thesis by blast
qed

section \<open>The database after a change\<close>

lemma tables_ok_map: "tables_ok (JObj d) \<Longrightarrow> map_of d t = Some v \<Longrightarrow> \<exists>e. v = JObj e \<and> (\<forall>k x. map_of e k = Some x \<longrightarrow> entry_ok x)"
  by (auto simp: tables_ok_def)

lemma db_shape_nonempty: "db_shape (JObj d) \<Longrightarrow> map_of d t = None \<longleftrightarrow> (\<forall>k. entry (JObj d) t k = JNull)"
proof
  assume sh: "db_shape (JObj d)" and n: "\<forall>k. entry (JObj d) t k = JNull"
  show "map_of d t = None"
  proof (rule ccontr)
    assume "map_of d t \<noteq> None"
    then obtain e where e: "map_of d t = Some (JObj e)" "\<forall>k x. map_of e k = Some x \<longrightarrow> entry_ok x"
      using sh tables_ok_map[of d t] by (auto simp: db_shape_def)
    with sh obtain k x es where "e = (k, x) # es" by (cases e) (auto simp: db_shape_def)
    then show False using n[rule_format, of k] e(1) e(2)[rule_format, of k x] by (auto simp: opt_json_def)
  qed
qed simp

lemma entry_ok_wf: "entry_ok x \<Longrightarrow> wf_json x"
  by (cases x) auto

lemma entry_ok_null: "\<not> entry_ok JNull"
  by simp

lemma opt_json_rel:
  "(\<And>x. a = Some x \<Longrightarrow> x \<noteq> JNull) \<Longrightarrow> (\<And>x. b = Some x \<Longrightarrow> x \<noteq> JNull) \<Longrightarrow> json_eq (opt_json a) (opt_json b) \<Longrightarrow>
     rel_option json_eq a b"
  by (cases a; cases b) (simp_all add: opt_json_def json_eq_null)

lemma entries_json_eq:
  assumes "db_shape a" and "db_shape b" and "\<And>t k. json_eq (entry a t k) (entry b t k)"
  shows "json_eq a b"
proof -
  obtain d e where de: "a = JObj d" "b = JObj e" using assms(1,2) by (auto simp: db_shape_def tables_ok_def)
  have wf: "wf_json (JObj d)" "wf_json (JObj e)" using assms(1,2) de by (simp_all add: db_shape_def tables_ok_def)
  then have dist: "distinct (map fst d)" "distinct (map fst e)" by simp_all
  have null: "entry a t k = JNull \<longleftrightarrow> entry b t k = JNull" for t k
    using assms(3)[of t k] by (cases "entry a t k = JNull"; cases "entry b t k = JNull") (simp_all add: json_eq_null del: entry.simps)
  have same: "map_of d t = None \<longleftrightarrow> map_of e t = None" for t
    using db_shape_nonempty[of d t] db_shape_nonempty[of e t] assms(1,2) null de by (simp del: entry.simps)
  show ?thesis unfolding de
  proof (rule json_eq_JObj_I[OF dist])
    fix t
    show "rel_option json_eq (map_of d t) (map_of e t)"
    proof (cases "map_of d t")
      case None
      with same[of t] show ?thesis by simp
    next
      case (Some v)
      with same[of t] obtain w where w: "map_of e t = Some w" by (cases "map_of e t") auto
      obtain f where f: "v = JObj f" "\<forall>k x. map_of f k = Some x \<longrightarrow> entry_ok x"
        using tables_ok_map[OF _ Some] assms(1) unfolding de db_shape_def by blast
      obtain g where g: "w = JObj g" "\<forall>k x. map_of g k = Some x \<longrightarrow> entry_ok x"
        using tables_ok_map[OF _ w] assms(2) unfolding de db_shape_def by blast
      note fg = f(1) g(1) and ok = f(2) g(2)
      have df: "distinct (map fst f)" "distinct (map fst g)"
        using map_of_wf[OF wf(1) Some] map_of_wf[OF wf(2) w] fg by simp_all
      have "rel_option json_eq (map_of f k) (map_of g k)" for k
      proof (rule opt_json_rel)
        show "json_eq (opt_json (map_of f k)) (opt_json (map_of g k))" using assms(3)[of t k] de Some w fg by simp
      qed (use ok entry_ok_null in blast)+
      then have "json_eq v w" unfolding fg by (rule json_eq_JObj_I[OF df])
      with Some w show ?thesis by simp
    qed
  qed
qed

text \<open>The back-end tables are taken out on both sides.\<close>

definition strip_tables :: "dict \<Rightarrow> dict" where
  "strip_tables d = filter (\<lambda>p. fst p \<notin> set backend_tables) d"

lemma foldl_delete: "foldl (\<lambda>d key. AList.delete key d) d ks = filter (\<lambda>p. fst p \<notin> set ks) d"
  by (induction ks arbitrary: d) (auto simp: AList.delete_eq case_prod_beta intro!: filter_cong)

lemma remove_backend_tables_JObj: "remove_backend_tables (JObj d) = Inr (JObj (strip_tables d))"
  by (simp add: remove_backend_tables_def strip_tables_def foldl_delete)

lemma map_of_filter_fst: "map_of (filter (\<lambda>p. P (fst p)) d) k = (if P k then map_of d k else None)"
  by (induction d) auto

lemma strip_tables_shape:
  assumes "db_shape (JObj d)"
  shows "db_shape (JObj (strip_tables d))" and "entry (JObj (strip_tables d)) t k = (if t \<in> set backend_tables then JNull else entry (JObj d) t k)"
  using assms by (auto simp: db_shape_def tables_ok_def strip_tables_def distinct_map_filter
      map_of_filter_fst[of "\<lambda>k. k \<notin> set backend_tables"] split: if_splits)

lemma check_running_same:
  assumes "db_ok A view" and "db_shape upd" and "\<And>t k. json_eq (entry upd t k) (view w (t, k))" and "\<not> py_truthy ret"
  shows "check_running A upd ret w = (Inr ret, w)"
proof -
  obtain c where c: "ca_read A w = Inr c" "db_shape c" "\<forall>t k. json_eq (entry c t k) (view w (t, k)) \<and> wf_json (view w (t, k))"
    using assms(1) unfolding db_ok_def by blast
  obtain d e where de: "upd = JObj d" "c = JObj e" using assms(2) c(2) by (auto simp: db_shape_def tables_ok_def)
  have wf: "wf_json (entry upd t k)" "wf_json (entry c t k)" for t k
    using assms(2) c(2) entry_wf by (auto simp: db_shape_def tables_ok_def)
  have "json_eq (entry upd t k) (entry c t k)" for t k
    using json_eq_trans[OF wf(1) _ wf(2)] json_eq_sym[OF wf(2)] assms(3) c(3) by blast
  then have "json_eq (JObj (strip_tables d)) (JObj (strip_tables e))"
    using entries_json_eq[OF strip_tables_shape(1) strip_tables_shape(1)] assms(2) c(2) strip_tables_shape(2) de by simp
  then show ?thesis
    using c(1) assms(4) de
    by (simp add: check_running_def read_running_def act_bind_def remove_backend_tables_JObj act_return_def act_of_def)
qed

lemma filter_snoc_delete:
  "distinct (map fst (xs @ p # ps)) \<Longrightarrow> AList.delete (fst p) (xs @ p # ps) = xs @ ps"
  by (induction xs) (cases p; auto)+

lemma prune_aux:
  "distinct (map fst (kept @ ps)) \<Longrightarrow>
   rfoldM (\<lambda>d tbl. rbind (py_key d tbl) (\<lambda>v. rbind (as_dict d) (\<lambda>e.
       Inr (if py_truthy v then d else JObj (AList.delete tbl e))))) (JObj (kept @ ps)) (map fst ps)
     = Inr (JObj (kept @ filter (\<lambda>p. py_truthy (snd p)) ps))"
proof (induction ps arbitrary: kept)
  case (Cons p ps)
  have "py_key (JObj (kept @ p # ps)) (fst p) = Inr (snd p)" using Cons.prems by (intro py_key_mem) auto
  then show ?case
    using Cons.IH[of "kept @ [p]"] Cons.IH[of kept] Cons.prems filter_snoc_delete[of kept p ps] by (auto simp del: py_key_JObj)
qed simp

lemma prune_empty_table_JObj:
  "distinct (map fst d) \<Longrightarrow> prune_empty_table (JObj d) = Inr (JObj (filter (\<lambda>p. py_truthy (snd p)) d))"
  using prune_aux[of "[]" d] by (simp add: prune_empty_table_def)

lemma prune_empty_table_shape:
  assumes "tables_ok target"
  shows "\<exists>upd. prune_empty_table target = Inr upd \<and> db_shape upd \<and> (\<forall>t k. entry upd t k = entry target t k)"
proof -
  obtain d where d: "target = JObj d" "distinct (map fst d)" "\<forall>p \<in> set d. wf_json (snd p)" using assms by (auto simp: tables_ok_def)
  let ?e = "filter (\<lambda>p. py_truthy (snd p)) d"
  have m: "map_of ?e t = (case map_of d t of Some v \<Rightarrow> if py_truthy v then Some v else None | None \<Rightarrow> None)" for t
    by (rule map_of_filter_snd[OF d(2)])
  have "tables_ok (JObj ?e)"
    using d tables_ok_map[of d] assms m by (auto simp: tables_ok_def distinct_map_filter split: option.splits if_splits)
  moreover have "map_of ?e t \<noteq> Some (JObj [])" for t using m by (auto split: option.splits)
  moreover have "entry (JObj ?e) t k = entry target t k" for t k
    using m[of t] d(1) tables_ok_map[of d t] assms by (cases "map_of d t") (auto simp: opt_json_def)
  ultimately show ?thesis using prune_empty_table_JObj[OF d(2)] d(1) by (auto simp: db_shape_def simp del: entry.simps)
qed

lemma change_applier_tracks:
  assumes ok: "db_ok A view" and read: "ca_read A w = Inr run" and "change_apply (ca_lib A) change run = Inr target"
    and target: "tables_ok target" and run': "change_applier_apply A change w = (r, w')"
  shows "(\<forall>t k. json_eq (entry target t k) (view w' (t, k))) \<and> (\<forall>ret. r = Inr ret \<longrightarrow> \<not> py_truthy ret)"
proof -
  obtain upd where upd: "prune_empty_table target = Inr upd" "db_shape upd" "\<forall>t k. entry upd t k = entry target t k"
    using prune_empty_table_shape[OF target] by blast
  have sh: "db_shape run" "\<forall>t k. json_eq (entry run t k) (view w (t, k)) \<and> wf_json (view w (t, k))"
    using db_ok_read[OF ok, of w] read by auto
  have wf: "wf_json (entry upd t k)" "wf_json (entry run t k)" for t k
    using upd(2) sh(1) by (auto simp: db_shape_def tables_ok_def intro!: entry_wf simp del: entry.simps)
  obtain res w1 where w1: "upd_tables A run upd w = (res, w1)" by fastforce
  obtain aff where aff: "res = Inr aff" "\<forall>t k. view w1 (t, k) = (if differs run upd t k then entry upd t k else view w (t, k))"
    using upd_tables_view[OF ok _ _ w1] sh(1) upd(2) by (auto simp: db_shape_def)
  have eq: "json_eq (entry upd t k) (view w1 (t, k))" for t k
    using json_eq_trans[OF wf(1)[of t k] wf(2)[of t k], of "view w (t, k)"] json_eq_sym[OF wf(2)[of t k] wf(1)[of t k]]
      aff(2) sh(2) wf(1)[of t k]
    by (cases "differs run upd t k") (simp_all add: differs_def del: entry.simps)
  obtain r2 w2 where w2: "services_validate A run upd aff w1 = (r2, w2)" by fastforce
  have v2: "view w2 = view w1" by (rule services_view[OF ok w2])
  have rest: "act_bind (services_validate A run upd aff) (check_running A upd) w1 = (r, w')"
    using run' read assms(3) upd(1) w1 aff(1)
    by (simp add: change_applier_apply_def read_running_def act_bind_def act_of_def)
  show ?thesis
  proof (cases r2)
    case (Inl e)
    then have "w' = w2" "r = Inl e" using rest w2 by (simp_all add: act_bind_def)
    with eq v2 upd(3) show ?thesis by simp
  next
    case (Inr ret)
    have nt: "\<not> py_truthy ret" by (rule services_false[OF w2[unfolded Inr]])
    have "check_running A upd ret w2 = (Inr ret, w2)"
      using check_running_same[OF ok upd(2) _ nt] eq v2 by simp
    then have "w' = w2" "r = Inr ret" using rest w2 Inr by (simp_all add: act_bind_def)
    with eq v2 nt upd(3) show ?thesis by simp
  qed
qed

text \<open>C3. After a change has been applied, whether or not a service raised, the database holds exactly the entries of the
  configuration the change describes, and the result reports no mismatch.\<close>

theorem change_applier_correct:
  assumes ok: "db_ok A view" and read: "ca_read A w = Inr run" and "change_apply (ca_lib A) change run = Inr target"
    and target: "tables_ok target" and run': "change_applier_apply A change w = (r, w')"
  shows "(\<forall>t k. json_eq (entry target t k) (view w' (t, k))) \<and> (\<forall>ret. r = Inr ret \<longrightarrow> \<not> py_truthy ret)"
  using change_applier_tracks[OF assms] .

section \<open>A database in memory\<close>

text \<open>Entries in a list, for the witness.\<close>

type_synonym mem_db = "((string \<times> string) \<times> json) list"

definition mem_entries :: "mem_db \<Rightarrow> mem_db" where
  "mem_entries w = filter (\<lambda>p. entry_ok (snd p)) (AList.clearjunk w)"

definition mem_rows :: "mem_db \<Rightarrow> string \<Rightarrow> dict" where
  "mem_rows w t = map (\<lambda>p. (snd (fst p), snd p)) (filter (\<lambda>p. fst (fst p) = t) (mem_entries w))"

definition mem_config :: "mem_db \<Rightarrow> json" where
  "mem_config w = JObj (map (\<lambda>t. (t, JObj (mem_rows w t))) (remdups (map (fst \<circ> fst) (mem_entries w))))"

definition mem_view :: "mem_db \<Rightarrow> string \<times> string \<Rightarrow> json" where
  "mem_view w p = (case map_of w p of Some x \<Rightarrow> if entry_ok x then x else JNull | None \<Rightarrow> JNull)"

definition mem_set :: "string \<Rightarrow> string \<Rightarrow> json \<Rightarrow> mem_db \<Rightarrow> mem_db" where
  "mem_set t k x w = (if x = JNull then AList.delete (t, k) w else AList.update (t, k) x w)"

definition mem_applier :: "mem_db applier" where
  "mem_applier = \<lparr>ca_lib = ref_lib, ca_os = \<lparr>os_system = (\<lambda>c w. (0, w)), os_sleep = (\<lambda>n w. w)\<rparr>,
     ca_read = (\<lambda>w. Inr (mem_config w)), ca_set_entry = mem_set, ca_conf = shipped_conf,
     ca_import = (\<lambda>m f old upd ks w. (Inl ImportError, w))\<rparr>"

lemma mem_entries_distinct: "distinct (map fst (mem_entries w))"
  by (simp add: mem_entries_def distinct_map_filter)

lemma mem_entries_view: "opt_json (map_of (mem_entries w) p) = mem_view w p"
  by (simp add: mem_entries_def mem_view_def map_of_filter_snd map_of_clearjunk opt_json_def split: option.splits)

lemma rows_of: "map_of (map (\<lambda>p. (snd (fst p), snd p)) (filter (\<lambda>p. fst (fst p) = t) es)) k = map_of es (t, k)"
  by (induction es) auto

lemma mem_rows_distinct: "distinct (map fst (mem_rows w t))"
proof -
  have "distinct (map fst es) \<Longrightarrow> distinct (map (snd \<circ> fst) (filter (\<lambda>p. fst (fst p) = t) es))" for es :: mem_db
    by (induction es) (auto, force)
  then show ?thesis using mem_entries_distinct[of w] by (simp add: mem_rows_def comp_def)
qed

lemma map_of_tables: "map_of (map (\<lambda>t. (t, f t)) ts) t = (if t \<in> set ts then Some (f t) else None)"
  by (induction ts) auto

lemma mem_config_entry: "entry (mem_config w) t k = mem_view w (t, k)"
proof (cases "map_of (mem_entries w) (t, k)")
  case None
  then show ?thesis
    using mem_entries_view[of w "(t, k)"] rows_of[of t "mem_entries w" k]
    by (simp add: mem_config_def map_of_tables mem_rows_def opt_json_def)
next
  case (Some x)
  then have "t \<in> fst ` fst ` set (mem_entries w)" by (force dest: map_of_SomeD)
  then show ?thesis
    using Some mem_entries_view[of w "(t, k)"] rows_of[of t "mem_entries w" k]
    by (simp add: mem_config_def map_of_tables mem_rows_def image_comp)
qed

lemma mem_rows_ok: "map_of (mem_rows w t) k = Some x \<Longrightarrow> entry_ok x"
  by (auto simp: mem_rows_def mem_entries_def rows_of dest!: map_of_SomeD)

lemma mem_config_shape: "db_shape (mem_config w)"
proof -
  have "wf_json (JObj (mem_rows w t))" for t
    using mem_rows_distinct[of w t] mem_rows_ok[of w t] by (auto simp: entry_ok_wf)
  then have "wf_json (mem_config w)" by (auto simp: mem_config_def comp_def)
  moreover have "mem_rows w t \<noteq> []" if "t \<in> fst ` fst ` set (mem_entries w)" for t
    using that by (force simp: mem_rows_def filter_empty_conv)
  ultimately show ?thesis
    using mem_rows_ok by (auto simp: db_shape_def tables_ok_def mem_config_def map_of_tables image_comp split: if_splits)
qed

lemma mem_db_ok: "db_ok mem_applier mem_view"
  unfolding db_ok_def
proof (intro conjI allI impI)
  fix w t k x assume "x = JNull \<or> entry_ok x"
  then show "mem_view (ca_set_entry mem_applier t k x w) = (mem_view w)((t, k) := x)"
    by (auto simp: fun_eq_iff mem_applier_def mem_set_def mem_view_def update_conv' delete_conv' map_of_delete split: option.splits)
next
  fix w
  have "wf_json (mem_view w (t, k))" for t k
    using mem_config_shape[of w] entry_wf[of "mem_config w" t k] by (simp add: mem_config_entry db_shape_def tables_ok_def)
  then show "\<exists>c. ca_read mem_applier w = Inr c \<and> db_shape c \<and>
      (\<forall>t k. json_eq (entry c t k) (mem_view w (t, k)) \<and> wf_json (mem_view w (t, k)))"
    using mem_config_shape by (simp add: mem_applier_def mem_config_entry)
qed (simp_all add: mem_applier_def)

definition vlan_db :: mem_db where
  "vlan_db = [((''VLAN'', ''Vlan5''), JObj [(''vlanid'', JStr ''5'')]), ((''PORT'', ''Ethernet0''), JObj [(''mtu'', JStr ''1500'')])]"

definition vlan_change :: patch where
  "vlan_change = [create_operation REMOVE ''/VLAN/Vlan5'' None,
     create_operation ADD ''/PORT/Ethernet4'' (Some (JObj [(''mtu'', JStr ''9100'')]))]"

theorem change_applier_correct_witness:
  "\<exists>ret w. change_applier_apply mem_applier vlan_change vlan_db = (Inr ret, w) \<and> \<not> py_truthy ret \<and>
     mem_view w (''VLAN'', ''Vlan5'') = JNull \<and> json_eq (JObj [(''mtu'', JStr ''9100'')]) (mem_view w (''PORT'', ''Ethernet4''))"
proof -
  let ?target = "JObj [(''VLAN'', JObj []), (''PORT'', JObj [(''Ethernet0'', JObj [(''mtu'', JStr ''1500'')]),
    (''Ethernet4'', JObj [(''mtu'', JStr ''9100'')])])]"
  have "change_apply (ca_lib mem_applier) vlan_change (mem_config vlan_db) = Inr ?target" by code_simp
  moreover have "tables_ok ?target" by (simp add: tables_ok_def)
  moreover obtain r w where run: "change_applier_apply mem_applier vlan_change vlan_db = (r, w)" by fastforce
  ultimately have res: "(\<forall>t k. json_eq (entry ?target t k) (mem_view w (t, k))) \<and> (\<forall>ret. r = Inr ret \<longrightarrow> \<not> py_truthy ret)"
    using change_applier_correct[OF mem_db_ok, of vlan_db "mem_config vlan_db" vlan_change ?target r w] by (simp add: mem_applier_def)
  moreover have "json_eq (entry ?target ''VLAN'' ''Vlan5'') (mem_view w (''VLAN'', ''Vlan5''))"
    "json_eq (entry ?target ''PORT'' ''Ethernet4'') (mem_view w (''PORT'', ''Ethernet4''))" using res by blast+
  moreover have "\<not> isl (fst (change_applier_apply mem_applier vlan_change vlan_db))" by code_simp
  ultimately show ?thesis using run by (cases r) (auto simp: opt_json_def json_eq_null)
qed
end
