(* ===== verification/JsonCongr.thy ===== *)
theory JsonCongr
  imports JsonLibs
begin

text \<open>
  Two documents that differ in the order of keys only (\<open>json_eq\<close>) are the same to a patch: \<open>patch_congr_ok\<close>
  states it for the package \<open>jsonpatch\<close>, and the operations of RFC 6902 are shown to have it.
\<close>

section \<open>Equal documents\<close>

lemma json_eq_objE:
  assumes "json_eq (JObj d) y"
  obtains e where "y = JObj e" and "json_eq (JObj d) (JObj e)"
  using assms by (cases y) auto

lemma json_eq_arrE:
  assumes "json_eq (JArr xs) y"
  obtains ys where "y = JArr ys" and "list_all2 json_eq xs ys"
  using assms by (cases y) (auto simp: list_all2_iff case_prod_beta)

lemma json_eq_wf: "wf_json a \<Longrightarrow> json_eq a b \<Longrightarrow> wf_json b"
proof (induction a b rule: json_eq.induct)
  case (1 xs b)
  obtain ys where b: "b = JArr ys" "list_all2 json_eq xs ys" using 1(3) by (rule json_eq_arrE)
  have "wf_json (ys ! n)" if n: "n < length ys" for n
  proof -
    have "(xs ! n, ys ! n) \<in> set (zip xs ys)" "json_eq (xs ! n) (ys ! n)" "wf_json (xs ! n)"
      using b(2) n 1(2) by (force simp: in_set_zip list_all2_conv_all_nth)+
    then show ?thesis using 1(1)[OF b(1)] by fastforce
  qed
  then show ?case by (auto simp: b(1) in_set_conv_nth)
next
  case (2 d b)
  obtain e where b: "b = JObj e" using 2(3) by (cases b) auto
  have dd: "distinct (map fst d)" using 2 by simp
  have same: "set (map fst d) = set (map fst e)" using json_eq_JObj_keys[of d e] 2(3) b dd by blast
  have "length d = length e" using 2(3) b by simp
  then have de: "distinct (map fst e)"
    using dd same by (metis card_distinct distinct_card length_map)
  have "wf_json w" if w: "(k, w) \<in> set e" for k w
  proof -
    have "map_of e k = Some w" using de w by simp
    then obtain v where v: "map_of d k = Some v" "json_eq v w"
      using json_eq_JObj_map_of[of d e k] 2(3) b dd by (cases "map_of d k") auto
    have "(k, v) \<in> set d" using v(1) by (rule map_of_SomeD)
    moreover have "wf_json v" using 2(2) v(1) by (rule map_of_wf)
    ultimately show ?thesis using 2(1)[OF b, of "(k, v)" w] v(2) \<open>map_of e k = Some w\<close> by simp
  qed
  with de show ?case by (auto simp: b)
qed (auto split: json.splits)

section \<open>Patches do not look at the order of keys\<close>

definition patch_wf :: "patch \<Rightarrow> bool" where
  "patch_wf p \<longleftrightarrow> (\<forall>o1 \<in> set p. wf_json (opt_json (op_value o1)))"

definition patch_congr_ok :: "json_lib \<Rightarrow> bool" where
  "patch_congr_ok lib \<longleftrightarrow> (\<forall>p a b c. patch_wf p \<and> wf_json a \<and> wf_json b \<and> json_eq a b \<and> jl_apply lib p a = Inr c \<longrightarrow>
     (\<exists>d. jl_apply lib p b = Inr d \<and> wf_json c \<and> json_eq c d))"

definition leaf_congr :: "(json \<Rightarrow> string \<Rightarrow> json option) \<Rightarrow> bool" where
  "leaf_congr f \<longleftrightarrow> (\<forall>x y x' k. wf_json x \<and> wf_json y \<and> json_eq x y \<and> f x k = Some x' \<longrightarrow>
     (\<exists>y'. f y k = Some y' \<and> wf_json x' \<and> json_eq x' y'))"

lemma update_congr:
  assumes "json_eq (JObj d) (JObj e)" and "wf_json (JObj d)" and "wf_json (JObj e)" and "json_eq v w" and "wf_json v"
  shows "json_eq (JObj (AList.update k v d)) (JObj (AList.update k w e))"
proof (rule json_eq_JObj_I)
  fix j show "rel_option json_eq (map_of (AList.update k v d) j) (map_of (AList.update k w e) j)"
    using json_eq_JObj_map_of[OF assms(1), of j] assms(2,4) by (cases "j = k") auto
qed (use assms in \<open>auto simp: distinct_update\<close>)

lemma delete_congr:
  assumes "json_eq (JObj d) (JObj e)" and "wf_json (JObj d)" and "wf_json (JObj e)"
  shows "json_eq (JObj (AList.delete k d)) (JObj (AList.delete k e))"
proof (rule json_eq_JObj_I)
  fix j show "rel_option json_eq (map_of (AList.delete k d) j) (map_of (AList.delete k e) j)"
    using json_eq_JObj_map_of[OF assms(1), of j] assms(2) by (cases "j = k") auto
qed (use assms in \<open>auto simp: distinct_delete\<close>)

lemma map_of_congr: "json_eq (JObj d) (JObj e) \<Longrightarrow> wf_json (JObj d) \<Longrightarrow> map_of d k = None \<longleftrightarrow> map_of e k = None"
  using json_eq_JObj_map_of[of d e k] by (auto simp: option.rel_sel)

lemma add_leaf_congr: "wf_json v \<Longrightarrow> leaf_congr (add_leaf v)"
  unfolding leaf_congr_def
proof (intro allI impI, elim conjE)
  fix x y x' k assume v: "wf_json v" and w: "wf_json x" "wf_json y" "json_eq x y" and f: "add_leaf v x k = Some x'"
  then show "\<exists>y'. add_leaf v y k = Some y' \<and> wf_json x' \<and> json_eq x' y'"
  proof (cases x)
    case (JObj d)
    obtain e where "y = JObj e" "json_eq (JObj d) (JObj e)" using w(3) unfolding JObj by (rule json_eq_objE)
    with JObj w f v show ?thesis by (auto simp del: json_eq.simps wf_json.simps intro!: update_congr wf_update)
  next
    case (JArr xs)
    obtain ys where y: "y = JArr ys" "list_all2 json_eq xs ys" using w(3) unfolding JArr by (rule json_eq_arrE)
    then have len: "length xs = length ys" by (rule_tac list_all2_lengthD)
    have vv: "json_eq v v" using v by simp
    show ?thesis
    proof (cases "k = ''-''")
      case True
      with JArr y f w v vv show ?thesis by (auto simp: json_eq_JArr list_all2_appendI simp del: json_eq.simps)
    next
      case False
      then obtain i where i: "array_index k = Some i" "i \<le> length xs" "x' = JArr (take i xs @ v # drop i xs)"
        using f JArr by (auto split: option.splits if_splits)
      have "list_all2 json_eq (take i xs @ v # drop i xs) (take i ys @ v # drop i ys)"
        using y(2) vv by (intro list_all2_appendI list_all2_takeI list.rel_intros list_all2_dropI)
      moreover have "wf_json x'" using w(1) v JArr i(3) by (auto dest: in_set_takeD in_set_dropD)
      ultimately show ?thesis using i False y(1) len by (simp add: json_eq_JArr del: json_eq.simps)
    qed
  qed auto
qed

lemma remove_leaf_congr: "leaf_congr remove_leaf"
  unfolding leaf_congr_def
proof (intro allI impI, elim conjE)
  fix x y x' k assume w: "wf_json x" "wf_json y" "json_eq x y" and f: "remove_leaf x k = Some x'"
  then show "\<exists>y'. remove_leaf y k = Some y' \<and> wf_json x' \<and> json_eq x' y'"
  proof (cases x)
    case (JObj d)
    obtain e where e: "y = JObj e" "json_eq (JObj d) (JObj e)" using w(3) unfolding JObj by (rule json_eq_objE)
    then show ?thesis using JObj w f map_of_congr[OF e(2), of k]
      by (auto simp del: json_eq.simps wf_json.simps split: if_splits intro!: delete_congr wf_delete)
  next
    case (JArr xs)
    obtain ys where y: "y = JArr ys" "list_all2 json_eq xs ys" using w(3) unfolding JArr by (rule json_eq_arrE)
    then have len: "length xs = length ys" by (rule_tac list_all2_lengthD)
    obtain i where i: "array_index k = Some i" "i < length xs" "x' = JArr (take i xs @ drop (Suc i) xs)"
      using f JArr by (auto split: option.splits if_splits)
    have "list_all2 json_eq (take i xs @ drop (Suc i) xs) (take i ys @ drop (Suc i) ys)"
      using y(2) by (intro list_all2_appendI list_all2_takeI list_all2_dropI)
    moreover have "wf_json x'" using w(1) JArr i(3) by (auto dest: in_set_takeD in_set_dropD)
    ultimately show ?thesis using i y(1) len by (simp add: json_eq_JArr del: json_eq.simps)
  qed auto
qed

lemma replace_leaf_congr: "wf_json v \<Longrightarrow> leaf_congr (replace_leaf v)"
  unfolding leaf_congr_def
proof (intro allI impI, elim conjE)
  fix x y x' k assume v: "wf_json v" and w: "wf_json x" "wf_json y" "json_eq x y" and f: "replace_leaf v x k = Some x'"
  then show "\<exists>y'. replace_leaf v y k = Some y' \<and> wf_json x' \<and> json_eq x' y'"
  proof (cases x)
    case (JObj d)
    obtain e where e: "y = JObj e" "json_eq (JObj d) (JObj e)" using w(3) unfolding JObj by (rule json_eq_objE)
    then show ?thesis using JObj w f v map_of_congr[OF e(2), of k]
      by (auto simp del: json_eq.simps wf_json.simps split: if_splits intro!: update_congr wf_update)
  next
    case (JArr xs)
    obtain ys where y: "y = JArr ys" "list_all2 json_eq xs ys" using w(3) unfolding JArr by (rule json_eq_arrE)
    then have len: "length xs = length ys" by (rule_tac list_all2_lengthD)
    obtain i where i: "array_index k = Some i" "i < length xs" "x' = JArr (xs[i := v])"
      using f JArr by (auto split: option.splits if_splits)
    have "list_all2 json_eq (xs[i := v]) (ys[i := v])" using y(2) v by (intro list_all2_update_cong) auto
    moreover have "wf_json x'" using w(1) v JArr i(3) set_update_subset_insert[of xs i v] by auto
    ultimately show ?thesis using i y(1) len by (simp add: json_eq_JArr del: json_eq.simps)
  qed auto
qed

lemma edit_congr:
  "leaf_congr f \<Longrightarrow> wf_json x \<Longrightarrow> wf_json y \<Longrightarrow> json_eq x y \<Longrightarrow> json_edit_at f ks x = Some x' \<Longrightarrow>
     \<exists>y'. json_edit_at f ks y = Some y' \<and> wf_json x' \<and> json_eq x' y'"
proof (induction f ks x arbitrary: y x' rule: json_edit_at.induct)
  case (2 f k v)
  then show ?case by (auto simp: leaf_congr_def)
next
  case (3 f k j ks d)
  obtain e where e: "y = JObj e" "json_eq (JObj d) (JObj e)" using 3(5) by (rule json_eq_objE)
  obtain a a' where a: "map_of d k = Some a" "json_edit_at f (j # ks) a = Some a'" "x' = JObj (AList.update k a' d)"
    using 3(6) by (auto split: option.splits)
  have wd: "wf_json (JObj d)" "wf_json (JObj e)" using 3(3,4) e by simp_all
  obtain b where b: "map_of e k = Some b" "json_eq a b"
    using json_eq_JObj_map_of[OF e(2), of k] wd a(1) by (cases "map_of e k") auto
  obtain b' where b': "json_edit_at f (j # ks) b = Some b'" "wf_json a'" "json_eq a' b'"
    using 3(1)[OF a(1) 3(2) map_of_wf[OF wd(1) a(1)] map_of_wf[OF wd(2) b(1)] b(2) a(2)] by blast
  then show ?case using e a b wd update_congr[OF e(2) wd b'(3,2)] by (simp del: json_eq.simps wf_json.simps)
next
  case (4 f k j ks xs)
  obtain ys where y: "y = JArr ys" "list_all2 json_eq xs ys" using 4(5) by (rule json_eq_arrE)
  obtain i a' where i: "array_index k = Some i" "i < length xs" "json_edit_at f (j # ks) (xs ! i) = Some a'" "x' = JArr (xs[i := a'])"
    using 4(6) by (auto split: option.splits if_splits)
  have len: "length ys = length xs" using y(2) list_all2_lengthD by metis
  have "wf_json (xs ! i)" "wf_json (ys ! i)" "json_eq (xs ! i) (ys ! i)"
    using 4(3,4) y i(2) len by (auto simp: list_all2_conv_all_nth)
  then obtain b' where b': "json_edit_at f (j # ks) (ys ! i) = Some b'" "wf_json a'" "json_eq a' b'"
    using 4(1)[OF i(1,2) 4(2)] i(3) by blast
  have "list_all2 json_eq (xs[i := a']) (ys[i := b'])" using y(2) b'(3) by (rule list_all2_update_cong)
  moreover have "wf_json x'" using 4(3) b'(2) i(4) set_update_subset_insert[of xs i a'] by auto
  ultimately show ?case using i y(1) len b'(1) by (simp add: json_eq_JArr del: json_eq.simps)
qed auto

lemma rfc_op_congr:
  assumes "wf_json v" and "wf_json a" and "wf_json b" and "json_eq a b" and "rfc_op t ks v a = Some c"
  shows "\<exists>d. rfc_op t ks v b = Some d \<and> wf_json c \<and> json_eq c d"
  using assms edit_congr[OF add_leaf_congr[OF assms(1)] assms(2-4)] edit_congr[OF remove_leaf_congr assms(2-4)]
    edit_congr[OF replace_leaf_congr[OF assms(1)] assms(2-4)]
  by (cases t) (auto simp: rfc_op_def split: if_splits)

lemma ref_patch_congr_ok [simp]: "patch_congr_ok ref_lib"
proof -
  have "patch_wf p \<Longrightarrow> wf_json a \<Longrightarrow> wf_json b \<Longrightarrow> json_eq a b \<Longrightarrow> ref_apply p a = Inr c \<Longrightarrow>
      \<exists>d. ref_apply p b = Inr d \<and> wf_json c \<and> json_eq c d" for p a b c
  proof (induction p arbitrary: a b)
    case (Cons o1 p)
    obtain t ks a' where s: "op_type_of (op o1) = Inr t" "ref_parts (path o1) = Inr ks"
        "rfc_op t ks (opt_json (op_value o1)) a = Some a'" "ref_apply p a' = Inr c"
      using Cons.prems(5) by (auto elim!: rbind_InrE split: option.splits)
    have "wf_json (opt_json (op_value o1))" using Cons.prems(1) by (simp add: patch_wf_def)
    from rfc_op_congr[OF this Cons.prems(2-4) s(3)] obtain b' where
      b': "rfc_op t ks (opt_json (op_value o1)) b = Some b'" "wf_json a'" "json_eq a' b'" by blast
    have "patch_wf p" using Cons.prems(1) by (simp add: patch_wf_def)
    from Cons.IH[OF this b'(2) json_eq_wf[OF b'(2,3)] b'(3) s(4)] s b'(1) show ?case by auto
  qed auto
  then show ?thesis unfolding patch_congr_ok_def by (simp add: ref_lib_def) blast
qed
end
