(* ===== verification/GenericUpdater.thy ===== *)
theory GenericUpdater
  imports ConfigSplitters ChangeApplier JsonCongr
begin

text \<open>
  \<open>generic_updater.py\<close>: applying a patch, replacing the configuration, checkpoints and rollback, the two
  decorators and the factory. What \<open>PatchApplier\<close> and \<open>ConfigReplacer\<close> use of the wrapper, the sorter and
  the change applier is the record \<open>updater\<close>, over a state of the world; \<open>real_updater\<close> and
  \<open>dry_updater\<close> are the two the factory builds. Log messages are left out.
\<close>

record 'w updater =
  up_lib :: json_lib
  up_get :: "('w, err, json) act"
  up_sort :: "patch \<Rightarrow> ('w, err, patch list) act"
  up_change :: "patch \<Rightarrow> ('w, err, json) act"
  up_strip :: "json \<Rightarrow> err + json"

section \<open>PatchApplier and ConfigReplacer\<close>

text \<open>The result of a change is not looked at.\<close>

definition apply_changes :: "'w updater \<Rightarrow> patch list \<Rightarrow> ('w, err, unit) act" where
  "apply_changes U changes = act_fold (\<lambda>_ change. act_bind (up_change U change) (\<lambda>_. act_return ())) () changes"

definition verify_same :: "'w updater \<Rightarrow> json \<Rightarrow> json \<Rightarrow> err + unit" where
  "verify_same U expected actual =
     (if verify_same_json (up_lib U) expected actual then Inr () else Inl GenericConfigUpdaterError)"

definition patch_applier_apply :: "'w updater \<Rightarrow> patch \<Rightarrow> ('w, err, unit) act" where
  "patch_applier_apply U p =
     act_bind (up_get U) (\<lambda>old_config.
     act_bind (act_of (simulate_patch (up_lib U) p old_config)) (\<lambda>target_config.
     act_bind (act_of (validate_field_operation (up_lib U) old_config target_config)) (\<lambda>_.
     act_bind (act_of (get_empty_tables target_config)) (\<lambda>empty_tables.
     if empty_tables \<noteq> [] then act_of (Inl EmptyTableError) else
     act_bind (up_sort U p) (\<lambda>changes.
     act_bind (apply_changes U changes) (\<lambda>_.
     act_bind (up_get U) (\<lambda>new_config.
     act_bind (act_of (up_strip U target_config)) (\<lambda>target_config.
     act_bind (act_of (up_strip U new_config)) (\<lambda>new_config.
       act_of (verify_same U target_config new_config))))))))))"

definition config_replacer_replace :: "'w updater \<Rightarrow> json \<Rightarrow> ('w, err, unit) act" where
  "config_replacer_replace U target_config =
     act_bind (up_get U) (\<lambda>old_config.
     act_bind (patch_applier_apply U (generate_patch (up_lib U) old_config target_config)) (\<lambda>_.
     act_bind (up_get U) (\<lambda>new_config.
       act_of (verify_same U target_config new_config))))"

section \<open>FileSystemConfigRollbacker\<close>

text \<open>
  The state gains the checkpoints directory: None when it does not exist, else its files with their
  content, None for one that is no JSON text. A checkpoint name has no slash, so a path is a name in
  this directory.
\<close>

type_synonym files = "(string \<times> json option) list option"
type_synonym 'w site = "'w \<times> files"

definition on_world :: "('w, err, 'a) act \<Rightarrow> ('w site, err, 'a) act" where
  "on_world m s = (case m (fst s) of (r, w) \<Rightarrow> (r, (w, snd s)))"

definition checkpoint_ext :: string where
  "checkpoint_ext = ''.cp.json''"

definition checkpoint_file :: "string \<Rightarrow> string" where
  "checkpoint_file name = name @ checkpoint_ext"

definition checkpoints_dir_exist :: "files \<Rightarrow> bool" where
  "checkpoints_dir_exist fs \<longleftrightarrow> fs \<noteq> None"

definition check_checkpoint_exists :: "string \<Rightarrow> files \<Rightarrow> bool" where
  "check_checkpoint_exists name fs \<longleftrightarrow> (case fs of None \<Rightarrow> False | Some d \<Rightarrow> map_of d (checkpoint_file name) \<noteq> None)"

definition get_checkpoint_content :: "string \<Rightarrow> files \<Rightarrow> err + json" where
  "get_checkpoint_content name fs =
     (case fs of None \<Rightarrow> Inl FileNotFoundError
      | Some d \<Rightarrow> (case map_of d (checkpoint_file name) of None \<Rightarrow> Inl FileNotFoundError
          | Some None \<Rightarrow> Inl ValueError | Some (Some doc) \<Rightarrow> Inr doc))"

definition ensure_checkpoints_dir_exists :: "files \<Rightarrow> files" where
  "ensure_checkpoints_dir_exists fs = (case fs of None \<Rightarrow> Some [] | Some d \<Rightarrow> Some d)"

definition save_json_file :: "string \<Rightarrow> json \<Rightarrow> files \<Rightarrow> files" where
  "save_json_file name content fs = map_option (AList.update (checkpoint_file name) (Some content)) fs"

definition delete_checkpoint_file :: "string \<Rightarrow> files \<Rightarrow> files" where
  "delete_checkpoint_file name fs = map_option (AList.delete (checkpoint_file name)) fs"

definition get_checkpoint_names :: "files \<Rightarrow> string list" where
  "get_checkpoint_names fs = (case fs of None \<Rightarrow> []
     | Some d \<Rightarrow> map (\<lambda>n. take (length n - length checkpoint_ext) n) (filter (ends_with checkpoint_ext) (map fst d)))"

definition config_rollback :: "'w updater \<Rightarrow> string \<Rightarrow> ('w site, err, unit) act" where
  "config_rollback U name s =
     (if \<not> check_checkpoint_exists name (snd s) then (Inl ValueError, s)
      else act_bind (act_of (get_checkpoint_content name (snd s))) (\<lambda>target_config.
        on_world (config_replacer_replace U target_config)) s)"

definition config_checkpoint :: "'w updater \<Rightarrow> string \<Rightarrow> ('w site, err, unit) act" where
  "config_checkpoint U name =
     act_bind (on_world (up_get U)) (\<lambda>json_content.
       act_do (\<lambda>(w, fs). (w, save_json_file name json_content (ensure_checkpoints_dir_exists fs))))"

definition list_checkpoints :: "('w site, err, string list) act" where
  "list_checkpoints s =
     (if \<not> checkpoints_dir_exist (snd s) then (Inr [], s) else (Inr (get_checkpoint_names (snd s)), s))"

definition delete_checkpoint :: "string \<Rightarrow> ('w site, err, unit) act" where
  "delete_checkpoint name s =
     (if \<not> check_checkpoint_exists name (snd s) then (Inl ValueError, s)
      else (Inr (), (fst s, delete_checkpoint_file name (snd s))))"

section \<open>Decorators\<close>

text \<open>The operations of \<open>GenericUpdater\<close>, as an object offers them; \<open>decorate\<close> hands all of them on.\<close>

record 's handlers =
  h_apply :: "patch \<Rightarrow> ('s, err, unit) act"
  h_replace :: "json \<Rightarrow> ('s, err, unit) act"
  h_rollback :: "string \<Rightarrow> ('s, err, unit) act"
  h_checkpoint :: "string \<Rightarrow> ('s, err, unit) act"
  h_list :: "('s, err, string list) act"
  h_delete :: "string \<Rightarrow> ('s, err, unit) act"

definition plain_handlers :: "'w updater \<Rightarrow> 'w site handlers" where
  "plain_handlers U = \<lparr>h_apply = (\<lambda>p. on_world (patch_applier_apply U p)),
     h_replace = (\<lambda>c. on_world (config_replacer_replace U c)), h_rollback = config_rollback U,
     h_checkpoint = config_checkpoint U, h_list = list_checkpoints, h_delete = delete_checkpoint\<rparr>"

definition sonic_yang_decorator :: "yang_lib \<Rightarrow> 'w updater \<Rightarrow> 'w site handlers \<Rightarrow> 'w site handlers" where
  "sonic_yang_decorator sy U h = h\<lparr>
     h_apply := (\<lambda>p. act_bind (\<lambda>s. (case up_get U (fst s) of (r, w) \<Rightarrow>
          (convert_to_config_db_patch (up_lib U) sy r p, (w, snd s)))) (h_apply h)),
     h_replace := (\<lambda>c. act_bind (act_of (convert_sonic_yang_to_config_db sy c)) (h_replace h))\<rparr>"

record 's config_lock =
  acquire_lock :: "'s \<Rightarrow> 's"
  release_lock :: "'s \<Rightarrow> 's"

definition execute_write_action :: "'s config_lock \<Rightarrow> ('s, err, unit) act \<Rightarrow> ('s, err, unit) act" where
  "execute_write_action L action =
     act_bind (act_do (acquire_lock L)) (\<lambda>_. act_bind action (\<lambda>_. act_do (release_lock L)))"

definition config_lock_decorator :: "'s config_lock \<Rightarrow> 's handlers \<Rightarrow> 's handlers" where
  "config_lock_decorator L h = h\<lparr>
     h_apply := (\<lambda>p. execute_write_action L (h_apply h p)),
     h_replace := (\<lambda>c. execute_write_action L (h_replace h c)),
     h_rollback := (\<lambda>n. execute_write_action L (h_rollback h n)),
     h_checkpoint := (\<lambda>n. execute_write_action L (h_checkpoint h n))\<rparr>"

text \<open>\<open>ConfigLock\<close> is not implemented: both methods pass.\<close>

definition no_lock :: "'s config_lock" where
  "no_lock = \<lparr>acquire_lock = id, release_lock = id\<rparr>"

section \<open>GenericUpdateFactory and GenericUpdater\<close>

record 'w switch =
  sw_yang :: yang_lib
  sw_show :: "'w \<Rightarrow> command_result"
  sw_applier :: "'w applier"
  sw_queue_fuel :: nat
  sw_search_fuel :: nat

definition sort_env_of :: "'w switch \<Rightarrow> err + json \<Rightarrow> sort_env" where
  "sort_env_of S running = \<lparr>se_lib = ca_lib (sw_applier S), se_yang = sw_yang S, se_running = running,
     se_queue_fuel = sw_queue_fuel S, se_search_fuel = sw_search_fuel S\<rparr>"

definition patch_sort :: "sort_env \<Rightarrow> bool \<Rightarrow> string list \<Rightarrow> patch \<Rightarrow> err + patch list" where
  "patch_sort E ignore_non_yang_tables ignore_paths p =
     (if \<not> ignore_non_yang_tables \<and> ignore_paths = [] then strict_sort E p DFS
      else non_strict_sort E (config_split
        ((if ignore_non_yang_tables then [tables_without_yang_split (se_yang E)] else []) @
         (if ignore_paths \<noteq> [] then [ignore_paths_split (se_lib E) ignore_paths] else []))) p DFS)"

definition real_updater :: "'w switch \<Rightarrow> bool \<Rightarrow> string list \<Rightarrow> 'w updater" where
  "real_updater S ignore_non_yang_tables ignore_paths = \<lparr>
     up_lib = ca_lib (sw_applier S),
     up_get = (\<lambda>w. (get_config_db_as_json (sw_show S w), w)),
     up_sort = (\<lambda>p w. (patch_sort (sort_env_of S (get_config_db_as_json (sw_show S w))) ignore_non_yang_tables ignore_paths p, w)),
     up_change = change_applier_apply (sw_applier S),
     up_strip = remove_backend_tables\<rparr>"

text \<open>In a dry run the state is the imitated database; the switch is only read.\<close>

definition dry_init :: "command_result \<Rightarrow> (dry_run, err, json) act" where
  "dry_init r db = (case dry_get_config r db of Inl e \<Rightarrow> (Inl e, db) | Inr (c, db') \<Rightarrow> (Inr c, db'))"

definition dry_updater :: "'w switch \<Rightarrow> 'w \<Rightarrow> bool \<Rightarrow> string list \<Rightarrow> dry_run updater" where
  "dry_updater S w ignore_non_yang_tables ignore_paths = \<lparr>
     up_lib = ca_lib (sw_applier S),
     up_get = dry_init (sw_show S w),
     up_sort = (\<lambda>p. act_bind (dry_init (sw_show S w)) (\<lambda>c.
       act_of (patch_sort (sort_env_of S (Inr c)) ignore_non_yang_tables ignore_paths p))),
     up_change = dry_applier_apply (ca_lib (sw_applier S)) (sw_show S w),
     up_strip = Inr\<rparr>"

datatype config_format = CONFIGDB | SONICYANG | OtherFormat

definition create_handlers :: "yang_lib \<Rightarrow> 'w updater \<Rightarrow> config_format \<Rightarrow> bool \<Rightarrow> err + 'w site handlers" where
  "create_handlers sy U config_format dry_run =
     rbind (case config_format of CONFIGDB \<Rightarrow> Inr (plain_handlers U)
        | SONICYANG \<Rightarrow> Inr (sonic_yang_decorator sy U (plain_handlers U))
        | OtherFormat \<Rightarrow> Inl ValueError) (\<lambda>h.
       Inr (if dry_run then h else config_lock_decorator no_lock h))"

definition run_handlers :: "yang_lib \<Rightarrow> 'w updater \<Rightarrow> config_format \<Rightarrow> bool \<Rightarrow> ('w site handlers \<Rightarrow> ('w site, err, 'a) act) \<Rightarrow> ('w site, err, 'a) act" where
  "run_handlers sy U config_format dry_run f = act_bind (act_of (create_handlers sy U config_format dry_run)) f"

definition apply_patch :: "yang_lib \<Rightarrow> 'w updater \<Rightarrow> config_format \<Rightarrow> bool \<Rightarrow> patch \<Rightarrow> ('w site, err, unit) act" where
  "apply_patch sy U config_format dry_run p = run_handlers sy U config_format dry_run (\<lambda>h. h_apply h p)"

definition replace :: "yang_lib \<Rightarrow> 'w updater \<Rightarrow> config_format \<Rightarrow> bool \<Rightarrow> json \<Rightarrow> ('w site, err, unit) act" where
  "replace sy U config_format dry_run c = run_handlers sy U config_format dry_run (\<lambda>h. h_replace h c)"

definition updater_rollback :: "yang_lib \<Rightarrow> 'w updater \<Rightarrow> bool \<Rightarrow> string \<Rightarrow> ('w site, err, unit) act" where
  "updater_rollback sy U dry_run name = run_handlers sy U CONFIGDB dry_run (\<lambda>h. h_rollback h name)"

definition updater_checkpoint :: "yang_lib \<Rightarrow> 'w updater \<Rightarrow> string \<Rightarrow> ('w site, err, unit) act" where
  "updater_checkpoint sy U name = run_handlers sy U CONFIGDB False (\<lambda>h. h_checkpoint h name)"

definition updater_delete_checkpoint :: "yang_lib \<Rightarrow> 'w updater \<Rightarrow> string \<Rightarrow> ('w site, err, unit) act" where
  "updater_delete_checkpoint sy U name = run_handlers sy U CONFIGDB False (\<lambda>h. h_delete h name)"

definition updater_list_checkpoints :: "yang_lib \<Rightarrow> 'w updater \<Rightarrow> ('w site, err, string list) act" where
  "updater_list_checkpoints sy U = run_handlers sy U CONFIGDB False h_list"

end
