(* ===== verification/SwitchUpdates.thy ===== *)
theory SwitchUpdates
  imports GenericUpdater
begin

text \<open>
  What \<open>generic_updater.py\<close> promises: the database follows the sorted changes, a dry run predicts the
  result, a rollback restores a checkpoint. What a sequence of changes needs of a change applier is the
  locale \<open>change_target\<close>; \<open>ChangeApplier\<close> and the dry-run applier both provide it.
\<close>

section \<open>Equal configurations have equal entries\<close>

lemma is_str_eq: "is_str v \<Longrightarrow> json_eq v w \<Longrightarrow> is_str w"
  by (cases v) auto

lemma strs_eq: "list_all2 json_eq xs ys \<Longrightarrow> list_all is_str xs \<Longrightarrow> list_all is_str ys"
  by (induction rule: list_all2_induct) (auto dest: is_str_eq)

lemma field_ok_eq: "field_ok v \<Longrightarrow> json_eq v w \<Longrightarrow> field_ok w"
proof (cases v)
  case (JArr xs)
  assume v: "field_ok v" "json_eq v w"
  obtain ys where "w = JArr ys" "list_all2 json_eq xs ys" using v(2) unfolding JArr by (rule json_eq_arrE)
  with v(1) JArr strs_eq show ?thesis by simp
qed auto

lemma entry_ok_eq:
  assumes "entry_ok x" and "json_eq x y"
  shows "entry_ok y"
proof -
  obtain f where f: "x = JObj f" "wf_json (JObj f)" "\<forall>p \<in> set f. field_ok (snd p)"
    using assms(1) by (cases x) (auto simp: list_all_iff)
  obtain g where g: "y = JObj g" "json_eq (JObj f) (JObj g)" using assms(2) unfolding f(1) by (rule json_eq_objE)
  have wg: "wf_json (JObj g)" by (rule json_eq_wf[OF f(2) g(2)])
  have "field_ok w" if "(k, w) \<in> set g" for k w
  proof -
    have "map_of g k = Some w" using wg that by simp
    then obtain v where "map_of f k = Some v" "json_eq v w"
      using json_eq_JObj_map_of[OF g(2), of k] f(2) by (cases "map_of f k") auto
    then show ?thesis using f(3) field_ok_eq by (auto dest!: map_of_SomeD)
  qed
  with wg show ?thesis by (auto simp: g(1) list_all_iff)
qed

lemma json_eq_tables:
  assumes "tables_ok x" and "json_eq x y"
  shows "tables_ok y \<and> (\<forall>t k. json_eq (entry x t k) (entry y t k))"
proof -
  obtain d where d: "x = JObj d" "wf_json (JObj d)" using assms(1) by (auto simp: tables_ok_def)
  obtain e where e: "y = JObj e" "json_eq (JObj d) (JObj e)" using assms(2) unfolding d(1) by (rule json_eq_objE)
  have we: "wf_json (JObj e)" by (rule json_eq_wf[OF d(2) e(2)])
  have rel: "rel_option json_eq (map_of d t) (map_of e t)" for t using json_eq_JObj_map_of[OF e(2)] d(2) by simp
  have tab: "\<exists>f g. map_of d t = Some (JObj f) \<and> w = JObj g \<and> json_eq (JObj f) (JObj g) \<and> wf_json (JObj f) \<and> (\<forall>k z. map_of f k = Some z \<longrightarrow> entry_ok z)"
    if w: "map_of e t = Some w" for t w
  proof -
    obtain v where v: "map_of d t = Some v" "json_eq v w" using rel[of t] w by (cases "map_of d t") auto
    obtain f where f: "v = JObj f" "\<forall>k z. map_of f k = Some z \<longrightarrow> entry_ok z"
      using tables_ok_map[OF assms(1)[unfolded d(1)] v(1)] by blast
    obtain g where g: "w = JObj g" "json_eq (JObj f) (JObj g)" using v(2) unfolding f(1) by (rule json_eq_objE)
    have "wf_json (JObj f)" using map_of_wf[OF d(2) v(1)] f(1) by simp
    with v f g show ?thesis by blast
  qed
  have rows: "rel_option json_eq (map_of f k) (map_of g k)" if "json_eq (JObj f) (JObj g)" "wf_json (JObj f)" for f g k
    using json_eq_JObj_map_of[OF that(1)] that(2) by simp
  have "entry_ok z" if m: "map_of e t = Some (JObj g)" and n: "map_of g k = Some z" for t g k z
  proof -
    obtain f where f: "json_eq (JObj f) (JObj g)" "wf_json (JObj f)" "\<forall>k z. map_of f k = Some z \<longrightarrow> entry_ok z" using tab[OF m] by auto
    then obtain u where "map_of f k = Some u" "json_eq u z" using rows[OF f(1,2), of k] n by (cases "map_of f k") auto
    with f(3) entry_ok_eq show ?thesis by blast
  qed
  then have "tables_ok y" using we e(1) tab unfolding tables_ok_def by (metis json.inject(5))
  moreover have "json_eq (entry x t k) (entry y t k)" for t k
  proof (cases "map_of e t")
    case None
    with rel[of t] d(1) e(1) show ?thesis by (cases "map_of d t") auto
  next
    case (Some w)
    then obtain f g where fg: "map_of d t = Some (JObj f)" "w = JObj g" "json_eq (JObj f) (JObj g)" "wf_json (JObj f)" using tab[OF Some] by blast
    have "json_eq (opt_json (map_of f k)) (opt_json (map_of g k))"
      using rows[OF fg(3,4), of k] by (cases "map_of f k"; cases "map_of g k") (simp_all add: opt_json_def)
    then show ?thesis using d(1) e(1) Some fg by simp
  qed
  ultimately show ?thesis by blast
qed

section \<open>The switch follows the sorted changes\<close>

definition holds :: "('w \<Rightarrow> string \<times> string \<Rightarrow> json) \<Rightarrow> json \<Rightarrow> 'w \<Rightarrow> bool" where
  "holds view c w \<longleftrightarrow> (\<forall>t k. json_eq (entry c t k) (view w (t, k)))"

fun change_worlds :: "'w updater \<Rightarrow> patch list \<Rightarrow> 'w \<Rightarrow> 'w list" where
  "change_worlds U [] w = []"
| "change_worlds U (p # ps) w = (let w' = snd (up_change U p w) in w' # change_worlds U ps w')"

lemma db_shape_wf: "db_shape c \<Longrightarrow> wf_json c"
  by (simp add: db_shape_def tables_ok_def)

lemma holds_same:
  assumes "db_ok A view" and "db_shape c" and "db_shape d" and "holds view c w" and "holds view d w"
  shows "json_eq c d"
proof (rule entries_json_eq[OF assms(2,3)])
  fix t k
  have wf: "wf_json (entry c t k)" "wf_json (entry d t k)" using assms(2,3) db_shape_wf entry_wf by blast+
  have "wf_json (view w (t, k))" using db_ok_read[OF assms(1), of w] by blast
  then show "json_eq (entry c t k) (entry d t k)"
    using json_eq_trans[OF wf(1) _ wf(2)] json_eq_sym[OF wf(2)] assms(4,5) unfolding holds_def by blast
qed

text \<open>One change: the database follows.\<close>

lemma change_follows:
  assumes ok: "db_ok A view" and congr: "patch_congr_ok (ca_lib A)" and pw: "patch_wf p"
    and c: "db_shape c" "holds view c w" and x: "change_apply (ca_lib A) p c = Inr x" "db_shape x"
  shows "holds view x (snd (change_applier_apply A p w))"
proof -
  obtain run where run: "ca_read A w = Inr run" "db_shape run" "holds view run w"
    using db_ok_read[OF ok, of w] unfolding holds_def by blast
  have "json_eq c run" by (rule holds_same[OF ok c(1) run(2) c(2) run(3)])
  then obtain d where d: "jl_apply (ca_lib A) p run = Inr d" "json_eq x d"
    using congr pw x(1) c(1) run(2) db_shape_wf unfolding patch_congr_ok_def change_apply_def by metis
  have td: "tables_ok d" "\<forall>t k. json_eq (entry x t k) (entry d t k)"
    using json_eq_tables[OF _ d(2)] x(2) by (auto simp: db_shape_def)
  obtain r w1 where w1: "change_applier_apply A p w = (r, w1)" by fastforce
  have eq: "\<forall>t k. json_eq (entry d t k) (view w1 (t, k))"
    using change_applier_tracks[OF ok run(1) _ td(1) w1] d(1) by (simp add: change_apply_def)
  have wf: "wf_json (entry x t k)" "wf_json (entry d t k)" "wf_json (view w1 (t, k))" for t k
    using x(2) td(1) entry_wf db_ok_read[OF ok, of w1] by (auto simp: db_shape_def tables_ok_def simp del: entry.simps)
  have "json_eq (entry x t k) (view w1 (t, k))" for t k
    using json_eq_trans[OF wf(1)[of t k] wf(2)[of t k] wf(3)[of t k]] eq td(2) by blast
  then show ?thesis using w1 by (simp add: holds_def)
qed

text \<open>
  What \<open>PatchApplier\<close> relies on when it hands the changes to a change applier: a state that holds a
  configuration holds the next one after the change. \<open>ok\<close> are the assumptions the provider needs.
\<close>

locale change_target =
  fixes lib :: json_lib and change :: "patch \<Rightarrow> ('w, err, json) act" and shape :: "json \<Rightarrow> bool"
    and in_state :: "json \<Rightarrow> 'w \<Rightarrow> bool" and ok :: bool
  assumes follows: "ok \<Longrightarrow> patch_wf p \<Longrightarrow> shape c \<Longrightarrow> in_state c w \<Longrightarrow> change_apply lib p c = Inr x \<Longrightarrow> shape x \<Longrightarrow>
    in_state x (snd (change p w))"
begin

lemma changes_follow:
  assumes "ok" and U: "up_change U = change"
  shows "run_changes lib c ps = Inr cs \<Longrightarrow> shape c \<Longrightarrow> list_all shape cs \<Longrightarrow> list_all patch_wf ps \<Longrightarrow> in_state c w \<Longrightarrow>
    list_all2 in_state cs (change_worlds U ps w) \<and>
    (\<forall>w'. apply_changes U ps w = (Inr (), w') \<longrightarrow> w' = last (w # change_worlds U ps w))"
proof (induction ps arbitrary: c cs w)
  case Nil
  then show ?case by (auto simp: apply_changes_def act_return_def)
next
  case (Cons p ps)
  obtain x xs where x: "change_apply lib p c = Inr x" "run_changes lib x ps = Inr xs" "cs = x # xs"
    using Cons.prems(1) by (auto elim!: rbind_InrE)
  let ?w = "snd (change p w)"
  have h: "in_state x ?w" using follows[OF assms(1) _ Cons.prems(2,5) x(1)] Cons.prems(3,4) x(3) by simp
  have IH: "list_all2 in_state xs (change_worlds U ps ?w) \<and>
    (\<forall>w'. apply_changes U ps ?w = (Inr (), w') \<longrightarrow> w' = last (?w # change_worlds U ps ?w))"
    using Cons.IH[OF x(2) _ _ _ h] Cons.prems(3,4) x(3) by simp
  have "apply_changes U ps ?w = (Inr (), w')" if "apply_changes U (p # ps) w = (Inr (), w')" for w'
    using that by (cases "change p w") (auto simp: apply_changes_def act_simps U)
  with IH h x(3) show ?case by (simp add: U Let_def)
qed

lemma changes_end:
  assumes "ok" and "up_change U = change" and "run_changes lib c ps = Inr cs" and "shape c" and "list_all shape cs"
    and "list_all patch_wf ps" and "in_state c w" and "apply_changes U ps w = (Inr (), w')"
  shows "in_state (last (c # cs)) w'"
proof -
  have "list_all2 in_state (c # cs) (w # change_worlds U ps w)" "w' = last (w # change_worlds U ps w)"
    using changes_follow[OF assms(1-7)] assms(7,8) by auto
  then show ?thesis unfolding list_all2_conv_all_nth by (auto simp: last_conv_nth)
qed

end

interpretation applier_target: change_target "ca_lib A" "change_applier_apply A" db_shape "holds view"
  "db_ok A view \<and> patch_congr_ok (ca_lib A)" for A view
  by unfold_locales (rule change_follows, simp_all)

text \<open>The imitated database of a dry run follows the changes as well.\<close>

definition imitates :: "json \<Rightarrow> dry_run \<Rightarrow> bool" where
  "imitates c db \<longleftrightarrow> (\<exists>d. db = Some d \<and> json_eq c d)"

interpretation dry_target: change_target lib "dry_applier_apply lib r" wf_json imitates "patch_congr_ok lib" for lib r
proof
  fix p c w x
  assume congr: "patch_congr_ok lib" and a: "patch_wf p" "wf_json c" "imitates c w" "change_apply lib p c = Inr x"
  obtain d where d: "w = Some d" "json_eq c d" using a(3) by (auto simp: imitates_def)
  have "wf_json d" by (rule json_eq_wf[OF a(2) d(2)])
  then obtain y where "jl_apply lib p d = Inr y" "json_eq x y"
    using congr a d(2) unfolding patch_congr_ok_def change_apply_def by blast
  then show "imitates x (snd (dry_applier_apply lib r p w))"
    using d(1) by (simp add: imitates_def dry_applier_apply_def dry_apply_change_def init_imitated_def change_apply_def)
qed

text \<open>\<open>show runningconfiguration all\<close> prints the database, and \<open>bgpraw\<close>, which is no table of it.\<close>

definition switch_ok :: "'w switch \<Rightarrow> ('w \<Rightarrow> string \<times> string \<Rightarrow> json) \<Rightarrow> bool" where
  "switch_ok S view \<longleftrightarrow> db_ok (sw_applier S) view \<and> patch_congr_ok (ca_lib (sw_applier S)) \<and>
     (\<forall>w. (\<forall>k. view w (''bgpraw'', k) = JNull) \<longrightarrow>
       (\<exists>c. get_config_db_as_json (sw_show S w) = Inr c \<and> db_shape c \<and> holds view c w))"

lemma sort_env_sel [simp]:
  "se_lib (sort_env_of S r) = ca_lib (sw_applier S)" "se_yang (sort_env_of S r) = sw_yang S" "se_running (sort_env_of S r) = r"
  by (simp_all add: sort_env_of_def)

lemma real_updater_sel:
  "up_lib (real_updater S b ps) = ca_lib (sw_applier S)"
  "up_get (real_updater S b ps) = (\<lambda>w. (get_config_db_as_json (sw_show S w), w))"
  "up_sort (real_updater S b ps) = (\<lambda>p w. (patch_sort (sort_env_of S (get_config_db_as_json (sw_show S w))) b ps p, w))"
  "up_change (real_updater S b ps) = change_applier_apply (sw_applier S)"
  "up_strip (real_updater S b ps) = remove_backend_tables"
  by (simp_all add: real_updater_def)

text \<open>What a successful run of \<open>PatchApplier.apply\<close> went through.\<close>

lemma patch_applier_apply_Inr:
  assumes "patch_applier_apply (real_updater S non_yang paths) p w = (Inr (), w')"
  obtains old target changes where "get_config_db_as_json (sw_show S w) = Inr old"
    and "simulate_patch (ca_lib (sw_applier S)) p old = Inr target"
    and "validate_field_operation (ca_lib (sw_applier S)) old target = Inr ()" and "get_empty_tables target = Inr []"
    and "patch_sort (sort_env_of S (Inr old)) non_yang paths p = Inr changes"
    and "apply_changes (real_updater S non_yang paths) changes w = (Inr (), w')"
  using assms by (auto simp: patch_applier_apply_def real_updater_sel act_simps split: if_splits)

text \<open>C1. \<open>config apply-patch\<close> on the switch, strict mode: when it succeeds, the target passes YANG validation, removes no
  protected field and has no empty table; the database went through exactly the configurations of the sorted
  changes, one after the other, each of them valid; and it ends with the entries of the target. (The
  configurations of the sorted changes are tables of entries without empty tables.)\<close>

theorem apply_patch_follows_plan:
  assumes sw: "switch_ok S view" and "\<forall>k. view w (''bgpraw'', k) = JNull" and run: "patch_applier_apply (real_updater S False []) p w = (Inr (), w')"
    and old: "get_config_db_as_json (sw_show S w) = Inr old"
    and changes: "patch_sort (sort_env_of S (Inr old)) False [] p = Inr changes" "list_all patch_wf changes"
    and cs: "run_changes (ca_lib (sw_applier S)) old changes = Inr cs" "list_all db_shape cs"
  shows "\<exists>target. simulate_patch (ca_lib (sw_applier S)) p old = Inr target \<and>
    validate_config_db_config (sw_yang S) target = Inr True \<and> get_empty_tables target = Inr [] \<and>
    list_all (\<lambda>c. validate_config_db_config (sw_yang S) c = Inr True) cs \<and>
    list_all2 (holds view) cs (change_worlds (real_updater S False []) changes w) \<and>
    w' = last (w # change_worlds (real_updater S False []) changes w) \<and>
    (\<exists>c. holds view c w' \<and> json_eq c target)"
proof -
  let ?U = "real_updater S False [] :: 'a updater"
  have A: "db_ok (sw_applier S) view" "patch_congr_ok (ca_lib (sw_applier S))" "db_shape old" "holds view old w"
    using sw old assms(2) unfolding switch_ok_def by (metis sum.inject(2))+
  obtain target where t: "simulate_patch (ca_lib (sw_applier S)) p old = Inr target" "get_empty_tables target = Inr []"
      "apply_changes ?U changes w = (Inr (), w')"
    using patch_applier_apply_Inr[OF run] old changes(1) by (metis sum.inject(2))
  have "strict_sort (sort_env_of S (Inr old)) p DFS = Inr changes" using changes(1) by (simp add: patch_sort_def)
  from strict_sort_run[OF this] t(1) cs(1) have s: "validate_config_db_config (sw_yang S) target = Inr True"
      "list_all (\<lambda>c. validate_config_db_config (sw_yang S) c = Inr True) cs" "json_eq (last (old # cs)) target"
    by (auto simp: list_all_iff)
  have U: "up_change ?U = change_applier_apply (sw_applier S)" by (simp add: real_updater_sel)
  note follow = applier_target.changes_follow[OF conjI[OF A(1,2)] U cs(1) A(3) cs(2) changes(2) A(4)]
  have f: "list_all2 (holds view) cs (change_worlds ?U changes w)" "w' = last (w # change_worlds ?U changes w)"
    using follow t(3) by auto
  have "holds view (last (old # cs)) w'"
    by (rule applier_target.changes_end[OF conjI[OF A(1,2)] U cs(1) A(3) cs(2) changes(2) A(4) t(3)])
  with s t f show ?thesis by blast
qed

text \<open>C28. A dry run predicts the result: when \<open>PatchApplier.apply\<close> succeeds on the dry-run wrapper, the imitated database,
  which starts as the running configuration, ends equal to the target of the patch, which passes YANG
  validation, and the run went through the valid configurations of the sorted changes.\<close>

theorem dry_run_predicts:
  assumes congr: "patch_congr_ok (ca_lib (sw_applier S))"
    and old: "get_config_db_as_json (sw_show S w) = Inr old" "wf_json old"
    and run: "patch_applier_apply (dry_updater S w False []) p None = (Inr (), db)"
    and changes: "patch_sort (sort_env_of S (Inr old)) False [] p = Inr changes" "list_all patch_wf changes"
    and cs: "run_changes (ca_lib (sw_applier S)) old changes = Inr cs" "list_all wf_json cs"
  shows "\<exists>target c. simulate_patch (ca_lib (sw_applier S)) p old = Inr target \<and>
    validate_config_db_config (sw_yang S) target = Inr True \<and>
    list_all (\<lambda>c. validate_config_db_config (sw_yang S) c = Inr True) cs \<and>
    list_all2 imitates cs (change_worlds (dry_updater S w False []) changes (Some old)) \<and>
    json_eq c target \<and> imitates c db"
proof -
  let ?U = "dry_updater S w False []"
  have U: "up_change ?U = dry_applier_apply (ca_lib (sw_applier S)) (sw_show S w)"
      "up_lib ?U = ca_lib (sw_applier S)" "up_strip ?U = Inr" by (simp_all add: dry_updater_def)
  have get: "up_get ?U None = (Inr old, Some old)"
    using old by (simp add: dry_updater_def dry_init_def dry_get_config_def init_imitated_def)
  have sort: "up_sort ?U p (Some old) = (Inr changes, Some old)"
    using changes(1) by (simp add: dry_updater_def dry_init_def dry_get_config_def init_imitated_def act_bind_def act_of_def)
  obtain target db1 new where t: "simulate_patch (ca_lib (sw_applier S)) p old = Inr target"
      "apply_changes ?U changes (Some old) = (Inr (), db1)" "up_get ?U db1 = (Inr new, db)"
    using run get sort by (auto simp: patch_applier_apply_def U act_simps split: if_splits)
  have "strict_sort (sort_env_of S (Inr old)) p DFS = Inr changes" using changes(1) by (simp add: patch_sort_def)
  from strict_sort_run[OF this] t(1) cs(1) have s: "validate_config_db_config (sw_yang S) target = Inr True"
      "list_all (\<lambda>c. validate_config_db_config (sw_yang S) c = Inr True) cs" "json_eq (last (old # cs)) target"
    by (auto simp: list_all_iff)
  have im: "imitates old (Some old)" using old(2) by (simp add: imitates_def)
  have f: "list_all2 imitates cs (change_worlds ?U changes (Some old))"
    using dry_target.changes_follow[OF congr U(1) cs(1) old(2) cs(2) changes(2) im] by blast
  have e: "imitates (last (old # cs)) db1"
    by (rule dry_target.changes_end[OF congr U(1) cs(1) old(2) cs(2) changes(2) im t(2)])
  then have "db = db1"
    using t(3) by (auto simp: imitates_def dry_updater_def dry_init_def dry_get_config_def init_imitated_def)
  with s t f e show ?thesis by blast
qed

section \<open>Replace, checkpoint, roll back\<close>

definition gets_wf :: "'w updater \<Rightarrow> bool" where
  "gets_wf U \<longleftrightarrow> (\<forall>w c w'. up_get U w = (Inr c, w') \<longrightarrow> wf_json c)"

lemma replace_Inr:
  assumes "config_replacer_replace U target w = (Inr (), w')" and "make_patch_ok (up_lib U)" and "gets_wf U" and "wf_json target"
  shows "\<exists>w1 new. up_get U w1 = (Inr new, w') \<and> json_eq target new"
proof -
  obtain w1 new where n: "up_get U w1 = (Inr new, w')" "verify_same_json (up_lib U) target new"
    using assms(1) by (auto simp: config_replacer_replace_def act_simps verify_same_def split: if_splits)
  then have "wf_json new" using assms(3) by (auto simp: gets_wf_def)
  with n assms(2,4) show ?thesis unfolding make_patch_ok_def verify_same_json_def by blast
qed

text \<open>C26. A checkpoint can be rolled back to: whatever happens to the configuration in between, as long as the checkpoint
  file is left alone, a rollback that succeeds leaves a configuration equal to the one of the checkpoint.\<close>

theorem rollback_restores:
  assumes "make_patch_ok (up_lib U)" and "gets_wf U"
    and "config_checkpoint U name s = (Inr (), s1)" and "up_get U (fst s) = (Inr c, w1)"
    and "snd s2 = snd s1" and "config_rollback U name s2 = (Inr (), s3)"
  shows "snd s3 = snd s1 \<and> (\<exists>w new. up_get U w = (Inr new, fst s3) \<and> json_eq c new)"
proof -
  have "snd s1 = save_json_file name c (ensure_checkpoints_dir_exists (snd s))"
    using assms(3,4) by (auto simp: config_checkpoint_def act_simps on_world_def split: prod.splits)
  then have "get_checkpoint_content name (snd s2) = Inr c"
    using assms(5) by (simp add: save_json_file_def ensure_checkpoints_dir_exists_def get_checkpoint_content_def split: option.splits)
  then have r: "on_world (config_replacer_replace U c) s2 = (Inr (), s3)"
    using assms(6) by (auto simp: config_rollback_def split: if_splits)
  then have "config_replacer_replace U c (fst s2) = (Inr (), fst s3)" "snd s3 = snd s2"
    by (auto simp: on_world_def split: prod.splits)
  moreover have "wf_json c" using assms(2,4) by (auto simp: gets_wf_def)
  ultimately show ?thesis using replace_Inr[OF _ assms(1,2)] assms(5) by simp
qed

lemma ends_with_append: "ends_with q s \<longleftrightarrow> (\<exists>r. s = r @ q)"
proof
  assume "ends_with q s"
  then have "s = take (length s - length q) s @ q" by (metis append_take_drop_id ends_with_def)
  then show "\<exists>r. s = r @ q" ..
qed (auto simp: ends_with_def)

lemma ends_with_checkpoint [simp]: "ends_with checkpoint_ext (checkpoint_file name)"
  by (simp add: ends_with_def checkpoint_file_def)

lemma checkpoint_names: "name \<in> set (get_checkpoint_names fs) \<longleftrightarrow> check_checkpoint_exists name fs"
proof (cases fs)
  case (Some d)
  have "name \<in> set (get_checkpoint_names fs) \<longleftrightarrow> checkpoint_file name \<in> fst ` set d"
  proof
    assume "name \<in> set (get_checkpoint_names fs)"
    then obtain n where "n \<in> fst ` set d" "ends_with checkpoint_ext n" "name = take (length n - length checkpoint_ext) n"
      using Some by (auto simp: get_checkpoint_names_def)
    then show "checkpoint_file name \<in> fst ` set d" by (force simp: ends_with_append checkpoint_file_def)
  next
    assume "checkpoint_file name \<in> fst ` set d"
    then have "checkpoint_file name \<in> set (filter (ends_with checkpoint_ext) (map fst d))"
      by simp
    moreover have "take (length (checkpoint_file name) - length checkpoint_ext) (checkpoint_file name) = name"
      by (simp add: checkpoint_file_def)
    ultimately have "name \<in> (\<lambda>n. take (length n - length checkpoint_ext) n) ` set (filter (ends_with checkpoint_ext) (map fst d))"
      by (rule image_eqI[OF sym, rotated])
    then show "name \<in> set (get_checkpoint_names fs)" using Some by (simp add: get_checkpoint_names_def del: set_filter)
  qed
  with Some show ?thesis by (simp add: check_checkpoint_exists_def map_of_eq_None_iff)
qed (simp add: get_checkpoint_names_def check_checkpoint_exists_def)

lemma checkpoint_file_inj [simp]: "checkpoint_file m = checkpoint_file n \<longleftrightarrow> m = n"
  by (simp add: checkpoint_file_def)

text \<open>Checkpoints are a set of names: a checkpoint adds its name, deleting removes it, neither touches another name, and
  the listing shows exactly the names that exist; rolling back to or deleting a name that does not exist is
  an error that changes nothing.\<close>

theorem checkpoint_names_spec:
  assumes "config_checkpoint U name s = (Inr (), s1)" and "delete_checkpoint name s1 = (r, s2)"
  shows "r = Inr () \<and> fst s2 = fst s1 \<and>
    list_checkpoints s1 = (Inr (get_checkpoint_names (snd s1)), s1) \<and>
    set (get_checkpoint_names (snd s1)) = insert name (set (get_checkpoint_names (snd s))) \<and>
    set (get_checkpoint_names (snd s2)) = set (get_checkpoint_names (snd s)) - {name} \<and>
    config_rollback U name s2 = (Inl ValueError, s2) \<and> delete_checkpoint name s2 = (Inl ValueError, s2)"
proof -
  obtain c where c: "snd s1 = save_json_file name c (ensure_checkpoints_dir_exists (snd s))"
    using assms(1) by (auto simp: config_checkpoint_def act_simps on_world_def split: prod.splits)
  have e1: "check_checkpoint_exists m (snd s1) \<longleftrightarrow> m = name \<or> check_checkpoint_exists m (snd s)" for m
    unfolding c by (auto simp: check_checkpoint_exists_def save_json_file_def ensure_checkpoints_dir_exists_def update_conv' split: option.splits)
  have d: "r = Inr ()" "s2 = (fst s1, delete_checkpoint_file name (snd s1))"
    using assms(2) e1[of name] by (auto simp: delete_checkpoint_def)
  have e2: "check_checkpoint_exists m (snd s2) \<longleftrightarrow> m \<noteq> name \<and> check_checkpoint_exists m (snd s)" for m
    using e1[of m] d(2) by (auto simp: check_checkpoint_exists_def delete_checkpoint_file_def delete_conv' split: option.splits)
  have "snd s1 \<noteq> None" using c by (auto simp: save_json_file_def ensure_checkpoints_dir_exists_def split: option.splits)
  then show ?thesis
    using d e1 e2 checkpoint_names
    by (auto simp: list_checkpoints_def checkpoints_dir_exist_def config_rollback_def delete_checkpoint_def set_eq_iff)
qed

section \<open>The lock\<close>

text \<open>\<open>ConfigLockDecorator\<close> keeps the lock when the action raises: the exception ends \<open>execute_write_action\<close> in the
  state the action left, and the release is never run.\<close>

theorem lock_not_released:
  assumes "action (acquire_lock L s) = (Inl e, s1)"
  shows "execute_write_action L action s = (Inl e, s1)"
  using assms by (simp add: execute_write_action_def act_bind_def act_do_def)

theorem lock_not_released_witness:
  "execute_write_action \<lparr>acquire_lock = (\<lambda>_. True), release_lock = (\<lambda>_. False)\<rparr> (act_of (Inl ValueError)) False = (Inl ValueError, True)"
  by (rule lock_not_released) (simp add: act_of_def)

section \<open>Examples\<close>

text \<open>A switch whose database is in memory.\<close>

definition mem_switch :: "mem_db switch" where
  "mem_switch = \<lparr>sw_yang = port_yang, sw_show = (\<lambda>w. Printed (mem_config w)), sw_applier = mem_applier,
     sw_queue_fuel = 50, sw_search_fuel = 10\<rparr>"

definition port_db :: mem_db where
  "port_db = [((''PORT'', ''Ethernet0/1''), JObj [(''mtu'', JStr ''9100'')])]"

lemma not_isl_unit: "\<not> isl (fst r) \<Longrightarrow> \<exists>w. r = (Inr (), w)"
  by (cases r; cases "fst r") auto

lemma mem_switch_ok: "switch_ok mem_switch mem_view"
  unfolding switch_ok_def
proof (intro conjI allI impI)
  show "db_ok (sw_applier mem_switch) mem_view" by (simp add: mem_switch_def mem_db_ok)
  show "patch_congr_ok (ca_lib (sw_applier mem_switch))" by (simp add: mem_switch_def mem_applier_def)
next
  fix w assume none: "\<forall>k. mem_view w (''bgpraw'', k) = JNull"
  obtain d where d: "mem_config w = JObj d" by (simp add: mem_config_def)
  have "map_of d ''bgpraw'' = None"
    using db_shape_nonempty[of d "''bgpraw''"] mem_config_shape[of w] none mem_config_entry[of w "''bgpraw''"] d
    by (simp del: entry.simps)
  then have "AList.delete ''bgpraw'' d = d" by (simp add: map_of_eq_None_iff)
  then have "get_config_db_as_json (sw_show mem_switch w) = Inr (mem_config w)"
    using d by (simp add: mem_switch_def get_config_db_as_json_def get_config_db_as_text_def pop_key_def)
  then show "\<exists>c. get_config_db_as_json (sw_show mem_switch w) = Inr c \<and> db_shape c \<and> holds mem_view c w"
    using mem_config_shape db_ok_read[OF mem_db_ok, of w] by (auto simp: holds_def mem_config_entry)
qed

lemma port_shown: "get_config_db_as_json (sw_show mem_switch port_db) = Inr port_config"
  by code_simp

lemma port_env_of: "sort_env_of mem_switch (Inr port_config) = port_env"
proof -
  have "get_config_db_as_json (Printed port_config) = Inr port_config" by code_simp
  then show ?thesis by (simp add: sort_env_of_def port_env_def mem_switch_def mem_applier_def)
qed

lemma port_applied: "\<not> isl (fst (patch_applier_apply (real_updater mem_switch False []) port_patch port_db))"
  by code_simp

definition port_target :: json where
  "port_target = JObj [(''PORT'', JObj [(''Ethernet0/1'', JObj [(''mtu'', JStr ''1500'')]), (''Ethernet4'', JObj [(''mtu'', JStr ''1500'')])])]"

definition mid_port_config :: json where
  "mid_port_config = JObj [(''PORT'', JObj [(''Ethernet0/1'', JObj [(''mtu'', JStr ''9100'')]), (''Ethernet4'', JObj [(''mtu'', JStr ''1500'')])])]"

lemma port_lib: "ca_lib (sw_applier mem_switch) = ref_lib"
  by (simp add: mem_switch_def mem_applier_def)

lemma port_plan: "patch_sort (sort_env_of mem_switch (Inr port_config)) False [] port_patch = Inr (map (\<lambda>o1. [o1]) port_patch)"
  unfolding port_env_of by (simp add: patch_sort_def port_sorted)

lemma port_patch_wf: "list_all patch_wf (map (\<lambda>o1. [o1]) port_patch)"
  by (simp add: port_patch_def patch_wf_def create_operation_def opt_json_def)

lemma port_run:
  "run_changes (ca_lib (sw_applier mem_switch)) port_config (map (\<lambda>o1. [o1]) port_patch) = Inr [mid_port_config, port_target]"
  unfolding port_lib by code_simp

lemma port_simulated: "simulate_patch (ca_lib (sw_applier mem_switch)) port_patch port_config = Inr port_target"
  unfolding port_lib by code_simp

theorem apply_patch_follows_plan_witness:
  "\<exists>w. patch_applier_apply (real_updater mem_switch False []) port_patch port_db = (Inr (), w) \<and>
     validate_config_db_config port_yang port_target = Inr True \<and> (\<exists>c. holds mem_view c w \<and> json_eq c port_target)"
proof -
  obtain w where w: "patch_applier_apply (real_updater mem_switch False []) port_patch port_db = (Inr (), w)"
    using not_isl_unit[OF port_applied] by blast
  have none: "\<forall>k. mem_view port_db (''bgpraw'', k) = JNull" by (simp add: mem_view_def port_db_def)
  have shapes: "list_all db_shape [mid_port_config, port_target]"
    by (auto simp: db_shape_def tables_ok_def mid_port_config_def port_target_def split: if_splits)
  show ?thesis
    using apply_patch_follows_plan[OF mem_switch_ok none w port_shown port_plan port_patch_wf port_run shapes] port_simulated w
    by (auto simp: mem_switch_def)
qed

definition port_updater :: "mem_db updater" where
  "port_updater = real_updater mem_switch False []"

lemma port_updater_gets_wf: "gets_wf port_updater"
proof -
  have "wf_json c" if "get_config_db_as_json (sw_show mem_switch w) = Inr c" for w c
    using that db_shape_wf[OF mem_config_shape[of w]]
    by (auto simp: mem_switch_def get_config_db_as_json_def get_config_db_as_text_def pop_key_def mem_config_def
        simp del: wf_json.simps intro!: wf_delete)
  then show ?thesis by (auto simp: gets_wf_def port_updater_def real_updater_sel)
qed

definition other_db :: mem_db where
  "other_db = [((''PORT'', ''Ethernet0/1''), JObj [(''mtu'', JStr ''1500'')])]"

theorem rollback_restores_witness:
  "\<exists>w new s. config_rollback port_updater ''before'' (other_db, Some [(''before.cp.json'', Some port_config)]) = (Inr (), s) \<and>
     up_get port_updater w = (Inr new, fst s) \<and> json_eq port_config new"
proof -
  let ?fs = "Some [(''before.cp.json'', Some port_config)]"
  have cp: "config_checkpoint port_updater ''before'' (port_db, None) = (Inr (), (port_db, ?fs))" by code_simp
  have get: "up_get port_updater (fst (port_db, None)) = (Inr port_config, port_db)"
    using port_shown by (simp add: port_updater_def real_updater_sel)
  have "\<not> isl (fst (config_rollback port_updater ''before'' (other_db, ?fs)))" by code_simp
  then obtain s where s: "config_rollback port_updater ''before'' (other_db, ?fs) = (Inr (), s)"
    using not_isl_unit by blast
  have mk: "make_patch_ok (up_lib port_updater)" by (simp add: port_updater_def real_updater_sel mem_switch_def mem_applier_def)
  show ?thesis using rollback_restores[OF mk port_updater_gets_wf cp get _ s] s by auto
qed

theorem checkpoint_names_spec_witness:
  "list_checkpoints (port_db, Some [(''before.cp.json'', Some port_config)]) =
     (Inr (get_checkpoint_names (Some [(''before.cp.json'', Some port_config)])), (port_db, Some [(''before.cp.json'', Some port_config)])) \<and>
   config_rollback port_updater ''before'' (port_db, Some []) = (Inl ValueError, (port_db, Some []))"
proof -
  let ?fs = "Some [(''before.cp.json'', Some port_config)]"
  have cp: "config_checkpoint port_updater ''before'' (port_db, None) = (Inr (), (port_db, ?fs))" by code_simp
  have del: "delete_checkpoint ''before'' (port_db, ?fs) = (Inr (), (port_db, Some []))" by code_simp
  from checkpoint_names_spec[OF cp del] show ?thesis by simp
qed

lemma port_dry_run: "\<not> isl (fst (patch_applier_apply (dry_updater mem_switch port_db False []) port_patch None))"
  by code_simp

theorem dry_run_predicts_witness:
  "\<exists>db c. patch_applier_apply (dry_updater mem_switch port_db False []) port_patch None = (Inr (), db) \<and>
     json_eq c port_target \<and> imitates c db"
proof -
  obtain db where db: "patch_applier_apply (dry_updater mem_switch port_db False []) port_patch None = (Inr (), db)"
    using not_isl_unit[OF port_dry_run] by blast
  have wf: "wf_json port_config" "list_all wf_json [mid_port_config, port_target]"
    by (simp_all add: port_config_def mid_port_config_def port_target_def)
  have congr: "patch_congr_ok (ca_lib (sw_applier mem_switch))" by (simp add: port_lib)
  show ?thesis
    using dry_run_predicts[OF congr port_shown wf(1) db port_plan port_patch_wf port_run wf(2)] port_simulated db by auto
qed

end
