(* ===== verification/PyIpAddress.thy ===== *)
theory PyIpAddress
  imports PyJson "HOL-Library.Word"
begin

unbundle bit_operations_syntax

text \<open>
  What the sources use of the standard library's \<open>ipaddress\<close>: \<open>ip_address(s)\<close> reads an IPv4 or an IPv6
  address and raises \<open>ValueError\<close> on anything else; \<open>version\<close>, \<open>is_unspecified\<close> and
  \<open>is_link_local\<close> are read off the result. Addresses are words of their width.
\<close>

datatype ip_addr = V4 "32 word" | V6 "128 word"

section \<open>IPv4\<close>

definition digit_value :: "char \<Rightarrow> nat" where
  "digit_value c = (let n = of_char c in if 97 \<le> n then n - 87 else if 65 \<le> n then n - 55 else n - 48)"

definition number_value :: "nat \<Rightarrow> string \<Rightarrow> nat" where
  "number_value b s = foldl (\<lambda>v c. b * v + digit_value c) 0 s"

definition parse_octet :: "string \<Rightarrow> err + nat" where
  "parse_octet s =
     (if \<not> py_isdigit s \<or> length s > 3 \<or> (s \<noteq> ''0'' \<and> hd s = CHR ''0'') \<or> number_value 10 s > 255
      then Inl ValueError else Inr (number_value 10 s))"

definition parse_v4 :: "string \<Rightarrow> err + 32 word" where
  "parse_v4 s = (let octets = split_on CHR ''.'' s in
     if length octets \<noteq> 4 then Inl ValueError
     else rbind (rmapM parse_octet octets) (\<lambda>ns. Inr (foldl (\<lambda>w n. push_bit 8 w OR of_nat n) 0 ns)))"

section \<open>IPv6\<close>

definition is_hex_digit :: "char \<Rightarrow> bool" where
  "is_hex_digit c \<longleftrightarrow> is_digit c \<or> (let n = of_char c :: nat in (97 \<le> n \<and> n \<le> 102) \<or> (65 \<le> n \<and> n \<le> 70))"

definition parse_hextet :: "string \<Rightarrow> err + nat" where
  "parse_hextet s =
     (if s = [] \<or> \<not> list_all is_hex_digit s \<or> length s > 4 then Inl ValueError else Inr (number_value 16 s))"

text \<open>
  The parts between the colons, an IPv4 tail counted as two hextets. At most one inner part is
  empty: it stands for the hextets that are missing.
\<close>

definition v6_parts :: "string \<Rightarrow> err + (err + nat) list \<times> string list" where
  "v6_parts s = (let parts = split_on CHR '':'' s in
     if length parts < 3 then Inl ValueError
     else if CHR ''.'' \<in> set (last parts)
     then rbind (parse_v4 (last parts)) (\<lambda>w.
       Inr ([Inr (unat (drop_bit 16 w)), Inr (unat (w AND 0xFFFF))], butlast parts))
     else Inr ([], parts))"

definition v6_skip :: "string list \<Rightarrow> nat list" where
  "v6_skip parts = filter (\<lambda>i. parts ! i = []) [1..<length parts - 1]"

definition hextets_value :: "nat list \<Rightarrow> 128 word" where
  "hextets_value ns = foldl (\<lambda>w n. push_bit 16 w OR of_nat n) 0 ns"

definition v6_value :: "(err + nat) list \<Rightarrow> string list \<Rightarrow> err + 128 word" where
  "v6_value tail parts =
     (let all = map parse_hextet parts @ tail;
          texts = parts @ map (\<lambda>_. ''0'') tail;
          n = length all in
      if n > 9 then Inl ValueError
      else (case v6_skip texts of
          [] \<Rightarrow> if n \<noteq> 8 then Inl ValueError
                else rbind (rmapM id all) (\<lambda>ns. Inr (hextets_value ns))
        | [i] \<Rightarrow>
            if hd texts = [] \<and> i \<noteq> 1 \<or> last texts = [] \<and> i \<noteq> n - 2 then Inl ValueError
            else let hi = (if hd texts = [] then [] else take i all);
                     lo = (if last texts = [] then [] else drop (i + 1) all) in
              if length hi + length lo > 7 then Inl ValueError
              else rbind (rmapM id hi) (\<lambda>hs. rbind (rmapM id lo) (\<lambda>ls.
                Inr (hextets_value (hs @ replicate (8 - (length hi + length lo)) 0 @ ls))))
        | _ \<Rightarrow> Inl ValueError))"

definition strip_scope :: "string \<Rightarrow> err + string" where
  "strip_scope s = (case split_on CHR ''%'' s of
     [a] \<Rightarrow> Inr a
   | [a, scope] \<Rightarrow> if scope = [] then Inl ValueError else Inr a
   | _ \<Rightarrow> Inl ValueError)"

definition parse_v6 :: "string \<Rightarrow> err + 128 word" where
  "parse_v6 s = rbind (strip_scope s) (\<lambda>a. rbind (v6_parts a) (\<lambda>(tail, parts). v6_value tail parts))"

section \<open>Addresses\<close>

definition ip_address :: "string \<Rightarrow> err + ip_addr" where
  "ip_address s = (case parse_v4 s of
     Inr w \<Rightarrow> Inr (V4 w)
   | Inl _ \<Rightarrow> rbind (parse_v6 s) (\<lambda>w. Inr (V6 w)))"

fun ip_version :: "ip_addr \<Rightarrow> int" where
  "ip_version (V4 _) = 4"
| "ip_version (V6 _) = 6"

fun is_unspecified :: "ip_addr \<Rightarrow> bool" where
  "is_unspecified (V4 w) = (w = 0)"
| "is_unspecified (V6 w) = (w = 0)"

text \<open>169.254.0.0/16 and fe80::/10.\<close>

fun is_link_local :: "ip_addr \<Rightarrow> bool" where
  "is_link_local (V4 w) = (drop_bit 16 w = 0xA9FE)"
| "is_link_local (V6 w) = (drop_bit 118 w = 0x3FA)"

section \<open>Networks\<close>

text \<open>
  \<open>ip_network(s)\<close>: an address, or an address and a prefix length or (IPv4) a netmask or hostmask. Host bits
  are refused. Only the version of the result is used.
\<close>

definition prefix_digits :: "nat \<Rightarrow> string \<Rightarrow> nat option" where
  "prefix_digits maximum s = (if py_isdigit s \<and> number_value 10 s \<le> maximum then Some (number_value 10 s) else None)"

definition net_mask :: "nat \<Rightarrow> 'w::len word" where
  "net_mask p = push_bit (LENGTH('w) - p) (mask p)"

definition parse_v4_mask :: "string \<Rightarrow> err + nat" where
  "parse_v4_mask s = (case prefix_digits 32 s of
     Some p \<Rightarrow> Inr p
   | None \<Rightarrow> rbind (parse_v4 s) (\<lambda>w.
       case find (\<lambda>p. net_mask p = w) [0..<33] of
         Some p \<Rightarrow> Inr p
       | None \<Rightarrow> (case find (\<lambda>p. net_mask p = NOT w) [0..<33] of Some p \<Rightarrow> Inr p | None \<Rightarrow> Inl ValueError)))"

definition parse_v6_mask :: "string \<Rightarrow> err + nat" where
  "parse_v6_mask s = (case prefix_digits 128 s of Some p \<Rightarrow> Inr p | None \<Rightarrow> Inl ValueError)"

text \<open>The version, or \<open>ValueError\<close>; host bits raise at once, without a second attempt as IPv6.\<close>

definition ip_network :: "string \<Rightarrow> err + int" where
  "ip_network s =
     (let parts = split_on CHR ''/'' s; address = hd parts in
      if length parts > 2 then Inl ValueError
      else (case rbind (parse_v4 address) (\<lambda>w. rbind (if tl parts = [] then Inr 32 else parse_v4_mask (parts ! 1)) (\<lambda>p. Inr (w, p))) of
          Inr (w, p) \<Rightarrow> if w AND net_mask p = w then Inr 4 else Inl ValueError
        | Inl _ \<Rightarrow> rbind (parse_v6 address) (\<lambda>w.
            rbind (if tl parts = [] then Inr 128 else parse_v6_mask (parts ! 1)) (\<lambda>p.
              if w AND net_mask p = w then Inr 6 else Inl ValueError))))"

lemmas ip_defs = ip_address_def parse_v4_def parse_octet_def parse_v6_def strip_scope_def v6_parts_def
  v6_value_def v6_skip_def parse_hextet_def number_value_def digit_value_def is_hex_digit_def
  hextets_value_def py_isdigit_def is_digit_def ip_network_def parse_v4_mask_def parse_v6_mask_def prefix_digits_def net_mask_def

lemma replicate_numeral_step: "replicate (numeral k) x = x # replicate (pred_numeral k) x"
  by (simp add: numeral_eq_Suc)

lemmas ip_eval = ip_defs replicate_numeral_step

lemma ip_address_examples:
  "ip_address ''10.0.0.1'' = Inr (V4 0x0A000001)"
  "ip_address ''fe80::1'' = Inr (V6 0xFE800000000000000000000000000001)"
  "ip_address ''::'' = Inr (V6 0)"
  "ip_address ''::ffff:1.2.3.4'' = Inr (V6 0xFFFF01020304)"
  "ip_address ''1:2:3:4:5:6:7:8'' = Inr (V6 0x00010002000300040005000600070008)"
  "ip_address ''1::2::3'' = Inl ValueError"
  "ip_address ''256.0.0.1'' = Inl ValueError"
  "ip_address ''10.0.0.1/24'' = Inl ValueError"
  by (simp_all add: ip_eval)

lemma ip_network_examples:
  "ip_network ''10.0.0.0/8'' = Inr 4"
  "ip_network ''10.0.0.1'' = Inr 4"
  "ip_network ''10.0.0.1/8'' = Inl ValueError"
  "ip_network ''fe80::/10'' = Inr 6"
  by (simp_all add: ip_eval mask_eq_exp_minus_1)

end
