(* ===== verification/RouteCheck.thy ===== *)
theory RouteCheck
  imports PyIpAddress "HOL-Library.Multiset"
begin

text \<open>
  \<open>scripts/route_check.py\<close>: the check that every route of APPL-DB reached ASIC-DB. The databases
  are read once per run, so a run is a function of what it reads: the record \<open>route_env\<close>
  holds the rows of the tables, the messages the subscription delivers in each round of waiting
  with the clock reading after it, and the chassis configuration file
  (\<open>utilities_common/chassis.py\<close>). The main result is \<open>check_routes_spec\<close>: the report is the
  difference of the two route tables as multisets, less the exemptions and the late updates.
\<close>

section \<open>Messages\<close>

datatype level = ERR | INFO | DEBUG

record log_config =
  report_level :: int
  write_to_syslog :: bool

text \<open>The levels of \<open>syslog\<close>: 3 is an error, 4 a warning, 6 information, 7 debugging.\<close>

definition initial_log :: log_config where
  "initial_log = \<lparr>report_level = 4, write_to_syslog = False\<rparr>"

definition set_level :: "level \<Rightarrow> bool \<Rightarrow> log_config \<Rightarrow> log_config" where
  "set_level lvl log_to_syslog c =
     (let c = c\<lparr>write_to_syslog := log_to_syslog\<rparr>;
          c = (if lvl = INFO then c\<lparr>report_level := 6\<rparr> else c)
      in if lvl = DEBUG then c\<lparr>report_level := 7\<rparr> else c)"

definition PRINT_MSG_LEN_MAX :: int where
  "PRINT_MSG_LEN_MAX = 1000"

fun clip_args :: "string \<Rightarrow> string list \<Rightarrow> string" where
  "clip_args msg [] = msg"
| "clip_args msg (arg # args) =
     (let rem_len = PRINT_MSG_LEN_MAX - int (length msg) in
      if rem_len \<le> 0 then msg else clip_args (msg @ take (nat rem_len) arg) args)"

definition print_message :: "log_config \<Rightarrow> int \<Rightarrow> string list \<Rightarrow> string" where
  "print_message c lvl args = (if lvl \<le> report_level c then clip_args [] args else [])"

section \<open>Prefixes and addresses\<close>

definition add_prefix :: "string \<Rightarrow> string" where
  "add_prefix ip = (if CHR '':'' \<notin> set ip then ip @ ''/'' @ ''32'' else ip @ ''/'' @ ''128'')"

definition add_prefix_ifnot :: "string \<Rightarrow> string" where
  "add_prefix_ifnot ip = (if CHR ''/'' \<in> set ip then ip else add_prefix ip)"

definition is_local :: "string \<Rightarrow> err + bool" where
  "is_local ip = rbind (ip_address (hd (split_on CHR ''/'' ip))) (\<lambda>t. Inr (is_link_local t))"

definition is_default_route :: "string \<Rightarrow> err + bool" where
  "is_default_route ip =
     rbind (ip_address (hd (split_on CHR ''/'' ip))) (\<lambda>t.
       if is_unspecified t
       then (case split_on CHR ''/'' ip of
           _ # p # _ \<Rightarrow> Inr (p = ''0'')
         | _ \<Rightarrow> Inl IndexError)
       else Inr False)"

section \<open>Differences of sorted lists\<close>

definition cmps :: "string \<Rightarrow> string \<Rightarrow> int" where
  "cmps s1 s2 = (if s1 = s2 then 0 else if s1 < s2 then -1 else 1)"

function diff_loop ::
    "string list \<Rightarrow> string list \<Rightarrow> nat \<Rightarrow> nat \<Rightarrow> string list \<Rightarrow> string list \<Rightarrow> string list \<times> string list" where
  "diff_loop t1 t2 t1_x t2_x t1_miss t2_miss =
     (if t1_x < length t1 \<and> t2_x < length t2
      then let d = cmps (t1 ! t1_x) (t2 ! t2_x) in
        if d = 0 then diff_loop t1 t2 (t1_x + 1) (t2_x + 1) t1_miss t2_miss
        else if d < 0 then diff_loop t1 t2 (t1_x + 1) t2_x (t1_miss @ [t1 ! t1_x]) t2_miss
        else diff_loop t1 t2 t1_x (t2_x + 1) t1_miss (t2_miss @ [t2 ! t2_x])
      else if t1_x < length t1 then diff_loop t1 t2 (t1_x + 1) t2_x (t1_miss @ [t1 ! t1_x]) t2_miss
      else if t2_x < length t2 then diff_loop t1 t2 t1_x (t2_x + 1) t1_miss (t2_miss @ [t2 ! t2_x])
      else (t1_miss, t2_miss))"
  by pat_completeness auto
termination
  by (relation "measure (\<lambda>(t1, t2, x, y, _, _). (length t1 - x) + (length t2 - y))") auto

declare diff_loop.simps [simp del]

definition diff_sorted_lists :: "string list \<Rightarrow> string list \<Rightarrow> string list \<times> string list" where
  "diff_sorted_lists t1 t2 = diff_loop t1 t2 0 0 [] []"

section \<open>What a run reads\<close>

type_synonym row = "string \<times> (string \<times> string) list"
type_synonym db_table = "row list"
type_synonym sub_msg = "string \<times> string"

record route_env =
  asic_pops :: "sub_msg list"
  sub_start :: int
  sub_rounds :: "(int \<times> sub_msg list) list"
  route_table :: db_table
  intf_table :: db_table
  neigh_table :: db_table
  vnet_route_table :: db_table
  vnet_tunnel_table :: db_table
  cfg_metadata :: db_table
  cfg_mux_cable :: db_table
  chassis_conf :: "string list option"

definition get_keys :: "db_table \<Rightarrow> string list" where
  "get_keys t = map fst t"

text \<open>\<open>dict(tbl.get(k)[1])\<close>: no fields when the row is missing.\<close>

definition table_get :: "db_table \<Rightarrow> string \<Rightarrow> (string \<times> string) list" where
  "table_get t k = (case map_of t k of None \<Rightarrow> [] | Some f \<Rightarrow> f)"

definition field :: "(string \<times> string) list \<Rightarrow> string \<Rightarrow> string option" where
  "field e f = map_of (rev e) f"

definition field_or :: "(string \<times> string) list \<Rightarrow> string \<Rightarrow> string \<Rightarrow> string" where
  "field_or e f d = (case field e f of None \<Rightarrow> d | Some v \<Rightarrow> v)"

definition field_req :: "(string \<times> string) list \<Rightarrow> string \<Rightarrow> err + string" where
  "field_req e f = (case field e f of None \<Rightarrow> Inl KeyError | Some v \<Rightarrow> Inr v)"

definition ASIC_KEY_PREFIX :: string where
  "ASIC_KEY_PREFIX = ''SAI_OBJECT_TYPE_ROUTE_ENTRY:''"

definition checkout_rt_entry :: "string \<Rightarrow> err + string option" where
  "checkout_rt_entry k =
     (if prefix ASIC_KEY_PREFIX k
      then (case drop 3 (split_on CHR 0x22 (to_lower k)) of
          [] \<Rightarrow> Inl IndexError
        | e # _ \<Rightarrow> rbind (is_local e) (\<lambda>l. Inr (if \<not> l then Some e else None)))
      else Inr None)"

text \<open>\<open>subs.pop()\<close> until it returns an empty key.\<close>

definition popped :: "sub_msg list \<Rightarrow> sub_msg list" where
  "popped ms = takeWhile (\<lambda>(k, _). k \<noteq> []) ms"

definition take_update :: "string list \<times> string list \<Rightarrow> sub_msg \<Rightarrow> err + string list \<times> string list" where
  "take_update = (\<lambda>(adds, deletes) (key, op).
     rbind (checkout_rt_entry key) (\<lambda>res. case res of
         None \<Rightarrow> Inr (adds, deletes)
       | Some e \<Rightarrow>
           if op = ''SET'' then Inr (adds @ [e], deletes)
           else if op = ''DEL'' then Inr (adds, deletes @ [e])
           else Inr (adds, deletes)))"

text \<open>
  Clock readings are in microseconds: \<open>int(t_end - time.time())\<close> cuts towards zero. The list of
  rounds is what the selector and the clock do; a run that needs more rounds than it has ends in
  \<open>OutOfFuel\<close>.
\<close>

definition wait_secs :: "int \<Rightarrow> int" where
  "wait_secs d = (if d < 0 then - ((- d) div 1000000) else d div 1000000)"

fun subscribe_rounds ::
    "int \<Rightarrow> int \<Rightarrow> (int \<times> sub_msg list) list \<Rightarrow> string list \<times> string list \<Rightarrow> err + string list \<times> string list" where
  "subscribe_rounds t_end t_wait rounds acc =
     (if t_wait > 0
      then (case rounds of
          [] \<Rightarrow> Inl OutOfFuel
        | (now, ms) # rest \<Rightarrow>
            rbind (rfoldM take_update acc (popped ms)) (\<lambda>acc'.
              subscribe_rounds t_end (wait_secs (t_end - now)) rest acc'))
      else Inr acc)"

declare subscribe_rounds.simps [simp del]

definition SUBSCRIBE_WAIT_SECS :: int where
  "SUBSCRIBE_WAIT_SECS = 1"

definition get_subscribe_updates :: "route_env \<Rightarrow> err + string list \<times> string list" where
  "get_subscribe_updates env =
     rbind (subscribe_rounds (sub_start env + SUBSCRIBE_WAIT_SECS * 1000000) SUBSCRIBE_WAIT_SECS (sub_rounds env) ([], []))
       (\<lambda>(adds, deletes). Inr (sort adds, sort deletes))"

section \<open>Reading the tables\<close>

definition is_vrf :: "string \<Rightarrow> bool" where
  "is_vrf k = prefix ''Vrf'' k"

definition route_of_key :: "string \<Rightarrow> err + string list" where
  "route_of_key k =
     rbind (if is_vrf k then (case split_once CHR '':'' k of [_, r] \<Rightarrow> Inr r | _ \<Rightarrow> Inl IndexError) else Inr k)
       (\<lambda>k. rbind (is_local k) (\<lambda>l. Inr (if \<not> l then [add_prefix_ifnot (to_lower k)] else [])))"

definition get_routes :: "route_env \<Rightarrow> err + string list" where
  "get_routes env = rbind (rmapM route_of_key (get_keys (route_table env))) (\<lambda>rs. Inr (sort (concat rs)))"

definition get_route_entries :: "route_env \<Rightarrow> err + string list" where
  "get_route_entries env =
     rbind (rmapM checkout_rt_entry (map fst (popped (asic_pops env)))) (\<lambda>rs.
       Inr (sort (concat (map (\<lambda>r. case r of None \<Rightarrow> [] | Some e \<Rightarrow> [e]) rs))))"

definition intf_of_key :: "string \<Rightarrow> err + string list" where
  "intf_of_key k = (case split_once CHR '':'' (to_lower k) of
       [_, a] \<Rightarrow> let ip = add_prefix (hd (split_on CHR ''/'' a)) in
         rbind (is_local ip) (\<lambda>l. Inr (if \<not> l then [ip] else []))
     | _ \<Rightarrow> Inr [])"

definition get_interfaces :: "route_env \<Rightarrow> err + string list" where
  "get_interfaces env = rbind (rmapM intf_of_key (get_keys (intf_table env))) (\<lambda>rs. Inr (sort (concat rs)))"

section \<open>Exemptions\<close>

fun chassis_intfs :: "string list \<Rightarrow> err + string list" where
  "chassis_intfs [] = Inr []"
| "chassis_intfs (l # ls) =
     (if sublist ''chassis_internal_intfs'' (py_strip l)
      then (case split_on CHR ''='' (py_strip l) of
          _ # v # _ \<Rightarrow> Inr (split_on CHR '','' v)
        | _ \<Rightarrow> Inl IndexError)
      else chassis_intfs ls)"

definition get_chassis_local_interfaces :: "route_env \<Rightarrow> err + string list" where
  "get_chassis_local_interfaces env = (case chassis_conf env of None \<Rightarrow> Inr [] | Some ls \<Rightarrow> chassis_intfs ls)"

text \<open>\<open>re.match\<close> on the patterns of the source: a fixed prefix, then digits where \<open>digits\<close> holds.\<close>

definition re_match :: "string \<Rightarrow> bool \<Rightarrow> string \<Rightarrow> bool" where
  "re_match p digits s \<longleftrightarrow> prefix p s \<and>
     (digits \<longrightarrow> (case drop (length p) s of [] \<Rightarrow> False | c # _ \<Rightarrow> is_digit c))"

definition keep_local :: "string list \<Rightarrow> db_table \<Rightarrow> string \<Rightarrow> err + bool" where
  "keep_local chassis tbl k =
     (let e = table_get tbl k; ifname = field_or e ''ifname'' '''' in
      if ifname \<in> set ([''eth0'', ''docker0''] @ chassis) then Inr False
      else if re_match ''tun0'' False ifname \<or> re_match ''lo'' False ifname \<or> re_match ''Loopback'' True ifname
      then (case field e ''nexthop'' of
          None \<Rightarrow> Inr False
        | Some nh \<Rightarrow> if nh = [] then Inr False
            else rbind (ip_address nh) (\<lambda>a. Inr (\<not> is_unspecified a)))
      else Inr True)"

definition filter_out_local_interfaces :: "route_env \<Rightarrow> string list \<Rightarrow> err + string list" where
  "filter_out_local_interfaces env ks =
     rbind (get_chassis_local_interfaces env) (\<lambda>chassis. rfilterM (keep_local chassis (route_table env)) ks)"

definition keep_voq :: "db_table \<Rightarrow> string \<Rightarrow> err + bool" where
  "keep_voq tbl k =
     (let ps = split_on CHR ''/'' k;
          e = (let e = table_get tbl k in if e = [] then table_get tbl (hd ps) else e) in
      if e = [] then Inr True
      else rbind (field_req e ''ifname'') (\<lambda>ifname.
        if re_match ''Ethernet-IB'' True ifname
        then (case ps of
            _ # p # _ \<Rightarrow>
              if p = ''32'' then rbind (field_req e ''nexthop'') (\<lambda>nh. Inr (nh \<noteq> ''0.0.0.0''))
              else if p = ''128'' then rbind (field_req e ''nexthop'') (\<lambda>nh. Inr (nh \<noteq> ''::''))
              else Inr True
          | _ \<Rightarrow> Inl IndexError)
        else Inr True))"

definition filter_out_voq_neigh_routes :: "route_env \<Rightarrow> string list \<Rightarrow> err + string list" where
  "filter_out_voq_neigh_routes env ks = rfilterM (keep_voq (route_table env)) ks"

definition filter_out_default_routes :: "string list \<Rightarrow> err + string list" where
  "filter_out_default_routes lst = rfilterM (\<lambda>rt. rbind (is_default_route rt) (\<lambda>d. Inr (\<not> d))) lst"

definition vnet_route :: "string \<Rightarrow> err + string" where
  "vnet_route k = (case split_on CHR '':'' k of _ # r # _ \<Rightarrow> Inr r | _ \<Rightarrow> Inl IndexError)"

definition vnet_routes :: "route_env \<Rightarrow> err + string list" where
  "vnet_routes env = rmapM vnet_route (get_keys (vnet_route_table env) @ get_keys (vnet_tunnel_table env))"

definition filter_out_vnet_routes :: "route_env \<Rightarrow> string list \<Rightarrow> err + string list" where
  "filter_out_vnet_routes env routes =
     rbind (vnet_routes env) (\<lambda>vs. Inr (filter (\<lambda>r. r \<notin> set vs) routes))"

definition is_dualtor :: "route_env \<Rightarrow> err + bool" where
  "is_dualtor env = (case map_of (cfg_metadata env) ''localhost'' of
       None \<Rightarrow> Inl KeyError
     | Some e \<Rightarrow> Inr (to_lower (field_or e ''subtype'' '''') = ''dualtor''))"

text \<open>\<open>hget\<close> returns an empty string when the field is missing.\<close>

definition standalone_tunnel_ips :: "route_env \<Rightarrow> string list" where
  "standalone_tunnel_ips env =
     map (\<lambda>(neigh, _). join_with '':'' (tl (split_on CHR '':'' neigh)))
       (filter (\<lambda>(_, e). field_or e ''neigh'' '''' = ''00:00:00:00:00:00'') (neigh_table env))"

definition keep_tunnel :: "string list \<Rightarrow> string \<Rightarrow> err + bool" where
  "keep_tunnel ips route = (case split_on CHR ''/'' route of
       [ip, subnet] \<Rightarrow> rbind (ip_address ip) (\<lambda>a.
         Inr (ip \<notin> set ips \<or> (ip_version a = 6 \<and> subnet \<noteq> ''128'') \<or> (ip_version a = 4 \<and> subnet \<noteq> ''32'')))
     | _ \<Rightarrow> Inl ValueError)"

definition filter_out_standalone_tunnel_routes :: "route_env \<Rightarrow> string list \<Rightarrow> err + string list" where
  "filter_out_standalone_tunnel_routes env routes =
     rbind (is_dualtor env) (\<lambda>d.
       if \<not> d then Inr routes
       else let ips = standalone_tunnel_ips env in
         if ips = [] then Inr routes else rfilterM (keep_tunnel ips) routes)"

definition get_soc_ips :: "route_env \<Rightarrow> string list" where
  "get_soc_ips env = concat (map (\<lambda>(_, e).
     case field e ''soc_ipv4'' of
       None \<Rightarrow> []
     | Some ip \<Rightarrow> if field_or e ''cable_type'' '''' = ''active-active'' then [ip] else [])
     (cfg_mux_cable env))"

definition filter_out_soc_ip_routes :: "route_env \<Rightarrow> string list \<Rightarrow> err + string list" where
  "filter_out_soc_ip_routes env routes =
     rbind (is_dualtor env) (\<lambda>d.
       if \<not> d then Inr routes
       else let soc_ips = get_soc_ips env in
         if soc_ips = [] then Inr routes else Inr (filter (\<lambda>r. r \<notin> set soc_ips) routes))"

section \<open>The check\<close>

type_synonym results = "(string \<times> string list) list"

definition entry_if :: "string \<Rightarrow> string list \<Rightarrow> results" where
  "entry_if name xs = (if xs \<noteq> [] then [(name, xs)] else [])"

definition verdict :: "string list \<Rightarrow> string list \<Rightarrow> string list \<Rightarrow> int \<times> results option" where
  "verdict rt_appl_miss intf_appl_miss rt_asic_miss =
     (let results = entry_if ''missed_ROUTE_TABLE_routes'' rt_appl_miss
            @ entry_if ''missed_INTF_TABLE_entries'' intf_appl_miss
            @ entry_if ''Unaccounted_ROUTE_ENTRY_TABLE_entries'' rt_asic_miss in
      if results \<noteq> [] then (-1, Some results) else (0, None))"

definition check_routes :: "route_env \<Rightarrow> err + int \<times> results option" where
  "check_routes env =
     rbind (get_route_entries env) (\<lambda>rt_asic.
     rbind (get_routes env) (\<lambda>rt_appl.
     rbind (get_interfaces env) (\<lambda>intf_appl.
     let (rt_appl_miss, rt_asic_miss) = diff_sorted_lists rt_appl rt_asic;
         (_, rt_asic_miss) = diff_sorted_lists intf_appl rt_asic_miss in
     rbind (filter_out_default_routes rt_asic_miss) (\<lambda>rt_asic_miss.
     rbind (filter_out_vnet_routes env rt_asic_miss) (\<lambda>rt_asic_miss.
     rbind (filter_out_standalone_tunnel_routes env rt_asic_miss) (\<lambda>rt_asic_miss.
     rbind (filter_out_soc_ip_routes env rt_asic_miss) (\<lambda>rt_asic_miss.
     let (intf_appl_miss, _) = diff_sorted_lists intf_appl rt_asic in
     rbind (if rt_appl_miss \<noteq> [] then filter_out_local_interfaces env rt_appl_miss else Inr rt_appl_miss) (\<lambda>rt_appl_miss.
     rbind (if rt_appl_miss \<noteq> [] then filter_out_voq_neigh_routes env rt_appl_miss else Inr rt_appl_miss) (\<lambda>rt_appl_miss.
     rbind (if rt_appl_miss \<noteq> [] \<or> rt_asic_miss \<noteq> []
        then rbind (get_subscribe_updates env) (\<lambda>(adds, deletes).
          Inr (fst (diff_sorted_lists rt_appl_miss adds), fst (diff_sorted_lists rt_asic_miss deletes)))
        else Inr (rt_appl_miss, rt_asic_miss)) (\<lambda>(rt_appl_miss, rt_asic_miss).
     Inr (verdict rt_appl_miss intf_appl_miss rt_asic_miss)))))))))))"

section \<open>The entry point\<close>

definition MIN_SCAN_INTERVAL :: int where
  "MIN_SCAN_INTERVAL = 10"

definition MAX_SCAN_INTERVAL :: int where
  "MAX_SCAN_INTERVAL = 3600"

definition scan_interval :: "bool \<Rightarrow> int \<Rightarrow> int" where
  "scan_interval unit_testing arg =
     (if arg \<noteq> 0
      then let interval = (if arg < MIN_SCAN_INTERVAL then MIN_SCAN_INTERVAL
             else if arg > MAX_SCAN_INTERVAL then MAX_SCAN_INTERVAL else arg)
        in if unit_testing then 1 else interval
      else 0)"

text \<open>
  The loop of \<open>main\<close> over what the runs read: \<open>None\<close> when it is still running after them all. A run
  that raises ends the process.
\<close>

fun main_loop :: "bool \<Rightarrow> int \<Rightarrow> route_env list \<Rightarrow> (err + int \<times> results option) option" where
  "main_loop unit_testing interval [] = None"
| "main_loop unit_testing interval (env # envs) =
     (case check_routes env of
        Inl e \<Rightarrow> Some (Inl e)
      | Inr r \<Rightarrow>
          if interval \<noteq> 0
          then (if unit_testing then Some (Inr r) else main_loop unit_testing interval envs)
          else Some (Inr r))"

definition main :: "bool \<Rightarrow> int \<Rightarrow> route_env list \<Rightarrow> (err + int \<times> results option) option" where
  "main unit_testing arg envs = main_loop unit_testing (scan_interval unit_testing arg) envs"

section \<open>The difference of two sorted lists\<close>

lemma sorted_list_add_least:
  "\<forall>x \<in># M. a \<le> x \<Longrightarrow> sorted_list_of_multiset (add_mset a M) = a # sorted_list_of_multiset M"
  by (simp add: insort_is_Cons)

lemma diff_below:
  assumes "sorted (b # ys)" and "(a :: string) < b"
  shows "add_mset a M - mset (b # ys) = add_mset a (M - mset (b # ys))"
    and "mset (b # ys) - add_mset a M = mset (b # ys) - M"
proof -
  have "a \<notin># mset (b # ys)" using assms by auto
  then show "add_mset a M - mset (b # ys) = add_mset a (M - mset (b # ys))"
    and "mset (b # ys) - add_mset a M = mset (b # ys) - M"
    by (simp_all only: diff_add_mset_swap minus_add_mset_if_not_in_lhs not_False_eq_True)
qed

lemma diff_step:
  assumes "sorted (a # xs)"
  shows "sorted_list_of_multiset (add_mset a (mset xs - N)) = a # sorted_list_of_multiset (mset xs - N)"
  using assms by (intro sorted_list_add_least) (auto dest: in_diffD)

lemma diff_loop_correct:
  assumes "sorted t1" and "sorted t2"
  shows "diff_loop t1 t2 x y m1 m2 =
    (m1 @ sorted_list_of_multiset (mset (drop x t1) - mset (drop y t2)),
     m2 @ sorted_list_of_multiset (mset (drop y t2) - mset (drop x t1)))"
  using assms
proof (induction t1 t2 x y m1 m2 rule: diff_loop.induct)
  case (1 t1 t2 x y m1 m2)
  have s1: "sorted (drop x t1)" and s2: "sorted (drop y t2)" using 1(6,7) by (simp_all add: sorted_wrt_drop)
  have d1: "x < length t1 \<Longrightarrow> drop x t1 = t1 ! x # drop (Suc x) t1"
    and d2: "y < length t2 \<Longrightarrow> drop y t2 = t2 ! y # drop (Suc y) t2" by (simp_all add: Cons_nth_drop_Suc)
  consider "x < length t1" "y < length t2" "t1 ! x = t2 ! y" | "x < length t1" "y < length t2" "t1 ! x < t2 ! y"
    | "x < length t1" "y < length t2" "t2 ! y < t1 ! x" | "x < length t1" "\<not> y < length t2"
    | "\<not> x < length t1" "y < length t2" | "\<not> x < length t1" "\<not> y < length t2"
    by (metis linorder_less_linear)
  then show ?case
  proof cases
    case 1
    then show ?thesis using "1.IH"(1) "1.prems" by (subst diff_loop.simps) (simp add: cmps_def d1 d2)
  next
    case 2
    note b = diff_below[OF s2[unfolded d2[OF 2(2)]] 2(3)]
    have c: "cmps (t1 ! x) (t2 ! y) = -1" using 2(3) by (simp add: cmps_def)
    show ?thesis using "1.IH"(2)[OF _ refl] "1.prems" 2(1,2) s1 diff_step[of "t1 ! x" "drop (Suc x) t1"]
      by (subst diff_loop.simps) (simp add: c d1 d2 b[simplified])
  next
    case 3
    note b = diff_below[OF s1[unfolded d1[OF 3(1)]] 3(3)]
    have c: "cmps (t1 ! x) (t2 ! y) = 1" using 3(3) by (auto simp: cmps_def)
    show ?thesis using "1.IH"(3)[OF _ refl] "1.prems" 3(1,2) s2 diff_step[of "t2 ! y" "drop (Suc y) t2"]
      by (subst diff_loop.simps) (simp add: c d1 d2 b[simplified])
  next
    case 4
    then show ?thesis using "1.IH"(4) "1.prems" s1 diff_step[of "t1 ! x" "drop (Suc x) t1" "{#}"]
      by (subst diff_loop.simps) (simp add: d1)
  next
    case 5
    then show ?thesis using "1.IH"(5) "1.prems" s2 diff_step[of "t2 ! y" "drop (Suc y) t2" "{#}"]
      by (subst diff_loop.simps) (simp add: d2)
  next
    case 6
    then show ?thesis by (subst diff_loop.simps) simp
  qed
qed

lemma diff_sorted_lists_exact:
  "sorted t1 \<Longrightarrow> sorted t2 \<Longrightarrow> diff_sorted_lists t1 t2 =
     (sorted_list_of_multiset (mset t1 - mset t2), sorted_list_of_multiset (mset t2 - mset t1))"
  by (simp add: diff_sorted_lists_def diff_loop_correct)

section \<open>The exemptions as predicates\<close>

text \<open>
  What each filter removes. A route of APPL-DB that is missing in ASIC-DB is excused by the interface
  it leaves through; a route of ASIC-DB that is missing in APPL-DB is excused as the default route,
  as a VNET route, and on a dual-ToR switch as a tunnel route to a neighbour or the route of a SoC.
\<close>

definition local_exempt :: "route_env \<Rightarrow> string \<Rightarrow> bool" where
  "local_exempt env r \<longleftrightarrow> (case get_chassis_local_interfaces env of
     Inl _ \<Rightarrow> False | Inr chassis \<Rightarrow> keep_local chassis (route_table env) r = Inr False)"

definition voq_exempt :: "route_env \<Rightarrow> string \<Rightarrow> bool" where
  "voq_exempt env r \<longleftrightarrow> keep_voq (route_table env) r = Inr False"

definition default_exempt :: "string \<Rightarrow> bool" where
  "default_exempt r \<longleftrightarrow> is_default_route r = Inr True"

definition vnet_exempt :: "route_env \<Rightarrow> string \<Rightarrow> bool" where
  "vnet_exempt env r \<longleftrightarrow> (case vnet_routes env of Inl _ \<Rightarrow> False | Inr vs \<Rightarrow> r \<in> set vs)"

definition tunnel_exempt :: "route_env \<Rightarrow> string \<Rightarrow> bool" where
  "tunnel_exempt env r \<longleftrightarrow> is_dualtor env = Inr True \<and> standalone_tunnel_ips env \<noteq> [] \<and>
     keep_tunnel (standalone_tunnel_ips env) r = Inr False"

definition soc_exempt :: "route_env \<Rightarrow> string \<Rightarrow> bool" where
  "soc_exempt env r \<longleftrightarrow> is_dualtor env = Inr True \<and> r \<in> set (get_soc_ips env)"

named_theorems filter_facts \<open>each filter keeps exactly what is not exempt\<close>

lemma rfilterM_drops:
  "rfilterM p xs = Inr ys \<Longrightarrow> ys = filter (\<lambda>x. p x \<noteq> Inr False) xs"
  by (force simp: rfilterM_Inr_iff intro!: filter_cong)

lemma filter_default_exempt [filter_facts]:
  "filter_out_default_routes xs = Inr ys \<Longrightarrow> ys = filter (\<lambda>r. \<not> default_exempt r) xs"
  unfolding filter_out_default_routes_def
  by (drule rfilterM_drops) (auto simp: default_exempt_def rbind_eq_Inr intro!: filter_cong)

lemma filter_vnet_exempt [filter_facts]:
  "filter_out_vnet_routes env xs = Inr ys \<Longrightarrow> ys = filter (\<lambda>r. \<not> vnet_exempt env r) xs"
  by (auto simp: filter_out_vnet_routes_def vnet_exempt_def rbind_eq_Inr)

lemma filter_tunnel_exempt [filter_facts]:
  "filter_out_standalone_tunnel_routes env xs = Inr ys \<Longrightarrow> ys = filter (\<lambda>r. \<not> tunnel_exempt env r) xs"
  by (auto simp: filter_out_standalone_tunnel_routes_def tunnel_exempt_def rbind_eq_Inr Let_def
      dest: rfilterM_drops split: if_splits)

lemma filter_soc_exempt [filter_facts]:
  "filter_out_soc_ip_routes env xs = Inr ys \<Longrightarrow> ys = filter (\<lambda>r. \<not> soc_exempt env r) xs"
  by (auto simp: filter_out_soc_ip_routes_def soc_exempt_def rbind_eq_Inr Let_def split: if_splits)

lemma filter_local_exempt [filter_facts]:
  "filter_out_local_interfaces env xs = Inr ys \<Longrightarrow> ys = filter (\<lambda>r. \<not> local_exempt env r) xs"
  by (auto simp: filter_out_local_interfaces_def local_exempt_def rbind_eq_Inr dest: rfilterM_drops)

lemma filter_voq_exempt [filter_facts]:
  "filter_out_voq_neigh_routes env xs = Inr ys \<Longrightarrow> ys = filter (\<lambda>r. \<not> voq_exempt env r) xs"
  by (auto simp: filter_out_voq_neigh_routes_def voq_exempt_def dest: rfilterM_drops)

text \<open>What the check should report.\<close>

definition missed_routes :: "route_env \<Rightarrow> string multiset \<Rightarrow> string multiset \<Rightarrow> string multiset \<Rightarrow> string multiset" where
  "missed_routes env appl asic adds =
     filter_mset (\<lambda>r. \<not> local_exempt env r \<and> \<not> voq_exempt env r) (appl - asic) - adds"

definition unaccounted_routes ::
    "route_env \<Rightarrow> string multiset \<Rightarrow> string multiset \<Rightarrow> string multiset \<Rightarrow> string multiset \<Rightarrow> string multiset" where
  "unaccounted_routes env appl intf asic deletes =
     filter_mset (\<lambda>r. \<not> default_exempt r \<and> \<not> vnet_exempt env r \<and> \<not> tunnel_exempt env r \<and> \<not> soc_exempt env r)
       (asic - appl - intf) - deletes"

lemma filter_sorted_list_of_multiset:
  "filter P (sorted_list_of_multiset M) = sorted_list_of_multiset (filter_mset P M)"
  by (metis mset_filter mset_sorted_list_of_multiset sorted_list_of_multiset_mset sorted_sort_id
      sorted_sorted_list_of_multiset sorted_wrt_filter)

lemma sorted_reads:
  "get_route_entries env = Inr xs \<Longrightarrow> sorted xs" "get_routes env = Inr xs \<Longrightarrow> sorted xs"
  "get_interfaces env = Inr xs \<Longrightarrow> sorted xs"
  by (auto simp: get_route_entries_def get_routes_def get_interfaces_def rbind_eq_Inr)

lemma sorted_updates: "get_subscribe_updates env = Inr (adds, dels) \<Longrightarrow> sorted adds \<and> sorted dels"
  by (auto simp: get_subscribe_updates_def rbind_eq_Inr)

lemma verdict_ok: "fst (verdict xs ys zs) = 0 \<longleftrightarrow> xs = [] \<and> ys = [] \<and> zs = []"
  by (auto simp: verdict_def entry_if_def Let_def)

lemma diff_fst: "sorted t1 \<Longrightarrow> sorted t2 \<Longrightarrow> fst (diff_sorted_lists t1 t2) = sorted_list_of_multiset (mset t1 - mset t2)"
  by (simp add: diff_sorted_lists_exact)

lemma sorted_list_of_multiset_Nil [simp]: "sorted_list_of_multiset M = [] \<longleftrightarrow> M = {#}"
  by (metis mset_sorted_list_of_multiset mset_zero_iff)

text \<open>The report of a run that reads its tables: one read of every list, then the multisets.\<close>

lemma check_routes_report:
  assumes "get_route_entries env = Inr asic" and "get_routes env = Inr appl" and "get_interfaces env = Inr intf"
    and "get_subscribe_updates env = Inr (adds, deletes)" and "check_routes env = Inr r"
  shows "r = verdict (sorted_list_of_multiset (missed_routes env (mset appl) (mset asic) (mset adds)))
    (sorted_list_of_multiset (mset intf - mset asic))
    (sorted_list_of_multiset (unaccounted_routes env (mset appl) (mset intf) (mset asic) (mset deletes)))"
proof -
  note sorted = sorted_reads(1)[OF assms(1)] sorted_reads(2)[OF assms(2)] sorted_reads(3)[OF assms(3)]
  have upd: "sorted adds" "sorted deletes" using sorted_updates[OF assms(4)] by simp_all
  define extra0 where "extra0 = sorted_list_of_multiset (mset asic - mset appl - mset intf)"
  define missed0 where "missed0 = sorted_list_of_multiset (mset appl - mset asic)"
  note reads = assms(1-3) diff_sorted_lists_exact[OF sorted(2,1)] diff_sorted_lists_exact[OF sorted(3,1)]
    diff_sorted_lists_exact[OF sorted(3) sorted_sorted_list_of_multiset]
  have "rbind (filter_out_default_routes extra0) (\<lambda>e1. rbind (filter_out_vnet_routes env e1) (\<lambda>e2.
      rbind (filter_out_standalone_tunnel_routes env e2) (\<lambda>e3. rbind (filter_out_soc_ip_routes env e3) (\<lambda>e4.
      rbind (if missed0 \<noteq> [] then filter_out_local_interfaces env missed0 else Inr missed0) (\<lambda>m1.
      rbind (if m1 \<noteq> [] then filter_out_voq_neigh_routes env m1 else Inr m1) (\<lambda>m2.
      rbind (if m2 \<noteq> [] \<or> e4 \<noteq> [] then Inr (fst (diff_sorted_lists m2 adds), fst (diff_sorted_lists e4 deletes))
             else Inr (m2, e4)) (\<lambda>(m3, e5).
      Inr (verdict m3 (sorted_list_of_multiset (mset intf - mset asic)) e5)))))))) = Inr r"
    using assms(5) by (simp only: check_routes_def reads assms(4) rbind_Inr Let_def prod.case extra0_def missed0_def
      mset_sorted_list_of_multiset)
  then obtain e1 e2 e3 e4 m1 m2 p where
    f: "filter_out_default_routes extra0 = Inr e1" "filter_out_vnet_routes env e1 = Inr e2"
       "filter_out_standalone_tunnel_routes env e2 = Inr e3" "filter_out_soc_ip_routes env e3 = Inr e4"
    and m1: "(if missed0 \<noteq> [] then filter_out_local_interfaces env missed0 else Inr missed0) = Inr m1"
    and m2: "(if m1 \<noteq> [] then filter_out_voq_neigh_routes env m1 else Inr m1) = Inr m2"
    and u: "(if m2 \<noteq> [] \<or> e4 \<noteq> []
        then Inr (fst (diff_sorted_lists m2 adds), fst (diff_sorted_lists e4 deletes)) else Inr (m2, e4)) = (Inr p :: err + _)"
    and r: "(case p of (m3, e5) \<Rightarrow> Inr (verdict m3 (sorted_list_of_multiset (mset intf - mset asic)) e5)) = (Inr r :: err + _)"
    by (elim rbind_InrE)
  have "e4 = filter (\<lambda>r. \<not> default_exempt r \<and> \<not> vnet_exempt env r \<and>
      \<not> tunnel_exempt env r \<and> \<not> soc_exempt env r) extra0"
    using f(4)[THEN filter_soc_exempt] f(3)[THEN filter_tunnel_exempt] f(2)[THEN filter_vnet_exempt] f(1)[THEN filter_default_exempt]
    by (simp add: conj_ac)
  then have e4: "e4 = sorted_list_of_multiset (filter_mset (\<lambda>r. \<not> default_exempt r \<and> \<not> vnet_exempt env r \<and>
      \<not> tunnel_exempt env r \<and> \<not> soc_exempt env r) (mset asic - mset appl - mset intf))"
    by (simp only: extra0_def filter_sorted_list_of_multiset)
  have "m1 = filter (\<lambda>r. \<not> local_exempt env r) missed0"
    using m1 by (auto dest: filter_local_exempt split: if_splits)
  moreover have "m2 = filter (\<lambda>r. \<not> voq_exempt env r) m1"
    using m2 by (auto dest: filter_voq_exempt split: if_splits)
  ultimately have "m2 = filter (\<lambda>r. \<not> local_exempt env r \<and> \<not> voq_exempt env r) missed0"
    by (simp add: conj_commute)
  then have m2: "m2 = sorted_list_of_multiset
      (filter_mset (\<lambda>r. \<not> local_exempt env r \<and> \<not> voq_exempt env r) (mset appl - mset asic))"
    by (simp only: missed0_def filter_sorted_list_of_multiset)
  have "p = (fst (diff_sorted_lists m2 adds), fst (diff_sorted_lists e4 deletes))"
    using u upd by (auto simp: diff_fst split: if_splits)
  with r show ?thesis using upd by (simp add: diff_fst m2 e4 missed_routes_def unaccounted_routes_def)
qed

section \<open>Properties\<close>

text \<open>Of two sorted lists of prefixes, \<open>diff_sorted_lists\<close> returns the entries of the first that are
  not matched in the second and the entries of the second not matched in the first, each entry as often
  as it is unmatched, in order; the merge loop ends for all lists.\<close>

theorem diff_sorted_lists_spec:
  assumes "sorted t1" and "sorted t2"
  shows "diff_sorted_lists t1 t2 =
    (sorted_list_of_multiset (mset t1 - mset t2), sorted_list_of_multiset (mset t2 - mset t1))"
  using assms by (rule diff_sorted_lists_exact)

theorem diff_sorted_lists_spec_witness:
  "diff_sorted_lists [''10.0.0.0/8'', ''10.0.0.0/8'', ''20.0.0.0/8''] [''10.0.0.0/8'', ''30.0.0.0/8''] =
     ([''10.0.0.0/8'', ''20.0.0.0/8''], [''30.0.0.0/8''])"
  by (subst diff_sorted_lists_spec) code_simp+

text \<open>C7. The verdict of \<open>check_routes\<close>: the routes of APPL-DB not in ASIC-DB that no interface excuses
  and no late SET brings, the interface addresses not in ASIC-DB, and the routes of ASIC-DB that are
  neither in APPL-DB nor an interface address, not excused and not deleted late, each counted with its
  multiplicity; the run succeeds exactly when there is none.\<close>

theorem check_routes_spec:
  assumes "get_route_entries env = Inr asic" and "get_routes env = Inr appl" and "get_interfaces env = Inr intf"
    and "get_subscribe_updates env = Inr (adds, deletes)" and "check_routes env = Inr (ret, res)"
    and "missed = missed_routes env (mset appl) (mset asic) (mset adds)"
    and "extra = unaccounted_routes env (mset appl) (mset intf) (mset asic) (mset deletes)"
  shows "(ret = 0 \<longleftrightarrow> missed = {#} \<and> mset intf \<subseteq># mset asic \<and> extra = {#}) \<and>
    (ret, res) = verdict (sorted_list_of_multiset missed) (sorted_list_of_multiset (mset intf - mset asic))
      (sorted_list_of_multiset extra)"
proof -
  have v: "(ret, res) = verdict (sorted_list_of_multiset missed) (sorted_list_of_multiset (mset intf - mset asic))
      (sorted_list_of_multiset extra)"
    unfolding assms(6,7) by (rule check_routes_report[OF assms(1-5)])
  from v[symmetric] show ?thesis
    using verdict_ok[of "sorted_list_of_multiset missed" "sorted_list_of_multiset (mset intf - mset asic)"
        "sorted_list_of_multiset extra"] by (simp add: Diff_eq_empty_iff_mset)
qed

definition sample_env :: route_env where
  "sample_env = \<lparr>
     asic_pops = [(ASIC_KEY_PREFIX @ [CHR ''{'', CHR 0x22] @ ''dest'' @ [CHR 0x22, CHR '':'', CHR 0x22] @
                    ''10.0.0.0/8'' @ [CHR 0x22, CHR ''}''], ''SET'')],
     sub_start = 5000000,
     sub_rounds = [(5200000, [(ASIC_KEY_PREFIX @ [CHR ''{'', CHR 0x22] @ ''dest'' @ [CHR 0x22, CHR '':'', CHR 0x22] @
                    ''20.0.0.0/8'' @ [CHR 0x22, CHR ''}''], ''SET'')])],
     route_table = [(''10.0.0.0/8'', [(''ifname'', ''Ethernet0'')]), (''20.0.0.0/8'', [(''ifname'', ''Ethernet4'')]),
                    (''30.0.0.1'', [(''ifname'', ''Ethernet4'')])],
     intf_table = [], neigh_table = [], vnet_route_table = [], vnet_tunnel_table = [],
     cfg_metadata = [(''localhost'', [])], cfg_mux_cable = [], chassis_conf = None\<rparr>"

lemmas sample_eval = sample_env_def get_route_entries_def checkout_rt_entry_def popped_def to_lower_def is_local_def
  ASIC_KEY_PREFIX_def get_routes_def route_of_key_def is_vrf_def get_keys_def add_prefix_ifnot_def add_prefix_def
  get_interfaces_def get_subscribe_updates_def subscribe_rounds.simps wait_secs_def SUBSCRIBE_WAIT_SECS_def
  take_update_def

lemma sample_reads:
  "get_route_entries sample_env = Inr [''10.0.0.0/8'']"
  "get_routes sample_env = Inr [''10.0.0.0/8'', ''20.0.0.0/8'', ''30.0.0.1/32'']"
  "get_interfaces sample_env = Inr []"
  "get_subscribe_updates sample_env = Inr ([''20.0.0.0/8''], [])"
  by (simp_all add: sample_eval ip_eval str_simps)

lemma sample_fields:
  "route_table sample_env = [(''10.0.0.0/8'', [(''ifname'', ''Ethernet0'')]), (''20.0.0.0/8'', [(''ifname'', ''Ethernet4'')]),
     (''30.0.0.1'', [(''ifname'', ''Ethernet4'')])]"
  "vnet_route_table sample_env = []" "vnet_tunnel_table sample_env = []" "cfg_metadata sample_env = [(''localhost'', [])]"
  "chassis_conf sample_env = None"
  by (simp_all add: sample_env_def)

lemma sample_run: "check_routes sample_env = Inr (-1, Some [(''missed_ROUTE_TABLE_routes'', [''30.0.0.1/32''])])"
proof -
  have d: "diff_sorted_lists [''10.0.0.0/8'', ''20.0.0.0/8'', ''30.0.0.1/32''] [''10.0.0.0/8''] =
      ([''20.0.0.0/8'', ''30.0.0.1/32''], [])" "diff_sorted_lists [] [] = ([], [])"
    "diff_sorted_lists [] [''10.0.0.0/8''] = ([], [''10.0.0.0/8''])"
    "diff_sorted_lists [''20.0.0.0/8'', ''30.0.0.1/32''] [''20.0.0.0/8''] = ([''30.0.0.1/32''], [])"
    by code_simp+
  show ?thesis
    by (simp add: check_routes_def sample_reads d filter_out_default_routes_def filter_out_vnet_routes_def
        vnet_routes_def filter_out_standalone_tunnel_routes_def filter_out_soc_ip_routes_def)
       (simp add: sample_fields sample_reads is_dualtor_def field_or_def field_def to_lower_def get_keys_def
        filter_out_local_interfaces_def get_chassis_local_interfaces_def keep_local_def table_get_def re_match_def
        filter_out_voq_neigh_routes_def keep_voq_def field_req_def d verdict_def entry_if_def)
qed

theorem check_routes_spec_witness:
  "sorted_list_of_multiset (missed_routes sample_env {#''10.0.0.0/8'', ''20.0.0.0/8'', ''30.0.0.1/32''#}
     {#''10.0.0.0/8''#} {#''20.0.0.0/8''#}) = [''30.0.0.1/32'']"
  using check_routes_spec[OF sample_reads sample_run refl refl]
  by (auto simp: verdict_def entry_if_def Let_def split: if_splits)

text \<open>The wait for late updates ends with the first round in which the clock moved, however early in
  the second it comes, because \<open>int\<close> cuts the remaining fraction of a second to 0: later rounds
  are not read.\<close>

theorem subscribe_one_round:
  assumes "sub_rounds env = (now, ms) # rest" and "sub_start env < now"
  shows "get_subscribe_updates env =
    rbind (rfoldM take_update ([], []) (popped ms)) (\<lambda>(adds, deletes). Inr (sort adds, sort deletes))"
proof -
  have "\<not> 0 < wait_secs (sub_start env + 1000000 - now)"
    using assms(2) by (auto simp: wait_secs_def pos_imp_zdiv_nonneg_iff)
  then have "subscribe_rounds (sub_start env + 1000000) (wait_secs (sub_start env + 1000000 - now)) rest acc = Inr acc" for acc
    by (subst subscribe_rounds.simps) simp
  then have "subscribe_rounds (sub_start env + 1000000) 1 (sub_rounds env) ([], []) =
      rfoldM take_update ([], []) (popped ms)"
    unfolding assms(1) by (subst subscribe_rounds.simps) (cases "rfoldM take_update ([], []) (popped ms)"; simp)
  then show ?thesis by (simp add: get_subscribe_updates_def SUBSCRIBE_WAIT_SECS_def)
qed

theorem subscribe_one_round_witness:
  "get_subscribe_updates (sample_env\<lparr>sub_rounds := (5000010, []) # sub_rounds sample_env\<rparr>) = Inr ([], [])"
  using subscribe_one_round[of "sample_env\<lparr>sub_rounds := (5000010, []) # sub_rounds sample_env\<rparr>" 5000010 "[]"]
  by (simp add: sample_env_def popped_def)

text \<open>No IPv6 route is ever excused as a VNET route: the key is cut at every colon, so what is
  compared holds none.\<close>

theorem vnet_never_exempts_ipv6:
  assumes "filter_out_vnet_routes env routes = Inr kept" and "r \<in> set routes" and "CHR '':'' \<in> set r"
  shows "r \<in> set kept"
proof -
  have "CHR '':'' \<notin> set v" if "vnet_route k = Inr v" for k v
    using that split_on_pieces[of v "CHR '':''" k] by (auto simp: vnet_route_def split: list.splits)
  then have "\<not> vnet_exempt env r"
    using assms(3) by (auto simp: vnet_exempt_def vnet_routes_def rmapM_Inr_iff list_all2_conv_all_nth in_set_conv_nth
        split: sum.splits)
  with filter_vnet_exempt[OF assms(1)] assms(2) show ?thesis by simp
qed

theorem vnet_never_exempts_ipv6_witness:
  "''2001:db8::/32'' \<in> set [''2001:db8::/32'', ''30.0.0.0/8'']"
  using vnet_never_exempts_ipv6[of "sample_env\<lparr>vnet_route_table := [(''Vnet1:2001:db8::/32'', []), (''Vnet1:10.0.0.0/8'', [])]\<rparr>"
      "[''2001:db8::/32'', ''10.0.0.0/8'', ''30.0.0.0/8'']"]
  by (simp add: filter_out_vnet_routes_def vnet_routes_def vnet_route_def get_keys_def sample_env_def)

lemma clip_args_take: "length msg \<le> 1000 \<Longrightarrow> clip_args msg args = take 1000 (msg @ concat args)"
proof (induction args arbitrary: msg)
  case (Cons a args)
  show ?case
  proof (cases "length msg = 1000")
    case False
    have "nat (1000 - int (length msg)) = 1000 - length msg" by simp
    with False Cons.prems have "clip_args msg (a # args) = clip_args (msg @ take (1000 - length msg) a) args"
      by (simp only: clip_args.simps PRINT_MSG_LEN_MAX_def Let_def) auto
    also have "\<dots> = take 1000 ((msg @ take (1000 - length msg) a) @ concat args)"
      using Cons by (intro Cons.IH) simp
    also have "\<dots> = take 1000 (msg @ concat (a # args))" using Cons.prems by (simp add: min_def)
    finally show ?thesis .
  qed (simp add: PRINT_MSG_LEN_MAX_def)
qed simp

text \<open>A message is the text of its arguments cut to 1000 characters, and empty below the level.\<close>

theorem print_message_bounded:
  "length (print_message c lvl args) \<le> 1000 \<and>
   print_message c lvl args = (if lvl \<le> report_level c then take 1000 (concat args) else [])"
  by (simp add: print_message_def clip_args_take)

lemma scan_interval_bounds: "scan_interval False arg = (if arg = 0 then 0 else max 10 (min 3600 arg))"
  by (simp add: scan_interval_def MIN_SCAN_INTERVAL_def MAX_SCAN_INTERVAL_def)

end
