(* ===== verification/PkgVersion.thy ===== *)
theory PkgVersion
  imports JsonLibs
begin

text \<open>
  Versions, version constraints and package references of the SONiC package manager
  (\<open>sonic_package_manager/version.py\<close>, \<open>constraint.py\<close>, \<open>reference.py\<close> and the two functions of
  \<open>manager.py\<close> that read a package expression). The package \<open>semantic_version\<close> is third-party code:
  it is the parameter \<open>semver\<close> of the definitions, and \<open>semver_ok\<close> is what its documentation
  promises of printing and parsing.
\<close>

section \<open>The library \<open>semantic_version\<close>\<close>

text \<open>
  \<open>c_clause\<close> is the operator and the target of a constraint that is a single comparison, and
  \<open>None\<close> for a constraint whose clause has no \<open>target\<close>.
\<close>

record ('v, 'c) semver =
  v_parse :: "string \<Rightarrow> err + 'v"
  v_str :: "'v \<Rightarrow> string"
  v_major :: "'v \<Rightarrow> nat"
  v_minor :: "'v \<Rightarrow> nat"
  v_less :: "'v \<Rightarrow> 'v \<Rightarrow> bool"
  c_parse :: "string \<Rightarrow> err + 'c"
  c_str :: "'c \<Rightarrow> string"
  c_expression :: "'c \<Rightarrow> string"
  c_match :: "'c \<Rightarrow> 'v \<Rightarrow> bool"
  c_clause :: "'c \<Rightarrow> (string \<times> 'v) option"

definition semver_ok :: "('v, 'c) semver \<Rightarrow> bool" where
  "semver_ok sv \<longleftrightarrow>
     (\<forall>v. v_parse sv (v_str sv v) = Inr v \<and> CHR ''_'' \<notin> set (v_str sv v) \<and> v_str sv v \<noteq> []) \<and>
     (\<forall>c. c_parse sv (c_str sv c) = Inr c \<and> c_str sv c \<noteq> [])"

lemma semver_okD:
  assumes "semver_ok sv"
  shows "v_parse sv (v_str sv v) = Inr v" "CHR ''_'' \<notin> set (v_str sv v)" "v_str sv v \<noteq> []"
    "c_parse sv (c_str sv c) = Inr c" "c_str sv c \<noteq> []"
  using assms by (auto simp: semver_ok_def)

section \<open>Versions and tags\<close>

definition version_to_tag :: "('v, 'c) semver \<Rightarrow> 'v \<Rightarrow> string" where
  "version_to_tag sv ver = replace_char CHR ''+'' ''_'' (v_str sv ver)"

definition tag_to_version :: "('v, 'c) semver \<Rightarrow> string \<Rightarrow> err + 'v" where
  "tag_to_version sv tag = v_parse sv (replace_char CHR ''_'' ''+'' tag)"

section \<open>Constraints\<close>

definition allows :: "('v, 'c) semver \<Rightarrow> 'c \<Rightarrow> 'v \<Rightarrow> bool" where
  "allows sv c v = c_match sv c v"

definition is_exact :: "('v, 'c) semver \<Rightarrow> 'c \<Rightarrow> bool" where
  "is_exact sv c = (case c_clause sv c of None \<Rightarrow> False | Some (operator, _) \<Rightarrow> operator = ''=='')"

definition get_exact_version :: "('v, 'c) semver \<Rightarrow> 'c \<Rightarrow> err + 'v" where
  "get_exact_version sv c = (case c_clause sv c of None \<Rightarrow> Inl AttributeError | Some (_, target) \<Rightarrow> Inr target)"

text \<open>A component constraint read from a value that is no string raises as \<open>SimpleSpec\<close> does.\<close>

definition constraint_of_json :: "('v, 'c) semver \<Rightarrow> json \<Rightarrow> err + 'c" where
  "constraint_of_json sv v = (case v of JStr s \<Rightarrow> c_parse sv s | _ \<Rightarrow> Inl AttributeError)"

type_synonym 'c components = "(string \<times> 'c) list"

definition components_parse :: "('v, 'c) semver \<Rightarrow> json \<Rightarrow> err + 'c components" where
  "components_parse sv constraints = (case constraints of
     JObj d \<Rightarrow> rmapM (\<lambda>(component, version). rbind (constraint_of_json sv version) (\<lambda>c. Inr (component, c))) d
   | _ \<Rightarrow> Inl AttributeError)"

definition components_deparse :: "('v, 'c) semver \<Rightarrow> 'c components \<Rightarrow> json" where
  "components_deparse sv cs = JObj (map (\<lambda>(component, version). (component, JStr (c_str sv version))) cs)"

text \<open>The name of a constraint read from a dictionary is not checked: it is whatever the document holds.\<close>

record 'c pkg_constraint =
  pc_name :: json
  pc_constraint :: 'c
  pc_components :: "'c components"

definition name_char :: "char \<Rightarrow> bool" where
  "name_char c \<longleftrightarrow> is_digit c \<or> c \<in> {CHR ''_'', CHR ''-''} \<or>
     (let n = of_char c :: nat in (65 \<le> n \<and> n \<le> 90) \<or> (97 \<le> n \<and> n \<le> 122))"

text \<open>\<open>.*\<close> stops at a line end.\<close>

definition re_rest :: "string \<Rightarrow> string" where
  "re_rest s = takeWhile (\<lambda>c. c \<noteq> CHR 0x0A) s"

definition constraint_from_string :: "('v, 'c) semver \<Rightarrow> string \<Rightarrow> err + 'c pkg_constraint" where
  "constraint_from_string sv s =
     (let name = takeWhile name_char s; rest = re_rest (dropWhile name_char s) in
      if name = [] then Inl ValueError
      else rbind (c_parse sv (if rest = [] then ''*'' else rest)) (\<lambda>c.
        Inr \<lparr>pc_name = JStr name, pc_constraint = c, pc_components = []\<rparr>))"

definition get_or :: "dict \<Rightarrow> string \<Rightarrow> json \<Rightarrow> json" where
  "get_or d k v = (case map_of d k of None \<Rightarrow> v | Some w \<Rightarrow> w)"

definition constraint_from_dict :: "('v, 'c) semver \<Rightarrow> dict \<Rightarrow> err + 'c pkg_constraint" where
  "constraint_from_dict sv d =
     rbind (case map_of d ''name'' of None \<Rightarrow> Inl KeyError | Some n \<Rightarrow> Inr n) (\<lambda>name.
     rbind (constraint_of_json sv (let v = get_or d ''version'' JNull in if \<not> py_truthy v then JStr ''*'' else v)) (\<lambda>c.
     rbind (components_parse sv (get_or d ''components'' (JObj []))) (\<lambda>cs.
       Inr \<lparr>pc_name = name, pc_constraint = c, pc_components = cs\<rparr>)))"

definition constraint_parse :: "('v, 'c) semver \<Rightarrow> json \<Rightarrow> err + 'c pkg_constraint" where
  "constraint_parse sv v = (case v of
     JStr s \<Rightarrow> constraint_from_string sv s
   | JObj d \<Rightarrow> constraint_from_dict sv d
   | _ \<Rightarrow> Inl ValueError)"

definition constraint_deparse :: "('v, 'c) semver \<Rightarrow> 'c pkg_constraint \<Rightarrow> json" where
  "constraint_deparse sv p =
     JObj [(''name'', pc_name p), (''version'', JStr (c_str sv (pc_constraint p))),
           (''components'', components_deparse sv (pc_components p))]"

section \<open>References\<close>

record pkg_reference =
  ref_name :: json
  ref_reference :: "string option"

definition reference_parse :: "string \<Rightarrow> err + pkg_reference" where
  "reference_parse s =
     (let name = takeWhile name_char s in
      case dropWhile name_char s of
        c # rest \<Rightarrow>
          if name \<noteq> [] \<and> c = CHR ''@'' then Inr \<lparr>ref_name = JStr name, ref_reference = Some (re_rest rest)\<rparr>
          else Inl ValueError
      | [] \<Rightarrow> Inl ValueError)"

definition package_constraint_to_reference :: "('v, 'c) semver \<Rightarrow> 'c pkg_constraint \<Rightarrow> err + pkg_reference" where
  "package_constraint_to_reference sv p =
     (let c = pc_constraint p in
      if c_expression sv c = ''*'' then Inr \<lparr>ref_name = pc_name p, ref_reference = None\<rparr>
      else if \<not> is_exact sv c then Inl PackageManagerError
      else rbind (get_exact_version sv c) (\<lambda>v.
        Inr \<lparr>ref_name = pc_name p, ref_reference = Some (version_to_tag sv v)\<rparr>))"

definition parse_reference_expression :: "('v, 'c) semver \<Rightarrow> string \<Rightarrow> err + pkg_reference" where
  "parse_reference_expression sv s =
     (let r = rbind (constraint_parse sv (JStr s)) (package_constraint_to_reference sv) in
      if r = Inl ValueError then reference_parse s else r)"

section \<open>Lemmas\<close>

lemma replace_char_back: "d \<notin> set s \<Longrightarrow> replace_char d [c] (replace_char c [d] s) = s"
  by (induction s) (auto simp: replace_char_def)

lemma tag_roundtrip: "semver_ok sv \<Longrightarrow> tag_to_version sv (version_to_tag sv v) = Inr v"
  by (simp add: tag_to_version_def version_to_tag_def replace_char_back semver_okD)

lemma components_roundtrip: "semver_ok sv \<Longrightarrow> components_parse sv (components_deparse sv cs) = Inr cs"
  by (induction cs) (auto simp: components_parse_def components_deparse_def constraint_of_json_def semver_okD)

lemma constraint_roundtrip: "semver_ok sv \<Longrightarrow> constraint_parse sv (constraint_deparse sv p) = Inr p"
  by (simp add: constraint_parse_def constraint_deparse_def constraint_from_dict_def get_or_def Let_def
      components_roundtrip constraint_of_json_def semver_okD)

lemma takeWhile_name:
  "list_all name_char n \<Longrightarrow> rest = [] \<or> \<not> name_char (hd rest) \<Longrightarrow>
   takeWhile name_char (n @ rest) = n \<and> dropWhile name_char (n @ rest) = rest"
  by (induction n) (cases rest; auto)+

section \<open>Expressions\<close>

text \<open>What the library documents of the expressions the package manager builds or accepts.\<close>

definition semver_expr_ok :: "('v, 'c) semver \<Rightarrow> bool" where
  "semver_expr_ok sv \<longleftrightarrow>
     (case c_parse sv ''*'' of Inl _ \<Rightarrow> False | Inr c \<Rightarrow> c_expression sv c = ''*'') \<and>
     (\<forall>v. CHR 0x0A \<notin> set (v_str sv v) \<and>
        (case c_parse sv (CHR ''='' # v_str sv v) of
           Inl _ \<Rightarrow> False | Inr c \<Rightarrow> c_expression sv c \<noteq> ''*'' \<and> c_clause sv c = Some (''=='', v))) \<and>
     (\<forall>r. c_parse sv (CHR ''@'' # r) = Inl ValueError)"

text \<open>A package expression is a name (the default or installed version is meant), a name and an exact
  version (its tag is meant), or a name and a tag or digest after \<open>@\<close>; the tag of a version reads back as
  the version.\<close>

theorem reference_expression_spec:
  assumes "semver_ok sv" and "semver_expr_ok sv" and "n \<noteq> []" and "list_all name_char n"
    and "CHR 0x0A \<notin> set r"
  shows "parse_reference_expression sv n = Inr \<lparr>ref_name = JStr n, ref_reference = None\<rparr> \<and>
    parse_reference_expression sv (n @ CHR ''='' # v_str sv v) =
      Inr \<lparr>ref_name = JStr n, ref_reference = Some (version_to_tag sv v)\<rparr> \<and>
    parse_reference_expression sv (n @ CHR ''@'' # r) = Inr \<lparr>ref_name = JStr n, ref_reference = Some r\<rparr> \<and>
    tag_to_version sv (version_to_tag sv v) = Inr v"
proof -
  have nc: "\<not> name_char CHR ''=''" "\<not> name_char CHR ''@''" by (simp_all add: name_char_def is_digit_def)
  have "takeWhile name_char n = n" "dropWhile name_char n = []"
    using takeWhile_name[OF assms(4), of "[]"] by simp_all
  note tw = this takeWhile_name[OF assms(4), of "CHR ''='' # v_str sv v"]
    takeWhile_name[OF assms(4), of "CHR ''@'' # r"]
  have rest: "CHR 0x0A \<notin> set s \<Longrightarrow> re_rest s = s" for s by (simp add: re_rest_def takeWhile_eq_all_conv) blast
  obtain star where star: "c_parse sv ''*'' = Inr star" "c_expression sv star = ''*''"
    using assms(2) by (auto simp: semver_expr_ok_def split: sum.splits)
  obtain e where e: "c_parse sv (CHR ''='' # v_str sv v) = Inr e" "c_expression sv e \<noteq> ''*''"
      "c_clause sv e = Some (''=='', v)"
    using assms(2) by (cases "c_parse sv (CHR ''='' # v_str sv v)") (auto simp: semver_expr_ok_def split: sum.splits)
  have nl: "CHR 0x0A \<notin> set (v_str sv v)" and at: "\<And>r. c_parse sv (CHR ''@'' # r) = Inl ValueError"
    using assms(2) by (auto simp: semver_expr_ok_def)
  have "parse_reference_expression sv n = Inr \<lparr>ref_name = JStr n, ref_reference = None\<rparr>"
    using assms(3) star by (simp add: tw parse_reference_expression_def constraint_parse_def constraint_from_string_def
        package_constraint_to_reference_def re_rest_def Let_def)
  moreover have "parse_reference_expression sv (n @ CHR ''='' # v_str sv v) =
      Inr \<lparr>ref_name = JStr n, ref_reference = Some (version_to_tag sv v)\<rparr>"
    using assms(3) nc e nl by (simp add: tw parse_reference_expression_def constraint_parse_def constraint_from_string_def
        package_constraint_to_reference_def rest is_exact_def get_exact_version_def Let_def)
  moreover have "parse_reference_expression sv (n @ CHR ''@'' # r) = Inr \<lparr>ref_name = JStr n, ref_reference = Some r\<rparr>"
    using assms(3,5) nc at by (simp add: tw parse_reference_expression_def constraint_parse_def constraint_from_string_def
        reference_parse_def rest Let_def)
  ultimately show ?thesis using tag_roundtrip[OF assms(1)] by simp
qed

section \<open>A sample library\<close>

text \<open>Versions are major numbers; a constraint is any version or an exact one.\<close>

definition sample_v_parse :: "string \<Rightarrow> err + nat" where
  "sample_v_parse s = (let major = takeWhile (\<lambda>c. c \<noteq> CHR ''.'') s in
     if py_isdigit major then Inr (the (digits_nat 0 major)) else Inl ValueError)"

fun sample_c_parse :: "string \<Rightarrow> err + nat option" where
  "sample_c_parse [] = Inl ValueError"
| "sample_c_parse (c # s) =
     (if c = CHR ''*'' then Inr None
      else if c = CHR ''='' then rbind (sample_v_parse s) (\<lambda>v. Inr (Some v))
      else if c = CHR ''^'' then rbind (sample_v_parse s) (\<lambda>v. Inr (Some v))
      else Inl ValueError)"

fun sample_c_str :: "nat option \<Rightarrow> string" where
  "sample_c_str None = ''*''"
| "sample_c_str (Some v) = CHR ''='' # nat_str v"

definition sample_semver :: "(nat, nat option) semver" where
  "sample_semver = \<lparr>v_parse = sample_v_parse, v_str = nat_str, v_major = (\<lambda>v. v), v_minor = (\<lambda>v. 0), v_less = (<),
     c_parse = sample_c_parse, c_str = sample_c_str, c_expression = sample_c_str,
     c_match = (\<lambda>c v. c = None \<or> c = Some v),
     c_clause = (\<lambda>c. case c of None \<Rightarrow> None | Some v \<Rightarrow> Some (''=='', v))\<rparr>"

lemma nat_str_ne: "nat_str n \<noteq> []"
  by (subst nat_str.simps) simp

lemma nat_str_no: "\<not> is_digit c \<Longrightarrow> c \<notin> set (nat_str n)"
  using nat_str_digits[of n] by (auto simp: list_all_iff)

lemma sample_v_parse_str: "sample_v_parse (nat_str n) = Inr n"
proof -
  have "takeWhile (\<lambda>c. c \<noteq> CHR ''.'') (nat_str n) = nat_str n"
    using nat_str_no[of "CHR ''.''" n] by (simp add: takeWhile_eq_all_conv is_digit_def) blast
  then show ?thesis
    by (simp only: sample_v_parse_def Let_def) (simp add: py_isdigit_def nat_str_ne nat_str_digits digits_nat_str)
qed

lemma sample_c_parse_str: "sample_c_parse (sample_c_str c) = Inr c"
  by (cases c) (simp_all add: sample_v_parse_str)

lemma sample_semver_ok: "semver_ok sample_semver"
proof -
  have "sample_c_str c \<noteq> []" for c by (cases c) simp_all
  then show ?thesis
    by (simp add: semver_ok_def sample_semver_def nat_str_ne sample_v_parse_str sample_c_parse_str nat_str_no is_digit_def)
qed

lemma sample_semver_expr_ok: "semver_expr_ok sample_semver"
  by (simp add: semver_expr_ok_def sample_semver_def sample_v_parse_str nat_str_no is_digit_def)

theorem reference_expression_spec_witness:
  "parse_reference_expression sample_semver ''dhcp-relay=12'' =
     Inr \<lparr>ref_name = JStr ''dhcp-relay'', ref_reference = Some ''12''\<rparr>"
proof -
  have n: "nat_str 12 = ''12''" by code_simp
  have "list_all name_char ''dhcp-relay''" by code_simp
  from reference_expression_spec[OF sample_semver_ok sample_semver_expr_ok _ this, of "''latest''" 12] n show ?thesis
    by (simp add: sample_semver_def version_to_tag_def replace_char_def)
qed

end
