(* ===== verification/PkgManifest.thy ===== *)
theory PkgManifest
  imports PkgVersion
begin

text \<open>
  The manifest of a package (\<open>sonic_package_manager/manifest.py\<close>): the schema with its marshallers,
  reading a document through it and writing it back. A missing value and a JSON null are the same
  to the code (\<open>dict.get\<close>): both are \<open>JNull\<close>. \<open>conforms\<close> is the type of the values the schema
  describes.
\<close>

section \<open>Values and schemas\<close>

datatype ('v, 'c) mval =
    MJson json
  | MVersion 'v
  | MComps "'c components"
  | MPackage "'c pkg_constraint"
  | MList "('v, 'c) mval list"
  | MNode "(string \<times> ('v, 'c) mval) list"

datatype marshaller =
    ParsedVersion | ParsedComponents | ParsedPackage
  | DefaultStr | DefaultBool | DefaultDict

datatype ('v, 'c) schema =
    Leaf marshaller
  | ManifestRoot string "('v, 'c) schema list"
  | ManifestField string marshaller "('v, 'c) mval option"
  | ManifestArray string "('v, 'c) schema"

fun skey :: "('v, 'c) schema \<Rightarrow> string" where
  "skey (Leaf _) = ''''"
| "skey (ManifestRoot k _) = k"
| "skey (ManifestField k _ _) = k"
| "skey (ManifestArray k _) = k"

definition map_error :: "(err \<Rightarrow> err) \<Rightarrow> err + 'a \<Rightarrow> err + 'a" where
  "map_error f r = (case r of Inl e \<Rightarrow> Inl (f e) | Inr x \<Rightarrow> Inr x)"

definition parsed :: "('a \<Rightarrow> 'b) \<Rightarrow> err + 'a \<Rightarrow> err + 'b" where
  "parsed mk r = map_error (\<lambda>e. if e = ValueError then ManifestError else e) (rbind r (\<lambda>x. Inr (mk x)))"

fun leaf_marshal :: "('v, 'c) semver \<Rightarrow> marshaller \<Rightarrow> json \<Rightarrow> err + ('v, 'c) mval" where
  "leaf_marshal sv ParsedVersion v = parsed MVersion (case v of JStr s \<Rightarrow> v_parse sv s | _ \<Rightarrow> Inl TypeError)"
| "leaf_marshal sv ParsedComponents v = parsed MComps (components_parse sv v)"
| "leaf_marshal sv ParsedPackage v = parsed MPackage (constraint_parse sv v)"
| "leaf_marshal sv DefaultStr v = (case v of JStr _ \<Rightarrow> Inr (MJson v) | _ \<Rightarrow> Inl ManifestError)"
| "leaf_marshal sv DefaultBool v = (case v of JBool _ \<Rightarrow> Inr (MJson v) | _ \<Rightarrow> Inl ManifestError)"
| "leaf_marshal sv DefaultDict v = (case v of JObj _ \<Rightarrow> Inr (MJson v) | _ \<Rightarrow> Inl ManifestError)"

text \<open>The marshallers of parsed types write whatever value they get: \<open>deparse\<close> where it has one.\<close>

fun leaf_unmarshal :: "('v, 'c) semver \<Rightarrow> ('v, 'c) mval \<Rightarrow> err + json" where
  "leaf_unmarshal sv (MVersion v) = Inr (JStr (v_str sv v))"
| "leaf_unmarshal sv (MComps cs) = Inr (components_deparse sv cs)"
| "leaf_unmarshal sv (MPackage p) = Inr (constraint_deparse sv p)"
| "leaf_unmarshal sv (MJson j) = Inr j"
| "leaf_unmarshal sv _ = Inl ManifestError"

definition py_or :: "json \<Rightarrow> json \<Rightarrow> json" where
  "py_or v w = (if py_truthy v then v else w)"

fun marshal :: "('v, 'c) semver \<Rightarrow> ('v, 'c) schema \<Rightarrow> json \<Rightarrow> err + ('v, 'c) mval" where
  "marshal sv (Leaf m) value = leaf_marshal sv m value"
| "marshal sv (ManifestRoot key items) value =
     (case py_or value (JObj []) of
        JObj d \<Rightarrow>
          rbind (rmapM (\<lambda>item. rbind (marshal sv item (get_or d (skey item) JNull)) (\<lambda>r. Inr (skey item, r))) items)
            (\<lambda>result. Inr (MNode result))
      | _ \<Rightarrow> Inl ManifestError)"
| "marshal sv (ManifestField key type dflt) value =
     (if value = JNull
      then (case dflt of Some d \<Rightarrow> Inr d | None \<Rightarrow> Inl ManifestError)
      else map_error (\<lambda>_. ManifestError) (leaf_marshal sv type value))"
| "marshal sv (ManifestArray key type) value =
     (case py_or value (JArr []) of
        JArr xs \<Rightarrow> map_error (\<lambda>_. ManifestError) (rbind (rmapM (marshal sv type) xs) (\<lambda>rs. Inr (MList rs)))
      | _ \<Rightarrow> Inl ManifestError)"

definition mget :: "('v, 'c) mval \<Rightarrow> string \<Rightarrow> err + ('v, 'c) mval" where
  "mget m k = (case m of
     MNode rs \<Rightarrow> (case map_of rs k of None \<Rightarrow> Inl KeyError | Some v \<Rightarrow> Inr v)
   | _ \<Rightarrow> Inl TypeError)"

fun unmarshal :: "('v, 'c) semver \<Rightarrow> ('v, 'c) schema \<Rightarrow> ('v, 'c) mval \<Rightarrow> err + json" where
  "unmarshal sv (Leaf _) value = leaf_unmarshal sv value"
| "unmarshal sv (ManifestRoot key items) value =
     rbind (rmapM (\<lambda>item. rbind (mget value (skey item)) (\<lambda>v. rbind (unmarshal sv item v) (\<lambda>j. Inr (skey item, j)))) items)
       (\<lambda>result. Inr (JObj result))"
| "unmarshal sv (ManifestField key _ _) value = leaf_unmarshal sv value"
| "unmarshal sv (ManifestArray key type) value =
     (case value of
        MList vs \<Rightarrow> rbind (rmapM (unmarshal sv type) vs) (\<lambda>js. Inr (JArr js))
      | _ \<Rightarrow> Inl TypeError)"

section \<open>The schema of a manifest\<close>

abbreviation text_list :: "string \<Rightarrow> ('v, 'c) schema" where
  "text_list k \<equiv> ManifestArray k (Leaf DefaultStr)"

abbreviation text_field :: "string \<Rightarrow> ('v, 'c) schema" where
  "text_field k \<equiv> ManifestField k DefaultStr None"

abbreviation text_default :: "string \<Rightarrow> ('v, 'c) schema" where
  "text_default k \<equiv> ManifestField k DefaultStr (Some (MJson (JStr '''')))"

abbreviation bool_default :: "string \<Rightarrow> bool \<Rightarrow> ('v, 'c) schema" where
  "bool_default k b \<equiv> ManifestField k DefaultBool (Some (MJson (JBool b)))"

abbreviation dict_default :: "string \<Rightarrow> ('v, 'c) schema" where
  "dict_default k \<equiv> ManifestField k DefaultDict (Some (MJson (JObj [])))"

definition shutdown_schema :: "string \<Rightarrow> ('v, 'c) schema" where
  "shutdown_schema k = ManifestRoot k [text_list ''after'', text_list ''before'']"

definition package_schema :: "('v, 'c) schema" where
  "package_schema = ManifestRoot ''package''
     [ManifestField ''version'' ParsedVersion None,
      text_field ''name'', text_default ''description'',
      ManifestField ''base-os'' ParsedComponents (Some (MComps [])),
      ManifestArray ''depends'' (Leaf ParsedPackage), ManifestArray ''breaks'' (Leaf ParsedPackage),
      dict_default ''init-cfg'', dict_default ''changelog'', text_default ''debug-dump'']"

definition service_schema :: "('v, 'c) schema" where
  "service_schema = ManifestRoot ''service''
     [text_field ''name'',
      text_list ''requires'', text_list ''requisite'', text_list ''wanted-by'', text_list ''after'', text_list ''before'',
      text_list ''dependent'', text_list ''dependent-of'',
      text_default ''post-start-action'', text_default ''pre-shutdown-action'',
      bool_default ''asic-service'' False, bool_default ''host-service'' True, bool_default ''delayed'' False,
      bool_default ''check_up_status'' False,
      shutdown_schema ''warm-shutdown'', shutdown_schema ''fast-shutdown'',
      ManifestRoot ''syslog'' [bool_default ''support-rate-limit'' False]]"

definition container_schema :: "('v, 'c) schema" where
  "container_schema = ManifestRoot ''container''
     [bool_default ''privileged'' False, text_list ''volumes'',
      ManifestArray ''mounts'' (ManifestRoot ''mounts'' [text_field ''source'', text_field ''target'', text_field ''type'']),
      dict_default ''environment'', text_list ''tmpfs'']"

definition cli_schema :: "('v, 'c) schema" where
  "cli_schema = ManifestRoot ''cli''
     [bool_default ''mandatory'' False, text_default ''show'', text_default ''config'', text_default ''clear'',
      bool_default ''auto-generate-show'' False, bool_default ''auto-generate-config'' False]"

text \<open>The argument is the default of the field \<open>version\<close>, \<open>Version.parse('1.0.0')\<close>.\<close>

definition manifest_schema :: "'v \<Rightarrow> ('v, 'c) schema" where
  "manifest_schema v1 = ManifestRoot ''root''
     [ManifestField ''version'' ParsedVersion (Some (MVersion v1)),
      package_schema, service_schema, container_schema,
      ManifestArray ''processes'' (ManifestRoot ''processes'' [text_field ''name'', bool_default ''reconciles'' False]),
      cli_schema]"

definition manifest_marshal :: "('v, 'c) semver \<Rightarrow> json \<Rightarrow> err + ('v, 'c) mval" where
  "manifest_marshal sv input = rbind (v_parse sv ''1.0.0'') (\<lambda>v1. marshal sv (manifest_schema v1) input)"

definition manifest_unmarshal :: "('v, 'c) semver \<Rightarrow> ('v, 'c) mval \<Rightarrow> err + json" where
  "manifest_unmarshal sv m = rbind (v_parse sv ''1.0.0'') (\<lambda>v1. unmarshal sv (manifest_schema v1) m)"

section \<open>The type of a manifest\<close>

fun leaf_ok :: "marshaller \<Rightarrow> ('v, 'c) mval \<Rightarrow> bool" where
  "leaf_ok ParsedVersion (MVersion _) = True"
| "leaf_ok ParsedComponents (MComps _) = True"
| "leaf_ok ParsedPackage (MPackage _) = True"
| "leaf_ok DefaultStr (MJson (JStr _)) = True"
| "leaf_ok DefaultBool (MJson (JBool _)) = True"
| "leaf_ok DefaultDict (MJson (JObj _)) = True"
| "leaf_ok _ _ = False"

fun conforms :: "('v, 'c) schema \<Rightarrow> ('v, 'c) mval \<Rightarrow> bool" where
  "conforms (Leaf m) v = leaf_ok m v"
| "conforms (ManifestField _ m _) v = leaf_ok m v"
| "conforms (ManifestArray _ s) v = (case v of MList vs \<Rightarrow> (\<forall>x \<in> set vs. conforms s x) | _ \<Rightarrow> False)"
| "conforms (ManifestRoot _ items) v = (case v of
     MNode rs \<Rightarrow> map fst rs = map skey items \<and>
       (\<forall>item \<in> set items. case map_of rs (skey item) of None \<Rightarrow> False | Some x \<Rightarrow> conforms item x)
   | _ \<Rightarrow> False)"

text \<open>A schema is well formed when its keys are distinct and its defaults have the type of their field.\<close>

fun schema_ok :: "('v, 'c) schema \<Rightarrow> bool" where
  "schema_ok (Leaf _) = True"
| "schema_ok (ManifestField _ m d) = (case d of None \<Rightarrow> True | Some v \<Rightarrow> leaf_ok m v)"
| "schema_ok (ManifestArray _ s) = schema_ok s"
| "schema_ok (ManifestRoot _ items) = (distinct (map skey items) \<and> (\<forall>item \<in> set items. schema_ok item))"

lemma parsed_Inr: "parsed mk r = Inr y \<longleftrightarrow> (\<exists>x. r = Inr x \<and> y = mk x)"
  by (cases r) (auto simp: parsed_def map_error_def)

lemma map_error_Inr [simp]: "map_error f r = Inr y \<longleftrightarrow> r = Inr y"
  by (cases r) (auto simp: map_error_def)

lemma leaf_marshal_ok: "leaf_marshal sv m v = Inr x \<Longrightarrow> leaf_ok m x"
  by (cases m) (auto simp: parsed_Inr split: json.splits)

lemma deparse_not_null: "components_deparse sv cs \<noteq> JNull" "constraint_deparse sv p \<noteq> JNull"
  by (simp_all add: components_deparse_def constraint_deparse_def)

lemma leaf_roundtrip:
  "semver_ok sv \<Longrightarrow> leaf_ok m x \<Longrightarrow> \<exists>j. leaf_unmarshal sv x = Inr j \<and> j \<noteq> JNull \<and> leaf_marshal sv m j = Inr x"
  by (induction m x rule: leaf_ok.induct)
     (auto simp: parsed_Inr semver_okD components_roundtrip constraint_roundtrip deparse_not_null)

lemma rmapM_keyed:
  assumes "rmapM (\<lambda>x. rbind (f x) (\<lambda>r. Inr (k x, r))) xs = Inr rs"
  shows "map fst rs = map k xs" and "distinct (map k xs) \<Longrightarrow> x \<in> set xs \<Longrightarrow> \<exists>r. f x = Inr r \<and> map_of rs (k x) = Some r"
  using assms by (induction xs arbitrary: rs) (auto simp: rbind_eq_Inr image_iff)

lemma marshal_conforms:
  "schema_ok s \<Longrightarrow> marshal sv s v = Inr m \<Longrightarrow> conforms s m"
proof (induction s arbitrary: v m)
  case (ManifestRoot key items)
  from ManifestRoot.prems obtain d rs where
    rs: "rmapM (\<lambda>item. rbind (marshal sv item (get_or d (skey item) JNull)) (\<lambda>r. Inr (skey item, r))) items = Inr rs"
    and m: "m = MNode rs"
    by (auto simp: rbind_eq_Inr split: json.splits)
  have "\<exists>x. map_of rs (skey item) = Some x \<and> conforms item x" if "item \<in> set items" for item
    using rmapM_keyed(2)[OF rs _ that] ManifestRoot.IH[OF that] ManifestRoot.prems(1) that by auto
  with rmapM_keyed(1)[OF rs] show ?case by (fastforce simp: m)
next
  case (ManifestArray key s)
  then show ?case
    by (auto simp: rbind_eq_Inr rmapM_Inr_iff list_all2_conv_all_nth in_set_conv_nth split: json.splits) blast
qed (auto simp: leaf_marshal_ok split: if_splits option.splits)

lemma rmapM_pointwise: "(\<And>x. x \<in> set xs \<Longrightarrow> f x = Inr (g x)) \<Longrightarrow> rmapM f xs = Inr (map g xs)"
  by (induction xs) auto

lemma map_of_keyed:
  "distinct (map k xs) \<Longrightarrow> x \<in> set xs \<Longrightarrow> map_of (map (\<lambda>x. (k x, f x)) xs) (k x) = Some (f x)"
  by (induction xs) (auto simp: image_iff)

lemma map_of_rebuild:
  assumes "distinct (map k xs)" and "map fst rs = map k xs"
  shows "map (\<lambda>x. (k x, the (map_of rs (k x)))) xs = rs"
  using assms
proof (induction xs arbitrary: rs)
  case (Cons x xs)
  then obtain v rs' where rs: "rs = (k x, v) # rs'" and "map fst rs' = map k xs" by (cases rs) auto
  with Cons have IH: "map (\<lambda>x. (k x, the (map_of rs' (k x)))) xs = rs'" by simp
  have "k y \<noteq> k x" if "y \<in> set xs" for y using Cons.prems(1) that by (metis distinct.simps(2) image_eqI list.set_map list.simps(9))
  then have "map (\<lambda>y. (k y, the (map_of rs (k y)))) xs = map (\<lambda>y. (k y, the (map_of rs' (k y)))) xs"
    by (simp add: rs)
  with IH show ?case by (simp add: rs)
qed simp

lemma marshal_roundtrip:
  assumes "semver_ok sv"
  shows "schema_ok s \<Longrightarrow> conforms s m \<Longrightarrow> \<exists>j. unmarshal sv s m = Inr j \<and> j \<noteq> JNull \<and> marshal sv s j = Inr m"
proof (induction s arbitrary: m)
  case (Leaf t)
  then show ?case using leaf_roundtrip[OF assms] by simp
next
  case (ManifestField key t d)
  then show ?case using leaf_roundtrip[OF assms, of t m] by auto
next
  case (ManifestArray key s)
  then obtain vs where m: "m = MList vs" and vs: "\<forall>x \<in> set vs. conforms s x" by (auto split: mval.splits)
  with ManifestArray have "\<forall>x \<in> set vs. \<exists>j. unmarshal sv s x = Inr j \<and> marshal sv s j = Inr x" by fastforce
  then obtain J where J: "\<forall>x \<in> set vs. unmarshal sv s x = Inr (J x) \<and> marshal sv s (J x) = Inr x" by metis
  then have "rmapM (unmarshal sv s) vs = Inr (map J vs)" and "rmapM (marshal sv s) (map J vs) = Inr vs"
    by (simp_all add: rmapM_Inr_iff list_all2_conv_all_nth)
  then show ?case by (simp add: m py_or_def map_error_def)
next
  case (ManifestRoot key items)
  then obtain rs where m: "m = MNode rs" and keys: "map fst rs = map skey items"
    and rs: "\<forall>item \<in> set items. \<exists>x. map_of rs (skey item) = Some x \<and> conforms item x"
    by (fastforce split: mval.splits option.splits)
  have dist: "distinct (map skey items)" using ManifestRoot.prems by simp
  have "\<forall>item \<in> set items. \<exists>j. unmarshal sv item (the (map_of rs (skey item))) = Inr j \<and>
      marshal sv item j = Inr (the (map_of rs (skey item)))"
    using rs ManifestRoot.IH ManifestRoot.prems(1) by fastforce
  then obtain J where J: "\<And>item. item \<in> set items \<Longrightarrow> unmarshal sv item (the (map_of rs (skey item))) = Inr (J item)"
      "\<And>item. item \<in> set items \<Longrightarrow> marshal sv item (J item) = Inr (the (map_of rs (skey item)))"
    by metis
  define d where "d = map (\<lambda>item. (skey item, J item)) items"
  have d: "get_or d (skey item) JNull = J item" if "item \<in> set items" for item
    using that dist by (simp add: d_def get_or_def map_of_keyed)
  have "rmapM (\<lambda>item. rbind (mget m (skey item)) (\<lambda>v. rbind (unmarshal sv item v) (\<lambda>j. Inr (skey item, j)))) items = Inr d"
    unfolding d_def using rs J(1) by (intro rmapM_pointwise) (fastforce simp: mget_def m)
  then have u: "unmarshal sv (ManifestRoot key items) m = Inr (JObj d)" by simp
  have "rmapM (\<lambda>item. rbind (marshal sv item (get_or d (skey item) JNull)) (\<lambda>r. Inr (skey item, r))) items =
      Inr (map (\<lambda>item. (skey item, the (map_of rs (skey item)))) items)"
    using J(2) d by (intro rmapM_pointwise) simp
  also have "map (\<lambda>item. (skey item, the (map_of rs (skey item)))) items = rs"
    by (rule map_of_rebuild[OF dist keys])
  finally have "marshal sv (ManifestRoot key items) (JObj d) = Inr m"
    by (cases "d = []") (simp_all add: py_or_def m)
  with u show ?case by blast
qed

lemma manifest_schema_ok: "schema_ok (manifest_schema v1)"
  by (simp add: manifest_schema_def package_schema_def service_schema_def shutdown_schema_def container_schema_def
      cli_schema_def)

section \<open>Properties\<close>

text \<open>C37. What \<open>Manifest.marshal\<close> returns has the type of the schema: every field is there, with a value of
  its type, so the accesses \<open>manifest['service']['name']\<close> of the package manager cannot fail.\<close>

theorem manifest_marshal_type:
  assumes "manifest_marshal sv doc = Inr m" and "v_parse sv ''1.0.0'' = Inr v1"
  shows "conforms (manifest_schema v1) m"
  using assms marshal_conforms[OF manifest_schema_ok] by (auto simp: manifest_marshal_def)

text \<open>Writing a manifest and reading the document gives the manifest back.\<close>

theorem manifest_roundtrip:
  assumes "semver_ok sv" and "manifest_marshal sv doc = Inr m"
  shows "\<exists>doc'. manifest_unmarshal sv m = Inr doc' \<and> manifest_marshal sv doc' = Inr m"
proof -
  from assms(2) obtain v1 where v1: "v_parse sv ''1.0.0'' = Inr v1" and "marshal sv (manifest_schema v1) doc = Inr m"
    by (auto simp: manifest_marshal_def rbind_eq_Inr)
  then have "conforms (manifest_schema v1) m" by (simp add: marshal_conforms[OF manifest_schema_ok])
  from marshal_roundtrip[OF assms(1) manifest_schema_ok this] v1 show ?thesis
    by (auto simp: manifest_unmarshal_def manifest_marshal_def)
qed

text \<open>A sample: the manifest of a package \<open>p\<close> with a service \<open>s\<close>, all else defaulted.\<close>

definition sample_doc :: json where
  "sample_doc = JObj [(''package'', JObj [(''name'', JStr ''p''), (''version'', JStr ''3''),
     (''depends'', JArr [JStr ''swss''])]), (''service'', JObj [(''name'', JStr ''s'')])]"

lemmas manifest_eval = manifest_marshal_def manifest_schema_def package_schema_def service_schema_def shutdown_schema_def
  container_schema_def cli_schema_def py_or_def get_or_def map_error_def parsed_def

lemmas sample_semver_eval = sample_semver_def sample_v_parse_def py_isdigit_def is_digit_def digit_val_def
  constraint_parse_def constraint_from_string_def name_char_def re_rest_def

lemma sample_marshals: "\<exists>m. manifest_marshal sample_semver sample_doc = Inr m"
  by (simp add: manifest_eval sample_semver_eval sample_doc_def)

theorem manifest_marshal_type_witness:
  "\<exists>m. manifest_marshal sample_semver sample_doc = Inr m \<and> conforms (manifest_schema 1) m"
proof -
  obtain m where m: "manifest_marshal sample_semver sample_doc = Inr m" using sample_marshals by blast
  have "v_parse sample_semver ''1.0.0'' = Inr 1" by (simp add: sample_semver_eval)
  from manifest_marshal_type[OF m this] m show ?thesis by blast
qed

theorem manifest_roundtrip_witness:
  "\<exists>m doc'. manifest_unmarshal sample_semver m = Inr doc' \<and> manifest_marshal sample_semver doc' = Inr m \<and>
     manifest_marshal sample_semver sample_doc = Inr m"
  using sample_marshals manifest_roundtrip[OF sample_semver_ok] by blast

end
