(* ===== verification/SonicDb.thy ===== *)
theory SonicDb
  imports PyJson
begin

text \<open>
  The databases a package registers itself in (\<open>sonic_package_manager/service_creator/sonic_db.py\<close>):
  the two JSON files behind \<open>PersistentConfigDbConnector\<close> and the running CONFIG DB. A file is
  represented by what \<open>json.load\<close> and \<open>FormatConverter\<close> read from it: tables of entries of fields, a
  key being its text. The connector of the running database is third-party code: it is the
  parameter \<open>run_lib\<close>, and \<open>run_ok\<close> states what its documentation says of reading after writing.
\<close>

section \<open>Configurations\<close>

type_synonym entry_table = "(string \<times> dict) list"
type_synonym cfg = "(string \<times> entry_table) list"

text \<open>\<open>{**a, **b}\<close> and \<open>a.update(b)\<close>.\<close>

definition dict_merge :: "('k \<times> 'a) list \<Rightarrow> ('k \<times> 'a) list \<Rightarrow> ('k \<times> 'a) list" where
  "dict_merge a b = foldl (\<lambda>d (k, v). AList.update k v d) a b"

lemma map_of_dict_merge: "distinct (map fst b) \<Longrightarrow> map_of (dict_merge a b) = map_of a ++ map_of b"
proof (induction b arbitrary: a)
  case (Cons p b)
  obtain k v where p: "p = (k, v)" by fastforce
  have "map_of (dict_merge a (p # b)) = (map_of a)(k \<mapsto> v) ++ map_of b"
    using Cons by (simp add: dict_merge_def p update_conv')
  moreover have "map_of b k = None" using Cons.prems by (simp add: p map_of_eq_None_iff)
  ultimately show ?case by (auto simp: p fun_eq_iff map_add_def split: option.splits)
qed (simp add: dict_merge_def)

lemma set_dict_merge: "set (dict_merge a b) \<subseteq> set a \<union> set b"
proof (induction b arbitrary: a)
  case (Cons p b)
  have "set (AList.update (fst p) (snd p) a) \<subseteq> insert p (set a)" using set_update_subset[of "fst p" "snd p" a] by simp
  moreover have "set (dict_merge a (p # b)) \<subseteq> set (AList.update (fst p) (snd p) a) \<union> set b"
    using Cons[of "AList.update (fst p) (snd p) a"] by (simp add: dict_merge_def case_prod_beta)
  ultimately show ?case by auto
qed (simp add: dict_merge_def)

lemma dict_merge_other: "k \<notin> fst ` set b \<Longrightarrow> map_of (dict_merge a b) k = map_of a k"
  by (induction b arbitrary: a) (auto simp: dict_merge_def case_prod_beta)

lemma set_dict_merges: "set (foldl dict_merge a bs) \<subseteq> set a \<union> \<Union> (set ` set bs)"
  by (induction bs arbitrary: a) (use set_dict_merge in \<open>fastforce\<close>)+

lemma dict_merges_other: "\<forall>b \<in> set bs. k \<notin> fst ` set b \<Longrightarrow> map_of (foldl dict_merge a bs) k = map_of a k"
  by (induction bs arbitrary: a) (simp_all add: dict_merge_other)

section \<open>The connector of a file\<close>

definition get_table :: "cfg \<Rightarrow> string \<Rightarrow> entry_table" where
  "get_table config table = (case map_of config (to_upper table) of None \<Rightarrow> [] | Some d \<Rightarrow> d)"

definition get_entry :: "cfg \<Rightarrow> string \<Rightarrow> string \<Rightarrow> dict" where
  "get_entry config table key = (case map_of (get_table config (to_upper table)) key of None \<Rightarrow> [] | Some d \<Rightarrow> d)"

definition del_table :: "('k \<times> 'a) list \<Rightarrow> 'k \<Rightarrow> ('k \<times> 'a) list" where
  "del_table config table = AList.delete table config"

definition del_key :: "cfg \<Rightarrow> string \<Rightarrow> string \<Rightarrow> cfg" where
  "del_key config table key =
     (let config = (case map_of config table of
          None \<Rightarrow> config
        | Some d \<Rightarrow> AList.update table (AList.delete key d) config)
      in if map_of config table = Some [] then del_table config table else config)"

definition put_entry :: "cfg \<Rightarrow> string \<Rightarrow> string \<Rightarrow> dict \<Rightarrow> cfg" where
  "put_entry config table key data =
     AList.update table (AList.update key data (case map_of config table of None \<Rightarrow> [] | Some d \<Rightarrow> d)) config"

definition set_entry :: "cfg \<Rightarrow> string \<Rightarrow> string \<Rightarrow> dict option \<Rightarrow> cfg" where
  "set_entry config table key data =
     (let table = to_upper table in
      case data of None \<Rightarrow> del_key config table key | Some d \<Rightarrow> put_entry config table key d)"

definition mod_entry :: "cfg \<Rightarrow> string \<Rightarrow> string \<Rightarrow> dict option \<Rightarrow> cfg" where
  "mod_entry config table key data =
     (let table = to_upper table in
      case data of
        None \<Rightarrow> del_key config table key
      | Some d \<Rightarrow> put_entry config table key (dict_merge (get_entry config table key) d))"

text \<open>
  \<open>mod_config\<close> loops over its argument. For a table that is \<open>None\<close> it deletes the table from that
  argument, not from the file, and Python refuses to go on with a dictionary whose size changed.
\<close>

fun mod_config :: "cfg \<Rightarrow> (string \<times> (string \<times> dict option) list option) list \<Rightarrow> (err + unit) \<times> cfg" where
  "mod_config file [] = (Inr (), file)"
| "mod_config file ((table_name, None) # rest) = (Inl RuntimeError, file)"
| "mod_config file ((table_name, Some table_data) # rest) =
     mod_config (foldl (\<lambda>f (key, d). mod_entry f table_name key d) file table_data) rest"

section \<open>Reading after writing\<close>

text \<open>
  The interface a connector offers: what is read after a write. Table names are compared in upper
  case. Both the files and the running database are stores in this sense.
\<close>

locale entry_store =
  fixes get :: "'s \<Rightarrow> string \<Rightarrow> string \<Rightarrow> dict"
    and set :: "'s \<Rightarrow> string \<Rightarrow> string \<Rightarrow> dict option \<Rightarrow> 's"
  assumes get_set_same: "to_upper t' = to_upper t \<Longrightarrow> get (set s t k d) t' k = (case d of None \<Rightarrow> [] | Some x \<Rightarrow> x)"
    and get_set_other: "k' \<noteq> k \<or> to_upper t' \<noteq> to_upper t \<Longrightarrow> get (set s t k d) t' k' = get s t' k'"
begin

lemma get_set:
  "get (set s t k d) t' k' =
     (if to_upper t' = to_upper t \<and> k' = k then (case d of None \<Rightarrow> [] | Some x \<Rightarrow> x) else get s t' k')"
  using get_set_same[of t' t] get_set_other[of k' k t' t s d] by auto

lemma move_entry:
  "get (set (set s t old None) t new (Some d)) t k = (if k = new then d else if k = old then [] else get s t k)"
  by (simp add: get_set)

end

lemma get_table_put:
  "map_of (put_entry config t k d) u =
     (if u = t then Some (AList.update k d (case map_of config t of None \<Rightarrow> [] | Some e \<Rightarrow> e)) else map_of config u)"
  by (simp add: put_entry_def update_conv')

lemma map_of_del_key:
  "map_of (del_key config t k) u =
     (if u = t then (case map_of config t of None \<Rightarrow> None
        | Some e \<Rightarrow> if AList.delete k e = [] then None else Some (AList.delete k e))
      else map_of config u)"
  by (simp add: del_key_def del_table_def Let_def update_conv' delete_conv' split: option.splits)

lemma get_entry_alt:
  "get_entry config t k =
     (case map_of config (to_upper t) of None \<Rightarrow> [] | Some e \<Rightarrow> (case map_of e k of None \<Rightarrow> [] | Some d \<Rightarrow> d))"
  by (simp add: get_entry_def get_table_def split: option.splits)

interpretation file_store: entry_store get_entry set_entry
proof
  fix t t' :: string and s k d
  assume "to_upper t' = to_upper t"
  then show "get_entry (set_entry s t k d) t' k = (case d of None \<Rightarrow> [] | Some x \<Rightarrow> x)"
    by (auto simp: get_entry_alt set_entry_def Let_def get_table_put map_of_del_key delete_conv' update_conv' split: option.splits)
next
  fix t t' k' :: string and s k d
  assume o: "k' \<noteq> k \<or> to_upper t' \<noteq> to_upper t"
  have "AList.delete k e = [] \<Longrightarrow> k' \<noteq> k \<Longrightarrow> map_of e k' = None" for e :: entry_table
    by (metis map_of_delete_other map_of.simps(1))
  with o show "get_entry (set_entry s t k d) t' k' = get_entry s t' k'"
    by (auto simp: get_entry_alt set_entry_def Let_def get_table_put map_of_del_key delete_conv' update_conv' split: option.splits)
qed

section \<open>The connectors\<close>

record 'r run_lib =
  rl_get_entry :: "'r \<Rightarrow> string \<Rightarrow> string \<Rightarrow> dict"
  rl_set_entry :: "'r \<Rightarrow> string \<Rightarrow> string \<Rightarrow> dict option \<Rightarrow> 'r"
  rl_mod_entry :: "'r \<Rightarrow> string \<Rightarrow> string \<Rightarrow> dict option \<Rightarrow> 'r"
  rl_get_table :: "'r \<Rightarrow> string \<Rightarrow> entry_table"
  rl_get_config :: "'r \<Rightarrow> cfg"

definition run_ok :: "'r run_lib \<Rightarrow> bool" where
  "run_ok L \<longleftrightarrow> entry_store (rl_get_entry L) (rl_set_entry L)"

text \<open>A running database is an instance of the same interface kept in memory.\<close>

definition mem_run :: "cfg run_lib" where
  "mem_run = \<lparr>rl_get_entry = get_entry, rl_set_entry = set_entry, rl_mod_entry = mod_entry, rl_get_table = get_table,
     rl_get_config = (\<lambda>c. c)\<rparr>"

lemma mem_run_ok: "run_ok mem_run"
  by (simp add: run_ok_def mem_run_def file_store.entry_store_axioms)

text \<open>
  \<open>persist_db\<close> is \<open>None\<close> when \<open>config_db.json\<close> does not exist, \<open>run_db\<close> when the process runs in a
  chroot or no database answers.
\<close>

record 'r sonic_dbs =
  init_db :: cfg
  persist_db :: "cfg option"
  run_db :: "'r option"

datatype conn = InitialDb | PersistentDb | RunningDb

definition get_connectors :: "'r sonic_dbs \<Rightarrow> conn list" where
  "get_connectors w = [InitialDb]
     @ (if persist_db w \<noteq> None then [PersistentDb] else [])
     @ (if run_db w \<noteq> None then [RunningDb] else [])"

fun conn_get :: "'r run_lib \<Rightarrow> 'r sonic_dbs \<Rightarrow> conn \<Rightarrow> string \<Rightarrow> string \<Rightarrow> dict" where
  "conn_get L w InitialDb t k = get_entry (init_db w) t k"
| "conn_get L w PersistentDb t k = (case persist_db w of None \<Rightarrow> [] | Some c \<Rightarrow> get_entry c t k)"
| "conn_get L w RunningDb t k = (case run_db w of None \<Rightarrow> [] | Some r \<Rightarrow> rl_get_entry L r t k)"

fun conn_set :: "'r run_lib \<Rightarrow> 'r sonic_dbs \<Rightarrow> conn \<Rightarrow> string \<Rightarrow> string \<Rightarrow> dict option \<Rightarrow> 'r sonic_dbs" where
  "conn_set L w InitialDb t k d = w\<lparr>init_db := set_entry (init_db w) t k d\<rparr>"
| "conn_set L w PersistentDb t k d = w\<lparr>persist_db := map_option (\<lambda>c. set_entry c t k d) (persist_db w)\<rparr>"
| "conn_set L w RunningDb t k d = w\<lparr>run_db := map_option (\<lambda>r. rl_set_entry L r t k d) (run_db w)\<rparr>"

fun conn_mod :: "'r run_lib \<Rightarrow> 'r sonic_dbs \<Rightarrow> conn \<Rightarrow> string \<Rightarrow> string \<Rightarrow> dict option \<Rightarrow> 'r sonic_dbs" where
  "conn_mod L w InitialDb t k d = w\<lparr>init_db := mod_entry (init_db w) t k d\<rparr>"
| "conn_mod L w PersistentDb t k d = w\<lparr>persist_db := map_option (\<lambda>c. mod_entry c t k d) (persist_db w)\<rparr>"
| "conn_mod L w RunningDb t k d = w\<lparr>run_db := map_option (\<lambda>r. rl_mod_entry L r t k d) (run_db w)\<rparr>"

fun conn_config :: "'r run_lib \<Rightarrow> 'r sonic_dbs \<Rightarrow> conn \<Rightarrow> cfg" where
  "conn_config L w InitialDb = init_db w"
| "conn_config L w PersistentDb = (case persist_db w of None \<Rightarrow> [] | Some c \<Rightarrow> c)"
| "conn_config L w RunningDb = (case run_db w of None \<Rightarrow> [] | Some r \<Rightarrow> rl_get_config L r)"

fun conn_table :: "'r run_lib \<Rightarrow> 'r sonic_dbs \<Rightarrow> conn \<Rightarrow> string \<Rightarrow> entry_table" where
  "conn_table L w InitialDb t = get_table (init_db w) t"
| "conn_table L w PersistentDb t = (case persist_db w of None \<Rightarrow> [] | Some c \<Rightarrow> get_table c t)"
| "conn_table L w RunningDb t = (case run_db w of None \<Rightarrow> [] | Some r \<Rightarrow> rl_get_table L r t)"

lemma connectors_set [simp]: "get_connectors (conn_set L w c t k d) = get_connectors w"
  by (cases c) (auto simp: get_connectors_def)

lemma mem_connectors [simp]: "InitialDb \<in> set (get_connectors w)"
  "PersistentDb \<in> set (get_connectors w) \<longleftrightarrow> persist_db w \<noteq> None"
  "RunningDb \<in> set (get_connectors w) \<longleftrightarrow> run_db w \<noteq> None"
  by (auto simp: get_connectors_def)

lemma distinct_connectors [simp]: "distinct (get_connectors w)"
  by (simp add: get_connectors_def)

lemma conn_get_set:
  assumes "run_ok L" and "c \<in> set (get_connectors w)"
  shows "conn_get L (conn_set L w c t k d) c' t' k' =
    (if c' = c \<and> to_upper t' = to_upper t \<and> k' = k then (case d of None \<Rightarrow> [] | Some x \<Rightarrow> x) else conn_get L w c' t' k')"
  using assms entry_store.get_set[OF assms(1)[unfolded run_ok_def]]
  by (cases c; cases c') (auto simp: file_store.get_set split: option.splits)

end
