(* ===== verification/FeatureRegistry.thy ===== *)
theory FeatureRegistry
  imports PkgManifest SonicDb
begin

text \<open>
  Registering a package as a feature (\<open>sonic_package_manager/service_creator/feature.py\<close>): the entries of
  the tables FEATURE, AUTO_TECHSUPPORT_FEATURE and SYSLOG_CONFIG_FEATURE in every database. The
  properties say what a user's configuration is worth: it survives registration and an upgrade,
  while the fields the manifest decides are overwritten.
\<close>

section \<open>Reading the manifest\<close>

fun mpath :: "('v, 'c) mval \<Rightarrow> string list \<Rightarrow> err + ('v, 'c) mval" where
  "mpath m [] = Inr m"
| "mpath m (k # ks) = rbind (mget m k) (\<lambda>x. mpath x ks)"

definition as_str :: "('v, 'c) mval \<Rightarrow> err + string" where
  "as_str x = (case x of MJson (JStr s) \<Rightarrow> Inr s | _ \<Rightarrow> Inl TypeError)"

definition as_bool :: "('v, 'c) mval \<Rightarrow> err + bool" where
  "as_bool x = (case x of MJson (JBool b) \<Rightarrow> Inr b | _ \<Rightarrow> Inl TypeError)"

definition as_list :: "('v, 'c) mval \<Rightarrow> err + ('v, 'c) mval list" where
  "as_list x = (case x of MList vs \<Rightarrow> Inr vs | _ \<Rightarrow> Inl TypeError)"

definition m_str :: "('v, 'c) mval \<Rightarrow> string list \<Rightarrow> err + string" where
  "m_str m p = rbind (mpath m p) as_str"

definition m_bool :: "('v, 'c) mval \<Rightarrow> string list \<Rightarrow> err + bool" where
  "m_bool m p = rbind (mpath m p) as_bool"

definition m_strs :: "('v, 'c) mval \<Rightarrow> string list \<Rightarrow> err + string list" where
  "m_strs m p = rbind (rbind (mpath m p) as_list) (rmapM as_str)"

definition service_name :: "('v, 'c) mval \<Rightarrow> err + string" where
  "service_name m = m_str m [''service'', ''name'']"

section \<open>Defaults\<close>

definition FEATURE :: string where "FEATURE = ''FEATURE''"
definition AUTO_TS_GLOBAL :: string where "AUTO_TS_GLOBAL = ''AUTO_TECHSUPPORT''"
definition AUTO_TS_FEATURE :: string where "AUTO_TS_FEATURE = ''AUTO_TECHSUPPORT_FEATURE''"
definition SYSLOG_CONFIG :: string where "SYSLOG_CONFIG = ''SYSLOG_CONFIG_FEATURE''"

definition DEFAULT_FEATURE_CONFIG :: dict where
  "DEFAULT_FEATURE_CONFIG =
     [(''state'', JStr ''disabled''), (''auto_restart'', JStr ''enabled''), (''high_mem_alert'', JStr ''disabled''),
      (''set_owner'', JStr ''local'')]"

definition DEFAULT_AUTO_TS_FEATURE_CONFIG :: dict where
  "DEFAULT_AUTO_TS_FEATURE_CONFIG =
     [(''state'', JStr ''disabled''), (''rate_limit_interval'', JStr ''600''), (''available_mem_threshold'', JStr ''10.0'')]"

definition DEFAULT_SYSLOG_FEATURE_CONFIG :: dict where
  "DEFAULT_SYSLOG_FEATURE_CONFIG = [(''rate_limit_interval'', JStr ''300''), (''rate_limit_burst'', JStr ''20000'')]"

definition get_default_feature_entries :: "string \<Rightarrow> string \<Rightarrow> dict" where
  "get_default_feature_entries state owner =
     (let cfg = DEFAULT_FEATURE_CONFIG;
          cfg = (if state \<noteq> [] then AList.update ''state'' (JStr state) cfg else cfg)
      in if owner \<noteq> [] then AList.update ''set_owner'' (JStr owner) cfg else cfg)"

definition py_str_bool :: "bool \<Rightarrow> json" where
  "py_str_bool b = JStr (if b then ''True'' else ''False'')"

definition get_non_configurable_feature_entries :: "('v, 'c) mval \<Rightarrow> err + dict" where
  "get_non_configurable_feature_entries manifest =
     rbind (m_bool manifest [''service'', ''asic-service'']) (\<lambda>asic.
     rbind (m_bool manifest [''service'', ''host-service'']) (\<lambda>host.
     rbind (m_bool manifest [''service'', ''delayed'']) (\<lambda>delayed.
     rbind (m_bool manifest [''service'', ''check_up_status'']) (\<lambda>up.
     rbind (m_bool manifest [''service'', ''syslog'', ''support-rate-limit'']) (\<lambda>rate.
       Inr [(''has_per_asic_scope'', py_str_bool asic), (''has_global_scope'', py_str_bool host),
            (''has_timer'', py_str_bool delayed), (''check_up_status'', py_str_bool up),
            (''support_syslog_rate_limit'', py_str_bool rate)])))))"

text \<open>\<open>cfg.get(f, default).lower()\<close>; a value that is no string has no \<open>lower\<close>.\<close>

definition lower_field :: "dict \<Rightarrow> string \<Rightarrow> string \<Rightarrow> err + string" where
  "lower_field cfg f d = (case get_or cfg f (JStr d) of JStr s \<Rightarrow> Inr (to_lower s) | _ \<Rightarrow> Inl AttributeError)"

definition is_enabled :: "dict \<Rightarrow> err + bool" where
  "is_enabled cfg = rbind (lower_field cfg ''state'' ''disabled'') (\<lambda>s. Inr (s = ''enabled''))"

text \<open>\<open>str\<close> of a value that is not a string is never a spelling of true, except for a Boolean.\<close>

definition is_multi_instance :: "dict \<Rightarrow> bool" where
  "is_multi_instance cfg = (case get_or cfg ''has_per_asic_scope'' (JStr ''False'') of
     JStr s \<Rightarrow> to_lower s = ''true'' | JBool b \<Rightarrow> b | _ \<Rightarrow> False)"

section \<open>The registry\<close>

definition infer_auto_ts_capability :: "cfg \<Rightarrow> bool \<times> json" where
  "infer_auto_ts_capability init_cfg =
     (let default_state = get_or (get_entry init_cfg AUTO_TS_GLOBAL ''GLOBAL'') ''state'' (JStr '''') in
      if \<not> py_truthy default_state then (False, JStr ''disabled'') else (True, default_state))"

text \<open>
  One turn of the loops that write a default configuration, carrying over the entry of an old name.
\<close>

definition write_carried ::
    "'r run_lib \<Rightarrow> string \<Rightarrow> dict \<Rightarrow> string \<Rightarrow> string option \<Rightarrow> 'r sonic_dbs \<Rightarrow> conn \<Rightarrow> 'r sonic_dbs" where
  "write_carried L table def_cfg new_name old_name w conn = (case old_name of
     None \<Rightarrow> conn_set L w conn table new_name (Some def_cfg)
   | Some old \<Rightarrow>
       if old = [] then conn_set L w conn table new_name (Some def_cfg)
       else let current_cfg = conn_get L w conn table old in
         conn_set L (conn_set L w conn table old None) conn table new_name (Some (dict_merge def_cfg current_cfg)))"

definition register_auto_ts :: "'r run_lib \<Rightarrow> string \<Rightarrow> string option \<Rightarrow> 'r sonic_dbs \<Rightarrow> bool \<times> 'r sonic_dbs" where
  "register_auto_ts L new_name old_name w =
     (let (auto_ts_add_cfg, auto_ts_state) = infer_auto_ts_capability (init_db w);
          def_cfg = AList.update ''state'' auto_ts_state DEFAULT_AUTO_TS_FEATURE_CONFIG in
      if \<not> auto_ts_add_cfg then (False, w)
      else (True, foldl (write_carried L AUTO_TS_FEATURE def_cfg new_name old_name) w (get_connectors w)))"

definition register_syslog_config :: "'r run_lib \<Rightarrow> string \<Rightarrow> string option \<Rightarrow> 'r sonic_dbs \<Rightarrow> 'r sonic_dbs" where
  "register_syslog_config L new_name old_name w =
     foldl (write_carried L SYSLOG_CONFIG DEFAULT_SYSLOG_FEATURE_CONFIG new_name old_name) w (get_connectors w)"

definition supports_rate_limit :: "('v, 'c) mval \<Rightarrow> err + bool" where
  "supports_rate_limit manifest = m_bool manifest [''service'', ''syslog'', ''support-rate-limit'']"

definition feature_register ::
    "'r run_lib \<Rightarrow> ('v, 'c) mval \<Rightarrow> string \<Rightarrow> string \<Rightarrow> 'r sonic_dbs \<Rightarrow> err + 'r sonic_dbs" where
  "feature_register L manifest state owner w =
     rbind (service_name manifest) (\<lambda>name.
     let cfg_entries = get_default_feature_entries state owner in
     rbind (get_non_configurable_feature_entries manifest) (\<lambda>non_cfg_entries.
     let w = foldl (\<lambda>w conn.
           let current_cfg = conn_get L w conn FEATURE name;
               new_cfg = dict_merge cfg_entries current_cfg;
               new_cfg = dict_merge new_cfg non_cfg_entries
           in conn_set L w conn FEATURE name (Some new_cfg)) w (get_connectors w);
         (_, w) = register_auto_ts L name None w in
     rbind (supports_rate_limit manifest) (\<lambda>b.
       Inr (if b then register_syslog_config L name None w else w))))"

definition feature_deregister :: "'r run_lib \<Rightarrow> string \<Rightarrow> 'r sonic_dbs \<Rightarrow> 'r sonic_dbs" where
  "feature_deregister L name w =
     foldl (\<lambda>w conn.
       conn_set L (conn_set L (conn_set L w conn FEATURE name None) conn AUTO_TS_FEATURE name None)
         conn SYSLOG_CONFIG name None) w (get_connectors w)"

definition feature_update ::
    "'r run_lib \<Rightarrow> ('v, 'c) mval \<Rightarrow> ('v, 'c) mval \<Rightarrow> 'r sonic_dbs \<Rightarrow> err + 'r sonic_dbs" where
  "feature_update L old_manifest new_manifest w =
     rbind (service_name old_manifest) (\<lambda>old_name.
     rbind (service_name new_manifest) (\<lambda>new_name.
     rbind (get_non_configurable_feature_entries new_manifest) (\<lambda>non_cfg_entries.
     let w = foldl (\<lambda>w conn.
           let current_cfg = conn_get L w conn FEATURE old_name;
               w = conn_set L w conn FEATURE old_name None
           in conn_set L w conn FEATURE new_name (Some (dict_merge current_cfg non_cfg_entries))) w (get_connectors w);
         (_, w) = register_auto_ts L new_name (Some old_name) w in
     rbind (supports_rate_limit new_manifest) (\<lambda>b.
       Inr (if b then register_syslog_config L new_name (Some old_name) w else w)))))"

definition is_feature_enabled :: "'r run_lib \<Rightarrow> 'r sonic_dbs \<Rightarrow> string \<Rightarrow> err + bool" where
  "is_feature_enabled L w name = (case run_db w of
     None \<Rightarrow> Inr False
   | Some r \<Rightarrow> is_enabled (rl_get_entry L r FEATURE name))"

definition get_multi_instance_features :: "'r sonic_dbs \<Rightarrow> string list" where
  "get_multi_instance_features w =
     map fst (filter (\<lambda>(_, cfg). is_multi_instance cfg) (get_table (init_db w) FEATURE))"

section \<open>Loops over the connectors\<close>

text \<open>
  A loop whose turn changes one database, as a function of what that database held, does so in every
  database it visits.
\<close>

lemma conn_loop:
  assumes "\<And>w c. c \<in> set (get_connectors w) \<Longrightarrow> get_connectors (f w c) = get_connectors w \<and>
      (\<forall>c' t k. conn_get L (f w c) c' t k = (if c' = c then F (conn_get L w c) t k else conn_get L w c' t k))"
    and "distinct cs" and "set cs \<subseteq> set (get_connectors w)"
  shows "get_connectors (foldl f w cs) = get_connectors w \<and>
    (\<forall>c t k. conn_get L (foldl f w cs) c t k = (if c \<in> set cs then F (conn_get L w c) t k else conn_get L w c t k))"
  using assms(2,3)
proof (induction cs arbitrary: w)
  case (Cons c cs)
  then have c: "c \<in> set (get_connectors w)" by simp
  note step = assms(1)[OF c]
  have eq: "conn_get L (f w c) c' = conn_get L w c'" if "c' \<noteq> c" for c'
    using step that by (simp add: fun_eq_iff)
  from Cons step have "get_connectors (foldl f (f w c) cs) = get_connectors (f w c) \<and>
      (\<forall>c' t k. conn_get L (foldl f (f w c) cs) c' t k =
         (if c' \<in> set cs then F (conn_get L (f w c) c') t k else conn_get L (f w c) c' t k))"
    by simp
  moreover have "\<forall>c' \<in> set cs. c' \<noteq> c" using Cons.prems(1) by auto
  ultimately show ?case using step Cons.prems(1) by (simp add: eq)
qed simp

lemma upper_names:
  "to_upper FEATURE = FEATURE" "to_upper AUTO_TS_FEATURE = AUTO_TS_FEATURE" "to_upper SYSLOG_CONFIG = SYSLOG_CONFIG"
  by code_simp+

lemma table_names [simp]:
  "AUTO_TS_FEATURE \<noteq> FEATURE" "SYSLOG_CONFIG \<noteq> FEATURE" "SYSLOG_CONFIG \<noteq> AUTO_TS_FEATURE"
  "FEATURE \<noteq> AUTO_TS_FEATURE" "FEATURE \<noteq> SYSLOG_CONFIG" "AUTO_TS_FEATURE \<noteq> SYSLOG_CONFIG"
  by (simp_all add: FEATURE_def AUTO_TS_FEATURE_def SYSLOG_CONFIG_def)

text \<open>What one turn makes of the entries of its database.\<close>

definition carried :: "string \<Rightarrow> dict \<Rightarrow> string \<Rightarrow> string option \<Rightarrow> (string \<Rightarrow> string \<Rightarrow> dict) \<Rightarrow> string \<Rightarrow> string \<Rightarrow> dict" where
  "carried table def_cfg new_name old_name g t k =
     (let old = (case old_name of None \<Rightarrow> [] | Some n \<Rightarrow> n) in
      if to_upper t \<noteq> to_upper table then g t k
      else if k = new_name then (if old = [] then def_cfg else dict_merge def_cfg (g table old))
      else if old \<noteq> [] \<and> k = old then []
      else g t k)"

lemma write_carried_step:
  assumes "run_ok L" and "c \<in> set (get_connectors w)"
  shows "get_connectors (write_carried L table def_cfg new_name old_name w c) = get_connectors w \<and>
    (\<forall>c' t k. conn_get L (write_carried L table def_cfg new_name old_name w c) c' t k =
       (if c' = c then carried table def_cfg new_name old_name (conn_get L w c) t k else conn_get L w c' t k))"
  using assms by (auto simp: write_carried_def carried_def conn_get_set Let_def split: option.splits)

lemma write_carried_loop:
  assumes "run_ok L"
  shows "get_connectors (foldl (write_carried L table def_cfg new_name old_name) w (get_connectors w)) = get_connectors w"
    and "conn_get L (foldl (write_carried L table def_cfg new_name old_name) w (get_connectors w)) c t k =
      (if c \<in> set (get_connectors w) then carried table def_cfg new_name old_name (conn_get L w c) t k
       else conn_get L w c t k)"
  using conn_loop[where f = "write_carried L table def_cfg new_name old_name" and
      F = "carried table def_cfg new_name old_name" and w = w and cs = "get_connectors w" and L = L,
      OF write_carried_step[OF assms] distinct_connectors order_refl] by auto

lemma register_auto_ts_effect:
  assumes "run_ok L" and "register_auto_ts L new_name old_name w = (b, w')"
  shows "get_connectors w' = get_connectors w"
    and "to_upper t \<noteq> AUTO_TS_FEATURE \<Longrightarrow> conn_get L w' c t k = conn_get L w c t k"
  using assms(2)
  by (auto simp: register_auto_ts_def write_carried_loop[OF assms(1)] carried_def upper_names Let_def
      split: prod.splits if_splits)

lemma register_syslog_effect:
  assumes "run_ok L"
  shows "get_connectors (register_syslog_config L new_name old_name w) = get_connectors w"
    and "to_upper t \<noteq> SYSLOG_CONFIG \<Longrightarrow>
      conn_get L (register_syslog_config L new_name old_name w) c t k = conn_get L w c t k"
  by (auto simp: register_syslog_config_def write_carried_loop[OF assms] carried_def upper_names Let_def)

section \<open>Properties\<close>

definition feature_written :: "string \<Rightarrow> (dict \<Rightarrow> dict) \<Rightarrow> string \<Rightarrow> (string \<Rightarrow> string \<Rightarrow> dict) \<Rightarrow> string \<Rightarrow> string \<Rightarrow> dict" where
  "feature_written old_name mk new_name g t k =
     (if to_upper t \<noteq> FEATURE then g t k
      else if k = new_name then mk (g FEATURE old_name)
      else if k = old_name then [] else g t k)"

lemma register_loop:
  assumes "run_ok L"
  shows "get_connectors (foldl (\<lambda>w c. conn_set L w c FEATURE name (Some (mk (conn_get L w c FEATURE name)))) w (get_connectors w))
      = get_connectors w"
    and "c \<in> set (get_connectors w) \<Longrightarrow>
      conn_get L (foldl (\<lambda>w c. conn_set L w c FEATURE name (Some (mk (conn_get L w c FEATURE name)))) w (get_connectors w)) c t k
      = feature_written name mk name (conn_get L w c) t k"
  using conn_loop[where f = "\<lambda>w c. conn_set L w c FEATURE name (Some (mk (conn_get L w c FEATURE name)))" and
      F = "feature_written name mk name" and w = w and cs = "get_connectors w" and L = L, OF _ distinct_connectors order_refl]
  by (auto simp: conn_get_set[OF assms] feature_written_def upper_names)

lemma update_loop:
  assumes "run_ok L"
  shows "get_connectors (foldl (\<lambda>w c. conn_set L (conn_set L w c FEATURE old None) c FEATURE new
        (Some (mk (conn_get L w c FEATURE old)))) w (get_connectors w)) = get_connectors w"
    and "c \<in> set (get_connectors w) \<Longrightarrow>
      conn_get L (foldl (\<lambda>w c. conn_set L (conn_set L w c FEATURE old None) c FEATURE new
        (Some (mk (conn_get L w c FEATURE old)))) w (get_connectors w)) c t k
      = feature_written old mk new (conn_get L w c) t k"
  using conn_loop[where f = "\<lambda>w c. conn_set L (conn_set L w c FEATURE old None) c FEATURE new (Some (mk (conn_get L w c FEATURE old)))"
      and F = "feature_written old mk new" and w = w and cs = "get_connectors w" and L = L, OF _ distinct_connectors order_refl]
  by (auto simp: conn_get_set[OF assms] feature_written_def upper_names)

lemma non_cfg_distinct: "get_non_configurable_feature_entries m = Inr nc \<Longrightarrow> distinct (map fst nc)"
  by (auto simp: get_non_configurable_feature_entries_def rbind_eq_Inr)

lemma feature_register_effect:
  assumes "run_ok L" and "feature_register L m state owner w = Inr w'" and "service_name m = Inr name"
    and "get_non_configurable_feature_entries m = Inr nc" and "c \<in> set (get_connectors w)"
  shows "conn_get L w' c FEATURE k =
    (if k = name then dict_merge (dict_merge (get_default_feature_entries state owner) (conn_get L w c FEATURE name)) nc
     else conn_get L w c FEATURE k)"
proof -
  define w1 where "w1 = foldl (\<lambda>w c. conn_set L w c FEATURE name (Some (dict_merge (dict_merge
      (get_default_feature_entries state owner) (conn_get L w c FEATURE name)) nc))) w (get_connectors w)"
  obtain b w2 where w2: "register_auto_ts L name None w1 = (b, w2)" by fastforce
  have "w' = w2 \<or> w' = register_syslog_config L name None w2"
    using assms(2-4) w2 by (auto simp: feature_register_def Let_def rbind_eq_Inr w1_def split: prod.splits if_splits)
  moreover have "conn_get L w2 c FEATURE k = conn_get L w1 c FEATURE k"
    using register_auto_ts_effect(2)[OF assms(1) w2, of FEATURE] by (simp add: upper_names)
  moreover have "conn_get L (register_syslog_config L name None w2) c FEATURE k = conn_get L w2 c FEATURE k"
    using register_syslog_effect(2)[OF assms(1), of FEATURE] by (simp add: upper_names)
  moreover have "conn_get L w1 c FEATURE k = feature_written name (\<lambda>cur. dict_merge (dict_merge
      (get_default_feature_entries state owner) cur) nc) name (conn_get L w c) FEATURE k"
    unfolding w1_def by (rule register_loop(2)[OF assms(1,5)])
  ultimately show ?thesis by (auto simp: feature_written_def upper_names)
qed

text \<open>Registering a feature writes, in every database, an entry that keeps each field already
  configured there, takes the other fields from the defaults, and overwrites the fields the manifest
  decides; the entries of all other features stay.\<close>

theorem feature_register_spec:
  assumes "run_ok L" and "feature_register L m state owner w = Inr w'" and "service_name m = Inr name"
    and "get_non_configurable_feature_entries m = Inr nc" and "c \<in> set (get_connectors w)"
    and "distinct (map fst (conn_get L w c FEATURE name))"
  shows "map_of (conn_get L w' c FEATURE name) f =
      (case map_of nc f of Some v \<Rightarrow> Some v
       | None \<Rightarrow> (case map_of (conn_get L w c FEATURE name) f of Some v \<Rightarrow> Some v
         | None \<Rightarrow> map_of (get_default_feature_entries state owner) f)) \<and>
    (other = name \<or> conn_get L w' c FEATURE other = conn_get L w c FEATURE other)"
  using feature_register_effect[OF assms(1-5)] non_cfg_distinct[OF assms(4)] assms(6)
  by (auto simp: map_of_dict_merge map_add_def split: option.splits)

lemma feature_update_effect:
  assumes "run_ok L" and "feature_update L m m' w = Inr w'" and "service_name m = Inr old" and "service_name m' = Inr new"
    and "get_non_configurable_feature_entries m' = Inr nc" and "c \<in> set (get_connectors w)"
  shows "get_connectors w' = get_connectors w"
    and "conn_get L w' c FEATURE k =
      (if k = new then dict_merge (conn_get L w c FEATURE old) nc
       else if k = old then [] else conn_get L w c FEATURE k)"
proof -
  define w1 where "w1 = foldl (\<lambda>w c. conn_set L (conn_set L w c FEATURE old None) c FEATURE new
        (Some (dict_merge (conn_get L w c FEATURE old) nc))) w (get_connectors w)"
  obtain b w2 where w2: "register_auto_ts L new (Some old) w1 = (b, w2)" by fastforce
  have w': "w' = w2 \<or> w' = register_syslog_config L new (Some old) w2"
    using assms(2-5) w2 by (auto simp: feature_update_def Let_def rbind_eq_Inr w1_def split: prod.splits if_splits)
  then show "get_connectors w' = get_connectors w"
    using register_auto_ts_effect(1)[OF assms(1) w2] register_syslog_effect(1)[OF assms(1)] update_loop(1)[OF assms(1)]
    by (auto simp: w1_def)
  have "conn_get L w2 c FEATURE k = conn_get L w1 c FEATURE k"
    using register_auto_ts_effect(2)[OF assms(1) w2, of FEATURE] by (simp add: upper_names)
  moreover have "conn_get L (register_syslog_config L new (Some old) w2) c FEATURE k = conn_get L w2 c FEATURE k"
    using register_syslog_effect(2)[OF assms(1), of FEATURE] by (simp add: upper_names)
  moreover have "conn_get L w1 c FEATURE k = feature_written old (\<lambda>cur. dict_merge cur nc) new (conn_get L w c) FEATURE k"
    unfolding w1_def by (rule update_loop(2)[OF assms(1,6)])
  ultimately show "conn_get L w' c FEATURE k =
      (if k = new then dict_merge (conn_get L w c FEATURE old) nc
       else if k = old then [] else conn_get L w c FEATURE k)"
    using w' by (auto simp: feature_written_def upper_names)
qed

text \<open>The update an upgrade does and the one its rollback does cancel in the FEATURE table of every
  database: with the entry of a registered feature, updating to the new manifest and back restores it,
  its user's fields included, and leaves the other features alone.\<close>

theorem feature_update_roundtrip:
  assumes "run_ok L" and "feature_update L m m' w = Inr w1" and "feature_update L m' m w1 = Inr w2"
    and "service_name m = Inr old" and "service_name m' = Inr new"
    and "get_non_configurable_feature_entries m = Inr nc" and "get_non_configurable_feature_entries m' = Inr nc'"
    and "c \<in> set (get_connectors w)" and "map_of nc \<subseteq>\<^sub>m map_of (conn_get L w c FEATURE old)"
    and "new = old \<or> conn_get L w c FEATURE new = []"
  shows "map_of (conn_get L w2 c FEATURE k) = map_of (conn_get L w c FEATURE k)"
proof -
  note up = feature_update_effect[OF assms(1,2,4,5,7,8)]
  have "c \<in> set (get_connectors w1)" using assms(8) up(1) by simp
  note down = feature_update_effect(2)[OF assms(1,3,5,4,6) this]
  have same: "map fst nc = map fst nc'"
    using assms(6,7) by (auto simp: get_non_configurable_feature_entries_def rbind_eq_Inr)
  have "(map_of cur ++ map_of nc') ++ map_of nc = map_of cur" if "map_of nc \<subseteq>\<^sub>m map_of cur" for cur
  proof -
    have "dom (map_of nc) = dom (map_of nc')" using same by (metis dom_map_of_conv_image_fst list.set_map)
    then have "(map_of nc' ++ map_of nc) x = map_of nc x" for x
      by (cases "map_of nc x") (metis domIff map_add_None, simp add: map_add_find_right)
    then have "map_of nc' ++ map_of nc = map_of nc" by (rule ext)
    moreover have "(map_of cur ++ map_of nc) x = map_of cur x" for x
      using that by (cases "map_of nc x") (auto simp: map_add_def map_le_def dom_def)
    then have "map_of cur ++ map_of nc = map_of cur" by (rule ext)
    ultimately show ?thesis by (simp flip: map_add_assoc)
  qed
  then show ?thesis
    using up(2) down assms(9,10) non_cfg_distinct[OF assms(6)] non_cfg_distinct[OF assms(7)]
    by (auto simp: map_of_dict_merge)
qed

text \<open>The sample package registered beside a user's setting in an initial and a running database.\<close>

definition sample_manifest :: "(nat, nat option) mval" where
  "sample_manifest = projr (manifest_marshal sample_semver sample_doc)"

lemmas manifest_access = service_name_def m_str_def m_bool_def m_strs_def as_str_def as_bool_def as_list_def mget_def

lemma sample_manifest_facts:
  "service_name sample_manifest = Inr ''s''"
  "get_non_configurable_feature_entries sample_manifest =
     Inr [(''has_per_asic_scope'', JStr ''False''), (''has_global_scope'', JStr ''True''), (''has_timer'', JStr ''False''),
          (''check_up_status'', JStr ''False''), (''support_syslog_rate_limit'', JStr ''False'')]"
  "supports_rate_limit sample_manifest = Inr False"
  by (simp_all add: sample_manifest_def manifest_eval sample_semver_eval sample_doc_def manifest_access
      get_non_configurable_feature_entries_def supports_rate_limit_def py_str_bool_def)

definition sample_dbs :: "cfg sonic_dbs" where
  "sample_dbs = \<lparr>init_db = [], persist_db = None,
     run_db = Some [(''FEATURE'', [(''s'', [(''state'', JStr ''enabled'')])])]\<rparr>"

lemma sample_get: "conn_get mem_run sample_dbs RunningDb FEATURE ''s'' = [(''state'', JStr ''enabled'')]"
proof -
  have "to_upper ''FEATURE'' = ''FEATURE''" using upper_names(1) by (simp add: FEATURE_def)
  then show ?thesis by (simp add: sample_dbs_def mem_run_def get_entry_alt FEATURE_def)
qed

lemma sample_register: "\<exists>w'. feature_register mem_run sample_manifest ''disabled'' ''local'' sample_dbs = Inr w'"
  by (simp add: feature_register_def sample_manifest_facts case_prod_beta Let_def)

theorem feature_register_spec_witness:
  "\<exists>w'. feature_register mem_run sample_manifest ''disabled'' ''local'' sample_dbs = Inr w' \<and>
     map_of (conn_get mem_run w' RunningDb FEATURE ''s'') ''state'' = Some (JStr ''enabled'')"
proof -
  obtain w' where w': "feature_register mem_run sample_manifest ''disabled'' ''local'' sample_dbs = Inr w'"
    using sample_register by blast
  have "RunningDb \<in> set (get_connectors sample_dbs)" by (simp add: sample_dbs_def)
  from feature_register_spec[OF mem_run_ok w' sample_manifest_facts(1,2) this, of "''state''"] w' show ?thesis
    by (simp add: sample_get del: conn_get.simps)
qed

theorem feature_update_roundtrip_witness:
  "\<exists>w w1 w2. feature_update mem_run sample_manifest sample_manifest w = Inr w1 \<and>
     feature_update mem_run sample_manifest sample_manifest w1 = Inr w2 \<and>
     map_of (conn_get mem_run w2 RunningDb FEATURE ''s'') = map_of (conn_get mem_run w RunningDb FEATURE ''s'') \<and>
     map_of (conn_get mem_run w RunningDb FEATURE ''s'') ''state'' = Some (JStr ''enabled'')"
proof -
  obtain w where w: "feature_register mem_run sample_manifest ''disabled'' ''local'' sample_dbs = Inr w"
    using sample_register by blast
  have up: "\<exists>v'. feature_update mem_run sample_manifest sample_manifest v = Inr v'" for v
    by (simp add: feature_update_def sample_manifest_facts case_prod_beta Let_def)
  then obtain w1 w2 where u: "feature_update mem_run sample_manifest sample_manifest w = Inr w1"
      "feature_update mem_run sample_manifest sample_manifest w1 = Inr w2" by metis
  have c: "RunningDb \<in> set (get_connectors sample_dbs)" by (simp add: sample_dbs_def)
  note reg = feature_register_effect[OF mem_run_ok w sample_manifest_facts(1,2) c, of "''s''"]
  have g: "conn_get mem_run w RunningDb FEATURE ''s'' \<noteq> []"
    using reg by (auto simp: dict_merge_def simp del: conn_get.simps)
  have c': "RunningDb \<in> set (get_connectors w)"
    using g by (cases "run_db w") auto
  have "map_of (conn_get mem_run w2 RunningDb FEATURE ''s'') = map_of (conn_get mem_run w RunningDb FEATURE ''s'')"
    using feature_update_roundtrip[OF mem_run_ok u sample_manifest_facts(1,1) sample_manifest_facts(2,2) c', of "''s''"] reg
    by (auto simp: sample_get map_le_def dict_merge_def get_default_feature_entries_def
        DEFAULT_FEATURE_CONFIG_def simp del: conn_get.simps)
  moreover have "map_of (conn_get mem_run w RunningDb FEATURE ''s'') ''state'' = Some (JStr ''enabled'')"
    using reg by (auto simp: sample_get dict_merge_def get_default_feature_entries_def
        DEFAULT_FEATURE_CONFIG_def simp del: conn_get.simps)
  ultimately show ?thesis using u by blast
qed

end
