(* ===== verification/PkgDatabase.thy ===== *)
theory PkgDatabase
  imports PkgVersion
begin

text \<open>
  The package database (\<open>sonic_package_manager/database.py\<close>): entries by name, the operations of
  \<open>PackageDatabase\<close>, and the JSON file it is read from and committed to. A file whose fields do not
  have the annotated types is rejected with \<open>TypeError\<close> on reading, where the code would carry the
  ill-typed value along; an empty version counts as none.
\<close>

section \<open>Entries\<close>

record 'v pkg_entry =
  pe_name :: string
  pe_repository :: "string option"
  pe_description :: "string option"
  pe_default_reference :: "string option"
  pe_version :: "'v option"
  pe_installed :: bool
  pe_built_in :: bool
  pe_image_id :: "string option"

definition new_entry :: "string \<Rightarrow> string option \<Rightarrow> string option \<Rightarrow> string option \<Rightarrow> 'v pkg_entry" where
  "new_entry name repository description default_reference =
     \<lparr>pe_name = name, pe_repository = repository, pe_description = description,
      pe_default_reference = default_reference, pe_version = None, pe_installed = False, pe_built_in = False,
      pe_image_id = None\<rparr>"

fun opt_text :: "json \<Rightarrow> err + string option" where
  "opt_text JNull = Inr None"
| "opt_text (JStr s) = Inr (Some s)"
| "opt_text _ = Inl TypeError"

fun text_opt :: "string option \<Rightarrow> json" where
  "text_opt None = JNull"
| "text_opt (Some s) = JStr s"

fun flag :: "json \<Rightarrow> err + bool" where
  "flag (JBool b) = Inr b"
| "flag _ = Inl TypeError"

definition read_version :: "('v, 'c) semver \<Rightarrow> string option \<Rightarrow> err + 'v option" where
  "read_version sv v = (case v of
     None \<Rightarrow> Inr None
   | Some s \<Rightarrow> if s = [] then Inr None else rbind (v_parse sv s) (\<lambda>w. Inr (Some w)))"

definition package_from_dict :: "('v, 'c) semver \<Rightarrow> string \<Rightarrow> json \<Rightarrow> err + 'v pkg_entry" where
  "package_from_dict sv name package_info = (case package_info of
     JObj d \<Rightarrow>
       rbind (opt_text (get_or d ''repository'' JNull)) (\<lambda>repository.
       rbind (opt_text (get_or d ''description'' JNull)) (\<lambda>description.
       rbind (opt_text (get_or d ''default-reference'' JNull)) (\<lambda>default_reference.
       rbind (rbind (opt_text (get_or d ''installed-version'' JNull)) (read_version sv)) (\<lambda>version.
       rbind (flag (get_or d ''installed'' (JBool False))) (\<lambda>installed.
       rbind (flag (get_or d ''built-in'' (JBool False))) (\<lambda>built_in.
       rbind (opt_text (get_or d ''image-id'' JNull)) (\<lambda>image_id.
         Inr \<lparr>pe_name = name, pe_repository = repository, pe_description = description,
              pe_default_reference = default_reference, pe_version = version, pe_installed = installed,
              pe_built_in = built_in, pe_image_id = image_id\<rparr>)))))))
   | _ \<Rightarrow> Inl AttributeError)"

definition package_to_dict :: "('v, 'c) semver \<Rightarrow> 'v pkg_entry \<Rightarrow> json" where
  "package_to_dict sv e = JObj
     [(''repository'', text_opt (pe_repository e)),
      (''description'', text_opt (pe_description e)),
      (''default-reference'', text_opt (pe_default_reference e)),
      (''installed-version'', text_opt (map_option (v_str sv) (pe_version e))),
      (''installed'', JBool (pe_installed e)),
      (''built-in'', JBool (pe_built_in e)),
      (''image-id'', text_opt (pe_image_id e))]"

section \<open>The database\<close>

text \<open>\<open>saves\<close> tells whether an \<open>on_save\<close> callback was given; \<open>db_file\<close> is the content of the file.\<close>

record 'v pkg_store =
  entries :: "(string \<times> 'v pkg_entry) list"
  saves :: bool
  db_file :: json

definition get_package :: "'v pkg_store \<Rightarrow> string \<Rightarrow> err + 'v pkg_entry" where
  "get_package st name = (case map_of (entries st) name of None \<Rightarrow> Inl PackageNotFoundError | Some e \<Rightarrow> Inr e)"

definition has_package :: "'v pkg_store \<Rightarrow> string \<Rightarrow> bool" where
  "has_package st name = (case get_package st name of Inr _ \<Rightarrow> True | Inl _ \<Rightarrow> False)"

definition add_package ::
    "'v pkg_store \<Rightarrow> string \<Rightarrow> string option \<Rightarrow> string option \<Rightarrow> string option \<Rightarrow> err + 'v pkg_store" where
  "add_package st name repository description default_reference =
     (if has_package st name then Inl PackageAlreadyExistsError
      else Inr (st\<lparr>entries := AList.update name (new_entry name repository description default_reference) (entries st)\<rparr>))"

definition remove_package :: "'v pkg_store \<Rightarrow> string \<Rightarrow> err + 'v pkg_store" where
  "remove_package st name =
     rbind (get_package st name) (\<lambda>pkg.
       if pe_built_in pkg then Inl PackageManagerError
       else if pe_installed pkg then Inl PackageManagerError
       else Inr (st\<lparr>entries := AList.delete name (entries st)\<rparr>))"

definition update_package :: "'v pkg_store \<Rightarrow> 'v pkg_entry \<Rightarrow> err + 'v pkg_store" where
  "update_package st pkg =
     (if \<not> has_package st (pe_name pkg) then Inl PackageNotFoundError
      else Inr (st\<lparr>entries := AList.update (pe_name pkg) pkg (entries st)\<rparr>))"

definition database_iter :: "'v pkg_store \<Rightarrow> (err, 'v pkg_entry) gen" where
  "database_iter st = map (\<lambda>(name, _). get_package st name) (entries st)"

definition save_document :: "('v, 'c) semver \<Rightarrow> (string \<times> 'v pkg_entry) list \<Rightarrow> json" where
  "save_document sv es = JObj (map (\<lambda>(name, e). (name, package_to_dict sv e)) es)"

definition commit :: "('v, 'c) semver \<Rightarrow> 'v pkg_store \<Rightarrow> 'v pkg_store" where
  "commit sv st = (if saves st then st\<lparr>db_file := save_document sv (entries st)\<rparr> else st)"

definition from_file :: "('v, 'c) semver \<Rightarrow> json \<Rightarrow> err + 'v pkg_store" where
  "from_file sv doc = (case doc of
     JObj d \<Rightarrow>
       rbind (rmapM (\<lambda>(k, info). rbind (package_from_dict sv k info) (\<lambda>e. Inr (k, e))) d) (\<lambda>es.
         Inr \<lparr>entries = es, saves = True, db_file = doc\<rparr>)
   | _ \<Rightarrow> Inl TypeError)"

section \<open>The invariant\<close>

definition db_wf :: "'v pkg_store \<Rightarrow> bool" where
  "db_wf st \<longleftrightarrow> distinct (map fst (entries st)) \<and> (\<forall>(name, e) \<in> set (entries st). pe_name e = name)"

lemma db_wf_update: "db_wf st \<Longrightarrow> db_wf (st\<lparr>entries := AList.update (pe_name e) e (entries st)\<rparr>)"
  using set_update_subset[of "pe_name e" e "entries st"]
  by (fastforce simp: db_wf_def distinct_update)

lemma db_wf_delete: "db_wf st \<Longrightarrow> db_wf (st\<lparr>entries := AList.delete n (entries st)\<rparr>)"
  by (auto simp: db_wf_def AList.delete_eq distinct_map_filter)

lemma new_entry_name [simp]: "pe_name (new_entry n r d f) = n"
  by (simp add: new_entry_def)

lemma has_package_iff: "has_package st n \<longleftrightarrow> map_of (entries st) n \<noteq> None"
  by (simp add: has_package_def get_package_def split: option.splits)

lemma opt_text_opt [simp]: "opt_text (text_opt s) = Inr s"
  by (cases s) simp_all

lemma read_version_str: "semver_ok sv \<Longrightarrow> read_version sv (map_option (v_str sv) v) = Inr v"
  by (cases v) (simp_all add: read_version_def semver_okD)

lemma package_dict_roundtrip:
  "semver_ok sv \<Longrightarrow> package_from_dict sv (pe_name e) (package_to_dict sv e) = Inr e"
  by (simp add: package_from_dict_def package_to_dict_def get_or_def read_version_str)

section \<open>Properties\<close>

text \<open>C29. The operations of the package database are those of a map from names to entries: an entry is
  found exactly when it is there, adding refuses a name that exists, updating one that does not, and
  removing an entry that is missing, built in or installed; the entries stay keyed by their own names.\<close>

theorem package_database_spec:
  assumes "db_wf st"
  shows "(get_package st n = (case map_of (entries st) n of None \<Rightarrow> Inl PackageNotFoundError | Some e \<Rightarrow> Inr e)) \<and>
    (case add_package st n r d f of
       Inl e \<Rightarrow> e = PackageAlreadyExistsError \<and> n \<in> dom (map_of (entries st))
     | Inr st' \<Rightarrow> n \<notin> dom (map_of (entries st)) \<and> db_wf st' \<and>
         map_of (entries st') = (map_of (entries st))(n \<mapsto> new_entry n r d f)) \<and>
    (case update_package st pkg of
       Inl e \<Rightarrow> e = PackageNotFoundError \<and> pe_name pkg \<notin> dom (map_of (entries st))
     | Inr st' \<Rightarrow> pe_name pkg \<in> dom (map_of (entries st)) \<and> db_wf st' \<and>
         map_of (entries st') = (map_of (entries st))(pe_name pkg \<mapsto> pkg)) \<and>
    (case remove_package st n of
       Inl e \<Rightarrow> (case map_of (entries st) n of
           None \<Rightarrow> e = PackageNotFoundError
         | Some p \<Rightarrow> e = PackageManagerError \<and> (pe_built_in p \<or> pe_installed p))
     | Inr st' \<Rightarrow> db_wf st' \<and> map_of (entries st') = (map_of (entries st))(n := None) \<and>
         (case map_of (entries st) n of None \<Rightarrow> False | Some p \<Rightarrow> \<not> pe_built_in p \<and> \<not> pe_installed p))"
    (is "?get \<and> ?add \<and> ?upd \<and> ?rem")
proof (intro conjI)
  show ?get by (simp add: get_package_def)
  show ?add using db_wf_update[OF assms, of "new_entry n r d f"]
    by (auto simp: add_package_def has_package_iff update_conv')
  show ?upd using db_wf_update[OF assms, of pkg]
    by (auto simp: update_package_def has_package_iff update_conv')
  show ?rem using db_wf_delete[OF assms, of n]
    by (auto simp: remove_package_def get_package_def delete_conv' split: option.splits)
qed

definition sample_store :: "nat pkg_store" where
  "sample_store = \<lparr>entries = [(''lldp'', (new_entry ''lldp'' (Some ''docker-lldp'') None None)\<lparr>pe_installed := True,
     pe_built_in := True\<rparr>)], saves = True, db_file = JObj []\<rparr>"

lemma sample_store_wf: "db_wf sample_store"
  by (simp add: db_wf_def sample_store_def)

theorem package_database_spec_witness:
  "remove_package sample_store ''lldp'' = Inl PackageManagerError \<and>
   get_package sample_store ''lldp'' \<noteq> Inl PackageNotFoundError"
  using package_database_spec[OF sample_store_wf, of "''lldp''"]
  by (simp add: sample_store_def remove_package_def get_package_def new_entry_def)

text \<open>Reading the file a commit wrote gives the entries that were committed.\<close>

theorem commit_from_file_roundtrip:
  assumes "semver_ok sv" and "db_wf st" and "saves st"
  shows "\<exists>st'. from_file sv (db_file (commit sv st)) = Inr st' \<and> entries st' = entries st \<and> db_wf st'"
proof -
  have "rmapM (\<lambda>(k, info). rbind (package_from_dict sv k info) (\<lambda>e. Inr (k, e)))
      (map (\<lambda>(name, e). (name, package_to_dict sv e)) es) = Inr es"
    if "\<forall>(name, e) \<in> set es. pe_name e = name" for es
    using that package_dict_roundtrip[OF assms(1)] by (induction es) auto
  with assms(2,3) show ?thesis
    by (simp add: from_file_def commit_def save_document_def db_wf_def)
qed

theorem commit_from_file_roundtrip_witness:
  "\<exists>st'. from_file sample_semver (db_file (commit sample_semver sample_store)) = Inr st' \<and>
     entries st' = entries sample_store \<and> db_wf st'"
  by (rule commit_from_file_roundtrip[OF sample_semver_ok sample_store_wf]) (simp add: sample_store_def)

end
