(* ===== verification/PkgChecks.thy ===== *)
theory PkgChecks
  imports FeatureRegistry PkgDatabase
begin

text \<open>
  The checks before an installation (\<open>sonic_package_manager/manager.py\<close>: \<open>validate_package_base_os_constraints\<close>,
  \<open>validate_package_tree\<close>, \<open>validate_package_cli_can_be_skipped\<close>) and the package object they look at
  (\<open>package.py\<close>). \<open>tree_ok\<close> says what a consistent set of packages is; the main result is that the
  tree check accepts exactly the consistent sets in which no conflict names an installed package
  with components.
\<close>

record ('v, 'c) package =
  pk_entry :: "'v pkg_entry"
  pk_manifest :: "('v, 'c) mval"
  pk_components :: "(string \<times> 'v) list"
  pk_yang :: "string option"

definition pk_name :: "('v, 'c) package \<Rightarrow> string" where
  "pk_name p = pe_name (pk_entry p)"

definition pk_version :: "('v, 'c) package \<Rightarrow> 'v option" where
  "pk_version p = pe_version (pk_entry p)"

type_synonym ('v, 'c) packages = "(string \<times> ('v, 'c) package) list"

section \<open>Base OS\<close>

definition as_components :: "('v, 'c) mval \<Rightarrow> err + 'c components" where
  "as_components x = (case x of MComps cs \<Rightarrow> Inr cs | _ \<Rightarrow> Inl AttributeError)"

fun base_os_loop :: "('v, 'c) semver \<Rightarrow> (string \<times> string) list \<Rightarrow> 'c components \<Rightarrow> err + unit" where
  "base_os_loop sv info [] = Inr ()"
| "base_os_loop sv info ((component, constraint) # rest) =
     (case map_of info component of
        None \<Rightarrow> Inl PackageSonicRequirementError
      | Some text \<Rightarrow> rbind (v_parse sv text) (\<lambda>version.
          if \<not> allows sv constraint version then Inl PackageSonicRequirementError
          else base_os_loop sv info rest))"

definition validate_package_base_os_constraints ::
    "('v, 'c) semver \<Rightarrow> ('v, 'c) package \<Rightarrow> (string \<times> string) list \<Rightarrow> err + unit" where
  "validate_package_base_os_constraints sv package sonic_version_info =
     rbind (rbind (mpath (pk_manifest package) [''package'', ''base-os'']) as_components)
       (base_os_loop sv sonic_version_info)"

section \<open>Dependencies and conflicts\<close>

text \<open>\<open>packages.get(name)\<close>: a list or a dictionary is not hashable.\<close>

definition packages_get :: "('v, 'c) packages \<Rightarrow> json \<Rightarrow> err + ('v, 'c) package option" where
  "packages_get packages name = (case name of
     JStr s \<Rightarrow> Inr (map_of packages s)
   | JArr _ \<Rightarrow> Inl TypeError
   | JObj _ \<Rightarrow> Inl TypeError
   | _ \<Rightarrow> Inr None)"

text \<open>\<open>allows\<close> reads an attribute of its argument, which \<open>None\<close> does not have.\<close>

definition allows_opt :: "('v, 'c) semver \<Rightarrow> 'c \<Rightarrow> 'v option \<Rightarrow> err + bool" where
  "allows_opt sv c v = (case v of None \<Rightarrow> Inl AttributeError | Some w \<Rightarrow> Inr (allows sv c w))"

definition implicit_expression :: "('v, 'c) semver \<Rightarrow> 'v \<Rightarrow> string" where
  "implicit_expression sv v = ''^'' @ nat_str (v_major sv v) @ ''.'' @ nat_str (v_minor sv v) @ ''.0''"

definition dependency_components ::
    "('v, 'c) semver \<Rightarrow> ('v, 'c) package \<Rightarrow> 'c pkg_constraint \<Rightarrow> err + 'c components" where
  "dependency_components sv package dependency =
     (if pc_components dependency \<noteq> [] then Inr (pc_components dependency)
      else rmapM (\<lambda>(component, version). rbind (c_parse sv (implicit_expression sv version)) (\<lambda>c. Inr (component, c)))
             (pk_components package))"

fun components_loop :: "('v, 'c) semver \<Rightarrow> (string \<times> 'v) list \<Rightarrow> 'c components \<Rightarrow> err + unit" where
  "components_loop sv have [] = Inr ()"
| "components_loop sv have ((component, constraint) # rest) =
     (case map_of have component of
        None \<Rightarrow> Inl PackageComponentDependencyError
      | Some v \<Rightarrow> if \<not> allows sv constraint v then Inl PackageComponentDependencyError
          else components_loop sv have rest)"

definition check_dependency ::
    "('v, 'c) semver \<Rightarrow> ('v, 'c) packages \<Rightarrow> ('v, 'c) package \<Rightarrow> 'c pkg_constraint \<Rightarrow> err + unit" where
  "check_dependency sv packages package dependency =
     rbind (packages_get packages (pc_name dependency)) (\<lambda>found. case found of
       None \<Rightarrow> Inl PackageDependencyError
     | Some dependency_package \<Rightarrow>
         rbind (allows_opt sv (pc_constraint dependency) (pk_version dependency_package)) (\<lambda>ok.
           if \<not> ok then Inl PackageDependencyError
           else rbind (dependency_components sv package dependency) (components_loop sv (pk_components dependency_package))))"

text \<open>
  The loop over the components of a conflicting package calls \<open>allows\<close> on the component's version: a
  \<open>Version\<close> has no such attribute.
\<close>

definition check_conflict ::
    "('v, 'c) semver \<Rightarrow> ('v, 'c) packages \<Rightarrow> 'c pkg_constraint \<Rightarrow> err + unit" where
  "check_conflict sv packages conflict =
     rbind (packages_get packages (pc_name conflict)) (\<lambda>found. case found of
       None \<Rightarrow> Inr ()
     | Some conflicting_package \<Rightarrow>
         rbind (allows_opt sv (pc_constraint conflict) (pk_version conflicting_package)) (\<lambda>hit.
           if hit then Inl PackageConflictError
           else if pk_components conflicting_package \<noteq> [] then Inl AttributeError
           else Inr ()))"

definition as_package :: "('v, 'c) mval \<Rightarrow> err + 'c pkg_constraint" where
  "as_package x = (case x of MPackage p \<Rightarrow> Inr p | _ \<Rightarrow> Inl AttributeError)"

definition m_constraints :: "('v, 'c) mval \<Rightarrow> string list \<Rightarrow> err + 'c pkg_constraint list" where
  "m_constraints m p = rbind (rbind (mpath m p) as_list) (rmapM as_package)"

fun each :: "('a \<Rightarrow> err + unit) \<Rightarrow> 'a list \<Rightarrow> err + unit" where
  "each f [] = Inr ()"
| "each f (x # xs) = rbind (f x) (\<lambda>_. each f xs)"

definition check_package :: "('v, 'c) semver \<Rightarrow> ('v, 'c) packages \<Rightarrow> ('v, 'c) package \<Rightarrow> err + unit" where
  "check_package sv packages package =
     rbind (m_constraints (pk_manifest package) [''package'', ''depends'']) (\<lambda>depends.
     rbind (each (check_dependency sv packages package) depends) (\<lambda>_.
     rbind (m_constraints (pk_manifest package) [''package'', ''breaks'']) (\<lambda>breaks.
       each (check_conflict sv packages) breaks)))"

definition validate_package_tree :: "('v, 'c) semver \<Rightarrow> ('v, 'c) packages \<Rightarrow> err + unit" where
  "validate_package_tree sv packages = each (\<lambda>(_, package). check_package sv packages package) packages"

definition validate_package_cli_can_be_skipped :: "('v, 'c) package \<Rightarrow> bool \<Rightarrow> err + unit" where
  "validate_package_cli_can_be_skipped package skip =
     rbind (m_bool (pk_manifest package) [''cli'', ''mandatory'']) (\<lambda>mandatory.
       if mandatory \<and> skip then Inl PackageManagerError else Inr ())"

section \<open>What the tree check accepts\<close>

lemma each_Inr: "each f xs = Inr u \<longleftrightarrow> (\<forall>x \<in> set xs. f x = Inr ())"
  by (induction xs) (auto simp: rbind_eq_Inr)

lemma components_loop_Inr:
  "components_loop sv have cs = Inr u \<longleftrightarrow>
     (\<forall>(component, c) \<in> set cs. \<exists>v. map_of have component = Some v \<and> allows sv c v)"
  by (induction cs) (auto split: option.splits if_splits)

lemma base_os_loop_Inr:
  "base_os_loop sv info cs = Inr u \<longleftrightarrow>
     (\<forall>(component, c) \<in> set cs. \<exists>t v. map_of info component = Some t \<and> v_parse sv t = Inr v \<and> allows sv c v)"
  by (induction cs) (auto simp: rbind_eq_Inr split: option.splits if_splits)

text \<open>A dependency is met by an installed package of an allowed version with the components asked for.\<close>

definition dependency_met ::
    "('v, 'c) semver \<Rightarrow> ('v, 'c) packages \<Rightarrow> ('v, 'c) package \<Rightarrow> 'c pkg_constraint \<Rightarrow> bool" where
  "dependency_met sv packages package d \<longleftrightarrow>
     (\<exists>n q v cs. pc_name d = JStr n \<and> map_of packages n = Some q \<and> pk_version q = Some v \<and>
        allows sv (pc_constraint d) v \<and> dependency_components sv package d = Inr cs \<and>
        (\<forall>(component, c) \<in> set cs. \<exists>w. map_of (pk_components q) component = Some w \<and> allows sv c w))"

text \<open>A conflict is absent when no package of that name is there, or it has a version outside the range.\<close>

definition conflict_absent :: "('v, 'c) semver \<Rightarrow> ('v, 'c) packages \<Rightarrow> 'c pkg_constraint \<Rightarrow> bool" where
  "conflict_absent sv packages b \<longleftrightarrow> (case pc_name b of
     JStr n \<Rightarrow> (case map_of packages n of
         None \<Rightarrow> True
       | Some q \<Rightarrow> (case pk_version q of None \<Rightarrow> False | Some v \<Rightarrow> \<not> allows sv (pc_constraint b) v))
   | JArr _ \<Rightarrow> False
   | JObj _ \<Rightarrow> False
   | _ \<Rightarrow> True)"

definition has_components :: "('v, 'c) packages \<Rightarrow> 'c pkg_constraint \<Rightarrow> bool" where
  "has_components packages b \<longleftrightarrow> (case pc_name b of
     JStr n \<Rightarrow> (case map_of packages n of None \<Rightarrow> False | Some q \<Rightarrow> pk_components q \<noteq> [])
   | _ \<Rightarrow> False)"

lemma check_dependency_Inr: "check_dependency sv packages p d = Inr u \<longleftrightarrow> dependency_met sv packages p d"
  by (auto simp: check_dependency_def dependency_met_def packages_get_def allows_opt_def rbind_eq_Inr components_loop_Inr
      split: json.splits option.splits if_splits)

lemma check_conflict_Inr:
  "check_conflict sv packages b = Inr u \<longleftrightarrow> conflict_absent sv packages b \<and> \<not> has_components packages b"
  by (auto simp: check_conflict_def conflict_absent_def has_components_def packages_get_def allows_opt_def rbind_eq_Inr
      split: json.splits option.splits if_splits)

text \<open>C38. The tree check accepts exactly the sets of packages in which the dependencies and the conflicts of every
  package can be read, every dependency is met by an installed package of an allowed version with the components asked
  for (where none are listed, with those of the depending package, in compatible versions), no declared conflict is
  present, and, beyond what the function's documentation says, no declared conflict names an installed package that has
  components: for such a package the check raises even when its version is outside the conflict
  (\<open>harmless_conflict_crashes\<close>).\<close>

theorem validate_package_tree_spec:
  "validate_package_tree sv packages = Inr () \<longleftrightarrow>
     (\<forall>(n, p) \<in> set packages.
        \<exists>ds bs. m_constraints (pk_manifest p) [''package'', ''depends''] = Inr ds \<and>
          m_constraints (pk_manifest p) [''package'', ''breaks''] = Inr bs \<and>
          list_all (dependency_met sv packages p) ds \<and>
          list_all (\<lambda>b. conflict_absent sv packages b \<and> \<not> has_components packages b) bs)"
  unfolding validate_package_tree_def check_package_def
  by (fastforce simp: each_Inr rbind_eq_Inr check_dependency_Inr check_conflict_Inr list_all_iff)

text \<open>A package that declares a conflict makes the check crash with an attribute error as soon as the
  other package is installed in a version outside the conflict and has components.\<close>

theorem harmless_conflict_crashes:
  assumes "pc_name b = JStr n" and "map_of packages n = Some q" and "pk_version q = Some v"
    and "allows sv (pc_constraint b) v = False" and "pk_components q = c # cs"
  shows "check_conflict sv packages b = Inl AttributeError"
  using assms by (simp add: check_conflict_def packages_get_def allows_opt_def)

definition sample_package :: "string \<Rightarrow> nat \<Rightarrow> (string \<times> nat) list \<Rightarrow> (nat, nat option) package" where
  "sample_package name v comps = \<lparr>pk_entry = (new_entry name (Some name) None None)\<lparr>pe_version := Some v, pe_installed := True\<rparr>,
     pk_manifest = sample_manifest, pk_components = comps, pk_yang = None\<rparr>"

theorem harmless_conflict_crashes_witness:
  "check_conflict sample_semver [(''swss'', sample_package ''swss'' 2 [(''libswsscommon'', 1)])]
     \<lparr>pc_name = JStr ''swss'', pc_constraint = Some 1, pc_components = []\<rparr> = Inl AttributeError"
  by (rule harmless_conflict_crashes[of _ "''swss''" _ "sample_package ''swss'' 2 [(''libswsscommon'', 1)]" 2 _ "(''libswsscommon'', 1)" "[]"])
     (simp_all add: sample_package_def pk_version_def allows_def sample_semver_def)

lemma sample_constraints:
  "m_constraints sample_manifest [''package'', ''depends''] =
     Inr [\<lparr>pc_name = JStr ''swss'', pc_constraint = None, pc_components = []\<rparr>]"
  "m_constraints sample_manifest [''package'', ''breaks''] = Inr []"
  by (simp_all add: sample_manifest_def manifest_eval sample_semver_eval sample_doc_def manifest_access
      m_constraints_def as_package_def)

theorem validate_package_tree_spec_witness:
  "validate_package_tree sample_semver [(''p'', sample_package ''p'' 3 []), (''swss'', sample_package ''swss'' 2 [])] = Inr ()"
proof -
  have "pk_manifest (sample_package n v cs) = sample_manifest" for n v cs by (simp add: sample_package_def)
  then show ?thesis
    by (subst validate_package_tree_spec)
       (simp add: sample_constraints dependency_met_def dependency_components_def sample_package_def pk_version_def
         allows_def sample_semver_def)
qed

end
