(* ===== verification/PkgMetadata.thy ===== *)
theory PkgMetadata
  imports PkgChecks
begin

text \<open>
  The metadata of a package image (\<open>sonic_package_manager/metadata.py\<close>, \<open>utils.py\<close>): image labels are
  turned into a tree, and manifest, component versions and YANG module are read from it. Decoding
  the JSON text of the manifest label is the parameter \<open>loads\<close>.
\<close>

section \<open>Deep update\<close>

text \<open>
  The destination is updated in place by the code; a nested dictionary of the source never becomes part
  of it, only its values do, so passing the updated document on is the same.
\<close>

function deep_update :: "json \<Rightarrow> dict \<Rightarrow> err + json" where
  "deep_update dst [] = Inr dst"
| "deep_update dst ((key, value) # rest) =
     rbind (case value of
         JObj src \<Rightarrow> (case dst of
             JObj d \<Rightarrow> rbind (deep_update (get_or d key (JObj [])) src) (\<lambda>node. Inr (JObj (AList.update key node d)))
           | _ \<Rightarrow> Inl AttributeError)
       | _ \<Rightarrow> (case dst of JObj d \<Rightarrow> Inr (JObj (AList.update key value d)) | _ \<Rightarrow> Inl TypeError))
       (\<lambda>dst. deep_update dst rest)"
  by pat_completeness auto
termination
  by (relation "measure (\<lambda>(_, src). size_list (size_prod (\<lambda>_. 0) size) src)") auto

section \<open>Labels\<close>

text \<open>\<open>split(sep, 1)\<close> of a key that has a dot, for the separator \<open>.\<close>, which is never another.\<close>

function plain_entry :: "string \<Rightarrow> json \<Rightarrow> dict \<Rightarrow> err + dict" where
  "plain_entry key value res =
     (if CHR ''.'' \<notin> set key then Inr (AList.update key value res)
      else let namespace = takeWhile (\<lambda>c. c \<noteq> CHR ''.'') key;
               rest = tl (dropWhile (\<lambda>c. c \<noteq> CHR ''.'') key) in
        rbind (plain_entry rest value []) (\<lambda>sub.
        rbind (deep_update (get_or res namespace (JObj [])) sub) (\<lambda>node.
          Inr (AList.update namespace node res))))"
  by pat_completeness auto
termination
proof (relation "measure (\<lambda>(key, _, _). length key)")
  fix key :: string and v :: json and d :: dict and rest :: string
  assume 2: "\<not> CHR ''.'' \<notin> set key" "rest = tl (dropWhile (\<lambda>c. c \<noteq> CHR ''.'') key)"
  then have "dropWhile (\<lambda>c. c \<noteq> CHR ''.'') key \<noteq> []" by (auto simp: dropWhile_eq_Nil_conv)
  then have "length (tl (dropWhile (\<lambda>c. c \<noteq> CHR ''.'') key)) < length (dropWhile (\<lambda>c. c \<noteq> CHR ''.'') key)"
    by (cases "dropWhile (\<lambda>c. c \<noteq> CHR ''.'') key") auto
  also have "\<dots> \<le> length key" by (rule length_dropWhile_le)
  finally show "((rest, v, []), key, v, d) \<in> measure (\<lambda>(key, _, _). length key)" using 2 by simp
qed simp

declare plain_entry.simps [simp del]

definition translate_plain_to_tree :: "(string \<times> string) list \<Rightarrow> err + dict" where
  "translate_plain_to_tree plain = rfoldM (\<lambda>res (key, value). plain_entry key (JStr value) res) [] plain"

record ('v, 'c) metadata =
  md_manifest :: "('v, 'c) mval"
  md_components :: "(string \<times> 'v) list"
  md_yang :: "string option"

definition key_or_metadata :: "json \<Rightarrow> string \<Rightarrow> err + json" where
  "key_or_metadata v k = map_error (\<lambda>e. if e = KeyError then MetadataError else e) (py_key v k)"

definition component_versions :: "('v, 'c) semver \<Rightarrow> dict \<Rightarrow> err + (string \<times> 'v) list" where
  "component_versions sv sonic = (case map_of sonic ''versions'' of
     None \<Rightarrow> Inr []
   | Some (JObj vs) \<Rightarrow> rmapM (\<lambda>(component, version).
       rbind (case version of
           JStr s \<Rightarrow> map_error (\<lambda>e. if e = ValueError then MetadataError else e) (v_parse sv s)
         | _ \<Rightarrow> Inl TypeError) (\<lambda>v. Inr (component, v))) vs
   | Some _ \<Rightarrow> Inl AttributeError)"

definition from_labels ::
    "('v, 'c) semver \<Rightarrow> (string \<Rightarrow> err + json) \<Rightarrow> (string \<times> string) list \<Rightarrow> err + ('v, 'c) metadata" where
  "from_labels sv loads labels =
     rbind (translate_plain_to_tree labels) (\<lambda>metadata_dict.
     rbind (rbind (key_or_metadata (JObj metadata_dict) ''com'') (\<lambda>com.
            rbind (key_or_metadata com ''azure'') (\<lambda>azure. key_or_metadata azure ''sonic''))) (\<lambda>sonic_metadata.
     rbind (key_or_metadata sonic_metadata ''manifest'') (\<lambda>manifest_string.
     rbind (case manifest_string of
         JStr s \<Rightarrow> map_error (\<lambda>e. if e = ValueError \<or> e = TypeError then MetadataError else e) (loads s)
       | _ \<Rightarrow> Inl MetadataError) (\<lambda>manifest_dict.
     rbind (case sonic_metadata of JObj d \<Rightarrow> Inr d | _ \<Rightarrow> Inl TypeError) (\<lambda>sonic.
     rbind (component_versions sv sonic) (\<lambda>components.
     rbind (manifest_marshal sv manifest_dict) (\<lambda>manifest.
       Inr \<lparr>md_manifest = manifest, md_components = components,
            md_yang = (case map_of sonic ''yang-module'' of Some (JStr s) \<Rightarrow> Some s | _ \<Rightarrow> None)\<rparr>)))))))"

lemma deep_update_empty: "deep_update dst [] = Inr dst"
  by simp

lemma from_labels_example:
  "from_labels sample_semver (\<lambda>s. Inr sample_doc)
     [(''com.azure.sonic.manifest'', ''{}''), (''com.azure.sonic.versions.lib'', ''7'')] =
   Inr \<lparr>md_manifest = sample_manifest, md_components = [(''lib'', 7)], md_yang = None\<rparr>"
proof -
  have "manifest_marshal sample_semver sample_doc = Inr sample_manifest"
    using sample_marshals by (auto simp: sample_manifest_def)
  then show ?thesis
    by (simp add: from_labels_def translate_plain_to_tree_def plain_entry.simps get_or_def key_or_metadata_def
        component_versions_def map_error_def sample_semver_eval)
qed

end
