(* ===== verification/ServiceCreator.thy ===== *)
theory ServiceCreator
  imports PkgMetadata PathAddressing
begin

text \<open>
  Creating and removing the service of a package
  (\<open>sonic_package_manager/service_creator/creator.py\<close>). The state \<open>host\<close> holds the files the code writes,
  the databases, and two parts that only third-party code looks into: the rest of the machine (Docker,
  systemd) and the YANG modules with the generated CLI. What those parts and the template engine do
  is the parameter \<open>env\<close>.
\<close>

section \<open>The host\<close>

record ('d, 'y, 'r) host =
  files :: "(string \<times> string) list"
  execs :: "string list"
  dbs :: "'r sonic_dbs"
  ext :: 'd
  yangs :: 'y
  chroot :: bool

text \<open>
  \<open>render\<close> is the template engine on the text of a template, \<open>set_order\<close> the order Python lists a
  set in, \<open>toposort\<close> the package of that name (\<open>None\<close> for a circular graph). The functions on \<open>'d\<close> run a shell command and talk to the Docker daemon, those on
  \<open>'y\<close> are \<open>ConfigMgmt\<close> and \<open>CliGenerator\<close>; the last group reads image labels; \<open>validated_mod\<close> is \<open>mod_entry\<close> of the validating connector and
  \<open>state_events\<close> what the subscription to a feature's state delivers.
\<close>

type_synonym ('s, 'a) op = "'s \<Rightarrow> (err + 'a) \<times> 's"

datatype sel_event = SelTimeout | SelError | SelUpdate string "string option"

record image =
  img_id :: string
  img_repotags :: "string list"

record ('v, 'c, 'd, 'y, 'r) env =
  semver :: "('v, 'c) semver"
  run_l :: "'r run_lib"
  render :: "string \<Rightarrow> dict \<Rightarrow> err + string"
  set_order :: "string list \<Rightarrow> string list"
  toposort :: "(string \<times> string list) list \<Rightarrow> string list option"
  run_cmd :: "string \<Rightarrow> 'd \<Rightarrow> int \<times> 'd"
  y_module_name :: "'y \<Rightarrow> string \<Rightarrow> err + string"
  y_tables :: "'y \<Rightarrow> (string \<times> string option) list"
  y_add :: "string \<Rightarrow> ('y, unit) op"
  y_remove :: "string \<Rightarrow> ('y, unit) op"
  y_load :: "json \<Rightarrow> ('y, unit) op"
  y_gen_cli :: "string \<Rightarrow> string \<Rightarrow> ('y, unit) op"
  y_remove_cli :: "string \<Rightarrow> string \<Rightarrow> ('y, unit) op"
  d_pull :: "string option \<Rightarrow> string option \<Rightarrow> ('d, image) op"
  d_load :: "string \<Rightarrow> ('d, image) op"
  d_rmi :: "string option \<Rightarrow> ('d, unit) op"
  d_rm_by_ancestor :: "string option \<Rightarrow> ('d, unit) op"
  d_extract :: "string option \<Rightarrow> string \<Rightarrow> ('d, string) op"
  d_labels :: "'d \<Rightarrow> string option \<Rightarrow> err + (string \<times> string) list option"
  r_labels :: "string option \<Rightarrow> string option \<Rightarrow> err + (string \<times> string) list option"
  t_labels :: "string \<Rightarrow> err + (string \<times> string) list option"
  loads :: "string \<Rightarrow> err + json"
  docker_ref :: "string \<Rightarrow> err + string \<times> string option \<times> string option"
  plugin_dir :: "string \<Rightarrow> string option"
  validated_mod :: "'r \<Rightarrow> string \<Rightarrow> string \<Rightarrow> dict \<Rightarrow> err + 'r"
  state_events :: "string \<Rightarrow> string \<Rightarrow> 'd \<Rightarrow> sel_event list"

type_synonym ('d, 'y, 'r, 'm, 'a) hact = "(('d, 'y, 'r, 'm) host_scheme, err, 'a) act"

definition on_ext :: "('d, 'a) op \<Rightarrow> ('d, 'y, 'r, 'm, 'a) hact" where
  "on_ext f w = (let (r, d) = f (ext w) in (r, w\<lparr>ext := d\<rparr>))"

definition on_yang :: "('y, 'a) op \<Rightarrow> ('d, 'y, 'r, 'm, 'a) hact" where
  "on_yang f w = (let (r, y) = f (yangs w) in (r, w\<lparr>yangs := y\<rparr>))"

definition with_dbs :: "('r sonic_dbs \<Rightarrow> err + 'r sonic_dbs) \<Rightarrow> ('d, 'y, 'r, 'm, unit) hact" where
  "with_dbs f w = (case f (dbs w) of Inl e \<Rightarrow> (Inl e, w) | Inr d \<Rightarrow> (Inr (), w\<lparr>dbs := d\<rparr>))"

definition ask :: "(('d, 'y, 'r, 'm) host_scheme \<Rightarrow> err + 'a) \<Rightarrow> ('d, 'y, 'r, 'm, 'a) hact" where
  "ask f w = (f w, w)"

section \<open>Files and commands\<close>

definition read_file :: "string \<Rightarrow> ('d, 'y, 'r, 'm, string) hact" where
  "read_file p = ask (\<lambda>w. case map_of (files w) p of None \<Rightarrow> Inl FileNotFoundError | Some c \<Rightarrow> Inr c)"

definition file_exists :: "string \<Rightarrow> ('d, 'y, 'r, 'm) host_scheme \<Rightarrow> bool" where
  "file_exists p w \<longleftrightarrow> map_of (files w) p \<noteq> None"

definition write_file :: "string \<Rightarrow> string \<Rightarrow> ('d, 'y, 'r, 'm, unit) hact" where
  "write_file p c = act_do (\<lambda>w. w\<lparr>files := AList.update p c (files w)\<rparr>)"

definition delete_file :: "string \<Rightarrow> ('d, 'y, 'r, 'm, unit) hact" where
  "delete_file p = act_do (\<lambda>w. w\<lparr>files := AList.delete p (files w), execs := removeAll p (execs w)\<rparr>)"

definition set_executable_bit :: "string \<Rightarrow> ('d, 'y, 'r, 'm, unit) hact" where
  "set_executable_bit p = act_do (\<lambda>w. w\<lparr>execs := List.insert p (execs w)\<rparr>)"

definition remove_if_exists :: "string \<Rightarrow> ('d, 'y, 'r, 'm, unit) hact" where
  "remove_if_exists p w = (if \<not> file_exists p w then (Inr (), w) else delete_file p w)"

definition render_template ::
    "('v, 'c, 'd, 'y, 'r) env \<Rightarrow> string \<Rightarrow> string \<Rightarrow> dict \<Rightarrow> bool \<Rightarrow> ('d, 'y, 'r, 'm, unit) hact" where
  "render_template E in_template outfile render_ctx executable =
     act_bind (read_file in_template) (\<lambda>template.
     seq (write_file outfile '''') (
     act_bind (act_of (render E template render_ctx)) (\<lambda>text.
     seq (write_file outfile text) (act_when executable (set_executable_bit outfile)))))"

definition run_command :: "('v, 'c, 'd, 'y, 'r) env \<Rightarrow> string \<Rightarrow> ('d, 'y, 'r, 'm, unit) hact" where
  "run_command E command =
     act_bind (on_ext (\<lambda>d. let (rc, d') = run_cmd E command d in (Inr rc, d'))) (\<lambda>rc.
       if rc \<noteq> 0 then act_of (Inl ServiceCreatorError) else act_return ())"

definition post_operation_hook :: "('v, 'c, 'd, 'y, 'r) env \<Rightarrow> ('d, 'y, 'r, 'm, unit) hact" where
  "post_operation_hook E w = (if \<not> chroot w then run_command E ''systemctl daemon-reload'' w else (Inr (), w))"

section \<open>Generating files\<close>

definition "SYSTEMD_LOCATION = ''/usr/lib/systemd/system''"
definition "SERVICE_MGMT_SCRIPT_LOCATION = ''/usr/local/bin''"
definition "DOCKER_CTL_SCRIPT_LOCATION = ''/usr/bin''"
definition "DEBUG_DUMP_SCRIPT_LOCATION = ''/usr/local/bin/debug-dump''"
definition "ETC_SONIC_PATH = ''/etc/sonic''"
definition "TEMPLATES_PATH = ''/usr/share/sonic/templates''"

definition path_join :: "string \<Rightarrow> string \<Rightarrow> string" where
  "path_join d f = d @ ''/'' @ f"

definition get_tmpl_path :: "string \<Rightarrow> string" where
  "get_tmpl_path template_name = path_join TEMPLATES_PATH template_name"

definition as_dict :: "('v, 'c) mval \<Rightarrow> err + dict" where
  "as_dict x = (case x of MJson (JObj d) \<Rightarrow> Inr d | _ \<Rightarrow> Inl TypeError)"

definition m_dict :: "('v, 'c) mval \<Rightarrow> string list \<Rightarrow> err + dict" where
  "m_dict m p = rbind (mpath m p) as_dict"

definition m_list :: "('v, 'c) mval \<Rightarrow> string list \<Rightarrow> err + ('v, 'c) mval list" where
  "m_list m p = rbind (mpath m p) as_list"

definition mount_option :: "('v, 'c) mval \<Rightarrow> err + string" where
  "mount_option mount =
     rbind (m_str mount [''type'']) (\<lambda>mount_type.
     rbind (m_str mount [''source'']) (\<lambda>src.
     rbind (m_str mount [''target'']) (\<lambda>target.
       Inr (''--mount type='' @ mount_type @ '',source='' @ src @ '',target='' @ target))))"

definition run_options :: "('v, 'c) mval \<Rightarrow> err + string" where
  "run_options m =
     rbind (m_bool m [''container'', ''privileged'']) (\<lambda>privileged.
     rbind (m_strs m [''container'', ''volumes'']) (\<lambda>volumes.
     rbind (rbind (m_list m [''container'', ''mounts'']) (rmapM mount_option)) (\<lambda>mounts.
     rbind (m_strs m [''container'', ''tmpfs'']) (\<lambda>tmpfs.
     rbind (m_dict m [''container'', ''environment'']) (\<lambda>environment.
       Inr (join_with '' '' (
         (if privileged then [''--privileged''] else []) @ [''-t'']
         @ map (\<lambda>v. ''-v '' @ v) volumes @ mounts @ map (\<lambda>t. ''--tmpfs '' @ t) tmpfs
         @ map (\<lambda>(env_name, v). ''-e '' @ env_name @ ''='' @ py_str v) environment)))))))"

definition image_json :: "string option \<Rightarrow> json" where
  "image_json i = (case i of None \<Rightarrow> JNull | Some s \<Rightarrow> JStr s)"

definition generate_container_mgmt ::
    "('v, 'c, 'd, 'y, 'r) env \<Rightarrow> ('v, 'c) package \<Rightarrow> ('d, 'y, 'r, 'm, unit) hact" where
  "generate_container_mgmt E package =
     act_bind (act_of (service_name (pk_manifest package))) (\<lambda>name.
     act_bind (act_of (run_options (pk_manifest package))) (\<lambda>run_opt.
       render_template E (get_tmpl_path ''docker_image_ctl.j2'') (path_join DOCKER_CTL_SCRIPT_LOCATION (name @ ''.sh''))
         [(''docker_container_name'', JStr name), (''docker_image_id'', image_json (pe_image_id (pk_entry package))),
          (''docker_image_run_opt'', JStr run_opt)] True))"

definition multi_instance_json :: "('d, 'y, 'r, 'm) host_scheme \<Rightarrow> json" where
  "multi_instance_json w = JArr (map JStr (get_multi_instance_features (dbs w)))"

definition unmarshalled :: "('v, 'c, 'd, 'y, 'r) env \<Rightarrow> ('v, 'c) package \<Rightarrow> ('d, 'y, 'r, 'm, json) hact" where
  "unmarshalled E package = act_of (manifest_unmarshal (semver E) (pk_manifest package))"

definition generate_service_mgmt ::
    "('v, 'c, 'd, 'y, 'r) env \<Rightarrow> ('v, 'c) package \<Rightarrow> ('d, 'y, 'r, 'm, unit) hact" where
  "generate_service_mgmt E package =
     act_bind (act_of (service_name (pk_manifest package))) (\<lambda>name.
     act_bind (ask (\<lambda>w. Inr (multi_instance_json w))) (\<lambda>multi.
     act_bind (unmarshalled E package) (\<lambda>manifest.
       render_template E (get_tmpl_path ''service_mgmt.sh.j2'') (path_join SERVICE_MGMT_SCRIPT_LOCATION (name @ ''.sh''))
         [(''source'', JStr (get_tmpl_path ''service_mgmt.sh.j2'')), (''manifest'', manifest),
          (''multi_instance_services'', multi)] True)))"

definition service_file :: "string \<Rightarrow> bool \<Rightarrow> string \<Rightarrow> string" where
  "service_file name multi kind = path_join SYSTEMD_LOCATION (name @ (if multi then ''@'' else '''') @ kind)"

definition generate_systemd_service ::
    "('v, 'c, 'd, 'y, 'r) env \<Rightarrow> ('v, 'c) package \<Rightarrow> ('d, 'y, 'r, 'm, unit) hact" where
  "generate_systemd_service E package =
     act_bind (act_of (service_name (pk_manifest package))) (\<lambda>name.
     act_bind (ask (\<lambda>w. Inr (multi_instance_json w))) (\<lambda>services.
     act_bind (unmarshalled E package) (\<lambda>manifest.
     let tmpl = get_tmpl_path ''sonic.service.j2'';
         vars = (\<lambda>multi. [(''source'', JStr tmpl), (''manifest'', manifest), (''multi_instance'', JBool multi),
                          (''multi_instance_services'', services)]);
         timer = get_tmpl_path ''timer.unit.j2'';
         timer_vars = (\<lambda>multi. [(''source'', JStr timer), (''manifest'', manifest), (''multi_instance'', JBool multi)]) in
     seq (render_template E tmpl (service_file name False ''.service'') (vars False) False) (
     act_bind (act_of (m_bool (pk_manifest package) [''service'', ''asic-service''])) (\<lambda>asic.
     seq (act_when asic (render_template E tmpl (service_file name True ''.service'') (vars True) False)) (
     act_bind (act_of (m_bool (pk_manifest package) [''service'', ''delayed''])) (\<lambda>delayed.
       act_when delayed (
         seq (render_template E timer (service_file name False ''.timer'') (timer_vars False) False)
           (act_when asic (render_template E timer (service_file name True ''.timer'') (timer_vars True) False)))))))))) "

text \<open>\<open>readlines\<close> with every line stripped, as the set the code makes of it.\<close>

definition file_lines :: "string \<Rightarrow> string list" where
  "file_lines c = (let ps = split_on CHR 0x0A c in if last ps = [] then butlast ps else ps)"

definition update_dependent ::
    "('v, 'c, 'd, 'y, 'r) env \<Rightarrow> bool \<Rightarrow> string \<Rightarrow> bool \<Rightarrow> string \<Rightarrow> ('d, 'y, 'r, 'm, unit) hact" where
  "update_dependent E rem name multi_inst service =
     (let filepath = path_join ETC_SONIC_PATH (service @ (if multi_inst then ''_multi_inst_dependent'' else ''_dependent'')) in
      act_bind (ask (\<lambda>w. Inr (case map_of (files w) filepath of
          None \<Rightarrow> [] | Some c \<Rightarrow> remdups (map py_strip (file_lines c))))) (\<lambda>services.
      let services = (if rem then removeAll name services else List.insert name services) in
        write_file filepath (join_with [CHR 0x0A] (set_order E services))))"

definition update_dependent_list_file ::
    "('v, 'c, 'd, 'y, 'r) env \<Rightarrow> ('v, 'c) package \<Rightarrow> bool \<Rightarrow> ('d, 'y, 'r, 'm, unit) hact" where
  "update_dependent_list_file E package rem =
     (let m = pk_manifest package in
      act_bind (act_of (service_name m)) (\<lambda>name.
      act_bind (act_of (m_strs m [''service'', ''dependent-of''])) (\<lambda>dependent_of.
      act_bind (act_of (m_bool m [''service'', ''host-service''])) (\<lambda>host_service.
      act_bind (act_of (m_bool m [''service'', ''asic-service''])) (\<lambda>asic_service.
        act_each (\<lambda>service.
          seq (act_when host_service (update_dependent E rem name False service))
            (act_when asic_service (update_dependent E rem name True service))) dependent_of)))))"

definition generate_dump_script ::
    "('v, 'c, 'd, 'y, 'r) env \<Rightarrow> ('v, 'c) package \<Rightarrow> ('d, 'y, 'r, 'm, unit) hact" where
  "generate_dump_script E package =
     act_bind (act_of (service_name (pk_manifest package))) (\<lambda>name.
     act_bind (act_of (m_str (pk_manifest package) [''package'', ''debug-dump''])) (\<lambda>dump.
     if dump = [] then act_return ()
     else act_bind (unmarshalled E package) (\<lambda>manifest.
       render_template E (path_join TEMPLATES_PATH ''dump.sh.j2'') (path_join DEBUG_DUMP_SCRIPT_LOCATION name)
         [(''source'', JStr (get_tmpl_path ''service_mgmt.sh.j2'')), (''manifest'', manifest)] True)))"

definition generate_service_reconciliation_file ::
    "('v, 'c, 'd, 'y, 'r) env \<Rightarrow> ('v, 'c) package \<Rightarrow> ('d, 'y, 'r, 'm, unit) hact" where
  "generate_service_reconciliation_file E package =
     act_bind (act_of (service_name (pk_manifest package))) (\<lambda>name.
     act_bind (act_of (rbind (m_list (pk_manifest package) [''processes'']) (rmapM (\<lambda>p.
         rbind (m_bool p [''reconciles'']) (\<lambda>r. if r then rbind (m_str p [''name'']) (\<lambda>n. Inr [n]) else Inr [])))))
       (\<lambda>processes.
         write_file (path_join ETC_SONIC_PATH (name @ ''_reconcile'')) (join_with '' '' (concat processes))))"

section \<open>Shutdown order\<close>

definition graph_add :: "string \<Rightarrow> string list \<Rightarrow> (string \<times> string list) list \<Rightarrow> (string \<times> string list) list" where
  "graph_add name xs g =
     AList.update name (foldl (\<lambda>s x. List.insert x s) (case map_of g name of None \<Rightarrow> [] | Some s \<Rightarrow> s) xs) g"

definition service_exists :: "('v, 'c) packages \<Rightarrow> string \<Rightarrow> err + bool" where
  "service_exists packages service =
     rexists (\<lambda>(_, p). rbind (service_name (pk_manifest p)) (\<lambda>n. Inr (n = service))) packages"

definition filter_not_available :: "('v, 'c) packages \<Rightarrow> string list \<Rightarrow> err + string list" where
  "filter_not_available packages services = rbind (rfilterM (service_exists packages) services) (\<lambda>xs. Inr (remdups xs))"

definition shutdown_step ::
    "('v, 'c) packages \<Rightarrow> string \<Rightarrow> (string \<times> string list) list \<Rightarrow> string \<times> ('v, 'c) package
       \<Rightarrow> err + (string \<times> string list) list" where
  "shutdown_step packages reboot_type graph = (\<lambda>(_, package).
     let m = pk_manifest package; node = reboot_type @ ''-shutdown'' in
     rbind (rbind (m_strs m [''service'', node, ''after'']) (filter_not_available packages)) (\<lambda>after.
     rbind (rbind (m_strs m [''service'', node, ''before'']) (filter_not_available packages)) (\<lambda>before.
     if after = [] \<and> before = [] then Inr graph
     else rbind (service_name m) (\<lambda>name.
       Inr (foldl (\<lambda>g service. graph_add service [name] g) (graph_add name after graph) before)))))"

definition get_shutdown_sequence ::
    "('v, 'c, 'd, 'y, 'r) env \<Rightarrow> string \<Rightarrow> ('v, 'c) packages \<Rightarrow> err + string list" where
  "get_shutdown_sequence E reboot_type packages =
     rbind (rfoldM (shutdown_step packages reboot_type) [] packages) (\<lambda>graph.
       case toposort E graph of None \<Rightarrow> Inl ServiceCreatorError | Some order \<Rightarrow> Inr order)"

definition generate_shutdown_sequence_file ::
    "('v, 'c, 'd, 'y, 'r) env \<Rightarrow> ('v, 'c) packages \<Rightarrow> string \<Rightarrow> ('d, 'y, 'r, 'm, unit) hact" where
  "generate_shutdown_sequence_file E packages reboot_type =
     act_bind (act_of (get_shutdown_sequence E reboot_type packages)) (\<lambda>order.
       write_file (path_join ETC_SONIC_PATH (reboot_type @ ''-reboot_order'')) (join_with '' '' order))"

definition generate_shutdown_sequence_files ::
    "('v, 'c, 'd, 'y, 'r) env \<Rightarrow> ('v, 'c) packages \<Rightarrow> ('d, 'y, 'r, 'm, unit) hact" where
  "generate_shutdown_sequence_files E packages =
     act_each (generate_shutdown_sequence_file E packages) [''fast'', ''warm'']"

section \<open>Initial configuration\<close>

definition cfg_json :: "cfg \<Rightarrow> dict" where
  "cfg_json c = map (\<lambda>(t, es). (t, JObj (map (\<lambda>(k, d). (k, JObj d)) es))) c"

text \<open>
  \<open>new_cfg = init_cfg.copy()\<close> is a shallow copy: the tables in it are those of the manifest, and
  \<open>deep_update(new_cfg, cfg)\<close> merges the configuration into them. \<open>shared\<close> is \<open>init_cfg\<close> afterwards.
\<close>

definition shared :: "dict \<Rightarrow> dict \<Rightarrow> dict" where
  "shared init_cfg new_cfg = map (\<lambda>(k, v). (k, case v of JObj _ \<Rightarrow> get_or new_cfg k v | _ \<Rightarrow> v)) init_cfg"

definition update_dict :: "dict \<Rightarrow> json \<Rightarrow> err + dict" where
  "update_dict d v = (case v of
     JObj e \<Rightarrow> Inr (dict_merge d e)
   | JStr s \<Rightarrow> if s = [] then Inr d else Inl ValueError
   | JArr xs \<Rightarrow> if xs = [] then Inr d else Inl ValueError
   | _ \<Rightarrow> Inl TypeError)"

definition init_cfg_entries :: "dict \<Rightarrow> (string \<times> string \<times> json) list" where
  "init_cfg_entries init_cfg =
     concat (map (\<lambda>(table, content). case content of JObj es \<Rightarrow> map (\<lambda>(key, fvs). (table, key, fvs)) es | _ \<Rightarrow> []) init_cfg)"

definition init_cfg_write ::
    "('v, 'c, 'd, 'y, 'r) env \<Rightarrow> conn \<Rightarrow> cfg \<Rightarrow> string \<times> string \<times> json \<Rightarrow> ('d, 'y, 'r, 'm, unit) hact" where
  "init_cfg_write E conn cfg = (\<lambda>(table, key, fvs).
     let key_cfg = (case map_of cfg table of None \<Rightarrow> [] | Some t \<Rightarrow> (case map_of t key of None \<Rightarrow> [] | Some d \<Rightarrow> d)) in
     act_bind (act_of (update_dict key_cfg fvs)) (\<lambda>key_cfg.
       with_dbs (\<lambda>d. Inr (conn_mod (run_l E) d conn table key (Some key_cfg)))))"

definition init_cfg_turn ::
    "('v, 'c, 'd, 'y, 'r) env \<Rightarrow> dict \<Rightarrow> conn \<Rightarrow> ('d, 'y, 'r, 'm, dict) hact" where
  "init_cfg_turn E init_cfg conn =
     act_bind (ask (\<lambda>w. Inr (conn_config (run_l E) (dbs w) conn))) (\<lambda>cfg.
     act_bind (act_of (deep_update (JObj init_cfg) (cfg_json cfg))) (\<lambda>new_cfg.
     seq (on_yang (y_load E new_cfg)) (
     let init_cfg = (case new_cfg of JObj n \<Rightarrow> shared init_cfg n | _ \<Rightarrow> init_cfg) in
     seq (act_each (init_cfg_write E conn cfg) (init_cfg_entries init_cfg)) (act_return init_cfg))))"

definition set_initial_config ::
    "('v, 'c, 'd, 'y, 'r) env \<Rightarrow> ('v, 'c) package \<Rightarrow> ('d, 'y, 'r, 'm, unit) hact" where
  "set_initial_config E package =
     act_bind (act_of (m_dict (pk_manifest package) [''package'', ''init-cfg''])) (\<lambda>init_cfg.
     if init_cfg = [] then act_return ()
     else act_bind (ask (\<lambda>w. Inr (get_connectors (dbs w)))) (\<lambda>conns.
       act_bind (act_fold (init_cfg_turn E) init_cfg conns) (\<lambda>_. act_return ())))"

section \<open>YANG modules and generated CLI\<close>

definition remove_config :: "('v, 'c, 'd, 'y, 'r) env \<Rightarrow> ('v, 'c) package \<Rightarrow> ('d, 'y, 'r, 'm, unit) hact" where
  "remove_config E package = (case pk_yang package of
     None \<Rightarrow> act_return ()
   | Some yang \<Rightarrow>
       if yang = [] then act_return ()
       else act_bind (ask (\<lambda>w. y_module_name E (yangs w) yang)) (\<lambda>module_name.
       act_bind (ask (\<lambda>w. Inr (y_tables E (yangs w)))) (\<lambda>tables.
         act_each (\<lambda>(tablename, module).
           if module \<noteq> Some module_name then act_return ()
           else act_bind (ask (\<lambda>w. Inr (get_connectors (dbs w)))) (\<lambda>conns.
             act_each (\<lambda>conn.
               with_dbs (\<lambda>d. Inr (foldl (\<lambda>d key. conn_set (run_l E) d conn tablename key None) d
                 (map fst (conn_table (run_l E) d conn tablename))))) conns)) tables)))"

definition install_yang_module :: "('v, 'c, 'd, 'y, 'r) env \<Rightarrow> ('v, 'c) package \<Rightarrow> ('d, 'y, 'r, 'm, unit) hact" where
  "install_yang_module E package = (case pk_yang package of
     None \<Rightarrow> act_return ()
   | Some yang \<Rightarrow> if yang = [] then act_return () else on_yang (y_add E yang))"

definition uninstall_yang_module :: "('v, 'c, 'd, 'y, 'r) env \<Rightarrow> ('v, 'c) package \<Rightarrow> ('d, 'y, 'r, 'm, unit) hact" where
  "uninstall_yang_module E package = (case pk_yang package of
     None \<Rightarrow> act_return ()
   | Some yang \<Rightarrow>
       if yang = [] then act_return ()
       else act_bind (ask (\<lambda>w. y_module_name E (yangs w) yang)) (\<lambda>module_name. on_yang (y_remove E module_name)))"

definition SONIC_CLI_COMMANDS :: "string list" where
  "SONIC_CLI_COMMANDS = [''show'', ''config'', ''clear'']"

text \<open>A command the schema has no flag for, and a package without YANG module, have no generated CLI.\<close>

definition autogen_cli ::
    "(string \<Rightarrow> string \<Rightarrow> ('y, unit) op) \<Rightarrow> ('v, 'c, 'd, 'y, 'r) env \<Rightarrow> ('v, 'c) package \<Rightarrow> string
       \<Rightarrow> ('d, 'y, 'r, 'm, unit) hact" where
  "autogen_cli act E package command = (case pk_yang package of
     None \<Rightarrow> act_return ()
   | Some yang \<Rightarrow>
       act_bind (act_of (mget (pk_manifest package) ''cli'')) (\<lambda>cli.
       case mget cli (''auto-generate-'' @ command) of
         Inl _ \<Rightarrow> act_return ()
       | Inr gen \<Rightarrow>
           act_bind (act_of (as_bool gen)) (\<lambda>b.
           if \<not> b then act_return ()
           else act_bind (ask (\<lambda>w. y_module_name E (yangs w) yang)) (\<lambda>module_name. on_yang (act command module_name)))))"

definition install_autogen_cli_all :: "('v, 'c, 'd, 'y, 'r) env \<Rightarrow> ('v, 'c) package \<Rightarrow> ('d, 'y, 'r, 'm, unit) hact" where
  "install_autogen_cli_all E package = act_each (autogen_cli (y_gen_cli E) E package) SONIC_CLI_COMMANDS"

definition uninstall_autogen_cli_all :: "('v, 'c, 'd, 'y, 'r) env \<Rightarrow> ('v, 'c) package \<Rightarrow> ('d, 'y, 'r, 'm, unit) hact" where
  "uninstall_autogen_cli_all E package = act_each (autogen_cli (y_remove_cli E) E package) SONIC_CLI_COMMANDS"

section \<open>Create and remove\<close>

definition service_paths :: "string \<Rightarrow> string list" where
  "service_paths name =
     [service_file name False ''.service'', service_file name True ''.service'',
      path_join SERVICE_MGMT_SCRIPT_LOCATION (name @ ''.sh''), path_join DOCKER_CTL_SCRIPT_LOCATION (name @ ''.sh''),
      path_join DEBUG_DUMP_SCRIPT_LOCATION name, path_join ETC_SONIC_PATH (name @ ''_reconcile'')]"

definition service_remove ::
    "('v, 'c, 'd, 'y, 'r) env \<Rightarrow> ('v, 'c) package \<Rightarrow> bool \<Rightarrow> bool \<Rightarrow> ('d, 'y, 'r, 'm, unit) hact" where
  "service_remove E package deregister_feature keep_config =
     act_bind (act_of (service_name (pk_manifest package))) (\<lambda>name.
     seq (act_each remove_if_exists (service_paths name)) (
     seq (update_dependent_list_file E package True) (
     seq (act_when (deregister_feature \<and> \<not> keep_config) (remove_config E package)) (
     seq (uninstall_autogen_cli_all E package) (
     seq (uninstall_yang_module E package) (
     seq (post_operation_hook E) (
       act_when deregister_feature (with_dbs (\<lambda>d. Inr (feature_deregister (run_l E) name d))))))))))"

definition act_catch :: "('w, err, 'a) act \<Rightarrow> ('w, err, unit) act \<Rightarrow> ('w, err, 'a) act" where
  "act_catch m handler w = (case m w of
     (Inr a, v) \<Rightarrow> (Inr a, v)
   | (Inl e, v) \<Rightarrow> (case handler v of (Inl e', u) \<Rightarrow> (Inl e', u) | (Inr _, u) \<Rightarrow> (Inl e, u)))"

definition service_create ::
    "('v, 'c, 'd, 'y, 'r) env \<Rightarrow> ('v, 'c) package \<Rightarrow> bool \<Rightarrow> string \<Rightarrow> string \<Rightarrow> ('d, 'y, 'r, 'm, unit) hact" where
  "service_create E package register_feature state owner =
     act_catch
       (seq (generate_container_mgmt E package) (
        seq (generate_service_mgmt E package) (
        seq (update_dependent_list_file E package False) (
        seq (generate_systemd_service E package) (
        seq (generate_dump_script E package) (
        seq (generate_service_reconciliation_file E package) (
        seq (install_yang_module E package) (
        seq (set_initial_config E package) (
        seq (install_autogen_cli_all E package) (
        seq (post_operation_hook E) (
          act_when register_feature (with_dbs (feature_register (run_l E) (pk_manifest package) state owner)))))))))))))
       (service_remove E package register_feature False)"

section \<open>What leaves a file alone\<close>

text \<open>\<open>leaves p m\<close>: whatever \<open>m\<close> returns or raises, the file \<open>p\<close> is as before.\<close>

abbreviation leaves :: "string \<Rightarrow> ('d, 'y, 'r, 'm, 'a) hact \<Rightarrow> bool" where
  "leaves p \<equiv> keeps (\<lambda>w. map_of (files w) p)"

lemma leaves_ask [keeping]: "leaves p (ask f)"
  by (simp add: keeps_def ask_def)

lemma leaves_ext [keeping]: "leaves p (on_ext f)"
  by (simp add: keeps_def on_ext_def case_prod_beta Let_def)

lemma leaves_yang [keeping]: "leaves p (on_yang f)"
  by (simp add: keeps_def on_yang_def case_prod_beta Let_def)

lemma leaves_dbs [keeping]: "leaves p (with_dbs f)"
  by (simp add: keeps_def with_dbs_def split: sum.splits)

lemma leaves_write: "q \<noteq> p \<Longrightarrow> leaves p (write_file q c)"
  by (simp add: keeps_def write_file_def act_do_def)

lemma leaves_remove: "q \<noteq> p \<Longrightarrow> leaves p (remove_if_exists q)"
  by (simp add: keeps_def remove_if_exists_def delete_file_def act_do_def)

lemma leaves_run_command [keeping]: "leaves p (run_command E c)"
  unfolding run_command_def by (intro keeping)

lemma leaves_hook [keeping]: "leaves p (post_operation_hook E)"
  using leaves_run_command[of p E "''systemctl daemon-reload''"] by (auto simp: keeps_def post_operation_hook_def)

lemma leaves_remove_config [keeping]: "leaves p (remove_config E package)"
  by (auto simp: remove_config_def case_prod_beta split: option.splits intro!: keeping)

lemma leaves_autogen [keeping]: "leaves p (autogen_cli act E package command)"
  by (auto simp: autogen_cli_def split: option.splits sum.splits intro!: keeping)

lemma leaves_uninstall_yang [keeping]: "leaves p (uninstall_yang_module E package)"
  by (auto simp: uninstall_yang_module_def split: option.splits intro!: keeping)

lemma leaves_uninstall_cli [keeping]: "leaves p (uninstall_autogen_cli_all E package)"
  by (simp add: uninstall_autogen_cli_all_def keeps_each leaves_autogen)

definition dependent_path :: "bool \<Rightarrow> string \<Rightarrow> string" where
  "dependent_path multi service =
     path_join ETC_SONIC_PATH (service @ (if multi then ''_multi_inst_dependent'' else ''_dependent''))"

lemma leaves_dependent:
  assumes "m_strs (pk_manifest package) [''service'', ''dependent-of''] = Inr deps"
    and "p \<notin> set (map (dependent_path False) deps @ map (dependent_path True) deps)"
  shows "leaves p (update_dependent_list_file E package rem)"
proof -
  have up: "leaves p (update_dependent E rem name multi s)" if "s \<in> set deps" for name multi s
    using assms(2) that
    by (cases multi) (auto simp: update_dependent_def dependent_path_def Let_def intro!: keeping leaves_write)
  then show ?thesis
    by (simp add: update_dependent_list_file_def assms(1) Let_def) (auto intro!: keeping up)
qed

lemmas location_defs = path_join_def SYSTEMD_LOCATION_def SERVICE_MGMT_SCRIPT_LOCATION_def DOCKER_CTL_SCRIPT_LOCATION_def
  DEBUG_DUMP_SCRIPT_LOCATION_def ETC_SONIC_PATH_def

lemma removed_gone:
  "act_each remove_if_exists ps w = (Inr u, w') \<Longrightarrow>
   map_of (files w') p = (if p \<in> set ps then None else map_of (files w) p)"
proof (induction ps arbitrary: w)
  case (Cons q ps)
  obtain w1 where w1: "remove_if_exists q w = (Inr (), w1)" "act_each remove_if_exists ps w1 = (Inr u, w')"
    using Cons.prems by (auto simp: act_simps)
  then have "map_of (files w1) p = (if p = q then None else map_of (files w) p)"
    by (auto simp: remove_if_exists_def delete_file_def act_do_def file_exists_def split: if_splits)
  with Cons.IH[OF w1(2)] show ?case by auto
qed (simp add: act_simps)

lemma removed_service:
  assumes "service_remove E package deregister keep_config w = (Inr (), w')"
    and "service_name (pk_manifest package) = Inr name"
    and "m_strs (pk_manifest package) [''service'', ''dependent-of''] = Inr deps"
    and "p \<notin> set (map (dependent_path False) deps @ map (dependent_path True) deps)"
  shows "map_of (files w') p = (if p \<in> set (service_paths name) then None else map_of (files w) p)"
proof -
  let ?rest = "seq (update_dependent_list_file E package True) (
       seq (act_when (deregister \<and> \<not> keep_config) (remove_config E package)) (
       seq (uninstall_autogen_cli_all E package) (
       seq (uninstall_yang_module E package) (
       seq (post_operation_hook E) (
         act_when deregister (with_dbs (\<lambda>d. Inr (feature_deregister (run_l E) name d))))))))"
  obtain w1 where w1: "act_each remove_if_exists (service_paths name) w = (Inr (), w1)" and w': "?rest w1 = (Inr (), w')"
    using assms(1,2) by (auto simp: service_remove_def seq_def act_simps)
  have "leaves p ?rest" by (intro keeping leaves_dependent[OF assms(3,4)])
  from keepsD[OF this w'] removed_gone[OF w1] show ?thesis by simp
qed

text \<open>Creating a service writes its own files, its timers and the lists of dependent services.\<close>

lemma leaves_executable [keeping]: "leaves p (set_executable_bit q)"
  by (simp add: keeps_def set_executable_bit_def act_do_def)

lemma leaves_render: "out \<noteq> p \<Longrightarrow> leaves p (render_template E i out ctx x)"
  unfolding render_template_def read_file_def by (intro keeping leaves_write)

lemma leaves_init_cfg [keeping]: "leaves p (set_initial_config E package)"
  unfolding set_initial_config_def init_cfg_turn_def init_cfg_write_def Let_def case_prod_beta by (intro keeping)

lemma leaves_install [keeping]: "leaves p (install_yang_module E package)" "leaves p (install_autogen_cli_all E package)"
  by (auto simp: install_yang_module_def install_autogen_cli_all_def split: option.split intro!: keeping keeps_each)

lemma leaves_generate:
  assumes "service_name (pk_manifest package) = Inr name" and "p \<notin> set (service_paths name)"
    and "p \<noteq> service_file name False ''.timer''" and "p \<noteq> service_file name True ''.timer''"
  shows "leaves p (generate_container_mgmt E package)" "leaves p (generate_service_mgmt E package)"
    "leaves p (generate_systemd_service E package)" "leaves p (generate_dump_script E package)"
    "leaves p (generate_service_reconciliation_file E package)"
proof -
  have ne: "service_file name m ''.service'' \<noteq> p" "service_file name m ''.timer'' \<noteq> p"
    "path_join SERVICE_MGMT_SCRIPT_LOCATION (name @ ''.sh'') \<noteq> p" "path_join DOCKER_CTL_SCRIPT_LOCATION (name @ ''.sh'') \<noteq> p"
    "path_join DEBUG_DUMP_SCRIPT_LOCATION name \<noteq> p" "path_join ETC_SONIC_PATH (name @ ''_reconcile'') \<noteq> p" for m
    using assms(2-) by (cases m, auto simp: service_paths_def)+
  have bind: "leaves p (act_bind (act_of (service_name (pk_manifest package))) k)" if "leaves p (k name)" for k :: "string \<Rightarrow> (_, _, _, _, unit) hact"
    using that by (simp add: assms(1))
  show "leaves p (generate_container_mgmt E package)"
    unfolding generate_container_mgmt_def by (intro bind keeping leaves_render ne)
  show "leaves p (generate_service_mgmt E package)"
    unfolding generate_service_mgmt_def unmarshalled_def by (intro bind keeping leaves_render ne)
  show "leaves p (generate_systemd_service E package)"
    unfolding generate_systemd_service_def unmarshalled_def Let_def by (intro bind keeping leaves_render ne)
  show "leaves p (generate_dump_script E package)"
    unfolding generate_dump_script_def unmarshalled_def by (intro bind keeping leaves_render ne)
  show "leaves p (generate_service_reconciliation_file E package)"
    unfolding generate_service_reconciliation_file_def by (intro bind keeping leaves_write ne)
qed

lemma created_service:
  assumes "service_create E package register st owner w = (Inr (), w')"
    and "service_name (pk_manifest package) = Inr name"
    and "m_strs (pk_manifest package) [''service'', ''dependent-of''] = Inr deps"
    and "p \<notin> set (map (dependent_path False) deps @ map (dependent_path True) deps)"
    and "p \<notin> set (service_paths name)" and "p \<noteq> service_file name False ''.timer''" and "p \<noteq> service_file name True ''.timer''"
  shows "map_of (files w') p = map_of (files w) p"
proof -
  let ?m = "seq (generate_container_mgmt E package) (
        seq (generate_service_mgmt E package) (
        seq (update_dependent_list_file E package False) (
        seq (generate_systemd_service E package) (
        seq (generate_dump_script E package) (
        seq (generate_service_reconciliation_file E package) (
        seq (install_yang_module E package) (
        seq (set_initial_config E package) (
        seq (install_autogen_cli_all E package) (
        seq (post_operation_hook E) (
          act_when register (with_dbs (feature_register (run_l E) (pk_manifest package) st owner))))))))))))"
  have "?m w = (Inr (), w')"
    using assms(1) by (auto simp: service_create_def act_catch_def split: prod.splits sum.splits)
  moreover have "leaves p ?m"
    by (intro keeping leaves_dependent[OF assms(3,4)] leaves_generate[OF assms(2,5-7)])
  ultimately show ?thesis by (auto dest: keepsD)
qed

section \<open>Properties\<close>

text \<open>The timers that creating a delayed service generates are left behind when it is removed.\<close>

theorem service_remove_keeps_timers:
  assumes "service_remove E package deregister keep_config w = (Inr (), w')"
    and "service_name (pk_manifest package) = Inr name"
    and "m_strs (pk_manifest package) [''service'', ''dependent-of''] = Inr deps"
  shows "map_of (files w') (service_file name multi ''.timer'') = map_of (files w) (service_file name multi ''.timer'')"
proof -
  have "service_file name multi ''.timer'' \<notin> set (service_paths name)"
    by (simp add: service_paths_def service_file_def path_join_def SYSTEMD_LOCATION_def SERVICE_MGMT_SCRIPT_LOCATION_def
        DOCKER_CTL_SCRIPT_LOCATION_def DEBUG_DUMP_SCRIPT_LOCATION_def ETC_SONIC_PATH_def)
  moreover have "service_file name multi ''.timer'' \<notin> set (map (dependent_path False) deps @ map (dependent_path True) deps)"
    by (auto simp: service_file_def dependent_path_def path_join_def SYSTEMD_LOCATION_def ETC_SONIC_PATH_def)
  ultimately show ?thesis
    using removed_service[OF assms] by simp
qed

text \<open>Setting the initial configuration copies entries between the databases: an entry of the initial
  database in a table the package configures is written into the next database, although the package
  does not mention it, because the shallow copy of \<open>init-cfg\<close> shares its tables.\<close>

theorem init_config_leaks:
  assumes "m_dict (pk_manifest package) [''package'', ''init-cfg''] = Inr [(t, JObj [(b, JObj [(g, JStr y)])])]"
    and "to_upper t = t" and "a \<noteq> b" and "y_load E = (\<lambda>j s. (Inr (), s))"
    and "dbs w = \<lparr>init_db = [(t, [(a, [(f, JStr x)])])], persist_db = Some [], run_db = None\<rparr>"
    and "set_initial_config E package w = (Inr (), w')"
  shows "\<exists>c. persist_db (dbs w') = Some c \<and> get_entry c t a = [(f, JStr x)] \<and> get_entry c t b = [(g, JStr y)]"
  using assms(6)
  by (auto simp: set_initial_config_def assms(1-5) assms(3)[symmetric] ask_def act_bind_def get_connectors_def init_cfg_turn_def
      act_of_def cfg_json_def get_or_def seq_def on_yang_def shared_def init_cfg_entries_def init_cfg_write_def
      update_dict_def dict_merge_def with_dbs_def act_return_def mod_entry_def put_entry_def get_entry_alt Let_def)

section \<open>A sample environment\<close>

definition sample_pkg_env :: "(nat, nat option, unit, unit, cfg) env" where
  "sample_pkg_env = \<lparr>semver = sample_semver, run_l = mem_run, render = (\<lambda>t ctx. Inr t), set_order = (\<lambda>xs. xs),
     toposort = (\<lambda>g. Some (map fst g)), run_cmd = (\<lambda>c d. (0, d)),
     y_module_name = (\<lambda>y s. Inr s), y_tables = (\<lambda>y. []), y_add = (\<lambda>m y. (Inr (), y)), y_remove = (\<lambda>m y. (Inr (), y)),
     y_load = (\<lambda>j y. (Inr (), y)), y_gen_cli = (\<lambda>c m y. (Inr (), y)), y_remove_cli = (\<lambda>c m y. (Inr (), y)),
     d_pull = (\<lambda>r t d. (Inr \<lparr>img_id = ''i1'', img_repotags = [''repo:1'']\<rparr>, d)),
     d_load = (\<lambda>p d. (Inr \<lparr>img_id = ''i1'', img_repotags = [''repo:1'']\<rparr>, d)),
     d_rmi = (\<lambda>i d. (Inr (), d)), d_rm_by_ancestor = (\<lambda>i d. (Inr (), d)), d_extract = (\<lambda>i p d. (Inr ''plugin'', d)),
     d_labels = (\<lambda>d i. Inr (Some [(''com.azure.sonic.manifest'', ''{}'')])),
     r_labels = (\<lambda>r t. Inr (Some [(''com.azure.sonic.manifest'', ''{}'')])),
     t_labels = (\<lambda>p. Inr (Some [(''com.azure.sonic.manifest'', ''{}'')])),
     loads = (\<lambda>s. Inr sample_doc), docker_ref = (\<lambda>s. Inr (s, None, None)), plugin_dir = (\<lambda>c. Some ''/plugins''),
     validated_mod = (\<lambda>r t k d. Inr (mod_entry r t k (Some d))),
     state_events = (\<lambda>n s d. [SelUpdate n (Some s)])\<rparr>"

definition sample_host :: "(unit, unit, cfg) host" where
  "sample_host = \<lparr>files = [(''/usr/bin/s.sh'', ''#''), (''/usr/lib/systemd/system/s.timer'', ''t'')], execs = [],
     dbs = sample_dbs, ext = (), yangs = (), chroot = False\<rparr>"

lemma sample_dependents: "m_strs sample_manifest [''service'', ''dependent-of''] = Inr []"
  by (simp add: sample_manifest_def manifest_eval sample_semver_eval sample_doc_def manifest_access)

lemma sample_package_parts [simp]: "pk_manifest (sample_package n v cs) = sample_manifest"
  "pk_yang (sample_package n v cs) = None"
  by (simp_all add: sample_package_def)

lemma each_removed: "\<exists>w'. act_each remove_if_exists ps w = (Inr (), w')"
  by (induction ps arbitrary: w) (auto simp: act_return_def act_bind_def remove_if_exists_def delete_file_def act_do_def)

lemma sample_flags: "m_bool sample_manifest [''service'', ''host-service''] = Inr True"
  "m_bool sample_manifest [''service'', ''asic-service''] = Inr False"
  by (simp_all add: sample_manifest_def manifest_eval sample_semver_eval sample_doc_def manifest_access)

lemma sample_removes: "\<exists>w'. service_remove sample_pkg_env (sample_package n v cs) True False w = (Inr (), w')"
proof -
  obtain w1 where w1: "act_each remove_if_exists (service_paths ''s'') w = (Inr (), w1)" using each_removed by blast
  have hook: "\<exists>u. post_operation_hook sample_pkg_env w = (Inr (), u)" for w :: "(unit, unit, cfg, 'e) host_scheme"
    by (simp add: post_operation_hook_def run_command_def sample_pkg_env_def on_ext_def act_bind_def act_return_def)
  obtain w2 where "post_operation_hook sample_pkg_env w1 = (Inr (), w2)" using hook by blast
  with w1 show ?thesis
    by (simp add: service_remove_def sample_manifest_facts update_dependent_list_file_def sample_dependents sample_flags Let_def
        seq_def act_bind_def act_of_def act_when_def remove_config_def uninstall_autogen_cli_all_def SONIC_CLI_COMMANDS_def
        autogen_cli_def uninstall_yang_module_def act_return_def with_dbs_def)
qed

theorem service_remove_keeps_timers_witness:
  "\<exists>w'. service_remove sample_pkg_env (sample_package ''p'' 3 []) True False sample_host = (Inr (), w') \<and>
     map_of (files w') ''/usr/lib/systemd/system/s.timer'' = Some ''t''"
proof -
  obtain w' where w': "service_remove sample_pkg_env (sample_package ''p'' 3 []) True False sample_host = (Inr (), w')"
    using sample_removes by blast
  with service_remove_keeps_timers[OF w', of "''s''" "[]" False] show ?thesis
    by (simp add: sample_manifest_facts sample_dependents service_file_def path_join_def SYSTEMD_LOCATION_def sample_host_def)
qed

definition cfg_package :: "(nat, nat option) package" where
  "cfg_package = (sample_package ''p'' 3 [])\<lparr>pk_manifest := MNode [(''package'', MNode [(''init-cfg'',
     MJson (JObj [(''T'', JObj [(''b'', JObj [(''g'', JStr ''1'')])])]))])]\<rparr>"

theorem init_config_leaks_witness:
  "\<exists>w' c. set_initial_config sample_pkg_env cfg_package
       (sample_host\<lparr>dbs := \<lparr>init_db = [(''T'', [(''a'', [(''f'', JStr ''0'')])])], persist_db = Some [], run_db = None\<rparr>\<rparr>) = (Inr (), w') \<and>
     persist_db (dbs w') = Some c \<and> get_entry c ''T'' ''a'' = [(''f'', JStr ''0'')]"
proof -
  let ?w = "sample_host\<lparr>dbs := \<lparr>init_db = [(''T'', [(''a'', [(''f'', JStr ''0'')])])], persist_db = Some [], run_db = None\<rparr>\<rparr>"
  have up: "to_upper ''T'' = ''T''" by code_simp
  have m: "m_dict (pk_manifest cfg_package) [''package'', ''init-cfg''] =
      Inr [(''T'', JObj [(''b'', JObj [(''g'', JStr ''1'')])])]"
    by (simp add: cfg_package_def m_dict_def mget_def as_dict_def)
  have load: "y_load sample_pkg_env = (\<lambda>j s. (Inr (), s))" by (simp add: sample_pkg_env_def)
  have "\<exists>w'. set_initial_config sample_pkg_env cfg_package ?w = (Inr (), w')"
    by (simp add: set_initial_config_def m load ask_def act_bind_def get_connectors_def init_cfg_turn_def
      act_of_def cfg_json_def get_or_def seq_def on_yang_def shared_def init_cfg_entries_def init_cfg_write_def
      update_dict_def dict_merge_def with_dbs_def act_return_def Let_def)
  then obtain w' where w': "set_initial_config sample_pkg_env cfg_package ?w = (Inr (), w')" by blast
  from init_config_leaks[OF m up _ load _ w', of "''a''" "''f''" "''0''"] w' show ?thesis by auto
qed

end
