(* ===== verification/PackageManager.thy ===== *)
theory PackageManager
  imports ServiceCreator
begin

text \<open>
  The package manager itself (\<open>sonic_package_manager/manager.py\<close>, \<open>source.py\<close>, \<open>package.py\<close> and
  \<open>set_feature_state\<close> of \<open>config/feature.py\<close>): installing, removing, upgrading, resetting and migrating
  packages, with the callbacks that undo a step when a later one fails. The file lock around the
  public methods is not modelled: every operation runs alone.
\<close>

section \<open>State\<close>

record ('d, 'y, 'r, 'v) manager = "('d, 'y, 'r) host" +
  store :: "'v pkg_store"
  version_info :: "(string \<times> string) list"

type_synonym ('d, 'y, 'r, 'v, 'a) mact = "(('d, 'y, 'r, 'v) manager, err, 'a) act"

datatype 'v source =
    TarballSource string
  | RegistrySource "string option" "string option"
  | LocalSource "'v pkg_entry"

definition on_store :: "('v pkg_store \<Rightarrow> err + 'v pkg_store) \<Rightarrow> ('d, 'y, 'r, 'v, unit) mact" where
  "on_store f w = (case f (store w) of Inl e \<Rightarrow> (Inl e, w) | Inr s \<Rightarrow> (Inr (), w\<lparr>store := s\<rparr>))"

definition commit_store :: "('v, 'c, 'd, 'y, 'r) env \<Rightarrow> ('d, 'y, 'r, 'v, unit) mact" where
  "commit_store E = on_store (\<lambda>s. Inr (commit (semver E) s))"

section \<open>Error handling\<close>

definition failure_ignore :: "bool \<Rightarrow> ('w, err, unit) act \<Rightarrow> ('w, err, unit) act" where
  "failure_ignore ignore m w = (case m w of
     (Inr u, v) \<Rightarrow> (Inr u, v)
   | (Inl e, v) \<Rightarrow> if ignore then (Inr (), v) else (Inl e, v))"

definition wrap_error :: "err \<Rightarrow> ('w, err, 'a) act \<Rightarrow> ('w, err, 'a) act" where
  "wrap_error e m w = (case m w of (Inl _, v) \<Rightarrow> (Inl e, v) | (Inr a, v) \<Rightarrow> (Inr a, v))"

definition require :: "bool \<Rightarrow> err \<Rightarrow> ('w, err, unit) act" where
  "require b e = (if b then act_return () else act_of (Inl e))"

text \<open>
  An \<open>ExitStack\<close>: the callbacks registered so far, the last one first, run when a step raises. Each of
  them ignores its own failure (\<open>rollback\<close>).
\<close>

fun unwind :: "('w, err, unit) act list \<Rightarrow> 'w \<Rightarrow> 'w" where
  "unwind [] w = w"
| "unwind (c # cs) w = unwind cs (snd (c w))"

definition guarded ::
    "('w, err, unit) act list \<Rightarrow> ('w, err, 'a) act \<Rightarrow> ('a \<Rightarrow> ('w, err, 'b) act) \<Rightarrow> ('w, err, 'b) act" where
  "guarded callbacks m k w = (case m w of
     (Inl e, v) \<Rightarrow> (Inl e, unwind callbacks v)
   | (Inr a, v) \<Rightarrow> k a v)"

section \<open>Sources\<close>

definition metadata_from :: "('v, 'c, 'd, 'y, 'r) env \<Rightarrow> err + (string \<times> string) list option \<Rightarrow> err + ('v, 'c) metadata" where
  "metadata_from E labels = rbind labels (\<lambda>ls. case ls of
     None \<Rightarrow> Inl MetadataError
   | Some ls \<Rightarrow> from_labels (semver E) (loads E) ls)"

definition local_image :: "'v pkg_entry \<Rightarrow> string option" where
  "local_image entry = (if pe_built_in entry
     then Some ((case pe_repository entry of None \<Rightarrow> ''None'' | Some r \<Rightarrow> r) @ '':latest'')
     else pe_image_id entry)"

fun get_metadata :: "('v, 'c, 'd, 'y, 'r) env \<Rightarrow> 'v source \<Rightarrow> 'd \<Rightarrow> err + ('v, 'c) metadata" where
  "get_metadata E (TarballSource tarball) d = metadata_from E (t_labels E tarball)"
| "get_metadata E (RegistrySource repository reference) d = metadata_from E (r_labels E repository reference)"
| "get_metadata E (LocalSource entry) d = metadata_from E (d_labels E d (local_image entry))"

definition package_of :: "'v pkg_entry \<Rightarrow> ('v, 'c) metadata \<Rightarrow> ('v, 'c) package" where
  "package_of entry md =
     \<lparr>pk_entry = entry, pk_manifest = md_manifest md, pk_components = md_components md, pk_yang = md_yang md\<rparr>"

definition source_package ::
    "('v, 'c, 'd, 'y, 'r) env \<Rightarrow> 'v source \<Rightarrow> ('d, 'y, 'r, 'v) manager \<Rightarrow> err + ('v, 'c) package" where
  "source_package E src w =
     rbind (get_metadata E src (ext w)) (\<lambda>md. case src of
       LocalSource entry \<Rightarrow> Inr (package_of entry md)
     | _ \<Rightarrow>
         rbind (m_str (md_manifest md) [''package'', ''name'']) (\<lambda>name.
         rbind (m_str (md_manifest md) [''package'', ''description'']) (\<lambda>description.
         rbind (if has_package (store w) name then get_package (store w) name
                else Inr (new_entry name None (Some description) None)) (\<lambda>entry.
           Inr (package_of entry md)))))"

text \<open>\<open>repository, tag = repotag.split(':')\<close> on the first tag of the image.\<close>

definition repository_from_image :: "image \<Rightarrow> err + string option" where
  "repository_from_image img = (case img_repotags img of
     [] \<Rightarrow> Inr None
   | t # _ \<Rightarrow> (case split_on CHR '':'' t of [repository, _] \<Rightarrow> Inr (Some repository) | _ \<Rightarrow> Inl ValueError))"

definition install_image ::
    "('v, 'c, 'd, 'y, 'r) env \<Rightarrow> 'v source \<Rightarrow> ('v, 'c) package
       \<Rightarrow> ('d, 'y, 'r, 'v, image \<times> ('v, 'c) package) mact" where
  "install_image E src package = (case src of
     TarballSource tarball \<Rightarrow> act_bind (on_ext (d_load E tarball)) (\<lambda>image. act_return (image, package))
   | RegistrySource repository reference \<Rightarrow>
       act_bind (on_ext (d_pull E repository reference)) (\<lambda>image.
         let entry = pk_entry package in
         act_return (image, if pe_default_reference entry \<in> {None, Some []}
           then package\<lparr>pk_entry := entry\<lparr>pe_default_reference := reference\<rparr>\<rparr> else package))
   | LocalSource _ \<Rightarrow> act_of (Inl PyException))"

definition source_install ::
    "('v, 'c, 'd, 'y, 'r) env \<Rightarrow> 'v source \<Rightarrow> ('v, 'c) package \<Rightarrow> ('d, 'y, 'r, 'v, ('v, 'c) package) mact" where
  "source_install E src package =
     act_bind (install_image E src package) (\<lambda>(image, package).
     let entry = (pk_entry package)\<lparr>pe_image_id := Some (img_id image)\<rparr> in
     act_bind (act_of (if pe_repository entry \<in> {None, Some []}
         then rbind (repository_from_image image) (\<lambda>r. Inr (entry\<lparr>pe_repository := r\<rparr>)) else Inr entry)) (\<lambda>entry.
       act_return (package\<lparr>pk_entry := entry\<rparr>)))"

definition source_uninstall :: "('v, 'c, 'd, 'y, 'r) env \<Rightarrow> ('v, 'c) package \<Rightarrow> ('d, 'y, 'r, 'v, unit) mact" where
  "source_uninstall E package = on_ext (d_rmi E (pe_image_id (pk_entry package)))"

section \<open>Installed packages\<close>

definition is_installed :: "'v pkg_store \<Rightarrow> string \<Rightarrow> err + bool" where
  "is_installed st name =
     (if \<not> has_package st name then Inr False else rbind (get_package st name) (\<lambda>p. Inr (pe_installed p)))"

definition get_installed_package ::
    "('v, 'c, 'd, 'y, 'r) env \<Rightarrow> string \<Rightarrow> ('d, 'y, 'r, 'v, ('v, 'c) package) mact" where
  "get_installed_package E name =
     ask (\<lambda>w. rbind (get_package (store w) name) (\<lambda>entry. source_package E (LocalSource entry) w))"

definition installed_packages :: "('v, 'c, 'd, 'y, 'r) env \<Rightarrow> ('d, 'y, 'r, 'v) manager \<Rightarrow> err + ('v, 'c) packages" where
  "installed_packages E w =
     rbind (rmapM (\<lambda>(_, entry).
         rbind (source_package E (LocalSource entry) w) (\<lambda>p. Inr (pk_name p, p)))
       (filter (\<lambda>(_, entry). pe_installed entry) (entries (store w)))) (\<lambda>ps. Inr (dict_merge [] ps))"

definition get_installed_packages :: "('v, 'c, 'd, 'y, 'r) env \<Rightarrow> ('d, 'y, 'r, 'v, ('v, 'c) packages) mact" where
  "get_installed_packages E = ask (installed_packages E)"

definition installed_packages_and ::
    "('v, 'c, 'd, 'y, 'r) env \<Rightarrow> ('v, 'c) package \<Rightarrow> ('d, 'y, 'r, 'v, ('v, 'c) packages) mact" where
  "installed_packages_and E package =
     act_bind (get_installed_packages E) (\<lambda>ps. act_return (AList.update (pk_name package) package ps))"

definition installed_packages_except ::
    "('v, 'c, 'd, 'y, 'r) env \<Rightarrow> ('v, 'c) package \<Rightarrow> ('d, 'y, 'r, 'v, ('v, 'c) packages) mact" where
  "installed_packages_except E package =
     act_bind (get_installed_packages E) (\<lambda>ps.
       if map_of ps (pk_name package) = None then act_of (Inl KeyError)
       else act_return (AList.delete (pk_name package) ps))"

section \<open>Features and CLI plugins\<close>

text \<open>Waiting for the state of a feature: other features and time-outs are passed over.\<close>

fun wait_state :: "string \<Rightarrow> string \<Rightarrow> sel_event list \<Rightarrow> err + unit" where
  "wait_state name state [] = Inl OutOfFuel"
| "wait_state name state (SelTimeout # es) = wait_state name state es"
| "wait_state name state (SelError # es) = Inl PyException"
| "wait_state name state (SelUpdate feature actual # es) =
     (if feature \<noteq> name then wait_state name state es
      else if actual = Some ''failed'' then Inl PyException
      else if actual = Some state then Inr ()
      else wait_state name state es)"

definition set_feature_state ::
    "('v, 'c, 'd, 'y, 'r) env \<Rightarrow> string \<Rightarrow> string \<Rightarrow> bool \<Rightarrow> ('d, 'y, 'r, 'm, unit) hact" where
  "set_feature_state E name state block w = (case run_db (dbs w) of
     None \<Rightarrow> (Inl AttributeError, w)
   | Some r \<Rightarrow>
       let entry_data = rl_get_entry (run_l E) r FEATURE name in
       if entry_data = [] then (Inl PyException, w)
       else (case map_of entry_data ''state'' of
           None \<Rightarrow> (Inl KeyError, w)
         | Some s \<Rightarrow>
             if s = JStr ''always_enabled'' then (Inl PyException, w)
             else (case validated_mod E r FEATURE name [(''state'', JStr state)] of
                 Inl e \<Rightarrow> (Inl (if e = ValueError then PyException else e), w)
               | Inr r' \<Rightarrow>
                   (if block then wait_state name state (state_events E name state (ext w)) else Inr (),
                    w\<lparr>dbs := (dbs w)\<lparr>run_db := Some r'\<rparr>\<rparr>))))"

definition set_package_state ::
    "('v, 'c, 'd, 'y, 'r) env \<Rightarrow> ('v, 'c) package \<Rightarrow> string \<Rightarrow> ('d, 'y, 'r, 'm, unit) hact" where
  "set_package_state E package state w =
     (if chroot w then (Inr (), w)
      else act_bind (act_of (service_name (pk_manifest package))) (\<lambda>feature_name.
        set_feature_state E feature_name state True) w)"

definition start_feature :: "('v, 'c, 'd, 'y, 'r) env \<Rightarrow> ('v, 'c) package \<Rightarrow> ('d, 'y, 'r, 'm, unit) hact" where
  "start_feature E package = set_package_state E package ''enabled''"

definition stop_feature :: "('v, 'c, 'd, 'y, 'r) env \<Rightarrow> ('v, 'c) package \<Rightarrow> ('d, 'y, 'r, 'm, unit) hact" where
  "stop_feature E package = set_package_state E package ''disabled''"

definition get_cli_plugin_path :: "('v, 'c, 'd, 'y, 'r) env \<Rightarrow> ('v, 'c) package \<Rightarrow> string \<Rightarrow> err + string" where
  "get_cli_plugin_path E package command = (case plugin_dir E command of
     None \<Rightarrow> Inl PackageManagerError
   | Some d \<Rightarrow> Inr (path_join d (pk_name package @ ''.py'')))"

definition install_cli_plugin ::
    "('v, 'c, 'd, 'y, 'r) env \<Rightarrow> ('v, 'c) package \<Rightarrow> string \<Rightarrow> ('d, 'y, 'r, 'm, unit) hact" where
  "install_cli_plugin E package command =
     act_bind (act_of (m_str (pk_manifest package) [''cli'', command])) (\<lambda>image_plugin_path.
     if image_plugin_path = [] then act_return ()
     else act_bind (act_of (get_cli_plugin_path E package command)) (\<lambda>host_plugin_path.
       act_bind (on_ext (d_extract E (pe_image_id (pk_entry package)) image_plugin_path)) (write_file host_plugin_path)))"

definition uninstall_cli_plugin ::
    "('v, 'c, 'd, 'y, 'r) env \<Rightarrow> ('v, 'c) package \<Rightarrow> string \<Rightarrow> ('d, 'y, 'r, 'm, unit) hact" where
  "uninstall_cli_plugin E package command =
     act_bind (act_of (m_str (pk_manifest package) [''cli'', command])) (\<lambda>image_plugin_path.
     if image_plugin_path = [] then act_return ()
     else act_bind (act_of (get_cli_plugin_path E package command)) remove_if_exists)"

definition install_cli_plugins :: "('v, 'c, 'd, 'y, 'r) env \<Rightarrow> ('v, 'c) package \<Rightarrow> ('d, 'y, 'r, 'm, unit) hact" where
  "install_cli_plugins E package = act_each (install_cli_plugin E package) SONIC_CLI_COMMANDS"

definition uninstall_cli_plugins :: "('v, 'c, 'd, 'y, 'r) env \<Rightarrow> ('v, 'c) package \<Rightarrow> ('d, 'y, 'r, 'm, unit) hact" where
  "uninstall_cli_plugins E package = act_each (uninstall_cli_plugin E package) SONIC_CLI_COMMANDS"

section \<open>Install\<close>

definition as_version :: "('v, 'c) mval \<Rightarrow> err + 'v" where
  "as_version x = (case x of MVersion v \<Rightarrow> Inr v | _ \<Rightarrow> Inl TypeError)"

definition package_version :: "('v, 'c) package \<Rightarrow> err + 'v" where
  "package_version package = rbind (mpath (pk_manifest package) [''package'', ''version'']) as_version"

text \<open>The checks both an installation and an upgrade make.\<close>

definition run_checks ::
    "('v, 'c, 'd, 'y, 'r) env \<Rightarrow> ('v, 'c) package \<Rightarrow> ('v, 'c) packages \<Rightarrow> bool \<Rightarrow> ('d, 'y, 'r, 'v, unit) mact" where
  "run_checks E package packages skip_host_plugins =
     seq (ask (\<lambda>w. validate_package_base_os_constraints (semver E) package (version_info w))) (
     seq (act_of (validate_package_tree (semver E) packages))
       (act_of (validate_package_cli_can_be_skipped package skip_host_plugins)))"

text \<open>Setting the entry of a package that is now installed and saving the database.\<close>

definition record_installed ::
    "('v, 'c, 'd, 'y, 'r) env \<Rightarrow> 'v pkg_entry \<Rightarrow> 'v \<Rightarrow> ('d, 'y, 'r, 'v, unit) mact" where
  "record_installed E entry version =
     seq (on_store (\<lambda>s. update_package s (entry\<lparr>pe_installed := True, pe_version := Some version\<rparr>))) (commit_store E)"

definition install_steps ::
    "('v, 'c, 'd, 'y, 'r) env \<Rightarrow> 'v source \<Rightarrow> ('v, 'c) package \<Rightarrow> string \<Rightarrow> string \<Rightarrow> bool
       \<Rightarrow> ('d, 'y, 'r, 'v, ('v, 'c) package) mact" where
  "install_steps E src package state owner skip_host_plugins =
     guarded [] (source_install E src package) (\<lambda>package.
     let undo_image = source_uninstall E package; undo_service = service_remove E package True False in
     guarded [undo_image] (service_create E package True state owner) (\<lambda>_.
     guarded [undo_service, undo_image]
       (act_bind (installed_packages_and E package) (generate_shutdown_sequence_files E)) (\<lambda>_.
     guarded [undo_service, undo_image] (get_installed_packages E) (\<lambda>before.
     let undo_order = generate_shutdown_sequence_files E before in
     if skip_host_plugins then act_return package
     else guarded [undo_order, undo_service, undo_image] (install_cli_plugins E package) (\<lambda>_. act_return package)))))"

definition install_package ::
    "('v, 'c, 'd, 'y, 'r) env \<Rightarrow> 'v source \<Rightarrow> bool \<Rightarrow> bool \<Rightarrow> string \<Rightarrow> bool \<Rightarrow> ('v, 'c) package
       \<Rightarrow> ('d, 'y, 'r, 'v, unit) mact" where
  "install_package E src force enable default_owner skip_host_plugins package =
     seq (failure_ignore force (act_bind (ask (\<lambda>w. is_installed (store w) (pk_name package))) (\<lambda>b.
           require (\<not> b) PackageInstallationError))) (
     act_bind (act_of (package_version package)) (\<lambda>version.
     act_bind (installed_packages_and E package) (\<lambda>packages.
     seq (failure_ignore force (run_checks E package packages skip_host_plugins)) (
     seq (on_store (\<lambda>s. if \<not> has_package s (pk_name package)
                         then add_package s (pk_name package) (pe_repository (pk_entry package)) None None
                         else Inr s)) (
     act_bind (wrap_error PackageInstallationError
         (install_steps E src package (if enable then ''enabled'' else ''disabled'') default_owner skip_host_plugins))
       (\<lambda>package. record_installed E (pk_entry package) version))))))"

definition install_from_source ::
    "('v, 'c, 'd, 'y, 'r) env \<Rightarrow> 'v source \<Rightarrow> bool \<Rightarrow> bool \<Rightarrow> string \<Rightarrow> bool \<Rightarrow> ('d, 'y, 'r, 'v, unit) mact" where
  "install_from_source E src force enable default_owner skip_host_plugins =
     act_bind (ask (source_package E src)) (install_package E src force enable default_owner skip_host_plugins)"

section \<open>Uninstall\<close>

definition uninstall ::
    "('v, 'c, 'd, 'y, 'r) env \<Rightarrow> string \<Rightarrow> bool \<Rightarrow> bool \<Rightarrow> ('d, 'y, 'r, 'v, unit) mact" where
  "uninstall E name force keep_config =
     seq (failure_ignore force (act_bind (ask (\<lambda>w. is_installed (store w) name)) (\<lambda>b.
           require b PackageUninstallationError))) (
     act_bind (get_installed_package E name) (\<lambda>package.
     act_bind (act_of (service_name (pk_manifest package))) (\<lambda>service_name.
     seq (failure_ignore force (act_bind (ask (\<lambda>w. is_feature_enabled (run_l E) (dbs w) service_name)) (\<lambda>b.
           require (\<not> b) PackageUninstallationError))) (
     seq (require (\<not> pe_built_in (pk_entry package)) PackageUninstallationError) (
     act_bind (installed_packages_except E package) (\<lambda>packages.
     seq (failure_ignore force (act_of (validate_package_tree (semver E) packages))) (
     seq (wrap_error PackageUninstallationError (
       seq (stop_feature E package) (
       seq (uninstall_cli_plugins E package) (
       seq (service_remove E package True keep_config) (
       seq (act_bind (installed_packages_except E package) (generate_shutdown_sequence_files E)) (
       seq (on_ext (d_rm_by_ancestor E (pe_image_id (pk_entry package))))
         (on_ext (d_rmi E (pe_image_id (pk_entry package)))))))))) (
     seq (on_store (\<lambda>s. update_package s ((pk_entry package)\<lparr>pe_image_id := None, pe_installed := False, pe_version := None\<rparr>)))
       (commit_store E)))))))))"

section \<open>Upgrade and reset\<close>

text \<open>
  The callback registered after the plugins of the new package are installed calls
  \<open>_uninstall_cli_plugin\<close> without its argument \<open>command\<close>: the error is logged and nothing is undone.
\<close>

definition undo_new_plugins :: "('d, 'y, 'r, 'v, unit) mact" where
  "undo_new_plugins = act_of (Inl TypeError)"

definition upgrade_steps ::
    "('v, 'c, 'd, 'y, 'r) env \<Rightarrow> 'v source \<Rightarrow> ('v, 'c) package \<Rightarrow> ('v, 'c) package \<Rightarrow> string \<Rightarrow> bool
       \<Rightarrow> ('d, 'y, 'r, 'v, ('v, 'c) package) mact" where
  "upgrade_steps E src old_package new_package old_feature skip_host_plugins =
     (let u1 = install_cli_plugins E old_package in
      guarded [] (uninstall_cli_plugins E old_package) (\<lambda>_.
      guarded [u1] (source_install E src new_package) (\<lambda>new_package.
      let u2 = source_uninstall E new_package in
      guarded [u2, u1] (ask (\<lambda>w. is_feature_enabled (run_l E) (dbs w) old_feature)) (\<lambda>feature_enabled.
      guarded [u2, u1] (act_when feature_enabled (stop_feature E old_package)) (\<lambda>_.
      let us = (if feature_enabled then [start_feature E old_package] else []) @ [u2, u1] in
      guarded us (service_remove E old_package False False) (\<lambda>_.
      let us = service_create E old_package False ''enabled'' ''local'' # us in
      guarded us (on_ext (d_rm_by_ancestor E (pe_image_id (pk_entry old_package)))) (\<lambda>_.
      guarded us (service_create E new_package False ''enabled'' ''local'') (\<lambda>_.
      let us = service_remove E new_package False False # us in
      guarded us (act_bind (installed_packages_and E new_package) (generate_shutdown_sequence_files E)) (\<lambda>_.
      guarded us (installed_packages_and E old_package) (\<lambda>before.
      let us = generate_shutdown_sequence_files E before # us in
      guarded us (with_dbs (feature_update (run_l E) (pk_manifest old_package) (pk_manifest new_package))) (\<lambda>_.
      let us = with_dbs (feature_update (run_l E) (pk_manifest new_package) (pk_manifest old_package)) # us in
      guarded us (act_when feature_enabled (start_feature E new_package)) (\<lambda>_.
      let us = (if feature_enabled then [stop_feature E new_package] else []) @ us in
      guarded us (act_when (\<not> skip_host_plugins) (install_cli_plugins E new_package)) (\<lambda>_.
      let us = (if \<not> skip_host_plugins then [undo_new_plugins] else []) @ us in
      guarded us (on_ext (d_rmi E (pe_image_id (pk_entry old_package)))) (\<lambda>_.
        act_return new_package))))))))))))))"

text \<open>The version check: the same version again, and an older one unless that is allowed, is refused.\<close>

definition check_version ::
    "('v, 'c) semver \<Rightarrow> 'v \<Rightarrow> 'v \<Rightarrow> bool \<Rightarrow> ('w, err, unit) act" where
  "check_version sv old_version new_version allow_downgrade =
     seq (require (old_version \<noteq> new_version) PackageUpgradeError)
       (require (\<not> (v_less sv new_version old_version \<and> \<not> allow_downgrade)) PackageUpgradeError)"

definition upgrade_package ::
    "('v, 'c, 'd, 'y, 'r) env \<Rightarrow> 'v source \<Rightarrow> bool \<Rightarrow> bool \<Rightarrow> bool \<Rightarrow> ('v, 'c) package
       \<Rightarrow> ('d, 'y, 'r, 'v, unit) mact" where
  "upgrade_package E src force skip_host_plugins allow_downgrade new_package =
     seq (failure_ignore force (act_bind (ask (\<lambda>w. is_installed (store w) (pk_name new_package))) (\<lambda>b.
           require b PackageUpgradeError))) (
     act_bind (get_installed_package E (pk_name new_package)) (\<lambda>old_package.
     seq (require (\<not> pe_built_in (pk_entry old_package)) PackageUpgradeError) (
     act_bind (act_of (service_name (pk_manifest old_package))) (\<lambda>old_feature.
     act_bind (act_of (package_version old_package)) (\<lambda>old_version.
     act_bind (act_of (package_version new_package)) (\<lambda>new_version.
     seq (failure_ignore force (check_version (semver E) old_version new_version allow_downgrade)) (
     act_bind (installed_packages_and E new_package) (\<lambda>packages.
     seq (failure_ignore force (run_checks E new_package packages skip_host_plugins)) (
     act_bind (wrap_error PackageUpgradeError
         (upgrade_steps E src old_package new_package old_feature skip_host_plugins)) (\<lambda>package.
       record_installed E (pk_entry package) new_version))))))))))"

definition upgrade_from_source ::
    "('v, 'c, 'd, 'y, 'r) env \<Rightarrow> 'v source \<Rightarrow> bool \<Rightarrow> bool \<Rightarrow> bool \<Rightarrow> ('d, 'y, 'r, 'v, unit) mact" where
  "upgrade_from_source E src force skip_host_plugins allow_downgrade =
     act_bind (ask (source_package E src)) (upgrade_package E src force skip_host_plugins allow_downgrade)"

definition as_name :: "json \<Rightarrow> err + string" where
  "as_name v = (case v of JStr s \<Rightarrow> Inr s | JArr _ \<Rightarrow> Inl TypeError | JObj _ \<Rightarrow> Inl TypeError | _ \<Rightarrow> Inl PackageNotFoundError)"

text \<open>The source meant by a reference: without a tag the installed package or its default.\<close>

definition source_of_reference :: "'v pkg_store \<Rightarrow> pkg_reference \<Rightarrow> err + 'v source" where
  "source_of_reference st ref =
     rbind (as_name (ref_name ref)) (\<lambda>name.
     rbind (get_package st name) (\<lambda>entry. case ref_reference ref of
       Some r \<Rightarrow> Inr (RegistrySource (pe_repository entry) (Some r))
     | None \<Rightarrow>
         if pe_installed entry then Inr (LocalSource entry)
         else (case pe_default_reference entry of
             Some r \<Rightarrow> Inr (RegistrySource (pe_repository entry) (Some r))
           | None \<Rightarrow> Inl PackageManagerError)))"

definition get_package_source ::
    "('v, 'c, 'd, 'y, 'r) env \<Rightarrow> 'v pkg_store \<Rightarrow> string option \<Rightarrow> string option \<Rightarrow> string option \<Rightarrow> pkg_reference option
       \<Rightarrow> err + 'v source" where
  "get_package_source E st package_expression repository_reference tarball_path package_ref =
     (if package_expression \<notin> {None, Some []}
      then rbind (parse_reference_expression (semver E) (the package_expression)) (source_of_reference st)
      else if repository_reference \<notin> {None, Some []}
      then rbind (docker_ref E (the repository_reference)) (\<lambda>(repository, tag, digest).
        let reference = (if tag \<notin> {None, Some []} then tag else digest);
            reference = (if reference \<notin> {None, Some []} then reference else Some ''latest'')
        in Inr (RegistrySource (Some repository) reference))
      else if tarball_path \<notin> {None, Some []} then Inr (TarballSource (the tarball_path))
      else (case package_ref of Some ref \<Rightarrow> source_of_reference st ref | None \<Rightarrow> Inl ValueError))"

definition reset ::
    "('v, 'c, 'd, 'y, 'r) env \<Rightarrow> string \<Rightarrow> bool \<Rightarrow> bool \<Rightarrow> ('d, 'y, 'r, 'v, unit) mact" where
  "reset E name force skip_host_plugins =
     seq (failure_ignore force (act_bind (ask (\<lambda>w. is_installed (store w) name)) (\<lambda>b.
           require b PackageManagerError))) (
     act_bind (get_installed_package E name) (\<lambda>package.
     case pe_default_reference (pk_entry package) of
       None \<Rightarrow> act_of (Inl PackageManagerError)
     | Some reference \<Rightarrow>
         act_bind (ask (\<lambda>w. get_package_source E (store w) None None None
             (Some \<lparr>ref_name = JStr name, ref_reference = Some reference\<rparr>))) (\<lambda>src.
           upgrade_from_source E src force skip_host_plugins True)))"

section \<open>The public install, and the repositories\<close>

text \<open>The keyword arguments given; \<open>opt_check\<close> refuses those the chosen method does not know.\<close>

record install_opts =
  o_force :: "bool option"
  o_enable :: "bool option"
  o_owner :: "string option"
  o_skip_host_plugins :: "bool option"
  o_allow_downgrade :: "bool option"

definition no_opts :: install_opts where
  "no_opts = \<lparr>o_force = None, o_enable = None, o_owner = None, o_skip_host_plugins = None, o_allow_downgrade = None\<rparr>"

definition opt_or :: "'a option \<Rightarrow> 'a \<Rightarrow> 'a" where
  "opt_or x d = (case x of None \<Rightarrow> d | Some a \<Rightarrow> a)"

definition install ::
    "('v, 'c, 'd, 'y, 'r) env \<Rightarrow> string option \<Rightarrow> string option \<Rightarrow> string option \<Rightarrow> install_opts
       \<Rightarrow> ('d, 'y, 'r, 'v, unit) mact" where
  "install E expression repotag tarball opts =
     act_bind (ask (\<lambda>w. get_package_source E (store w) expression repotag tarball None)) (\<lambda>src.
     act_bind (ask (source_package E src)) (\<lambda>package.
     act_bind (ask (\<lambda>w. is_installed (store w) (pk_name package))) (\<lambda>installed.
     if installed
     then (if o_enable opts \<noteq> None \<or> o_owner opts \<noteq> None then act_of (Inl PackageManagerError)
       else upgrade_from_source E src (opt_or (o_force opts) False) (opt_or (o_skip_host_plugins opts) False)
         (opt_or (o_allow_downgrade opts) False))
     else (if o_allow_downgrade opts \<noteq> None then act_of (Inl PackageManagerError)
       else install_from_source E src (opt_or (o_force opts) False) (opt_or (o_enable opts) False)
         (opt_or (o_owner opts) ''local'') (opt_or (o_skip_host_plugins opts) False)))))"

definition add_repository ::
    "('v, 'c, 'd, 'y, 'r) env \<Rightarrow> string \<Rightarrow> string \<Rightarrow> string option \<Rightarrow> string option \<Rightarrow> ('d, 'y, 'r, 'v, unit) mact" where
  "add_repository E name repository description default_reference =
     seq (on_store (\<lambda>s. add_package s name (Some repository) description default_reference)) (commit_store E)"

definition remove_repository :: "('v, 'c, 'd, 'y, 'r) env \<Rightarrow> string \<Rightarrow> ('d, 'y, 'r, 'v, unit) mact" where
  "remove_repository E name = seq (on_store (\<lambda>s. remove_package s name)) (commit_store E)"

section \<open>Migration\<close>

definition migrate_package_database :: "'v pkg_entry list \<Rightarrow> ('d, 'y, 'r, 'v, unit) mact" where
  "migrate_package_database old =
     act_each (\<lambda>p. on_store (\<lambda>s.
       if has_package s (pe_name p) then Inr s
       else add_package s (pe_name p) (pe_repository p) (pe_description p) (pe_default_reference p))) old"

text \<open>
  \<open>save_image\<close> stands for fetching an image from the Docker daemon of the old system into a tarball;
  it is \<open>None\<close> when no socket is given.
\<close>

definition migrate_package ::
    "('v, 'c, 'd, 'y, 'r) env \<Rightarrow> (string option \<Rightarrow> err + string) option \<Rightarrow> 'v pkg_entry \<Rightarrow> string \<Rightarrow> 'v option
       \<Rightarrow> ('d, 'y, 'r, 'v, unit) mact" where
  "migrate_package E save_image old name version = (case save_image of
     Some save \<Rightarrow> act_bind (act_of (save (pe_image_id old))) (\<lambda>tar. install E None None (Some tar) no_opts)
   | None \<Rightarrow> install E (Some (name @ ''='' @ (case version of None \<Rightarrow> ''None'' | Some v \<Rightarrow> v_str (semver E) v))) None None no_opts)"

definition newer :: "('v, 'c, 'd, 'y, 'r) env \<Rightarrow> 'v option \<Rightarrow> 'v option \<Rightarrow> err + bool" where
  "newer E a b = (case (a, b) of (Some x, Some y) \<Rightarrow> Inr (v_less (semver E) y x) | _ \<Rightarrow> Inl AttributeError)"

definition migrate_one ::
    "('v, 'c, 'd, 'y, 'r) env \<Rightarrow> (string option \<Rightarrow> err + string) option \<Rightarrow> 'v pkg_entry \<Rightarrow> ('d, 'y, 'r, 'v, unit) mact" where
  "migrate_one E save_image old =
     (if \<not> pe_installed old \<or> pe_built_in old then act_return ()
      else seq (act_bind (ask (\<lambda>w. get_package (store w) (pe_name old))) (\<lambda>new_package.
       let name = pe_name new_package in
       if pe_installed new_package
       then act_bind (act_of (newer E (pe_version old) (pe_version new_package))) (\<lambda>b.
         if b then migrate_package E save_image old name (pe_version old) else act_return ())
       else if pe_default_reference new_package \<noteq> None
       then
         act_bind (ask (\<lambda>w. get_package_source E (store w) None None None
             (Some \<lparr>ref_name = JStr name, ref_reference = pe_default_reference new_package\<rparr>))) (\<lambda>src.
         act_bind (ask (source_package E src)) (\<lambda>package.
         act_bind (act_of (package_version package)) (\<lambda>default_version.
         act_bind (act_of (newer E (pe_version old) (Some default_version))) (\<lambda>b.
         if b then migrate_package E save_image old name (pe_version old)
         else install E (Some (name @ ''='' @ v_str (semver E) default_version)) None None no_opts))))
       else migrate_package E save_image old name (pe_version old)))
       (commit_store E))"

definition migrate_packages ::
    "('v, 'c, 'd, 'y, 'r) env \<Rightarrow> 'v pkg_entry list \<Rightarrow> (string option \<Rightarrow> err + string) option \<Rightarrow> ('d, 'y, 'r, 'v, unit) mact" where
  "migrate_packages E old_packages save_image =
     seq (migrate_package_database old_packages) (act_each (migrate_one E save_image) old_packages)"

section \<open>What leaves the package database alone\<close>

text \<open>
  \<open>keeps host.more m\<close>: whatever \<open>m\<close> returns or raises, everything beyond the host, the package database
  included, is as before. All the work on the host is of this kind.
\<close>

lemma keeps_basic [keeping]: "keeps host.more (ask f)" "keeps host.more (on_ext g)" "keeps host.more (on_yang h)"
  by (simp_all add: keeps_def act_return_def act_of_def ask_def on_ext_def on_yang_def case_prod_beta Let_def)

lemma keeps_dbs [keeping]: "keeps host.more (with_dbs f)"
  by (simp add: keeps_def with_dbs_def split: sum.splits)

lemma keeps_catch [keeping]: "keeps host.more m \<Longrightarrow> keeps host.more h \<Longrightarrow> keeps host.more (act_catch m h)"
  by (auto simp: keeps_def act_catch_def split: prod.splits sum.splits) (metis snd_conv)+

lemma keeps_unwind: "list_all (keeps host.more) cs \<Longrightarrow> host.more (unwind cs w) = host.more w"
  by (induction cs arbitrary: w) (simp_all add: keeps_def)

lemma keeps_guarded [keeping]: "list_all (keeps host.more) cs \<Longrightarrow> keeps host.more m \<Longrightarrow> (\<And>a. keeps host.more (k a)) \<Longrightarrow> keeps host.more (guarded cs m k)"
  by (auto simp: keeps_def guarded_def split: prod.splits sum.splits) (metis keeps_unwind snd_conv)+

lemma keeps_wrap [keeping]: "keeps host.more m \<Longrightarrow> keeps host.more (wrap_error e m)"
  by (auto simp: keeps_def wrap_error_def split: prod.splits sum.splits) (metis snd_conv)+

lemma keeps_ignore [keeping]: "keeps host.more m \<Longrightarrow> keeps host.more (failure_ignore b m)"
  by (auto simp: keeps_def failure_ignore_def split: prod.splits sum.splits) (metis snd_conv)+

lemma keeps_require [keeping]: "keeps host.more (require b e)"
  by (simp add: require_def keeps_return keeps_of)

lemma keeps_files [keeping]: "keeps host.more (write_file p c)" "keeps host.more (read_file p)" "keeps host.more (set_executable_bit p)"
  "keeps host.more (remove_if_exists p)"
  by (simp_all add: keeps_def write_file_def act_do_def read_file_def ask_def set_executable_bit_def remove_if_exists_def
      delete_file_def)

lemma keeps_render [keeping]: "keeps host.more (render_template E i out ctx x)"
  unfolding render_template_def by (intro keeping)

lemma keeps_run_command: "keeps host.more (run_command E c)"
  unfolding run_command_def by (intro keeping)

lemma keeps_hook [keeping]: "keeps host.more (post_operation_hook E)"
  using keeps_run_command[of E "''systemctl daemon-reload''"] by (auto simp: keeps_def post_operation_hook_def)

lemma keeps_generate [keeping]:
  "keeps host.more (generate_container_mgmt E p)" "keeps host.more (generate_service_mgmt E p)" "keeps host.more (generate_systemd_service E p)"
  "keeps host.more (generate_dump_script E p)" "keeps host.more (generate_service_reconciliation_file E p)"
  unfolding generate_container_mgmt_def generate_service_mgmt_def generate_systemd_service_def generate_dump_script_def
    generate_service_reconciliation_file_def unmarshalled_def Let_def
  by (intro keeping)+

lemma keeps_dependents [keeping]: "keeps host.more (update_dependent_list_file E p rem)"
  unfolding update_dependent_list_file_def update_dependent_def Let_def by (intro keeping)

lemma keeps_shutdown [keeping]: "keeps host.more (generate_shutdown_sequence_files E ps)"
  unfolding generate_shutdown_sequence_files_def generate_shutdown_sequence_file_def by (intro keeping)

lemma keeps_init_cfg [keeping]: "keeps host.more (set_initial_config E p)"
  unfolding set_initial_config_def init_cfg_turn_def init_cfg_write_def Let_def case_prod_beta by (intro keeping)

lemma keeps_remove_config [keeping]: "keeps host.more (remove_config E p)"
  unfolding remove_config_def case_prod_beta by (cases "pk_yang p") (auto intro!: keeping)

lemma keeps_yang_module [keeping]: "keeps host.more (install_yang_module E p)" "keeps host.more (uninstall_yang_module E p)"
  unfolding install_yang_module_def uninstall_yang_module_def by (cases "pk_yang p"; auto intro!: keeping)+

lemma keeps_autogen [keeping]: "keeps host.more (autogen_cli f E p c)"
  unfolding autogen_cli_def by (auto split: option.splits sum.splits intro!: keeping)

lemma keeps_autogen_all [keeping]: "keeps host.more (install_autogen_cli_all E p)" "keeps host.more (uninstall_autogen_cli_all E p)"
  unfolding install_autogen_cli_all_def uninstall_autogen_cli_all_def by (intro keeping)+

lemma keeps_service [keeping]: "keeps host.more (service_remove E p d k)" "keeps host.more (service_create E p r s u)"
  unfolding service_remove_def service_create_def by (intro keeping)+

lemma keeps_feature [keeping]: "keeps host.more (start_feature E p)" "keeps host.more (stop_feature E p)"
proof -
  have "keeps host.more (set_feature_state E n s b)" for n s b
    by (auto simp: keeps_def set_feature_state_def Let_def split: option.splits sum.splits)
  then have "keeps host.more (set_package_state E p s)" for s
    using keeps_bind[OF keeps_of[of host.more "service_name (pk_manifest p)"], of "\<lambda>n. set_feature_state E n s True"]
    by (auto simp: keeps_def set_package_state_def)
  then show "keeps host.more (start_feature E p)" "keeps host.more (stop_feature E p)" by (simp_all add: start_feature_def stop_feature_def)
qed

lemma keeps_plugins [keeping]: "keeps host.more (install_cli_plugins E p)" "keeps host.more (uninstall_cli_plugins E p)"
  unfolding install_cli_plugins_def uninstall_cli_plugins_def install_cli_plugin_def uninstall_cli_plugin_def
  by (intro keeping)+

lemma keeps_packages [keeping]: "keeps host.more (get_installed_packages E)" "keeps host.more (installed_packages_and E p)"
  "keeps host.more (installed_packages_except E p)" "keeps host.more (get_installed_package E n)"
  unfolding get_installed_packages_def installed_packages_and_def installed_packages_except_def get_installed_package_def
  by (intro keeping)+

lemma keeps_source [keeping]: "keeps host.more (source_install E src p)" "keeps host.more (source_uninstall E p)"
proof -
  have "keeps host.more (install_image E src p)" for p
    unfolding install_image_def by (cases src) (auto simp: Let_def intro!: keeping)
  then show "keeps host.more (source_install E src p)"
    unfolding source_install_def Let_def case_prod_beta by (intro keeping)
  show "keeps host.more (source_uninstall E p)" unfolding source_uninstall_def by (intro keeping)
qed

lemma keeps_install_steps [keeping]: "keeps host.more (install_steps E src p st own skip)"
  unfolding install_steps_def Let_def by (intro keeping) (simp_all add: keeping)

lemma keeps_upgrade_steps [keeping]: "keeps host.more (upgrade_steps E src old new f skip)"
  unfolding upgrade_steps_def Let_def undo_new_plugins_def
  by (intro keeping) (simp_all add: keeping)

lemma keeps_moreD:
  fixes m :: "('d, 'y, 'r, 'v, 'a) mact"
  assumes "keeps host.more m" and "m w = (r, w')"
  shows "store w' = store w" and "version_info w' = version_info w"
proof -
  have "host.more w' = host.more w" using assms by (metis keeps_def snd_conv)
  then show "store w' = store w" and "version_info w' = version_info w" by (cases w; cases w'; simp)+
qed

section \<open>Effects on the package database\<close>

lemma guarded_Inr [act_simps]:
  "guarded cs m k w = (Inr b, v) \<longleftrightarrow> (\<exists>a u. m w = (Inr a, u) \<and> k a u = (Inr b, v))"
  by (auto simp: guarded_def split: prod.splits sum.splits)

lemma wrap_Inr [act_simps]: "wrap_error e m w = (Inr a, v) \<longleftrightarrow> m w = (Inr a, v)"
  by (auto simp: wrap_error_def split: prod.splits sum.splits)

lemma ask_iff [act_simps]: "ask f w = (r, v) \<longleftrightarrow> r = f w \<and> v = w"
  by (auto simp: ask_def)

lemma seq_Inr [act_simps]: "seq m n w = (Inr b, v) \<longleftrightarrow> (\<exists>u. m w = (Inr (), u) \<and> n u = (Inr b, v))"
  by (auto simp: seq_def act_simps)

lemma seq_Inl [act_simps]: "seq m n w = (Inl e, v) \<longleftrightarrow> m w = (Inl e, v) \<or> (\<exists>u. m w = (Inr (), u) \<and> n u = (Inl e, v))"
  by (auto simp: seq_def act_simps)

lemma require_Inr [act_simps]: "require b e w = (Inr u, v) \<longleftrightarrow> b \<and> v = w"
  by (auto simp: require_def act_simps)

lemma require_Inl [act_simps]: "require b e w = (Inl x, v) \<longleftrightarrow> \<not> b \<and> x = e \<and> v = w"
  by (auto simp: require_def act_simps)

lemma source_install_name: "source_install E src p w = (Inr q, v) \<Longrightarrow> pk_name q = pk_name p"
  by (cases src)
     (auto simp: source_install_def install_image_def act_simps pk_name_def Let_def rbind_eq_Inr split: if_splits)

lemma install_steps_name: "install_steps E src p st own skip w = (Inr q, v) \<Longrightarrow> pk_name q = pk_name p"
  by (auto simp: install_steps_def act_simps Let_def dest: source_install_name split: if_splits)

lemma upgrade_steps_name: "upgrade_steps E src old new f skip w = (Inr q, v) \<Longrightarrow> pk_name q = pk_name new"
  unfolding upgrade_steps_def Let_def by (clarsimp simp: act_simps) (auto dest: source_install_name)

definition installed :: "'v pkg_store \<Rightarrow> string \<Rightarrow> bool" where
  "installed st n = (case map_of (entries st) n of None \<Rightarrow> False | Some e \<Rightarrow> pe_installed e)"

lemma is_installed_alt: "is_installed st n = Inr (installed st n)"
  by (simp add: is_installed_def installed_def has_package_iff get_package_def split: option.splits)

text \<open>An entry is recorded: it is the one given, the others stay, and the file holds the entries.\<close>

definition recorded :: "('v, 'c) semver \<Rightarrow> 'v pkg_store \<Rightarrow> 'v pkg_entry \<Rightarrow> 'v pkg_store \<Rightarrow> bool" where
  "recorded sv st e st' \<longleftrightarrow>
     map_of (entries st') = (map_of (entries st))(pe_name e \<mapsto> e) \<and> saves st' = saves st \<and>
     db_file st' = (if saves st then save_document sv (entries st') else db_file st)"

text \<open>Nothing that counts has changed: the same packages are installed, and the file is as it was.\<close>

definition database_kept :: "'v pkg_store \<Rightarrow> 'v pkg_store \<Rightarrow> bool" where
  "database_kept st st' \<longleftrightarrow> db_file st' = db_file st \<and> installed st' = installed st"

lemma write_entry:
  assumes "seq (on_store (\<lambda>s. update_package s e)) (commit_store E) w = (res, w')"
  shows "res = Inr () \<and> recorded (semver E) (store w) e (store w') \<or> (\<exists>x. res = Inl x) \<and> w' = w"
  using assms
  by (cases res)
     (auto simp: act_simps on_store_def commit_store_def update_package_def recorded_def commit_def update_conv'
       split: sum.splits if_splits)

lemma kept_refl [simp]: "database_kept st st"
  by (simp add: database_kept_def)

lemma keeps_store: "keeps host.more m \<Longrightarrow> m w = (r, w') \<Longrightarrow> store w' = (store w :: 'v pkg_store)"
  for m :: "('d, 'y, 'r, 'v, 'a) mact"
  by (rule keeps_moreD(1))

lemma add_if_missing:
  assumes "on_store (\<lambda>s. if \<not> has_package s n then add_package s n r None None else Inr s) w = (res, w')"
  shows "res = Inr () \<and> database_kept (store w) (store w') \<and> saves (store w') = saves (store w) \<and>
    (\<forall>k. k = n \<or> map_of (entries (store w')) k = map_of (entries (store w)) k)"
  using assms
  by (auto simp: on_store_def add_package_def database_kept_def installed_def fun_eq_iff has_package_iff update_conv'
      new_entry_def split: if_splits)

text \<open>
  \<open>db_post m st P\<close>: run with the package database \<open>st\<close>, \<open>m\<close> ends in a result and a database that
  satisfy \<open>P\<close>. A step on the host either raises with the database as it was or hands it on.
\<close>

definition db_post :: "('d, 'y, 'r, 'v, 'a) mact \<Rightarrow> 'v pkg_store \<Rightarrow> (err + 'a \<Rightarrow> 'v pkg_store \<Rightarrow> bool) \<Rightarrow> bool" where
  "db_post m st P \<longleftrightarrow> (\<forall>w res w'. store w = st \<and> m w = (res, w') \<longrightarrow> P res (store w'))"

lemma db_bind:
  fixes m :: "('d, 'y, 'r, 'v, 'a) mact"
  assumes "keeps host.more m" and "\<And>x. P (Inl x) st" and "\<And>a w u. m w = (Inr a, u) \<Longrightarrow> store w = st \<Longrightarrow> db_post (k a) st P"
  shows "db_post (act_bind m k) st P"
  unfolding db_post_def
proof (intro allI impI, elim conjE)
  fix w res w' assume w: "store w = st" and run: "act_bind m k w = (res, w')"
  show "P res (store w')"
  proof (cases "m w")
    case (Pair r u)
    then have u: "store u = st" using keeps_moreD(1)[OF assms(1)] w by simp
    show ?thesis
    proof (cases r)
      case (Inl x)
      with run Pair have "res = Inl x" "w' = u" by (auto simp: act_bind_def)
      with u assms(2)[of x] show ?thesis by simp
    next
      case (Inr a)
      then have "k a u = (res, w')" using run Pair by (simp add: act_bind_def)
      with assms(3)[of w a u] w Inr Pair u show ?thesis by (simp add: db_post_def)
    qed
  qed
qed

lemma db_seq: "keeps host.more m \<Longrightarrow> (\<And>x. P (Inl x) st) \<Longrightarrow> (\<And>w u. m w = (Inr (), u) \<Longrightarrow> store w = st \<Longrightarrow> db_post n st P) \<Longrightarrow>
    db_post (seq m n) st P"
  for m :: "('d, 'y, 'r, 'v, unit) mact"
  unfolding seq_def by (rule db_bind) auto

definition install_result ::
    "('v, 'c, 'd, 'y, 'r) env \<Rightarrow> ('v, 'c) package \<Rightarrow> 'v pkg_store \<Rightarrow> 'v pkg_store \<Rightarrow> bool" where
  "install_result E pkg st st' \<longleftrightarrow> (\<exists>v e. package_version pkg = Inr v \<and>
     map_of (entries st') (pk_name pkg) = Some e \<and> pe_installed e \<and> pe_version e = Some v \<and>
     (\<forall>n. n = pk_name pkg \<or> map_of (entries st') n = map_of (entries st) n) \<and>
     (saves st \<longrightarrow> db_file st' = save_document (semver E) (entries st')))"

lemma record_installed_result:
  assumes "record_installed E (pk_entry q) v w = (res, w')" and "package_version pkg = Inr v" and "pk_name q = pk_name pkg"
    and "\<forall>n. n = pk_name pkg \<or> map_of (entries (store w)) n = map_of (entries st) n" and "saves (store w) = saves st"
  shows "res = Inr () \<and> install_result E pkg st (store w') \<or> (\<exists>x. res = Inl x) \<and> w' = w"
  using write_entry[OF assms(1)[unfolded record_installed_def]] assms(2-5)
  by (auto simp: install_result_def recorded_def pk_name_def)

lemma keeps_checks [keeping]: "keeps host.more (run_checks E p ps skip)" "keeps host.more (check_version sv a b c)"
  unfolding run_checks_def check_version_def by (intro keeping)+

lemma db_add_if_missing:
  assumes "\<And>st'. database_kept st st' \<Longrightarrow> saves st' = saves st \<Longrightarrow>
      \<forall>k. k = n \<or> map_of (entries st') k = map_of (entries st) k \<Longrightarrow> db_post m st' P"
  shows "db_post (seq (on_store (\<lambda>s. if \<not> has_package s n then add_package s n r None None else Inr s)) m) st P"
  unfolding db_post_def
proof (intro allI impI, elim conjE)
  fix w res w' assume w: "store w = st"
    and run: "seq (on_store (\<lambda>s. if \<not> has_package s n then add_package s n r None None else Inr s)) m w = (res, w')"
  obtain r' u where a: "on_store (\<lambda>s. if \<not> has_package s n then add_package s n r None None else Inr s) w = (r', u)"
    by fastforce
  note add = add_if_missing[OF a]
  then have "m u = (res, w')" using run a by (simp add: seq_def act_bind_def)
  with assms[of "store u"] add w show "P res (store w')" by (simp add: db_post_def)
qed

definition install_post ::
    "('v, 'c, 'd, 'y, 'r) env \<Rightarrow> ('v, 'c) package \<Rightarrow> 'v pkg_store \<Rightarrow> err + unit \<Rightarrow> 'v pkg_store \<Rightarrow> bool" where
  "install_post E pkg st res st' \<longleftrightarrow>
     (case res of Inr _ \<Rightarrow> install_result E pkg st st' | Inl _ \<Rightarrow> database_kept st st')"

lemma db_record:
  assumes "package_version pkg = Inr v" and "pk_name q = pk_name pkg" and "database_kept st st1" and "saves st1 = saves st"
    and "\<forall>k. k = pk_name pkg \<or> map_of (entries st1) k = map_of (entries st) k"
  shows "db_post (record_installed E (pk_entry q) v) st1 (install_post E pkg st)"
  unfolding db_post_def
proof (intro allI impI, elim conjE)
  fix w res w' assume "store w = st1" and run: "record_installed E (pk_entry q) v w = (res, w')"
  with record_installed_result[OF run assms(1,2), of st] assms(3-5)
  show "install_post E pkg st res (store w')" by (auto simp: install_post_def)
qed

lemma install_package_effect:
  "db_post (install_package E src force enable owner skip pkg) st (install_post E pkg st)"
proof -
  have kept: "install_post E pkg st (Inl x) st" for x by (simp add: install_post_def)
  have late: "db_post (act_bind (wrap_error e (install_steps E src pkg feature owner skip))
        (\<lambda>q. record_installed E (pk_entry q) v)) st1 (install_post E pkg st)"
    if "package_version pkg = Inr v" "database_kept st st1" "saves st1 = saves st"
      "\<forall>k. k = pk_name pkg \<or> map_of (entries st1) k = map_of (entries st) k" for e feature v st1
    using that
    by (intro db_bind db_record keeping) (auto simp: install_post_def act_simps dest: install_steps_name)
  show ?thesis
    unfolding install_package_def
    by (intro db_add_if_missing db_seq db_bind late keeping kept) (auto simp: act_simps)
qed

lemma db_postD: "db_post m (store w) P \<Longrightarrow> m w = (res, w') \<Longrightarrow> P res (store w')"
  by (simp add: db_post_def)

lemma upgrade_package_effect:
  "db_post (upgrade_package E src force skip down pkg) st (install_post E pkg st)"
proof -
  have kept: "install_post E pkg st (Inl x) st" for x by (simp add: install_post_def)
  have late: "db_post (act_bind (wrap_error e (upgrade_steps E src old pkg feature skip))
        (\<lambda>q. record_installed E (pk_entry q) v)) st (install_post E pkg st)"
    if "package_version pkg = Inr v" for e feature v old
    using that kept by (intro db_bind db_record keeping) (auto simp: act_simps dest: upgrade_steps_name)
  show ?thesis
    unfolding upgrade_package_def
    by (intro db_seq db_bind late keeping kept) (auto simp: act_simps)
qed

lemma local_package: "source_package E (LocalSource e) w = Inr p \<Longrightarrow> pk_entry p = e"
  by (auto simp: source_package_def rbind_eq_Inr package_of_def)

lemma installed_package_entry:
  "get_installed_package E name w = (Inr p, u) \<Longrightarrow> u = w \<and> map_of (entries (store w)) name = Some (pk_entry p)"
  by (auto simp: get_installed_package_def act_simps rbind_eq_Inr get_package_def dest: local_package[OF sym] split: option.splits)

text \<open>A package is gone: its entry has no image, no version and is not installed, the others stay.\<close>

definition uninstall_result :: "('v, 'c) semver \<Rightarrow> string \<Rightarrow> 'v pkg_store \<Rightarrow> 'v pkg_store \<Rightarrow> bool" where
  "uninstall_result sv name st st' \<longleftrightarrow> (\<exists>e. map_of (entries st) name = Some e \<and> \<not> pe_built_in e \<and>
     map_of (entries st') = (map_of (entries st))(name \<mapsto> e\<lparr>pe_image_id := None, pe_installed := False, pe_version := None\<rparr>) \<and>
     db_file st' = (if saves st then save_document sv (entries st') else db_file st))"

definition uninstall_post :: "('v, 'c) semver \<Rightarrow> string \<Rightarrow> 'v pkg_store \<Rightarrow> err + unit \<Rightarrow> 'v pkg_store \<Rightarrow> bool" where
  "uninstall_post sv name st res st' \<longleftrightarrow> (case res of Inr _ \<Rightarrow> uninstall_result sv name st st' | Inl _ \<Rightarrow> st' = st)"

lemma db_remove:
  assumes "map_of (entries st) name = Some e" and "pe_name e = name" and "\<not> pe_built_in e"
  shows "db_post (seq (on_store (\<lambda>s. update_package s (e\<lparr>pe_image_id := None, pe_installed := False, pe_version := None\<rparr>)))
    (commit_store E)) st (uninstall_post (semver E) name st)"
  unfolding db_post_def
proof (intro allI impI, elim conjE)
  fix w res w' assume w: "store w = st"
    and run: "seq (on_store (\<lambda>s. update_package s (e\<lparr>pe_image_id := None, pe_installed := False, pe_version := None\<rparr>)))
      (commit_store E) w = (res, w')"
  from write_entry[OF run] assms w show "uninstall_post (semver E) name st res (store w')"
    by (auto simp: uninstall_post_def uninstall_result_def recorded_def)
qed

lemma uninstall_effect:
  assumes "db_wf st"
  shows "db_post (uninstall E name force keep_config) st (uninstall_post (semver E) name st)"
proof -
  have kept: "uninstall_post (semver E) name st (Inl x) st" for x by (simp add: uninstall_post_def)
  have named: "pe_name e = name" if "map_of (entries st) name = Some e" for e
    using assms that by (auto simp: db_wf_def dest!: map_of_SomeD)
  show ?thesis
    unfolding uninstall_def
    by (intro db_remove db_seq db_bind keeping kept) (auto simp: act_simps dest!: installed_package_entry intro: named)
qed

section \<open>Checks that change nothing\<close>

definition still :: "('w, err, 'a) act \<Rightarrow> bool" where
  "still m \<longleftrightarrow> (\<forall>w. snd (m w) = w)"

definition stops :: "('w, err, 'a) act \<Rightarrow> 'w \<Rightarrow> bool" where
  "stops m w \<longleftrightarrow> (\<exists>x. m w = (Inl x, w))"

named_theorems stilling \<open>computations that change nothing\<close>

lemma still_basic [stilling]: "still (act_of r)" "still (ask f)" "still (require b e)" "still (act_return a)"
  by (simp_all add: still_def act_of_def ask_def require_def act_return_def)

lemma still_bind [stilling]: "still m \<Longrightarrow> (\<And>a. still (f a)) \<Longrightarrow> still (act_bind m f)"
  by (auto simp: still_def act_bind_def split: prod.splits sum.splits) (metis snd_conv)+

lemma still_ignore [stilling]: "still m \<Longrightarrow> still (failure_ignore b m)"
  by (auto simp: still_def failure_ignore_def split: prod.splits sum.splits) (metis snd_conv)+

lemma still_installed [stilling]: "still (get_installed_package E n)"
  by (simp add: get_installed_package_def still_basic)

lemma stops_bind:
  assumes "still m" and "\<And>a. m w = (Inr a, w) \<Longrightarrow> stops (k a) w"
  shows "stops (act_bind m k) w"
proof -
  obtain r u where m: "m w = (r, u)" by fastforce
  with assms(1) have "u = w" by (metis snd_conv still_def)
  with m assms(2) show ?thesis by (cases r) (auto simp: stops_def act_bind_def)
qed

lemma stops_seq: "still m \<Longrightarrow> stops n w \<Longrightarrow> stops (seq m n) w"
  unfolding seq_def by (rule stops_bind)

lemma stops_require: "\<not> b \<Longrightarrow> stops (seq (require b e) n) w"
  by (auto simp: stops_def act_simps)

section \<open>Properties\<close>

text \<open>C5. Whatever \<open>install\<close> is given, and whichever of installation and upgrade it chooses: when it
  succeeds, the package of the source is recorded as installed with the version of its manifest, no
  other entry has changed and the file holds the database; when it raises, the same packages are
  installed as before and the file is untouched.\<close>

theorem install_records:
  assumes "install E expression repotag tarball opts w = (res, w')"
  shows "(case res of
      Inr _ \<Rightarrow> \<exists>src pkg. get_package_source E (store w) expression repotag tarball None = Inr src \<and>
        source_package E src w = Inr pkg \<and> install_result E pkg (store w) (store w')
    | Inl _ \<Rightarrow> database_kept (store w) (store w'))"
proof -
  note inst = db_postD[OF install_package_effect] and upg = db_postD[OF upgrade_package_effect]
  show ?thesis
  proof (cases "get_package_source E (store w) expression repotag tarball None")
    case (Inl x)
    with assms show ?thesis by (auto simp: install_def act_bind_def ask_def)
  next
    case (Inr src)
    show ?thesis
    proof (cases "source_package E src w")
      case (Inl x)
      with assms Inr show ?thesis by (auto simp: install_def act_bind_def ask_def)
    next
      case pkg: (Inr pkg)
      have "install_post E pkg (store w) res (store w')"
        using assms Inr pkg
        by (auto simp: install_def act_bind_def[of "ask _"] ask_def is_installed_alt act_of_def install_post_def
            install_from_source_def upgrade_from_source_def dest: inst upg split: if_splits)
      with Inr pkg show ?thesis by (auto simp: install_post_def split: sum.splits)
    qed
  qed
qed

text \<open>C19. A successful \<open>uninstall\<close> leaves the package, which was not built in, recorded as not installed,
  without version and image, and saves that; one that raises leaves the database as it was.\<close>

theorem uninstall_records:
  assumes "db_wf (store w)" and "uninstall E name force keep_config w = (res, w')"
  shows "case res of
      Inr _ \<Rightarrow> uninstall_result (semver E) name (store w) (store w')
    | Inl _ \<Rightarrow> store w' = store w"
  using db_postD[OF uninstall_effect[OF assms(1)] assms(2)] by (simp add: uninstall_post_def split: sum.splits)

text \<open>C17. A built-in package can be neither removed nor upgraded, not even by force: the operation raises
  before it has done anything to the host or the database.\<close>

theorem builtin_protected:
  assumes "map_of (entries (store w)) name = Some e" and "pe_built_in e"
    and "source_package E src w = Inr new" and "pk_name new = name"
  shows "(\<exists>x. uninstall E name force keep_config w = (Inl x, w)) \<and>
    (\<exists>x. upgrade_from_source E src force skip down w = (Inl x, w))"
proof -
  have old: "pe_built_in (pk_entry p)" if "get_installed_package E name w = (Inr p, w)" for p
    using installed_package_entry[OF that] assms(1,2) by simp
  have "stops (uninstall E name force keep_config) w"
    unfolding uninstall_def by (intro stops_bind stops_seq stops_require stilling) (simp_all add: old)
  moreover have "stops (upgrade_package E src force skip down new) w"
    unfolding upgrade_package_def assms(4) by (intro stops_bind stops_seq stops_require stilling) (simp_all add: old)
  ultimately show ?thesis
    by (auto simp: stops_def upgrade_from_source_def act_bind_def ask_def assms(3))
qed

section \<open>A sample installation\<close>

definition sample_manager :: "(unit, unit, cfg, nat) manager" where
  "sample_manager = host.extend
     (sample_host\<lparr>files := [(get_tmpl_path ''docker_image_ctl.j2'', ''a''), (get_tmpl_path ''service_mgmt.sh.j2'', ''b''),
        (get_tmpl_path ''sonic.service.j2'', ''c'')]\<rparr>)
     (manager.fields sample_store [])"

text \<open>\<open>runs m\<close>: where the templates are, \<open>m\<close> succeeds and leaves them there.\<close>

definition with_templates :: "('d, 'y, 'r, 'm) host_scheme \<Rightarrow> bool" where
  "with_templates w \<longleftrightarrow> list_all (\<lambda>t. file_exists (get_tmpl_path t) w)
     [''docker_image_ctl.j2'', ''service_mgmt.sh.j2'', ''sonic.service.j2'']"

definition runs :: "('d, 'y, 'r, 'm, 'a) hact \<Rightarrow> bool" where
  "runs m \<longleftrightarrow> (\<forall>w. with_templates w \<longrightarrow> (\<exists>a u. m w = (Inr a, u) \<and> with_templates u))"

lemma runsD: "runs m \<Longrightarrow> with_templates w \<Longrightarrow> \<exists>a u. m w = (Inr a, u) \<and> with_templates u"
  by (simp add: runs_def)

named_theorems running \<open>computations that succeed where the templates are\<close>

lemma runs_bind [running]: "runs m \<Longrightarrow> (\<And>a. runs (f a)) \<Longrightarrow> runs (act_bind m f)"
  unfolding runs_def act_bind_def by fastforce

lemma runs_seq [running]: "runs m \<Longrightarrow> runs n \<Longrightarrow> runs (seq m n)"
  unfolding seq_def by (rule runs_bind)

lemma runs_basic [running]: "runs (act_return a)" "runs (act_of (Inr b))" "runs (ask (\<lambda>w. Inr (f w)))"
  by (simp_all add: runs_def act_return_def act_of_def ask_def)

lemma runs_when [running]: "runs m \<Longrightarrow> runs (act_when b m)"
  by (simp add: act_when_def runs_basic)

lemma runs_write [running]: "runs (write_file p c)"
  by (simp add: runs_def write_file_def act_do_def with_templates_def file_exists_def update_conv')

lemma runs_exec [running]: "runs (set_executable_bit p)"
  by (simp add: runs_def set_executable_bit_def act_do_def with_templates_def file_exists_def)

lemma runs_render [running]:
  assumes "t \<in> {''docker_image_ctl.j2'', ''service_mgmt.sh.j2'', ''sonic.service.j2''}"
  shows "runs (render_template sample_pkg_env (get_tmpl_path t) out ctx x)"
proof -
  have "runs (read_file (get_tmpl_path t))"
    using assms by (auto simp: runs_def read_file_def ask_def with_templates_def file_exists_def)
  then show ?thesis unfolding render_template_def by (intro running) (simp_all add: sample_pkg_env_def running)
qed

lemma runs_dbs [running]:
  fixes f :: "'r sonic_dbs \<Rightarrow> err + 'r sonic_dbs"
  assumes "\<And>d. \<exists>d'. f d = Inr d'"
  shows "runs (with_dbs f :: ('d, 'y, 'r, 'm, unit) hact)"
  unfolding runs_def
proof (intro allI impI)
  fix w :: "('d, 'y, 'r, 'm) host_scheme" assume "with_templates w"
  moreover obtain d where "f (dbs w) = Inr d" using assms by blast
  ultimately show "\<exists>a u. with_dbs f w = (Inr a, u) \<and> with_templates u"
    by (simp add: with_dbs_def with_templates_def file_exists_def)
qed

lemma runs_catch [running]: "runs m \<Longrightarrow> runs (act_catch m h)"
  unfolding runs_def act_catch_def by fastforce

lemma runs_each [running]: "(\<And>x. runs (f x)) \<Longrightarrow> runs (act_each f xs)"
  by (induction xs) (simp_all add: running)

lemma runs_hook [running]: "runs (post_operation_hook sample_pkg_env)"
  by (auto simp: runs_def post_operation_hook_def run_command_def sample_pkg_env_def on_ext_def act_bind_def act_return_def
      with_templates_def file_exists_def)

lemma sample_unmarshals: "\<exists>j. manifest_unmarshal sample_semver sample_manifest = Inr j"
proof -
  obtain m where m: "manifest_marshal sample_semver sample_doc = Inr m" using sample_marshals by blast
  have v1: "v_parse sample_semver ''1.0.0'' = Inr 1" by (simp add: sample_semver_eval)
  have "conforms (manifest_schema 1) m" using m v1 by (simp add: manifest_marshal_def marshal_conforms[OF manifest_schema_ok])
  from marshal_roundtrip[OF sample_semver_ok manifest_schema_ok this] m v1 show ?thesis
    by (auto simp: sample_manifest_def manifest_unmarshal_def)
qed

lemma sample_values:
  "\<exists>o'. run_options sample_manifest = Inr o'"
  "m_bool sample_manifest [''service'', ''delayed''] = Inr False"
  "m_str sample_manifest [''package'', ''debug-dump''] = Inr []"
  "m_list sample_manifest [''processes''] = Inr []"
  "m_dict sample_manifest [''package'', ''init-cfg''] = Inr []"
  "\<exists>c. m_str sample_manifest [''cli'', ''show''] = Inr c"
  by (simp_all add: sample_manifest_def manifest_eval sample_semver_eval sample_doc_def manifest_access run_options_def
      m_list_def m_dict_def as_dict_def)

lemma runs_autogen [running]: "pk_yang p = None \<Longrightarrow> runs (autogen_cli f E p c)"
  by (simp add: autogen_cli_def running)

lemma runs_create [running]:
  assumes "pk_manifest p = sample_manifest" and "pk_yang p = None"
  shows "runs (service_create sample_pkg_env p True st own)"
proof -
  obtain j where j: "manifest_unmarshal sample_semver sample_manifest = Inr j" using sample_unmarshals by blast
  obtain ro where ro: "run_options sample_manifest = Inr ro" using sample_values(1) by blast
  have sv: "semver sample_pkg_env = sample_semver" by (simp add: sample_pkg_env_def)
  note facts = assms sample_manifest_facts sample_dependents sample_flags sample_values(2-5) j ro sv
  have reg: "\<exists>d'. feature_register (run_l sample_pkg_env) sample_manifest st own d = Inr d'" for st own d
    by (simp add: feature_register_def facts case_prod_beta Let_def)
  show ?thesis
    by (simp add: service_create_def generate_container_mgmt_def generate_service_mgmt_def update_dependent_list_file_def
        generate_systemd_service_def generate_dump_script_def generate_service_reconciliation_file_def install_yang_module_def
        set_initial_config_def install_autogen_cli_all_def autogen_cli_def unmarshalled_def Let_def facts act_when_def)
      (intro running; simp add: reg assms)
qed

definition sample_metadata :: "(nat, nat option) metadata" where
  "sample_metadata = \<lparr>md_manifest = sample_manifest, md_components = [], md_yang = None\<rparr>"

lemma sample_labels: "metadata_from sample_pkg_env (Inr (Some [(''com.azure.sonic.manifest'', ''{}'')])) = Inr sample_metadata"
proof -
  have "manifest_marshal sample_semver sample_doc = Inr sample_manifest"
    using sample_marshals by (auto simp: sample_manifest_def)
  then show ?thesis
    by (simp add: metadata_from_def sample_pkg_env_def from_labels_def translate_plain_to_tree_def plain_entry.simps get_or_def
        key_or_metadata_def component_versions_def map_error_def sample_metadata_def)
qed

lemma sample_local: "source_package sample_pkg_env (LocalSource e) w = Inr (package_of e sample_metadata)"
  using sample_labels by (simp add: source_package_def sample_pkg_env_def)

lemma package_of_sample [simp]: "pk_manifest (package_of e sample_metadata) = sample_manifest"
  "pk_yang (package_of e sample_metadata) = None" "pk_name (package_of e sample_metadata) = pe_name e"
  "pk_entry (package_of e sample_metadata) = e"
  by (simp_all add: package_of_def sample_metadata_def pk_name_def)

lemma sample_packages:
  "\<exists>ps. installed_packages sample_pkg_env w = Inr ps \<and> (\<forall>p \<in> set ps. pk_manifest (snd p) = sample_manifest)"
proof -
  let ?ps = "map (\<lambda>(_, e). (pe_name e, package_of e sample_metadata)) (filter (\<lambda>(_, e). pe_installed e) (entries (store w)))"
  have "installed_packages sample_pkg_env w = Inr (dict_merge [] ?ps)"
    by (simp add: installed_packages_def sample_local case_prod_unfold)
  moreover have "pk_manifest (snd p) = sample_manifest" if "p \<in> set (dict_merge [] ?ps)" for p
    using that set_dict_merge[of "[]" ?ps] by auto
  ultimately show ?thesis by blast
qed

lemma runs_shutdown [running]:
  assumes "\<forall>p \<in> set ps. pk_manifest (snd p) = sample_manifest"
  shows "runs (generate_shutdown_sequence_files sample_pkg_env ps)"
proof -
  have none: "m_strs sample_manifest [''service'', t @ ''-shutdown'', x] = Inr []" if "t \<in> {''fast'', ''warm''}" "x \<in> {''after'', ''before''}" for t x
    using that by (auto simp: sample_manifest_def manifest_eval sample_semver_eval sample_doc_def manifest_access)
  have "rfoldM (shutdown_step qs t) g ps = Inr g" if "t \<in> {''fast'', ''warm''}" for qs t g
    using assms
  proof (induction ps arbitrary: g)
    case (Cons p ps)
    then show ?case using that none[OF that] by (simp add: shutdown_step_def case_prod_beta filter_not_available_def)
  qed simp
  then have "runs (generate_shutdown_sequence_file sample_pkg_env ps t)" if "t \<in> {''fast'', ''warm''}" for t
    using that by (simp add: generate_shutdown_sequence_file_def get_shutdown_sequence_def sample_pkg_env_def running)
  from this[of "''fast''"] this[of "''warm''"] show ?thesis
    by (auto simp: generate_shutdown_sequence_files_def intro!: runs_bind runs_basic)
qed

text \<open>The same with what the first computation returns: \<open>runs_to m Q\<close> also says \<open>Q\<close> of its result.\<close>

definition runs_to :: "('d, 'y, 'r, 'm, 'a) hact \<Rightarrow> ('a \<Rightarrow> bool) \<Rightarrow> bool" where
  "runs_to m Q \<longleftrightarrow> (\<forall>w. with_templates w \<longrightarrow> (\<exists>a u. m w = (Inr a, u) \<and> with_templates u \<and> Q a))"

lemma runs_to_bind: "runs_to m Q \<Longrightarrow> (\<And>a. Q a \<Longrightarrow> runs (f a)) \<Longrightarrow> runs (act_bind m f)"
  unfolding runs_to_def runs_def act_bind_def by fastforce

lemma runs_to_guarded: "runs_to m Q \<Longrightarrow> (\<And>a. Q a \<Longrightarrow> runs (k a)) \<Longrightarrow> runs (guarded cs m k)"
  unfolding runs_to_def runs_def guarded_def by fastforce

lemma runs_guarded [running]: "runs m \<Longrightarrow> (\<And>a. runs (k a)) \<Longrightarrow> runs (guarded cs m k)"
  unfolding runs_def guarded_def by fastforce

lemma sample_source_install:
  assumes "pk_manifest p = sample_manifest" and "pk_yang p = None"
  shows "runs_to (source_install sample_pkg_env (TarballSource t) p) (\<lambda>q. pk_manifest q = sample_manifest \<and> pk_yang q = None)"
proof -
  have "\<exists>r. repository_from_image \<lparr>img_id = ''i1'', img_repotags = [''repo:1'']\<rparr> = Inr r"
    by (simp add: repository_from_image_def)
  with assms show ?thesis
    by (auto simp: runs_to_def source_install_def install_image_def sample_pkg_env_def on_ext_def act_bind_def act_return_def
        act_of_def with_templates_def file_exists_def Let_def)
qed

lemma sample_installed_and:
  assumes "pk_manifest p = sample_manifest"
  shows "runs_to (installed_packages_and sample_pkg_env p) (\<lambda>ps. \<forall>q \<in> set ps. pk_manifest (snd q) = sample_manifest)"
  unfolding runs_to_def
proof (intro allI impI)
  fix w :: "(unit, unit, cfg, nat) manager" assume w: "with_templates w"
  obtain ps where ps: "installed_packages sample_pkg_env w = Inr ps" "\<forall>q \<in> set ps. pk_manifest (snd q) = sample_manifest"
    using sample_packages by blast
  have "\<forall>q \<in> set (AList.update (pk_name p) p ps). pk_manifest (snd q) = sample_manifest"
    using ps(2) assms set_update_subset[of "pk_name p" p ps] by auto
  with ps(1) w show "\<exists>a u. installed_packages_and sample_pkg_env p w = (Inr a, u) \<and> with_templates u \<and>
      (\<forall>q \<in> set a. pk_manifest (snd q) = sample_manifest)"
    by (simp add: installed_packages_and_def get_installed_packages_def act_bind_def ask_def act_return_def)
qed

lemma runs_install_steps:
  assumes "pk_manifest p = sample_manifest" and "pk_yang p = None"
  shows "runs (install_steps sample_pkg_env (TarballSource t) p st own True)"
proof -
  have packages: "runs (get_installed_packages sample_pkg_env)"
    by (auto simp: runs_def get_installed_packages_def ask_def) (use sample_packages in blast)
  show ?thesis
    unfolding install_steps_def Let_def
    by (rule runs_to_guarded[OF sample_source_install[OF assms]])
      (auto intro!: runs_guarded runs_create runs_to_bind[OF sample_installed_and] runs_shutdown packages runs_basic)
qed

lemma ignored_still: "still m \<Longrightarrow> failure_ignore True m w = (Inr (), w)"
  by (cases "m w") (auto simp: failure_ignore_def still_def dest: spec[of _ w] split: sum.splits)

lemma sample_names:
  "m_str sample_manifest [''package'', ''name''] = Inr ''p''"
  "\<exists>d. m_str sample_manifest [''package'', ''description''] = Inr d"
  "mpath sample_manifest [''package'', ''version''] = Inr (MVersion 3)"
  by (simp_all add: sample_manifest_def manifest_eval sample_semver_eval sample_doc_def manifest_access)

lemma still_checks [stilling]: "still (run_checks E p ps skip)"
  unfolding run_checks_def seq_def by (intro stilling)

lemma sample_installs:
  "\<exists>w'. install sample_pkg_env None None (Some ''p.tar'')
     (no_opts\<lparr>o_force := Some True, o_skip_host_plugins := Some True\<rparr>) sample_manager = (Inr (), w')"
proof -
  let ?E = sample_pkg_env and ?src = "TarballSource ''p.tar'' :: nat source" and ?w = sample_manager
  obtain d where d: "m_str sample_manifest [''package'', ''description''] = Inr d" using sample_names(2) by blast
  define p where "p = package_of (new_entry ''p'' None (Some d) None) sample_metadata"
  have store: "store ?w = sample_store" by (simp add: sample_manager_def host.defs manager.defs)
  have absent: "\<not> has_package sample_store ''p''" by (simp add: sample_store_def has_package_iff)
  have p: "pk_manifest p = sample_manifest" "pk_yang p = None" "pk_name p = ''p''"
    by (simp_all add: p_def new_entry_def)
  have src: "source_package ?E ?src ?w = Inr p"
    using sample_labels sample_names(1) d absent store
    by (simp add: source_package_def p_def sample_metadata_def) (simp add: sample_pkg_env_def)
  obtain ps where ps: "installed_packages_and ?E p ?w = (Inr ps, ?w)"
    using sample_packages[of ?w]
    by (auto simp: installed_packages_and_def get_installed_packages_def act_bind_def ask_def act_return_def)
  define w1 where "w1 = ?w\<lparr>store := sample_store\<lparr>entries := AList.update ''p'' (new_entry ''p'' None None None) (entries sample_store)\<rparr>\<rparr>"
  have add: "on_store (\<lambda>s. if \<not> has_package s (pk_name p) then add_package s (pk_name p) (pe_repository (pk_entry p)) None None else Inr s) ?w
      = (Inr (), w1)"
    using absent by (simp add: on_store_def add_package_def w1_def store p) (simp add: p_def new_entry_def)
  have "with_templates w1"
    by (simp add: w1_def with_templates_def file_exists_def sample_manager_def host.defs sample_host_def)
  then obtain q w2 where q: "install_steps ?E ?src p ''disabled'' ''local'' True w1 = (Inr q, w2)"
    using runs_install_steps[OF p(1,2)] unfolding runs_def by blast
  have "store w2 = store w1" "pk_name q = ''p''"
    using keeps_moreD(1)[OF keeps_install_steps q] install_steps_name[OF q] p by simp_all
  then obtain w3 where w3: "record_installed ?E (pk_entry q) 3 w2 = (Inr (), w3)"
    by (auto simp: record_installed_def seq_def act_bind_def on_store_def update_package_def w1_def pk_name_def has_package_iff
        commit_store_def update_conv')
  have version: "package_version p = Inr 3"
    unfolding package_version_def p sample_names(3) by (simp add: as_version_def)
  have "install_package ?E ?src True False ''local'' True p ?w = (Inr (), w3)"
    using ps add q w3 version
    by (simp add: install_package_def seq_def act_bind_def ignored_still stilling act_of_def p wrap_error_def)
  then show ?thesis
    using src
    by (simp add: install_def get_package_source_def act_bind_def ask_def is_installed_def store p absent no_opts_def opt_or_def
        install_from_source_def)
qed

theorem install_records_witness:
  "\<exists>w'. install sample_pkg_env None None (Some ''p.tar'')
       (no_opts\<lparr>o_force := Some True, o_skip_host_plugins := Some True\<rparr>) sample_manager = (Inr (), w') \<and>
     (\<exists>pkg. install_result sample_pkg_env pkg (store sample_manager) (store w'))"
proof -
  obtain w' where w': "install sample_pkg_env None None (Some ''p.tar'')
      (no_opts\<lparr>o_force := Some True, o_skip_host_plugins := Some True\<rparr>) sample_manager = (Inr (), w')"
    using sample_installs by blast
  with install_records[OF w'] show ?thesis by auto
qed

lemma sample_manager_store: "store sample_manager = sample_store"
  by (simp add: sample_manager_def host.defs manager.defs)

lemma runs_remove: "p \<notin> set (map get_tmpl_path [''docker_image_ctl.j2'', ''service_mgmt.sh.j2'', ''sonic.service.j2'']) \<Longrightarrow>
    runs (remove_if_exists p)"
  by (auto simp: runs_def remove_if_exists_def delete_file_def act_do_def with_templates_def file_exists_def delete_conv')

lemma runs_remove_paths: "runs (act_each remove_if_exists (service_paths ''s''))"
  by (simp add: service_paths_def path_join_def DOCKER_CTL_SCRIPT_LOCATION_def SERVICE_MGMT_SCRIPT_LOCATION_def)
    (intro running runs_remove;
      simp add: get_tmpl_path_def path_join_def service_file_def SYSTEMD_LOCATION_def DEBUG_DUMP_SCRIPT_LOCATION_def
        ETC_SONIC_PATH_def TEMPLATES_PATH_def)

lemma runs_service_remove:
  assumes "pk_manifest p = sample_manifest" and "pk_yang p = None"
  shows "runs (service_remove sample_pkg_env p True True)"
  using assms
  by (simp add: service_remove_def sample_manifest_facts update_dependent_list_file_def sample_dependents sample_flags Let_def
      act_when_def uninstall_autogen_cli_all_def uninstall_yang_module_def)
    (intro runs_remove_paths runs_seq runs_basic runs_hook runs_dbs runs_each[OF runs_autogen]; simp)

lemma runs_uninstall_plugins:
  assumes "pk_manifest p = sample_manifest" and "pk_name p = ''p''"
  shows "runs (uninstall_cli_plugins sample_pkg_env p)"
proof -
  have "runs (uninstall_cli_plugin sample_pkg_env p c)" if "c \<in> set SONIC_CLI_COMMANDS" for c
  proof -
    have "m_str sample_manifest [''cli'', ''show''] = Inr []" "m_str sample_manifest [''cli'', ''config''] = Inr []"
      "m_str sample_manifest [''cli'', ''clear''] = Inr []"
      by (simp_all add: sample_manifest_def manifest_eval sample_semver_eval sample_doc_def manifest_access)
    moreover have "c = ''show'' \<or> c = ''config'' \<or> c = ''clear''" using that by (simp add: SONIC_CLI_COMMANDS_def)
    ultimately obtain q where "m_str sample_manifest [''cli'', c] = Inr q" by blast
    then show ?thesis
      using assms
      by (simp add: uninstall_cli_plugin_def get_cli_plugin_path_def)
        (auto simp: sample_pkg_env_def get_tmpl_path_def path_join_def TEMPLATES_PATH_def intro!: running runs_remove)
  qed
  then show ?thesis
    by (auto simp: uninstall_cli_plugins_def SONIC_CLI_COMMANDS_def intro!: runs_bind runs_basic)
qed

lemma bind_to: "m w = (Inr a, u) \<Longrightarrow> f a u = r \<Longrightarrow> act_bind m f w = r"
  by (simp add: act_bind_def)

lemma seq_to: "m w = (Inr (), u) \<Longrightarrow> n u = r \<Longrightarrow> seq m n w = r"
  unfolding seq_def by (rule bind_to)

lemma wrap_to: "m w = (Inr a, u) \<Longrightarrow> wrap_error e m w = (Inr a, u)"
  by (simp add: wrap_error_def)

definition installed_manager :: "(unit, unit, cfg, nat) manager" where
  "installed_manager = sample_manager\<lparr>store := \<lparr>entries = [(''p'', (new_entry ''p'' (Some ''repo'') None None)\<lparr>pe_installed := True,
     pe_version := Some 3, pe_image_id := Some ''i1''\<rparr>)], saves = True, db_file = JObj []\<rparr>\<rparr>"

lemma sample_uninstalls:
  "\<exists>w'. uninstall sample_pkg_env ''p'' True True installed_manager = (Inr (), w')"
proof -
  let ?E = sample_pkg_env and ?w = installed_manager
  let ?e = "(new_entry ''p'' (Some ''repo'') None None)\<lparr>pe_installed := True, pe_version := Some 3, pe_image_id := Some ''i1''\<rparr>"
  define p where "p = package_of ?e sample_metadata"
  have p: "pk_manifest p = sample_manifest" "pk_yang p = None" "pk_name p = ''p''" "pk_entry p = ?e"
    by (simp_all add: p_def new_entry_def)
  have got: "get_installed_package ?E ''p'' ?w = (Inr p, ?w)"
    by (simp add: get_installed_package_def ask_def installed_manager_def get_package_def sample_local p_def)
  have stop: "\<exists>u. stop_feature ?E p ?w = (Inr (), u) \<and> with_templates u"
    by (simp add: stop_feature_def set_package_state_def p sample_manifest_facts act_bind_def act_of_def set_feature_state_def)
      (simp add: installed_manager_def sample_manager_def host.defs sample_host_def sample_dbs_def sample_pkg_env_def mem_run_def
        with_templates_def file_exists_def Let_def get_entry_def get_table_def FEATURE_def to_upper_def str_simps)
  have entries: "entries (store ?w) = [(''p'', ?e)]" by (simp add: installed_manager_def)
  have except: "installed_packages_except ?E p u = (Inr [], u)" if "store u = store ?w" for u :: "(unit, unit, cfg, nat) manager"
  proof -
    have "installed_packages ?E u = Inr (dict_merge [] [(''p'', p)])"
      unfolding installed_packages_def that entries p_def by (simp add: sample_local new_entry_def)
    then show ?thesis
      unfolding installed_packages_except_def get_installed_packages_def p(3)
      by (simp only: ask_def act_bind_def act_return_def prod.case sum.case) (simp add: dict_merge_def act_return_def)
  qed
  from stop obtain u1 where u1: "stop_feature ?E p ?w = (Inr (), u1)" "with_templates u1" by blast
  obtain u2 where u2: "uninstall_cli_plugins ?E p u1 = (Inr (), u2)" "with_templates u2"
    using runsD[OF runs_uninstall_plugins[OF p(1,3)] u1(2)] by auto
  obtain u3 where u3: "service_remove ?E p True True u2 = (Inr (), u3)" "with_templates u3"
    using runsD[OF runs_service_remove[OF p(1,2)] u2(2)] by auto
  have s3: "store u3 = store ?w"
    using keeps_moreD(1)[OF keeps_feature(2) u1(1)] keeps_moreD(1)[OF keeps_plugins(2) u2(1)] keeps_moreD(1)[OF keeps_service(1) u3(1)] by simp
  obtain u4 where u4: "generate_shutdown_sequence_files ?E [] u3 = (Inr (), u4)"
    using runsD[OF runs_shutdown u3(2), of "[]"] by auto
  have s4: "store u4 = store ?w" using keeps_moreD(1)[OF keeps_shutdown u4] s3 by simp
  have rmi: "on_ext (d_rmi ?E i) v = (Inr (), v)" "on_ext (d_rm_by_ancestor ?E i) v = (Inr (), v)" for i v
    by (simp_all add: on_ext_def sample_pkg_env_def)
  obtain w' where saved: "seq (on_store (\<lambda>s. update_package s (?e\<lparr>pe_image_id := None, pe_installed := False,
      pe_version := None\<rparr>))) (commit_store ?E) u4 = (Inr (), w')"
    using s4
    by (simp add: seq_def act_bind_def on_store_def update_package_def has_package_iff commit_store_def installed_manager_def
        new_entry_def)
  have order: "act_bind (installed_packages_except ?E p) (generate_shutdown_sequence_files ?E) u3 = (Inr (), u4)"
    by (rule bind_to, rule except[OF s3], rule u4)
  have built: "require (\<not> pe_built_in (pk_entry p)) x ?w = (Inr (), ?w)" for x
    by (simp add: require_def act_return_def p new_entry_def)
  have name: "act_of (service_name (pk_manifest p)) ?w = (Inr ''s'', ?w)"
    by (simp add: act_of_def p sample_manifest_facts)
  show ?thesis
    unfolding uninstall_def
    by (rule exI[of _ w'], rule seq_to, rule ignored_still, intro stilling, rule bind_to, rule got, rule bind_to, rule name,
        rule seq_to, rule ignored_still, intro stilling, rule seq_to, rule built, rule bind_to, rule except[OF refl],
        rule seq_to, rule ignored_still, intro stilling, rule seq_to, rule wrap_to, rule seq_to, rule u1(1), rule seq_to, rule u2(1),
        rule seq_to, rule u3(1), rule seq_to, rule order, rule seq_to, rule rmi(2), rule rmi(1), unfold p(4), rule saved)
qed

theorem uninstall_records_witness:
  "\<exists>w'. uninstall sample_pkg_env ''p'' True True installed_manager = (Inr (), w') \<and>
     uninstall_result sample_semver ''p'' (store installed_manager) (store w')"
proof -
  have wf: "db_wf (store installed_manager)" by (simp add: installed_manager_def db_wf_def new_entry_def)
  obtain w' where w': "uninstall sample_pkg_env ''p'' True True installed_manager = (Inr (), w')"
    using sample_uninstalls by blast
  from uninstall_records[OF wf w'] w' show ?thesis by (simp add: sample_pkg_env_def)
qed

theorem builtin_protected_witness:
  "\<exists>x y. uninstall sample_pkg_env ''lldp'' True False sample_manager = (Inl x, sample_manager) \<and>
     upgrade_from_source sample_pkg_env (LocalSource (new_entry ''lldp'' None None None)) True False True sample_manager =
       (Inl y, sample_manager)"
proof -
  let ?e = "(new_entry ''lldp'' (Some ''docker-lldp'') None None)\<lparr>pe_installed := True, pe_built_in := True\<rparr>"
  have "map_of (entries (store sample_manager)) ''lldp'' = Some ?e" by (simp add: sample_manager_store sample_store_def)
  from builtin_protected[OF this _ sample_local, of "new_entry ''lldp'' None None None" True False False True] show ?thesis
    by (auto simp: new_entry_def)
qed

text \<open>C39. A removal of a service that succeeds deletes its two unit files, its two management scripts, its debug dump
  and its reconciliation file, and leaves the content of every other file as it is, the lists of dependent services
  aside, which it rewrites. So what a successful creation of the service wrote is gone after the removal: every file
  that the creation added or changed is absent, but for those lists and for the timers of a delayed service, which the
  removal leaves behind.\<close>

theorem service_remove_spec:
  assumes "service_remove E package deregister keep_config w = (Inr (), w')"
    and "service_name (pk_manifest package) = Inr name"
    and "m_strs (pk_manifest package) [''service'', ''dependent-of''] = Inr deps"
    and "\<forall>d \<in> set deps. p \<noteq> ''/etc/sonic/'' @ d @ ''_dependent'' \<and> p \<noteq> ''/etc/sonic/'' @ d @ ''_multi_inst_dependent''"
  shows "map_of (files w') p =
      (if p \<in> {''/usr/lib/systemd/system/'' @ name @ ''.service'', ''/usr/lib/systemd/system/'' @ name @ ''@.service'',
               ''/usr/local/bin/'' @ name @ ''.sh'', ''/usr/bin/'' @ name @ ''.sh'',
               ''/usr/local/bin/debug-dump/'' @ name, ''/etc/sonic/'' @ name @ ''_reconcile''}
       then None else map_of (files w) p) \<and>
    (service_create E package register st owner w0 = (Inr (), w) \<and> map_of (files w) p \<noteq> map_of (files w0) p \<and>
       p \<notin> {''/usr/lib/systemd/system/'' @ name @ ''.timer'', ''/usr/lib/systemd/system/'' @ name @ ''@.timer''}
     \<longrightarrow> map_of (files w') p = None)"
proof -
  have paths: "set (service_paths name) = {''/usr/lib/systemd/system/'' @ name @ ''.service'', ''/usr/lib/systemd/system/'' @ name @ ''@.service'',
               ''/usr/local/bin/'' @ name @ ''.sh'', ''/usr/bin/'' @ name @ ''.sh'',
               ''/usr/local/bin/debug-dump/'' @ name, ''/etc/sonic/'' @ name @ ''_reconcile''}"
    and timers: "service_file name False ''.timer'' = ''/usr/lib/systemd/system/'' @ name @ ''.timer''"
      "service_file name True ''.timer'' = ''/usr/lib/systemd/system/'' @ name @ ''@.timer''"
    by (simp_all add: service_paths_def service_file_def location_defs)
  have "p \<notin> set (map (dependent_path False) deps @ map (dependent_path True) deps)"
    using assms(4) by (auto simp: dependent_path_def location_defs)
  note removed = removed_service[OF assms(1-3) this, unfolded paths]
    and created = created_service[OF _ assms(2,3) this, unfolded paths timers]
  show ?thesis
  proof (intro conjI impI, rule removed)
    assume c: "service_create E package register st owner w0 = (Inr (), w) \<and> map_of (files w) p \<noteq> map_of (files w0) p \<and>
      p \<notin> {''/usr/lib/systemd/system/'' @ name @ ''.timer'', ''/usr/lib/systemd/system/'' @ name @ ''@.timer''}"
    then have "p \<in> set (service_paths name)" using created[of E register st owner w0 w] unfolding paths by blast
    then show "map_of (files w') p = None" using removed unfolding paths by (simp only: if_True)
  qed
qed

theorem service_remove_spec_witness:
  "\<exists>w w' :: (unit, unit, cfg, nat) manager.
     service_create sample_pkg_env (sample_package ''p'' 3 []) True ''disabled'' ''local'' sample_manager = (Inr (), w) \<and>
     service_remove sample_pkg_env (sample_package ''p'' 3 []) True True w = (Inr (), w') \<and>
     map_of (files w') ''/usr/bin/s.sh'' = None \<and> map_of (files w') ''/etc/sonic/s_reconcile'' = None"
proof -
  have "with_templates sample_manager"
    by (simp add: with_templates_def file_exists_def sample_manager_def host.defs sample_host_def)
  then obtain w where w: "service_create sample_pkg_env (sample_package ''p'' 3 []) True ''disabled'' ''local'' sample_manager = (Inr (), w)"
      "with_templates w"
    using runsD[OF runs_create[of "sample_package ''p'' 3 []"], of sample_manager] by auto
  then obtain w' where w': "service_remove sample_pkg_env (sample_package ''p'' 3 []) True True w = (Inr (), w')"
    using runsD[OF runs_service_remove[of "sample_package ''p'' 3 []"], of w] by auto
  from w(1) w' service_remove_spec[OF w', of "''s''" "[]" "''/usr/bin/s.sh''"]
    service_remove_spec[OF w', of "''s''" "[]" "''/etc/sonic/s_reconcile''"]
  show ?thesis by (auto simp: sample_manifest_facts sample_dependents)
qed

end
