(* ===== verification/AclRules.thy ===== *)
theory AclRules
  imports PyIpAddress JsonLibs SonicDb
begin

text \<open>
  Converting ACL rules (\<open>acl_loader/main.py\<close>): from the openconfig objects that \<open>pyangbind\<close> reads out of a
  file to the fields of the table ACL_RULE. A rule is the record of the leaves the code reads; a leaf
  whose YANG type is a union or a number is a JSON value. The loader's own state is \<open>acl_loader\<close>.
\<close>

section \<open>State\<close>

type_synonym rule_key = "string \<times> string"
type_synonym state_db = "string \<Rightarrow> (string \<times> string) list option"

record acl_rule =
  r_sequence_id :: json
  r_forwarding_action :: string
  r_ethertype :: json
  r_vlan_id :: json
  r_protocol :: json
  r_source_ip :: string
  r_destination_ip :: string
  r_dscp :: json
  r_icmp_type :: json
  r_icmp_code :: json
  r_source_port :: json
  r_destination_port :: json
  r_tcp_flags :: "string list"
  r_interface :: json

record acl_loader =
  requested_session :: "string option"
  mirror_stage :: "string option"
  current_table :: "string option"
  tables_db_info :: "(string \<times> dict) list"
  rules_db_info :: "(rule_key \<times> dict) list"
  rules_info :: "(rule_key \<times> dict) list"
  sessions_db_info :: "(string \<times> dict) list"
  policers_db_info :: "(string \<times> dict) list"
  max_priority :: int
  statedb :: state_db
  per_npu_statedb :: "(string \<times> state_db) list"

definition MIN_PRIORITY :: int where "MIN_PRIORITY = 1"

definition ethertype_map :: "(string \<times> int) list" where
  "ethertype_map = [(''ETHERTYPE_LLDP'', 0x88CC), (''ETHERTYPE_VLAN'', 0x8100), (''ETHERTYPE_ROCE'', 0x8915),
     (''ETHERTYPE_ARP'', 0x0806), (''ETHERTYPE_IPV4'', 0x0800), (''ETHERTYPE_IPV6'', 0x86DD), (''ETHERTYPE_MPLS'', 0x8847)]"

definition ip_protocol_map :: "(string \<times> int) list" where
  "ip_protocol_map = [(''IP_TCP'', 6), (''IP_ICMP'', 1), (''IP_UDP'', 17), (''IP_IGMP'', 2), (''IP_PIM'', 103),
     (''IP_RSVP'', 46), (''IP_GRE'', 47), (''IP_AUTH'', 51), (''IP_ICMPV6'', 58), (''IP_L2TP'', 115)]"

section \<open>Sessions and tables\<close>

definition get_session_name :: "acl_loader \<Rightarrow> string option" where
  "get_session_name L = (if requested_session L \<notin> {None, Some []} then requested_session L
     else find (\<lambda>k. take 8 k = ''everflow'') (map fst (sessions_db_info L)))"

definition set_table_name :: "string \<Rightarrow> acl_loader \<Rightarrow> acl_loader" where
  "set_table_name t L = L\<lparr>current_table := Some t\<rparr>"

definition set_session_name :: "string \<Rightarrow> acl_loader \<Rightarrow> err + acl_loader" where
  "set_session_name s L = (if s \<notin> set (map fst (sessions_db_info L)) then Inl AclLoaderException
     else Inr (L\<lparr>requested_session := Some s\<rparr>))"

definition set_mirror_stage :: "string \<Rightarrow> acl_loader \<Rightarrow> acl_loader" where
  "set_mirror_stage s L = L\<lparr>mirror_stage := Some (to_upper s)\<rparr>"

definition set_max_priority :: "int \<Rightarrow> acl_loader \<Rightarrow> acl_loader" where
  "set_max_priority p L = L\<lparr>max_priority := p\<rparr>"

definition is_table_valid :: "acl_loader \<Rightarrow> string \<Rightarrow> bool" where
  "is_table_valid L t \<longleftrightarrow> map_of (tables_db_info L) t \<notin> {None, Some []}"

definition table_info :: "acl_loader \<Rightarrow> string \<Rightarrow> err + dict" where
  "table_info L t = (case map_of (tables_db_info L) t of None \<Rightarrow> Inl KeyError | Some d \<Rightarrow> Inr d)"

definition json_upper :: "json \<Rightarrow> err + string" where
  "json_upper v = (case v of JStr s \<Rightarrow> Inr (to_upper s) | _ \<Rightarrow> Inl AttributeError)"

definition table_type :: "acl_loader \<Rightarrow> string \<Rightarrow> err + string" where
  "table_type L t = rbind (table_info L t) (\<lambda>d.
     case map_of d ''type'' of None \<Rightarrow> Inl KeyError | Some v \<Rightarrow> json_upper v)"

definition table_stage :: "dict \<Rightarrow> err + string" where
  "table_stage d = json_upper (case map_of d ''stage'' of None \<Rightarrow> JStr ''INGRESS'' | Some v \<Rightarrow> v)"

definition is_table_egress :: "acl_loader \<Rightarrow> string \<Rightarrow> err + bool" where
  "is_table_egress L t = rbind (table_info L t) (\<lambda>d. rbind (table_stage d) (\<lambda>s. Inr (s = ''EGRESS'')))"

definition is_table_mirror :: "acl_loader \<Rightarrow> string \<Rightarrow> err + bool" where
  "is_table_mirror L t = rbind (table_type L t) (\<lambda>ty. Inr (take 6 ty = ''MIRROR''))"

definition is_table_l3v6 :: "acl_loader \<Rightarrow> string \<Rightarrow> err + bool" where
  "is_table_l3v6 L t = rbind (table_type L t) (\<lambda>ty. Inr (ty = ''L3V6''))"

definition is_table_l3 :: "acl_loader \<Rightarrow> string \<Rightarrow> err + bool" where
  "is_table_l3 L t = rbind (table_type L t) (\<lambda>ty. Inr (ty = ''L3''))"

definition is_table_ipv6 :: "acl_loader \<Rightarrow> string \<Rightarrow> err + bool" where
  "is_table_ipv6 L t = rbind (table_type L t) (\<lambda>ty. Inr (ty = ''L3V6'' \<or> ty = ''MIRRORV6''))"

definition is_table_control_plane :: "acl_loader \<Rightarrow> string \<Rightarrow> err + bool" where
  "is_table_control_plane L t = rbind (table_type L t) (\<lambda>ty. Inr (ty = ''CTRLPLANE''))"

section \<open>Actions\<close>

definition capabilities :: "acl_loader \<Rightarrow> string \<Rightarrow> (string \<times> string) list option" where
  "capabilities L key = (case per_npu_statedb L of [] \<Rightarrow> statedb L key | (_, db) # _ \<Rightarrow> db key)"

text \<open>\<open>sub in s\<close> on strings.\<close>

fun substring :: "string \<Rightarrow> string \<Rightarrow> bool" where
  "substring sub [] = (sub = [])"
| "substring sub (c # s) = (take (length sub) (c # s) = sub \<or> substring sub s)"

text \<open>\<open>None\<close> is what the state database returns for a missing key; \<open>in None\<close> is a \<open>TypeError\<close>.\<close>

definition action_supported ::
    "(string \<times> string) list option \<Rightarrow> (string \<times> string) list option \<Rightarrow> string \<times> json \<Rightarrow> err + bool" where
  "action_supported acl switch action = (case acl of None \<Rightarrow> Inl TypeError | Some acl \<Rightarrow>
     case map_of acl ''action_list'' of None \<Rightarrow> Inr False | Some values \<Rightarrow>
     if to_upper (fst action) \<notin> set (split_on CHR '','' values) then Inr False
     else if fst action \<noteq> ''PACKET_ACTION'' then Inr True
     else (case switch of None \<Rightarrow> Inl TypeError | Some switch \<Rightarrow>
       case map_of switch (''ACL_ACTION|'' @ to_upper (fst action)) of None \<Rightarrow> Inr False | Some supported \<Rightarrow>
       (case snd action of JStr v \<Rightarrow> Inr (substring v supported) | _ \<Rightarrow> Inl TypeError)))"

definition validate_actions :: "acl_loader \<Rightarrow> string \<Rightarrow> dict \<Rightarrow> err + bool" where
  "validate_actions L t action_props =
     rbind (is_table_control_plane L t) (\<lambda>cp. if cp then Inr True
     else if map_of (tables_db_info L) t = None then Inl AclLoaderException
     else rbind (table_info L t) (\<lambda>d. rbind (table_stage d) (\<lambda>stage.
       rbind (rfilterM (action_supported (capabilities L (''ACL_STAGE_CAPABILITY_TABLE|'' @ stage))
           (capabilities L ''SWITCH_CAPABILITY|switch'')) action_props) (\<lambda>kept.
         Inr (length kept = length action_props)))))"

definition mirror_action :: "acl_loader \<Rightarrow> err + dict" where
  "mirror_action L = (case get_session_name L of
     None \<Rightarrow> Inl AclLoaderException
   | Some session \<Rightarrow>
       if session = [] then Inl AclLoaderException
       else if mirror_stage L = Some ''INGRESS'' then Inr [(''MIRROR_INGRESS_ACTION'', JStr session)]
       else if mirror_stage L = Some ''EGRESS'' then Inr [(''MIRROR_EGRESS_ACTION'', JStr session)]
       else Inl AclLoaderException)"

definition convert_action :: "acl_loader \<Rightarrow> string \<Rightarrow> acl_rule \<Rightarrow> err + dict" where
  "convert_action L t rule =
     rbind (if r_forwarding_action rule = ''ACCEPT''
       then rbind (is_table_control_plane L t) (\<lambda>cp. if cp then Inr [(''PACKET_ACTION'', JStr ''ACCEPT'')]
         else rbind (is_table_mirror L t) (\<lambda>m. if m then mirror_action L
         else Inr [(''PACKET_ACTION'', JStr ''FORWARD'')]))
       else if r_forwarding_action rule = ''DROP'' then Inr [(''PACKET_ACTION'', JStr ''DROP'')]
       else if r_forwarding_action rule = ''REJECT'' then Inr [(''PACKET_ACTION'', JStr ''DROP'')]
       else Inl AclLoaderException) (\<lambda>rule_props.
     rbind (validate_actions L t rule_props) (\<lambda>ok. if ok then Inr rule_props else Inl AclLoaderException))"

section \<open>Match fields\<close>

definition int_of_json :: "json \<Rightarrow> err + int" where
  "int_of_json v = (case v of
     JInt n \<Rightarrow> Inr n
   | JBool b \<Rightarrow> Inr (of_bool b)
   | JStr s \<Rightarrow> py_int s
   | _ \<Rightarrow> Inl TypeError)"

text \<open>A comparison with a number: strings and other values have none.\<close>

definition number :: "json \<Rightarrow> err + int" where
  "number v = (case v of JInt n \<Rightarrow> Inr n | JBool b \<Rightarrow> Inr (of_bool b) | _ \<Rightarrow> Inl TypeError)"

definition text_of :: "json \<Rightarrow> string option" where
  "text_of v = (case v of JStr s \<Rightarrow> Some s | _ \<Rightarrow> None)"

definition map_lookup :: "(string \<times> int) list \<Rightarrow> json \<Rightarrow> int option" where
  "map_lookup m v = (case text_of v of None \<Rightarrow> None | Some s \<Rightarrow> map_of m s)"

text \<open>A field is given unless its leaf is the empty string or the text null.\<close>

definition given :: "json \<Rightarrow> bool" where
  "given v \<longleftrightarrow> v \<noteq> JStr [] \<and> v \<noteq> JStr ''null''"

definition convert_ethertype :: "acl_rule \<Rightarrow> err + dict" where
  "convert_ethertype rule =
     (if \<not> py_truthy (r_ethertype rule) then Inr []
      else (case map_lookup ethertype_map (r_ethertype rule) of
          Some n \<Rightarrow> Inr [(''ETHER_TYPE'', JInt n)]
        | None \<Rightarrow> (case int_of_json (r_ethertype rule) of
              Inr n \<Rightarrow> Inr [(''ETHER_TYPE'', JInt n)]
            | Inl _ \<Rightarrow> Inl AclLoaderException)))"

definition convert_l2 :: "acl_rule \<Rightarrow> err + dict" where
  "convert_l2 rule =
     rbind (convert_ethertype rule) (\<lambda>ether.
     if \<not> given (r_vlan_id rule) then Inr ether
     else rbind (number (r_vlan_id rule)) (\<lambda>vlan_id.
       if vlan_id \<le> 0 \<or> vlan_id \<ge> 4096 then Inl AclLoaderException
       else Inr (ether @ [(''VLAN_ID'', r_vlan_id rule)])))"

definition convert_protocol :: "acl_loader \<Rightarrow> string \<Rightarrow> acl_rule \<Rightarrow> err + dict" where
  "convert_protocol L t rule =
     (if \<not> py_truthy (r_protocol rule) then Inr []
      else (case map_lookup ip_protocol_map (r_protocol rule) of
          Some n \<Rightarrow>
            if r_protocol rule = JStr ''IP_ICMP''
            then rbind (is_table_ipv6 L t) (\<lambda>v6. Inr [(''IP_PROTOCOL'', JInt (if v6 then 58 else n))])
            else Inr [(''IP_PROTOCOL'', JInt n)]
        | None \<Rightarrow> (case int_of_json (r_protocol rule) of
              Inr _ \<Rightarrow> Inr [(''IP_PROTOCOL'', r_protocol rule)]
            | Inl _ \<Rightarrow> Inl AclLoaderException)))"

definition convert_address :: "string \<Rightarrow> string \<Rightarrow> string \<Rightarrow> err + dict" where
  "convert_address v4_key v6_key a =
     (if a = [] then Inr []
      else rbind (ip_network a) (\<lambda>version. Inr [(if version = 4 then v4_key else v6_key, JStr a)]))"

definition convert_ip :: "acl_loader \<Rightarrow> string \<Rightarrow> acl_rule \<Rightarrow> err + dict" where
  "convert_ip L t rule =
     rbind (convert_protocol L t rule) (\<lambda>protocol.
     rbind (convert_address ''SRC_IP'' ''SRC_IPV6'' (r_source_ip rule)) (\<lambda>src.
     rbind (convert_address ''DST_IP'' ''DST_IPV6'' (r_destination_ip rule)) (\<lambda>dst.
     rbind (is_table_mirror L t) (\<lambda>mirror.
       Inr (protocol @ src @ dst @ (if mirror \<and> py_truthy (r_dscp rule) then [(''DSCP'', r_dscp rule)] else []))))))"

definition byte_field :: "string \<Rightarrow> json \<Rightarrow> err + dict" where
  "byte_field key v =
     (if \<not> given v then Inr []
      else rbind (number v) (\<lambda>n. if n < 0 \<or> n > 255 then Inl AclLoaderException else Inr [(key, v)]))"

definition convert_icmp :: "acl_loader \<Rightarrow> string \<Rightarrow> acl_rule \<Rightarrow> err + dict" where
  "convert_icmp L t rule =
     rbind (is_table_ipv6 L t) (\<lambda>v6.
     rbind (byte_field (if v6 then ''ICMPV6_TYPE'' else ''ICMP_TYPE'') (r_icmp_type rule)) (\<lambda>ty.
     rbind (byte_field (if v6 then ''ICMPV6_CODE'' else ''ICMP_CODE'') (r_icmp_code rule)) (\<lambda>code.
       Inr (ty @ code))))"

text \<open>\<open>port.replace("..", "-")\<close>.\<close>

fun replace_dots :: "string \<Rightarrow> string" where
  "replace_dots (a # b # s) = (if a = CHR ''.'' \<and> b = CHR ''.'' then CHR ''-'' # replace_dots s else a # replace_dots (b # s))"
| "replace_dots s = s"

definition convert_port :: "string \<Rightarrow> string \<times> bool" where
  "convert_port port = (if substring ''..'' port then (replace_dots port, True) else (port, False))"

text \<open>\<open>str\<close> of a leaf: a number or a text.\<close>

definition leaf_str :: "json \<Rightarrow> err + string" where
  "leaf_str v = (case v of JInt n \<Rightarrow> Inr (int_str n) | JStr s \<Rightarrow> Inr s | _ \<Rightarrow> Inl TypeError)"

definition port_field :: "string \<Rightarrow> json \<Rightarrow> err + dict" where
  "port_field key v =
     (if \<not> py_truthy v then Inr []
      else rbind (leaf_str v) (\<lambda>s. case convert_port s of
        (port, is_range) \<Rightarrow> Inr [(if is_range then key @ ''_RANGE'' else key, JStr port)]))"

text \<open>The flags are the eight bits of a byte.\<close>

definition tcp_flag :: "string \<Rightarrow> 8 word" where
  "tcp_flag f = (if f = ''TCP_FIN'' then 0x01 else if f = ''TCP_SYN'' then 0x02 else if f = ''TCP_RST'' then 0x04
     else if f = ''TCP_PSH'' then 0x08 else if f = ''TCP_ACK'' then 0x10 else if f = ''TCP_URG'' then 0x20
     else if f = ''TCP_ECE'' then 0x40 else if f = ''TCP_CWR'' then 0x80 else 0)"

definition tcp_flags :: "string list \<Rightarrow> 8 word" where
  "tcp_flags fs = foldl (\<lambda>w f. w OR tcp_flag f) 0 fs"

definition hex_char :: "nat \<Rightarrow> char" where
  "hex_char n = char_of (if n < 10 then n + 48 else n + 87)"

definition hex_byte :: "8 word \<Rightarrow> string" where
  "hex_byte w = [hex_char (unat w div 16), hex_char (unat w mod 16)]"

definition convert_transport :: "acl_rule \<Rightarrow> err + dict" where
  "convert_transport rule =
     rbind (port_field ''L4_SRC_PORT'' (r_source_port rule)) (\<lambda>src.
     rbind (port_field ''L4_DST_PORT'' (r_destination_port rule)) (\<lambda>dst.
       let flags = tcp_flags (r_tcp_flags rule) in
       Inr (src @ dst @ (if flags = 0 then []
         else [(''TCP_FLAGS'', JStr (''0x'' @ hex_byte flags @ ''/0x'' @ hex_byte flags))]))))"

definition convert_input_interface :: "acl_rule \<Rightarrow> dict" where
  "convert_input_interface rule =
     (if py_truthy (r_interface rule) then [(''IN_PORTS'', r_interface rule)] else [])"

section \<open>Rules\<close>

text \<open>A protocol that is the text of a number is never equal to a number.\<close>

definition validate_rule_fields :: "dict \<Rightarrow> err + unit" where
  "validate_rule_fields props = (case map_of props ''IP_PROTOCOL'' of None \<Rightarrow> Inr () | Some protocol \<Rightarrow>
     if \<not> py_truthy protocol then Inr ()
     else if map_of props ''TCP_FLAGS'' \<noteq> None \<and> \<not> json_eq protocol (JInt 6) then Inl AclLoaderException
     else if (map_of props ''ICMP_TYPE'' \<noteq> None \<or> map_of props ''ICMP_CODE'' \<noteq> None) \<and> \<not> json_eq protocol (JInt 1)
     then Inl AclLoaderException
     else if (map_of props ''ICMPV6_TYPE'' \<noteq> None \<or> map_of props ''ICMPV6_CODE'' \<noteq> None) \<and> \<not> json_eq protocol (JInt 58)
     then Inl AclLoaderException
     else Inr ())"

definition default_match :: "acl_loader \<Rightarrow> string \<Rightarrow> err + dict" where
  "default_match L t =
     rbind (is_table_l3v6 L t) (\<lambda>v6. if v6 then Inr [(''IP_TYPE'', JStr ''IPV6ANY'')]
     else rbind (is_table_l3 L t) (\<lambda>v4. Inr (if v4 then [(''ETHER_TYPE'', JStr (int_str 0x0800))] else [])))"

text \<open>\<open>deep_update\<close> on the fields of a rule, none of which is a dictionary, overwrites field by field.\<close>

definition convert_rule_to_db_schema :: "acl_loader \<Rightarrow> string \<Rightarrow> acl_rule \<Rightarrow> err + rule_key \<times> dict" where
  "convert_rule_to_db_schema L t rule =
     rbind (int_of_json (r_sequence_id rule)) (\<lambda>rule_idx.
     rbind (default_match L t) (\<lambda>match.
     rbind (convert_action L t rule) (\<lambda>action.
     rbind (convert_l2 rule) (\<lambda>l2.
     rbind (convert_ip L t rule) (\<lambda>ip.
     rbind (convert_icmp L t rule) (\<lambda>icmp.
     rbind (convert_transport rule) (\<lambda>transport.
     let props = foldl dict_merge ((''PRIORITY'', JStr (int_str (max_priority L - rule_idx))) # match)
           [action, l2, ip, icmp, transport, convert_input_interface rule] in
     rbind (validate_rule_fields props) (\<lambda>_.
       Inr ((t, ''RULE_'' @ int_str rule_idx), props)))))))))"

definition deny_rule :: "acl_loader \<Rightarrow> string \<Rightarrow> err + rule_key \<times> dict" where
  "deny_rule L t =
     rbind (is_table_ipv6 L t) (\<lambda>v6.
       Inr ((t, ''DEFAULT_RULE''),
         [(''PRIORITY'', JStr (int_str MIN_PRIORITY)), (''PACKET_ACTION'', JStr ''DROP''),
          (if v6 then (''IP_TYPE'', JStr ''IPV6ANY'') else (''ETHER_TYPE'', JStr (int_str 0x0800)))]))"

text \<open>\<open>deep_update(self.rules_info, rule)\<close>: the fields are merged into a rule of that key, if there is one.\<close>

definition add_rule :: "(rule_key \<times> dict) list \<Rightarrow> rule_key \<times> dict \<Rightarrow> (rule_key \<times> dict) list" where
  "add_rule info r = (case r of (k, props) \<Rightarrow>
     AList.update k (dict_merge (case map_of info k of None \<Rightarrow> [] | Some old \<Rightarrow> old) props) info)"

definition table_name :: "string \<Rightarrow> string" where
  "table_name acl_set = to_upper (map (\<lambda>c. if c = CHR '' '' \<or> c = CHR ''-'' then CHR ''_'' else c) acl_set)"

text \<open>Only an \<open>AclLoaderException\<close> skips the rule.\<close>

definition convert_entry ::
    "acl_loader \<Rightarrow> string \<Rightarrow> (rule_key \<times> dict) list \<Rightarrow> acl_rule \<Rightarrow> err + (rule_key \<times> dict) list" where
  "convert_entry L t info rule = (case convert_rule_to_db_schema L t rule of
     Inr r \<Rightarrow> Inr (add_rule info r)
   | Inl e \<Rightarrow> if e = AclLoaderException then Inr info else Inl e)"

definition convert_acl_set ::
    "acl_loader \<Rightarrow> (rule_key \<times> dict) list \<Rightarrow> string \<times> acl_rule list \<Rightarrow> err + (rule_key \<times> dict) list" where
  "convert_acl_set L info acl_set =
     (let t = table_name (fst acl_set) in
      if \<not> is_table_valid L t then Inr info
      else if current_table L \<noteq> None \<and> current_table L \<noteq> Some t then Inr info
      else rbind (rfoldM (convert_entry L t) info (snd acl_set)) (\<lambda>info.
        rbind (is_table_mirror L t) (\<lambda>mirror. if mirror then Inr info
        else rbind (is_table_egress L t) (\<lambda>egress. if egress then Inr info
        else rbind (deny_rule L t) (\<lambda>deny. Inr (add_rule info deny))))))"

definition convert_rules :: "acl_loader \<Rightarrow> (string \<times> acl_rule list) list \<Rightarrow> err + acl_loader" where
  "convert_rules L acl_sets =
     rbind (rfoldM (convert_acl_set L) (rules_info L) acl_sets) (\<lambda>info. Inr (L\<lparr>rules_info := info\<rparr>))"

section \<open>What a converted rule is\<close>

text \<open>
  \<open>field_ok\<close>: a VLAN is between 1 and 4095, an ICMP type or code is a byte. \<open>field_of K d\<close>: the keys of the
  fields \<open>d\<close> are among \<open>K\<close>, and every field is in its range.
\<close>

definition field_ok :: "string \<times> json \<Rightarrow> bool" where
  "field_ok p = (case p of (k, v) \<Rightarrow>
     (k = ''VLAN_ID'' \<longrightarrow> (\<exists>n. number v = Inr n \<and> 0 < n \<and> n < 4096)) \<and>
     (k \<in> {''ICMP_TYPE'', ''ICMP_CODE'', ''ICMPV6_TYPE'', ''ICMPV6_CODE''} \<longrightarrow> (\<exists>n. number v = Inr n \<and> 0 \<le> n \<and> n \<le> 255)))"

definition fields_of :: "string set \<Rightarrow> dict \<Rightarrow> bool" where
  "fields_of K d \<longleftrightarrow> (\<forall>p \<in> set d. fst p \<in> K \<and> field_ok p)"

definition action_keys :: "string set" where
  "action_keys = {''PACKET_ACTION'', ''MIRROR_INGRESS_ACTION'', ''MIRROR_EGRESS_ACTION''}"

definition match_keys :: "string set" where
  "match_keys = {''ETHER_TYPE'', ''VLAN_ID'', ''IP_PROTOCOL'', ''SRC_IP'', ''SRC_IPV6'', ''DST_IP'', ''DST_IPV6'', ''DSCP'',
     ''ICMP_TYPE'', ''ICMP_CODE'', ''ICMPV6_TYPE'', ''ICMPV6_CODE'', ''L4_SRC_PORT'', ''L4_SRC_PORT_RANGE'', ''L4_DST_PORT'',
     ''L4_DST_PORT_RANGE'', ''TCP_FLAGS'', ''IN_PORTS''}"

lemmas acl_res = rbind_eq_Inr fields_of_def match_keys_def field_ok_def

lemma l2_fields: "convert_l2 rule = Inr d \<Longrightarrow> fields_of match_keys d"
  by (auto simp: convert_l2_def convert_ethertype_def acl_res split: if_splits option.splits sum.splits)

lemma address_fields: "convert_address ''SRC_IP'' ''SRC_IPV6'' a = Inr d \<Longrightarrow> fields_of match_keys d"
  "convert_address ''DST_IP'' ''DST_IPV6'' a = Inr d \<Longrightarrow> fields_of match_keys d"
  by (auto simp: convert_address_def acl_res split: if_splits)

lemma protocol_fields: "convert_protocol L t rule = Inr d \<Longrightarrow> fields_of match_keys d"
  by (auto simp: convert_protocol_def acl_res split: if_splits option.splits sum.splits)

lemma fields_of_append: "fields_of K (a @ b) \<longleftrightarrow> fields_of K a \<and> fields_of K b"
  by (auto simp: fields_of_def)

lemma ip_fields:
  assumes "convert_ip L t rule = Inr d"
  shows "fields_of match_keys d"
proof -
  obtain p src dst m where parts: "convert_protocol L t rule = Inr p"
      "convert_address ''SRC_IP'' ''SRC_IPV6'' (r_source_ip rule) = Inr src"
      "convert_address ''DST_IP'' ''DST_IPV6'' (r_destination_ip rule) = Inr dst"
    and d: "d = p @ src @ dst @ (if m \<and> py_truthy (r_dscp rule) then [(''DSCP'', r_dscp rule)] else [])"
    using assms by (auto simp: convert_ip_def rbind_eq_Inr)
  have "fields_of match_keys [(''DSCP'', r_dscp rule)]" "fields_of match_keys []"
    by (simp_all add: fields_of_def match_keys_def field_ok_def)
  with protocol_fields[OF parts(1)] address_fields(1)[OF parts(2)] address_fields(2)[OF parts(3)]
  show ?thesis by (simp add: d fields_of_append)
qed

lemma icmp_fields: "convert_icmp L t rule = Inr d \<Longrightarrow> fields_of match_keys d"
proof -
  have byte: "fields_of match_keys a" if "byte_field k v = Inr a"
      and "k \<in> {''ICMP_TYPE'', ''ICMP_CODE'', ''ICMPV6_TYPE'', ''ICMPV6_CODE''}" for a k v
    using that by (auto simp: byte_field_def acl_res split: if_splits)
  assume "convert_icmp L t rule = Inr d"
  then show ?thesis
    by (auto simp: convert_icmp_def rbind_eq_Inr fields_of_append split: if_splits elim!: byte)
qed

lemma port_field_shape:
  "port_field k v = Inr a \<Longrightarrow> a = [] \<or> (\<exists>s. a = [(k, JStr s)] \<or> a = [(k @ ''_RANGE'', JStr s)])"
  by (cases "leaf_str v") (auto simp: port_field_def case_prod_beta split: if_splits)

lemma port_fields:
  assumes "port_field k v = Inr a" and "k \<in> {''L4_SRC_PORT'', ''L4_DST_PORT''}"
  shows "fields_of match_keys a"
  using port_field_shape[OF assms(1)] assms(2) by (auto simp: fields_of_def match_keys_def field_ok_def)

lemma transport_fields:
  assumes "convert_transport rule = Inr d"
  shows "fields_of match_keys d"
proof -
  obtain src dst where parts: "port_field ''L4_SRC_PORT'' (r_source_port rule) = Inr src"
      "port_field ''L4_DST_PORT'' (r_destination_port rule) = Inr dst"
    and d: "d = src @ dst @ (if tcp_flags (r_tcp_flags rule) = 0 then [] else [(''TCP_FLAGS'',
      JStr (''0x'' @ hex_byte (tcp_flags (r_tcp_flags rule)) @ ''/0x'' @ hex_byte (tcp_flags (r_tcp_flags rule))))])"
    using assms unfolding convert_transport_def Let_def rbind_eq_Inr by blast
  have "fields_of match_keys [(''TCP_FLAGS'', x)]" "fields_of match_keys []" for x
    by (simp_all add: fields_of_def match_keys_def field_ok_def)
  with port_fields[OF parts(1)] port_fields[OF parts(2)] show ?thesis by (simp add: d fields_of_append)
qed

lemma interface_fields: "fields_of match_keys (convert_input_interface rule)"
  by (simp add: convert_input_interface_def fields_of_def match_keys_def field_ok_def)

lemma default_fields: "default_match L t = Inr d \<Longrightarrow> fields_of (match_keys \<union> {''IP_TYPE''}) d"
  by (auto simp: default_match_def acl_res split: if_splits)

lemma action_fields: "convert_action L t rule = Inr d \<Longrightarrow> \<exists>k s. d = [(k, JStr s)] \<and> k \<in> action_keys"
  by (auto simp: convert_action_def mirror_action_def action_keys_def rbind_eq_Inr split: if_splits option.splits)

lemma converted_parts:
  assumes "convert_rule_to_db_schema L t rule = Inr (key, props)"
  obtains idx k s match rest where "int_of_json (r_sequence_id rule) = Inr idx" and "key = (t, ''RULE_'' @ int_str idx)"
    and "props = foldl dict_merge ((''PRIORITY'', JStr (int_str (max_priority L - idx))) # match) ([(k, JStr s)] # rest)"
    and "k \<in> action_keys" and "fields_of (match_keys \<union> {''IP_TYPE''}) match" and "\<forall>d \<in> set rest. fields_of match_keys d"
    and "validate_rule_fields props = Inr ()"
proof -
  from assms obtain idx match action l2 ip icmp transport where
      parts: "int_of_json (r_sequence_id rule) = Inr idx" "default_match L t = Inr match" "convert_action L t rule = Inr action"
      "convert_l2 rule = Inr l2" "convert_ip L t rule = Inr ip" "convert_icmp L t rule = Inr icmp" "convert_transport rule = Inr transport"
    and res: "key = (t, ''RULE_'' @ int_str idx)"
      "props = foldl dict_merge ((''PRIORITY'', JStr (int_str (max_priority L - idx))) # match)
         [action, l2, ip, icmp, transport, convert_input_interface rule]"
      "validate_rule_fields props = Inr ()"
    by (auto simp: convert_rule_to_db_schema_def rbind_eq_Inr Let_def)
  from action_fields[OF parts(3)] obtain k s where a: "action = [(k, JStr s)]" "k \<in> action_keys" by blast
  show thesis
    by (rule that[of idx match k s "[l2, ip, icmp, transport, convert_input_interface rule]"])
      (use parts res a in \<open>auto dest: default_fields l2_fields ip_fields icmp_fields transport_fields simp: interface_fields\<close>)
qed

lemma match_not_action: "d \<in> set rest \<Longrightarrow> \<forall>d \<in> set rest. fields_of match_keys d \<Longrightarrow> k \<notin> match_keys \<Longrightarrow> k \<notin> fst ` set d"
  by (auto simp: fields_of_def)

lemma action_not_match: "k \<in> action_keys \<Longrightarrow> k \<notin> match_keys \<and> k \<noteq> ''PRIORITY'' \<and> k \<noteq> ''IP_TYPE''"
  by (auto simp: action_keys_def match_keys_def)

definition rule_fields_ok :: "dict \<Rightarrow> bool" where
  "rule_fields_ok props \<longleftrightarrow>
     (\<forall>p \<in> set props. fst p \<in> match_keys \<union> action_keys \<union> {''IP_TYPE'', ''PRIORITY''} \<and> field_ok p) \<and>
     (\<forall>protocol. map_of props ''IP_PROTOCOL'' = Some protocol \<and> py_truthy protocol \<longrightarrow>
       (map_of props ''TCP_FLAGS'' \<noteq> None \<longrightarrow> json_eq protocol (JInt 6)) \<and>
       (map_of props ''ICMP_TYPE'' \<noteq> None \<or> map_of props ''ICMP_CODE'' \<noteq> None \<longrightarrow> json_eq protocol (JInt 1)) \<and>
       (map_of props ''ICMPV6_TYPE'' \<noteq> None \<or> map_of props ''ICMPV6_CODE'' \<noteq> None \<longrightarrow> json_eq protocol (JInt 58)))"

lemma converted_rule_shape:
  assumes "convert_rule_to_db_schema L t rule = Inr (key, props)"
  shows "\<exists>idx. int_of_json (r_sequence_id rule) = Inr idx \<and> key = (t, ''RULE_'' @ int_str idx) \<and>
    map_of props ''PRIORITY'' = Some (JStr (int_str (max_priority L - idx))) \<and>
    (\<exists>k \<in> action_keys. \<exists>s. map_of props k = Some (JStr s)) \<and> rule_fields_ok props"
proof -
  obtain idx k s match rest where r: "int_of_json (r_sequence_id rule) = Inr idx" "key = (t, ''RULE_'' @ int_str idx)"
      "props = foldl dict_merge ((''PRIORITY'', JStr (int_str (max_priority L - idx))) # match) ([(k, JStr s)] # rest)"
      "k \<in> action_keys" "fields_of (match_keys \<union> {''IP_TYPE''}) match" "\<forall>d \<in> set rest. fields_of match_keys d"
      "validate_rule_fields props = Inr ()"
    using converted_parts[OF assms] .
  have away: "\<forall>d \<in> set rest. n \<notin> fst ` set d" if "n \<notin> match_keys" for n using match_not_action[OF _ r(6) that] by blast
  have "map_of props ''PRIORITY'' = Some (JStr (int_str (max_priority L - idx)))"
    unfolding r(3) using away[of "''PRIORITY''"] action_not_match[OF r(4)]
    by (subst dict_merges_other) (auto simp: match_keys_def)
  moreover have "map_of props k = Some (JStr s)"
    unfolding r(3) using away[of k] action_not_match[OF r(4)]
    by (simp add: dict_merges_other) (simp add: dict_merge_def)
  moreover have "\<forall>p \<in> set props. fst p \<in> match_keys \<union> action_keys \<union> {''IP_TYPE'', ''PRIORITY''} \<and> field_ok p"
  proof
    fix p assume "p \<in> set props"
    then have "p = (''PRIORITY'', JStr (int_str (max_priority L - idx))) \<or> p \<in> set match \<or> p = (k, JStr s) \<or>
        (\<exists>d \<in> set rest. p \<in> set d)"
      unfolding r(3) using set_dict_merges[of "(''PRIORITY'', JStr (int_str (max_priority L - idx))) # match" "[(k, JStr s)] # rest"]
      by auto
    with r(4-6) show "fst p \<in> match_keys \<union> action_keys \<union> {''IP_TYPE'', ''PRIORITY''} \<and> field_ok p"
      by (auto simp: fields_of_def field_ok_def action_keys_def)
  qed
  moreover have "\<forall>protocol. map_of props ''IP_PROTOCOL'' = Some protocol \<and> py_truthy protocol \<longrightarrow>
       (map_of props ''TCP_FLAGS'' \<noteq> None \<longrightarrow> json_eq protocol (JInt 6)) \<and>
       (map_of props ''ICMP_TYPE'' \<noteq> None \<or> map_of props ''ICMP_CODE'' \<noteq> None \<longrightarrow> json_eq protocol (JInt 1)) \<and>
       (map_of props ''ICMPV6_TYPE'' \<noteq> None \<or> map_of props ''ICMPV6_CODE'' \<noteq> None \<longrightarrow> json_eq protocol (JInt 58))"
    using r(7) by (auto simp: validate_rule_fields_def split: if_splits)
  ultimately show ?thesis using r(1,2,4) unfolding rule_fields_ok_def by blast
qed

text \<open>C24. What the conversion of a rule yields: the rule is named after its sequence number and its priority falls
  with it, it has one of the three actions, only known fields, VLANs and ICMP values in their ranges, and
  no TCP flags or ICMP fields beside the number of another protocol.\<close>

theorem converted_rule_ok:
  assumes "convert_rule_to_db_schema L t rule = Inr (key, props)"
  shows "\<exists>idx. int_of_json (r_sequence_id rule) = Inr idx \<and> key = (t, ''RULE_'' @ int_str idx) \<and>
    map_of props ''PRIORITY'' = Some (JStr (int_str (max_priority L - idx))) \<and>
    (\<exists>k \<in> action_keys. \<exists>s. map_of props k = Some (JStr s)) \<and> rule_fields_ok props"
  using assms by (rule converted_rule_shape)

section \<open>The rules of a file\<close>

text \<open>
  The invariant of \<open>rules_info\<close>: every entry is a converted rule or the final deny rule of a table that exists
  and is not excluded; the priority of each is what its name says.
\<close>

definition selected :: "acl_loader \<Rightarrow> string \<Rightarrow> bool" where
  "selected L t \<longleftrightarrow> is_table_valid L t \<and> (current_table L = None \<or> current_table L = Some t)"

definition rule_entry_ok :: "acl_loader \<Rightarrow> rule_key \<times> dict \<Rightarrow> bool" where
  "rule_entry_ok L r \<longleftrightarrow> (case r of ((t, n), props) \<Rightarrow> selected L t \<and> distinct (map fst props) \<and>
     (n = ''DEFAULT_RULE'' \<and> map_of props ''PRIORITY'' = Some (JStr (int_str MIN_PRIORITY)) \<and>
        map_of props ''PACKET_ACTION'' = Some (JStr ''DROP'') \<or>
      (\<exists>idx. n = ''RULE_'' @ int_str idx \<and> map_of props ''PRIORITY'' = Some (JStr (int_str (max_priority L - idx))))))"

definition rules_ok :: "acl_loader \<Rightarrow> (rule_key \<times> dict) list \<Rightarrow> bool" where
  "rules_ok L info \<longleftrightarrow> distinct (map fst info) \<and> (\<forall>r \<in> set info. rule_entry_ok L r)"

lemma distinct_dict_merge: "distinct (map fst a) \<Longrightarrow> distinct (map fst (dict_merge a b))"
  by (induction b arbitrary: a) (simp_all add: dict_merge_def case_prod_beta distinct_update)

lemma distinct_dict_merges: "distinct (map fst a) \<Longrightarrow> distinct (map fst (foldl dict_merge a bs))"
  by (induction bs arbitrary: a) (simp_all add: distinct_dict_merge)

lemma converted_distinct: "convert_rule_to_db_schema L t rule = Inr (key, props) \<Longrightarrow> distinct (map fst props)"
  by (auto simp: convert_rule_to_db_schema_def default_match_def rbind_eq_Inr Let_def split: if_splits
      intro!: distinct_dict_merge)

lemma add_rule_ok:
  assumes "rules_ok L info" and "rule_entry_ok L (key, props)" and "distinct (map fst props)"
  shows "rules_ok L (add_rule info (key, props))"
proof -
  let ?old = "case map_of info key of None \<Rightarrow> [] | Some old \<Rightarrow> old"
  obtain t n where key: "key = (t, n)" by fastforce
  have merged: "map_of (dict_merge ?old props) k = Some v" if "map_of props k = Some v" for k v
    using that by (simp add: map_of_dict_merge[OF assms(3)])
  have "distinct (map fst ?old)"
    using assms(1) by (fastforce simp: rules_ok_def rule_entry_ok_def split: option.splits dest: map_of_SomeD)
  then have "distinct (map fst (dict_merge ?old props))" by (rule distinct_dict_merge)
  then have "rule_entry_ok L (key, dict_merge ?old props)"
    using assms(2) merged unfolding rule_entry_ok_def key prod.case by blast
  moreover have "set (AList.update key v info) \<subseteq> insert (key, v) (set info)" for v by (rule set_update_subset)
  ultimately show ?thesis
    using assms(1) by (auto simp: rules_ok_def add_rule_def distinct_update)
qed

lemma add_rule_keeps: "map_of info k \<noteq> None \<Longrightarrow> map_of (add_rule info r) k \<noteq> None"
  by (cases r) (auto simp: add_rule_def update_conv')

lemma add_rule_there: "map_of (add_rule info (k, props)) k \<noteq> None"
  by (simp add: add_rule_def)

lemma convert_entry_ok:
  assumes "convert_entry L t info rule = Inr info'" and "selected L t"
  shows "(rules_ok L info \<longrightarrow> rules_ok L info') \<and> (\<forall>k. map_of info k \<noteq> None \<longrightarrow> map_of info' k \<noteq> None)"
proof (cases "convert_rule_to_db_schema L t rule")
  case (Inr r)
  then obtain key props where r: "convert_rule_to_db_schema L t rule = Inr (key, props)" "r = (key, props)" by (cases r) auto
  have "rule_entry_ok L (key, props)"
    using converted_rule_shape[OF r(1)] converted_distinct[OF r(1)] assms(2) by (auto simp: rule_entry_ok_def)
  moreover have "info' = add_rule info (key, props)" using assms(1) r by (simp add: convert_entry_def)
  ultimately show ?thesis using add_rule_ok[OF _ _ converted_distinct[OF r(1)]] add_rule_keeps by blast
qed (use assms in \<open>auto simp: convert_entry_def split: if_splits\<close>)

lemma convert_entries_ok:
  assumes "rfoldM (convert_entry L t) info rules = Inr info'" and "selected L t"
  shows "(rules_ok L info \<longrightarrow> rules_ok L info') \<and> (\<forall>k. map_of info k \<noteq> None \<longrightarrow> map_of info' k \<noteq> None)"
  using assms(1) by (rule rfoldM_invariant) (use convert_entry_ok[OF _ assms(2)] in \<open>simp, blast\<close>)

definition denied :: "acl_loader \<Rightarrow> string \<Rightarrow> bool" where
  "denied L t \<longleftrightarrow> selected L t \<and> is_table_mirror L t = Inr False \<and> is_table_egress L t = Inr False"

lemma convert_acl_set_ok:
  assumes "convert_acl_set L info s = Inr info'"
  shows "(rules_ok L info \<longrightarrow> rules_ok L info') \<and> (\<forall>k. map_of info k \<noteq> None \<longrightarrow> map_of info' k \<noteq> None) \<and>
    (denied L (table_name (fst s)) \<longrightarrow> map_of info' (table_name (fst s), ''DEFAULT_RULE'') \<noteq> None)"
proof (cases "selected L (table_name (fst s))")
  case False
  then show ?thesis using assms by (auto simp: convert_acl_set_def Let_def selected_def denied_def split: if_splits)
next
  case True
  let ?t = "table_name (fst s)"
  obtain info1 m where 1: "rfoldM (convert_entry L ?t) info (snd s) = Inr info1" "is_table_mirror L ?t = Inr m"
    and 2: "(if m then Inr info1 else rbind (is_table_egress L ?t) (\<lambda>egress. if egress then Inr info1
        else rbind (deny_rule L ?t) (\<lambda>deny. Inr (add_rule info1 deny)))) = Inr info'"
    using assms True by (auto simp: convert_acl_set_def Let_def selected_def rbind_eq_Inr split: if_splits)
  note entries = convert_entries_ok[OF 1(1) True]
  have "info' = info1 \<and> \<not> denied L ?t \<or>
      (\<exists>props. info' = add_rule info1 ((?t, ''DEFAULT_RULE''), props) \<and> distinct (map fst props) \<and>
        rule_entry_ok L ((?t, ''DEFAULT_RULE''), props))"
    using 1(2) 2 True by (auto simp: rbind_eq_Inr deny_rule_def denied_def rule_entry_ok_def split: if_splits)
  then show ?thesis
  proof (elim disjE exE conjE)
    fix props assume p: "info' = add_rule info1 ((?t, ''DEFAULT_RULE''), props)" "distinct (map fst props)"
      "rule_entry_ok L ((?t, ''DEFAULT_RULE''), props)"
    with entries add_rule_ok[OF _ p(3,2)] add_rule_keeps[of info1] add_rule_there[of info1] show ?thesis by auto
  qed (use entries in auto)
qed

text \<open>The rules a file is converted to: every one belongs to an existing, selected table and is either the
  final deny rule, with the least priority, or a rule with the priority of its sequence number; every
  selected table that is neither a mirror nor an egress table has its deny rule.\<close>

theorem converted_rules:
  assumes "convert_rules L acl_sets = Inr L'" and "rules_ok L (rules_info L)"
  shows "rules_ok L (rules_info L') \<and> L' = L\<lparr>rules_info := rules_info L'\<rparr> \<and>
    (\<forall>s \<in> set acl_sets. denied L (table_name (fst s)) \<longrightarrow>
       map_of (rules_info L') (table_name (fst s), ''DEFAULT_RULE'') \<noteq> None)"
proof -
  obtain info where info: "rfoldM (convert_acl_set L) (rules_info L) acl_sets = Inr info" "L' = L\<lparr>rules_info := info\<rparr>"
    using assms(1) by (auto simp: convert_rules_def rbind_eq_Inr)
  have "(rules_ok L i \<longrightarrow> rules_ok L j) \<and> (\<forall>k. map_of i k \<noteq> None \<longrightarrow> map_of j k \<noteq> None) \<and>
      (\<forall>s \<in> set ss. denied L (table_name (fst s)) \<longrightarrow> map_of j (table_name (fst s), ''DEFAULT_RULE'') \<noteq> None)"
    if "rfoldM (convert_acl_set L) i ss = Inr j" for i j ss
    using that
  proof (induction ss arbitrary: i)
    case (Cons s ss)
    then obtain i1 where i1: "convert_acl_set L i s = Inr i1" "rfoldM (convert_acl_set L) i1 ss = Inr j"
      by (cases "convert_acl_set L i s") auto
    from Cons.IH[OF i1(2)] convert_acl_set_ok[OF i1(1)] show ?case by auto
  qed simp
  from this[OF info(1)] info(2) assms(2) show ?thesis by simp
qed

section \<open>What the rules of a file are\<close>

text \<open>
  \<open>file_entries\<close>: set by set, in the order of the file, the rules of the selected tables that can be converted, and
  the deny rule of a table that needs one. \<open>merged_rule\<close>: the fields under a key, those of later entries
  prevailing; no entry of that key, no rule.
\<close>

definition set_entries :: "acl_loader \<Rightarrow> string \<times> acl_rule list \<Rightarrow> (rule_key \<times> dict) list" where
  "set_entries L acl_set =
     (let t = table_name (fst acl_set) in
      if \<not> selected L t then []
      else [r. Inr r \<leftarrow> map (convert_rule_to_db_schema L t) (snd acl_set)] @ [r. Inr r \<leftarrow> [deny_rule L t], denied L t])"

definition file_entries :: "acl_loader \<Rightarrow> (string \<times> acl_rule list) list \<Rightarrow> (rule_key \<times> dict) list" where
  "file_entries L acl_sets = concat (map (set_entries L) acl_sets)"

definition merged_rule :: "(rule_key \<times> dict) list \<Rightarrow> rule_key \<Rightarrow> (string \<Rightarrow> json option) option" where
  "merged_rule es k = (if k \<in> fst ` set es then Some (foldl (++) Map.empty (map (map_of \<circ> snd) (filter (\<lambda>e. fst e = k) es))) else None)"

lemma merged_rule_snoc:
  "merged_rule (es @ [(k', props)]) k =
     (if k' = k then Some ((case merged_rule es k of None \<Rightarrow> Map.empty | Some m \<Rightarrow> m) ++ map_of props) else merged_rule es k)"
proof -
  have "filter (\<lambda>e. fst e = k) es = []" if "k \<notin> fst ` set es" using that by (auto simp: filter_empty_conv)
  then show ?thesis by (auto simp: merged_rule_def)
qed

lemma map_of_add_rule:
  "distinct (map fst props) \<Longrightarrow> map_option map_of (map_of (add_rule info (k', props)) k) =
     (if k' = k then Some ((case map_option map_of (map_of info k) of None \<Rightarrow> Map.empty | Some m \<Rightarrow> m) ++ map_of props)
      else map_option map_of (map_of info k))"
  by (cases "map_of info k'") (auto simp: add_rule_def update_conv' map_of_dict_merge)

lemma add_rules_merged:
  "\<forall>e \<in> set es. distinct (map fst (snd e)) \<Longrightarrow> map_option map_of (map_of (foldl add_rule [] es) k) = merged_rule es k"
proof (induction es rule: rev_induct)
  case (snoc e es)
  obtain k' props where e: "e = (k', props)" by fastforce
  have "distinct (map fst props)" using snoc.prems by (simp add: e)
  with snoc show ?case by (simp add: e merged_rule_snoc map_of_add_rule)
qed (simp add: merged_rule_def)

lemma convert_entries_fold:
  "rfoldM (convert_entry L t) info rules = Inr info' \<Longrightarrow>
     info' = foldl add_rule info [r. Inr r \<leftarrow> map (convert_rule_to_db_schema L t) rules]"
proof (induction rules arbitrary: info)
  case (Cons rule rules)
  then obtain info1 where "convert_entry L t info rule = Inr info1" "rfoldM (convert_entry L t) info1 rules = Inr info'"
    by (cases "convert_entry L t info rule") auto
  moreover from this(1) have "info1 = foldl add_rule info [r. Inr r \<leftarrow> [convert_rule_to_db_schema L t rule]]"
    by (cases "convert_rule_to_db_schema L t rule") (auto simp: convert_entry_def split: if_splits)
  ultimately show ?case using Cons.IH[of info1] by simp
qed simp

lemma convert_acl_set_fold:
  assumes "convert_acl_set L info s = Inr info'"
  shows "info' = foldl add_rule info (set_entries L s)"
proof (cases "selected L (table_name (fst s))")
  case False
  with assms show ?thesis by (auto simp: convert_acl_set_def set_entries_def selected_def Let_def split: if_splits)
next
  case True
  let ?t = "table_name (fst s)"
  obtain info1 m where 1: "rfoldM (convert_entry L ?t) info (snd s) = Inr info1" "is_table_mirror L ?t = Inr m"
    and 2: "(if m then Inr info1 else rbind (is_table_egress L ?t) (\<lambda>egress. if egress then Inr info1
        else rbind (deny_rule L ?t) (\<lambda>deny. Inr (add_rule info1 deny)))) = Inr info'"
    using assms True by (auto simp: convert_acl_set_def Let_def selected_def rbind_eq_Inr split: if_splits)
  have "info' = foldl add_rule info1 [r. Inr r \<leftarrow> [deny_rule L ?t], denied L ?t]"
    using 1(2) 2 True by (auto simp: rbind_eq_Inr denied_def split: if_splits sum.split)
  with convert_entries_fold[OF 1(1)] True show ?thesis by (simp add: set_entries_def Let_def)
qed

lemma converted_file_fold: "rfoldM (convert_acl_set L) info ss = Inr info' \<Longrightarrow> info' = foldl add_rule info (file_entries L ss)"
proof (induction ss arbitrary: info)
  case (Cons s ss)
  then obtain info1 where "convert_acl_set L info s = Inr info1" "rfoldM (convert_acl_set L) info1 ss = Inr info'"
    by (cases "convert_acl_set L info s") auto
  with Cons.IH[of info1] convert_acl_set_fold[of L info s info1] show ?case by (simp add: file_entries_def)
qed (simp add: file_entries_def)

lemma set_entries_distinct: "e \<in> set (set_entries L s) \<Longrightarrow> distinct (map fst (snd e))"
proof -
  let ?t = "table_name (fst s)"
  have deny: "deny_rule L ?t = Inr e \<Longrightarrow> distinct (map fst (snd e))" by (auto simp: deny_rule_def rbind_eq_Inr split: if_splits)
  assume "e \<in> set (set_entries L s)"
  then consider rule where "convert_rule_to_db_schema L ?t rule = Inr e" | "deny_rule L ?t = Inr e"
    by (auto simp: set_entries_def Let_def split: if_splits sum.splits dest: sym)
  then show ?thesis using deny converted_distinct[of L ?t _ "fst e" "snd e"] by cases auto
qed

lemma file_entries_distinct: "\<forall>e \<in> set (file_entries L ss). distinct (map fst (snd e))"
  using set_entries_distinct by (fastforce simp: file_entries_def)

text \<open>The rules converted from a file are its entries, merged key by key.\<close>

lemma converted_file:
  assumes "convert_rules L ss = Inr L'" and "rules_info L = []"
  shows "map_option map_of (map_of (rules_info L') k) = merged_rule (file_entries L ss) k"
  using assms add_rules_merged[OF file_entries_distinct, of L ss k] converted_file_fold[of L "[]" ss]
  by (auto simp: convert_rules_def rbind_eq_Inr)

text \<open>The conversion of a rule does not look at the rules converted before.\<close>

lemma rules_info_reads:
  fixes L :: acl_loader and info
  defines "L' \<equiv> L\<lparr>rules_info := info\<rparr>"
  shows "is_table_valid L' = is_table_valid L" "is_table_egress L' = is_table_egress L" "is_table_mirror L' = is_table_mirror L"
    "is_table_l3v6 L' = is_table_l3v6 L" "is_table_l3 L' = is_table_l3 L" "is_table_ipv6 L' = is_table_ipv6 L"
    "is_table_control_plane L' = is_table_control_plane L" "capabilities L' = capabilities L" "mirror_action L' = mirror_action L"
    "table_info L' = table_info L" "tables_db_info L' = tables_db_info L" "max_priority L' = max_priority L" "current_table L' = current_table L"
  by (simp_all add: L'_def fun_eq_iff is_table_valid_def is_table_egress_def is_table_mirror_def is_table_l3v6_def is_table_l3_def
      is_table_ipv6_def is_table_control_plane_def table_type_def table_info_def capabilities_def mirror_action_def get_session_name_def
      split: option.split list.split)

lemma file_entries_rules_info: "file_entries (L\<lparr>rules_info := info\<rparr>) = file_entries L"
proof -
  have "convert_rule_to_db_schema (L\<lparr>rules_info := info\<rparr>) t rule = convert_rule_to_db_schema L t rule" for t rule
    unfolding convert_rule_to_db_schema_def default_match_def convert_action_def validate_actions_def convert_ip_def
      convert_protocol_def convert_icmp_def rules_info_reads ..
  then have convert: "convert_rule_to_db_schema (L\<lparr>rules_info := info\<rparr>) = convert_rule_to_db_schema L" by (simp add: fun_eq_iff)
  have sel: "selected (L\<lparr>rules_info := info\<rparr>) = selected L" unfolding fun_eq_iff selected_def rules_info_reads by simp
  have denied: "denied (L\<lparr>rules_info := info\<rparr>) = denied L" unfolding fun_eq_iff denied_def sel rules_info_reads by simp
  have deny: "deny_rule (L\<lparr>rules_info := info\<rparr>) = deny_rule L" unfolding fun_eq_iff deny_rule_def rules_info_reads by simp
  show ?thesis unfolding fun_eq_iff file_entries_def set_entries_def convert sel denied deny by simp
qed

section \<open>TCP flags\<close>

lemma bit_tcp_flags: "bit (foldl (\<lambda>w f. w OR tcp_flag f) w fs) n \<longleftrightarrow> bit w n \<or> (\<exists>f \<in> set fs. bit (tcp_flag f) n)"
  by (induction fs arbitrary: w) (auto simp: bit_or_iff)

lemma hex_digit_value: "n < 16 \<Longrightarrow> digit_value (hex_char n) = n"
  by (auto simp: digit_value_def hex_char_def Let_def)

lemma hex_byte_value: "number_value 16 (hex_byte w) = unat w"
proof -
  have "unat w < 256" using unsigned_less[of w, where ?'a = nat] by simp
  then show ?thesis by (simp add: number_value_def hex_byte_def hex_digit_value)
qed

lemma port_field_key: "port_field k v = Inr a \<Longrightarrow> k \<in> {''L4_SRC_PORT'', ''L4_DST_PORT''} \<Longrightarrow> map_of a ''TCP_FLAGS'' = None"
  by (drule port_field_shape) auto

text \<open>The TCP flags: a field is written exactly when a known flag is among those given, as the two hexadecimal
  digits of the byte, value and mask alike, whose bits are those of the flags, in whatever order and
  number they were given.\<close>

theorem tcp_flags_text:
  assumes "convert_transport rule = Inr props"
  shows "case map_of props ''TCP_FLAGS'' of
      None \<Rightarrow> \<forall>f \<in> set (r_tcp_flags rule). tcp_flag f = 0
    | Some v \<Rightarrow> \<exists>h. v = JStr (''0x'' @ h @ ''/0x'' @ h) \<and> length h = 2 \<and>
        (\<forall>n. bit (of_nat (number_value 16 h) :: 8 word) n \<longleftrightarrow> (\<exists>f \<in> set (r_tcp_flags rule). bit (tcp_flag f) n))"
proof -
  let ?w = "tcp_flags (r_tcp_flags rule)"
  obtain src dst where parts: "port_field ''L4_SRC_PORT'' (r_source_port rule) = Inr src"
      "port_field ''L4_DST_PORT'' (r_destination_port rule) = Inr dst"
    and props: "props = src @ dst @ (if ?w = 0 then [] else [(''TCP_FLAGS'', JStr (''0x'' @ hex_byte ?w @ ''/0x'' @ hex_byte ?w))])"
    using assms unfolding convert_transport_def Let_def rbind_eq_Inr by blast
  have bits: "bit ?w n \<longleftrightarrow> (\<exists>f \<in> set (r_tcp_flags rule). bit (tcp_flag f) n)" for n
    by (simp add: tcp_flags_def bit_tcp_flags)
  show ?thesis
  proof (cases "?w = 0")
    case True
    then have "tcp_flag f = 0" if "f \<in> set (r_tcp_flags rule)" for f
      using that bits by (auto intro!: bit_eqI)
    with True show ?thesis using port_field_key[OF parts(1)] port_field_key[OF parts(2)] by (simp add: props map_add_def)
  next
    case False
    then have t: "map_of props ''TCP_FLAGS'' = Some (JStr (''0x'' @ hex_byte ?w @ ''/0x'' @ hex_byte ?w))"
      using port_field_key[OF parts(1)] port_field_key[OF parts(2)] by (simp add: props map_add_def)
    have l: "length (hex_byte ?w) = 2" by (simp add: hex_byte_def)
    have v: "of_nat (number_value 16 (hex_byte ?w)) = ?w" by (simp add: hex_byte_value)
    show ?thesis
      unfolding t option.case by (rule exI[of _ "hex_byte ?w"], intro conjI refl l allI) (simp only: v bits)
  qed
qed

section \<open>Errors\<close>

text \<open>A rule whose source is not a network (host bits set, say) is not skipped like other bad rules: the
  \<open>ValueError\<close> of \<open>ip_network\<close> ends the conversion of the whole file.\<close>

theorem bad_address_aborts:
  assumes "ip_network (r_source_ip rule) = Inl ValueError" and "r_source_ip rule \<noteq> []"
    and "int_of_json (r_sequence_id rule) = Inr idx" and "default_match L t = Inr match" and "convert_action L t rule = Inr action"
    and "convert_l2 rule = Inr l2" and "convert_protocol L t rule = Inr protocol"
    and "selected L t" and "table_name name = t" and "rfoldM (convert_entry L t) (rules_info L) before = Inr info"
  shows "convert_rules L ((name, before @ rule # after) # sets) = Inl ValueError"
proof -
  have "convert_rule_to_db_schema L t rule = Inl ValueError"
    using assms(1-7) by (simp add: convert_rule_to_db_schema_def convert_ip_def convert_address_def)
  then have "rfoldM (convert_entry L t) (rules_info L) (before @ rule # after) = Inl ValueError"
    using assms(10) by (simp add: rfoldM_append convert_entry_def)
  then show ?thesis
    using assms(8,9) by (auto simp: convert_rules_def convert_acl_set_def Let_def selected_def)
qed

section \<open>A sample file\<close>

definition sample_rule :: acl_rule where
  "sample_rule = \<lparr>r_sequence_id = JInt 1, r_forwarding_action = ''ACCEPT'', r_ethertype = JStr [], r_vlan_id = JInt 369,
     r_protocol = JStr ''IP_TCP'', r_source_ip = ''20.0.0.2/32'', r_destination_ip = [], r_dscp = JStr [],
     r_icmp_type = JStr [], r_icmp_code = JStr [], r_source_port = JStr ''80..90'', r_destination_port = JInt 443,
     r_tcp_flags = [''TCP_SYN'', ''TCP_CWR''], r_interface = JStr []\<rparr>"

definition sample_capability :: state_db where
  "sample_capability key = (if key = ''SWITCH_CAPABILITY|switch'' then Some [(''ACL_ACTION|PACKET_ACTION'', ''DROP,FORWARD'')]
     else Some [(''action_list'', ''PACKET_ACTION,MIRROR_INGRESS_ACTION'')])"

definition sample_loader :: acl_loader where
  "sample_loader = \<lparr>requested_session = None, mirror_stage = Some ''INGRESS'', current_table = None,
     tables_db_info = [(''DATAACL'', [(''type'', JStr ''L3''), (''stage'', JStr ''ingress'')]), (''SSH_ONLY'', [(''type'', JStr ''CTRLPLANE'')])],
     rules_db_info = [((''DATAACL'', ''RULE_2''), [(''PRIORITY'', JStr ''9998''), (''PACKET_ACTION'', JStr ''DROP'')]),
       ((''SSH_ONLY'', ''RULE_9''), [(''PRIORITY'', JStr ''9991'')])],
     rules_info = [], sessions_db_info = [], policers_db_info = [], max_priority = 10000,
     statedb = sample_capability, per_npu_statedb = []\<rparr>"

lemmas acl_eval = sample_rule_def sample_loader_def sample_capability_def convert_rule_to_db_schema_def default_match_def
  is_table_l3v6_def is_table_l3_def is_table_ipv6_def is_table_mirror_def is_table_control_plane_def is_table_egress_def
  table_type_def table_info_def table_stage_def json_upper_def to_upper_def convert_action_def validate_actions_def
  action_supported_def capabilities_def convert_l2_def convert_ethertype_def given_def number_def convert_ip_def
  convert_protocol_def map_lookup_def text_of_def ip_protocol_map_def ethertype_map_def convert_address_def convert_icmp_def
  byte_field_def convert_transport_def port_field_def leaf_str_def convert_port_def convert_input_interface_def
  int_of_json_def dict_merge_def validate_rule_fields_def

lemma sample_numbers:
  "int_str 2048 = ''2048''" "int_str 9999 = ''9999''" "int_str 443 = ''443''" "int_str 1 = ''1''"
  "tcp_flags [''TCP_SYN'', ''TCP_CWR''] = 0x82" "hex_byte 0x82 = ''82''" "ip_network ''20.0.0.2/32'' = Inr 4"
  by (simp_all add: int_str_def nat_str.simps char_of_def bit_0 tcp_flags_def tcp_flag_def hex_byte_def hex_char_def ip_eval
      mask_eq_exp_minus_1)

lemma sample_transport: "convert_transport sample_rule =
    Inr [(''L4_SRC_PORT_RANGE'', JStr ''80-90''), (''L4_DST_PORT'', JStr ''443''), (''TCP_FLAGS'', JStr ''0x82/0x82'')]"
  by (simp add: convert_transport_def sample_rule_def sample_numbers port_field_def leaf_str_def convert_port_def)

lemma sample_rule_fields:
  "convert_action sample_loader ''DATAACL'' sample_rule = Inr [(''PACKET_ACTION'', JStr ''FORWARD'')]"
  "convert_l2 sample_rule = Inr [(''VLAN_ID'', JInt 369)]"
  "default_match sample_loader ''DATAACL'' = Inr [(''ETHER_TYPE'', JStr ''2048'')]"
  "convert_icmp sample_loader ''DATAACL'' sample_rule = Inr []"
  "convert_ip sample_loader ''DATAACL'' sample_rule = Inr [(''IP_PROTOCOL'', JInt 6), (''SRC_IP'', JStr ''20.0.0.2/32'')]"
  "max_priority sample_loader = 10000" "int_of_json (r_sequence_id sample_rule) = Inr 1" "convert_input_interface sample_rule = []"
  by (simp_all add: acl_eval sample_numbers)

lemmas sample_parts = sample_rule_fields sample_transport sample_numbers

definition sample_props :: dict where
  "sample_props = [(''PRIORITY'', JStr ''9999''), (''ETHER_TYPE'', JStr ''2048''), (''PACKET_ACTION'', JStr ''FORWARD''),
     (''VLAN_ID'', JInt 369), (''IP_PROTOCOL'', JInt 6), (''SRC_IP'', JStr ''20.0.0.2/32''), (''L4_SRC_PORT_RANGE'', JStr ''80-90''),
     (''L4_DST_PORT'', JStr ''443''), (''TCP_FLAGS'', JStr ''0x82/0x82'')]"

lemma sample_converted:
  "convert_rule_to_db_schema sample_loader ''DATAACL'' sample_rule = Inr ((''DATAACL'', ''RULE_1''), sample_props)"
  by (simp add: convert_rule_to_db_schema_def sample_parts dict_merge_def validate_rule_fields_def sample_props_def)

theorem converted_rule_ok_witness:
  "\<exists>key props. convert_rule_to_db_schema sample_loader ''DATAACL'' sample_rule = Inr (key, props) \<and> rule_fields_ok props \<and>
     map_of props ''VLAN_ID'' = Some (JInt 369)"
proof -
  have "rule_fields_ok sample_props" using converted_rule_ok[OF sample_converted] by blast
  moreover have "map_of sample_props ''VLAN_ID'' = Some (JInt 369)" by (simp add: sample_props_def)
  ultimately show ?thesis using sample_converted by blast
qed

theorem tcp_flags_text_witness:
  "\<exists>props. convert_transport sample_rule = Inr props \<and> map_of props ''TCP_FLAGS'' = Some (JStr ''0x82/0x82'') \<and>
     (\<exists>h. JStr ''0x82/0x82'' = JStr (''0x'' @ h @ ''/0x'' @ h))"
  using tcp_flags_text[OF sample_transport] sample_transport by auto

lemma sample_sets:
  "\<exists>L'. convert_rules sample_loader [(''data-acl'', [sample_rule]), (''DataAcl'', [sample_rule, sample_rule\<lparr>r_forwarding_action := ''LOG''\<rparr>])] = Inr L'"
proof -
  have bad: "convert_rule_to_db_schema sample_loader ''DATAACL'' (sample_rule\<lparr>r_forwarding_action := ''LOG''\<rparr>) = Inl AclLoaderException"
    by (simp add: convert_rule_to_db_schema_def convert_action_def sample_parts)
  have names: "table_name ''DataAcl'' = ''DATAACL''" "table_name ''data-acl'' = ''DATA_ACL''"
    by (simp_all add: table_name_def to_upper_def char_of_def bit_0)
  have valid: "is_table_valid sample_loader ''DATAACL''" "\<not> is_table_valid sample_loader ''DATA_ACL''"
    "current_table sample_loader = None"
    by (simp_all add: is_table_valid_def sample_loader_def)
  have kinds: "is_table_mirror sample_loader ''DATAACL'' = Inr False" "is_table_egress sample_loader ''DATAACL'' = Inr False"
    "is_table_ipv6 sample_loader ''DATAACL'' = Inr False"
    by (simp_all add: acl_eval)
  show ?thesis
    by (simp add: convert_rules_def convert_acl_set_def names valid kinds convert_entry_def sample_converted bad deny_rule_def Let_def)
qed

theorem converted_rules_witness:
  "\<exists>L'. convert_rules sample_loader [(''data-acl'', [sample_rule]), (''DataAcl'', [sample_rule, sample_rule\<lparr>r_forwarding_action := ''LOG''\<rparr>])] = Inr L' \<and>
     rules_ok sample_loader (rules_info L')"
proof -
  have "rules_ok sample_loader (rules_info sample_loader)" by (simp add: rules_ok_def sample_loader_def)
  with sample_sets converted_rules[OF _ this] show ?thesis by blast
qed

theorem bad_address_aborts_witness:
  "convert_rules sample_loader [(''DataAcl'', [sample_rule\<lparr>r_source_ip := ''10.0.0.1/24''\<rparr>])] = Inl ValueError"
proof -
  let ?r = "sample_rule\<lparr>r_source_ip := ''10.0.0.1/24''\<rparr>"
  have "ip_network (r_source_ip ?r) = Inl ValueError" by (simp add: ip_eval mask_eq_exp_minus_1)
  moreover have "convert_action sample_loader ''DATAACL'' ?r = Inr [(''PACKET_ACTION'', JStr ''FORWARD'')]" by (simp add: acl_eval)
  moreover have "convert_l2 ?r = Inr [(''VLAN_ID'', JInt 369)]" by (simp add: acl_eval)
  moreover have "convert_protocol sample_loader ''DATAACL'' ?r = Inr [(''IP_PROTOCOL'', JInt 6)]" by (simp add: acl_eval)
  moreover have "selected sample_loader ''DATAACL''" by (simp add: selected_def is_table_valid_def sample_loader_def)
  moreover have "table_name ''DataAcl'' = ''DATAACL''" by (simp add: table_name_def to_upper_def char_of_def bit_0)
  ultimately show ?thesis
    using bad_address_aborts[of ?r 1 sample_loader "''DATAACL''" _ _ _ _ "''DataAcl''" "[]" _ "[]" "[]"] sample_rule_fields(3)
    by (simp add: sample_rule_def int_of_json_def)
qed

end
