(* ===== verification/AclLoader.thy ===== *)
theory AclLoader
  imports AclRules
begin

text \<open>
  Loading ACL rules into the databases (\<open>AclLoader\<close> of \<open>acl_loader/main.py\<close>): reading tables, rules and
  sessions, the full and the incremental update, deletion, and the commands built on them. The rules
  are written to the global configuration database and to that of every front ASIC. The
  connector is third-party code: it is the parameter \<open>acl_db\<close>, and \<open>acl_db_ok\<close> is what its documentation says
  of reading after writing. \<open>pyangbind\<close> reads the file; what it returns is \<open>acl_file\<close>.
\<close>

section \<open>The databases\<close>

record 'd acl_db =
  ad_get_table :: "'d \<Rightarrow> string \<Rightarrow> (string \<times> dict) list"
  ad_rules :: "'d \<Rightarrow> (rule_key \<times> dict) list"
  ad_mod_rule :: "'d \<Rightarrow> rule_key \<Rightarrow> dict option \<Rightarrow> 'd"
  ad_set_rule :: "'d \<Rightarrow> rule_key \<Rightarrow> dict option \<Rightarrow> 'd"
  ad_mod_config :: "'d \<Rightarrow> (rule_key \<times> dict) list \<Rightarrow> 'd"

record 'd acl_site =
  configdb :: 'd
  per_npu_configdb :: "(string \<times> 'd) list"

definition every_db :: "('d \<Rightarrow> 'd) \<Rightarrow> 'd acl_site \<Rightarrow> 'd acl_site" where
  "every_db f w = \<lparr>configdb = f (configdb w), per_npu_configdb = map (apsnd f) (per_npu_configdb w)\<rparr>"

definition site_dbs :: "'d acl_site \<Rightarrow> 'd list" where
  "site_dbs w = configdb w # map snd (per_npu_configdb w)"

section \<open>Reading\<close>

definition namespace_db :: "'d acl_site \<Rightarrow> 'd" where
  "namespace_db w = (case per_npu_configdb w of [] \<Rightarrow> configdb w | (_, d) # _ \<Rightarrow> d)"

definition session_state :: "(string \<times> string) list option \<Rightarrow> string \<times> string" where
  "session_state info = (case info of
     None \<Rightarrow> (''error'', [])
   | Some [] \<Rightarrow> (''error'', [])
   | Some fs \<Rightarrow>
       (case map_of fs ''status'' of None \<Rightarrow> ''inactive'' | Some s \<Rightarrow> s, case map_of fs ''monitor_port'' of None \<Rightarrow> [] | Some p \<Rightarrow> p))"

definition session_row :: "state_db \<Rightarrow> (string \<times> state_db) list \<Rightarrow> string \<times> dict \<Rightarrow> string \<times> dict" where
  "session_row db npu_dbs row = (case row of (key, info) \<Rightarrow>
     let state = (\<lambda>d. session_state (d (''MIRROR_SESSION_TABLE|'' @ key)));
         value = (\<lambda>part. if npu_dbs = [] then JStr (part (state db))
                         else JObj (map (\<lambda>(ns, d). (ns, JStr (part (state d)))) npu_dbs)) in
     (key, AList.update ''monitor_port'' (value snd) (AList.update ''status'' (value fst) info)))"

definition read_sessions_info :: "'d acl_db \<Rightarrow> 'd acl_site \<Rightarrow> state_db \<Rightarrow> (string \<times> state_db) list \<Rightarrow> (string \<times> dict) list" where
  "read_sessions_info lib w db npu_dbs =
     map (session_row db npu_dbs) (ad_get_table lib (namespace_db w) ''MIRROR_SESSION'')"

definition read_policers_info :: "'d acl_db \<Rightarrow> 'd acl_site \<Rightarrow> (string \<times> dict) list" where
  "read_policers_info lib w = ad_get_table lib (namespace_db w) ''POLICER''"

definition read_tables_info :: "'d acl_db \<Rightarrow> 'd acl_site \<Rightarrow> (string \<times> dict) list" where
  "read_tables_info lib w = ad_get_table lib (configdb w) ''ACL_TABLE''"

definition read_rules_info :: "'d acl_db \<Rightarrow> 'd acl_site \<Rightarrow> (rule_key \<times> dict) list" where
  "read_rules_info lib w = ad_rules lib (configdb w)"

definition new_loader :: "'d acl_db \<Rightarrow> 'd acl_site \<Rightarrow> state_db \<Rightarrow> (string \<times> state_db) list \<Rightarrow> acl_loader" where
  "new_loader lib w db npu_dbs =
     \<lparr>requested_session = None, mirror_stage = None, current_table = None, tables_db_info = read_tables_info lib w,
      rules_db_info = read_rules_info lib w, rules_info = [], sessions_db_info = read_sessions_info lib w db npu_dbs,
      policers_db_info = read_policers_info lib w, max_priority = 10000, statedb = db, per_npu_statedb = npu_dbs\<rparr>"

text \<open>
  \<open>pyangbind\<close> returns an object without rule sets for a file it cannot read: the sets it found are counted
  against those of the plain document.
\<close>

record acl_file =
  f_acl_sets :: "(string \<times> acl_rule list) list"
  f_plain_sets :: nat

definition parse_acl_json :: "acl_file \<Rightarrow> err + (string \<times> acl_rule list) list" where
  "parse_acl_json f = (if f_plain_sets f \<noteq> length (f_acl_sets f) then Inl AclLoaderException else Inr (f_acl_sets f))"

definition load_rules_from_file :: "acl_loader \<Rightarrow> acl_file \<Rightarrow> err + acl_loader" where
  "load_rules_from_file L f = rbind (parse_acl_json f) (convert_rules L)"

section \<open>Updates\<close>

definition full_update :: "'d acl_db \<Rightarrow> acl_loader \<Rightarrow> 'd acl_site \<Rightarrow> 'd acl_site" where
  "full_update lib L w =
     every_db (\<lambda>d. ad_mod_config lib d (rules_info L))
       (foldl (\<lambda>w k. if current_table L = None \<or> current_table L = Some (fst k)
                     then every_db (\<lambda>d. ad_mod_rule lib d k None) w else w) w (map fst (rules_db_info L)))"

text \<open>The rules of control-plane tables, and the others.\<close>

definition split_rules :: "acl_loader \<Rightarrow> rule_key list \<Rightarrow> err + rule_key list \<times> rule_key list" where
  "split_rules L ks =
     rbind (rfilterM (\<lambda>k. is_table_control_plane L (fst k)) ks) (\<lambda>cp. Inr (cp, filter (\<lambda>k. k \<notin> set cp) ks))"

definition props_of :: "(rule_key \<times> dict) list \<Rightarrow> rule_key \<Rightarrow> dict" where
  "props_of info k = (case map_of info k of None \<Rightarrow> [] | Some d \<Rightarrow> d)"

text \<open>The sets of keys are visited in some order; here, in that of the tables.\<close>

definition each_rule :: "(rule_key \<Rightarrow> 'd \<Rightarrow> 'd) \<Rightarrow> rule_key list \<Rightarrow> 'd acl_site \<Rightarrow> 'd acl_site" where
  "each_rule f ks w = foldl (\<lambda>w k. every_db (f k) w) w ks"

definition incremental_update :: "'d acl_db \<Rightarrow> acl_loader \<Rightarrow> 'd acl_site \<Rightarrow> err + 'd acl_site" where
  "incremental_update lib L w =
     (let new_rules = map fst (rules_info L); current_rules = map fst (rules_db_info L);
          remove = (\<lambda>k d. ad_mod_rule lib d k None);
          add = (\<lambda>k d. ad_mod_rule lib d k (Some (props_of (rules_info L) k))) in
      rbind (split_rules L new_rules) (\<lambda>(new_controlplane, new_dataplane).
      rbind (split_rules L current_rules) (\<lambda>(current_controlplane, current_dataplane).
        let w = each_rule remove current_dataplane w;
            w = each_rule add new_dataplane w;
            w = each_rule add (filter (\<lambda>k. k \<notin> set current_controlplane) new_controlplane) w;
            w = each_rule remove (filter (\<lambda>k. k \<notin> set new_controlplane) current_controlplane) w in
        Inr (each_rule (\<lambda>k d. ad_set_rule lib d k (Some (props_of (rules_info L) k)))
          (filter (\<lambda>k. k \<in> set current_controlplane \<and>
              \<not> json_eq (JObj (props_of (rules_info L) k)) (JObj (props_of (rules_db_info L) k))) new_rules) w))))"

definition not_given :: "string option \<Rightarrow> bool" where
  "not_given x \<longleftrightarrow> x = None \<or> x = Some []"

definition delete :: "'d acl_db \<Rightarrow> acl_loader \<Rightarrow> string option \<Rightarrow> string option \<Rightarrow> 'd acl_site \<Rightarrow> 'd acl_site" where
  "delete lib L table rule w =
     each_rule (\<lambda>k d. ad_set_rule lib d k None)
       (filter (\<lambda>k. (not_given table \<or> table = Some (fst k)) \<and> (not_given rule \<or> rule = Some (snd k))) (map fst (rules_db_info L))) w"

section \<open>Commands\<close>

definition prepare :: "string option \<Rightarrow> string \<Rightarrow> int option \<Rightarrow> acl_loader \<Rightarrow> err + acl_loader" where
  "prepare session_name stage priority L =
     rbind (if not_given session_name then Inr L else set_session_name (the session_name) L) (\<lambda>L.
     let L = set_mirror_stage stage L in
     Inr (case priority of None \<Rightarrow> L | Some p \<Rightarrow> if p = 0 then L else set_max_priority p L))"

definition full ::
    "'d acl_db \<Rightarrow> acl_loader \<Rightarrow> acl_file \<Rightarrow> string option \<Rightarrow> string option \<Rightarrow> string \<Rightarrow> int option \<Rightarrow> 'd acl_site
       \<Rightarrow> err + 'd acl_site" where
  "full lib L f table session_name stage priority w =
     (let L = (if not_given table then L else set_table_name (the table) L) in
      rbind (prepare session_name stage priority L) (\<lambda>L.
      rbind (load_rules_from_file L f) (\<lambda>L. Inr (full_update lib L w))))"

definition incremental ::
    "'d acl_db \<Rightarrow> acl_loader \<Rightarrow> acl_file \<Rightarrow> string option \<Rightarrow> string \<Rightarrow> int option \<Rightarrow> 'd acl_site \<Rightarrow> err + 'd acl_site" where
  "incremental lib L f session_name stage priority w =
     rbind (prepare session_name stage priority L) (\<lambda>L.
     rbind (load_rules_from_file L f) (\<lambda>L. incremental_update lib L w))"

section \<open>What an update leaves in the databases\<close>

text \<open>
  \<open>view d k\<close>: what the database holds for a rule, a map from fields to texts; \<open>norm e\<close>: the fields \<open>e\<close> in the form they
  are stored in. Writing an entry with \<open>set_entry\<close> replaces it, with \<open>mod_entry\<close> merges it into the old one;
  writing back what was read changes nothing.
\<close>

definition acl_db_ok ::
    "'d acl_db \<Rightarrow> ('d \<Rightarrow> rule_key \<Rightarrow> (string \<Rightarrow> 's option) option) \<Rightarrow> (dict \<Rightarrow> string \<Rightarrow> 's option) \<Rightarrow> bool" where
  "acl_db_ok lib view norm \<longleftrightarrow>
     (\<forall>d k. view (ad_mod_rule lib d k None) = (view d)(k := None) \<and> view (ad_set_rule lib d k None) = (view d)(k := None)) \<and>
     (\<forall>d k e. e \<noteq> [] \<longrightarrow> view (ad_set_rule lib d k (Some e)) = (view d)(k \<mapsto> norm e)) \<and>
     (\<forall>d k e. e \<noteq> [] \<longrightarrow> view (ad_mod_rule lib d k (Some e)) =
        (view d)(k \<mapsto> (case view d k of None \<Rightarrow> norm e | Some old \<Rightarrow> old ++ norm e))) \<and>
     (\<forall>d rs. view (ad_mod_config lib d rs) = view (foldl (\<lambda>d (k, e). ad_mod_rule lib d k (Some e)) d rs)) \<and>
     (\<forall>d k. k \<in> set (map fst (ad_rules lib d)) \<longleftrightarrow> view d k \<noteq> None) \<and>
     (\<forall>d k r e. map_of (ad_rules lib d) k = Some r \<and> distinct (map fst e) \<and> json_eq (JObj e) (JObj r) \<longrightarrow>
        view d k = Some (norm e))"

lemma acl_db_okD:
  assumes "acl_db_ok lib view norm"
  shows "view (ad_mod_rule lib d k None) = (view d)(k := None)" "view (ad_set_rule lib d k None) = (view d)(k := None)"
    "e \<noteq> [] \<Longrightarrow> view (ad_set_rule lib d k (Some e)) = (view d)(k \<mapsto> norm e)"
    "e \<noteq> [] \<Longrightarrow> view d k = None \<Longrightarrow> view (ad_mod_rule lib d k (Some e)) = (view d)(k \<mapsto> norm e)"
    "view (ad_mod_config lib d rs) = view (foldl (\<lambda>d (k, e). ad_mod_rule lib d k (Some e)) d rs)"
    "k \<in> set (map fst (ad_rules lib d)) \<longleftrightarrow> view d k \<noteq> None"
    "map_of (ad_rules lib d) k = Some r \<Longrightarrow> distinct (map fst e) \<Longrightarrow> json_eq (JObj e) (JObj r) \<Longrightarrow> view d k = Some (norm e)"
proof -
  note ok = assms[unfolded acl_db_ok_def]
  note laws = ok[THEN conjunct1] ok[THEN conjunct2, THEN conjunct1] ok[THEN conjunct2, THEN conjunct2, THEN conjunct1]
    ok[THEN conjunct2, THEN conjunct2, THEN conjunct2, THEN conjunct1]
    ok[THEN conjunct2, THEN conjunct2, THEN conjunct2, THEN conjunct2, THEN conjunct1]
    ok[THEN conjunct2, THEN conjunct2, THEN conjunct2, THEN conjunct2, THEN conjunct2]
  show "view (ad_mod_rule lib d k None) = (view d)(k := None)" "view (ad_set_rule lib d k None) = (view d)(k := None)"
    using laws(1) by blast+
  show "e \<noteq> [] \<Longrightarrow> view (ad_set_rule lib d k (Some e)) = (view d)(k \<mapsto> norm e)" using laws(2) by blast
  show "e \<noteq> [] \<Longrightarrow> view d k = None \<Longrightarrow> view (ad_mod_rule lib d k (Some e)) = (view d)(k \<mapsto> norm e)"
    using laws(3)[rule_format, of e d k] by simp
  show "view (ad_mod_config lib d rs) = view (foldl (\<lambda>d (k, e). ad_mod_rule lib d k (Some e)) d rs)" using laws(4) by blast
  show "k \<in> set (map fst (ad_rules lib d)) \<longleftrightarrow> view d k \<noteq> None" using laws(5) by blast
  show "map_of (ad_rules lib d) k = Some r \<Longrightarrow> distinct (map fst e) \<Longrightarrow> json_eq (JObj e) (JObj r) \<Longrightarrow> view d k = Some (norm e)" using laws(6) by blast
qed

lemma site_dbs_every: "site_dbs (every_db f w) = map f (site_dbs w)"
  by (simp add: site_dbs_def every_db_def)

lemma site_dbs_each: "site_dbs (each_rule f ks w) = map (\<lambda>d. foldl (\<lambda>d k. f k d) d ks) (site_dbs w)"
  by (induction ks arbitrary: w) (simp_all add: each_rule_def site_dbs_every)

lemma foldl_filter: "foldl (\<lambda>w k. if P k then g k w else w) w ks = foldl (\<lambda>w k. g k w) w (filter P ks)"
  by (induction ks arbitrary: w) simp_all

lemma full_update_each:
  "full_update lib L w = every_db (\<lambda>d. ad_mod_config lib d (rules_info L))
     (each_rule (\<lambda>k d. ad_mod_rule lib d k None)
        (filter (\<lambda>k. current_table L = None \<or> current_table L = Some (fst k)) (map fst (rules_db_info L))) w)"
  by (simp add: full_update_def each_rule_def foldl_filter)

lemma removed_view:
  assumes "\<And>d k. view (f k d) = (view d)(k := None)"
  shows "view (foldl (\<lambda>d k. f k d) d ks) = (\<lambda>k. if k \<in> set ks then None else view d k)"
  by (induction ks arbitrary: d) (auto simp: assms fun_eq_iff)

lemma added_view:
  assumes "\<And>d k. k \<in> set ks \<Longrightarrow> view d k = None \<Longrightarrow> view (f k d) = (view d)(k \<mapsto> g k)"
    and "distinct ks" and "\<forall>k \<in> set ks. view d k = None"
  shows "view (foldl (\<lambda>d k. f k d) d ks) = (\<lambda>k. if k \<in> set ks then Some (g k) else view d k)"
  using assms
proof (induction ks arbitrary: d)
  case (Cons k ks)
  have 1: "view (f k d) = (view d)(k \<mapsto> g k)" using Cons.prems(3) by (intro Cons.prems(1)) simp_all
  have "view (foldl (\<lambda>d k. f k d) (f k d) ks) = (\<lambda>j. if j \<in> set ks then Some (g j) else view (f k d) j)"
    using Cons.prems 1 by (intro Cons.IH) auto
  with Cons.prems(2) show ?case by (auto simp: 1 fun_eq_iff)
qed simp

lemma set_view:
  assumes "\<And>d k. k \<in> set ks \<Longrightarrow> view (f k d) = (view d)(k \<mapsto> g k)"
  shows "view (foldl (\<lambda>d k. f k d) d ks) = (\<lambda>k. if k \<in> set ks then Some (g k) else view d k)"
  using assms
proof (induction ks arbitrary: d)
  case (Cons k ks)
  have "view (foldl (\<lambda>d k. f k d) (f k d) ks) = (\<lambda>j. if j \<in> set ks then Some (g j) else view (f k d) j)"
    using Cons.prems by (intro Cons.IH) auto
  with Cons.prems show ?case by (auto simp: fun_eq_iff)
qed simp

text \<open>The loader has just read its rules, and the databases of the ASICs hold the same.\<close>

definition in_sync :: "'d acl_db \<Rightarrow> ('d \<Rightarrow> rule_key \<Rightarrow> (string \<Rightarrow> 's option) option) \<Rightarrow> acl_loader \<Rightarrow> 'd acl_site \<Rightarrow> bool" where
  "in_sync lib view L w \<longleftrightarrow> rules_db_info L = ad_rules lib (configdb w) \<and> distinct (map fst (rules_db_info L)) \<and>
     (\<forall>d \<in> set (site_dbs w). view d = view (configdb w))"

definition rules_wf :: "(rule_key \<times> dict) list \<Rightarrow> bool" where
  "rules_wf info \<longleftrightarrow> distinct (map fst info) \<and> (\<forall>r \<in> set info. snd r \<noteq> [] \<and> distinct (map fst (snd r)))"

lemma props_of_wf: "rules_wf info \<Longrightarrow> k \<in> set (map fst info) \<Longrightarrow> props_of info k \<noteq> []"
  by (auto simp: rules_wf_def props_of_def split: option.splits dest: map_of_SomeD)

lemma props_of_distinct: "rules_wf info \<Longrightarrow> distinct (map fst (props_of info k))"
  by (auto simp: rules_wf_def props_of_def split: option.splits dest: map_of_SomeD)

lemma mod_config_view:
  assumes ok: "acl_db_ok lib view norm" and wf: "rules_wf info" and "\<forall>k \<in> set (map fst info). view d k = None"
  shows "view (ad_mod_config lib d info) = (\<lambda>k. if k \<in> set (map fst info) then Some (norm (props_of info k)) else view d k)"
proof -
  have props: "e = props_of info k" if "(k, e) \<in> set info" for k e
    using that wf by (simp add: props_of_def rules_wf_def)
  have "foldl (\<lambda>d (k, e). ad_mod_rule lib d k (Some e)) d rs =
      foldl (\<lambda>d k. ad_mod_rule lib d k (Some (props_of info k))) d (map fst rs)" if "set rs \<subseteq> set info" for rs d
    using that by (induction rs arbitrary: d) (auto dest: props)
  then show ?thesis
    unfolding acl_db_okD(5)[OF ok]
    by (simp only: subset_refl)
      (rule added_view, use acl_db_okD(4)[OF ok props_of_wf[OF wf]] wf assms(3) in \<open>auto simp: rules_wf_def\<close>)
qed

text \<open>After a full update every database holds, for the tables updated, exactly the converted rules, each with
  exactly its fields, and for the other tables what it held before.\<close>

theorem full_update_view:
  assumes "acl_db_ok lib view norm" and "in_sync lib view L w" and "rules_wf (rules_info L)"
    and "\<forall>k \<in> set (map fst (rules_info L)). current_table L = None \<or> current_table L = Some (fst k)"
    and "d \<in> set (site_dbs (full_update lib L w))"
  shows "view d k = (if current_table L = None \<or> current_table L = Some (fst k)
      then map_option norm (map_of (rules_info L) k) else view (configdb w) k)"
proof -
  let ?sel = "\<lambda>k :: rule_key. current_table L = None \<or> current_table L = Some (fst k)"
  let ?gone = "filter ?sel (map fst (rules_db_info L))"
  obtain d0 where d0: "d0 \<in> set (site_dbs w)"
    and d: "d = ad_mod_config lib (foldl (\<lambda>d k. ad_mod_rule lib d k None) d0 ?gone) (rules_info L)"
    using assms(5) by (auto simp: full_update_each site_dbs_every site_dbs_each)
  have v0: "view d0 = view (configdb w)" and db: "rules_db_info L = ad_rules lib (configdb w)"
    using assms(2) d0 by (auto simp: in_sync_def)
  let ?d1 = "foldl (\<lambda>d k. ad_mod_rule lib d k None) d0 ?gone"
  have v1: "view ?d1 = (\<lambda>k. if k \<in> set ?gone then None else view (configdb w) k)"
    unfolding v0[symmetric] by (rule removed_view) (rule acl_db_okD(1)[OF assms(1)])
  have v1': "view ?d1 k = (if ?sel k then None else view (configdb w) k)" for k
  proof -
    have "view (configdb w) k = None" if "k \<notin> set (map fst (rules_db_info L))"
      using that acl_db_okD(6)[OF assms(1), of k "configdb w"] unfolding db by blast
    then show ?thesis unfolding fun_cong[OF v1, of k] by auto
  qed
  have "view d = (\<lambda>k. if k \<in> set (map fst (rules_info L)) then Some (norm (props_of (rules_info L) k)) else view ?d1 k)"
    unfolding d
  proof (intro mod_config_view[OF assms(1,3)] ballI)
    fix k assume "k \<in> set (map fst (rules_info L))"
    with assms(4) have "?sel k" by blast
    then show "view ?d1 k = None" unfolding v1' by (rule if_P)
  qed
  then have "view d k = (if k \<in> set (map fst (rules_info L)) then Some (norm (props_of (rules_info L) k)) else view ?d1 k)" by simp
  also have "\<dots> = (if ?sel k then map_option norm (map_of (rules_info L) k) else view (configdb w) k)"
    using assms(4) unfolding v1' by (auto simp: props_of_def map_of_eq_None_iff split: option.splits)
  finally show ?thesis .
qed

definition controlplane :: "acl_loader \<Rightarrow> rule_key \<Rightarrow> bool" where
  "controlplane L k \<longleftrightarrow> is_table_control_plane L (fst k) = Inr True"

lemma split_rules_Inr:
  "split_rules L ks = Inr (cp, dp) \<Longrightarrow> cp = filter (controlplane L) ks \<and> dp = filter (\<lambda>k. \<not> controlplane L k) ks"
  by (auto simp: split_rules_def rbind_eq_Inr rfilterM_Inr_iff controlplane_def intro!: filter_cong)

lemma incremental_view:
  assumes ok: "acl_db_ok lib view norm" and sync: "in_sync lib view L w" and wf: "rules_wf (rules_info L)"
    and run: "incremental_update lib L w = Inr w'" and d: "d \<in> set (site_dbs w')"
  shows "view d k = map_option norm (map_of (rules_info L) k)"
proof -
  let ?new = "map fst (rules_info L)" and ?cur = "map fst (rules_db_info L)" and ?cp = "controlplane L"
  let ?rem = "\<lambda>k d. ad_mod_rule lib d k None" and ?add = "\<lambda>k d. ad_mod_rule lib d k (Some (props_of (rules_info L) k))"
  let ?put = "\<lambda>k d. ad_set_rule lib d k (Some (props_of (rules_info L) k))"
  let ?differ = "\<lambda>k. \<not> json_eq (JObj (props_of (rules_info L) k)) (JObj (props_of (rules_db_info L) k))"
  let ?go = "\<lambda>f ks d. foldl (\<lambda>d k. f k d) d ks"
  define a where "a = filter (\<lambda>k. \<not> ?cp k) ?cur"
  define b where "b = filter (\<lambda>k. \<not> ?cp k) ?new"
  define c where "c = filter (\<lambda>k. k \<notin> set (filter ?cp ?cur)) (filter ?cp ?new)"
  define e where "e = filter (\<lambda>k. k \<notin> set (filter ?cp ?new)) (filter ?cp ?cur)"
  define f where "f = filter (\<lambda>k. k \<in> set (filter ?cp ?cur) \<and> ?differ k) ?new"
  have w': "w' = each_rule ?put f (each_rule ?rem e (each_rule ?add c (each_rule ?add b (each_rule ?rem a w))))"
    using run unfolding a_def b_def c_def e_def f_def
    by (auto simp: incremental_update_def Let_def rbind_eq_Inr dest!: split_rules_Inr)
  obtain d0 where "d0 \<in> set (site_dbs w)" and d': "d = ?go ?put f (?go ?rem e (?go ?add c (?go ?add b (?go ?rem a d0))))"
    using d unfolding w' site_dbs_each by auto
  then have v0: "view d0 = view (configdb w)" and db: "rules_db_info L = ad_rules lib (configdb w)"
      and distinct: "distinct ?cur" using sync by (auto simp: in_sync_def)
  have there: "view d0 k \<noteq> None \<longleftrightarrow> k \<in> set ?cur" for k
    using acl_db_okD(6)[OF ok, of k "configdb w"] unfolding v0 db by blast
  have gone: "view d0 k = None" if "k \<notin> set ?cur" for k using there that by blast
  have new: "distinct ?new" using wf by (simp add: rules_wf_def)
  have props: "props_of (rules_info L) k \<noteq> []" if "k \<in> set ?new" for k by (rule props_of_wf[OF wf that])
  let ?g = "\<lambda>k. norm (props_of (rules_info L) k)"
  define d1 where "d1 = ?go ?rem a d0"
  define d2 where "d2 = ?go ?add b d1"
  define d3 where "d3 = ?go ?add c d2"
  define d4 where "d4 = ?go ?rem e d3"
  have v1: "view d1 = (\<lambda>k. if k \<in> set a then None else view d0 k)"
    unfolding d1_def by (rule removed_view) (rule acl_db_okD(1)[OF ok])
  have v2: "view d2 = (\<lambda>k. if k \<in> set b then Some (?g k) else view d1 k)"
    unfolding d2_def
  proof (rule added_view)
    show "\<forall>k \<in> set b. view d1 k = None" by (auto simp: v1 a_def b_def intro!: gone)
  qed (use new props in \<open>auto simp: b_def intro!: acl_db_okD(4)[OF ok]\<close>)
  have v3: "view d3 = (\<lambda>k. if k \<in> set c then Some (?g k) else view d2 k)"
    unfolding d3_def
  proof (rule added_view)
    show "\<forall>k \<in> set c. view d2 k = None" by (auto simp: v1 v2 b_def c_def intro!: gone)
  qed (use new props in \<open>auto simp: c_def intro!: acl_db_okD(4)[OF ok]\<close>)
  have v4: "view d4 = (\<lambda>k. if k \<in> set e then None else view d3 k)"
    unfolding d4_def by (rule removed_view) (rule acl_db_okD(1)[OF ok])
  have v5: "view d = (\<lambda>k. if k \<in> set f then Some (?g k) else view d4 k)"
    unfolding d'[folded d1_def, folded d2_def, folded d3_def, folded d4_def]
    by (rule set_view) (use props in \<open>auto simp: f_def intro!: acl_db_okD(3)[OF ok]\<close>)
  have same: "view d0 k = Some (?g k)" if cur: "k \<in> set ?cur" and eq: "\<not> ?differ k"
  proof -
    obtain r where r: "map_of (ad_rules lib (configdb w)) k = Some r"
      using cur unfolding db by (cases "map_of (ad_rules lib (configdb w)) k") (simp_all add: map_of_eq_None_iff)
    then have "props_of (rules_db_info L) k = r" by (simp add: db props_of_def)
    moreover have "distinct (map fst (props_of (rules_info L) k))" by (rule props_of_distinct[OF wf])
    ultimately show ?thesis using eq r unfolding v0 by (intro acl_db_okD(7)[OF ok]) auto
  qed
  have "view d k = (if k \<in> set ?new then Some (?g k) else None)"
  proof (cases "k \<in> set ?new")
    case True
    then show ?thesis using same by (auto simp: v5 v4 v3 v2 v1 a_def b_def c_def e_def f_def)
  next
    case False
    then show ?thesis using gone[of k] by (auto simp: v5 v4 v3 v2 v1 a_def b_def c_def e_def f_def)
  qed
  then show ?thesis by (auto simp: props_of_def map_of_eq_None_iff split: option.splits)
qed

text \<open>C11. An incremental update that does not raise leaves every database with the same rules as a full update.\<close>

theorem incremental_equals_full:
  assumes "acl_db_ok lib view norm" and "in_sync lib view L w" and "rules_wf (rules_info L)" and "current_table L = None"
    and "incremental_update lib L w = Inr w'"
  shows "map view (site_dbs w') = map view (site_dbs (full_update lib L w))"
proof -
  let ?result = "\<lambda>k. map_option norm (map_of (rules_info L) k)"
  have "view d = ?result" if "d \<in> set (site_dbs w')" for d
    using incremental_view[OF assms(1-3,5) that] by blast
  moreover have "view d = ?result" if "d \<in> set (site_dbs (full_update lib L w))" for d
    using full_update_view[OF assms(1-3) _ that] assms(4) by (auto simp: fun_eq_iff)
  moreover have "length (site_dbs w') = length (site_dbs w)" "length (site_dbs (full_update lib L w)) = length (site_dbs w)"
    using assms(5) by (auto simp: incremental_update_def Let_def rbind_eq_Inr site_dbs_each full_update_each site_dbs_every)
  ultimately show ?thesis by (intro nth_equalityI) simp_all
qed

text \<open>A rule left behind in the database by a table that was removed makes every incremental update fail
  before it has written anything, whatever file is loaded.\<close>

theorem stale_rule_blocks_incremental:
  assumes "k \<in> set (map fst (rules_db_info L))" and "map_of (tables_db_info L) (fst k) = None"
  shows "\<exists>e. incremental_update lib L w = Inl e"
proof -
  have "is_table_control_plane L (fst k) = Inl KeyError"
    using assms(2) by (simp add: is_table_control_plane_def table_type_def table_info_def)
  then have "split_rules L (map fst (rules_db_info L)) \<noteq> Inr r" for r
    using assms(1) by (fastforce simp: split_rules_def rbind_eq_Inr rfilterM_Inr_iff)
  then show ?thesis
    by (cases "incremental_update lib L w") (auto simp: incremental_update_def Let_def rbind_eq_Inr)
qed

text \<open>\<open>delete\<close> removes exactly the rules that match the table and the rule name, where those are given.\<close>

theorem delete_spec:
  assumes "acl_db_ok lib view norm" and "in_sync lib view L w" and "d \<in> set (site_dbs (delete lib L table rule w))"
  shows "view d k = (if (not_given table \<or> table = Some (fst k)) \<and> (not_given rule \<or> rule = Some (snd k)) then None
      else view (configdb w) k)"
proof -
  let ?P = "\<lambda>k :: rule_key. (not_given table \<or> table = Some (fst k)) \<and> (not_given rule \<or> rule = Some (snd k))"
  obtain d0 where d0: "d0 \<in> set (site_dbs w)"
    and d: "d = foldl (\<lambda>d k. ad_set_rule lib d k None) d0 (filter ?P (map fst (rules_db_info L)))"
    using assms(3) by (auto simp: delete_def site_dbs_each)
  have v0: "view d0 = view (configdb w)" using assms(2) d0 by (auto simp: in_sync_def)
  have "view (configdb w) k = None" if "k \<notin> set (map fst (rules_db_info L))"
    using that acl_db_okD(6)[OF assms(1), of k "configdb w"] assms(2) by (auto simp: in_sync_def)
  moreover have "view d = (\<lambda>k. if k \<in> set (filter ?P (map fst (rules_db_info L))) then None else view d0 k)"
    unfolding d by (rule removed_view) (rule acl_db_okD(2)[OF assms(1)])
  ultimately show ?thesis by (auto simp: v0)
qed

text \<open>The command: whatever \<open>acl-loader update full\<close> converts is what the databases then hold.\<close>

lemma rules_ok_wf: "rules_ok L info \<Longrightarrow> rules_wf info"
  by (fastforce simp: rules_ok_def rules_wf_def rule_entry_ok_def)

lemma rules_ok_selected: "rules_ok L info \<Longrightarrow> k \<in> set (map fst info) \<Longrightarrow> current_table L = None \<or> current_table L = Some (fst k)"
  by (auto simp: rules_ok_def rule_entry_ok_def selected_def)

text \<open>C10. The command \<open>acl-loader update full\<close>, on a loader that has read the databases and no file: when it succeeds,
  every database holds, in the tables updated (all, or the one named), exactly the rules of the file: for
  each key the fields of the entries the file has under it, those of later entries prevailing; a rule that cannot be converted is
  no entry, and every table in the file that is selected and neither a mirror nor an egress table contributes
  its deny rule. Rules of other tables stay. The conversion is done with the session, stage and
  priority of the options: priority 0 or none leaves the maximum of the loader. Each rule belongs to an existing
  table and has the priority its sequence number gives, or is the deny rule.\<close>

theorem full_command_spec:
  assumes "acl_db_ok lib view norm" and "in_sync lib view L w" and "rules_info L = []" and "full lib L f table session_name stage priority w = Inr w'"
  shows "\<exists>L1. prepare session_name stage priority (if not_given table then L else set_table_name (the table) L) =
      Inr (L1\<lparr>rules_info := []\<rparr>) \<and>
    max_priority L1 = (if priority = None \<or> priority = Some 0 then max_priority L else the priority) \<and>
    (\<forall>k. map_option map_of (map_of (rules_info L1) k) = merged_rule (file_entries L1 (f_acl_sets f)) k) \<and>
    rules_ok L1 (rules_info L1) \<and> tables_db_info L1 = tables_db_info L \<and>
    current_table L1 = (if not_given table then current_table L else table) \<and>
    (\<forall>d \<in> set (site_dbs w'). \<forall>k. view d k = (if current_table L1 = None \<or> current_table L1 = Some (fst k)
      then map_option norm (map_of (rules_info L1) k) else view (configdb w) k)) \<and>
    (\<forall>s \<in> set (f_acl_sets f). denied L1 (table_name (fst s)) \<longrightarrow> map_of (rules_info L1) (table_name (fst s), ''DEFAULT_RULE'') \<noteq> None)"
proof -
  let ?L0 = "if not_given table then L else set_table_name (the table) L"
  obtain L2 L3 where L2: "prepare session_name stage priority ?L0 = Inr L2" and L3: "load_rules_from_file L2 f = Inr L3"
    and w': "w' = full_update lib L3 w"
    using assms(4) by (auto simp: full_def Let_def rbind_eq_Inr)
  have parts: "tables_db_info L2 = tables_db_info L" "rules_db_info L2 = rules_db_info L" "rules_info L2 = []"
      "current_table L2 = (if not_given table then current_table L else table)"
      "max_priority L2 = (if priority = None \<or> priority = Some 0 then max_priority L else the priority)"
    using L2 assms(3)
    by (auto simp: prepare_def Let_def rbind_eq_Inr set_mirror_stage_def set_max_priority_def set_session_name_def set_table_name_def
        not_given_def split: if_splits option.splits)
  have conv: "convert_rules L2 (f_acl_sets f) = Inr L3"
    using L3 by (auto simp: load_rules_from_file_def parse_acl_json_def rbind_eq_Inr split: if_splits)
  moreover have "rules_ok L2 (rules_info L2)" by (simp add: parts rules_ok_def)
  ultimately have inv: "rules_ok L2 (rules_info L3)" "L3 = L2\<lparr>rules_info := rules_info L3\<rparr>"
      "\<forall>s \<in> set (f_acl_sets f). denied L2 (table_name (fst s)) \<longrightarrow> map_of (rules_info L3) (table_name (fst s), ''DEFAULT_RULE'') \<noteq> None"
    using converted_rules by blast+
  obtain info where L3': "L3 = L2\<lparr>rules_info := info\<rparr>" using inv(2) by blast
  have same: "rules_ok L3 = rules_ok L2" "denied L3 = denied L2"
    by (simp_all add: L3' fun_eq_iff rules_ok_def rule_entry_ok_def denied_def selected_def is_table_valid_def is_table_mirror_def
        is_table_egress_def table_type_def table_info_def)
  have more: "tables_db_info L3 = tables_db_info L" "rules_db_info L3 = rules_db_info L"
      "current_table L3 = (if not_given table then current_table L else table)"
      "max_priority L3 = (if priority = None \<or> priority = Some 0 then max_priority L else the priority)"
    by (simp_all add: L3' parts)
  have prep: "prepare session_name stage priority ?L0 = Inr (L3\<lparr>rules_info := []\<rparr>)" using L2 parts(3) by (simp add: L3')
  have entries: "\<forall>k. map_option map_of (map_of (rules_info L3) k) = merged_rule (file_entries L3 (f_acl_sets f)) k"
    using converted_file[OF conv parts(3)] by (simp add: L3' file_entries_rules_info)
  have sync: "in_sync lib view L3 w" using assms(2) unfolding in_sync_def more .
  have ok: "rules_ok L3 (rules_info L3)" using inv(1) same by simp
  show ?thesis
    using full_update_view[OF assms(1) sync rules_ok_wf[OF ok]] rules_ok_selected[OF ok] inv(3)
    by (intro exI[of _ L3] conjI ok more prep entries) (simp_all add: w' same)
qed

section \<open>A database in memory\<close>

definition stored :: "json \<Rightarrow> string" where
  "stored v = (case v of JStr s \<Rightarrow> s | JInt n \<Rightarrow> int_str n | JBool b \<Rightarrow> int_str (of_bool b) | _ \<Rightarrow> [])"

definition mem_view :: "(rule_key \<times> dict) list \<Rightarrow> rule_key \<Rightarrow> (string \<Rightarrow> string option) option" where
  "mem_view d k = map_option (\<lambda>e f. map_option stored (map_of e f)) (map_of d k)"

definition mem_norm :: "dict \<Rightarrow> string \<Rightarrow> string option" where
  "mem_norm e f = map_option stored (map_of e f)"

definition mem_mod :: "(rule_key \<times> dict) list \<Rightarrow> rule_key \<Rightarrow> dict option \<Rightarrow> (rule_key \<times> dict) list" where
  "mem_mod d k e = (case e of None \<Rightarrow> AList.delete k d | Some e \<Rightarrow> AList.update k (e @ (case map_of d k of None \<Rightarrow> [] | Some old \<Rightarrow> old)) d)"

definition mem_acl :: "(rule_key \<times> dict) list acl_db" where
  "mem_acl = \<lparr>ad_get_table = (\<lambda>d t. if t = ''ACL_TABLE'' then tables_db_info sample_loader else []), ad_rules = (\<lambda>d. d),
     ad_mod_rule = mem_mod, ad_set_rule = (\<lambda>d k e. case e of None \<Rightarrow> AList.delete k d | Some e \<Rightarrow> AList.update k e d),
     ad_mod_config = (\<lambda>d rs. foldl (\<lambda>d (k, e). mem_mod d k (Some e)) d rs)\<rparr>"

lemma stored_eq: "json_eq a b \<Longrightarrow> stored a = stored b"
  by (cases a; cases b) (auto simp: stored_def)

lemma mem_norm_eq:
  assumes "json_eq (JObj e) (JObj r)" and "distinct (map fst e)"
  shows "mem_norm e = mem_norm r"
proof
  fix f
  show "mem_norm e f = mem_norm r f"
    using json_eq_JObj_map_of[OF assms, of f] by (auto simp: mem_norm_def option_rel_Some1 option_rel_Some2 stored_eq elim!: option.rel_cases)
qed

lemma mem_acl_ok: "acl_db_ok mem_acl mem_view mem_norm"
  unfolding acl_db_ok_def
proof (intro conjI allI impI)
  fix d :: "(rule_key \<times> dict) list" and k :: rule_key and e r :: dict and rs :: "(rule_key \<times> dict) list"
  show "mem_view (ad_mod_rule mem_acl d k None) = (mem_view d)(k := None)"
    "mem_view (ad_set_rule mem_acl d k None) = (mem_view d)(k := None)"
    by (simp_all add: mem_acl_def mem_mod_def mem_view_def fun_eq_iff delete_conv')
  show "mem_view (ad_set_rule mem_acl d k (Some e)) = (mem_view d)(k \<mapsto> mem_norm e)"
    by (simp add: mem_acl_def mem_view_def mem_norm_def fun_eq_iff update_conv')
  show "mem_view (ad_mod_rule mem_acl d k (Some e)) =
      (mem_view d)(k \<mapsto> (case mem_view d k of None \<Rightarrow> mem_norm e | Some old \<Rightarrow> old ++ mem_norm e))"
    by (auto simp: mem_acl_def mem_mod_def mem_view_def mem_norm_def fun_eq_iff update_conv' map_add_def split: option.splits)
  show "mem_view (ad_mod_config mem_acl d rs) = mem_view (foldl (\<lambda>d (k, e). ad_mod_rule mem_acl d k (Some e)) d rs)"
    by (simp add: mem_acl_def)
  show "k \<in> set (map fst (ad_rules mem_acl d)) \<longleftrightarrow> mem_view d k \<noteq> None"
    by (simp add: mem_acl_def mem_view_def map_of_eq_None_iff)
  assume "map_of (ad_rules mem_acl d) k = Some r \<and> distinct (map fst e) \<and> json_eq (JObj e) (JObj r)"
  then show "mem_view d k = Some (mem_norm e)"
    using mem_norm_eq[of e r] by (simp add: mem_acl_def mem_view_def mem_norm_def fun_eq_iff)
qed

definition sample_site :: "(rule_key \<times> dict) list acl_site" where
  "sample_site = \<lparr>configdb = rules_db_info sample_loader, per_npu_configdb = [(''asic0'', rules_db_info sample_loader)]\<rparr>"

definition sample_converted_loader :: acl_loader where
  "sample_converted_loader = sample_loader\<lparr>rules_info := [((''DATAACL'', ''RULE_1''), sample_props), ((''SSH_ONLY'', ''RULE_1''), [(''PRIORITY'', JStr ''9999'')])]\<rparr>"

lemma sample_in_sync: "in_sync mem_acl mem_view sample_loader sample_site"
  by (simp add: in_sync_def mem_acl_def sample_site_def site_dbs_def sample_loader_def)

lemma sample_in_sync': "in_sync mem_acl mem_view sample_converted_loader sample_site"
proof -
  have "rules_db_info sample_converted_loader = rules_db_info sample_loader" by (simp add: sample_converted_loader_def)
  with sample_in_sync show ?thesis unfolding in_sync_def by metis
qed

lemma sample_rules_wf: "rules_wf (rules_info sample_converted_loader)"
  by (simp add: rules_wf_def sample_converted_loader_def sample_props_def)

lemma sample_control_plane:
  "is_table_control_plane sample_converted_loader ''DATAACL'' = Inr False"
  "is_table_control_plane sample_converted_loader ''SSH_ONLY'' = Inr True"
  by (simp_all add: sample_converted_loader_def acl_eval)

lemma sample_incremental: "\<exists>w'. incremental_update mem_acl sample_converted_loader sample_site = Inr w'"
proof -
  have "map fst (rules_info sample_converted_loader) = [(''DATAACL'', ''RULE_1''), (''SSH_ONLY'', ''RULE_1'')]"
    "map fst (rules_db_info sample_converted_loader) = [(''DATAACL'', ''RULE_2''), (''SSH_ONLY'', ''RULE_9'')]"
    by (simp_all add: sample_converted_loader_def sample_loader_def)
  then show ?thesis by (simp add: incremental_update_def split_rules_def sample_control_plane Let_def)
qed

theorem incremental_equals_full_witness:
  "\<exists>w'. incremental_update mem_acl sample_converted_loader sample_site = Inr w' \<and>
     map mem_view (site_dbs w') = map mem_view (site_dbs (full_update mem_acl sample_converted_loader sample_site))"
proof -
  have "current_table sample_converted_loader = None" by (simp add: sample_converted_loader_def sample_loader_def)
  with sample_incremental show ?thesis
    using incremental_equals_full[OF mem_acl_ok sample_in_sync' sample_rules_wf] by blast
qed

theorem stale_rule_blocks_incremental_witness:
  "\<exists>e. incremental_update mem_acl (sample_converted_loader\<lparr>tables_db_info := [(''DATAACL'', [(''type'', JStr ''L3'')])]\<rparr>) sample_site = Inl e"
  by (rule stale_rule_blocks_incremental[of "(''SSH_ONLY'', ''RULE_9'')"])
    (simp_all add: sample_converted_loader_def sample_loader_def)

theorem delete_spec_witness:
  "mem_view (configdb (delete mem_acl sample_loader (Some ''DATAACL'') None sample_site)) (''DATAACL'', ''RULE_2'') = None \<and>
   mem_view (configdb (delete mem_acl sample_loader (Some ''DATAACL'') None sample_site)) (''SSH_ONLY'', ''RULE_9'') \<noteq> None"
proof -
  let ?w = "delete mem_acl sample_loader (Some ''DATAACL'') None sample_site"
  have "configdb ?w \<in> set (site_dbs ?w)" by (simp add: site_dbs_def)
  from delete_spec[OF mem_acl_ok sample_in_sync this] show ?thesis
    by (simp add: not_given_def mem_view_def sample_site_def sample_loader_def)
qed

definition sample_file :: acl_file where
  "sample_file = \<lparr>f_acl_sets = [(''data-acl'', [sample_rule]), (''DataAcl'', [sample_rule, sample_rule\<lparr>r_forwarding_action := ''LOG''\<rparr>])],
     f_plain_sets = 2\<rparr>"

lemma sample_full: "\<exists>w'. full mem_acl sample_loader sample_file None None ''ingress'' (Some 10000) sample_site = Inr w'"
proof -
  have "prepare None ''ingress'' (Some 10000) sample_loader = Inr sample_loader"
    by (simp add: prepare_def not_given_def set_mirror_stage_def set_max_priority_def sample_loader_def to_upper_def char_of_def bit_0)
  moreover obtain L where "load_rules_from_file sample_loader sample_file = Inr L"
    using sample_sets by (auto simp: load_rules_from_file_def parse_acl_json_def sample_file_def)
  ultimately show ?thesis by (simp add: full_def not_given_def)
qed

theorem full_command_spec_witness:
  "\<exists>w' L1. full mem_acl sample_loader sample_file None None ''ingress'' (Some 10000) sample_site = Inr w' \<and>
     rules_ok L1 (rules_info L1) \<and> mem_view (configdb w') (''DATAACL'', ''RULE_2'') = map_option mem_norm (map_of (rules_info L1) (''DATAACL'', ''RULE_2''))"
proof -
  obtain w' where w': "full mem_acl sample_loader sample_file None None ''ingress'' (Some 10000) sample_site = Inr w'"
    using sample_full by blast
  have "rules_info sample_loader = []" "current_table sample_loader = None" by (simp_all add: sample_loader_def)
  moreover have "configdb w' \<in> set (site_dbs w')" by (simp add: site_dbs_def)
  ultimately show ?thesis
    using full_command_spec[OF mem_acl_ok sample_in_sync _ w'] w' by (auto simp: not_given_def)
qed

end
