(* ===== verification/ConfigTree.thy ===== *)
theory ConfigTree
  imports SonicDb
begin

text \<open>
  Merging and searching configurations (\<open>config/config_mgmt.py\<close>, \<open>_mergeConfigs\<close>, \<open>_searchKeysInConfig\<close>). The values
  of a configuration in the form of the ConfigDB are texts, lists of texts and dictionaries; \<open>CNone\<close> is the
  \<open>None\<close> that marks a deletion. A dictionary is an association list in the order of its keys.
\<close>

datatype config = CNone | CStr string | CList "string list" | CDict "(string \<times> config) list"

type_synonym configs = "(string \<times> config) list"

lemma size_config_of [termination_simp]:
  "map_of d k = Some v \<Longrightarrow> size v < Suc (size_list (\<lambda>p. Suc (size (snd p))) d)"
  by (induction d) (auto split: if_splits)

definition truthy :: "config \<Rightarrow> bool" where
  "truthy c \<longleftrightarrow> c \<noteq> CNone \<and> c \<noteq> CStr [] \<and> c \<noteq> CList [] \<and> c \<noteq> CDict []"

text \<open>\<open>type(c)()\<close>\<close>

fun empty_like :: "config \<Rightarrow> config" where
  "empty_like CNone = CNone"
| "empty_like (CStr _) = CStr []"
| "empty_like (CList _) = CList []"
| "empty_like (CDict _) = CDict []"

fun wf_config :: "config \<Rightarrow> bool" where
  "wf_config (CDict d) = (distinct (map fst d) \<and> (\<forall>p \<in> set d. wf_config (snd p)))"
| "wf_config CNone = False"
| "wf_config _ = True"

section \<open>Looking into a configuration\<close>

fun value_at :: "config \<Rightarrow> string list \<Rightarrow> config option" where
  "value_at c [] = Some c"
| "value_at (CDict d) (k # p) = (case map_of d k of None \<Rightarrow> None | Some v \<Rightarrow> value_at v p)"
| "value_at _ (_ # _) = None"

definition text_at :: "config \<Rightarrow> string list \<Rightarrow> string option" where
  "text_at c p = (case value_at c p of Some (CStr s) \<Rightarrow> Some s | _ \<Rightarrow> None)"

definition list_at :: "config \<Rightarrow> string list \<Rightarrow> string list option" where
  "list_at c p = (case value_at c p of Some (CList xs) \<Rightarrow> Some xs | _ \<Rightarrow> None)"

lemma text_at_simps [simp]:
  "text_at (CDict d) [] = None" "text_at (CStr s) [] = Some s" "text_at (CList xs) p = None" "text_at CNone p = None"
  "text_at (CStr s) (k # p) = None"
  "text_at (CDict d) (k # p) = (case map_of d k of None \<Rightarrow> None | Some v \<Rightarrow> text_at v p)"
  by (cases p; simp add: text_at_def split: option.splits)+

lemma list_at_simps [simp]:
  "list_at (CDict d) [] = None" "list_at (CStr s) p = None" "list_at (CList xs) [] = Some xs" "list_at CNone p = None"
  "list_at (CList xs) (k # p) = None"
  "list_at (CDict d) (k # p) = (case map_of d k of None \<Rightarrow> None | Some v \<Rightarrow> list_at v p)"
  by (cases p; simp add: list_at_def split: option.splits)+

section \<open>Merging\<close>

text \<open>
  \<open>merge_entries d1 d2\<close> is the loop over \<open>D1\<close>: what becomes of \<open>D1\<close> and what is left of \<open>D2\<close>. A nested dictionary is
  merged with the default \<open>uniqueKeys\<close>. The handler of the function names the class \<open>Exce\<close>, which does not
  exist: an exception that reaches it becomes a \<open>NameError\<close>.
\<close>

fun merge_items :: "config \<Rightarrow> config \<Rightarrow> err + config"
  and merge_entries :: "configs \<Rightarrow> configs \<Rightarrow> err + configs \<times> configs" where
  "merge_items (CList xs) (CList ys) = Inr (CList (xs @ ys))"
| "merge_items (CDict d1) (CDict d2) = (case merge_entries d1 d2 of
     Inl _ \<Rightarrow> Inl NameError
   | Inr (e1, e2) \<Rightarrow> Inr (CDict (dict_merge e1 e2)))"
| "merge_items (CList xs) _ = Inl PyException"
| "merge_items (CDict d1) _ = Inl PyException"
| "merge_items it1 (CList _) = Inl PyException"
| "merge_items it1 (CDict _) = Inl PyException"
| "merge_items it1 _ = Inr it1"
| "merge_entries [] d2 = Inr ([], d2)"
| "merge_entries ((k, v) # d1) d2 =
     rbind (case map_of d2 k of
         None \<Rightarrow> Inr (v, d2)
       | Some w \<Rightarrow> if truthy w then rbind (merge_items v w) (\<lambda>v. Inr (v, AList.delete k d2)) else Inr (v, d2)) (\<lambda>(v, d2).
     rbind (merge_entries d1 d2) (\<lambda>(d1, d2). Inr ((k, v) # d1, d2)))"

definition mergeConfigs :: "configs \<Rightarrow> configs \<Rightarrow> bool \<Rightarrow> err + configs" where
  "mergeConfigs d1 d2 uniqueKeys = (case merge_entries d1 d2 of
     Inl _ \<Rightarrow> Inl NameError
   | Inr (e1, e2) \<Rightarrow> Inr (if uniqueKeys then dict_merge e1 e2 else e1))"

section \<open>Searching\<close>

text \<open>
  The pattern of a search key: the key of a dictionary is the search key, ends in it, or is the search key, a
  bar and more. The search keys are names of ports, in which no character is special to a pattern; the end
  of a pattern also matches before a final newline.
\<close>

definition key_matches :: "string \<Rightarrow> string \<Rightarrow> bool" where
  "key_matches skey key \<longleftrightarrow>
     prefix (skey @ ''|'') key \<or> suffix skey key \<or> suffix (skey @ [CHR 0x0A]) key"

definition named :: "string list \<Rightarrow> string \<Rightarrow> bool" where
  "named skeys key \<longleftrightarrow> (\<exists>skey \<in> set skeys. key_matches skey key)"

fun search_keys :: "string list \<Rightarrow> config \<Rightarrow> config \<times> bool"
  and search_entries :: "string list \<Rightarrow> configs \<Rightarrow> configs \<times> bool" where
  "search_keys skeys (CDict d) = (case search_entries skeys d of (out, found) \<Rightarrow> (CDict out, found))"
| "search_keys skeys (CList xs) =
     (let out = filter (\<lambda>skey. skey \<in> set xs) skeys in (CList out, out \<noteq> []))"
| "search_keys skeys c = (empty_like c, False)"
| "search_entries skeys [] = ([], False)"
| "search_entries skeys ((k, v) # d) = (case search_entries skeys d of (out, found) \<Rightarrow>
     if named skeys k \<and> v \<noteq> CNone then ((k, v) # out, True)
     else (case search_keys skeys v of (v', found') \<Rightarrow>
       if found' then ((k, v') # out, True) else (out, named skeys k \<or> found)))"

definition config_with_keys :: "configs \<Rightarrow> string list \<Rightarrow> configs" where
  "config_with_keys configIn ks = (if configIn \<noteq> [] \<and> ks \<noteq> [] then fst (search_entries ks configIn) else [])"

section \<open>What a merge keeps\<close>

fun all_truthy :: "config \<Rightarrow> bool" where
  "all_truthy (CDict d) = (d \<noteq> [] \<and> (\<forall>p \<in> set d. all_truthy (snd p)))"
| "all_truthy c = truthy c"

lemma all_truthy_truthy: "all_truthy c \<Longrightarrow> truthy c"
  by (cases c) (auto simp: truthy_def)

text \<open>The loop key by key: keys without a counterpart stay, true counterparts are merged, false ones are left over.\<close>

lemma merge_entries_shape:
  assumes "merge_entries d1 d2 = Inr (e1, e2)" and "distinct (map fst d1)" and "distinct (map fst d2)"
  shows "map fst e1 = map fst d1 \<and> distinct (map fst e2) \<and>
    (\<forall>k v. map_of d1 k = Some v \<longrightarrow> (case map_of d2 k of
       None \<Rightarrow> map_of e1 k = Some v \<and> map_of e2 k = None
     | Some w \<Rightarrow> if truthy w then \<exists>u. merge_items v w = Inr u \<and> map_of e1 k = Some u \<and> map_of e2 k = None
                else map_of e1 k = Some v \<and> map_of e2 k = Some w)) \<and>
    (\<forall>k. map_of d1 k = None \<longrightarrow> map_of e2 k = map_of d2 k)"
  using assms
proof (induction d1 arbitrary: d2 e1 e2)
  case (Cons p d1)
  obtain k v where p: "p = (k, v)" by fastforce
  obtain v' d2' r1 where 1: "(case map_of d2 k of None \<Rightarrow> Inr (v, d2)
       | Some w \<Rightarrow> if truthy w then rbind (merge_items v w) (\<lambda>v. Inr (v, AList.delete k d2)) else Inr (v, d2)) = Inr (v', d2')"
    and 2: "merge_entries d1 d2' = Inr (r1, e2)" and e1: "e1 = (k, v') # r1"
    using Cons.prems(1) unfolding p by (auto simp: rbind_eq_Inr)
  have d2': "distinct (map fst d2')" "\<forall>j. j \<noteq> k \<longrightarrow> map_of d2' j = map_of d2 j"
    using 1 Cons.prems(3) by (auto simp: rbind_eq_Inr map_of_delete distinct_delete split: option.splits if_splits)
  have fresh: "map_of d1 k = None" and dist: "distinct (map fst d1)" using Cons.prems(2) by (auto simp: p map_of_eq_None_iff)
  note IH = Cons.IH[OF 2 dist d2'(1)]
  have k2: "map_of e2 k = map_of d2' k" using IH fresh by blast
  show ?case
    unfolding p e1
  proof (intro conjI allI impI)
    fix j u assume j: "map_of ((k, v) # d1) j = Some u"
    show "case map_of d2 j of None \<Rightarrow> map_of ((k, v') # r1) j = Some u \<and> map_of e2 j = None
      | Some w \<Rightarrow> if truthy w then \<exists>x. merge_items u w = Inr x \<and> map_of ((k, v') # r1) j = Some x \<and> map_of e2 j = None
                 else map_of ((k, v') # r1) j = Some u \<and> map_of e2 j = Some w"
    proof (cases "j = k")
      case True
      with j 1 k2 show ?thesis by (auto simp: rbind_eq_Inr map_of_delete split: option.splits if_splits)
    next
      case False
      then have "map_of d1 j = Some u" using j by simp
      with IH have "case map_of d2' j of None \<Rightarrow> map_of r1 j = Some u \<and> map_of e2 j = None
        | Some w \<Rightarrow> if truthy w then \<exists>x. merge_items u w = Inr x \<and> map_of r1 j = Some x \<and> map_of e2 j = None
                   else map_of r1 j = Some u \<and> map_of e2 j = Some w" by blast
      with False d2'(2) show ?thesis by (simp split: option.splits)
    qed
  qed (use IH d2'(2) in \<open>auto split: if_splits\<close>)
qed simp

lemma merge_entries_row:
  assumes "merge_entries d1 d2 = Inr (e1, e2)" and "distinct (map fst d1)" and "distinct (map fst d2)" and "map_of d1 k = Some v"
  shows "case map_of d2 k of None \<Rightarrow> map_of e1 k = Some v \<and> map_of e2 k = None
    | Some w \<Rightarrow> if truthy w then \<exists>u. merge_items v w = Inr u \<and> map_of e1 k = Some u \<and> map_of e2 k = None
               else map_of e1 k = Some v \<and> map_of e2 k = Some w"
  using merge_entries_shape[OF assms(1-3)] assms(4) by blast

lemma merge_configs_shape:
  assumes "merge_entries d1 d2 = Inr (e1, e2)" and "distinct (map fst d1)" and "distinct (map fst d2)"
  shows "map_of (dict_merge e1 e2) k = (case map_of d1 k of
     None \<Rightarrow> map_of d2 k
   | Some v \<Rightarrow> (case map_of d2 k of None \<Rightarrow> Some v
       | Some w \<Rightarrow> if truthy w then (case merge_items v w of Inl _ \<Rightarrow> None | Inr u \<Rightarrow> Some u) else Some w))"
proof -
  note shape = merge_entries_shape[OF assms]
  have merged: "map_of (dict_merge e1 e2) = map_of e1 ++ map_of e2" using shape by (intro map_of_dict_merge) blast
  show ?thesis
  proof (cases "map_of d1 k")
    case None
    then have "map_of e1 k = None" "map_of e2 k = map_of d2 k" using shape by (metis map_of_eq_None_iff list.set_map, blast)
    with None show ?thesis by (simp add: merged map_add_def split: option.splits)
  next
    case (Some v)
    then show ?thesis using merge_entries_row[OF assms Some]
      by (auto simp: merged map_add_def split: option.splits if_splits)
  qed
qed

lemma merge_entries_None:
  assumes "merge_entries d1 d2 = Inr (e1, e2)" and "distinct (map fst d1)" and "distinct (map fst d2)"
    and "map_of d1 k = Some v" and "map_of d2 k = Some w" and "truthy w"
  obtains u where "merge_items v w = Inr u"
  using merge_entries_row[OF assms(1-4)] assms(5,6) by (auto intro: that)

text \<open>How a text and a list of the result come from those of the two sides.\<close>

definition first_text :: "string option \<Rightarrow> string option \<Rightarrow> string option" where
  "first_text a b = (case a of None \<Rightarrow> b | Some s \<Rightarrow> Some s)"

definition joined_list :: "string list option \<Rightarrow> string list option \<Rightarrow> string list option" where
  "joined_list a b = (case a of None \<Rightarrow> b | Some xs \<Rightarrow> (case b of None \<Rightarrow> Some xs | Some ys \<Rightarrow> Some (xs @ ys)))"

lemma merge_dict_at:
  assumes "merge_entries d1 d2 = Inr (e1, e2)" and "wf_config (CDict d1)" and "wf_config (CDict d2)" and "\<forall>q \<in> set d2. all_truthy (snd q)"
    and IH: "\<And>k v w u p. map_of d1 k = Some v \<Longrightarrow> map_of d2 k = Some w \<Longrightarrow> merge_items v w = Inr u \<Longrightarrow>
      text_at u p = first_text (text_at v p) (text_at w p) \<and> list_at u p = joined_list (list_at v p) (list_at w p)"
  shows "text_at (CDict (dict_merge e1 e2)) p = first_text (text_at (CDict d1) p) (text_at (CDict d2) p) \<and>
    list_at (CDict (dict_merge e1 e2)) p = joined_list (list_at (CDict d1) p) (list_at (CDict d2) p)"
proof (cases p)
  case (Cons k q)
  have dist: "distinct (map fst d1)" "distinct (map fst d2)" using assms(2,3) by simp_all
  have true: "truthy w" if "map_of d2 k = Some w" for w
    using bspec[OF assms(4) map_of_SomeD[OF that]] by (simp add: all_truthy_truthy)
  note shape = merge_configs_shape[OF assms(1) dist, of k]
  show ?thesis
  proof (cases "map_of d1 k")
    case None
    with shape show ?thesis by (simp add: Cons first_text_def joined_list_def)
  next
    case (Some v)
    show ?thesis
    proof (cases "map_of d2 k")
      case None
      with Some shape show ?thesis by (simp add: Cons first_text_def joined_list_def split: option.splits)
    next
      case w: (Some w)
      obtain u where "merge_items v w = Inr u" using merge_entries_None[OF assms(1) dist Some w true[OF w]] .
      with Some w shape true[OF w] IH[OF Some w this, of q] show ?thesis by (simp add: Cons)
    qed
  qed
qed (simp add: first_text_def joined_list_def)

lemma merge_items_at:
  assumes "merge_items v w = Inr u" and "wf_config v" and "wf_config w" and "all_truthy w"
  shows "text_at u p = first_text (text_at v p) (text_at w p) \<and> list_at u p = joined_list (list_at v p) (list_at w p)"
  using assms
proof (induction v arbitrary: w u p)
  case (CDict d1)
  then obtain d2 where w: "w = CDict d2" by (cases w) auto
  then obtain e1 e2 where e: "merge_entries d1 d2 = Inr (e1, e2)" and u: "u = CDict (dict_merge e1 e2)"
    using CDict.prems(1) by (auto split: sum.splits)
  show ?case
    unfolding u w
  proof (rule merge_dict_at[OF e])
    fix k v x y q assume v: "map_of d1 k = Some v" and x: "map_of d2 k = Some x" and y: "merge_items v x = Inr y"
    have "(k, v) \<in> set d1" "(k, x) \<in> set d2" using v x by (auto dest: map_of_SomeD)
    then have "wf_config v" "wf_config x" "all_truthy x" using CDict.prems(2-4) by (auto simp: w)
    with \<open>(k, v) \<in> set d1\<close> y show "text_at y q = first_text (text_at v q) (text_at x q) \<and> list_at y q = joined_list (list_at v q) (list_at x q)"
      by (intro CDict.IH[of "(k, v)" v]) (auto simp: snds.simps)
  qed (use CDict.prems in \<open>auto simp: w\<close>)
next
  case (CStr s)
  then show ?case by (cases w; cases p) (auto simp: first_text_def joined_list_def)
next
  case (CList xs)
  then show ?case by (cases w; cases p) (auto simp: first_text_def joined_list_def)
qed simp

text \<open>When every value of the second configuration is true in Python's sense, the merge has exactly the values
  of both, the first one winning: a text of the first configuration stays, lists are joined, everything
  the first one lacks is added, whole tables included.\<close>

theorem merge_configs_spec:
  assumes "mergeConfigs d1 d2 True = Inr e" and "wf_config (CDict d1)" and "wf_config (CDict d2)"
    and "\<forall>p \<in> set d2. all_truthy (snd p)"
  shows "text_at (CDict e) p = first_text (text_at (CDict d1) p) (text_at (CDict d2) p) \<and>
    list_at (CDict e) p = joined_list (list_at (CDict d1) p) (list_at (CDict d2) p)"
proof -
  obtain e1 e2 where run: "merge_entries d1 d2 = Inr (e1, e2)" and e: "e = dict_merge e1 e2"
    using assms(1) by (auto simp: mergeConfigs_def split: sum.splits)
  have parts: "wf_config v \<and> wf_config w \<and> all_truthy w" if "map_of d1 k = Some v" "map_of d2 k = Some w" for k v w
    using assms(2-4) map_of_SomeD[OF that(1)] map_of_SomeD[OF that(2)] by fastforce
  show ?thesis
    unfolding e using merge_dict_at[OF run assms(2-4), of p] merge_items_at parts by blast
qed

text \<open>A false value of the second configuration, an empty dictionary say, is not merged but left over, and the update
  with what is left over puts it in the place of the value of the first.\<close>

theorem empty_default_overwrites:
  assumes "mergeConfigs d1 d2 True = Inr e" and "distinct (map fst d1)" and "distinct (map fst d2)"
    and "map_of d1 k = Some v" and "map_of d2 k = Some w" and "\<not> truthy w"
  shows "map_of e k = Some w"
proof -
  obtain e1 e2 where run: "merge_entries d1 d2 = Inr (e1, e2)" and e: "e = dict_merge e1 e2"
    using assms(1) by (auto simp: mergeConfigs_def split: sum.splits)
  show ?thesis unfolding e merge_configs_shape[OF run assms(2,3)] using assms(4-6) by simp
qed

section \<open>What a search finds\<close>

text \<open>Below a key that names a port, everything; elsewhere, the lists cut down to the ports.\<close>

definition found_list :: "string list \<Rightarrow> string list option \<Rightarrow> string list option" where
  "found_list skeys a = (case a of None \<Rightarrow> None | Some xs \<Rightarrow>
     let out = filter (\<lambda>k. k \<in> set xs) skeys in if out = [] then None else Some out)"

definition text_found :: "string list \<Rightarrow> config \<Rightarrow> string list \<Rightarrow> string option" where
  "text_found skeys c p = (if \<exists>k \<in> set p. named skeys k then text_at c p else None)"

definition list_found :: "string list \<Rightarrow> config \<Rightarrow> string list \<Rightarrow> string list option" where
  "list_found skeys c p = (if \<exists>k \<in> set p. named skeys k then list_at c p else found_list skeys (list_at c p))"

lemma found_simps [simp]:
  "text_found skeys (CDict ((k, v) # d)) (j # q) = (if j = k then if named skeys k then text_at v q else text_found skeys v q
     else text_found skeys (CDict d) (j # q))"
  "list_found skeys (CDict ((k, v) # d)) (j # q) = (if j = k then if named skeys k then list_at v q else list_found skeys v q
     else list_found skeys (CDict d) (j # q))"
  "text_found skeys (CDict []) p = None" "list_found skeys (CDict []) p = None"
  "text_found skeys (CDict d) [] = None" "list_found skeys (CDict d) [] = None"
  by (cases p; simp add: text_found_def list_found_def found_list_def)+

lemma found_leaf [simp]: "text_found skeys (CStr s) p = None" "list_found skeys (CStr s) p = None"
  by (cases p; simp add: text_found_def list_found_def found_list_def)+

lemma empty_at [simp]: "text_at (CDict []) p = None" "list_at (CDict []) p = None"
  by (cases p; simp)+

lemma search_at:
  "wf_config c \<Longrightarrow> search_keys skeys c = (out, found) \<Longrightarrow>
     (if found then text_at out p else None) = text_found skeys c p \<and> (if found then list_at out p else None) = list_found skeys c p"
  "wf_config (CDict d) \<Longrightarrow> search_entries skeys d = (eout, found) \<Longrightarrow>
     text_at (CDict eout) p = text_found skeys (CDict d) p \<and> list_at (CDict eout) p = list_found skeys (CDict d) p \<and> (\<not> found \<longrightarrow> eout = [])"
proof (induction skeys c and skeys d arbitrary: out found p and eout found p rule: search_keys_search_entries.induct)
  case (1 skeys d)
  obtain eo f where e: "search_entries skeys d = (eo, f)" by fastforce
  with "1.prems" have "out = CDict eo" "found = f" by simp_all
  with "1.IH"[OF "1.prems"(1) e, of p] show ?case by (cases f) auto
next
  case (2 skeys xs)
  then show ?case by (cases p) (auto simp: Let_def text_found_def list_found_def found_list_def)
next
  case (5 skeys k v d)
  obtain eo f where e: "search_entries skeys d = (eo, f)" by fastforce
  obtain vo g where v: "search_keys skeys v = (vo, g)" by fastforce
  have wf: "wf_config (CDict d)" "wf_config v" "map_of d k = None" using "5.prems"(1) by (auto simp: map_of_eq_None_iff)
  note IH1 = "5.IH"(1)[OF wf(1) e]
  have out: "if named skeys k then eout = (k, v) # eo \<and> found else if g then eout = (k, vo) # eo \<and> found else eout = eo \<and> found = f"
    using "5.prems"(2) wf(2) e v by (auto split: if_splits)
  show ?case
  proof (cases p)
    case Nil
    with out IH1 show ?thesis by (auto split: if_splits)
  next
    case (Cons j q)
    have IH2: "(if g then text_at vo q else None) = text_found skeys v q \<and> (if g then list_at vo q else None) = list_found skeys v q"
      if "\<not> named skeys k"
      using "5.IH"(2)[OF e[symmetric] _ wf(2) v, of q] that by blast
    have "text_at (CDict eo) (k # q) = None" "list_at (CDict eo) (k # q) = None"
      using IH1[of "k # q"] wf(3) by (simp_all add: text_found_def list_found_def found_list_def)
    with Cons out IH1[of p] IH2 show ?thesis by (auto split: if_splits)
  qed
qed auto

text \<open>Searching a configuration for ports: a text is found when a key on the way to it names one of them; so is a
  list, and every other list is cut down to the ports it holds and left out when it holds none.\<close>

theorem config_with_keys_spec:
  assumes "wf_config (CDict configIn)"
  shows "text_at (CDict (config_with_keys configIn ports)) p =
      (if \<exists>k \<in> set p. named ports k then text_at (CDict configIn) p else None) \<and>
    list_at (CDict (config_with_keys configIn ports)) p =
      (if \<exists>k \<in> set p. named ports k then list_at (CDict configIn) p
       else case list_at (CDict configIn) p of None \<Rightarrow> None
         | Some xs \<Rightarrow> let out = filter (\<lambda>port. port \<in> set xs) ports in if out = [] then None else Some out)"
proof -
  obtain out found where run: "search_entries ports configIn = (out, found)" by fastforce
  note at = search_at(2)[OF assms run, of p, unfolded text_found_def list_found_def found_list_def]
  show ?thesis
    using at run by (auto simp: config_with_keys_def named_def split: option.splits)
qed

section \<open>A sample\<close>

definition sample_current :: configs where
  "sample_current = [(''PORT'', CDict [(''Ethernet0'', CDict [(''speed'', CStr ''40000''), (''lanes'', CStr ''65'')])]),
     (''ACL_TABLE'', CDict [(''DATA'', CDict [(''ports'', CList [''Ethernet4''])])])]"

definition sample_defaults :: configs where
  "sample_defaults = [(''PORT'', CDict [(''Ethernet0'', CDict [(''speed'', CStr ''10000'')])]),
     (''ACL_TABLE'', CDict [(''DATA'', CDict [(''ports'', CList [''Ethernet0'', ''Ethernet8'']), (''stage'', CStr ''ingress'')])]),
     (''VLAN_MEMBER'', CDict [(''Vlan100|Ethernet0'', CDict [(''tagging_mode'', CStr ''untagged'')])])]"

lemmas config_eval = mergeConfigs_def dict_merge_def truthy_def sample_current_def sample_defaults_def

theorem merge_configs_spec_witness:
  "\<exists>e. mergeConfigs sample_current sample_defaults True = Inr e \<and>
     text_at (CDict e) [''PORT'', ''Ethernet0'', ''speed''] = Some ''40000'' \<and>
     list_at (CDict e) [''ACL_TABLE'', ''DATA'', ''ports''] = Some [''Ethernet4'', ''Ethernet0'', ''Ethernet8'']"
proof -
  obtain e where e: "mergeConfigs sample_current sample_defaults True = Inr e"
    by (simp add: config_eval)
  have hyps: "wf_config (CDict sample_current)" "wf_config (CDict sample_defaults)" "\<forall>p \<in> set sample_defaults. all_truthy (snd p)"
    by (simp_all add: config_eval)
  note spec = merge_configs_spec[OF e hyps]
  show ?thesis
    by (intro exI[of _ e] conjI e; unfold spec[THEN conjunct1] spec[THEN conjunct2]) (simp_all add: first_text_def joined_list_def sample_current_def sample_defaults_def)
qed

theorem empty_default_overwrites_witness:
  "\<exists>e. mergeConfigs sample_current [(''PORT'', CDict [])] True = Inr e \<and> map_of e ''PORT'' = Some (CDict [])"
proof -
  obtain e where e: "mergeConfigs sample_current [(''PORT'', CDict [])] True = Inr e" by (simp add: config_eval)
  moreover have "map_of e ''PORT'' = Some (CDict [])"
    by (rule empty_default_overwrites[OF e]) (simp_all add: config_eval)
  ultimately show ?thesis by blast
qed

theorem config_with_keys_spec_witness:
  "text_at (CDict (config_with_keys sample_defaults [''Ethernet0''])) [''VLAN_MEMBER'', ''Vlan100|Ethernet0'', ''tagging_mode''] = Some ''untagged'' \<and>
   list_at (CDict (config_with_keys sample_defaults [''Ethernet0''])) [''ACL_TABLE'', ''DATA'', ''ports''] = Some [''Ethernet0''] \<and>
   text_at (CDict (config_with_keys sample_defaults [''Ethernet0''])) [''ACL_TABLE'', ''DATA'', ''stage''] = None"
proof -
  have "wf_config (CDict sample_defaults)" by (simp add: config_eval)
  note spec = config_with_keys_spec[OF this]
  show ?thesis
    unfolding spec[THEN conjunct1] spec[THEN conjunct2] by (simp add: config_eval named_def key_matches_def prefix_def suffix_def)
qed

end
