(* ===== verification/ConfigDelta.thy ===== *)
theory ConfigDelta
  imports ConfigTree
begin

text \<open>
  From the difference of two configurations to what is written to the database (\<open>config/config_mgmt.py\<close>,
  \<open>_createConfigToLoad\<close>). The difference is computed by the package \<open>jsondiff\<close>, in its symmetric form: a
  value replaced as a whole is the list of the old and the new value (\<open>DReplaced\<close>; the two values are those at
  hand where it occurs), everything else is a dictionary (\<open>DTree\<close>) of the keys whose values differ, of what
  was deleted (\<open>$delete\<close>) and of what was inserted (\<open>$insert\<close>), keys of a dictionary or items of a list.
\<close>

datatype cdiff = DReplaced | DTree "dentry list"
  and dentry = DKey string cdiff | DDelete "string list" | DInsert "string list"

section \<open>Access to Python values\<close>

definition at_key :: "config \<Rightarrow> string \<Rightarrow> err + config" where
  "at_key c k = (case c of
     CDict d \<Rightarrow> (case map_of d k of None \<Rightarrow> Inl KeyError | Some v \<Rightarrow> Inr v)
   | _ \<Rightarrow> Inl TypeError)"

definition at_index :: "config \<Rightarrow> nat \<Rightarrow> err + string" where
  "at_index c n = (case c of
     CList xs \<Rightarrow> if n < length xs then Inr (xs ! n) else Inl IndexError
   | CStr s \<Rightarrow> if n < length s then Inr [s ! n] else Inl IndexError
   | CDict _ \<Rightarrow> Inl KeyError
   | CNone \<Rightarrow> Inl TypeError)"

definition contains :: "string \<Rightarrow> config \<Rightarrow> err + bool" where
  "contains k c = (case c of
     CDict d \<Rightarrow> Inr (map_of d k \<noteq> None)
   | CList xs \<Rightarrow> Inr (k \<in> set xs)
   | CStr s \<Rightarrow> Inr (sublist k s)
   | CNone \<Rightarrow> Inl TypeError)"

definition assign :: "config \<Rightarrow> string \<Rightarrow> config \<Rightarrow> err + config" where
  "assign c k v = (case c of CDict d \<Rightarrow> Inr (CDict (AList.update k v d)) | _ \<Rightarrow> Inl TypeError)"

definition delete_key :: "config \<Rightarrow> string \<Rightarrow> err + config" where
  "delete_key c k = (case c of CDict d \<Rightarrow> Inr (CDict (AList.delete k d)) | _ \<Rightarrow> Inl TypeError)"

definition extend :: "config \<Rightarrow> config \<Rightarrow> err + config" where
  "extend c extra = (case (c, extra) of (CList xs, CList ys) \<Rightarrow> Inr (CList (xs @ ys)) | _ \<Rightarrow> Inl AttributeError)"

section \<open>A replaced value\<close>

text \<open>
  Replacements are not allowed: a dictionary is left alone, a text that differs in case only as well, and any
  other text raises. For a list the loop goes over the pair of the old and the new list, appends each to the
  configuration, and calls itself with the two first and then with the two second items of the lists. There
  it goes over the list it has just appended: an item is appended to the list and deleted again, and
  \<open>inp[idx]\<close> and \<open>outp[idx]\<close> are characters of the two items.
\<close>

definition marks :: "string list" where
  "marks = [''$delete'', ''$insert'']"

fun walk_items :: "string list \<Rightarrow> nat \<Rightarrow> string \<Rightarrow> string \<Rightarrow> err + unit" where
  "walk_items [] n i t = Inr ()"
| "walk_items (x # xs) n i t =
     (if x \<in> set marks then Inl TypeError
      else if length i \<le> n \<or> length t \<le> n then Inl IndexError
      else walk_items xs (Suc n) i t)"

definition walk_side :: "config \<Rightarrow> string \<Rightarrow> string \<Rightarrow> err + unit" where
  "walk_side side i t = (case side of
     CList xs \<Rightarrow> if to_lower i = to_lower t then Inr () else walk_items xs 0 i t
   | _ \<Rightarrow> Inr ())"

definition replaced :: "config \<Rightarrow> config \<Rightarrow> err + unit" where
  "replaced inp outp = (case outp of
     CDict _ \<Rightarrow> Inr ()
   | CStr t \<Rightarrow> (case inp of
         CStr s \<Rightarrow> if to_lower s = to_lower t then Inr () else if s \<in> set marks then Inl TypeError else Inl AttributeError
       | _ \<Rightarrow> Inl AttributeError)
   | CNone \<Rightarrow> if inp \<in> CStr ` set marks then Inl TypeError else Inl AttributeError
   | CList _ \<Rightarrow>
       if inp \<in> CStr ` set marks then Inl TypeError
       else rbind (at_index inp 0) (\<lambda>i. rbind (at_index outp 0) (\<lambda>t. rbind (walk_side inp i t) (\<lambda>_.
         rbind (at_index inp 1) (\<lambda>i. rbind (at_index outp 1) (\<lambda>t. walk_side outp i t))))))"

section \<open>Creating the configuration to load\<close>

definition delete_handler :: "string list \<Rightarrow> config \<Rightarrow> config \<Rightarrow> config \<Rightarrow> err + config" where
  "delete_handler diff inp outp config = (case inp of
     CDict i \<Rightarrow> rfoldM (\<lambda>config key. case map_of i key of
         None \<Rightarrow> Inl PyException
       | Some v \<Rightarrow> rbind (contains key outp) (\<lambda>b. if b then Inl PyException
           else assign config key (case v of CList _ \<Rightarrow> CList [] | _ \<Rightarrow> CNone))) config diff
   | CList _ \<Rightarrow> extend config outp
   | _ \<Rightarrow> Inr config)"

definition insert_handler :: "string list \<Rightarrow> config \<Rightarrow> config \<Rightarrow> config \<Rightarrow> err + config" where
  "insert_handler diff inp outp config = (case outp of
     CDict t \<Rightarrow> rfoldM (\<lambda>config key. rbind (contains key inp) (\<lambda>b. if b then Inl PyException
         else (case map_of t key of None \<Rightarrow> Inl PyException | Some v \<Rightarrow> assign config key v))) config diff
   | CList _ \<Rightarrow> rbind (extend config outp) (\<lambda>config.
       if inp = CList [[]] then (case config of
           CList xs \<Rightarrow> if [] \<in> set xs then Inr (CList (remove1 [] xs)) else Inl ValueError
         | _ \<Rightarrow> Inl AttributeError)
       else Inr config)
   | _ \<Rightarrow> Inr config)"

text \<open>The result: whether something changed, and the configuration made so far.\<close>

fun recur_create_config :: "cdiff \<Rightarrow> config \<Rightarrow> config \<Rightarrow> err + bool \<times> config"
  and recur_entries :: "dentry list \<Rightarrow> config \<Rightarrow> config \<Rightarrow> bool \<times> config \<Rightarrow> err + bool \<times> config" where
  "recur_create_config DReplaced inp outp = rbind (replaced inp outp) (\<lambda>_. Inr (False, empty_like outp))"
| "recur_create_config (DTree es) inp outp = recur_entries es inp outp (False, empty_like outp)"
| "recur_entries [] inp outp r = Inr r"
| "recur_entries (DDelete ks # es) inp outp (changed, config) =
     rbind (delete_handler ks inp outp config) (\<lambda>config. recur_entries es inp outp (True, config))"
| "recur_entries (DInsert ks # es) inp outp (changed, config) =
     rbind (insert_handler ks inp outp config) (\<lambda>config. recur_entries es inp outp (True, config))"
| "recur_entries (DKey k d # es) inp outp (changed, config) =
     rbind (at_key outp k) (\<lambda>t.
     rbind (assign config k (empty_like t)) (\<lambda>_.
     rbind (at_key inp k) (\<lambda>i.
     rbind (recur_create_config d i t) (\<lambda>(b, c).
     if b then rbind (assign config k c) (\<lambda>config. recur_entries es inp outp (True, config))
     else rbind (delete_key config k) (\<lambda>config. recur_entries es inp outp (changed, config))))))"

definition create_config_to_load :: "cdiff \<Rightarrow> configs \<Rightarrow> configs \<Rightarrow> err + config" where
  "create_config_to_load diff inp outp = rbind (recur_create_config diff (CDict inp) (CDict outp)) (\<lambda>(_, c). Inr c)"

section \<open>What a difference is\<close>

text \<open>
  What is seen of a configuration: its texts up to case, its lists up to order, repetition and the empty
  text. The documentation of \<open>jsondiff\<close>: every key that is not mentioned has the same value on both
  sides; deleted keys are those the first side has and the second lacks, and so on.
\<close>

definition seen_text :: "config \<Rightarrow> string list \<Rightarrow> string option" where
  "seen_text c p = map_option to_lower (text_at c p)"

definition seen_list :: "config \<Rightarrow> string list \<Rightarrow> string set" where
  "seen_list c p = (case list_at c p of None \<Rightarrow> {} | Some xs \<Rightarrow> set xs - {[]})"

definition seen :: "config \<Rightarrow> string list \<Rightarrow> string option \<times> string set" where
  "seen c p = (seen_text c p, seen_list c p)"

definition same :: "config option \<Rightarrow> config option \<Rightarrow> bool" where
  "same a b = (case (a, b) of
     (None, None) \<Rightarrow> True
   | (Some v, Some w) \<Rightarrow> (\<forall>p. seen_text v p = seen_text w p \<and> seen_list v p = seen_list w p)
   | _ \<Rightarrow> False)"

definition entry_keys :: "dentry \<Rightarrow> string list" where
  "entry_keys e = (case e of DKey k _ \<Rightarrow> [k] | DDelete ks \<Rightarrow> ks | DInsert ks \<Rightarrow> ks)"

definition touched :: "dentry list \<Rightarrow> string list" where
  "touched es = concat (map entry_keys es)"

fun is_diff :: "cdiff \<Rightarrow> config \<Rightarrow> config \<Rightarrow> bool"
  and is_entry :: "dentry \<Rightarrow> configs \<Rightarrow> configs \<Rightarrow> bool" where
  "is_diff DReplaced inp outp = True"
| "is_diff (DTree es) (CDict i) (CDict t) = (distinct (touched es) \<and> (\<forall>e \<in> set es. is_entry e i t) \<and>
     (\<forall>k. k \<notin> set (touched es) \<longrightarrow> same (map_of i k) (map_of t k)))"
| "is_diff (DTree es) (CList xs) (CList ys) =
     ((\<forall>e \<in> set es. case e of DKey _ _ \<Rightarrow> False | _ \<Rightarrow> True) \<and> (es = [] \<longrightarrow> xs = ys))"
| "is_diff (DTree es) (CStr s) (CStr t) = (es = [] \<and> s = t)"
| "is_diff (DTree es) inp outp = False"
| "is_entry (DKey k d) i t = (case map_of i k of None \<Rightarrow> False | Some v \<Rightarrow>
     (case map_of t k of None \<Rightarrow> False | Some w \<Rightarrow> is_diff d v w))"
| "is_entry (DDelete ks) i t = (\<forall>k \<in> set ks. map_of i k \<noteq> None \<and> map_of t k = None)"
| "is_entry (DInsert ks) i t = (\<forall>k \<in> set ks. map_of i k = None \<and> map_of t k \<noteq> None)"

text \<open>Only texts are replaced as a whole.\<close>

fun texts_replaced :: "cdiff \<Rightarrow> config \<Rightarrow> bool"
  and entry_texts_replaced :: "dentry \<Rightarrow> config \<Rightarrow> bool" where
  "texts_replaced DReplaced outp = (\<exists>s. outp = CStr s)"
| "texts_replaced (DTree es) outp = (\<forall>e \<in> set es. entry_texts_replaced e outp)"
| "entry_texts_replaced (DKey k d) outp = (case at_key outp k of Inl _ \<Rightarrow> True | Inr w \<Rightarrow> texts_replaced d w)"
| "entry_texts_replaced _ outp = True"

section \<open>Overlaying a configuration\<close>

text \<open>
  An auxiliary of the proofs, no part of the program: the input with the configuration to load laid over it.
  \<open>CNone\<close> takes a key away, dictionaries are overlaid key by key, other values take the place of the old one. The
  properties are stated without it, by the paths a configuration covers.
\<close>

fun overlay :: "config \<Rightarrow> config \<Rightarrow> config"
  and overlay_entries :: "configs \<Rightarrow> configs \<Rightarrow> configs" where
  "overlay (CDict i) (CDict c) = CDict (overlay_entries i c)"
| "overlay _ c = c"
| "overlay_entries i [] = i"
| "overlay_entries i ((k, v) # c) =
     overlay_entries (if v = CNone then AList.delete k i
       else AList.update k (case map_of i k of None \<Rightarrow> v | Some u \<Rightarrow> overlay u v) i) c"

section \<open>Overlaying what was created\<close>

lemma seen_CDict [simp]:
  "seen_text (CDict d) [] = None" "seen_list (CDict d) [] = {}"
  "seen_text (CDict d) (k # p) = (case map_of d k of None \<Rightarrow> None | Some v \<Rightarrow> seen_text v p)"
  "seen_list (CDict d) (k # p) = (case map_of d k of None \<Rightarrow> {} | Some v \<Rightarrow> seen_list v p)"
  by (simp_all add: seen_text_def seen_list_def split: option.splits)

lemma seen_CList: "seen_text (CList xs) p = None" "seen_list (CList xs) p = (if p = [] then set xs - {[]} else {})"
  by (cases p; simp add: seen_text_def seen_list_def)+

lemma seen_CStr: "seen_list (CStr s) p = {}" "to_lower s = to_lower t \<Longrightarrow> seen_text (CStr s) p = seen_text (CStr t) p"
  by (cases p; simp add: seen_text_def seen_list_def)+

definition deleted :: "config \<Rightarrow> config" where
  "deleted v = (case v of CList _ \<Rightarrow> CList [] | _ \<Rightarrow> CNone)"

lemma delete_handler_dict:
  assumes "delete_handler ks (CDict i) (CDict t) (CDict c0) = Inr r"
  shows "\<exists>c. r = CDict c \<and> (distinct (map fst c0) \<longrightarrow> distinct (map fst c)) \<and>
    (\<forall>k. map_of c k = (if k \<in> set ks then Some (deleted (the (map_of i k))) else map_of c0 k))"
  using assms
proof (induction ks arbitrary: c0)
  case (Cons k ks)
  then obtain v where v: "map_of i k = Some v" and "delete_handler ks (CDict i) (CDict t) (CDict (AList.update k (deleted v) c0)) = Inr r"
    by (auto simp: delete_handler_def contains_def assign_def deleted_def rbind_eq_Inr split: option.splits if_splits)
  from Cons.IH[OF this(2)] v show ?case by (auto simp: distinct_update update_conv')
qed (auto simp: delete_handler_def)

lemma insert_handler_dict:
  assumes "insert_handler ks (CDict i) (CDict t) (CDict c0) = Inr r"
  shows "\<exists>c. r = CDict c \<and> (distinct (map fst c0) \<longrightarrow> distinct (map fst c)) \<and>
    (\<forall>k. map_of c k = (if k \<in> set ks then map_of t k else map_of c0 k))"
  using assms
proof (induction ks arbitrary: c0)
  case (Cons k ks)
  then obtain v where v: "map_of t k = Some v" and "insert_handler ks (CDict i) (CDict t) (CDict (AList.update k v c0)) = Inr r"
    by (auto simp: insert_handler_def contains_def assign_def rbind_eq_Inr split: option.splits if_splits)
  from Cons.IH[OF this(2)] v show ?case by (auto simp: distinct_update update_conv')
qed (auto simp: insert_handler_def)

text \<open>What an entry of the difference has put into the configuration \<open>c\<close>.\<close>

definition entry_done :: "configs \<Rightarrow> configs \<Rightarrow> configs \<Rightarrow> dentry \<Rightarrow> bool" where
  "entry_done i t c e = (case e of
     DDelete ks \<Rightarrow> \<forall>k \<in> set ks. map_of c k = Some (deleted (the (map_of i k)))
   | DInsert ks \<Rightarrow> \<forall>k \<in> set ks. map_of c k = map_of t k
   | DKey k d \<Rightarrow> \<exists>v w b r. map_of i k = Some v \<and> map_of t k = Some w \<and> recur_create_config d v w = Inr (b, r) \<and>
       map_of c k = (if b then Some r else None))"

lemma entry_done_cong:
  "entry_done i t c e \<Longrightarrow> (\<And>k. k \<in> set (entry_keys e) \<Longrightarrow> map_of c' k = map_of c k) \<Longrightarrow> entry_done i t c' e"
  by (cases e) (auto simp: entry_done_def entry_keys_def)

lemma recur_entries_dict:
  assumes "recur_entries es (CDict i) (CDict t) (ch, CDict c0) = Inr (b, r)" and "distinct (touched es)" and "distinct (map fst c0)"
  shows "\<exists>c. r = CDict c \<and> distinct (map fst c) \<and> (\<not> b \<longrightarrow> \<not> ch \<and> (c0 = [] \<longrightarrow> c = [])) \<and>
    (\<forall>e \<in> set es. entry_done i t c e) \<and> (\<forall>k. k \<notin> set (touched es) \<longrightarrow> map_of c k = map_of c0 k)"
  using assms
proof (induction es arbitrary: ch c0)
  case (Cons e es)
  have dist: "distinct (touched es)" "set (entry_keys e) \<inter> set (touched es) = {}" and touched: "touched (e # es) = entry_keys e @ touched es"
    using Cons.prems(2) by (auto simp: touched_def)
  obtain c1 ch' where run: "recur_entries es (CDict i) (CDict t) (ch', CDict c1) = Inr (b, r)" and c1: "distinct (map fst c1)"
      "entry_done i t c1 e" "\<forall>k. k \<notin> set (entry_keys e) \<longrightarrow> map_of c1 k = map_of c0 k" "\<not> ch' \<longrightarrow> \<not> ch \<and> (c0 = [] \<longrightarrow> c1 = [])"
  proof (cases e)
    case (DDelete ks)
    with Cons.prems(1) obtain c1 where c1: "delete_handler ks (CDict i) (CDict t) (CDict c0) = Inr c1"
        and run: "recur_entries es (CDict i) (CDict t) (True, c1) = Inr (b, r)"
      by (auto simp: rbind_eq_Inr)
    from delete_handler_dict[OF c1] run Cons.prems(3) DDelete show ?thesis
      by (auto simp: entry_done_def entry_keys_def intro!: that)
  next
    case (DInsert ks)
    with Cons.prems(1) obtain c1 where c1: "insert_handler ks (CDict i) (CDict t) (CDict c0) = Inr c1"
        and run: "recur_entries es (CDict i) (CDict t) (True, c1) = Inr (b, r)"
      by (auto simp: rbind_eq_Inr)
    from insert_handler_dict[OF c1] run Cons.prems(3) DInsert show ?thesis
      by (auto simp: entry_done_def entry_keys_def intro!: that)
  next
    case (DKey k d)
    with Cons.prems(1) obtain v w b' c' where parts: "map_of i k = Some v" "map_of t k = Some w" "recur_create_config d v w = Inr (b', c')"
        and run: "recur_entries es (CDict i) (CDict t) (b' \<or> ch, CDict (if b' then AList.update k c' c0 else AList.delete k c0)) = Inr (b, r)"
      by (auto simp: rbind_eq_Inr at_key_def assign_def delete_key_def split: option.splits if_splits)
    show ?thesis
      by (rule that[OF run]) (use parts Cons.prems(3) DKey in \<open>auto simp: entry_done_def entry_keys_def distinct_update distinct_delete update_conv' map_of_delete\<close>)
  qed
  from Cons.IH[OF run dist(1) c1(1)] obtain c where c: "r = CDict c" "distinct (map fst c)" "\<not> b \<longrightarrow> \<not> ch' \<and> (c1 = [] \<longrightarrow> c = [])"
      "\<forall>e \<in> set es. entry_done i t c e" "\<forall>k. k \<notin> set (touched es) \<longrightarrow> map_of c k = map_of c1 k" by blast
  have "entry_done i t c e" using c1(2) by (rule entry_done_cong) (use c(5) dist(2) in blast)
  then show ?case using c c1 by (auto simp: touched)
qed auto

lemma map_of_overlay_entries:
  "distinct (map fst c) \<Longrightarrow> map_of (overlay_entries i c) k = (case map_of c k of
     None \<Rightarrow> map_of i k
   | Some v \<Rightarrow> if v = CNone then None else Some (case map_of i k of None \<Rightarrow> v | Some u \<Rightarrow> overlay u v))"
proof (induction c arbitrary: i k)
  case (Cons p c)
  obtain j v where p: "p = (j, v)" by fastforce
  have fresh: "map_of c j = None" and dist: "distinct (map fst c)" using Cons.prems by (auto simp: p map_of_eq_None_iff)
  show ?case
    by (cases "k = j") (simp_all add: p Cons.IH[OF dist] fresh map_of_delete update_conv' split: option.split)
qed simp

lemma set_remove1_minus: "set (remove1 x xs) - {x} = set xs - {x}"
  by (induction xs) auto

lemma recur_entries_list:
  assumes "recur_entries es (CList xs) (CList ys) (ch, CList c0) = Inr (b, r)" and "\<forall>e \<in> set es. case e of DKey _ _ \<Rightarrow> False | _ \<Rightarrow> True"
  shows "\<exists>c. r = CList c \<and> (b \<longleftrightarrow> ch \<or> es \<noteq> []) \<and> set c - {[]} = set c0 \<union> (if es = [] then {} else set ys) - {[]}"
  using assms
proof (induction es arbitrary: ch c0)
  case (Cons e es)
  then obtain c1 where run: "recur_entries es (CList xs) (CList ys) (True, CList c1) = Inr (b, r)"
      and c1: "set c1 - {[]} = set c0 \<union> set ys - {[]}"
    by (cases e) (auto simp: delete_handler_def insert_handler_def extend_def rbind_eq_Inr set_remove1_minus split: if_splits)
  from Cons.IH[OF run] Cons.prems(2) c1 show ?case by auto
qed auto

text \<open>Loading the configuration gives the one the difference leads to, as far as it is seen.\<close>

definition loaded :: "config \<Rightarrow> bool \<Rightarrow> config \<Rightarrow> config" where
  "loaded inp changed c = (if changed then overlay inp c else inp)"

lemma loaded_list:
  assumes "is_diff (DTree es) (CList xs) (CList ys)" and "recur_create_config (DTree es) (CList xs) (CList ys) = Inr (b, c)"
  shows "seen_text (loaded (CList xs) b c) p = seen_text (CList ys) p \<and> seen_list (loaded (CList xs) b c) p = seen_list (CList ys) p"
  using recur_entries_list[of es xs ys False "[]" b c] assms by (auto simp: loaded_def seen_CList)

lemma created_not_None:
  assumes "is_diff d v w" and "recur_create_config d v w = Inr (True, c)"
  shows "c \<noteq> CNone"
proof (cases d)
  case DReplaced
  with assms(2) show ?thesis by (auto simp: rbind_eq_Inr)
next
  case (DTree es)
  with assms show ?thesis
    by (cases v; cases w)
      (auto dest!: recur_entries_list recur_entries_dict[where ?c0.0 = "[]", simplified] split: dentry.splits)
qed

lemma loaded_key:
  assumes "is_diff (DTree es) (CDict i) (CDict t)" and "wf_config (CDict t)" and "distinct (map fst c)"
    and "\<forall>e \<in> set es. entry_done i t c e" and "\<forall>k. k \<notin> set (touched es) \<longrightarrow> map_of c k = None"
    and IH: "\<And>j d v w b r. DKey j d \<in> set es \<Longrightarrow> map_of i j = Some v \<Longrightarrow> map_of t j = Some w \<Longrightarrow>
      recur_create_config d v w = Inr (b, r) \<Longrightarrow>
      seen_text (loaded v b r) q = seen_text w q \<and> seen_list (loaded v b r) q = seen_list w q"
  shows "seen_text (CDict (overlay_entries i c)) (k # q) = seen_text (CDict t) (k # q) \<and>
    seen_list (CDict (overlay_entries i c)) (k # q) = seen_list (CDict t) (k # q)"
proof (cases "k \<in> set (touched es)")
  case False
  then have "same (map_of i k) (map_of t k)" "map_of c k = None" using assms(1,5) by auto
  then show ?thesis by (auto simp: map_of_overlay_entries[OF assms(3)] same_def split: option.splits)
next
  case True
  then obtain e where e: "e \<in> set es" "k \<in> set (entry_keys e)" by (auto simp: touched_def)
  have entry: "is_entry e i t" and made: "entry_done i t c e" using assms(1,4) e(1) by auto
  show ?thesis
  proof (cases e)
    case (DKey j d)
    with made e(2) obtain v w b r where 1: "map_of i k = Some v" "map_of t k = Some w" "recur_create_config d v w = Inr (b, r)"
      "map_of c k = (if b then Some r else None)" by (auto simp: entry_done_def entry_keys_def)
    have "is_diff d v w" using entry DKey e(2) 1 by (simp add: entry_keys_def)
    then have "r \<noteq> CNone" if b using created_not_None 1(3) that by auto
    with 1 IH[of k d v w b r] e DKey show ?thesis
      by (cases b) (auto simp: map_of_overlay_entries[OF assms(3)] loaded_def entry_keys_def)
  next
    case (DDelete ks)
    with made entry e(2) have "map_of c k = Some (deleted (the (map_of i k)))" "map_of i k \<noteq> None" "map_of t k = None"
      by (auto simp: entry_done_def entry_keys_def)
    then show ?thesis
      by (auto simp: map_of_overlay_entries[OF assms(3)] deleted_def seen_CList split: config.splits)
  next
    case (DInsert ks)
    with made entry e(2) obtain w where w: "map_of c k = Some w" "map_of i k = None" "map_of t k = Some w"
      by (auto simp: entry_done_def entry_keys_def)
    then have "w \<noteq> CNone" using assms(2) by (auto dest!: map_of_SomeD)
    with w show ?thesis by (simp add: map_of_overlay_entries[OF assms(3)])
  qed
qed

lemma loaded_seen:
  "is_diff d v w \<Longrightarrow> texts_replaced d w \<Longrightarrow> wf_config w \<Longrightarrow> recur_create_config d v w = Inr (b, r) \<Longrightarrow>
     seen_text (loaded v b r) p = seen_text w p \<and> seen_list (loaded v b r) p = seen_list w p"
  "is_entry e i t \<Longrightarrow> entry_texts_replaced e (CDict t) \<Longrightarrow> wf_config (CDict t) \<Longrightarrow> e = DKey k d' \<Longrightarrow>
     map_of i k = Some v' \<Longrightarrow> map_of t k = Some w' \<Longrightarrow> recur_create_config d' v' w' = Inr (b, r) \<Longrightarrow>
     seen_text (loaded v' b r) q = seen_text w' q \<and> seen_list (loaded v' b r) q = seen_list w' q"
proof (induction d v w and e i t arbitrary: b r p and k d' v' w' b r q rule: is_diff_is_entry.induct)
  case (1 inp outp)
  then obtain s t where "inp = CStr s" "outp = CStr t" "to_lower s = to_lower t" "\<not> b"
    by (auto simp: rbind_eq_Inr replaced_def split: config.splits if_splits)
  then show ?case using seen_CStr(2)[of s t p] by (simp add: loaded_def seen_CStr(1))
next
  case (2 es i t)
  obtain c where c: "r = CDict c" "distinct (map fst c)" "\<not> b \<longrightarrow> c = []" "\<forall>e \<in> set es. entry_done i t c e"
      "\<forall>k. k \<notin> set (touched es) \<longrightarrow> map_of c k = None"
    using recur_entries_dict[of es i t False "[]" b r] "2.prems"(1,4) by auto
  have "loaded (CDict i) b r = CDict (overlay_entries i c)" using c(1,3) by (cases b) (simp_all add: loaded_def)
  moreover have "seen_text (CDict (overlay_entries i c)) p = seen_text (CDict t) p \<and> seen_list (CDict (overlay_entries i c)) p = seen_list (CDict t) p"
  proof (cases p)
    case (Cons k q)
    show ?thesis
      unfolding Cons
    proof (rule loaded_key[OF "2.prems"(1,3) c(2,4,5)])
      fix j d v w b' r' assume at: "DKey j d \<in> set es" "map_of i j = Some v" "map_of t j = Some w" "recur_create_config d v w = Inr (b', r')"
      have "\<forall>e \<in> set es. is_entry e i t" "\<forall>e \<in> set es. entry_texts_replaced e (CDict t)" using "2.prems"(1,2) by simp_all
      then have "is_entry (DKey j d) i t" "entry_texts_replaced (DKey j d) (CDict t)" using at(1) by blast+
      from "2.IH"[OF at(1) this "2.prems"(3) refl at(2-4)]
      show "seen_text (loaded v b' r') q = seen_text w q \<and> seen_list (loaded v b' r') q = seen_list w q" .
    qed
  qed simp
  ultimately show ?case by simp
next
  case (3 es xs ys)
  then show ?case using loaded_list by blast
next
  case (4 es s t)
  then show ?case by (auto simp: loaded_def)
next
  case (6 k d i t)
  then show ?case by (auto simp: at_key_def dest: map_of_SomeD)
qed auto

lemma created_seen:
  assumes "is_diff d (CDict inp) (CDict outp)" and "texts_replaced d (CDict outp)" and "wf_config (CDict outp)"
    and "create_config_to_load d inp outp = Inr c"
  shows "seen (overlay (CDict inp) c) p = seen (CDict outp) p"
proof -
  obtain es where d: "d = DTree es" using assms(2) by (cases d) auto
  obtain b where run: "recur_create_config d (CDict inp) (CDict outp) = Inr (b, c)"
    using assms(4) by (auto simp: create_config_to_load_def rbind_eq_Inr)
  then have "\<exists>c'. c = CDict c' \<and> (\<not> b \<longrightarrow> c' = [])"
    using recur_entries_dict[of es inp outp False "[]" b c] assms(1) by (auto simp: d)
  then have "loaded (CDict inp) b c = overlay (CDict inp) c" by (cases b) (auto simp: loaded_def)
  with loaded_seen(1)[OF assms(1-3) run, of p] show ?thesis by (simp add: seen_def)
qed

section \<open>What a configuration to load covers\<close>

text \<open>The paths whose value after loading comes from what is loaded.\<close>

fun covers :: "config \<Rightarrow> string list \<Rightarrow> bool" where
  "covers (CDict c) [] = True"
| "covers (CDict c) (k # p) = (case map_of c k of None \<Rightarrow> False | Some v \<Rightarrow> covers v p)"
| "covers _ p = True"

fun wf_load :: "config \<Rightarrow> bool" where
  "wf_load (CDict d) = (distinct (map fst d) \<and> (\<forall>p \<in> set d. wf_load (snd p)))"
| "wf_load _ = True"

lemma seen_uncovered: "\<not> covers c p \<Longrightarrow> seen_text c p = None \<and> seen_list c p = {}"
  by (induction c p rule: covers.induct) (auto split: option.splits)

lemma seen_not_dict: "\<forall>i. x \<noteq> CDict i \<Longrightarrow> seen_text x (k # p) = None \<and> seen_list x (k # p) = {}"
  by (cases x) (auto simp: seen_text_def seen_list_def)

text \<open>Loading is pointwise: a path has the loaded value if it is covered, and its old value otherwise.\<close>

lemma seen_load:
  "wf_load c \<Longrightarrow> seen_text (overlay x c) p = (if covers c p then seen_text c p else seen_text x p) \<and>
     seen_list (overlay x c) p = (if covers c p then seen_list c p else seen_list x p)"
proof (induction c arbitrary: x p)
  case (CDict c)
  show ?case
  proof (cases p)
    case (Cons k q)
    have IH: "seen_text (overlay u v) q = (if covers v q then seen_text v q else seen_text u q) \<and>
        seen_list (overlay u v) q = (if covers v q then seen_list v q else seen_list u q)" if "map_of c k = Some v" for u v
      using CDict.IH[of "(k, v)" v u q] map_of_SomeD[OF that] CDict.prems by (auto simp: snds.simps)
    show ?thesis
    proof (cases "\<exists>i. x = CDict i")
      case True
      then obtain i where x: "x = CDict i" by blast
      have at: "map_of (overlay_entries i c) k = (case map_of c k of None \<Rightarrow> map_of i k
          | Some v \<Rightarrow> if v = CNone then None else Some (case map_of i k of None \<Rightarrow> v | Some u \<Rightarrow> overlay u v))"
        using CDict.prems by (simp add: map_of_overlay_entries)
      show ?thesis
      proof (cases "map_of c k")
        case (Some v)
        then show ?thesis using IH[OF Some] seen_uncovered[of v q]
          by (cases "map_of i k") (auto simp: x Cons at seen_text_def seen_list_def)
      qed (simp add: x Cons at)
    next
      case False
      then have "overlay x (CDict c) = CDict c" by (cases x) auto
      with False seen_not_dict[of x k q] seen_uncovered[of "CDict c" p] show ?thesis by (simp add: Cons)
    qed
  qed (cases x; simp)
qed simp_all

lemma seen_loaded: "wf_load c \<Longrightarrow> seen (overlay x c) p = (if covers c p then seen c p else seen x p)"
  by (simp add: seen_def seen_load)

lemma wf_config_load: "wf_config c \<Longrightarrow> wf_load c"
  by (induction c rule: wf_config.induct) auto

lemma wf_created:
  "is_diff d v w \<Longrightarrow> wf_config w \<Longrightarrow> recur_create_config d v w = Inr (b, r) \<Longrightarrow> wf_load r"
  "is_entry e i t \<Longrightarrow> wf_config (CDict t) \<Longrightarrow> e = DKey k d' \<Longrightarrow>
     map_of i k = Some v' \<Longrightarrow> map_of t k = Some w' \<Longrightarrow> recur_create_config d' v' w' = Inr (b', r') \<Longrightarrow> wf_load r'"
proof (induction d v w and e i t arbitrary: b r and k d' v' w' b' r' rule: is_diff_is_entry.induct)
  case (1 inp outp)
  then show ?case by (cases outp) (auto simp: rbind_eq_Inr)
next
  case (2 es i t)
  obtain c where c: "r = CDict c" "distinct (map fst c)" "\<forall>e \<in> set es. entry_done i t c e"
      "\<forall>k. k \<notin> set (touched es) \<longrightarrow> map_of c k = None"
    using recur_entries_dict[of es i t False "[]" b r] "2.prems"(1,3) by auto
  have "wf_load x" if "(k, x) \<in> set c" for k x
  proof -
    have x: "map_of c k = Some x" using that c(2) by simp
    then obtain e where e: "e \<in> set es" "k \<in> set (entry_keys e)" using c(4) by (fastforce simp: touched_def)
    have ok: "entry_done i t c e" "is_entry e i t" using c(3) "2.prems"(1) e(1) by auto
    show ?thesis
    proof (cases e)
      case (DKey j d)
      with ok(1) e(2) x obtain v w where "map_of i k = Some v" "map_of t k = Some w" "recur_create_config d v w = Inr (True, x)"
        by (auto simp: entry_done_def entry_keys_def split: if_splits)
      with "2.IH"[OF e(1) ok(2) "2.prems"(2), of k d v w True x] DKey e(2) show ?thesis by (auto simp: entry_keys_def)
    next
      case (DDelete ks)
      with ok(1) e(2) x show ?thesis by (auto simp: entry_done_def entry_keys_def deleted_def split: config.splits)
    next
      case (DInsert ks)
      with ok(1) e(2) x have "map_of t k = Some x" by (simp add: entry_done_def entry_keys_def)
      then have "wf_config x" using "2.prems"(2) by (auto dest: map_of_SomeD)
      then show ?thesis by (rule wf_config_load)
    qed
  qed
  with c show ?case by auto
next
  case (3 es xs ys)
  then show ?case using recur_entries_list[of es xs ys False "[]" b r] by auto
next
  case (6 k d i t)
  then show ?case by (auto dest: map_of_SomeD)
qed auto

text \<open>
  What a configuration to load says of two states of a database: a path it covers has the value it gives there
  (nothing at or below a \<open>None\<close>), and every other path has the value it had.
\<close>

definition loads_as :: "config \<Rightarrow> config \<Rightarrow> config \<Rightarrow> bool" where
  "loads_as c before after \<longleftrightarrow> (\<forall>p. seen after p = (if covers c p then seen c p else seen before p))"

lemma loads_asD: "loads_as c before after \<Longrightarrow> seen after p = (if covers c p then seen c p else seen before p)"
  by (simp add: loads_as_def)

lemma created_wf:
  assumes "is_diff d (CDict inp) (CDict outp)" and "wf_config (CDict outp)" and "create_config_to_load d inp outp = Inr c"
  shows "wf_load c"
  using assms wf_created(1) by (fastforce simp: create_config_to_load_def rbind_eq_Inr)

text \<open>C12. Let \<open>d\<close> be the difference of two configurations, the second well-formed (distinct keys, no \<open>None\<close>), in which
  nothing but texts is replaced as a whole. If \<open>_createConfigToLoad\<close> does not raise, then what it creates takes the
  first configuration to the second: on every path it covers it has the value of the second one, and on every
  path it does not cover the two agree. Values are compared as far as they are seen: texts up to case, lists as
  sets without the empty text. A difference that replaces lists as a whole is excluded (\<open>replacements_are_lost\<close>).\<close>

theorem create_config_to_load_spec:
  assumes "is_diff d (CDict inp) (CDict outp)" and "texts_replaced d (CDict outp)" and "wf_config (CDict outp)"
    and "create_config_to_load d inp outp = Inr c"
  shows "loads_as c (CDict inp) (CDict outp)"
  using created_seen[OF assms] seen_loaded[OF created_wf[OF assms(1,3,4)]] by (simp add: loads_as_def)

text \<open>
  The form in which the connector documents a configuration for \<open>mod_config\<close>: tables that are not empty, or \<open>None\<close>
  for a table that goes; of rows, or \<open>None\<close> for a row that goes; of texts and lists of texts.
\<close>

definition loadable_field :: "config \<Rightarrow> bool" where
  "loadable_field v = (case v of CStr _ \<Rightarrow> True | CList _ \<Rightarrow> True | _ \<Rightarrow> False)"

definition loadable_row :: "config \<Rightarrow> bool" where
  "loadable_row e = (case e of CNone \<Rightarrow> True | CDict fs \<Rightarrow> list_all (\<lambda>(_, v). loadable_field v) fs | _ \<Rightarrow> False)"

definition loadable_table :: "config \<Rightarrow> bool" where
  "loadable_table t = (case t of
     CNone \<Rightarrow> True
   | CDict rows \<Rightarrow> rows \<noteq> [] \<and> list_all (\<lambda>(_, e). loadable_row e) rows
   | _ \<Rightarrow> False)"

definition loadable :: "config \<Rightarrow> bool" where
  "loadable c = (case c of CDict tables \<Rightarrow> list_all (\<lambda>(_, t). loadable_table t) tables | _ \<Rightarrow> False)"

lemmas loadable_defs = loadable_def loadable_table_def loadable_row_def loadable_field_def

lemma deleted_created:
  assumes "is_diff (DTree es) (CDict i) (CDict t)" and "recur_create_config (DTree es) (CDict i) (CDict t) = Inr (b, r)"
    and "map_of i k = Some v" and "map_of t k = None"
  shows "b \<and> (\<exists>c. r = CDict c \<and> map_of c k = Some (deleted v))"
proof -
  obtain c where c: "r = CDict c" "\<not> b \<longrightarrow> c = []" "\<forall>e \<in> set es. entry_done i t c e"
    using recur_entries_dict[of es i t False "[]" b r] assms(1,2) by auto
  have "k \<in> set (touched es)" using assms(1,3,4) by (auto simp: same_def)
  then obtain e where e: "e \<in> set es" "k \<in> set (entry_keys e)" by (auto simp: touched_def)
  have "is_entry e i t" "entry_done i t c e" using c(3) assms(1) e(1) by auto
  with e(2) assms(3,4) have "map_of c k = Some (deleted v)"
    by (cases e) (auto simp: entry_keys_def entry_done_def)
  with c show ?thesis by auto
qed

lemma same_SomeD: "same (Some v) (Some w) \<Longrightarrow> seen_text v p = seen_text w p \<and> seen_list v p = seen_list w p"
  by (simp add: same_def)

text \<open>An entry of a table that is gone in the output is removed by what is loaded, whatever the database says below it.\<close>

lemma removed_entry_covered:
  assumes "is_diff d (CDict i) (CDict t)" and "texts_replaced d (CDict t)" and "create_config_to_load d i t = Inr c"
    and "seen_text (CDict i) [tab, k, f] \<noteq> None" and "value_at (CDict t) [tab, k] = None"
  shows "covers c (tab # k # q)"
proof -
  obtain es where d: "d = DTree es" using assms(2) by (cases d) auto
  obtain b where run: "recur_create_config (DTree es) (CDict i) (CDict t) = Inr (b, c)"
    using assms(3) by (auto simp: create_config_to_load_def rbind_eq_Inr d)
  obtain i' v where i: "map_of i tab = Some (CDict i')" "map_of i' k = Some v" "seen_text v [f] \<noteq> None"
  proof -
    from assms(4) obtain u where u: "map_of i tab = Some u" "seen_text u [k, f] \<noteq> None" by (auto split: option.splits)
    then obtain i' where "u = CDict i'" using seen_not_dict by (metis not_None_eq)
    with u that show ?thesis by (auto split: option.splits)
  qed
  have v: "deleted v = CNone" using i(3) by (cases v) (auto simp: deleted_def seen_CList)
  show ?thesis
  proof (cases "map_of t tab")
    case None
    with deleted_created[OF assms(1)[unfolded d] run i(1)] show ?thesis
      by (auto simp: deleted_def seen_text_def seen_list_def)
  next
    case (Some w)
    have "seen_text w [k, f] = None" using assms(5) Some by (cases w) (auto simp: seen_text_def text_at_def split: option.splits)
    moreover have "seen_text (CDict i') [k, f] \<noteq> None" using i(2,3) by simp
    ultimately have "\<not> same (Some (CDict i')) (Some w)" using same_SomeD[of "CDict i'" w "[k, f]"] by auto
    then have "tab \<in> set (touched es)" using assms(1) i(1) Some by (auto simp: d)
    then obtain e where e: "e \<in> set es" "tab \<in> set (entry_keys e)" by (auto simp: touched_def)
    obtain c1 where c1: "c = CDict c1" "\<forall>e \<in> set es. entry_done i t c1 e"
      using recur_entries_dict[of es i t False "[]" b c] assms(1) run by (auto simp: d)
    have ok: "is_entry e i t" "entry_done i t c1 e" "entry_texts_replaced e (CDict t)" using c1(2) assms(1,2) e(1) by (auto simp: d)
    obtain d' where e': "e = DKey tab d'" using e(2) ok(1) i(1) Some by (cases e) (auto simp: entry_keys_def)
    obtain b' r' where r': "recur_create_config d' (CDict i') w = Inr (b', r')" "map_of c1 tab = (if b' then Some r' else None)"
      using ok(2) i(1) Some by (auto simp: e' entry_done_def)
    have d': "is_diff d' (CDict i') w" "texts_replaced d' w" using ok(1,3) i(1) Some by (simp_all add: e' at_key_def)
    obtain es' t' where 1: "d' = DTree es'" "w = CDict t'"
      using d' r'(1) by (cases d'; cases w) (auto simp: rbind_eq_Inr replaced_def)
    have "map_of t' k = None" using assms(5) Some by (simp add: 1 split: option.splits)
    from deleted_created[OF d'(1)[unfolded 1] r'(1)[unfolded 1] i(2) this] r'(2) v c1(1) show ?thesis
      by (auto simp: seen_text_def seen_list_def)
  qed
qed

section \<open>What is lost\<close>

fun only_replaced :: "cdiff \<Rightarrow> bool"
  and entry_only_replaced :: "dentry \<Rightarrow> bool" where
  "only_replaced DReplaced = True"
| "only_replaced (DTree es) = (\<forall>e \<in> set es. entry_only_replaced e)"
| "entry_only_replaced (DKey k d) = only_replaced d"
| "entry_only_replaced _ = False"

lemma only_replaced_unchanged:
  "only_replaced d \<Longrightarrow> recur_create_config d v w = Inr (b, r) \<Longrightarrow> \<not> b"
  "\<forall>e \<in> set es. entry_only_replaced e \<Longrightarrow> recur_entries es v w bc = Inr (b, r) \<Longrightarrow>
     b = fst bc \<and> (snd bc = CDict [] \<longrightarrow> r = CDict [])"
proof (induction d v w and es v w bc arbitrary: b r and b r rule: recur_create_config_recur_entries.induct)
  case (6 k d es inp outp changed config)
  from "6.prems"(2) obtain t a i b' c where 1: "at_key outp k = Inr t" "assign config k (empty_like t) = Inr a" "at_key inp k = Inr i"
      "recur_create_config d i t = Inr (b', c)" by (auto simp: rbind_eq_Inr)
  have "\<not> b'" using "6.IH"(1)[OF 1(1,2,3) _ 1(4)] "6.prems"(1) by simp
  with "6.prems"(2) 1 obtain config' where 2: "delete_key config k = Inr config'" "recur_entries es inp outp (changed, config') = Inr (b, r)"
    by (auto simp: rbind_eq_Inr)
  have "config = CDict [] \<longrightarrow> config' = CDict []" using 2(1) by (auto simp: delete_key_def)
  moreover have "b = changed \<and> (config' = CDict [] \<longrightarrow> r = CDict [])"
    using "6.IH"(3)[OF 1 _ _ 2(1) _ 2(2)] \<open>\<not> b'\<close> "6.prems"(1) by simp
  ultimately show ?case by simp
qed (auto simp: rbind_eq_Inr)

text \<open>A difference made of replacements only, however deep, yields nothing to load: where a list was exchanged for
  one with which it has no item in common, the change is lost without an error (or raises).\<close>

theorem replacements_are_lost:
  assumes "only_replaced d" and "create_config_to_load d inp outp = Inr c"
  shows "c = CDict []"
proof -
  obtain b where run: "recur_create_config d (CDict inp) (CDict outp) = Inr (b, c)"
    using assms(2) by (auto simp: create_config_to_load_def rbind_eq_Inr)
  show ?thesis
  proof (cases d)
    case DReplaced
    with run show ?thesis by (auto simp: rbind_eq_Inr)
  next
    case (DTree es)
    with run assms(1) show ?thesis using only_replaced_unchanged(2)[of es _ _ "(False, CDict [])" b c] by simp
  qed
qed

text \<open>A list that both loses and gains items is written twice over.\<close>

theorem list_change_written_twice:
  assumes "xs \<noteq> [[]]"
  shows "recur_create_config (DTree [DInsert gained, DDelete lost]) (CList xs) (CList ys) = Inr (True, CList (ys @ ys))"
  using assms by (simp add: insert_handler_def delete_handler_def extend_def)

text \<open>For a text field that goes while its row stays, \<open>None\<close> is put in place of the field: not a form the connector documents.\<close>

theorem field_deleted_as_None:
  "create_config_to_load (DTree [DKey ''PORT'' (DTree [DKey ''Ethernet0'' (DTree [DDelete [''mtu'']])])])
     [(''PORT'', CDict [(''Ethernet0'', CDict [(''speed'', CStr ''40000''), (''mtu'', CStr ''9100'')])])]
     [(''PORT'', CDict [(''Ethernet0'', CDict [(''speed'', CStr ''40000'')])])] =
     Inr (CDict [(''PORT'', CDict [(''Ethernet0'', CDict [(''mtu'', CNone)])])]) \<and>
   \<not> loadable (CDict [(''PORT'', CDict [(''Ethernet0'', CDict [(''mtu'', CNone)])])])"
  by (simp add: create_config_to_load_def at_key_def assign_def delete_key_def delete_handler_def contains_def loadable_defs)

section \<open>A sample\<close>

definition sample_before :: configs where
  "sample_before = [(''PORT'', CDict [(''Ethernet0'', CDict [(''speed'', CStr ''40000'')]), (''Ethernet4'', CDict [(''speed'', CStr ''40000'')])]),
     (''DEVICE_METADATA'', CDict [(''localhost'', CDict [(''mac'', CStr ''AA:BB'')])]),
     (''VLAN'', CDict [(''Vlan100'', CDict [(''members'', CList [''Ethernet0'', ''Ethernet4''])])]),
     (''ACL_TABLE'', CDict [(''DATA'', CDict [(''ports'', CList [[]])])])]"

definition sample_after :: configs where
  "sample_after = [(''PORT'', CDict [(''Ethernet0'', CDict [(''speed'', CStr ''40000'')])]),
     (''DEVICE_METADATA'', CDict [(''localhost'', CDict [(''mac'', CStr ''aa:bb'')])]),
     (''VLAN'', CDict [(''Vlan100'', CDict [(''members'', CList [''Ethernet0''])])]),
     (''ACL_TABLE'', CDict [(''DATA'', CDict [(''ports'', CList [[], ''Ethernet0''])])])]"

definition sample_diff :: cdiff where
  "sample_diff = DTree
     [DKey ''PORT'' (DTree [DDelete [''Ethernet4'']]),
      DKey ''DEVICE_METADATA'' (DTree [DKey ''localhost'' (DTree [DKey ''mac'' DReplaced])]),
      DKey ''VLAN'' (DTree [DKey ''Vlan100'' (DTree [DKey ''members'' (DTree [DDelete [''Ethernet4'']])])]),
      DKey ''ACL_TABLE'' (DTree [DKey ''DATA'' (DTree [DKey ''ports'' (DTree [DInsert [''Ethernet0'']])])])]"

lemma sample_created:
  "create_config_to_load sample_diff sample_before sample_after = Inr (CDict
     [(''PORT'', CDict [(''Ethernet4'', CNone)]),
      (''VLAN'', CDict [(''Vlan100'', CDict [(''members'', CList [''Ethernet0''])])]),
      (''ACL_TABLE'', CDict [(''DATA'', CDict [(''ports'', CList [''Ethernet0''])])])])"
  by (simp add: create_config_to_load_def sample_diff_def sample_before_def sample_after_def at_key_def assign_def delete_key_def
      delete_handler_def insert_handler_def extend_def contains_def replaced_def to_lower_def char_of_def bit_0)

lemma sample_is_diff: "is_diff sample_diff (CDict sample_before) (CDict sample_after)"
  by (auto simp: sample_diff_def sample_before_def sample_after_def touched_def entry_keys_def same_def)

theorem create_config_to_load_spec_witness:
  "\<exists>c. create_config_to_load sample_diff sample_before sample_after = Inr c \<and> loads_as c (CDict sample_before) (CDict sample_after) \<and>
     loadable c \<and> covers c [''PORT'', ''Ethernet4'', ''speed''] \<and> seen (CDict sample_after) [''PORT'', ''Ethernet4'', ''speed''] = (None, {}) \<and>
     covers c [''VLAN'', ''Vlan100'', ''members''] \<and> \<not> covers c [''PORT'', ''Ethernet0'', ''speed'']"
proof -
  have "texts_replaced sample_diff (CDict sample_after)" "wf_config (CDict sample_after)"
    by (simp_all add: sample_diff_def sample_after_def at_key_def)
  note spec = create_config_to_load_spec[OF sample_is_diff this sample_created]
  show ?thesis
    by (rule exI, intro conjI, rule sample_created, rule spec)
      (simp_all add: seen_def sample_after_def seen_CList loadable_defs)
qed

theorem replacements_are_lost_witness:
  "create_config_to_load (DTree [DKey ''VLAN'' (DTree [DKey ''Vlan100'' (DTree [DKey ''members'' DReplaced])])])
     [(''VLAN'', CDict [(''Vlan100'', CDict [(''members'', CList [''Ethernet0'', ''Ethernet4''])])])]
     [(''VLAN'', CDict [(''Vlan100'', CDict [(''members'', CList [''Ethernet8'', ''Ethernet12''])])])] = Inr (CDict [])"
proof -
  let ?create = "create_config_to_load (DTree [DKey ''VLAN'' (DTree [DKey ''Vlan100'' (DTree [DKey ''members'' DReplaced])])])
     [(''VLAN'', CDict [(''Vlan100'', CDict [(''members'', CList [''Ethernet0'', ''Ethernet4''])])])]
     [(''VLAN'', CDict [(''Vlan100'', CDict [(''members'', CList [''Ethernet8'', ''Ethernet12''])])])]"
  obtain c where c: "?create = Inr c"
    by (simp add: create_config_to_load_def at_key_def assign_def delete_key_def replaced_def at_index_def walk_side_def marks_def
        to_lower_def char_of_def bit_0)
  moreover have "c = CDict []" by (rule replacements_are_lost[OF _ c]) simp
  ultimately show ?thesis by simp
qed

end
