(* ===== verification/PortBreakout.thy ===== *)
theory PortBreakout
  imports ConfigDelta
begin

text \<open>
  Dynamic port breakout (\<open>config/config_mgmt.py\<close>, \<open>ConfigMgmt\<close> and \<open>ConfigMgmtDPB\<close>): ports are deleted and others added,
  first on the tree of \<open>sonic_yang\<close>, where the result is validated, then in the database. The tree, the
  difference of \<open>jsondiff\<close>, the databases and the conversions of \<open>sonic-cfggen\<close> are parameters (\<open>yang_tree\<close>,
  \<open>dpb_env\<close>). An object is used for one breakout: its state is followed as far as the breakout succeeds.
\<close>

section \<open>The manager\<close>

text \<open>\<open>yt_load\<close> crops the dictionary it is given: it yields the tree and what is left of the dictionary.\<close>

record 's yang_tree =
  yt_load :: "'s \<Rightarrow> configs \<Rightarrow> err + 's \<times> configs"
  yt_valid :: "'s \<Rightarrow> bool"
  yt_data :: "'s \<Rightarrow> err + configs"
  yt_without_yang :: "'s \<Rightarrow> string list"
  yt_delete :: "'s \<Rightarrow> string \<Rightarrow> err + 's"
  yt_port_leaf :: "'s \<Rightarrow> string \<Rightarrow> err + string"
  yt_port :: "'s \<Rightarrow> string \<Rightarrow> err + string"
  yt_deps :: "'s \<Rightarrow> string \<Rightarrow> err + string list"

record 's config_mgmt =
  allowTablesWithoutYang :: bool
  configdbJsonIn :: configs
  configdbJsonOut :: "configs option"
  sy :: 's

record ('s, 'w) dpb_env =
  yang :: "'s yang_tree"
  json_diff :: "configs \<Rightarrow> configs \<Rightarrow> err + cdiff"
  read_json :: "string \<Rightarrow> err + configs"
  read_config_db :: "'w \<Rightarrow> err + configs"
  write_config :: "config \<Rightarrow> ('w, err, unit) act"
  interface_oid_map :: "('w, err, (string \<times> string) list) act"
  asic_connect :: "('w, err, unit) act"
  asic_exists :: "string \<Rightarrow> ('w, err, bool) act"
  sleep1 :: "'w \<Rightarrow> 'w"

definition load_data :: "('s, 'w) dpb_env \<Rightarrow> 's config_mgmt \<Rightarrow> configs \<Rightarrow> err + 's config_mgmt \<times> configs" where
  "load_data E M d =
     rbind (yt_load (yang E) (sy M) d) (\<lambda>(s, d).
     if \<not> allowTablesWithoutYang M \<and> yt_without_yang (yang E) s \<noteq> [] then Inl PyException
     else Inr (M\<lparr>sy := s\<rparr>, d))"

definition read_source :: "('s, 'w) dpb_env \<Rightarrow> string \<Rightarrow> 'w \<Rightarrow> err + configs" where
  "read_source E source w =
     (if to_lower source = ''configdb'' then read_config_db E w
      else rbind (read_json E source) (\<lambda>d. if d = [] then Inl PyException else Inr d))"

text \<open>The constructor; \<open>s0\<close> is the tree with the models loaded.\<close>

definition config_mgmt_init :: "('s, 'w) dpb_env \<Rightarrow> 's \<Rightarrow> string \<Rightarrow> bool \<Rightarrow> 'w \<Rightarrow> err + 's config_mgmt" where
  "config_mgmt_init E s0 source allow w =
     (case rbind (read_source E source w) (\<lambda>d.
        load_data E \<lparr>allowTablesWithoutYang = allow, configdbJsonIn = d, configdbJsonOut = None, sy = s0\<rparr> d) of
        Inl _ \<Rightarrow> Inl PyException | Inr (M, d) \<Rightarrow> Inr (M\<lparr>configdbJsonIn := d\<rparr>))"

definition validate_config_data :: "('s, 'w) dpb_env \<Rightarrow> 's config_mgmt \<Rightarrow> bool" where
  "validate_config_data E M = yt_valid (yang E) (sy M)"

definition update_diff_config_db :: "('s, 'w) dpb_env \<Rightarrow> configs \<Rightarrow> configs \<Rightarrow> err + config" where
  "update_diff_config_db E inp outp = rbind (json_diff E inp outp) (\<lambda>d. create_config_to_load d inp outp)"

section \<open>Deleting ports\<close>

text \<open>The dependencies found so far are returned even when one of the searches raises.\<close>

fun find_deps :: "'s yang_tree \<Rightarrow> 's \<Rightarrow> string list \<Rightarrow> string list \<Rightarrow> (err + unit) \<times> string list" where
  "find_deps Y s [] deps = (Inr (), deps)"
| "find_deps Y s (port # ports) deps = (case rbind (yt_port_leaf Y s port) (yt_deps Y s) of
     Inl e \<Rightarrow> (Inl e, deps)
   | Inr dep \<Rightarrow> find_deps Y s ports (deps @ dep))"

definition delete_port :: "'s yang_tree \<Rightarrow> 's \<Rightarrow> string \<Rightarrow> err + 's" where
  "delete_port Y s port = rbind (yt_port Y s port) (yt_delete Y s)"

text \<open>Once the dependencies are gone: delete the ports, validate the tree, and create what is to be written.\<close>

definition deletion_plan ::
    "('s, 'w) dpb_env \<Rightarrow> 's config_mgmt \<Rightarrow> 's \<Rightarrow> string list \<Rightarrow> err + 's config_mgmt \<times> config" where
  "deletion_plan E M s ports =
     rbind (rfoldM (delete_port (yang E)) s ports) (\<lambda>s.
     if \<not> yt_valid (yang E) s then Inl PyException
     else rbind (yt_data (yang E) s) (\<lambda>out.
       rbind (update_diff_config_db E (configdbJsonIn M) out) (\<lambda>c.
       Inr (M\<lparr>sy := s, configdbJsonOut := Some out\<rparr>, c))))"

text \<open>The triple of the source: \<open>Inl deps\<close> for no configuration, these dependencies and \<open>False\<close>; \<open>Inr\<close> for a
  configuration, no dependencies and \<open>True\<close>.\<close>

definition delete_ports ::
    "('s, 'w) dpb_env \<Rightarrow> 's config_mgmt \<Rightarrow> string list \<Rightarrow> bool \<Rightarrow> string list option + 's config_mgmt \<times> config" where
  "delete_ports E M ports force = (case find_deps (yang E) (sy M) ports [] of
     (Inl _, deps) \<Rightarrow> Inl (Some deps)
   | (Inr _, deps) \<Rightarrow>
       if \<not> force \<and> deps \<noteq> [] then Inl (Some deps)
       else (case rfoldM (yt_delete (yang E)) (sy M) deps of
           Inl _ \<Rightarrow> Inl (Some deps)
         | Inr s \<Rightarrow> (case deletion_plan E M s ports of Inl _ \<Rightarrow> Inl None | Inr r \<Rightarrow> Inr r)))"

section \<open>Adding ports\<close>

definition port_table :: "configs \<Rightarrow> err + configs" where
  "port_table c = (case map_of c ''PORT'' of
     None \<Rightarrow> Inl KeyError
   | Some (CDict d) \<Rightarrow> Inr d
   | Some _ \<Rightarrow> Inl AttributeError)"

definition default_config_file :: string where
  "default_config_file = ''/etc/sonic/port_breakout_config_db.json''"

definition get_default_config :: "('s, 'w) dpb_env \<Rightarrow> string list \<Rightarrow> err + configs" where
  "get_default_config E ports = rbind (read_json E default_config_file) (\<lambda>d. Inr (fst (search_entries ports d)))"

text \<open>The configuration with the ports added, and the defaults for them merged in.\<close>

definition with_ports :: "configs \<Rightarrow> configs \<Rightarrow> configs option \<Rightarrow> err + configs" where
  "with_ports out new defaults =
     rbind (port_table out) (\<lambda>old.
     let out = AList.update ''PORT'' (CDict (dict_merge old new)) out in
     case defaults of None \<Rightarrow> Inr out | Some d \<Rightarrow> mergeConfigs out d True)"

definition addition_plan ::
    "('s, 'w) dpb_env \<Rightarrow> 's config_mgmt \<Rightarrow> configs \<Rightarrow> bool \<Rightarrow> err + 's config_mgmt \<times> config" where
  "addition_plan E M new loadDefConfig =
     rbind (if loadDefConfig then rbind (get_default_config E (map fst new)) (\<lambda>d. Inr (Some d)) else Inr None) (\<lambda>defaults.
     rbind (yt_data (yang E) (sy M)) (\<lambda>inp.
     rbind (case configdbJsonOut M of None \<Rightarrow> yt_data (yang E) (sy M) | Some out \<Rightarrow> Inr out) (\<lambda>out.
     rbind (with_ports out new defaults) (\<lambda>out.
     rbind (yt_load (yang E) (sy M) out) (\<lambda>(s, out).
     let M = M\<lparr>configdbJsonIn := inp, configdbJsonOut := Some out, sy := s\<rparr> in
     if \<not> validate_config_data E M then Inl PyException
     else rbind (update_diff_config_db E inp out) (\<lambda>c. Inr (M, c)))))))"

text \<open>\<open>None\<close> for no configuration and \<open>False\<close>; the table of the new ports is read before the handler is set up.\<close>

definition add_ports ::
    "('s, 'w) dpb_env \<Rightarrow> 's config_mgmt \<Rightarrow> configs \<Rightarrow> bool \<Rightarrow> err + ('s config_mgmt \<times> config) option" where
  "add_ports E M portJson loadDefConfig =
     rbind (port_table portJson) (\<lambda>new.
     Inr (case addition_plan E M new loadDefConfig of Inl _ \<Rightarrow> None | Inr r \<Rightarrow> Some r))"

section \<open>The databases\<close>

definition act_catch :: "'a \<Rightarrow> ('w, err, 'a) act \<Rightarrow> ('w, err, 'a) act" where
  "act_catch a m w = (case m w of (Inl _, v) \<Rightarrow> (Inr a, v) | (Inr b, v) \<Rightarrow> (Inr b, v))"

definition shutdown_conf :: "string list \<Rightarrow> config" where
  "shutdown_conf ports =
     CDict [(''PORT'', CDict (foldl (\<lambda>d p. AList.update p (CDict [(''admin_status'', CStr ''down'')]) d) [] ports))]"

definition shutdown_intf :: "('s, 'w) dpb_env \<Rightarrow> string list \<Rightarrow> ('w, err, unit) act" where
  "shutdown_intf E ports = (if ports = [] then act_return () else write_config E (shutdown_conf ports))"

definition oid_key :: string where
  "oid_key = ''ASIC_STATE:SAI_OBJECT_TYPE_PORT:oid:0x''"

fun no_ports :: "('s, 'w) dpb_env \<Rightarrow> (string \<times> string) list \<Rightarrow> string list \<Rightarrow> ('w, err, bool) act" where
  "no_ports E portMap [] = act_return True"
| "no_ports E portMap (port # ports) = (case map_of portMap port of
     None \<Rightarrow> act_of (Inl KeyError)
   | Some oid \<Rightarrow> act_bind (asic_exists E (oid_key @ oid)) (\<lambda>b.
       if b then act_return False else no_ports E portMap ports))"

definition check_no_ports_in_asic_db ::
    "('s, 'w) dpb_env \<Rightarrow> (string \<times> string) list \<Rightarrow> string list \<Rightarrow> ('w, err, bool) act" where
  "check_no_ports_in_asic_db E portMap ports =
     act_catch False (act_bind (asic_connect E) (\<lambda>_. no_ports E portMap ports))"

text \<open>The loop over \<open>range(timeout)\<close>, with the value its variable has at the end.\<close>

fun wait_ports ::
    "('s, 'w) dpb_env \<Rightarrow> (string \<times> string) list \<Rightarrow> string list \<Rightarrow> nat list \<Rightarrow> nat option \<Rightarrow> ('w, err, nat option) act" where
  "wait_ports E portMap ports [] waitTime = act_return waitTime"
| "wait_ports E portMap ports (t # ts) waitTime =
     act_bind (check_no_ports_in_asic_db E portMap ports) (\<lambda>b.
     if b then act_return (Some t)
     else act_bind (act_do (sleep1 E)) (\<lambda>_. wait_ports E portMap ports ts (Some t)))"

definition verify_asic_db ::
    "('s, 'w) dpb_env \<Rightarrow> string list \<Rightarrow> (string \<times> string) list \<Rightarrow> nat \<Rightarrow> ('w, err, bool) act" where
  "verify_asic_db E ports portMap timeout =
     act_bind (wait_ports E portMap ports [0..<timeout] None) (\<lambda>waitTime. case waitTime of
       None \<Rightarrow> act_of (Inl NameError)
     | Some t \<Rightarrow> if t + 1 = timeout then act_of (Inl PyException) else act_return True)"

definition MAX_WAIT :: nat where "MAX_WAIT = 60"

text \<open>Once both plans are made: shut the ports down, write the deletion, wait, and write the addition.\<close>

definition carry_out :: "('s, 'w) dpb_env \<Rightarrow> string list \<Rightarrow> config \<Rightarrow> config \<Rightarrow> ('w, err, string list option \<times> bool) act" where
  "carry_out E delPorts delConfigToLoad addConfigtoLoad =
     act_bind (interface_oid_map E) (\<lambda>if_name_map.
     act_bind (shutdown_intf E delPorts) (\<lambda>_.
     act_bind (write_config E delConfigToLoad) (\<lambda>_.
     act_bind (verify_asic_db E delPorts if_name_map MAX_WAIT) (\<lambda>_.
     act_bind (write_config E addConfigtoLoad) (\<lambda>_.
     act_return (None, True))))))"

definition break_out_port ::
    "('s, 'w) dpb_env \<Rightarrow> 's config_mgmt \<Rightarrow> string list \<Rightarrow> configs \<Rightarrow> bool \<Rightarrow> bool \<Rightarrow> ('w, err, string list option \<times> bool) act" where
  "break_out_port E M delPorts portJson force loadDefConfig =
     act_catch (None, False) (case delete_ports E M delPorts force of
       Inl deps \<Rightarrow> act_return (deps, False)
     | Inr (M, delConfigToLoad) \<Rightarrow>
         act_bind (act_of (add_ports E M portJson loadDefConfig)) (\<lambda>added. case added of
           None \<Rightarrow> act_return (None, False)
         | Some (M, addConfigtoLoad) \<Rightarrow> carry_out E delPorts delConfigToLoad addConfigtoLoad))"

section \<open>Modules\<close>

text \<open>
  The files of the YANG directory by module name, and the tree. \<open>reload\<close> is \<open>__init_sonic_yang\<close> on a directory: its
  outcome, and the tree it leaves in the object even when it raises.
\<close>

record 's module_host =
  yang_files :: "(string \<times> string) list"
  tree :: 's

definition add_module ::
    "(string \<Rightarrow> err + string) \<Rightarrow> ((string \<times> string) list \<Rightarrow> (err + unit) \<times> 's) \<Rightarrow> string \<Rightarrow> ('s module_host, err, unit) act" where
  "add_module get_name reload yang_module_str h = (case get_name yang_module_str of
     Inl e \<Rightarrow> (Inl e, h)
   | Inr name \<Rightarrow>
       if map_of (yang_files h) name \<noteq> None then (Inl PyException, h)
       else (let files = AList.update name yang_module_str (yang_files h) in
         case reload files of
           (Inr _, s) \<Rightarrow> (Inr (), \<lparr>yang_files = files, tree = s\<rparr>)
         | (Inl e, s) \<Rightarrow> (Inl e, \<lparr>yang_files = AList.delete name files, tree = s\<rparr>)))"

definition remove_module :: "((string \<times> string) list \<Rightarrow> (err + unit) \<times> 's) \<Rightarrow> string \<Rightarrow> ('s module_host, err, unit) act" where
  "remove_module reload name h = (case map_of (yang_files h) name of
     None \<Rightarrow> (Inr (), h)
   | Some text \<Rightarrow> (let files = AList.delete name (yang_files h) in
       case reload files of
         (Inr _, s) \<Rightarrow> (Inr (), \<lparr>yang_files = files, tree = s\<rparr>)
       | (Inl e, s) \<Rightarrow> (Inl e, \<lparr>yang_files = AList.update name text files, tree = s\<rparr>)))"

text \<open>Adding and removing a module change the directory exactly when they succeed: one that raises has restored
  every file.\<close>

theorem modules_restored:
  "map_of (yang_files (snd (add_module get_name reload text h))) =
      (case (get_name text, fst (add_module get_name reload text h)) of
         (Inr name, Inr _) \<Rightarrow> (map_of (yang_files h))(name \<mapsto> text)
       | _ \<Rightarrow> map_of (yang_files h)) \<and>
   map_of (yang_files (snd (remove_module reload name h))) =
      (if fst (remove_module reload name h) = Inr () then (map_of (yang_files h))(name := None) else map_of (yang_files h))"
  by (rule conjI)
    (auto simp: add_module_def remove_module_def Let_def fun_eq_iff update_conv' delete_conv' split: sum.splits prod.splits option.splits)

section \<open>Waiting for the ports to disappear\<close>

text \<open>The world after \<open>n\<close> rounds of a check and a second of sleep, and what the check of the next round says.\<close>

fun after_rounds :: "('s, 'w) dpb_env \<Rightarrow> (string \<times> string) list \<Rightarrow> string list \<Rightarrow> nat \<Rightarrow> 'w \<Rightarrow> 'w" where
  "after_rounds E portMap ports 0 w = w"
| "after_rounds E portMap ports (Suc n) w =
     sleep1 E (snd (check_no_ports_in_asic_db E portMap ports (after_rounds E portMap ports n w)))"

definition gone_at :: "('s, 'w) dpb_env \<Rightarrow> (string \<times> string) list \<Rightarrow> string list \<Rightarrow> 'w \<Rightarrow> nat \<Rightarrow> bool" where
  "gone_at E portMap ports w n \<longleftrightarrow>
     fst (check_no_ports_in_asic_db E portMap ports (after_rounds E portMap ports n w)) = Inr True"

lemma act_catch_Inr: obtains b v where "act_catch a m w = (Inr b, v)"
  by (cases "m w"; cases "fst (m w)") (auto simp: act_catch_def)

lemma wait_ports_spec:
  "fst (wait_ports E portMap ports [n..<T] t0 (after_rounds E portMap ports n w)) = Inr
     (if \<exists>m. n \<le> m \<and> m < T \<and> gone_at E portMap ports w m then Some (LEAST m. n \<le> m \<and> gone_at E portMap ports w m)
      else if n < T then Some (T - 1) else t0)"
proof (induction "T - n" arbitrary: n t0)
  case (Suc k)
  then have n: "n < T" and k: "k = T - Suc n" by simp_all
  let ?w = "after_rounds E portMap ports n w" and ?gone = "gone_at E portMap ports w"
  obtain b v where check: "check_no_ports_in_asic_db E portMap ports ?w = (Inr b, v)"
    unfolding check_no_ports_in_asic_db_def by (rule act_catch_Inr)
  then have b: "b \<longleftrightarrow> ?gone n" and v: "sleep1 E v = after_rounds E portMap ports (Suc n) w" by (simp_all add: gone_at_def)
  have upt: "[n..<T] = n # [Suc n..<T]" using n by (rule upt_conv_Cons)
  show ?case
  proof (cases "?gone n")
    case True
    then have "(LEAST m. n \<le> m \<and> ?gone m) = n" by (intro Least_equality) auto
    with True b check n show ?thesis by (auto simp: upt act_bind_def act_return_def)
  next
    case False
    then have later: "n \<le> m \<and> ?gone m \<longleftrightarrow> Suc n \<le> m \<and> ?gone m" for m by (cases "n = m") auto
    have ex: "(\<exists>m. n \<le> m \<and> m < T \<and> ?gone m) \<longleftrightarrow> (\<exists>m. Suc n \<le> m \<and> m < T \<and> ?gone m)" using later by blast
    have tail: "(if Suc n < T then Some (T - 1) else Some n) = Some (T - 1)" using n by auto
    have "fst (wait_ports E portMap ports [n..<T] t0 ?w) =
        fst (wait_ports E portMap ports [Suc n..<T] (Some n) (after_rounds E portMap ports (Suc n) w))"
      using False b check v by (simp add: upt act_bind_def act_do_def)
    also have "\<dots> = Inr (if \<exists>m. Suc n \<le> m \<and> m < T \<and> ?gone m then Some (LEAST m. Suc n \<le> m \<and> ?gone m) else Some (T - 1))"
      unfolding Suc.hyps(1)[OF k, of "Some n"] tail ..
    finally show ?thesis using n by (simp only: ex later if_True)
  qed
qed (auto simp: act_return_def)

text \<open>C31. Verifying that the ports are gone: of the \<open>timeout\<close> checks the last one counts as a failure whatever it
  says, and without any check the function raises.\<close>

theorem verify_asic_db_spec:
  "fst (verify_asic_db E ports portMap timeout w) =
     (if timeout = 0 then Inl NameError
      else if \<exists>n. n + 1 < timeout \<and> gone_at E portMap ports w n then Inr True
      else Inl PyException)"
proof -
  let ?gone = "gone_at E portMap ports w"
  obtain r v where run: "wait_ports E portMap ports [0..<timeout] None w = (r, v)" by fastforce
  have r: "r = Inr (if \<exists>m. m < timeout \<and> ?gone m then Some (LEAST m. ?gone m) else if 0 < timeout then Some (timeout - 1) else None)"
    using wait_ports_spec[of E portMap ports 0 timeout None w] by (simp only: run after_rounds.simps fst_conv zero_le simp_thms)
  have "fst (verify_asic_db E ports portMap timeout w) = (case r of Inl e \<Rightarrow> Inl e | Inr None \<Rightarrow> Inl NameError
      | Inr (Some t) \<Rightarrow> if t + 1 = timeout then Inl PyException else Inr True)"
    by (simp add: verify_asic_db_def act_bind_def run act_of_def act_return_def split: sum.split option.split)
  moreover have "(LEAST m. ?gone m) + 1 = timeout \<longleftrightarrow> \<not> (\<exists>n. n + 1 < timeout \<and> ?gone n)" if "m < timeout" "?gone m" for m
    using that LeastI[of ?gone m] Least_le[of ?gone] by (metis add.commute le_less_trans less_antisym not_less_Least plus_1_eq_Suc Suc_lessI not_less_eq)
  moreover have "m < timeout" if "m + 1 < timeout" for m using that by simp
  ultimately show ?thesis unfolding r by auto
qed

section \<open>A breakout\<close>

lemma act_catch_iff:
  "act_catch a m w = (Inr b, v) \<longleftrightarrow> m w = (Inr b, v) \<or> ((\<exists>e. m w = (Inl e, v)) \<and> b = a)"
  by (auto simp: act_catch_def split: prod.splits sum.splits)

text \<open>The two plans of a breakout: what is validated before anything is written.\<close>

definition planned ::
    "('s, 'w) dpb_env \<Rightarrow> 's config_mgmt \<Rightarrow> string list \<Rightarrow> configs \<Rightarrow> bool \<Rightarrow> bool \<Rightarrow>
       's config_mgmt \<Rightarrow> config \<Rightarrow> 's config_mgmt \<Rightarrow> config \<Rightarrow> bool" where
  "planned E M ports portJson force loadDef M1 del M2 add \<longleftrightarrow>
     delete_ports E M ports force = Inr (M1, del) \<and> add_ports E M1 portJson loadDef = Inr (Some (M2, add))"

lemma deletion_plan_Inr:
  assumes "deletion_plan E M s ports = Inr (M1, del)"
  shows "yt_valid (yang E) (sy M1) \<and> (\<exists>out. yt_data (yang E) (sy M1) = Inr out \<and> configdbJsonOut M1 = Some out \<and>
    update_diff_config_db E (configdbJsonIn M) out = Inr del)"
  using assms by (auto simp: deletion_plan_def rbind_eq_Inr split: if_splits)

lemma addition_plan_Inr:
  assumes "addition_plan E M new loadDef = Inr (M2, add)"
  obtains defaults inp out s out' where "if loadDef then \<exists>d. get_default_config E (map fst new) = Inr d \<and> defaults = Some d else defaults = None"
    "yt_data (yang E) (sy M) = Inr inp" "with_ports (case configdbJsonOut M of None \<Rightarrow> inp | Some out \<Rightarrow> out) new defaults = Inr out"
    "yt_load (yang E) (sy M) out = Inr (s, out')" "M2 = M\<lparr>configdbJsonIn := inp, configdbJsonOut := Some out', sy := s\<rparr>"
    "yt_valid (yang E) s" "update_diff_config_db E inp out' = Inr add"
  using assms
  by (cases loadDef; cases "configdbJsonOut M")
    (auto simp: addition_plan_def validate_config_data_def Let_def rbind_eq_Inr split: if_splits)

lemma delete_ports_Inr:
  assumes "delete_ports E M ports force = Inr r"
  obtains s where "deletion_plan E M s ports = Inr r"
  using assms by (auto simp: delete_ports_def split: prod.splits sum.splits unit.splits if_splits)

lemma add_ports_Inr:
  assumes "add_ports E M portJson loadDef = Inr (Some r)"
  obtains new where "port_table portJson = Inr new" "addition_plan E M new loadDef = Inr r"
proof -
  obtain new where "port_table portJson = Inr new" "(case addition_plan E M new loadDef of Inl _ \<Rightarrow> None | Inr r \<Rightarrow> Some r) = Some r"
    using assms by (auto simp: add_ports_def rbind_eq_Inr)
  with that show ?thesis by (cases "addition_plan E M new loadDef") auto
qed

lemma break_out_port_plan:
  assumes "break_out_port E M ports portJson force loadDef w = (r, w')" and "w' \<noteq> w \<or> r = Inr (None, True)"
  obtains M1 del M2 add where "planned E M ports portJson force loadDef M1 del M2 add"
proof (cases "delete_ports E M ports force")
  case (Inl deps)
  with assms show ?thesis by (simp add: break_out_port_def act_catch_def act_return_def)
next
  case (Inr r1)
  obtain M1 del where r1: "r1 = (M1, del)" by fastforce
  have run: "break_out_port E M ports portJson force loadDef = act_catch (None, False)
      (act_bind (act_of (add_ports E M1 portJson loadDef)) (\<lambda>added. case added of
         None \<Rightarrow> act_return (None, False) | Some (M, add) \<Rightarrow> carry_out E ports del add))"
    by (simp add: break_out_port_def Inr r1)
  show ?thesis
  proof (cases "add_ports E M1 portJson loadDef")
    case (Inl e)
    with assms show ?thesis by (simp add: run act_catch_def act_of_def)
  next
    case added: (Inr r2)
    show ?thesis
    proof (cases r2)
      case None
      with added assms show ?thesis by (simp add: run act_catch_def act_return_def)
    next
      case (Some x)
      with added Inr r1 show ?thesis by (cases x) (auto simp: planned_def intro: that)
    qed
  qed
qed

text \<open>C14. Nothing is written unless both the configuration without the old ports and the one with the new ports have been
  validated; the function itself never raises.\<close>

theorem breakout_writes_validated:
  assumes "break_out_port E M ports portJson force loadDef w = (r, w')"
  shows "(\<exists>deps b. r = Inr (deps, b)) \<and> (w' \<noteq> w \<or> r = Inr (None, True) \<longrightarrow>
    (\<exists>M1 del M2 add. planned E M ports portJson force loadDef M1 del M2 add \<and>
       yt_valid (yang E) (sy M1) \<and> yt_valid (yang E) (sy M2)))"
proof (intro conjI impI)
  show "\<exists>deps b. r = Inr (deps, b)"
  proof -
    obtain x v where "break_out_port E M ports portJson force loadDef w = (Inr x, v)"
      unfolding break_out_port_def by (rule act_catch_Inr)
    with assms show ?thesis by (cases x) auto
  qed
  assume "w' \<noteq> w \<or> r = Inr (None, True)"
  with assms obtain M1 del M2 add where plan: "planned E M ports portJson force loadDef M1 del M2 add"
    by (rule break_out_port_plan)
  then have 1: "delete_ports E M ports force = Inr (M1, del)" and 2: "add_ports E M1 portJson loadDef = Inr (Some (M2, add))"
    by (simp_all add: planned_def)
  from 1 obtain s where "deletion_plan E M s ports = Inr (M1, del)" by (rule delete_ports_Inr)
  then have "yt_valid (yang E) (sy M1)" by (rule deletion_plan_Inr[THEN conjunct1])
  moreover from 2 obtain new where "addition_plan E M1 new loadDef = Inr (M2, add)" by (rule add_ports_Inr)
  then have "yt_valid (yang E) (sy M2)" by (rule addition_plan_Inr) simp
  ultimately
  show "\<exists>M1 del M2 add. planned E M ports portJson force loadDef M1 del M2 add \<and>
     yt_valid (yang E) (sy M1) \<and> yt_valid (yang E) (sy M2)" using plan by blast
qed

text \<open>Without \<open>force\<close>, ports on which something depends are not deleted: all their dependencies are returned, and
  nothing is written.\<close>

theorem dependencies_returned:
  assumes "find_deps (yang E) (sy M) ports [] = (Inr (), deps)" and "deps \<noteq> []"
  shows "break_out_port E M ports portJson False loadDef w = (Inr (Some deps, False), w)"
  using assms by (simp add: break_out_port_def delete_ports_def act_catch_def act_return_def)

section \<open>What a breakout leaves in the database\<close>

text \<open>
  \<open>view w\<close>: the configuration database as a configuration. \<open>dpb_ok\<close>: \<open>jsondiff\<close> describes the difference of its
  arguments, the tree yields dictionaries, \<open>mod_config\<close> on a configuration of the documented form (\<open>loadable\<close>) gives
  what is covered the value given and keeps the rest, and looking at the ASIC database or sleeping changes
  nothing. Of a configuration in any other form nothing is said.
\<close>

definition dpb_ok :: "('s, 'w) dpb_env \<Rightarrow> ('w \<Rightarrow> config) \<Rightarrow> bool" where
  "dpb_ok E view \<longleftrightarrow>
     (\<forall>a b d. json_diff E a b = Inr d \<longrightarrow> is_diff d (CDict a) (CDict b)) \<and>
     (\<forall>s d. yt_data (yang E) s = Inr d \<longrightarrow> wf_config (CDict d)) \<and>
     (\<forall>c w v. loadable c \<longrightarrow> write_config E c w = (Inr (), v) \<longrightarrow> loads_as c (view w) (view v)) \<and>
     keeps view (interface_oid_map E) \<and> keeps view (asic_connect E) \<and> (\<forall>k. keeps view (asic_exists E k)) \<and>
     (\<forall>w. view (sleep1 E w) = view w)"

lemma dpb_okD:
  assumes "dpb_ok E view"
  shows "json_diff E a b = Inr d \<Longrightarrow> is_diff d (CDict a) (CDict b)"
    "yt_data (yang E) s = Inr e \<Longrightarrow> wf_config (CDict e)"
    "loadable c \<Longrightarrow> write_config E c w = (Inr (), v) \<Longrightarrow> loads_as c (view w) (view v)"
    "keeps view (interface_oid_map E)" "keeps view (asic_connect E)" "keeps view (asic_exists E k)" "view (sleep1 E w) = view w"
  using assms unfolding dpb_ok_def by (blast, blast, blast, blast, blast, blast, blast)

lemma views_catch: "keeps view m \<Longrightarrow> keeps view (act_catch a m)"
  by (simp add: keeps_def act_catch_def split: prod.splits sum.splits) (metis snd_conv)

lemma keeps_no_ports: "dpb_ok E view \<Longrightarrow> keeps view (no_ports E portMap ports)"
  by (induction ports) (auto intro!: keeps_return keeps_of keeps_bind dpb_okD(6) split: option.split)

lemma keeps_wait_ports: "dpb_ok E view \<Longrightarrow> keeps view (wait_ports E portMap ports ts t)"
proof (induction ts arbitrary: t)
  case (Cons u ts)
  have "keeps view (act_do (sleep1 E))" using dpb_okD(7)[OF Cons.prems] by (simp add: keeps_def act_do_def)
  then show ?case
    using Cons.IH[OF Cons.prems] dpb_okD(5)[OF Cons.prems] keeps_no_ports[OF Cons.prems]
    by (auto simp: check_no_ports_in_asic_db_def intro!: keeps_bind keeps_return keeps_of views_catch)
qed (simp add: keeps_return keeps_of)

lemma keeps_verify: "dpb_ok E view \<Longrightarrow> keeps view (verify_asic_db E ports portMap n)"
  unfolding verify_asic_db_def by (intro keeps_bind keeps_wait_ports) (auto intro!: keeps_return keeps_of split: option.split)

lemma map_of_ports: "map_of (foldl (\<lambda>d p. AList.update p x d) d ports) k = (if k \<in> set ports then Some x else map_of d k)"
  by (induction ports arbitrary: d) (auto simp: update_conv')

lemma distinct_ports: "distinct (map fst d) \<Longrightarrow> distinct (map fst (foldl (\<lambda>d p. AList.update p x d) d ports))"
  by (induction ports arbitrary: d) (auto simp: distinct_update)

lemma loadable_shutdown: "ports \<noteq> [] \<Longrightarrow> loadable (shutdown_conf ports)"
proof -
  assume "ports \<noteq> []"
  let ?x = "CDict [(''admin_status'', CStr ''down'')]"
  let ?d = "foldl (\<lambda>d p. AList.update p ?x d) [] ports"
  have "e = ?x" if "(k, e) \<in> set ?d" for k e
    using map_of_is_SomeI[OF distinct_ports[of "[]" ?x ports] that] by (auto simp: map_of_ports split: if_splits)
  then have "list_all (\<lambda>(_, e). loadable_row e) ?d" by (fastforce simp: list_all_iff loadable_defs)
  moreover have "?d \<noteq> []" using map_of_ports[of ?x "[]" ports "hd ports"] \<open>ports \<noteq> []\<close> by auto
  ultimately show ?thesis by (simp add: shutdown_conf_def loadable_def loadable_table_def)
qed

text \<open>Below a port that is shut down is the only place where the shutdown is seen.\<close>

lemma shutdown_covers:
  assumes "covers (shutdown_conf ports) q"
  shows "q = [] \<or> q = [''PORT''] \<or> (\<exists>p \<in> set ports. \<exists>r. q = ''PORT'' # p # r)"
proof (cases q rule: remdups_adj.cases)
  case (2 x)
  with assms show ?thesis by (auto simp: shutdown_conf_def split: if_splits)
next
  case (3 x y r)
  with assms show ?thesis by (auto simp: shutdown_conf_def map_of_ports split: if_splits)
qed simp

lemma carry_out_view:
  assumes "dpb_ok E view" and "carry_out E ports del add w = (Inr x, w')" and "loadable del" and "loadable add"
  shows "seen (view w') q = (if covers add q then seen add q else if covers del q then seen del q
    else if ports \<noteq> [] \<and> covers (shutdown_conf ports) q then seen (shutdown_conf ports) q else seen (view w) q)"
proof -
  note ok = assms(1)
  from assms(2) obtain m w1 w2 w3 b w4 where run: "interface_oid_map E w = (Inr m, w1)" "shutdown_intf E ports w1 = (Inr (), w2)"
      "write_config E del w2 = (Inr (), w3)" "verify_asic_db E ports m MAX_WAIT w3 = (Inr b, w4)" "write_config E add w4 = (Inr (), w')"
    by (auto simp: carry_out_def act_simps)
  have 1: "view w1 = view w" using dpb_okD(4)[OF ok] run(1) by (rule keepsD)
  have 2: "seen (view w2) q = (if ports \<noteq> [] \<and> covers (shutdown_conf ports) q then seen (shutdown_conf ports) q else seen (view w) q)"
  proof (cases "ports = []")
    case True
    with run(2) 1 show ?thesis by (simp add: shutdown_intf_def act_simps)
  next
    case False
    with run(2) have "write_config E (shutdown_conf ports) w1 = (Inr (), w2)" by (simp add: shutdown_intf_def)
    from loads_asD[OF dpb_okD(3)[OF ok loadable_shutdown[OF False] this], of q] False show ?thesis by (simp add: 1)
  qed
  have 4: "view w4 = view w3" using keeps_verify[OF ok] run(4) by (rule keepsD)
  show ?thesis
    unfolding loads_asD[OF dpb_okD(3)[OF ok assms(4) run(5)]] 4 loads_asD[OF dpb_okD(3)[OF ok assms(3) run(3)]] 2 ..
qed

text \<open>
  A plain step from one configuration to another: the second is well-formed, nothing but texts is replaced as a
  whole (\<open>_createConfigToLoad\<close> does not raise only where these differ in case), and what is created for
  \<open>mod_config\<close> has the form the connector documents; so no single text field of a row that stays is deleted.
\<close>

definition plain_step :: "('s, 'w) dpb_env \<Rightarrow> configs \<Rightarrow> configs \<Rightarrow> bool" where
  "plain_step E inp outp \<longleftrightarrow> wf_config (CDict outp) \<and> (\<forall>d. json_diff E inp outp = Inr d \<longrightarrow> texts_replaced d (CDict outp)) \<and>
     (\<forall>c. update_diff_config_db E inp outp = Inr c \<longrightarrow> loadable c)"

lemma plain_step_loads:
  assumes "dpb_ok E view" and "plain_step E inp outp" and "update_diff_config_db E inp outp = Inr c"
  shows "loadable c" and "(if covers c q then seen c q else seen (CDict inp) q) = seen (CDict outp) q"
    and "seen_text (CDict inp) [tab, k, f] \<noteq> None \<Longrightarrow> value_at (CDict outp) [tab, k] = None \<Longrightarrow> covers c (tab # k # r)"
proof -
  obtain d where d: "json_diff E inp outp = Inr d" "create_config_to_load d inp outp = Inr c"
    using assms(3) by (auto simp: update_diff_config_db_def rbind_eq_Inr)
  have diff: "is_diff d (CDict inp) (CDict outp)" using assms(1) d(1) by (rule dpb_okD)
  have plain: "texts_replaced d (CDict outp)" "wf_config (CDict outp)" using assms(2) d(1) by (auto simp: plain_step_def)
  show "loadable c" using assms(2,3) by (simp add: plain_step_def)
  show "(if covers c q then seen c q else seen (CDict inp) q) = seen (CDict outp) q"
    using created_seen[OF diff plain d(2), of q] by (simp add: seen_loaded[OF created_wf[OF diff plain(2) d(2)]])
  show "covers c (tab # k # r)" if "seen_text (CDict inp) [tab, k, f] \<noteq> None" "value_at (CDict outp) [tab, k] = None"
    using removed_entry_covered[OF diff plain(1) d(2) that] .
qed

lemma port_seen: "seen_text (CDict i) [''PORT'', p, f] \<noteq> None \<Longrightarrow> seen (CDict i) [''PORT''] = (None, {})"
proof -
  assume "seen_text (CDict i) [''PORT'', p, f] \<noteq> None"
  then obtain u where u: "map_of i ''PORT'' = Some u" "seen_text u [p, f] \<noteq> None" by (auto split: option.splits)
  then obtain d where "u = CDict d" using seen_not_dict by (metis not_None_eq)
  with u(1) show ?thesis by (simp add: seen_def)
qed

text \<open>C4. A breakout reports success, \<open>M1\<close> and \<open>M2\<close> being the managers after its two plans, with the configurations
  \<open>out1\<close> (without the old ports) and \<open>out2\<close> (with the new ports, validated). Suppose both differences, of \<open>out1\<close> from the
  configuration read at the start and of \<open>out2\<close> from \<open>out1\<close>, are plain (\<open>plain_step\<close>: only texts that differ in case are
  replaced as a whole, and what is written has the form \<open>mod_config\<close> documents), and every old port has a text field in
  the configuration read at the start and is gone from \<open>out1\<close>. Then at every path where the database agreed with
  the configuration read at the start, it ends up agreeing with \<open>out2\<close>: the same text up to case, the same list as a
  set without the empty text.\<close>

theorem breakout_reaches_target:
  assumes ok: "dpb_ok E view" and run: "break_out_port E M ports portJson force loadDef w = (Inr (None, True), w')"
    and plan: "planned E M ports portJson force loadDef M1 del M2 add"
    and out: "configdbJsonOut M1 = Some out1" "configdbJsonOut M2 = Some out2"
    and plain: "plain_step E (configdbJsonIn M) out1" "plain_step E out1 out2"
    and there: "\<forall>p \<in> set ports. \<exists>f. seen_text (CDict (configdbJsonIn M)) [''PORT'', p, f] \<noteq> None"
    and gone: "\<forall>p \<in> set ports. value_at (CDict out1) [''PORT'', p] = None"
    and sync: "seen (view w) q = seen (CDict (configdbJsonIn M)) q"
  shows "seen (view w') q = seen (CDict out2) q \<and> yt_valid (yang E) (sy M2)"
proof -
  let ?in0 = "configdbJsonIn M"
  have plans: "delete_ports E M ports force = Inr (M1, del)" "add_ports E M1 portJson loadDef = Inr (Some (M2, add))"
    using plan by (simp_all add: planned_def)
  from plans(1) obtain s where "deletion_plan E M s ports = Inr (M1, del)" by (rule delete_ports_Inr)
  from deletion_plan_Inr[OF this] have data1: "yt_data (yang E) (sy M1) = Inr out1" and upd1: "update_diff_config_db E ?in0 out1 = Inr del"
    using out(1) by auto
  from plans(2) obtain new where "addition_plan E M1 new loadDef = Inr (M2, add)" by (rule add_ports_Inr)
  then have upd2: "update_diff_config_db E out1 out2 = Inr add" and valid: "yt_valid (yang E) (sy M2)"
    using data1 out(2) by (auto elim!: addition_plan_Inr)
  note del = plain_step_loads[OF ok plain(1) upd1] and add = plain_step_loads[OF ok plain(2) upd2]
  have "carry_out E ports del add w = (Inr (None, True), w')"
    using run plans by (simp add: break_out_port_def act_catch_iff)
  then have final: "seen (view w') q = (if covers add q then seen add q else if covers del q then seen del q
    else if ports \<noteq> [] \<and> covers (shutdown_conf ports) q then seen (shutdown_conf ports) q else seen (view w) q)"
    using carry_out_view[OF ok _ del(1) add(1)] by blast
  have "seen (shutdown_conf ports) q = seen (CDict ?in0) q"
    if shut: "ports \<noteq> []" "covers (shutdown_conf ports) q" "\<not> covers del q"
    using shutdown_covers[OF shut(2)]
  proof (elim disjE bexE exE)
    assume "q = []" then show ?thesis by (simp add: shutdown_conf_def seen_def)
  next
    assume q: "q = [''PORT'']"
    obtain p where "p \<in> set ports" using shut(1) by (cases ports) auto
    with there have "seen (CDict ?in0) [''PORT''] = (None, {})" using port_seen by blast
    then show ?thesis by (simp add: q shutdown_conf_def seen_def)
  next
    fix p r assume p: "p \<in> set ports" and q: "q = ''PORT'' # p # r"
    from p there gone del(3)[of "''PORT''" p _ r] have "covers del q" unfolding q by blast
    with shut(3) show ?thesis by simp
  qed
  then have "(if covers del q then seen del q else if ports \<noteq> [] \<and> covers (shutdown_conf ports) q then seen (shutdown_conf ports) q
      else seen (view w) q) = seen (CDict out1) q"
    using del(2)[of q] sync by auto
  with final add(2)[of q] valid show ?thesis by auto
qed

section \<open>A switch in memory\<close>

text \<open>A difference that descends into dictionaries and replaces everything else.\<close>

fun dict_diff :: "config \<Rightarrow> config \<Rightarrow> cdiff" where
  "dict_diff (CDict i) (CDict t) = DTree
     (map (\<lambda>k. DKey k (case map_of i k of None \<Rightarrow> DReplaced | Some v \<Rightarrow>
         (case map_of t k of None \<Rightarrow> DReplaced | Some w \<Rightarrow> dict_diff v w)))
       (filter (\<lambda>k. map_of t k \<noteq> None \<and> map_of i k \<noteq> map_of t k) (remdups (map fst i))) @
      [DInsert (filter (\<lambda>k. map_of i k = None) (remdups (map fst t))),
       DDelete (filter (\<lambda>k. map_of t k = None) (remdups (map fst i)))])"
| "dict_diff _ _ = DReplaced"

lemma dict_diff_ok: "is_diff (dict_diff v w) v w"
proof (induction v w rule: dict_diff.induct)
  case (1 i t)
  let ?common = "filter (\<lambda>k. map_of t k \<noteq> None \<and> map_of i k \<noteq> map_of t k) (remdups (map fst i))"
  let ?added = "filter (\<lambda>k. map_of i k = None) (remdups (map fst t))"
  let ?gone = "filter (\<lambda>k. map_of t k = None) (remdups (map fst i))"
  have keys: "touched (map (\<lambda>k. DKey k (f k)) ks @ [DInsert xs, DDelete ys]) = ks @ xs @ ys" for f ks xs ys
    by (induction ks) (simp_all add: touched_def entry_keys_def)
  have key: "is_diff (case map_of i k of None \<Rightarrow> DReplaced | Some v \<Rightarrow> (case map_of t k of None \<Rightarrow> DReplaced | Some w \<Rightarrow> dict_diff v w)) v w"
    if "k \<in> set ?common" "map_of i k = Some v" "map_of t k = Some w" for k v w
    using "1.IH"[OF that(1,2,3)] that(2,3) by simp
  have dom: "k \<in> fst ` set d \<longleftrightarrow> map_of d k \<noteq> None" for k and d :: configs by (auto simp: map_of_eq_None_iff)
  show ?case
    unfolding dict_diff.simps is_diff.simps keys
  proof (intro conjI ballI allI impI)
    show "distinct (?common @ ?added @ ?gone)" by (auto dest: weak_map_of_SomeI)
    fix e assume "e \<in> set (map (\<lambda>k. DKey k (case map_of i k of None \<Rightarrow> DReplaced | Some v \<Rightarrow>
        (case map_of t k of None \<Rightarrow> DReplaced | Some w \<Rightarrow> dict_diff v w))) ?common @ [DInsert ?added, DDelete ?gone])"
    then consider k where "k \<in> set ?common" "e = DKey k (case map_of i k of None \<Rightarrow> DReplaced | Some v \<Rightarrow>
        (case map_of t k of None \<Rightarrow> DReplaced | Some w \<Rightarrow> dict_diff v w))" | "e = DInsert ?added" | "e = DDelete ?gone" by auto
    then show "is_entry e i t"
    proof cases
      case (1 k)
      then obtain v w where "map_of i k = Some v" "map_of t k = Some w" by (auto dest: weak_map_of_SomeI)
      with 1 key[OF 1(1)] show ?thesis by simp
    qed (simp_all add: dom)
  next
    fix k assume "k \<notin> set (?common @ ?added @ ?gone)"
    then have "map_of i k = map_of t k" by (cases "map_of i k"; cases "map_of t k") (auto simp: dom)
    then show "same (map_of i k) (map_of t k)" by (simp add: same_def split: option.split)
  qed
qed simp_all

definition mem_tree :: "configs yang_tree" where
  "mem_tree = \<lparr>yt_load = (\<lambda>s d. Inr (d, d)), yt_valid = (\<lambda>s. map_of s ''PORT'' \<noteq> None),
     yt_data = (\<lambda>s. if wf_config (CDict s) then Inr s else Inl PyException), yt_without_yang = (\<lambda>s. []),
     yt_delete = (\<lambda>s p. Inr (case map_of s ''PORT'' of Some (CDict d) \<Rightarrow> AList.update ''PORT'' (CDict (AList.delete p d)) s | _ \<Rightarrow> s)),
     yt_port_leaf = (\<lambda>s p. Inr p), yt_port = (\<lambda>s p. Inr p), yt_deps = (\<lambda>s p. Inr [])\<rparr>"

definition mem_env :: "(configs, config) dpb_env" where
  "mem_env = \<lparr>yang = mem_tree, json_diff = (\<lambda>a b. Inr (dict_diff (CDict a) (CDict b))), read_json = (\<lambda>f. Inr []),
     read_config_db = (\<lambda>w. case w of CDict d \<Rightarrow> Inr d | _ \<Rightarrow> Inl PyException),
     write_config = (\<lambda>c w. if wf_load c then (Inr (), overlay w c) else (Inl PyException, w)), interface_oid_map = act_return [(''Ethernet0'', ''1'')],
     asic_connect = act_return (), asic_exists = (\<lambda>k. act_return False), sleep1 = (\<lambda>w. w)\<rparr>"

lemma mem_env_ok: "dpb_ok mem_env (\<lambda>w. w)"
  unfolding dpb_ok_def by (intro conjI allI impI)
    (use dict_diff_ok in \<open>auto simp: mem_env_def mem_tree_def keeps_def act_return_def loads_as_def seen_loaded
      simp del: dict_diff.simps split: if_splits\<close>)

definition mem_start :: configs where
  "mem_start = [(''PORT'', CDict [(''Ethernet0'', CDict [(''speed'', CStr ''40000'')])])]"

definition mem_new :: configs where
  "mem_new = [(''PORT'', CDict [(''Ethernet0'', CDict [(''speed'', CStr ''10000'')]), (''Ethernet1'', CDict [(''speed'', CStr ''10000'')])])]"

definition mem_mgmt :: "configs config_mgmt" where
  "mem_mgmt = \<lparr>allowTablesWithoutYang = True, configdbJsonIn = mem_start, configdbJsonOut = None, sy = mem_start\<rparr>"

lemma mem_mgmt_init: "config_mgmt_init mem_env [] ''configDB'' True (CDict mem_start) = Inr mem_mgmt"
  by (simp add: config_mgmt_init_def read_source_def to_lower_def char_of_def bit_0 load_data_def mem_env_def mem_tree_def mem_mgmt_def)

definition mem_deleted :: configs where "mem_deleted = [(''PORT'', CDict [])]"

lemma mem_delete: "delete_ports mem_env mem_mgmt [''Ethernet0''] False = Inr (mem_mgmt\<lparr>sy := mem_deleted, configdbJsonOut := Some mem_deleted\<rparr>,
    CDict [(''PORT'', CDict [(''Ethernet0'', CNone)])])"
  by (simp add: delete_ports_def deletion_plan_def delete_port_def update_diff_config_db_def create_config_to_load_def mem_env_def
      mem_tree_def mem_mgmt_def mem_start_def mem_deleted_def at_key_def assign_def delete_key_def delete_handler_def insert_handler_def contains_def)

lemma mem_add: "add_ports mem_env (mem_mgmt\<lparr>sy := mem_deleted, configdbJsonOut := Some mem_deleted\<rparr>) mem_new False = Inr (Some
    (mem_mgmt\<lparr>configdbJsonIn := mem_deleted, configdbJsonOut := Some mem_new, sy := mem_new\<rparr>, CDict mem_new))"
  by (simp add: add_ports_def addition_plan_def port_table_def with_ports_def validate_config_data_def update_diff_config_db_def
      create_config_to_load_def mem_env_def mem_tree_def mem_mgmt_def mem_new_def mem_deleted_def at_key_def assign_def delete_key_def
      delete_handler_def insert_handler_def contains_def dict_merge_def)

lemma mem_carry_out: "\<exists>w'. carry_out mem_env [''Ethernet0''] (CDict [(''PORT'', CDict [(''Ethernet0'', CNone)])]) (CDict mem_new) w = (Inr (None, True), w')"
proof -
  have "check_no_ports_in_asic_db mem_env [(''Ethernet0'', ''1'')] [''Ethernet0''] v = (Inr True, v)" for v
    by (simp add: check_no_ports_in_asic_db_def act_catch_def act_bind_def act_return_def mem_env_def)
  then have verify: "verify_asic_db mem_env [''Ethernet0''] [(''Ethernet0'', ''1'')] MAX_WAIT v = (Inr True, v)" for v
    by (simp add: verify_asic_db_def MAX_WAIT_def upt_conv_Cons act_bind_def act_return_def)
  have "interface_oid_map mem_env w = (Inr [(''Ethernet0'', ''1'')], w)" "wf_load c \<Longrightarrow> write_config mem_env c v = (Inr (), overlay v c)" for c v
    by (simp_all add: mem_env_def act_return_def)
  then show ?thesis by (simp add: carry_out_def act_bind_def act_return_def shutdown_intf_def shutdown_conf_def mem_new_def verify)
qed

theorem breakout_reaches_target_witness:
  "\<exists>w'. break_out_port mem_env mem_mgmt [''Ethernet0''] mem_new False False (CDict mem_start) = (Inr (None, True), w') \<and>
     seen w' [''PORT'', ''Ethernet1'', ''speed''] = (Some ''10000'', {})"
proof -
  let ?M1 = "mem_mgmt\<lparr>sy := mem_deleted, configdbJsonOut := Some mem_deleted\<rparr>"
  let ?M2 = "mem_mgmt\<lparr>configdbJsonIn := mem_deleted, configdbJsonOut := Some mem_new, sy := mem_new\<rparr>"
  obtain w' where w': "break_out_port mem_env mem_mgmt [''Ethernet0''] mem_new False False (CDict mem_start) = (Inr (None, True), w')"
    using mem_carry_out by (fastforce simp: break_out_port_def mem_delete mem_add act_catch_iff)
  have plan: "planned mem_env mem_mgmt [''Ethernet0''] mem_new False False ?M1 (CDict [(''PORT'', CDict [(''Ethernet0'', CNone)])]) ?M2 (CDict mem_new)"
    by (simp add: planned_def mem_delete mem_add)
  have out: "configdbJsonOut ?M1 = Some mem_deleted" "configdbJsonOut ?M2 = Some mem_new" by simp_all
  have plain: "plain_step mem_env (configdbJsonIn mem_mgmt) mem_deleted" "plain_step mem_env mem_deleted mem_new"
    by (simp_all add: plain_step_def update_diff_config_db_def create_config_to_load_def mem_env_def mem_mgmt_def mem_start_def
        mem_deleted_def mem_new_def at_key_def assign_def delete_key_def delete_handler_def insert_handler_def contains_def loadable_defs)
  have "\<exists>f. seen_text (CDict mem_start) [''PORT'', ''Ethernet0'', f] \<noteq> None"
    by (rule exI[of _ "''speed''"]) (simp add: mem_start_def seen_text_def)
  then have there: "\<forall>p \<in> set [''Ethernet0'']. \<exists>f. seen_text (CDict (configdbJsonIn mem_mgmt)) [''PORT'', p, f] \<noteq> None"
    by (simp add: mem_mgmt_def)
  have gone: "\<forall>p \<in> set [''Ethernet0'']. value_at (CDict mem_deleted) [''PORT'', p] = None" by (simp add: mem_deleted_def)
  have sync: "seen (CDict mem_start) q = seen (CDict (configdbJsonIn mem_mgmt)) q" for q by (simp add: mem_mgmt_def)
  have "seen w' [''PORT'', ''Ethernet1'', ''speed''] = seen (CDict mem_new) [''PORT'', ''Ethernet1'', ''speed'']"
    using breakout_reaches_target[OF mem_env_ok w' plan out plain there gone sync] by blast
  also have "\<dots> = (Some ''10000'', {})" by (simp add: mem_new_def seen_def seen_text_def seen_list_def to_lower_def char_of_def bit_0)
  finally show ?thesis using w' by blast
qed

theorem breakout_writes_validated_witness:
  "\<exists>r w'. break_out_port mem_env mem_mgmt [''Ethernet0''] mem_new False False (CDict mem_start) = (r, w') \<and> (\<exists>deps b. r = Inr (deps, b))"
proof -
  obtain r w' where run: "break_out_port mem_env mem_mgmt [''Ethernet0''] mem_new False False (CDict mem_start) = (r, w')" by fastforce
  with breakout_writes_validated[OF run] show ?thesis by blast
qed

theorem dependencies_returned_witness:
  "break_out_port (mem_env\<lparr>yang := mem_tree\<lparr>yt_deps := (\<lambda>s p. Inr [''VLAN_MEMBER''])\<rparr>\<rparr>) mem_mgmt [''Ethernet0''] mem_new False False (CDict mem_start) =
     (Inr (Some [''VLAN_MEMBER''], False), CDict mem_start)"
  by (rule dependencies_returned) (simp_all add: mem_tree_def)

end
