(* ===== verification/MigDb.thy ===== *)
theory MigDb
  imports SonicDb JsonLibs
begin

text \<open>
  What the migrations work on: the databases, through connectors that are third-party code and the parameter
  \<open>mig_db\<close> (reads of and writes to a state), and the object that collects the buffer configuration of one
  vendor. Helpers on names and texts.
\<close>

section \<open>The databases\<close>

text \<open>A key is the list of its parts; the connectors give it as a string when there is one, else as a tuple.\<close>

type_synonym fields = "(string \<times> string) list"
type_synonym row = "string list \<times> fields"

record 'd mig_db =
  cf_table :: "'d \<Rightarrow> string \<Rightarrow> row list"
  cf_entry :: "'d \<Rightarrow> string \<Rightarrow> string list \<Rightarrow> fields"
  cf_keys :: "'d \<Rightarrow> string \<Rightarrow> string list list"
  cf_set_entry :: "string \<Rightarrow> string list \<Rightarrow> fields option \<Rightarrow> 'd \<Rightarrow> 'd"
  cf_mod_entry :: "string \<Rightarrow> string list \<Rightarrow> fields \<Rightarrow> 'd \<Rightarrow> 'd"
  cf_delete_table :: "string \<Rightarrow> 'd \<Rightarrow> 'd"
  cf_set :: "string \<Rightarrow> string \<Rightarrow> string \<Rightarrow> 'd \<Rightarrow> 'd"
  cf_find :: "'d \<Rightarrow> string \<Rightarrow> string list option"
  cf_all :: "'d \<Rightarrow> string \<Rightarrow> fields"
  ap_table :: "'d \<Rightarrow> string \<Rightarrow> row list"
  ap_find :: "'d \<Rightarrow> string \<Rightarrow> string list option"
  ap_get :: "'d \<Rightarrow> string \<Rightarrow> string \<Rightarrow> string option"
  ap_all :: "'d \<Rightarrow> string \<Rightarrow> fields"
  ap_has :: "'d \<Rightarrow> string \<Rightarrow> string \<Rightarrow> bool"
  ap_set :: "string \<Rightarrow> string \<Rightarrow> string \<Rightarrow> 'd \<Rightarrow> 'd"
  ap_delete :: "string \<Rightarrow> 'd \<Rightarrow> 'd"
  ap_separator :: string
  st_get :: "'d \<Rightarrow> string \<Rightarrow> string \<Rightarrow> string option"
  ll_keys :: "'d \<Rightarrow> string list option"
  ll_all :: "'d \<Rightarrow> string \<Rightarrow> fields"
  ll_delete :: "string \<Rightarrow> 'd \<Rightarrow> 'd"
  init_cfg_file :: "err + (string \<times> (string \<times> fields) list) list"
  warm_restart_swss :: "'d \<Rightarrow> bool"

text \<open>The attributes of \<open>MellanoxBufferMigrator\<close>, and the world: the databases and that object.\<close>

record mlnx_obj =
  platform :: "string option"
  sku :: "string option"
  ready :: bool
  pending_update_items :: "(string \<times> string list \<times> fields option) list"
  is_buffer_config_default :: bool

record 'd mig_world =
  dbs :: 'd
  bm :: mlnx_obj

type_synonym ('d, 'a) mig = "('d mig_world, err, 'a) act"

definition reads :: "('d \<Rightarrow> 'a) \<Rightarrow> ('d, 'a) mig" where
  "reads f w = (Inr (f (dbs w)), w)"

definition on_db :: "('d \<Rightarrow> 'd) \<Rightarrow> ('d, unit) mig" where
  "on_db f = act_do (\<lambda>w. w\<lparr>dbs := f (dbs w)\<rparr>)"

definition of_obj :: "(mlnx_obj \<Rightarrow> 'a) \<Rightarrow> ('d, 'a) mig" where
  "of_obj f w = (Inr (f (bm w)), w)"

definition on_obj :: "(mlnx_obj \<Rightarrow> mlnx_obj) \<Rightarrow> ('d, unit) mig" where
  "on_obj f = act_do (\<lambda>w. w\<lparr>bm := f (bm w)\<rparr>)"

definition write_entry :: "'d mig_db \<Rightarrow> string \<Rightarrow> string list \<Rightarrow> fields \<Rightarrow> ('d, unit) mig" where
  "write_entry DB t k d = on_db (cf_set_entry DB t k (Some d))"

definition table_of :: "'d mig_db \<Rightarrow> string \<Rightarrow> ('d, row list) mig" where
  "table_of DB t = reads (\<lambda>w. cf_table DB w t)"

definition warm_reboot :: "'d mig_db \<Rightarrow> ('d, bool) mig" where
  "warm_reboot DB = reads (\<lambda>w. st_get DB w ''WARM_RESTART_ENABLE_TABLE|system'' ''enable'' = Some ''true'')"

text \<open>How a key is formatted: a tuple by its \<open>repr\<close> (names hold no quotes).\<close>

definition key_text :: "string list \<Rightarrow> string" where
  "key_text k = (case k of [n] \<Rightarrow> n | _ \<Rightarrow> ''('' @ join_with '', '' (map (\<lambda>s. [CHR 0x27] @ s @ [CHR 0x27]) k) @ '')'')"

text \<open>How the reads and writes run.\<close>

named_theorems mig_run \<open>running the reads and writes of a migration\<close>

lemma reads_bind [mig_run]: "act_bind (reads f) g w = g (f (dbs w)) w"
  by (simp add: act_bind_def reads_def)

lemma of_obj_bind [mig_run]: "act_bind (of_obj f) g w = g (f (bm w)) w"
  by (simp add: act_bind_def of_obj_def)

lemma table_of_bind [mig_run]: "act_bind (table_of DB t) g w = g (cf_table DB (dbs w) t) w"
  by (simp add: table_of_def reads_bind)

lemma seq_run: "m w = (Inr (), u) \<Longrightarrow> seq m n w = n u"
  by (simp add: seq_def act_bind_def)

lemma on_db_seq [mig_run]: "seq (on_db f) n w = n (w\<lparr>dbs := f (dbs w)\<rparr>)"
  by (simp add: seq_def act_bind_def on_db_def act_do_def)

lemma on_obj_seq [mig_run]: "seq (on_obj f) n w = n (w\<lparr>bm := f (bm w)\<rparr>)"
  by (simp add: seq_def act_bind_def on_obj_def act_do_def)

lemma write_entry_seq [mig_run]: "seq (write_entry DB t k d) n w = n (w\<lparr>dbs := cf_set_entry DB t k (Some d) (dbs w)\<rparr>)"
  by (simp add: write_entry_def on_db_seq)

section \<open>Texts\<close>

fun str_replace :: "string \<Rightarrow> string \<Rightarrow> string \<Rightarrow> string" where
  "str_replace old new [] = []"
| "str_replace old new (c # s) =
     (if old \<noteq> [] \<and> take (length old) (c # s) = old then new @ str_replace old new (drop (length old) (c # s))
      else c # str_replace old new s)"

fun split_str :: "string \<Rightarrow> string \<Rightarrow> string \<Rightarrow> string list" where
  "split_str sep acc [] = [rev acc]"
| "split_str sep acc (c # s) =
     (if sep \<noteq> [] \<and> take (length sep) (c # s) = sep then rev acc # split_str sep [] (drop (length sep) (c # s))
      else split_str sep (c # acc) s)"

definition nth_part :: "string list \<Rightarrow> nat \<Rightarrow> err + string" where
  "nth_part xs n = (if n < length xs then Inr (xs ! n) else Inl IndexError)"

section \<open>Names of profiles and pairs\<close>

text \<open>\<open>pg_lossless_([1-9][0-9]*000)_([1-9][0-9]*m)_profile\<close>, found at the first place it matches.\<close>

definition match_profile :: "string \<Rightarrow> (string \<times> string) option" where
  "match_profile s =
     (if \<not> prefix ''pg_lossless_'' s then None
      else let s = drop (length ''pg_lossless_'') s; speed = takeWhile is_digit s; s = drop (length speed) s in
        if speed = [] \<or> hd speed = CHR ''0'' \<or> \<not> suffix ''000'' speed \<or> length speed < 4 \<or> \<not> prefix ''_'' s then None
        else let s = drop 1 s; n = takeWhile is_digit s; s = drop (length n) s in
          if n = [] \<or> hd n = CHR ''0'' \<or> \<not> prefix ''m_profile'' s then None
          else Some (speed, n @ ''m''))"

fun search_profile :: "string \<Rightarrow> (string \<times> string) option" where
  "search_profile [] = None"
| "search_profile (c # s) = (case match_profile (c # s) of None \<Rightarrow> search_profile s | Some m \<Rightarrow> Some m)"

text \<open>\<open>port, pg = name\<close>: a tuple of two, or a text of two characters.\<close>

definition unpack_pair :: "string list \<Rightarrow> (string \<times> string) option" where
  "unpack_pair key = (case key of
     [port, pg] \<Rightarrow> Some (port, pg)
   | [n] \<Rightarrow> if length n = 2 then Some ([n ! 0], [n ! 1]) else None
   | _ \<Rightarrow> None)"

section \<open>Reading after writing\<close>

text \<open>
  A row of the configuration database is a hash with a name, \<open>row_id\<close>; \<open>fld\<close> is a field of it. \<open>mig_db_ok\<close> states
  what the connectors document of reading after writing: an entry that is set has the fields given, and no others; a
  write to the application or log level database leaves the configuration alone. \<open>NULL\<close> is the field that stands
  for an entry without fields.
\<close>

definition row_id :: "string \<Rightarrow> string list \<Rightarrow> string" where
  "row_id t k = to_upper t @ ''|'' @ join_with ''|'' k"

definition fld :: "'d mig_db \<Rightarrow> 'd \<Rightarrow> string \<Rightarrow> string \<Rightarrow> string list \<Rightarrow> string option" where
  "fld DB w f t k = map_of (cf_entry DB w t k) f"

definition mig_db_ok :: "'d mig_db \<Rightarrow> bool" where
  "mig_db_ok DB \<longleftrightarrow>
     (\<forall>t k d w t' k' f. f \<noteq> ''NULL'' \<longrightarrow> fld DB (cf_set_entry DB t k d w) f t' k' =
       (if row_id t' k' = row_id t k then (case d of None \<Rightarrow> None | Some x \<Rightarrow> map_of x f) else fld DB w f t' k')) \<and>
     (\<forall>t k d w t' k' f. f \<noteq> ''NULL'' \<longrightarrow> row_id t' k' \<noteq> row_id t k \<longrightarrow> fld DB (cf_mod_entry DB t k d w) f t' k' = fld DB w f t' k') \<and>
     (\<forall>t w t' k' f. \<not> prefix (to_upper t @ ''|'') (row_id t' k') \<longrightarrow> fld DB (cf_delete_table DB t w) f t' k' = fld DB w f t' k') \<and>
     (\<forall>h f v w t' k' f'. row_id t' k' \<noteq> h \<longrightarrow> fld DB (cf_set DB h f v w) f' t' k' = fld DB w f' t' k') \<and>
     (\<forall>h f v w t' k' f'. fld DB (ap_set DB h f v w) f' t' k' = fld DB w f' t' k') \<and>
     (\<forall>h w t' k' f'. fld DB (ap_delete DB h w) f' t' k' = fld DB w f' t' k') \<and>
     (\<forall>h w t' k' f'. fld DB (ll_delete DB h w) f' t' k' = fld DB w f' t' k') \<and>
     (\<forall>w t k d f. (k, d) \<in> set (cf_table DB w t) \<longrightarrow> f \<noteq> ''NULL'' \<longrightarrow> fld DB w f t k = map_of d f) \<and>
     (\<forall>w t k f. f \<noteq> ''NULL'' \<longrightarrow> fld DB w f t k \<noteq> None \<longrightarrow> (\<exists>(k', d) \<in> set (cf_table DB w t). row_id t k' = row_id t k)) \<and>
     (\<forall>w t k t' k'. row_id t' k' = row_id t k \<longrightarrow> cf_entry DB w t' k' = cf_entry DB w t k) \<and>
     (\<forall>w t k. distinct (map fst (cf_entry DB w t k)))"

lemmas fld_set = mig_db_ok_def[THEN iffD1, THEN conjunct1, rule_format]
lemmas fld_mod = mig_db_ok_def[THEN iffD1, THEN conjunct2, THEN conjunct1, rule_format]
lemmas fld_delete_table = mig_db_ok_def[THEN iffD1, THEN conjunct2, THEN conjunct2, THEN conjunct1, rule_format]
lemmas fld_hset = mig_db_ok_def[THEN iffD1, THEN conjunct2, THEN conjunct2, THEN conjunct2, THEN conjunct1, rule_format]
lemmas fld_ap_set = mig_db_ok_def[THEN iffD1, THEN conjunct2, THEN conjunct2, THEN conjunct2, THEN conjunct2, THEN conjunct1, rule_format]
lemmas fld_ap_delete = mig_db_ok_def[THEN iffD1, THEN conjunct2, THEN conjunct2, THEN conjunct2, THEN conjunct2, THEN conjunct2, THEN conjunct1, rule_format]
lemmas fld_ll_delete = mig_db_ok_def[THEN iffD1, THEN conjunct2, THEN conjunct2, THEN conjunct2, THEN conjunct2, THEN conjunct2, THEN conjunct2, THEN conjunct1, rule_format]
lemmas fld_table = mig_db_ok_def[THEN iffD1, THEN conjunct2, THEN conjunct2, THEN conjunct2, THEN conjunct2, THEN conjunct2, THEN conjunct2, THEN conjunct2, THEN conjunct1, rule_format]
lemmas fld_in_table = mig_db_ok_def[THEN iffD1, THEN conjunct2, THEN conjunct2, THEN conjunct2, THEN conjunct2, THEN conjunct2, THEN conjunct2, THEN conjunct2, THEN conjunct2, THEN conjunct1, rule_format]
lemmas same_row = mig_db_ok_def[THEN iffD1, THEN conjunct2, THEN conjunct2, THEN conjunct2, THEN conjunct2, THEN conjunct2, THEN conjunct2, THEN conjunct2, THEN conjunct2, THEN conjunct2, THEN conjunct1, rule_format]
lemmas distinct_entry = mig_db_ok_def[THEN iffD1, THEN conjunct2, THEN conjunct2, THEN conjunct2, THEN conjunct2, THEN conjunct2, THEN conjunct2, THEN conjunct2, THEN conjunct2, THEN conjunct2, THEN conjunct2, rule_format]

lemma bar_split:
  assumes "CHR ''|'' \<notin> set a" and "CHR ''|'' \<notin> set b"
  shows "a @ CHR ''|'' # x = b @ CHR ''|'' # y \<longleftrightarrow> a = b \<and> x = y"
  using assms by (induction a arbitrary: b) (case_tac b; auto)+

lemma row_id_eq:
  "CHR ''|'' \<notin> set (to_upper t) \<Longrightarrow> CHR ''|'' \<notin> set (to_upper t') \<Longrightarrow>
   row_id t k = row_id t' k' \<longleftrightarrow> to_upper t = to_upper t' \<and> join_with ''|'' k = join_with ''|'' k'"
  by (simp add: row_id_def bar_split)

text \<open>Rows of two ports differ.\<close>

lemma first_part: "CHR ''|'' \<notin> set p \<Longrightarrow> takeWhile (\<lambda>c. c \<noteq> CHR ''|'') (join_with ''|'' (p # ks)) = p"
  by (cases ks) (auto simp: takeWhile_tail)

lemma upper_tables [simp]:
  "to_upper ''BUFFER_POOL'' = ''BUFFER_POOL''" "to_upper ''BUFFER_PROFILE'' = ''BUFFER_PROFILE''"
  "to_upper ''BUFFER_PG'' = ''BUFFER_PG''" "to_upper ''BUFFER_QUEUE'' = ''BUFFER_QUEUE''"
  "to_upper ''BUFFER_PORT_INGRESS_PROFILE_LIST'' = ''BUFFER_PORT_INGRESS_PROFILE_LIST''"
  "to_upper ''BUFFER_PORT_EGRESS_PROFILE_LIST'' = ''BUFFER_PORT_EGRESS_PROFILE_LIST''"
  "to_upper ''DEVICE_METADATA'' = ''DEVICE_METADATA''" "to_upper ''VERSIONS'' = ''VERSIONS''"
  by code_simp+

section \<open>What a write leaves alone\<close>

abbreviation field_is :: "'d mig_db \<Rightarrow> string \<Rightarrow> string \<Rightarrow> string list \<Rightarrow> string option \<Rightarrow> 'd mig_world \<Rightarrow> bool" where
  "field_is DB f t k v \<equiv> \<lambda>w. fld DB (dbs w) f t k = v"

lemma preserves_reads [preserving]: "preserves I (reads f)" "preserves I (of_obj g)" "preserves I (table_of DB t)" "preserves I (warm_reboot DB)"
  by (simp_all add: preserves_def reads_def of_obj_def table_of_def warm_reboot_def)

lemma preserves_on_db: "(\<And>w. I w \<Longrightarrow> I (w\<lparr>dbs := f (dbs w)\<rparr>)) \<Longrightarrow> preserves I (on_db f)"
  by (simp add: on_db_def preserves_do)

lemma preserves_on_obj: "(\<And>w. I w \<Longrightarrow> I (w\<lparr>bm := f (bm w)\<rparr>)) \<Longrightarrow> preserves I (on_obj f)"
  by (simp add: on_obj_def preserves_do)

lemma write_keeps_field:
  "mig_db_ok DB \<Longrightarrow> f \<noteq> ''NULL'' \<Longrightarrow> row_id t k \<noteq> row_id t' k' \<Longrightarrow> preserves (field_is DB f t k v) (write_entry DB t' k' d)"
  by (simp add: write_entry_def preserves_on_db fld_set)

lemma ap_delete_keeps_field: "mig_db_ok DB \<Longrightarrow> preserves (field_is DB f t k v) (on_db (ap_delete DB h))"
  by (simp add: preserves_on_db fld_ap_delete)

section \<open>Databases in memory\<close>

text \<open>Hashes by name; this instance shows that the laws can hold.\<close>

record mem_dbs =
  m_conf :: "(string \<times> fields) list"
  m_app :: "(string \<times> fields) list"
  m_state :: "(string \<times> fields) list"
  m_log :: "(string \<times> fields) list"

definition hget :: "(string \<times> fields) list \<Rightarrow> string \<Rightarrow> fields" where
  "hget db h = (case map_of db h of None \<Rightarrow> [] | Some d \<Rightarrow> AList.clearjunk d)"

definition hset :: "string \<Rightarrow> string \<Rightarrow> string \<Rightarrow> (string \<times> fields) list \<Rightarrow> (string \<times> fields) list" where
  "hset h f v db = AList.update h (AList.update f v (hget db h)) db"

definition hrows :: "char \<Rightarrow> string \<Rightarrow> (string \<times> fields) list \<Rightarrow> row list" where
  "hrows sep t db = (let p = t @ [sep] in
     map (\<lambda>(h, d). (split_on sep (drop (length p) h), d)) (filter (\<lambda>(h, _). prefix p h) (AList.clearjunk db)))"

definition hfind :: "string \<Rightarrow> (string \<times> fields) list \<Rightarrow> string list option" where
  "hfind pat db = (let ks = filter (prefix (butlast pat)) (map fst db) in if ks = [] then None else Some ks)"

definition dict_dbs :: "mem_dbs mig_db" where
  "dict_dbs =
     \<lparr>cf_table = (\<lambda>w t. hrows CHR ''|'' (to_upper t) (m_conf w)),
      cf_entry = (\<lambda>w t k. hget (m_conf w) (row_id t k)),
      cf_keys = (\<lambda>w t. map fst (hrows CHR ''|'' (to_upper t) (m_conf w))),
      cf_set_entry = (\<lambda>t k d w. w\<lparr>m_conf := (case d of None \<Rightarrow> AList.delete (row_id t k) (m_conf w) | Some x \<Rightarrow> AList.update (row_id t k) x (m_conf w))\<rparr>),
      cf_mod_entry = (\<lambda>t k d w. w\<lparr>m_conf := AList.update (row_id t k) (dict_merge (hget (m_conf w) (row_id t k)) d) (m_conf w)\<rparr>),
      cf_delete_table = (\<lambda>t w. w\<lparr>m_conf := filter (\<lambda>(h, _). \<not> prefix (to_upper t @ ''|'') h) (m_conf w)\<rparr>),
      cf_set = (\<lambda>h f v w. w\<lparr>m_conf := hset h f v (m_conf w)\<rparr>),
      cf_find = (\<lambda>w pat. hfind pat (m_conf w)),
      cf_all = (\<lambda>w h. hget (m_conf w) h),
      ap_table = (\<lambda>w t. hrows CHR '':'' t (m_app w)),
      ap_find = (\<lambda>w pat. hfind pat (m_app w)),
      ap_get = (\<lambda>w h f. map_of (hget (m_app w) h) f),
      ap_all = (\<lambda>w h. hget (m_app w) h),
      ap_has = (\<lambda>w h f. map_of (hget (m_app w) h) f \<noteq> None),
      ap_set = (\<lambda>h f v w. w\<lparr>m_app := hset h f v (m_app w)\<rparr>),
      ap_delete = (\<lambda>h w. w\<lparr>m_app := AList.delete h (m_app w)\<rparr>),
      ap_separator = '':'',
      st_get = (\<lambda>w h f. map_of (hget (m_state w) h) f),
      ll_keys = (\<lambda>w. if m_log w = [] then None else Some (map fst (m_log w))),
      ll_all = (\<lambda>w h. hget (m_log w) h),
      ll_delete = (\<lambda>h w. w\<lparr>m_log := AList.delete h (m_log w)\<rparr>),
      init_cfg_file = Inr [],
      warm_restart_swss = (\<lambda>w. map_of (hget (m_state w) ''WARM_RESTART_ENABLE_TABLE|swss'') ''enable'' = Some ''true'')\<rparr>"

lemma hrows_iff: "(k, d) \<in> set (hrows sep t db) \<longleftrightarrow> (\<exists>h. map_of db h = Some d \<and> prefix (t @ [sep]) h \<and> k = split_on sep (drop (Suc (length t)) h))"
proof -
  have "(h, d) \<in> set (AList.clearjunk db) \<longleftrightarrow> map_of db h = Some d" for h
    by (metis distinct_clearjunk map_of_clearjunk map_of_eq_Some_iff)
  then show ?thesis by (auto simp: hrows_def Let_def image_iff)
qed

lemma row_id_split: "prefix (to_upper t @ ''|'') h \<Longrightarrow> row_id t (split_on CHR ''|'' (drop (Suc (length (to_upper t))) h)) = h"
  by (auto simp: row_id_def join_split_on prefix_def)

lemma map_of_filter_name: "map_of (filter (\<lambda>(h, _). P h) db) k = (if P k then map_of db k else None)"
  by (induction db) auto

lemma dict_dbs_ok: "mig_db_ok dict_dbs"
  unfolding mig_db_ok_def fld_def
proof (intro conjI allI impI)
  fix w t k d and f :: string
  assume "(k, d) \<in> set (cf_table dict_dbs w t)" "f \<noteq> ''NULL''"
  then show "map_of (cf_entry dict_dbs w t k) f = map_of d f"
    by (auto simp: dict_dbs_def hrows_iff hget_def row_id_split map_of_clearjunk split: option.split)
next
  fix w t k and f :: string
  assume "map_of (cf_entry dict_dbs w t k) f \<noteq> None"
  then obtain d where "map_of (m_conf w) (row_id t k) = Some d"
    by (cases "map_of (m_conf w) (row_id t k)") (auto simp: dict_dbs_def hget_def)
  then have "(split_on CHR ''|'' (drop (Suc (length (to_upper t))) (row_id t k)), d) \<in> set (cf_table dict_dbs w t)"
    by (auto simp: dict_dbs_def hrows_iff row_id_def)
  moreover have "row_id t (split_on CHR ''|'' (drop (Suc (length (to_upper t))) (row_id t k))) = row_id t k"
    by (rule row_id_split) (simp add: row_id_def)
  ultimately show "\<exists>(k', d) \<in> set (cf_table dict_dbs w t). row_id t k' = row_id t k" by blast
qed (auto simp: dict_dbs_def hget_def hset_def update_conv' delete_conv' map_of_filter_name map_of_clearjunk distinct_clearjunk split: option.splits)

end
