(* ===== verification/MlnxParameters.thy ===== *)
theory MlnxParameters
  imports MigDb
begin

text \<open>
  The default buffer configurations of each version (\<open>mellanox_default_parameter\<close> of
  \<open>scripts/mellanox_buffer_migrator.py\<close>), in the condensed form of the source: flavours of the buffer pools, the
  flavours taken over from an older version, how a flavour of the version before is mapped, the headroom profiles
  of each series of platforms, and the buffer profiles.
\<close>

type_synonym pool_conf = "(string \<times> fields) list"

datatype pool_target = PoolName string | PoolBy string string
datatype headroom_set = Headrooms "(string \<times> fields) list" | HeadroomOf string string
datatype headroom_target = HeadroomName string | HeadroomBy string "(string \<times> string) list"

record buffer_params =
  pool_configuration_list :: "string list option"
  buffer_pool_list :: "string list"
  buffer_pools :: "(string \<times> pool_conf) list"
  buffer_pools_inherited :: "(string \<times> string list) list option"
  pool_mapped_from_old_version :: "(string \<times> pool_target) list option"
  pool_convert_map :: "(string \<times> (string \<times> string) list) list option"
  headrooms :: "(string \<times> (string \<times> headroom_set) list) list option"
  headroom_mapping :: "(string \<times> headroom_target) list option"
  buffer_profiles :: "(string \<times> (string \<times> fields) list) list option"

section \<open>Version 1.0.2\<close>

definition pools_v1_0_2 :: "(string \<times> pool_conf) list" where
  "pools_v1_0_2 =
     [(''spc1_t0_pool'',
        [(''ingress_lossless_pool'', [(''size'', ''4194304''), (''type'', ''ingress''), (''mode'', ''dynamic'')]),
         (''ingress_lossy_pool'', [(''size'', ''7340032''), (''type'', ''ingress''), (''mode'', ''dynamic'')]),
         (''egress_lossless_pool'', [(''size'', ''16777152''), (''type'', ''egress''), (''mode'', ''dynamic'')]),
         (''egress_lossy_pool'', [(''size'', ''7340032''), (''type'', ''egress''), (''mode'', ''dynamic'')])]),
      (''spc1_t1_pool'',
        [(''ingress_lossless_pool'', [(''size'', ''2097152''), (''type'', ''ingress''), (''mode'', ''dynamic'')]),
         (''ingress_lossy_pool'', [(''size'', ''5242880''), (''type'', ''ingress''), (''mode'', ''dynamic'')]),
         (''egress_lossless_pool'', [(''size'', ''16777152''), (''type'', ''egress''), (''mode'', ''dynamic'')]),
         (''egress_lossy_pool'', [(''size'', ''5242880''), (''type'', ''egress''), (''mode'', ''dynamic'')])]),
      (''spc2_t0_pool'',
        [(''doublepool'', [(''size'', ''8224768'')]),
         (''egress_lossless_pool'', [(''size'', ''35966016'')])]),
      (''spc2_t1_pool'',
        [(''doublepool'', [(''size'', ''12042240'')]),
         (''egress_lossless_pool'', [(''size'', ''35966016'')])]),
      (''spc1_t0_pool_shp'',
        [(''doublepool'', [(''size'', ''3988992'')]),
         (''egress_lossless_pool'', [(''size'', ''13945824'')])]),
      (''spc1_t1_pool_shp'',
        [(''doublepool'', [(''size'', ''4554240'')]),
         (''egress_lossless_pool'', [(''size'', ''13945824'')])])]"

definition params_v1_0_2 :: "buffer_params" where
  "params_v1_0_2 =
     \<lparr>pool_configuration_list = None,
      buffer_pool_list = [''ingress_lossless_pool'', ''egress_lossless_pool'', ''ingress_lossy_pool'', ''egress_lossy_pool''],
      buffer_pools = pools_v1_0_2,
      buffer_pools_inherited = None,
      pool_mapped_from_old_version = None,
      pool_convert_map = None,
      headrooms = None,
      headroom_mapping = None,
      buffer_profiles = None\<rparr>"

section \<open>Version 1.0.3\<close>

definition pools_v1_0_3 :: "(string \<times> pool_conf) list" where
  "pools_v1_0_3 =
     [(''spc1_t0_pool'',
        [(''doublepool'', [(''size'', ''5029836'')]),
         (''egress_lossless_pool'', [(''size'', ''14024599'')])]),
      (''spc1_t1_pool'',
        [(''doublepool'', [(''size'', ''2097100'')]),
         (''egress_lossless_pool'', [(''size'', ''14024599'')])]),
      (''spc2_t0_pool'',
        [(''doublepool'', [(''size'', ''14983147'')]),
         (''egress_lossless_pool'', [(''size'', ''34340822'')])]),
      (''spc2_t1_pool'',
        [(''doublepool'', [(''size'', ''9158635'')]),
         (''egress_lossless_pool'', [(''size'', ''34340822'')])])]"

definition spc1_headrooms_v1_0_3 :: "(string \<times> headroom_set) list" where
  "spc1_headrooms_v1_0_3 =
     [(''default'', Headrooms
         [(''pg_lossless_10000_5m_profile'', [(''size'', ''34816''), (''xon'', ''18432'')]),
          (''pg_lossless_25000_5m_profile'', [(''size'', ''34816''), (''xon'', ''18432'')]),
          (''pg_lossless_40000_5m_profile'', [(''size'', ''34816''), (''xon'', ''18432'')]),
          (''pg_lossless_50000_5m_profile'', [(''size'', ''34816''), (''xon'', ''18432'')]),
          (''pg_lossless_100000_5m_profile'', [(''size'', ''36864''), (''xon'', ''18432'')]),
          (''pg_lossless_10000_40m_profile'', [(''size'', ''36864''), (''xon'', ''18432'')]),
          (''pg_lossless_25000_40m_profile'', [(''size'', ''39936''), (''xon'', ''18432'')]),
          (''pg_lossless_40000_40m_profile'', [(''size'', ''41984''), (''xon'', ''18432'')]),
          (''pg_lossless_50000_40m_profile'', [(''size'', ''41984''), (''xon'', ''18432'')]),
          (''pg_lossless_100000_40m_profile'', [(''size'', ''54272''), (''xon'', ''18432'')]),
          (''pg_lossless_10000_300m_profile'', [(''size'', ''49152''), (''xon'', ''18432'')]),
          (''pg_lossless_25000_300m_profile'', [(''size'', ''71680''), (''xon'', ''18432'')]),
          (''pg_lossless_40000_300m_profile'', [(''size'', ''94208''), (''xon'', ''18432'')]),
          (''pg_lossless_50000_300m_profile'', [(''size'', ''94208''), (''xon'', ''18432'')]),
          (''pg_lossless_100000_300m_profile'', [(''size'', ''184320''), (''xon'', ''18432'')])])]"

definition spc2_headrooms_v1_0_3 :: "(string \<times> headroom_set) list" where
  "spc2_headrooms_v1_0_3 =
     [(''default'', Headrooms
         [(''pg_lossless_1000_5m_profile'', [(''size'', ''35840''), (''xon'', ''18432'')]),
          (''pg_lossless_10000_5m_profile'', [(''size'', ''36864''), (''xon'', ''18432'')]),
          (''pg_lossless_25000_5m_profile'', [(''size'', ''36864''), (''xon'', ''18432'')]),
          (''pg_lossless_40000_5m_profile'', [(''size'', ''36864''), (''xon'', ''18432'')]),
          (''pg_lossless_50000_5m_profile'', [(''size'', ''37888''), (''xon'', ''18432'')]),
          (''pg_lossless_100000_5m_profile'', [(''size'', ''38912''), (''xon'', ''18432'')]),
          (''pg_lossless_200000_5m_profile'', [(''size'', ''41984''), (''xon'', ''18432'')]),
          (''pg_lossless_1000_40m_profile'', [(''size'', ''36864''), (''xon'', ''18432'')]),
          (''pg_lossless_10000_40m_profile'', [(''size'', ''38912''), (''xon'', ''18432'')]),
          (''pg_lossless_25000_40m_profile'', [(''size'', ''41984''), (''xon'', ''18432'')]),
          (''pg_lossless_40000_40m_profile'', [(''size'', ''45056''), (''xon'', ''18432'')]),
          (''pg_lossless_50000_40m_profile'', [(''size'', ''47104''), (''xon'', ''18432'')]),
          (''pg_lossless_100000_40m_profile'', [(''size'', ''59392''), (''xon'', ''18432'')]),
          (''pg_lossless_200000_40m_profile'', [(''size'', ''81920''), (''xon'', ''18432'')]),
          (''pg_lossless_1000_300m_profile'', [(''size'', ''37888''), (''xon'', ''18432'')]),
          (''pg_lossless_10000_300m_profile'', [(''size'', ''53248''), (''xon'', ''18432'')]),
          (''pg_lossless_25000_300m_profile'', [(''size'', ''78848''), (''xon'', ''18432'')]),
          (''pg_lossless_40000_300m_profile'', [(''size'', ''104448''), (''xon'', ''18432'')]),
          (''pg_lossless_50000_300m_profile'', [(''size'', ''121856''), (''xon'', ''18432'')]),
          (''pg_lossless_100000_300m_profile'', [(''size'', ''206848''), (''xon'', ''18432'')]),
          (''pg_lossless_200000_300m_profile'', [(''size'', ''376832''), (''xon'', ''18432'')])])]"

definition profiles_v1_0_3 :: "(string \<times> (string \<times> fields) list) list" where
  "profiles_v1_0_3 =
     [(''default'',
        [(''ingress_lossless_profile'', [(''dynamic_th'', ''0''), (''pool'', ''[BUFFER_POOL|ingress_lossless_pool]''), (''size'', ''0'')]),
         (''ingress_lossy_profile'', [(''dynamic_th'', ''3''), (''pool'', ''[BUFFER_POOL|ingress_lossy_pool]''), (''size'', ''0'')]),
         (''egress_lossless_profile'', [(''dynamic_th'', ''7''), (''pool'', ''[BUFFER_POOL|egress_lossless_pool]''), (''size'', ''0'')]),
         (''egress_lossy_profile'', [(''dynamic_th'', ''3''), (''pool'', ''[BUFFER_POOL|egress_lossy_pool]''), (''size'', ''4096'')]),
         (''q_lossy_profile'', [(''dynamic_th'', ''3''), (''pool'', ''[BUFFER_POOL|egress_lossy_pool]''), (''size'', ''0'')])])]"

definition mapped_v1_0_3 :: "(string \<times> pool_target) list" where
  "mapped_v1_0_3 =
     [(''spc1_t0_pool_shp'', PoolName ''spc1_t0_pool''),
      (''spc1_t1_pool_shp'', PoolName ''spc1_t1_pool'')]"

definition params_v1_0_3 :: "buffer_params" where
  "params_v1_0_3 =
     \<lparr>pool_configuration_list = None,
      buffer_pool_list = [''ingress_lossless_pool'', ''egress_lossless_pool'', ''ingress_lossy_pool'', ''egress_lossy_pool''],
      buffer_pools = pools_v1_0_3,
      buffer_pools_inherited = None,
      pool_mapped_from_old_version = Some mapped_v1_0_3,
      pool_convert_map = None,
      headrooms = Some [(''spc1_headroom'', spc1_headrooms_v1_0_3), (''spc2_headroom'', spc2_headrooms_v1_0_3)],
      headroom_mapping = None,
      buffer_profiles = Some profiles_v1_0_3\<rparr>"

section \<open>Version 1.0.4\<close>

definition pools_v1_0_4 :: "(string \<times> pool_conf) list" where
  "pools_v1_0_4 =
     [(''spc1_t0_pool'',
        [(''doublepool'', [(''size'', ''4580864'')]),
         (''egress_lossless_pool'', [(''size'', ''13945824'')])]),
      (''spc1_t1_pool'',
        [(''doublepool'', [(''size'', ''3302912'')]),
         (''egress_lossless_pool'', [(''size'', ''13945824'')])]),
      (''spc2_t0_pool'',
        [(''doublepool'', [(''size'', ''14542848'')]),
         (''egress_lossless_pool'', [(''size'', ''34287552'')])]),
      (''spc2_t1_pool'',
        [(''doublepool'', [(''size'', ''11622400'')]),
         (''egress_lossless_pool'', [(''size'', ''34287552'')])]),
      (''spc1_2700_t0_pool'',
        [(''singlepool'', [(''size'', ''9489408'')]),
         (''egress_lossless_pool'', [(''size'', ''13945824'')])]),
      (''spc1_2700_t1_pool'',
        [(''singlepool'', [(''size'', ''7719936'')]),
         (''egress_lossless_pool'', [(''size'', ''13945824'')])]),
      (''spc1_2700-d48c8_t0_pool'',
        [(''singlepool'', [(''size'', ''6687744'')]),
         (''egress_lossless_pool'', [(''size'', ''13945824'')])]),
      (''spc1_2700-d48c8_t1_pool'',
        [(''singlepool'', [(''size'', ''8506368'')]),
         (''egress_lossless_pool'', [(''size'', ''13945824'')])]),
      (''spc3_t0_pool'',
        [(''doublepool'', [(''size'', ''26451968'')]),
         (''egress_lossless_pool'', [(''size'', ''60817392'')])]),
      (''spc3_t1_pool'',
        [(''doublepool'', [(''size'', ''20627456'')]),
         (''egress_lossless_pool'', [(''size'', ''60817392'')])])]"

definition spc1_headrooms_v1_0_4 :: "(string \<times> headroom_set) list" where
  "spc1_headrooms_v1_0_4 =
     [(''default'', Headrooms
         [(''pg_lossless_10000_5m_profile'', [(''size'', ''49152''), (''xon'', ''19456'')]),
          (''pg_lossless_25000_5m_profile'', [(''size'', ''49152''), (''xon'', ''19456'')]),
          (''pg_lossless_40000_5m_profile'', [(''size'', ''49152''), (''xon'', ''19456'')]),
          (''pg_lossless_50000_5m_profile'', [(''size'', ''49152''), (''xon'', ''19456'')]),
          (''pg_lossless_100000_5m_profile'', [(''size'', ''50176''), (''xon'', ''19456'')]),
          (''pg_lossless_10000_40m_profile'', [(''size'', ''49152''), (''xon'', ''19456'')]),
          (''pg_lossless_25000_40m_profile'', [(''size'', ''51200''), (''xon'', ''19456'')]),
          (''pg_lossless_40000_40m_profile'', [(''size'', ''52224''), (''xon'', ''19456'')]),
          (''pg_lossless_50000_40m_profile'', [(''size'', ''53248''), (''xon'', ''19456'')]),
          (''pg_lossless_100000_40m_profile'', [(''size'', ''58368''), (''xon'', ''19456'')]),
          (''pg_lossless_10000_300m_profile'', [(''size'', ''56320''), (''xon'', ''19456'')]),
          (''pg_lossless_25000_300m_profile'', [(''size'', ''67584''), (''xon'', ''19456'')]),
          (''pg_lossless_40000_300m_profile'', [(''size'', ''78848''), (''xon'', ''19456'')]),
          (''pg_lossless_50000_300m_profile'', [(''size'', ''86016''), (''xon'', ''19456'')]),
          (''pg_lossless_100000_300m_profile'', [(''size'', ''123904''), (''xon'', ''19456'')])]),
      (''msft'', Headrooms
         [(''pg_lossless_10000_5m_profile'', [(''size'', ''41984''), (''xon'', ''19456'')]),
          (''pg_lossless_25000_5m_profile'', [(''size'', ''41984''), (''xon'', ''19456'')]),
          (''pg_lossless_40000_5m_profile'', [(''size'', ''41984''), (''xon'', ''19456'')]),
          (''pg_lossless_50000_5m_profile'', [(''size'', ''41984''), (''xon'', ''19456'')]),
          (''pg_lossless_100000_5m_profile'', [(''size'', ''43008''), (''xon'', ''19456'')]),
          (''pg_lossless_10000_40m_profile'', [(''size'', ''41984''), (''xon'', ''19456'')]),
          (''pg_lossless_25000_40m_profile'', [(''size'', ''44032''), (''xon'', ''19456'')]),
          (''pg_lossless_40000_40m_profile'', [(''size'', ''45056''), (''xon'', ''19456'')]),
          (''pg_lossless_50000_40m_profile'', [(''size'', ''45056''), (''xon'', ''19456'')]),
          (''pg_lossless_100000_40m_profile'', [(''size'', ''49152''), (''xon'', ''19456'')]),
          (''pg_lossless_10000_300m_profile'', [(''size'', ''47104''), (''xon'', ''19456'')]),
          (''pg_lossless_25000_300m_profile'', [(''size'', ''56320''), (''xon'', ''19456'')]),
          (''pg_lossless_40000_300m_profile'', [(''size'', ''64512''), (''xon'', ''19456'')]),
          (''pg_lossless_50000_300m_profile'', [(''size'', ''69632''), (''xon'', ''19456'')]),
          (''pg_lossless_100000_300m_profile'', [(''size'', ''98304''), (''xon'', ''19456'')])])]"

definition spc2_headrooms_v1_0_4 :: "(string \<times> headroom_set) list" where
  "spc2_headrooms_v1_0_4 =
     [(''default'', Headrooms
         [(''pg_lossless_10000_5m_profile'', [(''size'', ''52224''), (''xon'', ''19456'')]),
          (''pg_lossless_25000_5m_profile'', [(''size'', ''52224''), (''xon'', ''19456'')]),
          (''pg_lossless_40000_5m_profile'', [(''size'', ''53248''), (''xon'', ''19456'')]),
          (''pg_lossless_50000_5m_profile'', [(''size'', ''53248''), (''xon'', ''19456'')]),
          (''pg_lossless_100000_5m_profile'', [(''size'', ''53248''), (''xon'', ''19456'')]),
          (''pg_lossless_200000_5m_profile'', [(''size'', ''55296''), (''xon'', ''19456'')]),
          (''pg_lossless_10000_40m_profile'', [(''size'', ''53248''), (''xon'', ''19456'')]),
          (''pg_lossless_25000_40m_profile'', [(''size'', ''55296''), (''xon'', ''19456'')]),
          (''pg_lossless_40000_40m_profile'', [(''size'', ''57344''), (''xon'', ''19456'')]),
          (''pg_lossless_50000_40m_profile'', [(''size'', ''58368''), (''xon'', ''19456'')]),
          (''pg_lossless_100000_40m_profile'', [(''size'', ''63488''), (''xon'', ''19456'')]),
          (''pg_lossless_200000_40m_profile'', [(''size'', ''74752''), (''xon'', ''19456'')]),
          (''pg_lossless_10000_300m_profile'', [(''size'', ''60416''), (''xon'', ''19456'')]),
          (''pg_lossless_25000_300m_profile'', [(''size'', ''73728''), (''xon'', ''19456'')]),
          (''pg_lossless_40000_300m_profile'', [(''size'', ''86016''), (''xon'', ''19456'')]),
          (''pg_lossless_50000_300m_profile'', [(''size'', ''95232''), (''xon'', ''19456'')]),
          (''pg_lossless_100000_300m_profile'', [(''size'', ''137216''), (''xon'', ''19456'')]),
          (''pg_lossless_200000_300m_profile'', [(''size'', ''223232''), (''xon'', ''19456'')])])]"

definition spc3_headrooms_v1_0_4 :: "(string \<times> headroom_set) list" where
  "spc3_headrooms_v1_0_4 =
     [(''default'', Headrooms
         [(''pg_lossless_10000_5m_profile'', [(''size'', ''52224''), (''xon'', ''19456'')]),
          (''pg_lossless_25000_5m_profile'', [(''size'', ''52224''), (''xon'', ''19456'')]),
          (''pg_lossless_40000_5m_profile'', [(''size'', ''53248''), (''xon'', ''19456'')]),
          (''pg_lossless_50000_5m_profile'', [(''size'', ''53248''), (''xon'', ''19456'')]),
          (''pg_lossless_100000_5m_profile'', [(''size'', ''53248''), (''xon'', ''19456'')]),
          (''pg_lossless_200000_5m_profile'', [(''size'', ''55296''), (''xon'', ''19456'')]),
          (''pg_lossless_400000_5m_profile'', [(''size'', ''86016''), (''xon'', ''37888'')]),
          (''pg_lossless_10000_40m_profile'', [(''size'', ''53248''), (''xon'', ''19456'')]),
          (''pg_lossless_25000_40m_profile'', [(''size'', ''55296''), (''xon'', ''19456'')]),
          (''pg_lossless_40000_40m_profile'', [(''size'', ''57344''), (''xon'', ''19456'')]),
          (''pg_lossless_50000_40m_profile'', [(''size'', ''58368''), (''xon'', ''19456'')]),
          (''pg_lossless_100000_40m_profile'', [(''size'', ''63488''), (''xon'', ''19456'')]),
          (''pg_lossless_200000_40m_profile'', [(''size'', ''74752''), (''xon'', ''19456'')]),
          (''pg_lossless_400000_40m_profile'', [(''size'', ''124928''), (''xon'', ''37888'')]),
          (''pg_lossless_10000_300m_profile'', [(''size'', ''60416''), (''xon'', ''19456'')]),
          (''pg_lossless_25000_300m_profile'', [(''size'', ''73728''), (''xon'', ''19456'')]),
          (''pg_lossless_40000_300m_profile'', [(''size'', ''86016''), (''xon'', ''19456'')]),
          (''pg_lossless_50000_300m_profile'', [(''size'', ''95232''), (''xon'', ''19456'')]),
          (''pg_lossless_100000_300m_profile'', [(''size'', ''137216''), (''xon'', ''19456'')]),
          (''pg_lossless_200000_300m_profile'', [(''size'', ''223232''), (''xon'', ''19456'')]),
          (''pg_lossless_400000_300m_profile'', [(''size'', ''420864''), (''xon'', ''37888'')])])]"

definition profiles_v1_0_4 :: "(string \<times> (string \<times> fields) list) list" where
  "profiles_v1_0_4 =
     [(''default'',
        [(''ingress_lossless_profile'', [(''dynamic_th'', ''7''), (''pool'', ''[BUFFER_POOL|ingress_lossless_pool]''), (''size'', ''0'')]),
         (''ingress_lossy_profile'', [(''dynamic_th'', ''3''), (''pool'', ''[BUFFER_POOL|ingress_lossy_pool]''), (''size'', ''0'')]),
         (''egress_lossless_profile'', [(''dynamic_th'', ''7''), (''pool'', ''[BUFFER_POOL|egress_lossless_pool]''), (''size'', ''0'')]),
         (''egress_lossy_profile'', [(''dynamic_th'', ''7''), (''pool'', ''[BUFFER_POOL|egress_lossy_pool]''), (''size'', ''9216'')]),
         (''q_lossy_profile'', [(''dynamic_th'', ''3''), (''pool'', ''[BUFFER_POOL|egress_lossy_pool]''), (''size'', ''0'')])]),
      (''singlepool'',
        [(''ingress_lossless_profile'', [(''dynamic_th'', ''7''), (''pool'', ''[BUFFER_POOL|ingress_lossless_pool]''), (''size'', ''0'')]),
         (''ingress_lossy_profile'', [(''dynamic_th'', ''3''), (''pool'', ''[BUFFER_POOL|ingress_lossless_pool]''), (''size'', ''0'')]),
         (''egress_lossless_profile'', [(''dynamic_th'', ''7''), (''pool'', ''[BUFFER_POOL|egress_lossless_pool]''), (''size'', ''0'')]),
         (''egress_lossy_profile'', [(''dynamic_th'', ''7''), (''pool'', ''[BUFFER_POOL|egress_lossy_pool]''), (''size'', ''9216'')]),
         (''q_lossy_profile'', [(''dynamic_th'', ''3''), (''pool'', ''[BUFFER_POOL|egress_lossy_pool]''), (''size'', ''0'')])])]"

definition params_v1_0_4 :: "buffer_params" where
  "params_v1_0_4 =
     \<lparr>pool_configuration_list = None,
      buffer_pool_list = [''ingress_lossless_pool'', ''ingress_lossy_pool'', ''egress_lossless_pool'', ''egress_lossy_pool''],
      buffer_pools = pools_v1_0_4,
      buffer_pools_inherited = None,
      pool_mapped_from_old_version = None,
      pool_convert_map = None,
      headrooms = Some [(''spc1_headroom'', spc1_headrooms_v1_0_4), (''spc2_headroom'', spc2_headrooms_v1_0_4), (''spc3_headroom'', spc3_headrooms_v1_0_4)],
      headroom_mapping = None,
      buffer_profiles = Some profiles_v1_0_4\<rparr>"

section \<open>Version 1.0.5\<close>

definition pools_v1_0_5 :: "(string \<times> pool_conf) list" where
  "pools_v1_0_5 =
     [(''spc1_2700_t0_pool_shp'',
        [(''doublepool'', [(''size'', ''5088768''), (''xoff'', ''688128'')]),
         (''egress_lossless_pool'', [(''size'', ''13945824'')])]),
      (''spc1_2700_t1_pool_shp'',
        [(''doublepool'', [(''size'', ''4646400''), (''xoff'', ''1572864'')]),
         (''egress_lossless_pool'', [(''size'', ''13945824'')])]),
      (''spc1_2700-d48c8_t0_pool_shp'',
        [(''doublepool'', [(''size'', ''3859968''), (''xoff'', ''1032192'')]),
         (''egress_lossless_pool'', [(''size'', ''13945824'')])]),
      (''spc1_2700-d48c8_t1_pool_shp'',
        [(''doublepool'', [(''size'', ''4843008''), (''xoff'', ''1179648'')]),
         (''egress_lossless_pool'', [(''size'', ''13945824'')])]),
      (''spc1_2700_t0_single_pool_shp'',
        [(''singlepool'', [(''size'', ''10177536''), (''xoff'', ''688128'')]),
         (''egress_lossless_pool'', [(''size'', ''13945824'')])]),
      (''spc1_2700_t1_single_pool_shp'',
        [(''singlepool'', [(''size'', ''9292800''), (''xoff'', ''1572864'')]),
         (''egress_lossless_pool'', [(''size'', ''13945824'')])]),
      (''spc1_2700-d48c8_t0_single_pool_shp'',
        [(''singlepool'', [(''size'', ''7719936''), (''xoff'', ''1032192'')]),
         (''egress_lossless_pool'', [(''size'', ''13945824'')])]),
      (''spc1_2700-d48c8_t1_single_pool_shp'',
        [(''singlepool'', [(''size'', ''9686016''), (''xoff'', ''1179648'')]),
         (''egress_lossless_pool'', [(''size'', ''13945824'')])]),
      (''spc2_3800_t0_pool'',
        [(''doublepool'', [(''size'', ''13924352'')]),
         (''egress_lossless_pool'', [(''size'', ''34287552'')])]),
      (''spc2_3800_t1_pool'',
        [(''doublepool'', [(''size'', ''12457984'')]),
         (''egress_lossless_pool'', [(''size'', ''34287552'')])]),
      (''spc2_3800-c64_t0_pool_shp'',
        [(''singlepool'', [(''size'', ''25866240''), (''xoff'', ''2523136'')]),
         (''egress_lossless_pool'', [(''size'', ''34287552'')])]),
      (''spc2_3800-c64_t1_pool_shp'',
        [(''singlepool'', [(''size'', ''23900160''), (''xoff'', ''4489216'')]),
         (''egress_lossless_pool'', [(''size'', ''34287552'')])]),
      (''spc2_3800-d112c8_t0_pool_shp'',
        [(''singlepool'', [(''size'', ''20017152''), (''xoff'', ''3440640'')]),
         (''egress_lossless_pool'', [(''size'', ''34287552'')])]),
      (''spc2_3800-d112c8_t1_pool_shp'',
        [(''singlepool'', [(''size'', ''19124224''), (''xoff'', ''4333568'')]),
         (''egress_lossless_pool'', [(''size'', ''34287552'')])]),
      (''spc2_3800-d24c52_t0_pool_shp'',
        [(''singlepool'', [(''size'', ''24576000''), (''xoff'', ''2756608'')]),
         (''egress_lossless_pool'', [(''size'', ''34287552'')])]),
      (''spc2_3800-d24c52_t1_pool_shp'',
        [(''singlepool'', [(''size'', ''22597632''), (''xoff'', ''4734976'')]),
         (''egress_lossless_pool'', [(''size'', ''34287552'')])]),
      (''spc2_3800-d28c50_t0_pool_shp'',
        [(''singlepool'', [(''size'', ''24360960''), (''xoff'', ''2795520'')]),
         (''egress_lossless_pool'', [(''size'', ''34287552'')])]),
      (''spc2_3800-d28c50_t1_pool_shp'',
        [(''singlepool'', [(''size'', ''22380544''), (''xoff'', ''4775936'')]),
         (''egress_lossless_pool'', [(''size'', ''34287552'')])])]"

definition spc1_headrooms_v1_0_5 :: "(string \<times> headroom_set) list" where
  "spc1_headrooms_v1_0_5 =
     [(''default'', HeadroomOf ''version_1_0_4'' ''spc1_headroom''),
      (''msft'', Headrooms
         [(''pg_lossless_10000_5m_profile'', [(''xoff'', ''22528''), (''xon'', ''19456'')]),
          (''pg_lossless_25000_5m_profile'', [(''xoff'', ''22528''), (''xon'', ''19456'')]),
          (''pg_lossless_40000_5m_profile'', [(''xoff'', ''22528''), (''xon'', ''19456'')]),
          (''pg_lossless_50000_5m_profile'', [(''xoff'', ''22528''), (''xon'', ''19456'')]),
          (''pg_lossless_100000_5m_profile'', [(''xoff'', ''23552''), (''xon'', ''19456'')]),
          (''pg_lossless_10000_40m_profile'', [(''xoff'', ''22528''), (''xon'', ''19456'')]),
          (''pg_lossless_25000_40m_profile'', [(''xoff'', ''24576''), (''xon'', ''19456'')]),
          (''pg_lossless_40000_40m_profile'', [(''xoff'', ''25600''), (''xon'', ''19456'')]),
          (''pg_lossless_50000_40m_profile'', [(''xoff'', ''25600''), (''xon'', ''19456'')]),
          (''pg_lossless_100000_40m_profile'', [(''xoff'', ''29696''), (''xon'', ''19456'')]),
          (''pg_lossless_10000_300m_profile'', [(''xoff'', ''27648''), (''xon'', ''19456'')]),
          (''pg_lossless_25000_300m_profile'', [(''xoff'', ''36864''), (''xon'', ''19456'')]),
          (''pg_lossless_40000_300m_profile'', [(''xoff'', ''45056''), (''xon'', ''19456'')]),
          (''pg_lossless_50000_300m_profile'', [(''xoff'', ''50176''), (''xon'', ''19456'')]),
          (''pg_lossless_100000_300m_profile'', [(''xoff'', ''78848''), (''xon'', ''19456'')])])]"

definition spc2_headrooms_v1_0_5 :: "(string \<times> headroom_set) list" where
  "spc2_headrooms_v1_0_5 =
     [(''default'', HeadroomOf ''version_1_0_4'' ''spc2_headroom'')]"

definition spc2_3800_headrooms_v1_0_5 :: "(string \<times> headroom_set) list" where
  "spc2_3800_headrooms_v1_0_5 =
     [(''default'', Headrooms
         [(''pg_lossless_10000_5m_profile'', [(''size'', ''54272''), (''xon'', ''19456'')]),
          (''pg_lossless_25000_5m_profile'', [(''size'', ''58368''), (''xon'', ''19456'')]),
          (''pg_lossless_40000_5m_profile'', [(''size'', ''61440''), (''xon'', ''19456'')]),
          (''pg_lossless_50000_5m_profile'', [(''size'', ''64512''), (''xon'', ''19456'')]),
          (''pg_lossless_100000_5m_profile'', [(''size'', ''75776''), (''xon'', ''19456'')]),
          (''pg_lossless_10000_40m_profile'', [(''size'', ''55296''), (''xon'', ''19456'')]),
          (''pg_lossless_25000_40m_profile'', [(''size'', ''60416''), (''xon'', ''19456'')]),
          (''pg_lossless_40000_40m_profile'', [(''size'', ''65536''), (''xon'', ''19456'')]),
          (''pg_lossless_50000_40m_profile'', [(''size'', ''69632''), (''xon'', ''19456'')]),
          (''pg_lossless_100000_40m_profile'', [(''size'', ''86016''), (''xon'', ''19456'')]),
          (''pg_lossless_10000_300m_profile'', [(''size'', ''63488''), (''xon'', ''19456'')]),
          (''pg_lossless_25000_300m_profile'', [(''size'', ''78848''), (''xon'', ''19456'')]),
          (''pg_lossless_40000_300m_profile'', [(''size'', ''95232''), (''xon'', ''19456'')]),
          (''pg_lossless_50000_300m_profile'', [(''size'', ''106496''), (''xon'', ''19456'')]),
          (''pg_lossless_100000_300m_profile'', [(''size'', ''159744''), (''xon'', ''19456'')])]),
      (''msft'', Headrooms
         [(''pg_lossless_10000_5m_profile'', [(''xoff'', ''25600''), (''xon'', ''19456'')]),
          (''pg_lossless_25000_5m_profile'', [(''xoff'', ''28672''), (''xon'', ''19456'')]),
          (''pg_lossless_40000_5m_profile'', [(''xoff'', ''30720''), (''xon'', ''19456'')]),
          (''pg_lossless_50000_5m_profile'', [(''xoff'', ''32768''), (''xon'', ''19456'')]),
          (''pg_lossless_100000_5m_profile'', [(''xoff'', ''40960''), (''xon'', ''19456'')]),
          (''pg_lossless_10000_40m_profile'', [(''xoff'', ''26624''), (''xon'', ''19456'')]),
          (''pg_lossless_25000_40m_profile'', [(''xoff'', ''30720''), (''xon'', ''19456'')]),
          (''pg_lossless_40000_40m_profile'', [(''xoff'', ''33792''), (''xon'', ''19456'')]),
          (''pg_lossless_50000_40m_profile'', [(''xoff'', ''36864''), (''xon'', ''19456'')]),
          (''pg_lossless_100000_40m_profile'', [(''xoff'', ''48128''), (''xon'', ''19456'')]),
          (''pg_lossless_10000_300m_profile'', [(''xoff'', ''31744''), (''xon'', ''19456'')]),
          (''pg_lossless_25000_300m_profile'', [(''xoff'', ''44032''), (''xon'', ''19456'')]),
          (''pg_lossless_40000_300m_profile'', [(''xoff'', ''55296''), (''xon'', ''19456'')]),
          (''pg_lossless_50000_300m_profile'', [(''xoff'', ''63488''), (''xon'', ''19456'')]),
          (''pg_lossless_100000_300m_profile'', [(''xoff'', ''102400''), (''xon'', ''19456'')])])]"

definition spc3_headrooms_v1_0_5 :: "(string \<times> headroom_set) list" where
  "spc3_headrooms_v1_0_5 =
     [(''default'', HeadroomOf ''version_1_0_4'' ''spc3_headroom'')]"

definition inherited_v1_0_5 :: "(string \<times> string list) list" where
  "inherited_v1_0_5 =
     [(''version_1_0_4'',
        [''spc1_t0_pool'', ''spc1_t1_pool'', ''spc2_t0_pool'', ''spc2_t1_pool'', ''spc3_t0_pool'', ''spc3_t1_pool''])]"

definition convert_map_v1_0_5 :: "(string \<times> (string \<times> string) list) list" where
  "convert_map_v1_0_5 =
     [(''spc1_t0_pool_sku_map'',
        [(''Mellanox-SN2700-C28D8'', ''spc1_2700-d48c8_t0_pool_shp''),
         (''Mellanox-SN2700-D48C8'', ''spc1_2700-d48c8_t0_pool_shp''),
         (''Mellanox-SN2700-D40C8S8'', ''spc1_2700-d48c8_t0_single_pool_shp''),
         (''Mellanox-SN2700'', ''spc1_2700_t0_pool_shp'')]),
      (''spc1_t1_pool_sku_map'',
        [(''Mellanox-SN2700-C28D8'', ''spc1_2700-d48c8_t1_pool_shp''),
         (''Mellanox-SN2700-D48C8'', ''spc1_2700-d48c8_t1_pool_shp''),
         (''Mellanox-SN2700-D40C8S8'', ''spc1_2700-d48c8_t1_single_pool_shp''),
         (''Mellanox-SN2700'', ''spc1_2700_t1_pool_shp'')])]"

definition mapped_v1_0_5 :: "(string \<times> pool_target) list" where
  "mapped_v1_0_5 =
     [(''spc1_t0_pool'', PoolBy ''sku'' ''spc1_t0_pool_sku_map''),
      (''spc1_t1_pool'', PoolBy ''sku'' ''spc1_t1_pool_sku_map''),
      (''spc1_2700_t0_pool'', PoolName ''spc1_2700_t0_single_pool_shp''),
      (''spc1_2700_t1_pool'', PoolName ''spc1_2700_t1_single_pool_shp''),
      (''spc1_2700-d48c8_t0_pool'', PoolName ''spc1_2700-d48c8_t0_single_pool_shp''),
      (''spc1_2700-d48c8_t1_pool'', PoolName ''spc1_2700-d48c8_t1_single_pool_shp'')]"

definition headroom_map_v1_0_5 :: "(string \<times> headroom_target) list" where
  "headroom_map_v1_0_5 =
     [(''default'', HeadroomBy ''skumap''
        [(''Mellanox-SN2700'', ''msft''),
         (''Mellanox-SN2700-C28D8'', ''msft''),
         (''Mellanox-SN2700-D48C8'', ''msft''),
         (''Mellanox-SN2700-D40C8S8'', ''msft'')])]"

definition params_v1_0_5 :: "buffer_params" where
  "params_v1_0_5 =
     \<lparr>pool_configuration_list = None,
      buffer_pool_list = [''ingress_lossless_pool'', ''ingress_lossy_pool'', ''egress_lossless_pool'', ''egress_lossy_pool''],
      buffer_pools = pools_v1_0_5,
      buffer_pools_inherited = Some inherited_v1_0_5,
      pool_mapped_from_old_version = Some mapped_v1_0_5,
      pool_convert_map = Some convert_map_v1_0_5,
      headrooms = Some [(''spc1_headroom'', spc1_headrooms_v1_0_5), (''spc2_headroom'', spc2_headrooms_v1_0_5), (''spc2_3800_headroom'', spc2_3800_headrooms_v1_0_5), (''spc3_headroom'', spc3_headrooms_v1_0_5)],
      headroom_mapping = Some headroom_map_v1_0_5,
      buffer_profiles = None\<rparr>"

section \<open>Version 1.0.6\<close>

definition pools_v1_0_6 :: "(string \<times> pool_conf) list" where
  "pools_v1_0_6 =
     [(''spc1_2700_t1_pool_shp'',
        [(''doublepool'', [(''size'', ''4439552''), (''xoff'', ''2146304'')]),
         (''egress_lossless_pool'', [(''size'', ''13945824'')])]),
      (''spc1_2700_t1_single_pool_shp'',
        [(''singlepool'', [(''size'', ''8719360''), (''xoff'', ''2146304'')]),
         (''egress_lossless_pool'', [(''size'', ''13945824'')])]),
      (''spc2_3800-c64_t1_pool_shp'',
        [(''singlepool'', [(''size'', ''24219648''), (''xoff'', ''4169728'')]),
         (''egress_lossless_pool'', [(''size'', ''34287552'')])])]"

definition inherited_v1_0_6 :: "(string \<times> string list) list" where
  "inherited_v1_0_6 =
     [(''version_1_0_4'',
        [''spc1_t0_pool'', ''spc1_t1_pool'', ''spc2_t0_pool'', ''spc2_t1_pool'', ''spc3_t0_pool'', ''spc3_t1_pool'']),
      (''version_1_0_5'',
        [''spc2_3800_t0_pool'', ''spc2_3800_t1_pool'', ''spc1_2700_t0_pool_shp'', ''spc1_2700_t0_single_pool_shp'',
         ''spc1_2700-d48c8_t0_pool_shp'', ''spc1_2700-d48c8_t0_single_pool_shp'', ''spc2_3800-c64_t0_pool_shp'',
         ''spc2_3800-d112c8_t0_pool_shp'', ''spc2_3800-d24c52_t0_pool_shp'', ''spc2_3800-d28c50_t0_pool_shp'',
         ''spc1_2700-d48c8_t1_pool_shp'', ''spc1_2700-d48c8_t1_single_pool_shp'', ''spc2_3800-d112c8_t1_pool_shp'',
         ''spc2_3800-d24c52_t1_pool_shp'', ''spc2_3800-d28c50_t1_pool_shp''])]"

definition params_v1_0_6 :: "buffer_params" where
  "params_v1_0_6 =
     \<lparr>pool_configuration_list = None,
      buffer_pool_list = [''ingress_lossless_pool'', ''ingress_lossy_pool'', ''egress_lossless_pool'', ''egress_lossy_pool''],
      buffer_pools = pools_v1_0_6,
      buffer_pools_inherited = Some inherited_v1_0_6,
      pool_mapped_from_old_version = None,
      pool_convert_map = None,
      headrooms = None,
      headroom_mapping = None,
      buffer_profiles = None\<rparr>"

section \<open>Version 2.0.0\<close>

definition pools_v2_0_0 :: "(string \<times> pool_conf) list" where
  "pools_v2_0_0 =
     [(''spc1_pool'',
        [(''doublepool'', [(''size'', ''dynamic'')]),
         (''egress_lossless_pool'', [(''size'', ''13945824'')])]),
      (''spc2_pool'',
        [(''doublepool'', [(''size'', ''dynamic'')]),
         (''egress_lossless_pool'', [(''size'', ''34287552'')])]),
      (''spc3_pool'',
        [(''doublepool'', [(''size'', ''dynamic'')]),
         (''egress_lossless_pool'', [(''size'', ''60817392'')])])]"

definition inherited_v2_0_0 :: "(string \<times> string list) list" where
  "inherited_v2_0_0 =
     [(''version_1_0_5'',
        [''spc1_2700_t0_pool_shp'', ''spc1_2700_t0_single_pool_shp'', ''spc1_2700-d48c8_t0_pool_shp'',
         ''spc1_2700-d48c8_t0_single_pool_shp'', ''spc2_3800-c64_t0_pool_shp'', ''spc2_3800-d112c8_t0_pool_shp'',
         ''spc2_3800-d24c52_t0_pool_shp'', ''spc2_3800-d28c50_t0_pool_shp'', ''spc1_2700-d48c8_t1_pool_shp'',
         ''spc1_2700-d48c8_t1_single_pool_shp'', ''spc2_3800-d112c8_t1_pool_shp'', ''spc2_3800-d24c52_t1_pool_shp'',
         ''spc2_3800-d28c50_t1_pool_shp'']),
      (''version_1_0_6'',
        [''spc1_2700_t1_pool_shp'', ''spc1_2700_t1_single_pool_shp'', ''spc2_3800-c64_t1_pool_shp''])]"

definition mapped_v2_0_0 :: "(string \<times> pool_target) list" where
  "mapped_v2_0_0 =
     [(''spc1_t0_pool'', PoolName ''spc1_pool''),
      (''spc1_t1_pool'', PoolName ''spc1_pool''),
      (''spc2_t0_pool'', PoolName ''spc2_pool''),
      (''spc2_t1_pool'', PoolName ''spc2_pool''),
      (''spc2_3800_t0_pool'', PoolName ''spc2_pool''),
      (''spc2_3800_t1_pool'', PoolName ''spc2_pool''),
      (''spc3_t0_pool'', PoolName ''spc3_pool''),
      (''spc3_t1_pool'', PoolName ''spc3_pool'')]"

definition params_v2_0_0 :: "buffer_params" where
  "params_v2_0_0 =
     \<lparr>pool_configuration_list = None,
      buffer_pool_list = [''ingress_lossless_pool'', ''ingress_lossy_pool'', ''egress_lossless_pool'', ''egress_lossy_pool''],
      buffer_pools = pools_v2_0_0,
      buffer_pools_inherited = Some inherited_v2_0_0,
      pool_mapped_from_old_version = Some mapped_v2_0_0,
      pool_convert_map = None,
      headrooms = None,
      headroom_mapping = None,
      buffer_profiles = None\<rparr>"

section \<open>All versions\<close>

definition mellanox_default_parameter :: "(string \<times> buffer_params) list" where
  "mellanox_default_parameter =
     [(''version_1_0_2'', params_v1_0_2), (''version_1_0_3'', params_v1_0_3), (''version_1_0_4'', params_v1_0_4),
      (''version_1_0_5'', params_v1_0_5), (''version_1_0_6'', params_v1_0_6), (''version_2_0_0'', params_v2_0_0)]"

end
