(* ===== verification/MlnxBufferMigrator.thy ===== *)
theory MlnxBufferMigrator
  imports MlnxParameters
begin

text \<open>
  The buffer migration of one ASIC vendor (\<open>scripts/mellanox_buffer_migrator.py\<close>): a configuration that equals one of
  the defaults of a version is replaced by the default it is mapped to in the next one; what is to be written is
  collected in \<open>pending_update_items\<close> and flushed at the end of a step. The source extends the condensed defaults in
  place; extending twice changes nothing, and every read follows an extension, so that here the extension is a function.
\<close>

named_theorems mlnx_data \<open>the tables of default parameters\<close>

section \<open>The object\<close>

definition mlnx_init :: "'d mig_db \<Rightarrow> 'd \<Rightarrow> mlnx_obj" where
  "mlnx_init DB w =
     (let device_data = cf_entry DB w ''DEVICE_METADATA'' [''localhost''];
          p = map_of device_data ''platform''; s = map_of device_data ''hwsku'' in
      \<lparr>platform = p, sku = s, ready = (p \<notin> {None, Some []} \<and> s \<notin> {None, Some []}),
       pending_update_items = [], is_buffer_config_default = True\<rparr>)"

definition spc1_platforms :: "string list" where
  "spc1_platforms = [''x86_64-mlnx_msn2010-r0'', ''x86_64-mlnx_msn2100-r0'', ''x86_64-mlnx_msn2410-r0'',
     ''x86_64-mlnx_msn2700-r0'', ''x86_64-mlnx_msn2740-r0'']"

definition spc2_platforms :: "string list" where
  "spc2_platforms = [''x86_64-mlnx_msn3700-r0'', ''x86_64-mlnx_msn3700c-r0'']"

definition spc3_platforms :: "string list" where
  "spc3_platforms = [''x86_64-mlnx_msn4600-r0'', ''x86_64-mlnx_msn4600c-r0'', ''x86_64-mlnx_msn4700-r0'']"

definition msftskus :: "string list" where
  "msftskus = [''Mellanox-SN2700'', ''Mellanox-SN2700-C28D8'', ''Mellanox-SN2700-D48C8'', ''Mellanox-SN2700-D40C8S8'',
     ''Mellanox-SN3800-C64'', ''Mellanox-SN3800-D24C52'', ''Mellanox-SN3800-D112C8'', ''Mellanox-SN3800-D28C50'']"

definition is_msft_sku :: "mlnx_obj \<Rightarrow> bool" where
  "is_msft_sku B = (case sku B of None \<Rightarrow> False | Some s \<Rightarrow> s \<in> set msftskus)"

definition default_speed_list :: "string list" where
  "default_speed_list = [''1000'', ''10000'', ''25000'', ''40000'', ''50000'', ''100000'', ''200000'', ''400000'']"

definition default_cable_len_list :: "string list" where
  "default_cable_len_list = [''5m'', ''40m'', ''300m'']"

text \<open>What a step assigns to \<open>is_buffer_config_default\<close> and appends to \<open>pending_update_items\<close>.\<close>

definition set_default :: "bool \<Rightarrow> ('d, unit) mig" where
  "set_default b = on_obj (\<lambda>B. B\<lparr>is_buffer_config_default := b\<rparr>)"

definition mlnx_append_item_on_pending_configuration_list :: "string \<times> string list \<times> fields option \<Rightarrow> ('d, unit) mig" where
  "mlnx_append_item_on_pending_configuration_list item =
     on_obj (\<lambda>B. B\<lparr>pending_update_items := pending_update_items B @ [item]\<rparr>)"

definition append_items :: "(string \<times> string list \<times> fields option) list \<Rightarrow> ('d, unit) mig" where
  "append_items = act_each mlnx_append_item_on_pending_configuration_list"

definition mlnx_abandon_pending_buffer_configuration :: "('d, unit) mig" where
  "mlnx_abandon_pending_buffer_configuration =
     on_obj (\<lambda>B. B\<lparr>pending_update_items := [], is_buffer_config_default := False\<rparr>)"

definition mlnx_is_buffer_model_dynamic :: "('d, bool) mig" where
  "mlnx_is_buffer_model_dynamic = of_obj (\<lambda>B. is_buffer_config_default B \<and> \<not> is_msft_sku B)"

definition mlnx_flush_new_buffer_configuration :: "'d mig_db \<Rightarrow> ('d, bool) mig" where
  "mlnx_flush_new_buffer_configuration DB =
     act_bind (of_obj id) (\<lambda>B. if \<not> ready B then act_return True
     else seq (act_when (\<not> is_buffer_config_default B \<or> is_msft_sku B)
           (act_bind (reads (\<lambda>w. cf_entry DB w ''DEVICE_METADATA'' [''localhost''])) (\<lambda>metadata.
            write_entry DB ''DEVICE_METADATA'' [''localhost''] (AList.update ''buffer_model'' ''traditional'' metadata))))
       (seq (act_each (\<lambda>(t, k, v). on_db (cf_set_entry DB t k v)) (pending_update_items B))
         (act_return True)))"

section \<open>Defaults\<close>

definition getitem :: "('k \<times> 'a) list \<Rightarrow> 'k \<Rightarrow> err + 'a" where
  "getitem d k = (case map_of d k of None \<Rightarrow> Inl KeyError | Some v \<Rightarrow> Inr v)"

definition mlnx_default_buffer_parameters :: "string \<Rightarrow> err + buffer_params" where
  "mlnx_default_buffer_parameters db_version = getitem mellanox_default_parameter db_version"

text \<open>The lookups in a base version see its own pools only: no name taken over is one it took over itself.\<close>

definition merge_inherited_list :: "(string \<times> pool_conf) list \<Rightarrow> string list \<Rightarrow> (string \<times> pool_conf) list \<Rightarrow> (string \<times> pool_conf) list" where
  "merge_inherited_list base names pools =
     foldl (\<lambda>d key. case map_of base key of None \<Rightarrow> d | Some conf \<Rightarrow> if conf = [] then d else AList.update key conf d) pools names"

definition mlnx_merge_inherited_info :: "buffer_params \<Rightarrow> (string \<times> pool_conf) list \<Rightarrow> err + (string \<times> pool_conf) list" where
  "mlnx_merge_inherited_info p pools = (case buffer_pools_inherited p of
     None \<Rightarrow> Inr pools
   | Some inherited_info \<Rightarrow> rfoldM (\<lambda>pools (from_version, inherited_pool_list).
       rbind (mlnx_default_buffer_parameters from_version) (\<lambda>base.
       Inr (merge_inherited_list (buffer_pools base) inherited_pool_list pools))) pools inherited_info)"

text \<open>\<open>None\<close> is the flavour without a mapping, and an unsupported method.\<close>

definition mlnx_migrate_map_old_pool_to_new :: "mlnx_obj \<Rightarrow> buffer_params \<Rightarrow> string \<Rightarrow> err + string option" where
  "mlnx_migrate_map_old_pool_to_new B p old_config_name = (case pool_mapped_from_old_version p of
     None \<Rightarrow> Inr None
   | Some pool_mapping \<Rightarrow> (case map_of pool_mapping old_config_name of
         None \<Rightarrow> Inr None
       | Some (PoolName n) \<Rightarrow> Inr (Some n)
       | Some (PoolBy how mapname) \<Rightarrow>
           if how \<noteq> ''sku'' then Inr None
           else (case pool_convert_map p of
               None \<Rightarrow> Inl AttributeError
             | Some maps \<Rightarrow> (case map_of maps mapname of
                   None \<Rightarrow> Inl AttributeError
                 | Some skumap \<Rightarrow> Inr (case sku B of None \<Rightarrow> None | Some s \<Rightarrow> map_of skumap s)))))"

text \<open>A condensed pool, whether it is double, and the configuration without it.\<close>

definition condensed_pool :: "pool_conf \<Rightarrow> (fields \<times> bool \<times> pool_conf) option" where
  "condensed_pool pool_config = (case map_of pool_config ''doublepool'' of
     Some (f # fs) \<Rightarrow> Some (f # fs, True, AList.delete ''doublepool'' pool_config)
   | _ \<Rightarrow> (case map_of pool_config ''singlepool'' of
         Some (f # fs) \<Rightarrow> Some (f # fs, False, AList.delete ''singlepool'' pool_config)
       | _ \<Rightarrow> None))"

definition mlnx_migrate_extend_condensed_pool :: "pool_conf \<Rightarrow> err + pool_conf" where
  "mlnx_migrate_extend_condensed_pool pool_config = (case condensed_pool pool_config of
     None \<Rightarrow> Inr pool_config
   | Some (condensedpool, doublepool, pool_config) \<Rightarrow>
       (let xoff = map_of condensedpool ''xoff''; has_xoff = (xoff \<noteq> None \<and> xoff \<noteq> Some []);
            condensedpool = (if has_xoff then AList.delete ''xoff'' condensedpool else condensedpool) in
        rbind (getitem condensedpool ''size'') (\<lambda>size.
        let condensedpool = (if size = ''dynamic'' then AList.delete ''size'' condensedpool else condensedpool);
            condensedpool = AList.update ''mode'' ''dynamic'' (AList.update ''type'' ''egress'' condensedpool);
            pool_config = AList.update ''egress_lossy_pool'' condensedpool pool_config in
        rbind (getitem pool_config ''egress_lossless_pool'') (\<lambda>e.
        let pool_config = AList.update ''egress_lossless_pool'' (AList.update ''mode'' ''dynamic'' (AList.update ''type'' ''egress'' e)) pool_config;
            condensedpool = AList.update ''type'' ''ingress'' condensedpool;
            lossless = (if has_xoff then AList.update ''xoff'' (the xoff) condensedpool else condensedpool);
            pool_config = AList.update ''ingress_lossless_pool'' lossless pool_config in
        Inr (if doublepool then AList.update ''ingress_lossy_pool'' condensedpool pool_config else pool_config)))))"

definition mlnx_migrate_get_headroom_profiles :: "headroom_set \<Rightarrow> err + (string \<times> fields) list" where
  "mlnx_migrate_get_headroom_profiles headroom_profile_set = (case headroom_profile_set of
     Headrooms d \<Rightarrow> Inr d
   | HeadroomOf version key \<Rightarrow>
       rbind (mlnx_default_buffer_parameters version) (\<lambda>p. case headrooms p of
         None \<Rightarrow> Inl TypeError
       | Some hs \<Rightarrow> rbind (getitem hs key) (\<lambda>h. rbind (getitem h ''default'') (\<lambda>s. case s of
             Headrooms d \<Rightarrow> Inr d
           | HeadroomOf _ _ \<Rightarrow> Inl AttributeError))))"

definition mlnx_migrate_extend_headroom_profile :: "fields \<Rightarrow> err + fields" where
  "mlnx_migrate_extend_headroom_profile headroom_profile =
     (let h = AList.update ''dynamic_th'' ''0'' headroom_profile in
      rbind (if map_of h ''xoff'' = None
          then rbind (rbind (getitem h ''size'') py_int) (\<lambda>size. rbind (rbind (getitem h ''xon'') py_int) (\<lambda>xon.
               Inr (AList.update ''xoff'' (int_str (size - xon)) h)))
          else if map_of h ''size'' = None
          then rbind (getitem h ''xon'') (\<lambda>xon. Inr (AList.update ''size'' xon h))
          else Inr h) (\<lambda>h.
      Inr (AList.update ''pool'' ''[BUFFER_POOL|ingress_lossless_pool]'' h)))"

section \<open>Buffer pools\<close>

text \<open>Equality of dictionaries: their order does not matter.\<close>

definition dict_equal :: "('a \<Rightarrow> 'a \<Rightarrow> bool) \<Rightarrow> ('k \<times> 'a) list \<Rightarrow> ('k \<times> 'a) list \<Rightarrow> bool" where
  "dict_equal eq a b \<longleftrightarrow> length a = length b \<and> list_all (\<lambda>(k, v). case map_of b k of None \<Rightarrow> False | Some v' \<Rightarrow> eq v v') a"

definition fields_equal :: "fields \<Rightarrow> fields \<Rightarrow> bool" where
  "fields_equal = dict_equal (=)"

text \<open>A table of the database equals a configuration by names.\<close>

definition table_equal :: "row list \<Rightarrow> (string \<times> fields) list \<Rightarrow> bool" where
  "table_equal rows conf \<longleftrightarrow> dict_equal fields_equal rows (map (\<lambda>(n, d). ([n], d)) conf)"

text \<open>The flavours of a version with what it took over.\<close>

definition version_pools :: "buffer_params \<Rightarrow> err + (string \<times> pool_conf) list" where
  "version_pools p = mlnx_merge_inherited_info p (buffer_pools p)"

definition pool_names :: "buffer_params \<Rightarrow> (string \<times> pool_conf) list \<Rightarrow> string list" where
  "pool_names p pools = (case pool_configuration_list p of Some (n # ns) \<Rightarrow> n # ns | _ \<Rightarrow> map fst pools)"

text \<open>The first flavour the pools of the database equal.\<close>

fun find_old_config :: "row list \<Rightarrow> (string \<times> pool_conf) list \<Rightarrow> string list \<Rightarrow> err + string option" where
  "find_old_config configdb_buffer_pools pools [] = Inr None"
| "find_old_config configdb_buffer_pools pools (n # ns) =
     rbind (getitem pools n) (\<lambda>conf. rbind (mlnx_migrate_extend_condensed_pool conf) (\<lambda>old_config.
     if table_equal configdb_buffer_pools old_config then Inr (Some n)
     else find_old_config configdb_buffer_pools pools ns))"

definition default_pools_present :: "buffer_params \<Rightarrow> row list \<Rightarrow> bool" where
  "default_pools_present p configdb_buffer_pools \<longleftrightarrow>
     length configdb_buffer_pools \<le> length (buffer_pool_list p) \<and>
     list_all (\<lambda>buffer_pool. [buffer_pool] \<in> fst ` set configdb_buffer_pools \<or> buffer_pool = ''ingress_lossy_pool'') (buffer_pool_list p)"

text \<open>What the pools become: \<open>None\<close> when they are no default; \<open>Some None\<close> when the new version lacks the flavour.\<close>

definition new_pool_conf :: "mlnx_obj \<Rightarrow> buffer_params \<Rightarrow> buffer_params \<Rightarrow> row list \<Rightarrow> err + pool_conf option option" where
  "new_pool_conf B old new configdb_buffer_pools =
     rbind (version_pools old) (\<lambda>old_pools.
     if pool_names old old_pools = [] then Inr (Some None)
     else rbind (find_old_config configdb_buffer_pools old_pools (pool_names old old_pools)) (\<lambda>found. case found of
         None \<Rightarrow> Inr None
       | Some old_config_name \<Rightarrow>
           rbind (mlnx_migrate_map_old_pool_to_new B new old_config_name) (\<lambda>mapped.
           let new_config_name = (case mapped of Some (c # cs) \<Rightarrow> c # cs | _ \<Rightarrow> old_config_name) in
           if new_config_name = [] then Inr None
           else rbind (version_pools new) (\<lambda>new_pools. case map_of new_pools new_config_name of
               Some (c # cs) \<Rightarrow> rbind (mlnx_migrate_extend_condensed_pool (c # cs)) (\<lambda>conf. Inr (Some (Some conf)))
             | _ \<Rightarrow> Inr (Some None)))))"

definition pool_items :: "row list \<Rightarrow> pool_conf \<Rightarrow> (string \<times> string list \<times> fields option) list" where
  "pool_items configdb_buffer_pools conf =
     map (\<lambda>(pool, _). (''BUFFER_POOL'', pool, None)) configdb_buffer_pools @ map (\<lambda>(pool, d). (''BUFFER_POOL'', [pool], Some d)) conf"

definition mlnx_migrate_buffer_pool_size :: "'d mig_db \<Rightarrow> string \<Rightarrow> string \<Rightarrow> ('d, bool) mig" where
  "mlnx_migrate_buffer_pool_size DB old_version new_version =
     seq (set_default False) (
     act_bind (act_of (mlnx_default_buffer_parameters old_version)) (\<lambda>old.
     act_bind (table_of DB ''BUFFER_POOL'') (\<lambda>configdb_buffer_pools.
     if \<not> default_pools_present old configdb_buffer_pools then act_return True
     else act_bind (act_of (mlnx_default_buffer_parameters new_version)) (\<lambda>new.
       act_bind (of_obj id) (\<lambda>B.
       act_bind (act_of (new_pool_conf B old new configdb_buffer_pools)) (\<lambda>r. case r of
         None \<Rightarrow> act_return True
       | Some None \<Rightarrow> act_return False
       | Some (Some conf) \<Rightarrow>
           seq (append_items (pool_items configdb_buffer_pools conf)) (seq (set_default True) (act_return True))))))))"

section \<open>Buffer profiles\<close>

definition headroom_series :: "mlnx_obj \<Rightarrow> string option" where
  "headroom_series B = (case platform B of None \<Rightarrow> None | Some p \<Rightarrow>
     if p = ''x86_64-mlnx_msn3800-r0'' then Some ''spc2_3800_headroom''
     else if p \<in> set spc2_platforms then Some ''spc2_headroom''
     else if p \<in> set spc1_platforms then Some ''spc1_headroom''
     else if p \<in> set spc3_platforms then Some ''spc3_headroom''
     else None)"

definition headrooms_of :: "mlnx_obj \<Rightarrow> buffer_params \<Rightarrow> (string \<times> headroom_set) list" where
  "headrooms_of B p = (case (headrooms p, headroom_series B) of
     (Some hs, Some series) \<Rightarrow> (case map_of hs series of None \<Rightarrow> [] | Some h \<Rightarrow> h)
   | _ \<Rightarrow> [])"

text \<open>Whether every profile of the database with a name of the set is the one of the set.\<close>

definition headrooms_match :: "row list \<Rightarrow> (string \<times> fields) list \<Rightarrow> err + bool" where
  "headrooms_match configdb_buffer_profiles lossless_profiles =
     rforall (\<lambda>(key, profile). case key of
         [name] \<Rightarrow> (case map_of lossless_profiles name of
             None \<Rightarrow> Inr True
           | Some h \<Rightarrow> rbind (mlnx_migrate_extend_headroom_profile h) (\<lambda>default_profile. Inr (fields_equal profile default_profile)))
       | _ \<Rightarrow> Inr True) configdb_buffer_profiles"

fun find_headrooms :: "row list \<Rightarrow> (string \<times> headroom_set) list \<Rightarrow> err + string option" where
  "find_headrooms configdb_buffer_profiles [] = Inr None"
| "find_headrooms configdb_buffer_profiles ((headroom_set_name, h) # hs) =
     rbind (mlnx_migrate_get_headroom_profiles h) (\<lambda>lossless_profiles.
     rbind (headrooms_match configdb_buffer_profiles lossless_profiles) (\<lambda>matched.
     if matched then Inr (Some headroom_set_name) else find_headrooms configdb_buffer_profiles hs))"

text \<open>A tuple of another type than \<open>skumap\<close> is kept, and is no key of a dictionary: \<open>None\<close>.\<close>

definition new_headroom_set_name :: "mlnx_obj \<Rightarrow> buffer_params \<Rightarrow> string \<Rightarrow> string option" where
  "new_headroom_set_name B new name = (case headroom_mapping new of
     Some (m # ms) \<Rightarrow> (case map_of (m # ms) name of
         None \<Rightarrow> Some name
       | Some (HeadroomName n) \<Rightarrow> Some (if n = [] then name else n)
       | Some (HeadroomBy maptype sku_mapping) \<Rightarrow>
           if maptype \<noteq> ''skumap'' then None
           else (case sku B of None \<Rightarrow> Some name | Some s \<Rightarrow>
             (case map_of sku_mapping s of Some (c # cs) \<Rightarrow> Some (c # cs) | _ \<Rightarrow> Some name)))
   | _ \<Rightarrow> Some name)"

definition headroom_items :: "row list \<Rightarrow> headroom_set option \<Rightarrow> err + (string \<times> string list \<times> fields option) list" where
  "headroom_items configdb_buffer_profiles h = (case h of
     Some (Headrooms d) \<Rightarrow> rbind (rmapM (\<lambda>(key, _). case key of
           [name] \<Rightarrow> (case map_of d name of
               None \<Rightarrow> Inr []
             | Some p \<Rightarrow> rbind (mlnx_migrate_extend_headroom_profile p) (\<lambda>profile. Inr [(''BUFFER_PROFILE'', key, Some profile)]))
         | _ \<Rightarrow> Inr []) configdb_buffer_profiles) (\<lambda>xs. Inr (concat xs))
   | _ \<Rightarrow> Inr [])"

text \<open>Every profile of every flavour has to be in the database.\<close>

definition profiles_match :: "row list \<Rightarrow> (string \<times> (string \<times> fields) list) list \<Rightarrow> bool" where
  "profiles_match configdb_buffer_profiles old = list_all (\<lambda>(_, profiles). list_all (\<lambda>(name, profile).
     case map_of configdb_buffer_profiles [name] of None \<Rightarrow> False | Some d \<Rightarrow> fields_equal profile d) profiles) old"

definition migrate_lossy_profiles :: "buffer_params \<Rightarrow> buffer_params \<Rightarrow> row list \<Rightarrow> ('d, bool) mig" where
  "migrate_lossy_profiles old new configdb_buffer_profiles = (case buffer_profiles new of
     Some (p # ps) \<Rightarrow> (case buffer_profiles old of
         None \<Rightarrow> act_of (Inl AttributeError)
       | Some default_buffer_profiles_old \<Rightarrow>
           if \<not> profiles_match configdb_buffer_profiles default_buffer_profiles_old then act_return True
           else act_bind (act_of (getitem (p # ps) ''default'')) (\<lambda>profiles.
             seq (append_items (map (\<lambda>(name, profile). (''BUFFER_PROFILE'', [name], Some profile)) profiles)) (act_return True)))
   | _ \<Rightarrow> act_return True)"

definition mlnx_migrate_buffer_profile :: "'d mig_db \<Rightarrow> string \<Rightarrow> string \<Rightarrow> ('d, bool) mig" where
  "mlnx_migrate_buffer_profile DB old_version new_version =
     act_bind (of_obj id) (\<lambda>B. if \<not> is_buffer_config_default B then act_return True else
     seq (set_default False) (
     act_bind (act_of (mlnx_default_buffer_parameters old_version)) (\<lambda>old.
     act_bind (act_of (mlnx_default_buffer_parameters new_version)) (\<lambda>new.
     act_bind (table_of DB ''BUFFER_PROFILE'') (\<lambda>configdb_buffer_profiles.
     let rest = seq (set_default True) (migrate_lossy_profiles old new configdb_buffer_profiles);
         hs_old = (if headrooms new \<in> {None, Some []} then [] else headrooms_of B old);
         hs_new = (if headrooms old \<in> {None, Some []} then [] else headrooms_of B new) in
     if hs_old = [] \<or> hs_new = [] then rest
     else act_bind (act_of (find_headrooms configdb_buffer_profiles hs_old)) (\<lambda>found. case found of
         None \<Rightarrow> act_return True
       | Some headroom_set_name \<Rightarrow>
           act_bind (act_of (headroom_items configdb_buffer_profiles (case new_headroom_set_name B new headroom_set_name of
               None \<Rightarrow> None | Some n \<Rightarrow> map_of hs_new n))) (\<lambda>items.
           seq (append_items items) rest)))))))"

section \<open>Reclaiming unused buffer\<close>

text \<open>By port, then by the queues or priority groups.\<close>

definition mlnx_reorganize_buffer_tables :: "row list \<Rightarrow> (string \<times> (string \<times> fields) list) list" where
  "mlnx_reorganize_buffer_tables buffer_table =
     foldl (\<lambda>result (key, item). case unpack_pair key of
         None \<Rightarrow> result
       | Some (port, ids) \<Rightarrow> AList.update port (AList.update ids item (case map_of result port of None \<Rightarrow> [] | Some d \<Rightarrow> d)) result)
     [] buffer_table"

text \<open>What is to be written for ports that are down; an item that is \<open>None\<close> is not.\<close>

record reclaim =
  lossy_pg_item :: "fields option"
  lossy_queue_item :: "fields option"
  lossless_queue_item :: "fields option"
  ingress_profile_list_item :: "fields option"
  egress_profile_list_item :: "fields option"
  pools_to_insert :: "(string \<times> fields) list"
  profiles_to_insert :: "(string \<times> fields) list"

definition has_row :: "row list \<Rightarrow> string \<Rightarrow> bool" where
  "has_row rows name \<longleftrightarrow> map_of rows [name] \<noteq> None"

definition single_pool :: "row list \<Rightarrow> row list \<Rightarrow> bool" where
  "single_pool pools profiles \<longleftrightarrow>
     \<not> (has_row pools ''ingress_lossy_pool'' \<and>
        (case map_of profiles [''ingress_lossy_profile''] of None \<Rightarrow> False | Some d \<Rightarrow> map_of d ''pool'' = Some ''ingress_lossy_pool''))"

definition item_if :: "bool \<Rightarrow> string \<Rightarrow> string \<Rightarrow> fields option" where
  "item_if b field v = (if b then Some [(field, v)] else None)"

definition dynamic_items :: "row list \<Rightarrow> bool \<Rightarrow> reclaim" where
  "dynamic_items profiles single = (let there = has_row profiles in
     \<lparr>lossy_pg_item = item_if (there ''ingress_lossy_profile'') ''profile'' ''ingress_lossy_profile'',
      lossy_queue_item = item_if (there ''q_lossy_profile'') ''profile'' ''q_lossy_profile'',
      lossless_queue_item = item_if (there ''egress_lossless_profile'') ''profile'' ''egress_lossless_profile'',
      ingress_profile_list_item =
        (if single then item_if (there ''ingress_lossless_profile'') ''profile_list'' ''ingress_lossless_profile''
         else item_if (there ''ingress_lossless_profile'' \<and> there ''ingress_lossy_profile'') ''profile_list''
           ''ingress_lossless_profile,ingress_lossy_profile''),
      egress_profile_list_item =
        item_if (there ''egress_lossless_profile'' \<and> there ''egress_lossy_profile'') ''profile_list'' ''egress_lossless_profile,egress_lossy_profile'',
      pools_to_insert = [], profiles_to_insert = []\<rparr>)"

definition zero_profile :: "string \<Rightarrow> string \<Rightarrow> string \<Rightarrow> fields" where
  "zero_profile pool field v = [(''pool'', pool), (''size'', ''0''), (field, v)]"

definition static_items :: "bool \<Rightarrow> reclaim" where
  "static_items single =
     \<lparr>lossy_pg_item = Some [(''profile'', ''ingress_lossy_pg_zero_profile'')],
      lossy_queue_item = Some [(''profile'', ''egress_lossy_zero_profile'')],
      lossless_queue_item = Some [(''profile'', ''egress_lossless_zero_profile'')],
      ingress_profile_list_item = Some [(''profile_list'',
        if single then ''ingress_lossless_zero_profile'' else ''ingress_lossless_zero_profile,ingress_lossy_zero_profile'')],
      egress_profile_list_item = Some [(''profile_list'', ''egress_lossless_zero_profile,egress_lossy_zero_profile'')],
      pools_to_insert = [(''ingress_zero_pool'', [(''size'', ''0''), (''mode'', ''static''), (''type'', ''ingress'')])],
      profiles_to_insert =
        [(''ingress_lossy_pg_zero_profile'', zero_profile ''ingress_zero_pool'' ''static_th'' ''0''),
         (''ingress_lossless_zero_profile'', zero_profile ''ingress_lossless_pool'' ''dynamic_th'' ''-8''),
         (''egress_lossless_zero_profile'', zero_profile ''egress_lossless_pool'' ''dynamic_th'' ''-8''),
         (''egress_lossy_zero_profile'', zero_profile ''egress_lossy_pool'' ''dynamic_th'' ''-8'')] @
        (if single then [] else [(''ingress_lossy_zero_profile'', zero_profile ''ingress_lossy_pool'' ''dynamic_th'' ''-8'')])\<rparr>"

text \<open>The tables read at the start.\<close>

record reclaim_env =
  is_dynamic :: bool
  reclaim_items :: reclaim
  cable_length_entries :: fields
  buffer_pg_items :: "(string \<times> (string \<times> fields) list) list"
  buffer_queue_items :: "(string \<times> (string \<times> fields) list) list"
  ingress_lists :: "row list"
  egress_lists :: "row list"
  profile_names :: "string list list"

text \<open>Whether the priority groups of a port are the default ones, and whether the port is reclaimed.\<close>

definition pgs_default :: "reclaim_env \<Rightarrow> string \<Rightarrow> fields \<Rightarrow> err + (bool \<times> bool)" where
  "pgs_default E port_name port_info = (case map_of (buffer_pg_items E) port_name of
     None \<Rightarrow> Inr (True, False)
   | Some [] \<Rightarrow> Inr (True, False)
   | Some port_pgs \<Rightarrow>
       if set (map fst port_pgs) \<noteq> {''3-4''} then Inr (False, False)
       else rbind (rbind (getitem port_pgs ''3-4'') (\<lambda>d. getitem d ''profile'')) (\<lambda>profile.
         if is_dynamic E then Inr (profile = ''NULL'', True)
         else Inr (case search_profile profile of
             None \<Rightarrow> False
           | Some (speed, cable_length) \<Rightarrow>
               map_of port_info ''speed'' = Some speed \<and> map_of (cable_length_entries E) port_name = Some cable_length, False)))"

definition count_if :: "bool \<Rightarrow> nat \<Rightarrow> nat" where
  "count_if b n = (if b then n + 1 else n)"

definition reclaim_pgs :: "'d mig_db \<Rightarrow> reclaim_env \<Rightarrow> string \<Rightarrow> fields \<Rightarrow> nat \<times> string list \<Rightarrow> ('d, nat \<times> string list) mig" where
  "reclaim_pgs DB E port_name port_info st = (case (st, lossy_pg_item (reclaim_items E)) of
     ((n, reclaimed), None) \<Rightarrow> act_return st
   | ((n, reclaimed), Some item) \<Rightarrow>
       act_bind (act_of (pgs_default E port_name port_info)) (\<lambda>(is_default, reclaims).
       seq (act_when is_default (seq (write_entry DB ''BUFFER_PG'' [port_name @ ''|0''] item)
           (act_when (is_dynamic E) (write_entry DB ''BUFFER_PG'' [port_name @ ''|3-4''] [(''profile'', ''NULL'')]))))
         (act_return (count_if is_default n, if reclaims then port_name # reclaimed else reclaimed))))"

definition reclaim_queues :: "'d mig_db \<Rightarrow> reclaim_env \<Rightarrow> string \<Rightarrow> nat \<times> string list \<Rightarrow> ('d, nat \<times> string list) mig" where
  "reclaim_queues DB E port_name st = (case (lossy_queue_item (reclaim_items E), lossless_queue_item (reclaim_items E)) of
     (Some lossy, Some lossless) \<Rightarrow>
       (if map_of (buffer_queue_items E) port_name \<notin> {None, Some []} then act_return st
        else seq (act_each (\<lambda>(ids, item). write_entry DB ''BUFFER_QUEUE'' [port_name @ ''|'' @ ids] item)
               [(''0-2'', lossy), (''3-4'', lossless), (''5-6'', lossy)])
             (act_return (fst st + 1, snd st)))
   | _ \<Rightarrow> act_return st)"

definition reclaim_list ::
    "'d mig_db \<Rightarrow> string \<Rightarrow> row list \<Rightarrow> fields option \<Rightarrow> string list \<Rightarrow> nat \<times> string list \<Rightarrow> ('d, nat \<times> string list) mig" where
  "reclaim_list DB table rows item port st = (case item of
     None \<Rightarrow> act_return st
   | Some item \<Rightarrow>
       if map_of rows port \<notin> {None, Some []} then act_return st
       else seq (write_entry DB table port item) (act_return (fst st + 1, snd st)))"

definition reclaim_port :: "'d mig_db \<Rightarrow> reclaim_env \<Rightarrow> nat \<times> string list \<Rightarrow> row \<Rightarrow> ('d, nat \<times> string list) mig" where
  "reclaim_port DB E st r = (case r of (port, port_info) \<Rightarrow>
     if map_of port_info ''admin_status'' = Some ''up'' then act_return st
     else act_bind (reclaim_pgs DB E (key_text port) port_info st) (\<lambda>st.
       act_bind (reclaim_queues DB E (key_text port) st) (\<lambda>st.
       act_bind (reclaim_list DB ''BUFFER_PORT_INGRESS_PROFILE_LIST'' (ingress_lists E) (ingress_profile_list_item (reclaim_items E)) port st) (\<lambda>st.
       reclaim_list DB ''BUFFER_PORT_EGRESS_PROFILE_LIST'' (egress_lists E) (egress_profile_list_item (reclaim_items E)) port st))))"

text \<open>The rows of the application database of reclaimed ports go, and the profiles nothing refers to.\<close>

definition reclaim_app_pg :: "'d mig_db \<Rightarrow> string list \<Rightarrow> string list \<Rightarrow> string \<Rightarrow> ('d, string list) mig" where
  "reclaim_app_pg DB reclaimed referenced buffer_pg_key = (case tl (split_on CHR '':'' buffer_pg_key) of
     [port, pg] \<Rightarrow>
       (if port \<in> set reclaimed then seq (on_db (ap_delete DB buffer_pg_key)) (act_return referenced)
        else act_bind (reads (\<lambda>w. map_of (ap_all DB w buffer_pg_key) ''profile'')) (\<lambda>profile.
          act_return (case profile of Some (c # cs) \<Rightarrow> (c # cs) # referenced | _ \<Rightarrow> referenced)))
   | _ \<Rightarrow> act_of (Inl ValueError))"

definition reclaim_app_db :: "'d mig_db \<Rightarrow> string list list \<Rightarrow> string list \<Rightarrow> ('d, unit) mig" where
  "reclaim_app_db DB names reclaimed =
     act_bind (reads (\<lambda>w. ap_find DB w ''BUFFER_PG_TABLE:*'')) (\<lambda>ks. case ks of None \<Rightarrow> act_return () | Some ks \<Rightarrow>
     act_bind (act_fold (reclaim_app_pg DB reclaimed) [] ks) (\<lambda>referenced.
     act_bind (reads (\<lambda>w. ap_find DB w ''BUFFER_PROFILE_TABLE:*'')) (\<lambda>ps. case ps of None \<Rightarrow> act_of (Inl TypeError) | Some ps \<Rightarrow>
     act_each (\<lambda>k. act_bind (act_of (nth_part (split_on CHR '':'' k) 1)) (\<lambda>profile.
       act_when (profile \<notin> set referenced \<and> [profile] \<notin> set names) (on_db (ap_delete DB k)))) ps)))"

definition mlnx_reclaiming_unused_buffer :: "'d mig_db \<Rightarrow> ('d, unit) mig" where
  "mlnx_reclaiming_unused_buffer DB =
     act_bind (reads (\<lambda>w. cf_keys DB w ''CABLE_LENGTH'')) (\<lambda>cable_length_key. case cable_length_key of
       [] \<Rightarrow> act_return ()
     | key # _ \<Rightarrow>
         act_bind (reads (\<lambda>w. map_of (cf_entry DB w ''DEVICE_METADATA'' [''localhost'']) ''buffer_model'' = Some ''dynamic'')) (\<lambda>dynamic.
         act_bind (table_of DB ''PORT'') (\<lambda>port_table.
         act_bind (table_of DB ''BUFFER_POOL'') (\<lambda>pools.
         act_bind (table_of DB ''BUFFER_PROFILE'') (\<lambda>profiles.
         act_bind (table_of DB ''BUFFER_PG'') (\<lambda>pgs.
         act_bind (table_of DB ''BUFFER_QUEUE'') (\<lambda>queues.
         act_bind (table_of DB ''BUFFER_PORT_INGRESS_PROFILE_LIST'') (\<lambda>ingress.
         act_bind (table_of DB ''BUFFER_PORT_EGRESS_PROFILE_LIST'') (\<lambda>egress.
         act_bind (reads (\<lambda>w. cf_entry DB w ''CABLE_LENGTH'' key)) (\<lambda>cable_lengths.
         let single = single_pool pools profiles;
             its = (if dynamic then dynamic_items profiles single else static_items single);
             E = \<lparr>is_dynamic = dynamic, reclaim_items = its, cable_length_entries = cable_lengths,
                  buffer_pg_items = mlnx_reorganize_buffer_tables pgs, buffer_queue_items = mlnx_reorganize_buffer_tables queues,
                  ingress_lists = ingress, egress_lists = egress, profile_names = map fst profiles\<rparr> in
         act_bind (act_fold (reclaim_port DB E) (0, []) port_table) (\<lambda>(zero_item_count, reclaimed_ports).
         seq (act_when (zero_item_count > 0) (
           seq (act_each (\<lambda>(name, pool). write_entry DB ''BUFFER_POOL'' [name] pool) (pools_to_insert its))
             (act_each (\<lambda>(name, profile). write_entry DB ''BUFFER_PROFILE'' [name] profile) (profiles_to_insert its)))) (
         if \<not> dynamic then act_return ()
         else act_bind (warm_reboot DB) (\<lambda>warm. act_when warm (reclaim_app_db DB (profile_names E) reclaimed_ports))))))))))))))"

end
