(* ===== verification/DbMigrator.thy ===== *)
theory DbMigrator
  imports MlnxBufferMigrator
begin

text \<open>
  Migrating the databases to the current version (\<open>scripts/db_migrator.py\<close>, \<open>DBMigrator\<close>): one handler per
  version, each of which edits tables and records the next version, and the loop that runs them. The defaults of two
  tables come from \<open>scripts/db_migrator_constants.py\<close>.
\<close>

record 'd db_migrator =
  mdb :: "'d mig_db"
  asic_type :: string
  hwsku :: string

text \<open>The world when the object is made.\<close>

definition new_world :: "'d db_migrator \<Rightarrow> 'd \<Rightarrow> 'd mig_world" where
  "new_world D d = \<lparr>dbs = d, bm = mlnx_init (mdb D) d\<rparr>"

section \<open>Interfaces\<close>

definition migrate_pfc_wd_table :: "'d db_migrator \<Rightarrow> ('d, unit) mig" where
  "migrate_pfc_wd_table D =
     act_bind (table_of (mdb D) ''PFC_WD_TABLE'') (\<lambda>data.
     seq (act_each (\<lambda>(k, d). write_entry (mdb D) ''PFC_WD'' k d) data)
       (on_db (cf_delete_table (mdb D) ''PFC_WD_TABLE'')))"

definition is_ip_prefix_in_key :: "string list \<Rightarrow> bool" where
  "is_ip_prefix_in_key key \<longleftrightarrow> length key > 1"

text \<open>A set in the source; its elements are visited in some order.\<close>

definition if_tables :: "string list" where
  "if_tables = [''INTERFACE'', ''PORTCHANNEL_INTERFACE'', ''VLAN_INTERFACE'', ''LOOPBACK_INTERFACE'']"

definition plain_interfaces :: "row list \<Rightarrow> string list" where
  "plain_interfaces data = map (\<lambda>(k, _). hd k) (filter (\<lambda>(k, _). \<not> is_ip_prefix_in_key k) data)"

definition add_interface :: "'d db_migrator \<Rightarrow> string \<Rightarrow> string list \<Rightarrow> row \<Rightarrow> ('d, string list) mig" where
  "add_interface D t if_db r = (case r of (k, d) \<Rightarrow>
     if \<not> is_ip_prefix_in_key k \<or> hd k \<in> set if_db then act_return if_db
     else act_bind (write_entry (mdb D) t [hd k] d) (\<lambda>_. act_return (if_db @ [hd k])))"

definition migrate_interface_table :: "'d db_migrator \<Rightarrow> ('d, unit) mig" where
  "migrate_interface_table D =
     act_bind (act_fold (\<lambda>if_db t. act_bind (table_of (mdb D) t) (\<lambda>data. act_return (if_db @ plain_interfaces data))) [] if_tables) (\<lambda>if_db.
     act_bind (act_fold (\<lambda>if_db t. act_bind (table_of (mdb D) t) (\<lambda>data. act_fold (add_interface D t) if_db data)) if_db if_tables) (\<lambda>_.
     act_return ()))"

text \<open>The rows of the application database are texts; \<open>lo\<close> becomes the loopback interface with its address.\<close>

definition loopback_names :: "string list list \<Rightarrow> (string \<times> string) list" where
  "loopback_names ks = foldl (\<lambda>d k. if length k > 1 then AList.update (k ! 1) (hd k) d else d) [] ks"

definition rename_lo :: "(string \<times> string) list \<Rightarrow> string \<Rightarrow> string \<Rightarrow> string \<Rightarrow> string" where
  "rename_lo lo_addr_to_int lo_addr lo_name lo_row = (case map_of lo_addr_to_int lo_addr of
     None \<Rightarrow> str_replace lo_name ''Loopback0'' lo_row
   | Some n \<Rightarrow> str_replace lo_name (if n = [] then ''Loopback0'' else n) lo_row)"

definition migrate_lo_row :: "'d db_migrator \<Rightarrow> (string \<times> string) list \<Rightarrow> string list \<Rightarrow> string \<Rightarrow> ('d, string list) mig" where
  "migrate_lo_row D lo_addr_to_int if_db lo_row =
     act_bind (act_of (nth_part (split_on CHR '':'' lo_row) 1)) (\<lambda>lo_name.
     seq (act_when (lo_name = ''lo'') (
         seq (on_db (ap_delete (mdb D) lo_row)) (
         act_bind (act_of (nth_part (split_str ''INTF_TABLE:lo:'' [] lo_row) 1)) (\<lambda>lo_addr.
         on_db (ap_set (mdb D) (rename_lo lo_addr_to_int lo_addr lo_name lo_row) ''NULL'' ''NULL'')))))
     (act_return (if CHR ''/'' \<notin> set lo_row then if_db @ [lo_name] else if_db)))"

definition add_intf :: "'d db_migrator \<Rightarrow> string list \<Rightarrow> string \<Rightarrow> ('d, string list) mig" where
  "add_intf D if_db key =
     act_bind (act_of (nth_part (split_on CHR '':'' key) 1)) (\<lambda>if_name.
     if if_name \<in> set if_db then act_return if_db
     else act_bind (on_db (ap_set (mdb D) (''INTF_TABLE:'' @ if_name) ''NULL'' ''NULL'')) (\<lambda>_. act_return (if_db @ [if_name])))"

definition migrate_intf_table :: "'d db_migrator \<Rightarrow> ('d, unit) mig" where
  "migrate_intf_table D =
     act_bind (reads (\<lambda>w. loopback_names (cf_keys (mdb D) w ''LOOPBACK_INTERFACE''))) (\<lambda>names.
     act_bind (reads (\<lambda>w. ap_find (mdb D) w ''INTF_TABLE:*'')) (\<lambda>lo_data. case lo_data of
       None \<Rightarrow> act_return ()
     | Some rows \<Rightarrow>
         act_bind (act_fold (migrate_lo_row D names) [] rows) (\<lambda>if_db.
         act_bind (reads (\<lambda>w. ap_find (mdb D) w ''INTF_TABLE:*'')) (\<lambda>data. case data of
           None \<Rightarrow> act_of (Inl TypeError)
         | Some rows \<Rightarrow> act_bind (act_fold (add_intf D) if_db rows) (\<lambda>_. act_return ())))))"

definition migrate_copp_table :: "'d db_migrator \<Rightarrow> ('d, unit) mig" where
  "migrate_copp_table D =
     act_bind (reads (\<lambda>w. ap_find (mdb D) w ''COPP_TABLE:*'')) (\<lambda>ks. case ks of
       None \<Rightarrow> act_return ()
     | Some ks \<Rightarrow> act_each (\<lambda>k. on_db (ap_delete (mdb D) k)) ks)"

section \<open>Features\<close>

definition rename_status :: "fields \<Rightarrow> fields option" where
  "rename_status config = (case map_of config ''status'' of
     None \<Rightarrow> None
   | Some state \<Rightarrow> Some (AList.delete ''status'' (AList.update ''state'' state config)))"

definition migrate_feature_table :: "'d db_migrator \<Rightarrow> ('d, unit) mig" where
  "migrate_feature_table D =
     act_bind (table_of (mdb D) ''FEATURE'') (\<lambda>feature_table.
     seq (act_each (\<lambda>(k, config). case rename_status config of
         None \<Rightarrow> act_return ()
       | Some config \<Rightarrow> write_entry (mdb D) ''FEATURE'' k config) feature_table) (
     act_bind (table_of (mdb D) ''CONTAINER_FEATURE'') (\<lambda>container_feature_table.
     act_each (\<lambda>(k, config). seq (on_db (cf_mod_entry (mdb D) ''FEATURE'' k config))
       (on_db (cf_set_entry (mdb D) ''CONTAINER_FEATURE'' k None))) container_feature_table)))"

section \<open>Ports of one platform\<close>

definition s6100_ports :: "(string \<times> fields) list" where
  "s6100_ports =
     [(''Ethernet64'', [(''alias'', ''tenGigE1/1''), (''description'', ''tenGigE1/1''), (''index'', ''64''), (''lanes'', ''129''),
        (''mtu'', ''9100''), (''pfc_asym'', ''off''), (''speed'', ''10000'')]),
      (''Ethernet65'', [(''alias'', ''tenGigE1/2''), (''description'', ''tenGigE1/2''), (''index'', ''65''), (''lanes'', ''131''),
        (''mtu'', ''9100''), (''pfc_asym'', ''off''), (''speed'', ''10000'')])]"

definition add_mgmt_port :: "'d db_migrator \<Rightarrow> int \<Rightarrow> string \<times> fields \<Rightarrow> ('d, int) mig" where
  "add_mgmt_port D added_ports p = (case p of (portName, entry) \<Rightarrow>
     act_bind (reads (\<lambda>w. cf_entry (mdb D) w ''PORT'' [portName])) (\<lambda>old.
     if old \<noteq> [] then act_return added_ports
     else seq (write_entry (mdb D) ''PORT'' [portName] entry) (
       seq (act_each (\<lambda>(field, value). on_db (ap_set (mdb D) (''PORT_TABLE:'' @ portName) field value)) entry) (
       seq (on_db (ap_set (mdb D) (''PORT_TABLE:'' @ portName) ''admin_status'' ''down''))
         (act_return (added_ports + 1))))))"

definition migrate_mgmt_ports_on_s6100 :: "'d db_migrator \<Rightarrow> ('d, unit) mig" where
  "migrate_mgmt_ports_on_s6100 D =
     act_bind (reads (warm_restart_swss (mdb D))) (\<lambda>warm. if \<not> warm then act_return () else
     act_bind (act_fold (add_mgmt_port D) 0 s6100_ports) (\<lambda>added_ports.
     act_bind (reads (\<lambda>w. ap_get (mdb D) w ''PORT_TABLE:PortConfigDone'' ''count'')) (\<lambda>portCount.
     if portCount = Some [] then act_return ()
     else act_bind (act_of (case portCount of None \<Rightarrow> Inl TypeError | Some s \<Rightarrow> py_int s)) (\<lambda>n.
       on_db (ap_set (mdb D) ''PORT_TABLE:PortConfigDone'' ''count'' (int_str (n + added_ports)))))))"

section \<open>Buffers\<close>

text \<open>What a priority group asks for: nothing, an explicit profile to be dropped, or giving up.\<close>

datatype pg_action = PgKeep | PgDynamic | PgAbandon

definition referenced_profile :: "fields \<Rightarrow> err + string" where
  "referenced_profile d = (case map_of d ''profile'' of
     None \<Rightarrow> Inl KeyError
   | Some v \<Rightarrow> nth_part (split_on CHR ''|'' (butlast (tl v))) 1)"

definition lossless_matches :: "row list \<Rightarrow> fields \<Rightarrow> string \<Rightarrow> string \<times> string \<Rightarrow> err + bool" where
  "lossless_matches ports cable_lengths port m = (case map_of ports [port] of
     None \<Rightarrow> Inl KeyError
   | Some p \<Rightarrow> (case map_of p ''speed'' of
         None \<Rightarrow> Inl KeyError
       | Some speed \<Rightarrow>
           if fst m \<noteq> speed then Inr False
           else (case map_of cable_lengths port of None \<Rightarrow> Inl KeyError | Some l \<Rightarrow> Inr (snd m = l))))"

definition pg_action_of :: "row list \<Rightarrow> fields \<Rightarrow> row \<Rightarrow> pg_action" where
  "pg_action_of ports cable_lengths r = (case r of (key, d) \<Rightarrow> (case unpack_pair key of
     Some (port, pg) \<Rightarrow> (case referenced_profile d of
         Inl _ \<Rightarrow> PgAbandon
       | Inr profile_name \<Rightarrow>
           if pg = ''0'' then (if profile_name \<noteq> ''ingress_lossy_profile'' then PgAbandon else PgKeep)
           else if pg \<noteq> ''3-4'' then PgAbandon
           else (case search_profile profile_name of
               None \<Rightarrow> PgAbandon
             | Some m \<Rightarrow> (case lossless_matches ports cable_lengths port m of
                   Inr True \<Rightarrow> PgDynamic
                 | _ \<Rightarrow> PgAbandon)))
   | None \<Rightarrow> PgAbandon))"

text \<open>The items before the group that gives up stay appended.\<close>

fun migrate_pgs :: "'d db_migrator \<Rightarrow> row list \<Rightarrow> fields \<Rightarrow> row list \<Rightarrow> ('d, bool) mig" where
  "migrate_pgs D ports cable_lengths [] = act_return True"
| "migrate_pgs D ports cable_lengths (r # rs) = (case pg_action_of ports cable_lengths r of
     PgKeep \<Rightarrow> migrate_pgs D ports cable_lengths rs
   | PgDynamic \<Rightarrow> seq (mlnx_append_item_on_pending_configuration_list (''BUFFER_PG'', fst r, Some [(''profile'', ''NULL'')]))
       (migrate_pgs D ports cable_lengths rs)
   | PgAbandon \<Rightarrow> seq (mlnx_abandon_pending_buffer_configuration) (act_return False))"

definition migrate_dynamic_buffers :: "'d db_migrator \<Rightarrow> string \<Rightarrow> ('d, bool) mig" where
  "migrate_dynamic_buffers D default_dynamic_th =
     (let append = mlnx_append_item_on_pending_configuration_list in
      act_bind (table_of (mdb D) ''BUFFER_PROFILE'') (\<lambda>dynamic_profile.
      seq (act_each (\<lambda>(k, _). if length k \<noteq> 1 then act_of (Inl TypeError) else (case search_profile (hd k) of
          None \<Rightarrow> act_return ()
        | Some (speed, cable_length) \<Rightarrow>
            act_when (speed \<in> set default_speed_list \<and> cable_length \<in> set default_cable_len_list)
              (append (''BUFFER_PROFILE'', k, None)))) dynamic_profile) (
      act_bind (table_of (mdb D) ''BUFFER_PG'') (\<lambda>pgs.
      act_bind (table_of (mdb D) ''PORT'') (\<lambda>ports.
      act_bind (table_of (mdb D) ''CABLE_LENGTH'') (\<lambda>all_cable_lengths.
      if pgs = [] \<or> ports = [] \<or> all_cable_lengths = []
      then seq (mlnx_abandon_pending_buffer_configuration) (act_return True)
      else act_bind (migrate_pgs D ports (snd (hd all_cable_lengths)) pgs) (\<lambda>ok.
        if \<not> ok then act_return True
        else act_bind (reads (\<lambda>w. cf_entry (mdb D) w ''DEVICE_METADATA'' [''localhost''])) (\<lambda>metadata.
          seq (append (''DEVICE_METADATA'', [''localhost''], Some (AList.update ''buffer_model'' ''dynamic'' metadata))) (
          seq (append (''DEFAULT_LOSSLESS_BUFFER_PARAMETER'', [''AZURE''], Some [(''default_dynamic_th'', default_dynamic_th)])) (
          seq (append (''LOSSLESS_TRAFFIC_PATTERN'', [''AZURE''], Some [(''mtu'', ''1024''), (''small_packet_percentage'', ''100'')]))
            (act_return True)))))))))))"

text \<open>References of the configuration database in the form of the application database.\<close>

definition app_reference :: "string \<Rightarrow> string" where
  "app_reference item = (case split_on CHR ''|'' item of
     [] \<Rightarrow> [] | t # ks \<Rightarrow> t @ ''_TABLE'' @ concat (map (\<lambda>k. '':'' @ k) ks))"

definition app_references :: "string \<Rightarrow> string" where
  "app_references confdb_ref = join_with '','' (map app_reference (split_on CHR '','' confdb_ref))"

definition copy_buffer_entry :: "'d db_migrator \<Rightarrow> string \<Rightarrow> string option \<Rightarrow> row \<Rightarrow> ('d, unit) mig" where
  "copy_buffer_entry D table_name reference_field_name r = (case r of (key, items) \<Rightarrow>
     let copy = (\<lambda>items. act_each (\<lambda>(field, data).
           on_db (ap_set (mdb D) (table_name @ ''_TABLE:'' @ join_with '':'' key) field data)) items) in
     case reference_field_name of
       None \<Rightarrow> copy items
     | Some f \<Rightarrow> (case map_of items f of
           None \<Rightarrow> act_return ()
         | Some confdb_ref \<Rightarrow>
             if confdb_ref = [] \<or> confdb_ref = ''NULL'' then act_return ()
             else copy (AList.update f (app_references confdb_ref) items)))"

definition prepare_dynamic_buffer_for_warm_reboot ::
    "'d db_migrator \<Rightarrow> row list \<Rightarrow> row list \<Rightarrow> row list \<Rightarrow> ('d, bool) mig" where
  "prepare_dynamic_buffer_for_warm_reboot D pools profiles pgs =
     act_bind (warm_reboot (mdb D)) (\<lambda>warm.
     act_bind (reads (\<lambda>w. st_get (mdb D) w ''BUFFER_MAX_PARAM_TABLE|global'' ''mmu_size'')) (\<lambda>mmu_size.
     if \<not> warm \<or> (mmu_size \<noteq> None \<and> mmu_size \<noteq> Some []) then act_return True
     else seq (act_each (\<lambda>(table_name, entries, ref).
         act_bind (if entries = [] then table_of (mdb D) table_name else act_return entries) (\<lambda>entries.
         act_each (copy_buffer_entry D table_name ref) entries))
       [(''BUFFER_POOL'', pools, None), (''BUFFER_PROFILE'', profiles, Some ''pool''),
        (''BUFFER_PG'', pgs, Some ''profile''), (''BUFFER_QUEUE'', [], Some ''profile''),
        (''BUFFER_PORT_INGRESS_PROFILE_LIST'', [], Some ''profile_list''), (''BUFFER_PORT_EGRESS_PROFILE_LIST'', [], Some ''profile_list'')])
       (act_return True)))"

section \<open>Ports and references\<close>

definition migrate_auto_neg_port :: "'d db_migrator \<Rightarrow> row \<Rightarrow> ('d, unit) mig" where
  "migrate_auto_neg_port D r = (case r of (key, value) \<Rightarrow>
     let put = (\<lambda>field v. on_db (cf_set (mdb D) (''PORT|'' @ key_text key) field v)) in
     case map_of value ''autoneg'' of
       None \<Rightarrow> act_return ()
     | Some v \<Rightarrow>
         if v = ''1'' then seq (put ''autoneg'' ''on'') (case map_of value ''speed'' of
             None \<Rightarrow> act_return ()
           | Some speed \<Rightarrow> act_when (map_of value ''adv_speeds'' = None) (put ''adv_speeds'' speed))
         else act_when (v = ''0'') (put ''autoneg'' ''off''))"

definition migrate_config_db_port_table_for_auto_neg :: "'d db_migrator \<Rightarrow> ('d, unit) mig" where
  "migrate_config_db_port_table_for_auto_neg D =
     act_bind (table_of (mdb D) ''PORT'') (\<lambda>port_table. act_each (migrate_auto_neg_port D) port_table)"

text \<open>An item \<open>[TABLE|name]\<close> of a reference becomes its name; every other item is left out.\<close>

definition abnf_item :: "char \<Rightarrow> string \<Rightarrow> err + string" where
  "abnf_item delim item =
     (if item = [] then Inl IndexError
      else if hd item \<noteq> CHR ''['' \<or> delim \<notin> set item \<or> last item \<noteq> CHR '']'' then Inr []
      else rbind (nth_part (split_on delim (butlast (tl item))) 1) (\<lambda>name. Inr (name @ '','')))"

definition is_abnf :: "char \<Rightarrow> string \<Rightarrow> bool" where
  "is_abnf delim v \<longleftrightarrow> CHR ''['' \<in> set v \<and> delim \<in> set v \<and> CHR '']'' \<in> set v"

definition abnf_value :: "char \<Rightarrow> string \<Rightarrow> err + string" where
  "abnf_value delim v = rbind (rmapM (abnf_item delim) (split_on CHR '','' v)) (\<lambda>parts. Inr (butlast (concat parts)))"

definition reference_remove ::
    "('d \<Rightarrow> string \<Rightarrow> row list) \<Rightarrow> (string \<Rightarrow> string \<Rightarrow> string \<Rightarrow> 'd \<Rightarrow> 'd) \<Rightarrow> char \<Rightarrow> (string \<times> string list) list \<Rightarrow> ('d, unit) mig" where
  "reference_remove get put delim table_list =
     act_each (\<lambda>(table_name, fields_list).
       act_bind (reads (\<lambda>w. get w table_name)) (\<lambda>qos_table.
       act_each (\<lambda>(key, value). act_each (\<lambda>field. case map_of value field of
           None \<Rightarrow> act_return ()
         | Some v \<Rightarrow> act_when (v \<noteq> [] \<and> v \<noteq> ''NULL'' \<and> is_abnf delim v)
             (act_bind (act_of (abnf_value delim v)) (\<lambda>new.
              on_db (put (join_with [delim] (table_name # key)) field new)))) fields_list) qos_table)) table_list"

definition qos_app_table_list :: "(string \<times> string list) list" where
  "qos_app_table_list = [(''BUFFER_PG_TABLE'', [''profile'']), (''BUFFER_QUEUE_TABLE'', [''profile'']), (''BUFFER_PROFILE_TABLE'', [''pool'']),
     (''BUFFER_PORT_INGRESS_PROFILE_LIST_TABLE'', [''profile_list'']), (''BUFFER_PORT_EGRESS_PROFILE_LIST_TABLE'', [''profile_list''])]"

definition qos_table_list :: "(string \<times> string list) list" where
  "qos_table_list = [(''QUEUE'', [''scheduler'', ''wred_profile'']),
     (''PORT_QOS_MAP'', [''dscp_to_tc_map'', ''dot1p_to_tc_map'', ''pfc_to_queue_map'', ''tc_to_pg_map'', ''tc_to_queue_map'', ''pfc_to_pg_map'']),
     (''BUFFER_PG'', [''profile'']), (''BUFFER_QUEUE'', [''profile'']), (''BUFFER_PROFILE'', [''pool'']),
     (''BUFFER_PORT_INGRESS_PROFILE_LIST'', [''profile_list'']), (''BUFFER_PORT_EGRESS_PROFILE_LIST'', [''profile_list''])]"

definition migrate_qos_fieldval_reference_format :: "'d db_migrator \<Rightarrow> ('d, unit) mig" where
  "migrate_qos_fieldval_reference_format D =
     seq (reference_remove (ap_table (mdb D)) (ap_set (mdb D)) CHR '':'' qos_app_table_list)
       (reference_remove (cf_table (mdb D)) (cf_set (mdb D)) CHR ''|'' qos_table_list)"

section \<open>Missing configuration\<close>

definition migrate_vxlan_table :: "'d db_migrator \<Rightarrow> string \<Rightarrow> ('d, unit) mig" where
  "migrate_vxlan_table D vxlan_table =
     act_bind (reads (\<lambda>w. cf_all (mdb D) w vxlan_table)) (\<lambda>mapping.
     let app_table = (case split_on CHR ''|'' vxlan_table of [] \<Rightarrow> [] | t # ks \<Rightarrow> join_with (ap_separator (mdb D)) ((t @ ''_TABLE'') # ks)) in
     act_each (\<lambda>(field, value).
       act_bind (reads (\<lambda>w. ap_has (mdb D) w app_table field)) (\<lambda>b.
       act_when (\<not> b) (on_db (ap_set (mdb D) app_table field value)))) mapping)"

definition migrate_vxlan_config :: "'d db_migrator \<Rightarrow> ('d, unit) mig" where
  "migrate_vxlan_config D =
     act_bind (reads (\<lambda>w. cf_find (mdb D) w ''VXLAN_TUNNEL*'')) (\<lambda>vxlan_data. case vxlan_data of
       None \<Rightarrow> act_return ()
     | Some ts \<Rightarrow> act_each (migrate_vxlan_table D) ts)"

text \<open>An entry that is missing, or has no fields, is set to its default.\<close>

definition add_missing :: "'d db_migrator \<Rightarrow> string \<Rightarrow> string \<times> fields \<Rightarrow> ('d, unit) mig" where
  "add_missing D t e = (case e of (key, d) \<Rightarrow>
     act_bind (reads (\<lambda>w. cf_entry (mdb D) w t [key])) (\<lambda>old. act_when (old = []) (write_entry (mdb D) t [key] d)))"

definition RESTAPI :: "(string \<times> fields) list" where
  "RESTAPI =
     [(''config'', [(''client_auth'', ''true''), (''log_level'', ''info''), (''allow_insecure'', ''false'')]),
      (''certs'', [(''server_key'', ''/etc/sonic/credentials/restapiserver.key''), (''ca_crt'', ''/etc/sonic/credentials/AME_ROOT_CERTIFICATE.pem''),
         (''server_crt'', ''/etc/sonic/credentials/restapiserver.crt''), (''client_crt_cname'', ''client.restapi.sonic.gbl'')])]"

definition TELEMETRY :: "(string \<times> fields) list" where
  "TELEMETRY =
     [(''gnmi'', [(''client_auth'', ''true''), (''log_level'', ''2''), (''port'', ''50051'')]),
      (''certs'', [(''server_key'', ''/etc/sonic/telemetry/streamingtelemetryserver.key''), (''ca_crt'', ''/etc/sonic/telemetry/dsmsroot.cer''),
         (''server_crt'', ''/etc/sonic/telemetry/streamingtelemetryserver.cer'')])]"

definition CONSOLE_SWITCH :: "(string \<times> fields) list" where
  "CONSOLE_SWITCH = [(''console_mgmt'', [(''enabled'', ''no'')])]"

definition migrate_restapi :: "'d db_migrator \<Rightarrow> ('d, unit) mig" where
  "migrate_restapi D = act_each (add_missing D ''RESTAPI'') RESTAPI"

definition migrate_telemetry :: "'d db_migrator \<Rightarrow> ('d, unit) mig" where
  "migrate_telemetry D = act_each (add_missing D ''TELEMETRY'') TELEMETRY"

definition migrate_console_switch :: "'d db_migrator \<Rightarrow> ('d, unit) mig" where
  "migrate_console_switch D = act_each (add_missing D ''CONSOLE_SWITCH'') CONSOLE_SWITCH"

definition migrate_device_metadata :: "'d db_migrator \<Rightarrow> ('d, unit) mig" where
  "migrate_device_metadata D =
     act_bind (reads (\<lambda>w. cf_entry (mdb D) w ''DEVICE_METADATA'' [''localhost''])) (\<lambda>metadata.
     act_when (map_of metadata ''synchronous_mode'' = None)
       (write_entry (mdb D) ''DEVICE_METADATA'' [''localhost''] (AList.update ''synchronous_mode'' ''enable'' metadata)))"

definition migrate_port_qos_map_global :: "'d db_migrator \<Rightarrow> ('d, unit) mig" where
  "migrate_port_qos_map_global D =
     (if asic_type D \<noteq> ''broadcom'' then act_return ()
      else act_bind (reads (\<lambda>w. cf_keys (mdb D) w ''DSCP_TO_TC_MAP'')) (\<lambda>names. case names of
          [] \<Rightarrow> act_return ()
        | name # _ \<Rightarrow>
            act_bind (table_of (mdb D) ''PORT_QOS_MAP'') (\<lambda>qos_maps.
            act_when (map_of qos_maps [''global''] = None)
              (write_entry (mdb D) ''PORT_QOS_MAP'' [''global''] [(''dscp_to_tc_map'', key_text name)]))))"

section \<open>Versions\<close>

definition CURRENT_VERSION :: string where "CURRENT_VERSION = ''version_4_0_0''"

definition get_version :: "'d db_migrator \<Rightarrow> 'd \<Rightarrow> err + string" where
  "get_version D w = (case cf_entry (mdb D) w ''VERSIONS'' [''DATABASE''] of
     [] \<Rightarrow> Inr ''version_unknown''
   | entry \<Rightarrow> (case map_of entry ''VERSION'' of
         None \<Rightarrow> Inl KeyError
       | Some v \<Rightarrow> Inr (if v = [] then ''version_unknown'' else v)))"

definition set_version :: "'d db_migrator \<Rightarrow> string option \<Rightarrow> ('d, unit) mig" where
  "set_version D version =
     write_entry (mdb D) ''VERSIONS'' [''DATABASE''] [(''VERSION'', case version of None \<Rightarrow> CURRENT_VERSION | Some v \<Rightarrow> if v = [] then CURRENT_VERSION else v)]"

text \<open>\<open>a and b\<close> for steps that say whether they succeeded.\<close>

definition and_then :: "('d, bool) mig \<Rightarrow> ('d, bool) mig \<Rightarrow> ('d, bool) mig" where
  "and_then m n = act_bind m (\<lambda>b. if b then n else act_return False)"

definition set_version_if :: "'d db_migrator \<Rightarrow> ('d, bool) mig \<Rightarrow> string \<Rightarrow> ('d, unit) mig" where
  "set_version_if D m v = act_bind m (\<lambda>b. act_when b (set_version D (Some v)))"

definition mellanox :: "'d db_migrator \<Rightarrow> bool" where
  "mellanox D \<longleftrightarrow> asic_type D = ''mellanox''"

definition version_unknown :: "'d db_migrator \<Rightarrow> ('d, unit) mig" where
  "version_unknown D =
     seq (migrate_pfc_wd_table D) (seq (migrate_interface_table D) (seq (migrate_intf_table D) (set_version D (Some ''version_1_0_2''))))"

definition version_1_0_1 :: "'d db_migrator \<Rightarrow> ('d, unit) mig" where
  "version_1_0_1 D = seq (migrate_interface_table D) (seq (migrate_intf_table D) (set_version D (Some ''version_1_0_2'')))"

definition version_1_0_2 :: "'d db_migrator \<Rightarrow> ('d, unit) mig" where
  "version_1_0_2 D =
     (if mellanox D then set_version_if D (and_then (mlnx_migrate_buffer_pool_size (mdb D) ''version_1_0_2'' ''version_1_0_3'')
        (mlnx_flush_new_buffer_configuration (mdb D))) ''version_1_0_3''
      else set_version D (Some ''version_1_0_3''))"

text \<open>The three steps of the vendor between two versions.\<close>

definition mlnx_steps :: "'d db_migrator \<Rightarrow> string \<Rightarrow> string \<Rightarrow> ('d, bool) mig" where
  "mlnx_steps D v v' =
     and_then (mlnx_migrate_buffer_pool_size (mdb D) v v') (and_then (mlnx_migrate_buffer_profile (mdb D) v v')
       (mlnx_flush_new_buffer_configuration (mdb D)))"

definition version_1_0_3 :: "'d db_migrator \<Rightarrow> ('d, unit) mig" where
  "version_1_0_3 D =
     seq (migrate_feature_table D)
       (if mellanox D then set_version_if D (mlnx_steps D ''version_1_0_3'' ''version_1_0_4'') ''version_1_0_4''
        else set_version D (Some ''version_1_0_4''))"

definition version_1_0_4 :: "'d db_migrator \<Rightarrow> ('d, unit) mig" where
  "version_1_0_4 D =
     (if mellanox D then set_version_if D (mlnx_steps D ''version_1_0_4'' ''version_1_0_5'') ''version_1_0_5''
      else set_version D (Some ''version_1_0_5''))"

definition version_1_0_5 :: "'d db_migrator \<Rightarrow> ('d, unit) mig" where
  "version_1_0_5 D =
     (if mellanox D then set_version_if D (mlnx_steps D ''version_1_0_5'' ''version_1_0_6'') ''version_1_0_6''
      else set_version D (Some ''version_1_0_6''))"

definition version_1_0_6 :: "'d db_migrator \<Rightarrow> ('d, unit) mig" where
  "version_1_0_6 D =
     (if mellanox D then
        (act_bind (table_of (mdb D) ''BUFFER_POOL'') (\<lambda>pools.
         act_bind (table_of (mdb D) ''BUFFER_PROFILE'') (\<lambda>profiles.
         act_bind (table_of (mdb D) ''BUFFER_PG'') (\<lambda>pgs.
         set_version_if D (and_then (mlnx_migrate_buffer_pool_size (mdb D) ''version_1_0_6'' ''version_2_0_0'')
           (and_then (mlnx_migrate_buffer_profile (mdb D) ''version_1_0_6'' ''version_2_0_0'')
           (and_then (act_bind mlnx_is_buffer_model_dynamic (\<lambda>dynamic. if \<not> dynamic then act_return True else migrate_dynamic_buffers D ''0''))
           (and_then (mlnx_flush_new_buffer_configuration (mdb D))
             (prepare_dynamic_buffer_for_warm_reboot D pools profiles pgs))))) ''version_2_0_0''))))
      else
        act_bind (prepare_dynamic_buffer_for_warm_reboot D [] [] []) (\<lambda>_.
        act_bind (reads (\<lambda>w. cf_entry (mdb D) w ''DEVICE_METADATA'' [''localhost''])) (\<lambda>metadata.
        seq (write_entry (mdb D) ''DEVICE_METADATA'' [''localhost''] (AList.update ''buffer_model'' ''traditional'' metadata))
          (set_version D (Some ''version_2_0_0'')))))"

definition version_2_0_0 :: "'d db_migrator \<Rightarrow> ('d, unit) mig" where
  "version_2_0_0 D = seq (migrate_port_qos_map_global D) (set_version D (Some ''version_2_0_1''))"

definition version_2_0_1 :: "'d db_migrator \<Rightarrow> ('d, unit) mig" where
  "version_2_0_1 D =
     seq (migrate_vxlan_config D) (seq (migrate_restapi D) (seq (migrate_telemetry D) (seq (migrate_console_switch D) (
     seq (migrate_device_metadata D) (set_version D (Some ''version_2_0_2''))))))"

definition version_2_0_2 :: "'d db_migrator \<Rightarrow> ('d, unit) mig" where
  "version_2_0_2 D = set_version D (Some ''version_3_0_0'')"

definition version_3_0_0 :: "'d db_migrator \<Rightarrow> ('d, unit) mig" where
  "version_3_0_0 D = seq (migrate_config_db_port_table_for_auto_neg D) (set_version D (Some ''version_3_0_1''))"

definition version_3_0_1 :: "'d db_migrator \<Rightarrow> ('d, unit) mig" where
  "version_3_0_1 D =
     act_bind (warm_reboot (mdb D)) (\<lambda>warm.
     seq (act_when (\<not> warm) (act_bind (table_of (mdb D) ''PORTCHANNEL'') (\<lambda>portchannel_table.
         act_each (\<lambda>(name, data). write_entry (mdb D) ''PORTCHANNEL'' name (AList.update ''lacp_key'' ''auto'' data)) portchannel_table)))
       (set_version D (Some ''version_3_0_2'')))"

definition version_3_0_2 :: "'d db_migrator \<Rightarrow> ('d, unit) mig" where
  "version_3_0_2 D = seq (migrate_qos_fieldval_reference_format D) (set_version D (Some ''version_3_0_3''))"

definition version_3_0_3 :: "'d db_migrator \<Rightarrow> ('d, unit) mig" where
  "version_3_0_3 D =
     seq (act_when (mellanox D) (mlnx_reclaiming_unused_buffer (mdb D))) (set_version D (Some ''version_3_0_4''))"

definition version_3_0_4 :: "'d db_migrator \<Rightarrow> ('d, unit) mig" where
  "version_3_0_4 D =
     seq (act_bind (table_of (mdb D) ''PORT_QOS_MAP'') (\<lambda>qos_maps.
         act_each (\<lambda>(k, v). case map_of v ''pfc_enable'' of
             None \<Rightarrow> act_return ()
           | Some e \<Rightarrow> write_entry (mdb D) ''PORT_QOS_MAP'' k (AList.update ''pfcwd_sw_enable'' e v)) qos_maps))
       (set_version D (Some ''version_3_0_5''))"

text \<open>A key of the old database is deleted even when it could not be read.\<close>

definition migrate_loglevel :: "'d db_migrator \<Rightarrow> string \<Rightarrow> ('d, unit) mig" where
  "migrate_loglevel D key =
     act_bind (reads (\<lambda>w. ll_all (mdb D) w key)) (\<lambda>fvs.
     let put = (\<lambda>component field v. on_db (cf_set (mdb D) (''LOGGER|'' @ component) field v)) in
     seq (act_when (key \<noteq> ''JINJA2_CACHE'') (case (nth_part (split_on CHR '':'' key) 1, map_of fvs ''LOGLEVEL'', map_of fvs ''LOGOUTPUT'') of
         (Inr component, Some loglevel, Some logoutput) \<Rightarrow> seq (put component ''LOGLEVEL'' loglevel) (put component ''LOGOUTPUT'' logoutput)
       | _ \<Rightarrow> act_return ()))
     (on_db (ll_delete (mdb D) key)))"

definition version_3_0_5 :: "'d db_migrator \<Rightarrow> ('d, unit) mig" where
  "version_3_0_5 D =
     act_bind (warm_reboot (mdb D)) (\<lambda>warm.
     seq (act_when warm (act_bind (reads (ll_keys (mdb D))) (\<lambda>ks. case ks of
         None \<Rightarrow> act_return () | Some ks \<Rightarrow> act_each (migrate_loglevel D) ks)))
       (set_version D (Some ''version_3_0_6'')))"

definition version_3_0_6 :: "'d db_migrator \<Rightarrow> ('d, unit) mig" where
  "version_3_0_6 D = set_version D (Some ''version_4_0_0'')"

definition version_4_0_0 :: "'d db_migrator \<Rightarrow> ('d, unit) mig" where
  "version_4_0_0 D = act_return ()"

text \<open>The handlers by name, with the version each returns. Any other name is an \<open>AttributeError\<close> (the names of the
  other methods of the class are no versions).\<close>

definition version_handlers :: "(string \<times> ('d db_migrator \<Rightarrow> ('d, unit) mig) \<times> string option) list" where
  "version_handlers =
     [(''version_unknown'', version_unknown, Some ''version_1_0_2''), (''version_1_0_1'', version_1_0_1, Some ''version_1_0_2''),
      (''version_1_0_2'', version_1_0_2, Some ''version_1_0_3''), (''version_1_0_3'', version_1_0_3, Some ''version_1_0_4''),
      (''version_1_0_4'', version_1_0_4, Some ''version_1_0_5''), (''version_1_0_5'', version_1_0_5, Some ''version_1_0_6''),
      (''version_1_0_6'', version_1_0_6, Some ''version_2_0_0''), (''version_2_0_0'', version_2_0_0, Some ''version_2_0_1''),
      (''version_2_0_1'', version_2_0_1, Some ''version_2_0_2''), (''version_2_0_2'', version_2_0_2, Some ''version_3_0_0''),
      (''version_3_0_0'', version_3_0_0, Some ''version_3_0_1''), (''version_3_0_1'', version_3_0_1, Some ''version_3_0_2''),
      (''version_3_0_2'', version_3_0_2, Some ''version_3_0_3''), (''version_3_0_3'', version_3_0_3, Some ''version_3_0_4''),
      (''version_3_0_4'', version_3_0_4, Some ''version_3_0_5''), (''version_3_0_5'', version_3_0_5, Some ''version_3_0_6''),
      (''version_3_0_6'', version_3_0_6, Some ''version_4_0_0''), (''version_4_0_0'', version_4_0_0, None)]"

section \<open>The migration\<close>

definition merge_init_cfg :: "'d db_migrator \<Rightarrow> string \<Rightarrow> string \<times> fields \<Rightarrow> ('d, unit) mig" where
  "merge_init_cfg D t e = (case e of (key, init_cfg) \<Rightarrow>
     act_bind (reads (\<lambda>w. cf_entry (mdb D) w t [key])) (\<lambda>curr_cfg. write_entry (mdb D) t [key] (dict_merge init_cfg curr_cfg)))"

definition merge_init_db :: "'d db_migrator \<Rightarrow> (string \<times> (string \<times> fields) list) list \<Rightarrow> ('d, unit) mig" where
  "merge_init_db D = act_each (\<lambda>(t, vals). act_each (merge_init_cfg D t) vals)"

definition common_migration_ops :: "'d db_migrator \<Rightarrow> ('d, unit) mig" where
  "common_migration_ops D =
     act_bind (act_of (case init_cfg_file (mdb D) of Inl _ \<Rightarrow> Inl PyException | Inr db \<Rightarrow> Inr db)) (\<lambda>init_db.
     seq (merge_init_db D init_db) (
     seq (act_when (\<not> mellanox D) (migrate_copp_table D))
       (act_when (asic_type D = ''broadcom'' \<and> sublist ''Force10-S6100'' (hwsku D)) (migrate_mgmt_ports_on_s6100 D))))"

text \<open>The loop; the first argument bounds the number of handlers run.\<close>

fun migrate_loop :: "nat \<Rightarrow> 'd db_migrator \<Rightarrow> string option \<Rightarrow> ('d, unit) mig" where
  "migrate_loop n D None = act_return ()"
| "migrate_loop 0 D (Some version) = act_of (Inl OutOfFuel)"
| "migrate_loop (Suc n) D (Some version) =
     (if version = [] then act_return ()
      else (case map_of version_handlers version of
          None \<Rightarrow> act_of (Inl AttributeError)
        | Some (handler, next_version) \<Rightarrow>
            seq (handler D) (if next_version = Some version then act_of (Inl PyException) else migrate_loop n D next_version)))"

definition migrate :: "'d db_migrator \<Rightarrow> ('d, unit) mig" where
  "migrate D =
     act_bind (\<lambda>w. (get_version D (dbs w), w)) (\<lambda>version.
     seq (migrate_loop (length (version_handlers :: (string \<times> ('d db_migrator \<Rightarrow> ('d, unit) mig) \<times> string option) list)) D (Some version))
       (common_migration_ops D))"

end
