(* ===== verification/MlnxMigration.thy ===== *)
theory MlnxMigration
  imports MlnxBufferMigrator
begin

text \<open>
  What the migration of the buffer pools does: no step of the chain of versions lacks the configuration it maps to, and
  what the pool step, the profile step and the flush do to pools that are a default of a version. And what reclaiming
  unused buffers leaves alone.
\<close>

section \<open>Equality of dictionaries\<close>

lemma dict_equal_iff:
  assumes "distinct (map fst a)" and "distinct (map fst b)"
  shows "dict_equal eq a b \<longleftrightarrow> (\<forall>k. rel_option eq (map_of a k) (map_of b k))"
proof
  assume d: "dict_equal eq a b"
  then have val: "\<And>k v. map_of a k = Some v \<Longrightarrow> \<exists>v'. map_of b k = Some v' \<and> eq v v'"
    by (fastforce simp: dict_equal_def list_all_iff dest: map_of_SomeD split: option.splits)
  then have "fst ` set a \<subseteq> fst ` set b"
    by (metis (no_types, lifting) map_of_eq_None_iff not_None_eq subsetI)
  moreover have "card (fst ` set a) = card (fst ` set b)"
    using d assms by (metis dict_equal_def distinct_card image_set length_map)
  ultimately have "fst ` set a = fst ` set b" by (simp add: card_subset_eq)
  then have dom: "map_of a k = None \<longleftrightarrow> map_of b k = None" for k by (simp add: map_of_eq_None_iff)
  show "\<forall>k. rel_option eq (map_of a k) (map_of b k)"
  proof
    fix k
    show "rel_option eq (map_of a k) (map_of b k)"
      using dom[of k] val[of k] by (cases "map_of a k") auto
  qed
next
  assume r: "\<forall>k. rel_option eq (map_of a k) (map_of b k)"
  have "map_of a k = None \<longleftrightarrow> map_of b k = None" for k using r[rule_format, of k] by (auto elim: option.rel_cases)
  then have "fst ` set a = fst ` set b" by (auto simp: map_of_eq_None_iff)
  then have "length a = length b" using assms by (metis distinct_card image_set length_map)
  moreover have "list_all (\<lambda>(k, v). case map_of b k of None \<Rightarrow> False | Some v' \<Rightarrow> eq v v') a"
    unfolding list_all_iff
  proof clarify
    fix k v assume "(k, v) \<in> set a"
    then have "map_of a k = Some v" using assms(1) by simp
    then show "case map_of b k of None \<Rightarrow> False | Some v' \<Rightarrow> eq v v'"
      using r[rule_format, of k] by (auto split: option.split elim: option.rel_cases)
  qed
  ultimately show "dict_equal eq a b" by (simp add: dict_equal_def)
qed

lemma fields_equal_iff:
  "distinct (map fst a) \<Longrightarrow> distinct (map fst b) \<Longrightarrow> fields_equal a b \<longleftrightarrow> map_of a = map_of b"
  by (auto simp: fields_equal_def dict_equal_iff option.rel_eq fun_eq_iff)

text \<open>A configuration of distinct pools with distinct fields.\<close>

definition wf_conf :: "(string \<times> fields) list \<Rightarrow> bool" where
  "wf_conf c \<longleftrightarrow> distinct (map fst c) \<and> list_all (\<lambda>(_, f). distinct (map fst f)) c"

definition wf_rows :: "row list \<Rightarrow> bool" where
  "wf_rows c \<longleftrightarrow> distinct (map fst c) \<and> list_all (\<lambda>(_, f). distinct (map fst f)) c"

abbreviation conf_rows :: "(string \<times> fields) list \<Rightarrow> row list" where
  "conf_rows c \<equiv> map (\<lambda>(n, d). ([n], d)) c"

lemma wf_conf_rows: "wf_conf c \<Longrightarrow> wf_rows (conf_rows c)"
  by (induction c) (force simp: wf_conf_def wf_rows_def image_iff)+

lemma wf_rowsD: "wf_rows a \<Longrightarrow> map_of a k = Some d \<Longrightarrow> distinct (map fst d)"
  by (fastforce simp: wf_rows_def list_all_iff dest: map_of_SomeD)

lemma rows_equal_iff:
  assumes "wf_rows a" and "wf_rows b"
  shows "dict_equal fields_equal a b \<longleftrightarrow> (\<forall>k. map_option map_of (map_of a k) = map_option map_of (map_of b k))"
proof -
  have "rel_option fields_equal (map_of a k) (map_of b k) \<longleftrightarrow> map_option map_of (map_of a k) = map_option map_of (map_of b k)" for k
    using wf_rowsD[OF assms(1), of k] wf_rowsD[OF assms(2), of k]
    by (cases "map_of a k"; cases "map_of b k") (auto simp: fields_equal_iff)
  with assms show ?thesis by (simp add: dict_equal_iff wf_rows_def)
qed

lemma table_equal_iff:
  "wf_rows rows \<Longrightarrow> wf_conf c \<Longrightarrow>
   table_equal rows c \<longleftrightarrow> (\<forall>k. map_option map_of (map_of rows k) = map_option map_of (map_of (conf_rows c) k))"
  by (simp add: table_equal_def rows_equal_iff wf_conf_rows)

lemma map_of_conf_rows: "map_of (conf_rows c) k = (case k of [n] \<Rightarrow> map_of c n | _ \<Rightarrow> None)"
  by (induction c) (auto split: list.splits)

lemma table_equal_both:
  assumes "wf_rows rows" and "wf_conf c" and "wf_conf d" and "table_equal rows c" and "table_equal rows d"
  shows "table_equal (conf_rows c) d"
  using assms by (simp add: table_equal_iff wf_conf_rows)

section \<open>The tables of defaults\<close>

text \<open>The flavours a flavour of the version before may be mapped to, whatever the SKU.\<close>

definition mapped_names :: "buffer_params \<Rightarrow> string \<Rightarrow> string list" where
  "mapped_names p n = (case pool_mapped_from_old_version p of
     None \<Rightarrow> [n]
   | Some m \<Rightarrow> (case map_of m n of
         None \<Rightarrow> [n]
       | Some (PoolName k) \<Rightarrow> [if k = [] then n else k]
       | Some (PoolBy how mapname) \<Rightarrow> n # (case pool_convert_map p of
             None \<Rightarrow> [] | Some maps \<Rightarrow> (case map_of maps mapname of None \<Rightarrow> [] | Some skumap \<Rightarrow> map snd skumap))))"

definition maps_ok :: "buffer_params \<Rightarrow> string \<Rightarrow> bool" where
  "maps_ok p n \<longleftrightarrow> (case pool_mapped_from_old_version p of
     None \<Rightarrow> True
   | Some m \<Rightarrow> (case map_of m n of
         Some (PoolBy how mapname) \<Rightarrow> (case pool_convert_map p of None \<Rightarrow> False | Some maps \<Rightarrow> map_of maps mapname \<noteq> None)
       | _ \<Rightarrow> True))"

definition extended_flavour :: "(string \<times> pool_conf) list \<Rightarrow> string \<Rightarrow> pool_conf option" where
  "extended_flavour pools n = (case map_of pools n of
     Some (c # cs) \<Rightarrow> (case mlnx_migrate_extend_condensed_pool (c # cs) of Inr d \<Rightarrow> Some d | Inl _ \<Rightarrow> None) | _ \<Rightarrow> None)"

definition step_ok :: "buffer_params \<Rightarrow> buffer_params \<Rightarrow> bool" where
  "step_ok old new \<longleftrightarrow> (case (version_pools old, version_pools new) of
     (Inr po, Inr pn) \<Rightarrow>
       pool_names old po \<noteq> [] \<and>
       list_all (\<lambda>n. n \<noteq> [] \<and> extended_flavour po n \<noteq> None \<and> maps_ok new n \<and>
         default_pools_present old (conf_rows (the (extended_flavour po n))) \<and>
         list_all (\<lambda>k. k \<noteq> [] \<longrightarrow> (case extended_flavour pn k of None \<Rightarrow> False | Some d \<Rightarrow> wf_conf d)) (mapped_names new n)) (pool_names old po)
   | _ \<Rightarrow> False)"

text \<open>The flavours of a version are well-formed and no two are equal.\<close>

fun all_differ :: "pool_conf list \<Rightarrow> bool" where
  "all_differ [] = True"
| "all_differ (c # cs) \<longleftrightarrow> wf_conf c \<and> list_all (\<lambda>d. \<not> table_equal (conf_rows c) d) cs \<and> all_differ cs"

definition flavours_differ :: "buffer_params \<Rightarrow> bool" where
  "flavours_differ p \<longleftrightarrow> (case version_pools p of
     Inr pools \<Rightarrow> all_differ (map (\<lambda>n. the (extended_flavour pools n)) (pool_names p pools)) | Inl _ \<Rightarrow> False)"

definition mlnx_chain :: "(string \<times> string) list" where
  "mlnx_chain = [(''version_1_0_2'', ''version_1_0_3''), (''version_1_0_3'', ''version_1_0_4''), (''version_1_0_4'', ''version_1_0_5''),
     (''version_1_0_5'', ''version_1_0_6''), (''version_1_0_6'', ''version_2_0_0'')]"

lemma tables_1_0_2: "step_ok params_v1_0_2 params_v1_0_3 \<and> flavours_differ params_v1_0_2" by code_simp
lemma tables_1_0_3: "step_ok params_v1_0_3 params_v1_0_4 \<and> flavours_differ params_v1_0_3" by code_simp
lemma tables_1_0_4: "step_ok params_v1_0_4 params_v1_0_5 \<and> flavours_differ params_v1_0_4" by code_simp
lemma tables_1_0_5: "step_ok params_v1_0_5 params_v1_0_6 \<and> flavours_differ params_v1_0_5" by code_simp
lemma tables_1_0_6: "step_ok params_v1_0_6 params_v2_0_0 \<and> flavours_differ params_v1_0_6" by code_simp

lemma chain_tables:
  assumes "(v, v') \<in> set mlnx_chain"
  obtains old new where "mlnx_default_buffer_parameters v = Inr old" and "mlnx_default_buffer_parameters v' = Inr new"
    and "step_ok old new" and "flavours_differ old"
  using assms tables_1_0_2 tables_1_0_3 tables_1_0_4 tables_1_0_5 tables_1_0_6 that
  by (auto simp: mlnx_chain_def mlnx_default_buffer_parameters_def getitem_def mellanox_default_parameter_def)

section \<open>Every lookup succeeds\<close>

lemma find_old_config_some:
  assumes "\<forall>n \<in> set ns. extended_flavour pools n \<noteq> None"
  shows "find_old_config rows pools ns = Inr (List.find (\<lambda>n. table_equal rows (the (extended_flavour pools n))) ns)"
  using assms
proof (induction ns)
  case (Cons n ns)
  then obtain c cs d where "map_of pools n = Some (c # cs)" and "mlnx_migrate_extend_condensed_pool (c # cs) = Inr d"
    by (auto simp: extended_flavour_def split: option.splits list.splits sum.splits)
  with Cons show ?case by (simp add: getitem_def extended_flavour_def)
qed simp

lemma map_old_pool_ok:
  assumes "maps_ok p n"
  obtains m where "mlnx_migrate_map_old_pool_to_new B p n = Inr m"
    and "(case m of Some (c # cs) \<Rightarrow> c # cs | _ \<Rightarrow> n) \<in> set (mapped_names p n)"
proof (cases "mlnx_migrate_map_old_pool_to_new B p n")
  case (Inl e)
  with assms show ?thesis
    by (auto simp: mlnx_migrate_map_old_pool_to_new_def maps_ok_def split: option.splits pool_target.splits if_splits)
next
  case (Inr m)
  then have "(case m of Some (c # cs) \<Rightarrow> c # cs | _ \<Rightarrow> n) \<in> set (mapped_names p n)"
    by (force simp: mlnx_migrate_map_old_pool_to_new_def mapped_names_def dest: map_of_SomeD
        split: option.splits pool_target.splits if_splits list.splits)
  with Inr that show ?thesis by blast
qed

text \<open>The flavour a flavour becomes for an SKU.\<close>

definition mapped_name :: "mlnx_obj \<Rightarrow> buffer_params \<Rightarrow> string \<Rightarrow> string" where
  "mapped_name B p n = (case mlnx_migrate_map_old_pool_to_new B p n of Inr (Some (c # cs)) \<Rightarrow> c # cs | _ \<Rightarrow> n)"

lemma step_okD:
  assumes "step_ok old new" and "version_pools old = Inr po" and "version_pools new = Inr pn" and "n \<in> set (pool_names old po)"
  shows "n \<noteq> []" and "extended_flavour po n \<noteq> None" and "maps_ok new n"
    and "default_pools_present old (conf_rows (the (extended_flavour po n)))"
    and "k \<in> set (mapped_names new n) \<Longrightarrow> k \<noteq> [] \<Longrightarrow> \<exists>d. extended_flavour pn k = Some d \<and> wf_conf d"
proof -
  have c: "(case x of None \<Rightarrow> False | Some d \<Rightarrow> wf_conf d) \<longleftrightarrow> (\<exists>d. x = Some d \<and> wf_conf d)" for x by (cases x) simp_all
  note * = assms(1)[unfolded step_ok_def assms(2,3) list_all_iff c, simplified, THEN conjunct2, rule_format, OF assms(4)]
  show "n \<noteq> []" and "extended_flavour po n \<noteq> None" and "maps_ok new n"
    and "default_pools_present old (conf_rows (the (extended_flavour po n)))" using * by simp_all
  show "k \<in> set (mapped_names new n) \<Longrightarrow> k \<noteq> [] \<Longrightarrow> \<exists>d. extended_flavour pn k = Some d \<and> wf_conf d" using * by blast
qed

lemma all_differ_wf: "all_differ cs \<Longrightarrow> c \<in> set cs \<Longrightarrow> wf_conf c"
  by (induction cs) auto

lemma mapped_name_ok:
  assumes "step_ok old new" and "version_pools old = Inr po" and "version_pools new = Inr pn" and "n \<in> set (pool_names old po)"
  shows "\<exists>m. mlnx_migrate_map_old_pool_to_new B new n = Inr m \<and> mapped_name B new n = (case m of Some (c # cs) \<Rightarrow> c # cs | _ \<Rightarrow> n)"
    and "mapped_name B new n \<noteq> []" and "\<exists>d. extended_flavour pn (mapped_name B new n) = Some d \<and> wf_conf d"
proof -
  note n = step_okD(1)[OF assms] step_okD(3)[OF assms] step_okD(5)[OF assms]
  obtain m where m: "mlnx_migrate_map_old_pool_to_new B new n = Inr m"
    "(case m of Some (c # cs) \<Rightarrow> c # cs | _ \<Rightarrow> n) \<in> set (mapped_names new n)"
    using map_old_pool_ok[OF n(2)] by blast
  have name: "mapped_name B new n = (case m of Some (c # cs) \<Rightarrow> c # cs | _ \<Rightarrow> n)"
    using m(1) by (simp add: mapped_name_def split: option.split)
  with m show "\<exists>m. mlnx_migrate_map_old_pool_to_new B new n = Inr m \<and> mapped_name B new n = (case m of Some (c # cs) \<Rightarrow> c # cs | _ \<Rightarrow> n)"
    by blast
  show ne: "mapped_name B new n \<noteq> []" using n(1) name by (auto split: option.splits list.splits)
  show "\<exists>d. extended_flavour pn (mapped_name B new n) = Some d \<and> wf_conf d" using m(2) n(3) name ne by metis
qed

lemma extended_flavourD:
  assumes "extended_flavour pools n = Some d"
  obtains c cs where "map_of pools n = Some (c # cs)" and "mlnx_migrate_extend_condensed_pool (c # cs) = Inr d"
  using assms by (auto simp: extended_flavour_def split: option.splits list.splits sum.splits)

lemma new_pool_conf_some:
  assumes "step_ok old new" and "version_pools old = Inr po" and "version_pools new = Inr pn"
  shows "new_pool_conf B old new rows =
    (case List.find (\<lambda>n. table_equal rows (the (extended_flavour po n))) (pool_names old po) of
       None \<Rightarrow> Inr None | Some n \<Rightarrow> Inr (Some (extended_flavour pn (mapped_name B new n))))"
proof -
  let ?found = "List.find (\<lambda>n. table_equal rows (the (extended_flavour po n))) (pool_names old po)"
  have names: "pool_names old po \<noteq> []" using assms by (simp add: step_ok_def)
  have "\<forall>n \<in> set (pool_names old po). extended_flavour po n \<noteq> None" using step_okD(2)[OF assms] by blast
  then have found: "find_old_config rows po (pool_names old po) = Inr ?found" by (simp add: find_old_config_some)
  show ?thesis
  proof (cases ?found)
    case None
    then show ?thesis using names found by (simp add: new_pool_conf_def assms)
  next
    case (Some n)
    then have "n \<in> set (pool_names old po)" by (auto simp: find_Some_iff)
    note ok = mapped_name_ok[OF assms this, of B]
    obtain m where m: "mlnx_migrate_map_old_pool_to_new B new n = Inr m"
      "mapped_name B new n = (case m of Some (c # cs) \<Rightarrow> c # cs | _ \<Rightarrow> n)" using ok(1) by blast
    obtain d where d: "extended_flavour pn (mapped_name B new n) = Some d" using ok(3) by blast
    obtain c cs where c: "map_of pn (mapped_name B new n) = Some (c # cs)" "mlnx_migrate_extend_condensed_pool (c # cs) = Inr d"
      using extended_flavourD[OF d] by blast
    show ?thesis
      by (simp add: new_pool_conf_def assms names found Some m(1) Let_def m(2)[symmetric] ok(2) c d)
  qed
qed

lemma new_pool_conf_total:
  assumes "step_ok old new"
  shows "\<exists>r. new_pool_conf B old new rows = Inr r \<and> r \<noteq> Some None"
proof -
  obtain po pn where vp: "version_pools old = Inr po" "version_pools new = Inr pn"
    using assms by (auto simp: step_ok_def split: sum.splits)
  show ?thesis
  proof (cases "List.find (\<lambda>n. table_equal rows (the (extended_flavour po n))) (pool_names old po)")
    case (Some n)
    then have "n \<in> set (pool_names old po)" by (auto simp: find_Some_iff)
    with Some show ?thesis using mapped_name_ok(3)[OF assms vp, of n B] by (auto simp: new_pool_conf_some[OF assms vp])
  qed (simp add: new_pool_conf_some[OF assms vp])
qed

text \<open>Steps that, when they end, end with success.\<close>

definition succeeds :: "('d, bool) mig \<Rightarrow> bool" where
  "succeeds m \<longleftrightarrow> (\<forall>w b w'. m w = (Inr b, w') \<longrightarrow> b)"

named_theorems succeeding \<open>steps that end with success\<close>

lemma succeeds_return [succeeding]: "succeeds (act_return True)"
  by (simp add: succeeds_def act_return_def)

lemma succeeds_raise [succeeding]: "succeeds (act_of (Inl e))"
  by (simp add: succeeds_def act_of_def)

lemma succeeds_bind [succeeding]: "(\<And>a. succeeds (f a)) \<Longrightarrow> succeeds (act_bind m f)"
  by (auto simp: succeeds_def act_simps)

lemma succeeds_seq [succeeding]: "succeeds n \<Longrightarrow> succeeds (seq m n)"
  by (simp add: seq_def succeeds_bind)

lemma succeeds_if [succeeding]: "succeeds m \<Longrightarrow> succeeds n \<Longrightarrow> succeeds (if b then m else n)"
  by simp

lemma pool_size_succeeds: "(v, v') \<in> set mlnx_chain \<Longrightarrow> succeeds (mlnx_migrate_buffer_pool_size DB v v')"
proof (erule chain_tables)
  fix old new
  assume t: "mlnx_default_buffer_parameters v = Inr old" "mlnx_default_buffer_parameters v' = Inr new" "step_ok old new"
  have "succeeds (act_bind (act_of (new_pool_conf B old new rows)) (\<lambda>r. case r of
       None \<Rightarrow> act_return True | Some None \<Rightarrow> act_return False
     | Some (Some conf) \<Rightarrow> seq (append_items (pool_items rows conf)) (seq (set_default True) (act_return True))) :: ('d, bool) mig)" for B rows
  proof -
    obtain r where r: "new_pool_conf B old new rows = Inr r" "r \<noteq> Some None" using new_pool_conf_total[OF t(3)] by blast
    then show ?thesis by (cases r) (auto intro!: succeeding)
  qed
  then show ?thesis
    unfolding mlnx_migrate_buffer_pool_size_def t(1,2) act_bind_of
    by (intro succeeds_seq succeeds_bind[of _ "table_of _ _"] succeeds_bind[of _ "of_obj _"] succeeds_if succeeds_return)
qed

lemma profile_succeeds: "succeeds (mlnx_migrate_buffer_profile DB v v')"
  unfolding mlnx_migrate_buffer_profile_def migrate_lossy_profiles_def Let_def
  by (auto intro!: succeeding split: option.split list.split)

lemma flush_succeeds: "succeeds (mlnx_flush_new_buffer_configuration DB)"
  unfolding mlnx_flush_new_buffer_configuration_def by (intro succeeding)

section \<open>A default becomes the default it is mapped to\<close>

lemma find_differ:
  assumes "all_differ (map g ns)" and "wf_rows rows" and "n \<in> set ns" and "table_equal rows (g n)"
  shows "List.find (\<lambda>n. table_equal rows (g n)) ns = Some n"
  using assms
proof (induction ns)
  case (Cons m ns)
  show ?case
  proof (cases "table_equal rows (g m)")
    case False
    with Cons show ?thesis by auto
  next
    case True
    have "m = n"
    proof (rule ccontr)
      assume "m \<noteq> n"
      then have n: "n \<in> set ns" using Cons.prems(3) by simp
      have "wf_conf (g m)" "wf_conf (g n)" "\<not> table_equal (conf_rows (g m)) (g n)"
        using Cons.prems(1) n by (auto simp: list_all_iff) (induction ns; auto)
      then show False using table_equal_both[OF Cons.prems(2) _ _ True Cons.prems(4)] by simp
    qed
    with True show ?thesis by simp
  qed
qed simp

lemma append_items_run:
  "append_items xs w = (Inr (), w\<lparr>bm := (bm w)\<lparr>pending_update_items := pending_update_items (bm w) @ xs\<rparr>\<rparr>)"
proof (induction xs arbitrary: w)
  case (Cons x xs)
  then show ?case
    by (simp add: append_items_def act_bind_def mlnx_append_item_on_pending_configuration_list_def on_obj_def act_do_def)
qed (simp add: append_items_def act_return_def)

lemma write_items_run:
  "act_each (\<lambda>(t, k, v). on_db (cf_set_entry DB t k v)) items w =
     (Inr (), w\<lparr>dbs := foldl (\<lambda>d (t, k, v). cf_set_entry DB t k v d) (dbs w) items\<rparr>)"
proof (induction items arbitrary: w)
  case (Cons x items)
  then show ?case by (cases x) (simp add: act_bind_def on_db_def act_do_def)
qed (simp add: act_return_def)

text \<open>The last item for a row decides.\<close>

lemma fld_items:
  assumes "mig_db_ok DB" and "f \<noteq> ''NULL''"
  shows "fld DB (foldl (\<lambda>d (t, k, v). cf_set_entry DB t k v d) d items) f t k =
    (case List.find (\<lambda>(t', k', _). row_id t' k' = row_id t k) (rev items) of
       None \<Rightarrow> fld DB d f t k | Some (_, _, v) \<Rightarrow> (case v of None \<Rightarrow> None | Some x \<Rightarrow> map_of x f))"
proof (induction items rule: rev_induct)
  case (snoc x items)
  then show ?case using assms by (cases x) (auto simp: fld_set split: option.split)
qed simp

lemma find_append: "List.find P (xs @ ys) = (case List.find P xs of None \<Rightarrow> List.find P ys | Some x \<Rightarrow> Some x)"
  by (induction xs) auto

lemma map_of_rev:
  assumes "distinct (map fst xs)"
  shows "map_of (rev xs) = map_of xs"
  by (rule map_of_inject_set[THEN iffD2]) (use assms in \<open>simp_all add: rev_map[symmetric]\<close>)

lemma find_conf_items:
  fixes conf :: "(string \<times> fields) list"
  assumes "distinct (map fst conf)"
  shows "List.find (\<lambda>(t', k', _). row_id t' k' = row_id t [n]) (rev (map (\<lambda>(pool, d). (t, [pool], Some d)) conf)) =
    (case map_of conf n of None \<Rightarrow> None | Some d \<Rightarrow> Some (t, [n], Some d))"
proof -
  have "List.find (\<lambda>(t', k', _). row_id t' k' = row_id t [n]) (map (\<lambda>(pool, d). (t, [pool], Some d)) c) =
    (case map_of c n of None \<Rightarrow> None | Some d \<Rightarrow> Some (t, [n], Some d))" for c :: "(string \<times> fields) list"
    by (induction c) (auto simp: row_id_def)
  from this[of "rev conf"] show ?thesis by (simp add: rev_map map_of_rev[OF assms])
qed

lemma fld_pool_items:
  assumes "mig_db_ok DB" and "f \<noteq> ''NULL''" and "wf_conf conf" and "rows = cf_table DB d0 ''BUFFER_POOL''"
    and "fld DB d f ''BUFFER_POOL'' [n] = fld DB d0 f ''BUFFER_POOL'' [n]"
  shows "fld DB (foldl (\<lambda>d (t, k, v). cf_set_entry DB t k v d) d (pool_items rows conf)) f ''BUFFER_POOL'' [n] =
    (case map_of conf n of None \<Rightarrow> None | Some x \<Rightarrow> map_of x f)"
proof -
  let ?same = "\<lambda>(t', k', _). row_id t' k' = row_id ''BUFFER_POOL'' [n]"
  let ?del = "map (\<lambda>(pool, _). (''BUFFER_POOL'', pool, None :: fields option)) rows"
  have dist: "distinct (map fst conf)" using assms(3) by (simp add: wf_conf_def)
  have find: "List.find ?same (rev (pool_items rows conf)) =
    (case map_of conf n of
       None \<Rightarrow> List.find ?same (rev ?del)
     | Some x \<Rightarrow> Some (''BUFFER_POOL'', [n], Some x))"
    using find_conf_items[OF dist, of "''BUFFER_POOL''" n]
    by (simp add: pool_items_def find_append split: option.split)
  show ?thesis
  proof (cases "map_of conf n")
    case (Some x)
    then show ?thesis by (simp add: fld_items[OF assms(1,2)] find)
  next
    case None
    show ?thesis
    proof (cases "List.find ?same (rev ?del)")
      case (Some y)
      then have "snd (snd y) = None" by (auto simp: find_Some_iff rev_map rev_nth case_prod_beta)
      with Some None show ?thesis by (cases y) (simp add: fld_items[OF assms(1,2)] find)
    next
      case none: None
      have "fld DB d0 f ''BUFFER_POOL'' [n] = None"
      proof (rule ccontr)
        assume "fld DB d0 f ''BUFFER_POOL'' [n] \<noteq> None"
        then obtain k' x where "(k', x) \<in> set rows" "row_id ''BUFFER_POOL'' k' = row_id ''BUFFER_POOL'' [n]"
          using fld_in_table[OF assms(1,2)] assms(4) by blast
        with none show False by (fastforce simp: find_None_iff)
      qed
      with none None show ?thesis by (simp add: fld_items[OF assms(1,2)] find assms(5))
    qed
  qed
qed

lemma map_old_pool_sku:
  "sku B = sku C \<Longrightarrow> mlnx_migrate_map_old_pool_to_new B p n = mlnx_migrate_map_old_pool_to_new C p n"
  by (auto simp: mlnx_migrate_map_old_pool_to_new_def split: option.split pool_target.split)

lemma table_equal_lengths:
  assumes "wf_rows rows" and "wf_conf c" and "table_equal rows c"
  shows "default_pools_present p rows = default_pools_present p (conf_rows c)"
proof -
  have len: "length rows = length (conf_rows c)" using assms(3) by (simp add: table_equal_def dict_equal_def)
  have "map_of rows k = None \<longleftrightarrow> map_of (conf_rows c) k = None" for k
    using table_equal_iff[OF assms(1,2)] assms(3) by (metis map_option_is_None)
  then have "fst ` set rows = fst ` set (conf_rows c)" unfolding map_of_eq_None_iff by blast
  with len show ?thesis by (simp add: default_pools_present_def)
qed

lemma pool_size_run:
  assumes tables: "mlnx_default_buffer_parameters v = Inr old" "mlnx_default_buffer_parameters v' = Inr new"
    "step_ok old new" "flavours_differ old" "version_pools old = Inr po" "version_pools new = Inr pn"
    and n: "n \<in> set (pool_names old po)"
    and rows: "rows = cf_table DB (dbs w) ''BUFFER_POOL''" "wf_rows rows" "table_equal rows (the (extended_flavour po n))"
  obtains d where "extended_flavour pn (mapped_name (bm w) new n) = Some d" and "wf_conf d"
    and "mlnx_migrate_buffer_pool_size DB v v' w = (Inr True, w\<lparr>bm := (bm w)\<lparr>
      pending_update_items := pending_update_items (bm w) @ pool_items rows d, is_buffer_config_default := True\<rparr>\<rparr>)"
proof -
  let ?g = "\<lambda>n. the (extended_flavour po n)"
  have differ: "all_differ (map ?g (pool_names old po))" using tables by (simp add: flavours_differ_def)
  have wf: "wf_conf (?g n)" using all_differ_wf[OF differ] n by simp
  have present: "default_pools_present old rows"
    using table_equal_lengths[OF rows(2) wf rows(3)] step_okD(4)[OF tables(3,5,6) n] by simp
  have find: "List.find (\<lambda>n. table_equal rows (?g n)) (pool_names old po) = Some n"
    by (rule find_differ[OF differ rows(2) n rows(3)])
  obtain d where d: "extended_flavour pn (mapped_name (bm w) new n) = Some d" "wf_conf d"
    using mapped_name_ok(3)[OF tables(3,5,6) n] by blast
  let ?B = "(bm w)\<lparr>is_buffer_config_default := False\<rparr>"
  have "mapped_name ?B new n = mapped_name (bm w) new n" by (simp add: mapped_name_def map_old_pool_sku[of ?B "bm w"])
  then have conf: "new_pool_conf ?B old new rows = Inr (Some (Some d))"
    using new_pool_conf_some[OF tables(3,5,6), of ?B rows] by (simp add: find d(1))
  have "mlnx_migrate_buffer_pool_size DB v v' w = (Inr True, w\<lparr>bm := (bm w)\<lparr>
      pending_update_items := pending_update_items (bm w) @ pool_items rows d, is_buffer_config_default := True\<rparr>\<rparr>)"
    by (simp add: mlnx_migrate_buffer_pool_size_def seq_def act_bind_def set_default_def on_obj_def act_do_def act_of_def
        tables(1,2) table_of_def reads_def of_obj_def present conf append_items_run act_return_def flip: rows(1))
  with d that show ?thesis by blast
qed

abbreviation set_traditional :: "'d mig_db \<Rightarrow> bool \<Rightarrow> ('d, unit) mig" where
  "set_traditional DB b \<equiv> act_when b (act_bind (reads (\<lambda>w. cf_entry DB w ''DEVICE_METADATA'' [''localhost''])) (\<lambda>metadata.
     write_entry DB ''DEVICE_METADATA'' [''localhost''] (AList.update ''buffer_model'' ''traditional'' metadata)))"

lemma traditional_run:
  assumes "mig_db_ok DB"
  shows "\<exists>w2. set_traditional DB b w = (Inr (), w2) \<and>
    (\<forall>m f. f \<noteq> ''NULL'' \<longrightarrow> fld DB (dbs w2) f ''BUFFER_POOL'' [m] = fld DB (dbs w) f ''BUFFER_POOL'' [m])"
proof (cases b)
  case True
  then show ?thesis
    by (simp add: act_when_def reads_bind write_entry_def on_db_def act_do_def fld_set[OF assms] row_id_def)
qed (simp add: act_when_def act_return_def)

lemma flush_run:
  assumes "ready (bm w)" and "set_traditional DB (\<not> is_buffer_config_default (bm w) \<or> is_msft_sku (bm w)) w = (Inr (), w2)"
  shows "mlnx_flush_new_buffer_configuration DB w =
    (Inr True, w2\<lparr>dbs := foldl (\<lambda>d (t, k, v). cf_set_entry DB t k v d) (dbs w2) (pending_update_items (bm w))\<rparr>)"
proof -
  have "mlnx_flush_new_buffer_configuration DB w =
      seq (set_traditional DB (\<not> is_buffer_config_default (bm w) \<or> is_msft_sku (bm w)))
        (seq (act_each (\<lambda>(t, k, v). on_db (cf_set_entry DB t k v)) (pending_update_items (bm w))) (act_return True)) w"
    using assms(1) by (simp add: mlnx_flush_new_buffer_configuration_def of_obj_bind)
  also have "\<dots> = seq (act_each (\<lambda>(t, k, v). on_db (cf_set_entry DB t k v)) (pending_update_items (bm w))) (act_return True) w2"
    by (rule seq_run) (rule assms(2))
  also have "\<dots> = act_return True (w2\<lparr>dbs := foldl (\<lambda>d (t, k, v). cf_set_entry DB t k v d) (dbs w2) (pending_update_items (bm w))\<rparr>)"
    by (rule seq_run) (rule write_items_run)
  finally show ?thesis by (simp add: act_return_def)
qed

section \<open>Buffer profiles\<close>

text \<open>The tables of headrooms: every lookup of the profile step succeeds.\<close>

definition digits_text :: "string \<Rightarrow> bool" where
  "digits_text s \<longleftrightarrow> s \<noteq> [] \<and> list_all (\<lambda>c. c \<in> set ''0123456789'') s"

definition headroom_fields_ok :: "fields \<Rightarrow> bool" where
  "headroom_fields_ok h \<longleftrightarrow>
     (map_of h ''xoff'' = None \<longrightarrow> (case (map_of h ''size'', map_of h ''xon'') of (Some s, Some x) \<Rightarrow> digits_text s \<and> digits_text x | _ \<Rightarrow> False)) \<and>
     (map_of h ''size'' = None \<longrightarrow> map_of h ''xon'' \<noteq> None)"

definition headroom_set_ok :: "headroom_set \<Rightarrow> bool" where
  "headroom_set_ok h \<longleftrightarrow> (case mlnx_migrate_get_headroom_profiles h of
     Inl _ \<Rightarrow> False | Inr d \<Rightarrow> list_all (\<lambda>(_, p). headroom_fields_ok p) d)"

definition headrooms_ok :: "buffer_params \<Rightarrow> bool" where
  "headrooms_ok p \<longleftrightarrow> (case headrooms p of
     None \<Rightarrow> True | Some hs \<Rightarrow> list_all (\<lambda>(_, sets). list_all (\<lambda>(_, h). headroom_set_ok h) sets) hs)"

definition lossy_ok :: "buffer_params \<Rightarrow> buffer_params \<Rightarrow> bool" where
  "lossy_ok old new \<longleftrightarrow> (case buffer_profiles new of
     Some (p # ps) \<Rightarrow> buffer_profiles old \<noteq> None \<and> map_of (p # ps) ''default'' \<noteq> None | _ \<Rightarrow> True)"

lemma headroom_tables:
  "headrooms_ok params_v1_0_3 \<and> lossy_ok params_v1_0_3 params_v1_0_4" "headrooms_ok params_v1_0_4 \<and> lossy_ok params_v1_0_4 params_v1_0_5"
  "headrooms_ok params_v1_0_5 \<and> lossy_ok params_v1_0_5 params_v1_0_6" "headrooms_ok params_v1_0_6"
  by code_simp+

definition profile_chain :: "(string \<times> string) list" where
  "profile_chain = [(''version_1_0_3'', ''version_1_0_4''), (''version_1_0_4'', ''version_1_0_5''), (''version_1_0_5'', ''version_1_0_6'')]"

lemma profile_tables:
  assumes "(v, v') \<in> set profile_chain" and "mlnx_default_buffer_parameters v = Inr old" and "mlnx_default_buffer_parameters v' = Inr new"
  shows "headrooms_ok old \<and> headrooms_ok new \<and> lossy_ok old new"
  using assms headroom_tables
  by (auto simp: profile_chain_def mlnx_default_buffer_parameters_def getitem_def mellanox_default_parameter_def)

lemma digits_nat_total: "list_all is_digit s \<Longrightarrow> digits_nat n s \<noteq> None"
  by (induction s arbitrary: n) auto

lemma py_int_digits:
  assumes "digits_text s"
  obtains n where "py_int s = Inr n"
proof -
  have digit: "\<forall>c \<in> set ''0123456789''. is_digit c \<and> \<not> py_space c" by code_simp
  have s: "s \<noteq> []" "list_all is_digit s" "\<forall>c \<in> set s. \<not> py_space c"
    using assms digit unfolding digits_text_def list_all_iff by blast+
  obtain n where "digits_nat 0 s = Some n" using digits_nat_total[OF s(2), of 0] by blast
  moreover have "dropWhile py_space t = t" if "set t = set s" for t using s(1,3) that by (cases t) auto
  then have "py_strip s = s" by (simp add: py_strip_def)
  moreover have "hd s \<noteq> CHR ''-''" "hd s \<noteq> CHR ''+''" using s(1,2) by (cases s; auto simp: is_digit_def)+
  ultimately show thesis using s(1,2) by (cases s) (auto simp: py_int_def Let_def intro: that)
qed

lemma extend_headroom_total:
  assumes "headroom_fields_ok h"
  shows "\<exists>d. mlnx_migrate_extend_headroom_profile h = Inr d"
proof (cases "map_of h ''xoff''")
  case None
  with assms obtain s x where "map_of h ''size'' = Some s" "map_of h ''xon'' = Some x" "digits_text s" "digits_text x"
    by (auto simp: headroom_fields_ok_def split: option.splits)
  moreover from this obtain m n where "py_int s = Inr m" "py_int x = Inr n" using py_int_digits by metis
  ultimately show ?thesis using None by (simp add: mlnx_migrate_extend_headroom_profile_def Let_def getitem_def update_conv')
next
  case (Some x)
  with assms show ?thesis
    by (auto simp: mlnx_migrate_extend_headroom_profile_def headroom_fields_ok_def Let_def getitem_def update_conv')
qed

lemma rforall_total: "(\<And>x. x \<in> set xs \<Longrightarrow> \<exists>b. p x = Inr b) \<Longrightarrow> \<exists>b. rforall p xs = Inr b"
proof (induction xs)
  case (Cons x xs)
  then obtain b c where "p x = Inr b" "rforall p xs = Inr c" by fastforce
  then show ?case by (cases b) auto
qed auto

lemma rmapM_total: "(\<And>x. x \<in> set xs \<Longrightarrow> \<exists>y. f x = Inr y \<and> P y) \<Longrightarrow> \<exists>ys. rmapM f xs = Inr ys \<and> list_all P ys"
proof (induction xs)
  case (Cons x xs)
  then obtain y ys where "f x = Inr y" "P y" "rmapM f xs = Inr ys" "list_all P ys" by fastforce
  then show ?case by simp
qed simp

lemma headroom_extends: "list_all (\<lambda>(_, p). headroom_fields_ok p) d \<Longrightarrow> map_of d n = Some p \<Longrightarrow> \<exists>x. mlnx_migrate_extend_headroom_profile p = Inr x"
  using extend_headroom_total by (fastforce simp: list_all_iff dest: map_of_SomeD)

lemma find_headrooms_total: "list_all (\<lambda>(_, h). headroom_set_ok h) hs \<Longrightarrow> \<exists>r. find_headrooms rows hs = Inr r"
proof (induction hs)
  case (Cons p hs)
  obtain n h where p: "p = (n, h)" by fastforce
  from Cons.prems obtain d where d: "mlnx_migrate_get_headroom_profiles h = Inr d" "list_all (\<lambda>(_, p). headroom_fields_ok p) d"
    by (auto simp: p headroom_set_ok_def split: sum.splits)
  have "\<exists>b. headrooms_match rows d = Inr b"
    unfolding headrooms_match_def
  proof (rule rforall_total)
    fix x :: row
    obtain k e where x: "x = (k, e)" by fastforce
    show "\<exists>b. (case x of (key, profile) \<Rightarrow> case key of
         [name] \<Rightarrow> (case map_of d name of
             None \<Rightarrow> Inr True
           | Some h \<Rightarrow> rbind (mlnx_migrate_extend_headroom_profile h) (\<lambda>default_profile. Inr (fields_equal profile default_profile)))
       | _ \<Rightarrow> Inr True) = Inr b"
    proof (cases "\<exists>n p. k = [n] \<and> map_of d n = Some p")
      case True
      then obtain n p where n: "k = [n]" "map_of d n = Some p" by blast
      then obtain y where "mlnx_migrate_extend_headroom_profile p = Inr y" using headroom_extends[OF d(2)] by blast
      with n show ?thesis by (simp add: x)
    next
      case False
      then show ?thesis by (auto simp: x split: list.split option.split)
    qed
  qed
  then obtain b where "headrooms_match rows d = Inr b" by blast
  with Cons d(1) show ?case by (auto simp: p)
qed simp

abbreviation profile_items :: "(string \<times> string list \<times> fields option) list \<Rightarrow> bool" where
  "profile_items \<equiv> list_all (\<lambda>x. fst x = ''BUFFER_PROFILE'')"

lemma headroom_items_total:
  assumes "\<And>x. h = Some x \<Longrightarrow> headroom_set_ok x"
  shows "\<exists>its. headroom_items rows h = Inr its \<and> profile_items its"
proof (cases "\<exists>d. h = Some (Headrooms d)")
  case True
  then obtain d where h: "h = Some (Headrooms d)" by blast
  then have d: "list_all (\<lambda>(_, p). headroom_fields_ok p) d" using assms by (force simp: headroom_set_ok_def mlnx_migrate_get_headroom_profiles_def)
  let ?f = "\<lambda>(key, _ :: fields). case key of
         [name] \<Rightarrow> (case map_of d name of
             None \<Rightarrow> Inr []
           | Some p \<Rightarrow> rbind (mlnx_migrate_extend_headroom_profile p) (\<lambda>profile. Inr [(''BUFFER_PROFILE'', key, Some profile)]))
       | _ \<Rightarrow> Inr []"
  have "\<exists>ys. ?f x = Inr ys \<and> profile_items ys" for x
    using headroom_extends[OF d] by (fastforce split: list.split option.split prod.split)
  then obtain xs where "rmapM ?f rows = Inr xs" "list_all profile_items xs" using rmapM_total[of rows ?f profile_items] by blast
  then show ?thesis by (simp add: headroom_items_def h list_all_iff)
next
  case False
  then show ?thesis by (auto simp: headroom_items_def split: option.split headroom_set.split)
qed

text \<open>The state after a step that appends items and sets the flag.\<close>

abbreviation with_items :: "(string \<times> string list \<times> fields option) list \<Rightarrow> bool \<Rightarrow> 'd mig_world \<Rightarrow> 'd mig_world" where
  "with_items its b w \<equiv> w\<lparr>bm := (bm w)\<lparr>pending_update_items := pending_update_items (bm w) @ its, is_buffer_config_default := b\<rparr>\<rparr>"

lemma lossy_run:
  assumes "lossy_ok old new"
  shows "\<exists>its. profile_items its \<and> seq (set_default True) (migrate_lossy_profiles old new rows) w = (Inr True, with_items its True w)"
proof (cases "buffer_profiles new")
  case None
  then show ?thesis
    by (intro exI[of _ "[]"]) (simp add: migrate_lossy_profiles_def set_default_def on_obj_seq act_return_def)
next
  case (Some ps)
  show ?thesis
  proof (cases "ps = [] \<or> \<not> profiles_match rows (the (buffer_profiles old))")
    case True
    with Some assms show ?thesis
      by (intro exI[of _ "[]"]) (auto simp: migrate_lossy_profiles_def lossy_ok_def set_default_def on_obj_seq act_return_def split: list.split)
  next
    case False
    with Some assms obtain profiles olds where "buffer_profiles old = Some olds" "map_of ps ''default'' = Some profiles" "ps \<noteq> []"
      "profiles_match rows olds"
      by (auto simp: lossy_ok_def split: list.splits)
    with Some show ?thesis
      by (intro exI[of _ "map (\<lambda>(name, profile). (''BUFFER_PROFILE'', [name], Some profile)) profiles"])
        (auto simp: migrate_lossy_profiles_def set_default_def on_obj_seq getitem_def act_bind_def act_of_def seq_def append_items_run
          on_obj_def act_do_def act_return_def list_all_iff split: list.split)
  qed
qed


lemma with_items_twice [simp]: "with_items ys b (with_items xs c w) = with_items (xs @ ys) b w"
  by simp

lemma set_default_seq: "seq (set_default b) n w = n (w\<lparr>bm := (bm w)\<lparr>is_buffer_config_default := b\<rparr>\<rparr>)"
  by (simp add: set_default_def on_obj_seq)

lemma profile_run:
  assumes tables: "headrooms_ok old" "headrooms_ok new" "lossy_ok old new"
    and params: "mlnx_default_buffer_parameters v = Inr old" "mlnx_default_buffer_parameters v' = Inr new"
  shows "\<exists>its b. profile_items its \<and> mlnx_migrate_buffer_profile DB v v' w = (Inr True, with_items its b w)"
proof (cases "is_buffer_config_default (bm w)")
  case False
  then have "mlnx_migrate_buffer_profile DB v v' w = (Inr True, with_items [] False w)"
    by (simp add: mlnx_migrate_buffer_profile_def of_obj_bind act_return_def)
  then show ?thesis by (metis list.pred_inject(1))
next
  case True
  let ?rows = "cf_table DB (dbs w) ''BUFFER_PROFILE''" and ?w = "with_items [] False w"
  let ?rest = "seq (set_default True) (migrate_lossy_profiles old new ?rows)"
  define olds where "olds = (if headrooms new \<in> {None, Some []} then [] else headrooms_of (bm w) old)"
  define news where "news = (if headrooms old \<in> {None, Some []} then [] else headrooms_of (bm w) new)"
  have sets: "list_all (\<lambda>(_, h). headroom_set_ok h) (headrooms_of B p)" if "headrooms_ok p" for B p
  proof (cases "headrooms p")
    case (Some hs)
    with that have "list_all (\<lambda>(_, h). headroom_set_ok h) h" if "map_of hs series = Some h" for series h
      using map_of_SomeD[OF that] by (fastforce simp: headrooms_ok_def list_all_iff)
    with Some show ?thesis by (simp add: headrooms_of_def split: option.split)
  qed (simp add: headrooms_of_def)
  have ok: "list_all (\<lambda>(_, h). headroom_set_ok h) olds" "list_all (\<lambda>(_, h). headroom_set_ok h) news"
    using sets tables(1,2) by (simp_all add: olds_def news_def)
  have run: "mlnx_migrate_buffer_profile DB v v' w =
      (if olds = [] \<or> news = [] then ?rest
       else act_bind (act_of (find_headrooms ?rows olds)) (\<lambda>found. case found of
           None \<Rightarrow> act_return True
         | Some name \<Rightarrow> act_bind (act_of (headroom_items ?rows (case new_headroom_set_name (bm w) new name of
               None \<Rightarrow> None | Some n \<Rightarrow> map_of news n))) (\<lambda>items. seq (append_items items) ?rest))) ?w"
    unfolding mlnx_migrate_buffer_profile_def of_obj_bind id_apply Let_def params act_bind_of olds_def[symmetric] news_def[symmetric]
    using True by (simp add: set_default_seq table_of_bind)
  have rest: "\<exists>its b. profile_items its \<and> ?rest (with_items xs False w) = (Inr True, with_items its b w)" if "profile_items xs" for xs
  proof -
    obtain its where "profile_items its" "?rest (with_items xs False w) = (Inr True, with_items its True (with_items xs False w))"
      using lossy_run[OF tables(3)] by blast
    then show ?thesis unfolding with_items_twice using that by (intro exI[of _ "xs @ its"] exI[of _ True]) simp
  qed
  show ?thesis
  proof (cases "olds = [] \<or> news = []")
    case True
    then show ?thesis using rest[of "[]"] by (simp only: run if_True list.pred_inject)
  next
    case False
    obtain found where found: "find_headrooms ?rows olds = Inr found" using find_headrooms_total[OF ok(1)] by blast
    show ?thesis
    proof (cases found)
      case None
      then have "mlnx_migrate_buffer_profile DB v v' w = (Inr True, ?w)"
        using False by (simp only: run found act_bind_of) (simp add: act_return_def)
      then show ?thesis by (metis list.pred_inject(1))
    next
      case (Some name)
      let ?h = "case new_headroom_set_name (bm w) new name of None \<Rightarrow> None | Some n \<Rightarrow> map_of news n"
      have "headroom_set_ok x" if "?h = Some x" for x
        using that ok(2) by (auto simp: list_all_iff split: option.splits dest!: map_of_SomeD)
      then obtain its where its: "headroom_items ?rows ?h = Inr its" "profile_items its" using headroom_items_total by blast
      have "mlnx_migrate_buffer_profile DB v v' w = seq (append_items its) ?rest ?w"
        using False by (simp only: run found Some its(1) act_bind_of if_False option.case)
      also have "\<dots> = ?rest (with_items its False w)" by (rule seq_run) (simp add: append_items_run)
      finally show ?thesis using rest[OF its(2)] by simp
    qed
  qed
qed

text \<open>Items for profiles leave the pools alone.\<close>

lemma fld_profile_items:
  assumes "mig_db_ok DB" and "f \<noteq> ''NULL''" and "profile_items its"
  shows "fld DB (foldl (\<lambda>d (t, k, v). cf_set_entry DB t k v d) d its) f ''BUFFER_POOL'' [m] = fld DB d f ''BUFFER_POOL'' [m]"
proof -
  have "row_id ''BUFFER_PROFILE'' k \<noteq> row_id ''BUFFER_POOL'' [m]" for k by (simp add: row_id_eq)
  then have "List.find (\<lambda>(t, k, _). row_id t k = row_id ''BUFFER_POOL'' [m]) (rev its) = None"
    using assms(3) by (fastforce simp: find_None_iff list_all_iff)
  then show ?thesis by (simp add: fld_items[OF assms(1,2)])
qed

text \<open>The steps of the vendor from a default: the pools, a step that collects items for profiles, and the flush.\<close>

lemma pools_flushed:
  assumes ok: "mig_db_ok DB" and params: "mlnx_default_buffer_parameters v = Inr old" "mlnx_default_buffer_parameters v' = Inr new"
    and chain: "(v, v') \<in> set mlnx_chain" and vp: "version_pools old = Inr po" "version_pools new = Inr pn"
    and n: "n \<in> set (pool_names old po)" and rows: "wf_rows (cf_table DB (dbs w) ''BUFFER_POOL'')"
      "table_equal (cf_table DB (dbs w) ''BUFFER_POOL'') (the (extended_flavour po n))"
    and obj: "ready (bm w)" "pending_update_items (bm w) = []"
    and mid: "\<And>u. \<exists>its b. profile_items its \<and> m u = (Inr True, with_items its b u)"
  shows "\<exists>u w' c. mlnx_migrate_buffer_pool_size DB v v' w = (Inr True, u) \<and>
    (\<exists>u'. m u = (Inr True, u') \<and> mlnx_flush_new_buffer_configuration DB u' = (Inr True, w')) \<and>
    extended_flavour pn (mapped_name (bm w) new n) = Some c \<and>
    (\<forall>m f. f \<noteq> ''NULL'' \<longrightarrow> fld DB (dbs w') f ''BUFFER_POOL'' [m] = (case map_of c m of None \<Rightarrow> None | Some x \<Rightarrow> map_of x f))"
proof -
  have tables: "step_ok old new" "flavours_differ old"
    using chain_tables[OF chain] params by (metis sum.inject(2))+
  let ?rows = "cf_table DB (dbs w) ''BUFFER_POOL''"
  obtain d where d: "extended_flavour pn (mapped_name (bm w) new n) = Some d" "wf_conf d"
    and run: "mlnx_migrate_buffer_pool_size DB v v' w = (Inr True, with_items (pool_items ?rows d) True w)"
    by (rule pool_size_run[OF params tables vp n refl rows])
  let ?u = "with_items (pool_items ?rows d) True w"
  obtain its b where its: "profile_items its" "m ?u = (Inr True, with_items its b ?u)" using mid[of ?u] by blast
  let ?u' = "with_items its b ?u"
  obtain w2 where w2: "set_traditional DB (\<not> is_buffer_config_default (bm ?u') \<or> is_msft_sku (bm ?u')) ?u' = (Inr (), w2)"
    and same: "\<forall>m f. f \<noteq> ''NULL'' \<longrightarrow> fld DB (dbs w2) f ''BUFFER_POOL'' [m] = fld DB (dbs ?u') f ''BUFFER_POOL'' [m]"
    using traditional_run[OF ok, of "\<not> is_buffer_config_default (bm ?u') \<or> is_msft_sku (bm ?u')" ?u'] by blast
  let ?put = "\<lambda>d (t, k, v). cf_set_entry DB t k v d"
  let ?w = "w2\<lparr>dbs := foldl ?put (dbs w2) (pool_items ?rows d @ its)\<rparr>"
  have "mlnx_flush_new_buffer_configuration DB ?u' = (Inr True, ?w)" using flush_run[OF _ w2] obj by simp
  moreover have "fld DB (dbs ?w) f ''BUFFER_POOL'' [m] = (case map_of d m of None \<Rightarrow> None | Some x \<Rightarrow> map_of x f)" if "f \<noteq> ''NULL''" for m f
    using fld_pool_items[OF ok that d(2) refl, of "dbs w2" m "dbs w"] same that by (simp add: fld_profile_items[OF ok that its(1)])
  ultimately show ?thesis using run its(2) d(1) by blast
qed

section \<open>Ports that are up keep their buffers\<close>

text \<open>The tables of buffers by port.\<close>

definition port_tables :: "string list" where
  "port_tables = [''BUFFER_PG'', ''BUFFER_QUEUE'', ''BUFFER_PORT_INGRESS_PROFILE_LIST'', ''BUFFER_PORT_EGRESS_PROFILE_LIST'']"

lemma port_row_other:
  assumes "T \<in> set port_tables" and "CHR ''|'' \<notin> set p" and "CHR ''|'' \<notin> set q" and "p \<noteq> q"
    and "T' \<in> set port_tables"
  shows "row_id T (p # ks) \<noteq> row_id T' [q]" and "row_id T (p # ks) \<noteq> row_id T' [q @ CHR ''|'' # s]"
proof -
  have j: "join_with ''|'' (p # ks) \<noteq> q" "join_with ''|'' (p # ks) \<noteq> q @ CHR ''|'' # s"
    using first_part[OF assms(2), of ks] first_part[OF assms(3), of "[]"] first_part[OF assms(3), of "[s]"] assms(4)
    unfolding join_with.simps by (metis, metis append_Cons append_Nil)
  have "CHR ''|'' \<notin> set (to_upper T)" "CHR ''|'' \<notin> set (to_upper T')"
    using assms(1,5) by (auto simp: port_tables_def)
  then show "row_id T (p # ks) \<noteq> row_id T' [q]" and "row_id T (p # ks) \<noteq> row_id T' [q @ CHR ''|'' # s]"
    using j by (simp_all add: row_id_eq)
qed

lemma pool_row_other: "T \<in> set port_tables \<Longrightarrow> row_id T k \<noteq> row_id ''BUFFER_POOL'' k' \<and> row_id T k \<noteq> row_id ''BUFFER_PROFILE'' k'"
  by (auto simp: port_tables_def row_id_eq)

lemma reclaim_port_other:
  assumes "mig_db_ok DB" and "f \<noteq> ''NULL''" and "T \<in> set port_tables" and "CHR ''|'' \<notin> set p" and "CHR ''|'' \<notin> set q" and "p \<noteq> q"
  shows "preserves (field_is DB f T (p # ks) v) (reclaim_port DB E st ([q], info))"
proof -
  have w: "preserves (field_is DB f T (p # ks) v) (write_entry DB T' [q] d)" "preserves (field_is DB f T (p # ks) v) (write_entry DB T' [q @ CHR ''|'' # s] d)"
    if "T' \<in> set port_tables" for T' d s
    using write_keeps_field[OF assms(1,2) port_row_other(1)[OF assms(3-6) that]] write_keeps_field[OF assms(1,2) port_row_other(2)[OF assms(3-6) that]]
    by blast+
  have pgs: "preserves (field_is DB f T (p # ks) v) (reclaim_pgs DB E q info st)" for st
    unfolding reclaim_pgs_def by (auto intro!: preserving w split: option.split prod.split simp: port_tables_def)
  have queues: "preserves (field_is DB f T (p # ks) v) (reclaim_queues DB E q st)" for st
    unfolding reclaim_queues_def by (auto intro!: preserving w split: option.split prod.split simp: port_tables_def)
  have lists: "preserves (field_is DB f T (p # ks) v) (reclaim_list DB T' rows item [q] st)" if "T' \<in> set port_tables" for T' rows item st
    using that unfolding reclaim_list_def by (auto intro!: preserving w split: option.split)
  have "''BUFFER_PORT_INGRESS_PROFILE_LIST'' \<in> set port_tables" "''BUFFER_PORT_EGRESS_PROFILE_LIST'' \<in> set port_tables"
    by (simp_all add: port_tables_def)
  then show ?thesis
    by (simp add: reclaim_port_def key_text_def preserves_return preserves_bind pgs queues lists)
qed

lemma reclaim_app_keeps:
  assumes "mig_db_ok DB"
  shows "preserves (field_is DB f T k v) (reclaim_app_db DB names reclaimed)"
proof -
  have pg: "preserves (field_is DB f T k v) (reclaim_app_pg DB reclaimed refs h)" for refs h
    unfolding reclaim_app_pg_def by (auto intro!: preserving ap_delete_keeps_field assms split: list.split)
  show ?thesis
    unfolding reclaim_app_db_def by (auto intro!: preserving ap_delete_keeps_field assms pg split: option.split)
qed

text \<open>C23. Reclaiming unused buffers, whether it ends or raises, changes no field of the priority groups, the queues and
  the profile lists of a port that is up.\<close>

theorem reclaim_spares_up_ports:
  assumes "mig_db_ok DB" and "mlnx_reclaiming_unused_buffer DB w = (r, w')"
    and "\<forall>(k, info) \<in> set (cf_table DB (dbs w) ''PORT''). \<exists>q. k = [q] \<and> CHR ''|'' \<notin> set q"
    and "CHR ''|'' \<notin> set p" and "\<forall>info. ([p], info) \<in> set (cf_table DB (dbs w) ''PORT'') \<longrightarrow> map_of info ''admin_status'' = Some ''up''"
    and "T \<in> set port_tables" and "f \<noteq> ''NULL''"
  shows "fld DB (dbs w') f T (p # ks) = fld DB (dbs w) f T (p # ks)"
proof -
  let ?I = "field_is DB f T (p # ks) (fld DB (dbs w) f T (p # ks))"
  have port: "preserves ?I (reclaim_port DB E st row)" if "row \<in> set (cf_table DB (dbs w) ''PORT'')" for E st row
  proof -
    obtain k info where kr: "row = (k, info)" by (cases row)
    have "\<exists>q. k = [q] \<and> CHR ''|'' \<notin> set q" using bspec[OF assms(3) that] kr by simp
    then obtain q where "k = [q]" and q: "CHR ''|'' \<notin> set q" by blast
    with kr have row: "row = ([q], info)" by simp
    show ?thesis
    proof (cases "q = p")
      case True
      then show ?thesis using assms(5) that row by (auto simp: reclaim_port_def preserves_return)
    next
      case False
      then show ?thesis using reclaim_port_other[OF assms(1,7,6,4) q] row by auto
    qed
  qed
  have writes: "preserves ?I (write_entry DB ''BUFFER_POOL'' k d)" "preserves ?I (write_entry DB ''BUFFER_PROFILE'' k d)" for k d
    using pool_row_other[OF assms(6)] by (simp_all add: write_keeps_field assms)
  have "preserves ?I (act_bind (act_fold (reclaim_port DB E) (0, []) (cf_table DB (dbs w) ''PORT'')) (\<lambda>(n, reclaimed).
      seq (act_when (n > 0) (seq (act_each (\<lambda>(name, pool). write_entry DB ''BUFFER_POOL'' [name] pool) xs)
          (act_each (\<lambda>(name, profile). write_entry DB ''BUFFER_PROFILE'' [name] profile) ys)))
        (if \<not> dyn then act_return () else act_bind (warm_reboot DB) (\<lambda>warm. act_when warm (reclaim_app_db DB names reclaimed)))))" for E xs ys dyn names
  proof (rule preserves_bind)
    show "preserves ?I (act_fold (reclaim_port DB E) (0, []) (cf_table DB (dbs w) ''PORT''))" by (rule preserves_fold[OF port])
  qed (unfold case_prod_beta, intro preserving writes reclaim_app_keeps[OF assms(1)])
  note tail = this
  show ?thesis
  proof (cases "cf_keys DB (dbs w) ''CABLE_LENGTH''")
    case Nil
    then show ?thesis using assms(2) by (simp add: mlnx_reclaiming_unused_buffer_def reads_bind act_return_def)
  next
    case (Cons key keys)
    note run = assms(2)[unfolded mlnx_reclaiming_unused_buffer_def reads_bind table_of_bind Cons list.case Let_def]
    have "preserves ?I m \<Longrightarrow> m w = (r, w') \<Longrightarrow> ?thesis" for m :: "('a, unit) mig" by (drule (1) preservesD) simp_all
    then show ?thesis using tail run by blast
  qed
qed

text \<open>One port that is up and one that is down; the queues of the first stay.\<close>

definition reclaim_world :: "mem_dbs mig_world" where
  "reclaim_world =
     \<lparr>dbs = \<lparr>m_conf =
        [(''CABLE_LENGTH|AZURE'', [(''Ethernet0'', ''5m'')]),
         (''PORT|Ethernet0'', [(''admin_status'', ''up'')]), (''PORT|Ethernet4'', [(''admin_status'', ''down'')]),
         (''BUFFER_QUEUE|Ethernet0|0-2'', [(''profile'', ''q_lossy_profile'')])],
        m_app = [], m_state = [], m_log = []\<rparr>,
      bm = mlnx_init dict_dbs \<lparr>m_conf = [], m_app = [], m_state = [], m_log = []\<rparr>\<rparr>"

theorem reclaim_spares_up_ports_witness:
  "fst (mlnx_reclaiming_unused_buffer dict_dbs reclaim_world) = Inr () \<and>
   fld dict_dbs (dbs (snd (mlnx_reclaiming_unused_buffer dict_dbs reclaim_world))) ''profile'' ''BUFFER_QUEUE'' [''Ethernet4'', ''0-2''] =
     Some ''egress_lossy_zero_profile'' \<and>
   fld dict_dbs (dbs (snd (mlnx_reclaiming_unused_buffer dict_dbs reclaim_world))) ''profile'' ''BUFFER_QUEUE'' (''Ethernet0'' # [''0-2'']) =
     Some ''q_lossy_profile''"
proof (intro conjI)
  show "fst (mlnx_reclaiming_unused_buffer dict_dbs reclaim_world) = Inr ()" by code_simp
  show "fld dict_dbs (dbs (snd (mlnx_reclaiming_unused_buffer dict_dbs reclaim_world))) ''profile'' ''BUFFER_QUEUE'' [''Ethernet4'', ''0-2''] =
     Some ''egress_lossy_zero_profile''" by code_simp
  have t: "cf_table dict_dbs (dbs reclaim_world) ''PORT'' = [([''Ethernet0''], [(''admin_status'', ''up'')]), ([''Ethernet4''], [(''admin_status'', ''down'')])]"
    by code_simp
  have "fld dict_dbs (dbs reclaim_world) ''profile'' ''BUFFER_QUEUE'' (''Ethernet0'' # [''0-2'']) = Some ''q_lossy_profile''" by code_simp
  then show "fld dict_dbs (dbs (snd (mlnx_reclaiming_unused_buffer dict_dbs reclaim_world))) ''profile'' ''BUFFER_QUEUE'' (''Ethernet0'' # [''0-2'']) =
     Some ''q_lossy_profile''"
    using reclaim_spares_up_ports[OF dict_dbs_ok prod.collapse[symmetric], of reclaim_world "''Ethernet0''" "''BUFFER_QUEUE''" "''profile''" "[''0-2'']"]
    by (simp add: t port_tables_def)
qed

end
