(* ===== verification/DbMigration.thy ===== *)
theory DbMigration
  imports DbMigrator MlnxMigration
begin

text \<open>
  What a migration of the databases does: it runs the handlers of a fixed chain, whatever the version it starts at; when
  it ends the current version is recorded; the handlers of four versions turn default buffer pools into the default they
  are mapped to; configuration that is there is never overridden by the initial one.
\<close>

section \<open>Steps of the vendor end with success\<close>

lemma succeeds_and_then [succeeding]: "succeeds m \<Longrightarrow> succeeds n \<Longrightarrow> succeeds (and_then m n)"
  unfolding and_then_def succeeds_def by (auto simp: act_simps split: if_splits) blast

lemma succeeds_dynamic [succeeding]: "succeeds (migrate_dynamic_buffers D th)"
proof -
  have "succeeds (if \<not> ok then act_return True else m)" if "succeeds m" for ok and m :: "('a, bool) mig"
    using that by (simp add: succeeds_return)
  then show ?thesis
    unfolding migrate_dynamic_buffers_def Let_def by (intro succeeds_seq succeeds_bind succeeds_if succeeds_return)
qed

lemma succeeds_prepare [succeeding]: "succeeds (prepare_dynamic_buffer_for_warm_reboot D a b c)"
  unfolding prepare_dynamic_buffer_for_warm_reboot_def by (intro succeeding)

lemma succeeds_steps: "(v, v') \<in> set mlnx_chain \<Longrightarrow> succeeds (mlnx_steps D v v')"
  unfolding mlnx_steps_def by (intro succeeding pool_size_succeeds profile_succeeds flush_succeeds)

section \<open>The recorded version\<close>

text \<open>A table that is not the one of the version.\<close>

definition safe_table :: "string \<Rightarrow> bool" where
  "safe_table t \<longleftrightarrow> to_upper t \<noteq> ''VERSIONS'' \<and> CHR ''|'' \<notin> set (to_upper t)"

abbreviation version_field :: "'d mig_db \<Rightarrow> 'd \<Rightarrow> string option" where
  "version_field DB d \<equiv> fld DB d ''VERSION'' ''VERSIONS'' [''DATABASE'']"

text \<open>The version is \<open>x\<close>, and nothing pending would change it.\<close>

definition at_version :: "'d mig_db \<Rightarrow> string option \<Rightarrow> 'd mig_world \<Rightarrow> bool" where
  "at_version DB x w \<longleftrightarrow> version_field DB (dbs w) = x \<and> list_all (\<lambda>(t, _). safe_table t) (pending_update_items (bm w))"

lemma safe_row: "safe_table t \<Longrightarrow> row_id ''VERSIONS'' [''DATABASE''] \<noteq> row_id t k"
  by (auto simp: safe_table_def row_id_eq)

lemma version_row: "row_id ''VERSIONS'' [''DATABASE''] = ''VERSIONS|DATABASE''"
  by (simp add: row_id_def)

lemma at_version_db:
  "(\<And>d. version_field DB (f d) = version_field DB d) \<Longrightarrow> preserves (at_version DB x) (on_db f)"
  by (auto simp: at_version_def intro!: preserves_on_db)

lemma at_set: "mig_db_ok DB \<Longrightarrow> safe_table t \<Longrightarrow> preserves (at_version DB x) (on_db (cf_set_entry DB t k d))"
  by (rule at_version_db) (simp add: fld_set safe_row)

lemma at_write: "mig_db_ok DB \<Longrightarrow> safe_table t \<Longrightarrow> preserves (at_version DB x) (write_entry DB t k d)"
  by (simp add: write_entry_def at_set)

lemma at_mod: "mig_db_ok DB \<Longrightarrow> safe_table t \<Longrightarrow> preserves (at_version DB x) (on_db (cf_mod_entry DB t k d))"
  by (rule at_version_db) (simp add: fld_mod safe_row)

lemma at_delete_table: "mig_db_ok DB \<Longrightarrow> \<not> prefix (to_upper t @ ''|'') ''VERSIONS|DATABASE'' \<Longrightarrow> preserves (at_version DB x) (on_db (cf_delete_table DB t))"
  by (rule at_version_db) (simp add: fld_delete_table version_row)

lemma at_hset: "mig_db_ok DB \<Longrightarrow> h \<noteq> ''VERSIONS|DATABASE'' \<Longrightarrow> preserves (at_version DB x) (on_db (cf_set DB h f v))"
  by (rule at_version_db) (simp add: fld_hset version_row)

lemma at_other:
  assumes "mig_db_ok DB"
  shows "preserves (at_version DB x) (on_db (ap_set DB h f v))" and "preserves (at_version DB x) (on_db (ap_delete DB h))"
    and "preserves (at_version DB x) (on_db (ll_delete DB h))"
  by (rule at_version_db, simp add: fld_ap_set[OF assms] fld_ap_delete[OF assms] fld_ll_delete[OF assms])+

lemma at_obj: "(\<And>B. list_all (\<lambda>(t, _). safe_table t) (pending_update_items B) \<Longrightarrow> list_all (\<lambda>(t, _). safe_table t) (pending_update_items (f B))) \<Longrightarrow>
  preserves (at_version DB x) (on_obj f)"
  by (auto simp: at_version_def intro!: preserves_on_obj)

lemma at_append: "safe_table (fst item) \<Longrightarrow> preserves (at_version DB x) (mlnx_append_item_on_pending_configuration_list item)"
  unfolding mlnx_append_item_on_pending_configuration_list_def by (rule at_obj) auto

lemma at_appends: "list_all (\<lambda>(t, _). safe_table t) its \<Longrightarrow> preserves (at_version DB x) (append_items its)"
  unfolding append_items_def by (rule preserves_each) (auto simp: list_all_iff intro!: at_append)

lemma at_flags: "preserves (at_version DB x) (set_default b)" "preserves (at_version DB x) mlnx_abandon_pending_buffer_configuration"
  "preserves (at_version DB x) mlnx_is_buffer_model_dynamic"
  unfolding set_default_def mlnx_abandon_pending_buffer_configuration_def mlnx_is_buffer_model_dynamic_def
  by (auto intro!: at_obj preserves_reads)

lemma safe_tables:
  "safe_table ''PFC_WD''" "safe_table ''INTERFACE''" "safe_table ''PORTCHANNEL_INTERFACE''" "safe_table ''VLAN_INTERFACE''"
  "safe_table ''LOOPBACK_INTERFACE''" "safe_table ''FEATURE''" "safe_table ''CONTAINER_FEATURE''" "safe_table ''PORT''"
  "safe_table ''BUFFER_PROFILE''" "safe_table ''BUFFER_POOL''" "safe_table ''BUFFER_PG''" "safe_table ''BUFFER_QUEUE''"
  "safe_table ''BUFFER_PORT_INGRESS_PROFILE_LIST''" "safe_table ''BUFFER_PORT_EGRESS_PROFILE_LIST''"
  "safe_table ''DEVICE_METADATA''" "safe_table ''DEFAULT_LOSSLESS_BUFFER_PARAMETER''" "safe_table ''LOSSLESS_TRAFFIC_PATTERN''"
  "safe_table ''RESTAPI''" "safe_table ''TELEMETRY''" "safe_table ''CONSOLE_SWITCH''" "safe_table ''PORT_QOS_MAP''" "safe_table ''PORTCHANNEL''"
  by code_simp+

lemmas at_writes = preserving at_set at_write at_mod at_hset at_other at_append at_appends at_flags safe_tables

section \<open>Steps that leave the version alone\<close>

lemma at_pfc_wd: "mig_db_ok (mdb D) \<Longrightarrow> preserves (at_version (mdb D) x) (migrate_pfc_wd_table D)"
proof -
  assume ok: "mig_db_ok (mdb D)"
  have "\<not> prefix (to_upper ''PFC_WD_TABLE'' @ ''|'') ''VERSIONS|DATABASE''" by code_simp
  then show ?thesis unfolding migrate_pfc_wd_table_def by (auto intro!: at_writes ok at_delete_table)
qed

lemma at_interface_table: "mig_db_ok (mdb D) \<Longrightarrow> preserves (at_version (mdb D) x) (migrate_interface_table D)"
  unfolding migrate_interface_table_def add_interface_def by (auto simp: if_tables_def intro!: at_writes)

lemma at_intf_table: "mig_db_ok (mdb D) \<Longrightarrow> preserves (at_version (mdb D) x) (migrate_intf_table D)"
  unfolding migrate_intf_table_def migrate_lo_row_def add_intf_def by (auto intro!: at_writes split: option.split)

lemma at_copp_table: "mig_db_ok (mdb D) \<Longrightarrow> preserves (at_version (mdb D) x) (migrate_copp_table D)"
  unfolding migrate_copp_table_def by (auto intro!: at_writes split: option.split)

lemma at_feature_table: "mig_db_ok (mdb D) \<Longrightarrow> preserves (at_version (mdb D) x) (migrate_feature_table D)"
  unfolding migrate_feature_table_def by (auto intro!: at_writes split: option.split)

lemma at_mgmt_ports: "mig_db_ok (mdb D) \<Longrightarrow> preserves (at_version (mdb D) x) (migrate_mgmt_ports_on_s6100 D)"
  unfolding migrate_mgmt_ports_on_s6100_def add_mgmt_port_def by (auto intro!: at_writes split: option.split)

lemma at_pgs: "mig_db_ok (mdb D) \<Longrightarrow> preserves (at_version (mdb D) x) (migrate_pgs D ports lens rs)"
  by (induction D ports lens rs rule: migrate_pgs.induct) (auto intro!: at_writes split: pg_action.split)

lemma at_dynamic: "mig_db_ok (mdb D) \<Longrightarrow> preserves (at_version (mdb D) x) (migrate_dynamic_buffers D th)"
  unfolding migrate_dynamic_buffers_def Let_def by (auto intro!: at_writes at_pgs split: option.split)

lemma at_prepare: "mig_db_ok (mdb D) \<Longrightarrow> preserves (at_version (mdb D) x) (prepare_dynamic_buffer_for_warm_reboot D a b c)"
  unfolding prepare_dynamic_buffer_for_warm_reboot_def copy_buffer_entry_def Let_def by (auto intro!: at_writes split: option.split)

lemma at_auto_neg: "mig_db_ok (mdb D) \<Longrightarrow> preserves (at_version (mdb D) x) (migrate_config_db_port_table_for_auto_neg D)"
  unfolding migrate_config_db_port_table_for_auto_neg_def migrate_auto_neg_port_def Let_def by (auto intro!: at_writes split: option.split)

lemma join_first: "\<exists>r. join_with s (t # ks) = t @ r"
  by (cases ks) auto

lemma at_references:
  assumes "mig_db_ok (mdb D)"
  shows "preserves (at_version (mdb D) x) (migrate_qos_fieldval_reference_format D)"
proof -
  have "join_with ''|'' (t # k) \<noteq> ''VERSIONS|DATABASE''" if "(t, fs) \<in> set qos_table_list" for t k fs
    using join_first[of "''|''" t k] that by (auto simp: qos_table_list_def)
  then have "preserves (at_version (mdb D) x) (reference_remove (cf_table (mdb D)) (cf_set (mdb D)) CHR ''|'' qos_table_list)"
    unfolding reference_remove_def by (auto intro!: at_writes assms split: option.split)
  moreover have "preserves (at_version (mdb D) x) (reference_remove (ap_table (mdb D)) (ap_set (mdb D)) CHR '':'' ts)" for ts
    unfolding reference_remove_def by (auto intro!: at_writes assms split: option.split)
  ultimately show ?thesis unfolding migrate_qos_fieldval_reference_format_def by (intro preserves_seq)
qed

lemma at_vxlan: "mig_db_ok (mdb D) \<Longrightarrow> preserves (at_version (mdb D) x) (migrate_vxlan_config D)"
  unfolding migrate_vxlan_config_def migrate_vxlan_table_def Let_def by (auto intro!: at_writes split: option.split)

lemma at_add_missing: "mig_db_ok (mdb D) \<Longrightarrow> safe_table t \<Longrightarrow> preserves (at_version (mdb D) x) (act_each (add_missing D t) es)"
  unfolding add_missing_def by (auto intro!: at_writes)

lemma at_metadata: "mig_db_ok (mdb D) \<Longrightarrow> preserves (at_version (mdb D) x) (migrate_device_metadata D)"
  unfolding migrate_device_metadata_def by (auto intro!: at_writes)

lemma at_qos_global: "mig_db_ok (mdb D) \<Longrightarrow> preserves (at_version (mdb D) x) (migrate_port_qos_map_global D)"
  unfolding migrate_port_qos_map_global_def by (auto intro!: at_writes split: list.split)

lemma at_loglevel: "mig_db_ok (mdb D) \<Longrightarrow> preserves (at_version (mdb D) x) (migrate_loglevel D key)"
  unfolding migrate_loglevel_def Let_def by (auto intro!: at_writes split: option.split sum.split)

text \<open>The vendor's steps write to tables of buffers.\<close>

lemma at_pool_size: "mig_db_ok DB \<Longrightarrow> preserves (at_version DB x) (mlnx_migrate_buffer_pool_size DB v v')"
  unfolding mlnx_migrate_buffer_pool_size_def pool_items_def
  by (auto intro!: at_writes simp: list_all_iff split: option.split)

lemma rmapM_all: "rmapM f xs = Inr ys \<Longrightarrow> (\<And>x y. f x = Inr y \<Longrightarrow> P y) \<Longrightarrow> \<forall>y \<in> set ys. P y"
  by (induction xs arbitrary: ys) (auto simp: rbind_eq_Inr)

lemma headroom_items_safe:
  assumes "headroom_items rows h = Inr its"
  shows "list_all (\<lambda>(t, _). safe_table t) its"
proof (cases "\<exists>d. h = Some (Headrooms d)")
  case True
  then obtain d where "h = Some (Headrooms d)" by blast
  with assms obtain xs where xs: "its = concat xs"
    and m: "rmapM (\<lambda>(key, _). case key of
           [name] \<Rightarrow> (case map_of d name of
               None \<Rightarrow> Inr []
             | Some p \<Rightarrow> rbind (mlnx_migrate_extend_headroom_profile p) (\<lambda>profile. Inr [(''BUFFER_PROFILE'', key, Some profile)]))
         | _ \<Rightarrow> Inr []) rows = Inr xs"
    by (auto simp: headroom_items_def rbind_eq_Inr)
  have "\<forall>y \<in> set xs. list_all (\<lambda>(t, _). safe_table t) y"
    by (rule rmapM_all[OF m]) (auto simp: rbind_eq_Inr safe_tables split: list.splits option.splits)
  with xs show ?thesis by (auto simp: list_all_iff)
next
  case False
  with assms show ?thesis by (auto simp: headroom_items_def split: option.splits headroom_set.splits)
qed

lemma at_lossy: "mig_db_ok DB \<Longrightarrow> preserves (at_version DB x) (migrate_lossy_profiles old new rows)"
  unfolding migrate_lossy_profiles_def by (auto intro!: at_writes simp: list_all_iff split: option.split list.split)

lemma preserves_option: "preserves I m \<Longrightarrow> (\<And>a. preserves I (f a)) \<Longrightarrow> preserves I (case x of None \<Rightarrow> m | Some a \<Rightarrow> f a)"
  by (cases x) simp_all

lemma at_profile:
  assumes "mig_db_ok DB"
  shows "preserves (at_version DB x) (mlnx_migrate_buffer_profile DB v v')"
proof -
  have items: "preserves (at_version DB x) (act_bind (act_of (headroom_items rows h)) (\<lambda>its. seq (append_items its) m))"
    if "preserves (at_version DB x) m" for rows h and m :: "('a, bool) mig"
    using that by (cases "headroom_items rows h") (auto dest!: headroom_items_safe intro!: at_writes)
  show ?thesis
    unfolding mlnx_migrate_buffer_profile_def Let_def
    by (intro items preserves_bind[of _ "of_obj _"] preserves_bind[of _ "table_of _ _"] preserves_bind[of _ "act_of (mlnx_default_buffer_parameters _)"]
        preserves_bind[of _ "act_of (find_headrooms _ _)"] preserves_option
        preserves_if preserves_seq preserves_reads preserves_return preserves_of at_flags at_lossy[OF assms])
qed

lemma at_flush:
  assumes "mig_db_ok DB"
  shows "preserves (at_version DB x) (mlnx_flush_new_buffer_configuration DB)"
proof -
  have each: "preserves (at_version DB x) (act_each (\<lambda>(t, k, v). on_db (cf_set_entry DB t k v)) its)"
    if "list_all (\<lambda>(t, _). safe_table t) its" for its
    using that by (auto simp: list_all_iff intro!: preserves_each at_set[OF assms])
  have "preserves (at_version DB x) (seq (set_traditional DB b) (seq (act_each (\<lambda>(t, k, v). on_db (cf_set_entry DB t k v)) its) (act_return True)))"
    if "list_all (\<lambda>(t, _). safe_table t) its" for b its
    by (intro preserves_seq preserves_when preserves_bind preserves_reads at_write[OF assms] safe_tables preserves_return each that)
  then show ?thesis
    by (simp add: preserves_def mlnx_flush_new_buffer_configuration_def of_obj_bind act_return_def) (simp add: at_version_def)
qed

lemma at_reclaim: "mig_db_ok DB \<Longrightarrow> preserves (at_version DB x) (mlnx_reclaiming_unused_buffer DB)"
proof -
  assume ok: "mig_db_ok DB"
  have pgs: "preserves (at_version DB x) (reclaim_pgs DB E p i st)" for E p i st
    unfolding reclaim_pgs_def by (auto intro!: at_writes ok split: option.split prod.split)
  have queues: "preserves (at_version DB x) (reclaim_queues DB E p st)" for E p st
    unfolding reclaim_queues_def by (auto intro!: at_writes ok split: option.split)
  have lists: "safe_table t \<Longrightarrow> preserves (at_version DB x) (reclaim_list DB t rows item p st)" for t rows item p st
    unfolding reclaim_list_def by (auto intro!: at_writes ok split: option.split)
  have port: "preserves (at_version DB x) (reclaim_port DB E st r)" for E st r
    unfolding reclaim_port_def case_prod_beta by (intro preserves_if preserves_return preserves_bind pgs queues lists safe_tables)
  have app: "preserves (at_version DB x) (reclaim_app_pg DB rs refs h)" for rs refs h
    unfolding reclaim_app_pg_def by (auto intro!: at_writes ok split: list.split)
  have db: "preserves (at_version DB x) (reclaim_app_db DB names rs)" for names rs
    unfolding reclaim_app_db_def by (auto intro!: at_writes ok app split: option.split)
  show ?thesis
    unfolding mlnx_reclaiming_unused_buffer_def Let_def case_prod_beta
    by (intro preserves_bind preserves_reads) (auto intro!: at_writes ok port db split: list.split)
qed

section \<open>Every handler records its version\<close>

definition records :: "'d mig_db \<Rightarrow> string \<Rightarrow> ('d, unit) mig \<Rightarrow> bool" where
  "records DB v m \<longleftrightarrow> (\<forall>x w w'. at_version DB x w \<longrightarrow> m w = (Inr (), w') \<longrightarrow> at_version DB (Some v) w')"

lemma records_set: "mig_db_ok (mdb D) \<Longrightarrow> v \<noteq> [] \<Longrightarrow> records (mdb D) v (set_version D (Some v))"
  by (auto simp: records_def set_version_def write_entry_def on_db_def act_do_def at_version_def fld_set)

lemma records_bind: "(\<And>x. preserves (at_version DB x) m) \<Longrightarrow> (\<And>a. records DB v (f a)) \<Longrightarrow> records DB v (act_bind m f)"
  unfolding records_def by (metis act_bind_Inr preservesD)

lemma records_seq: "(\<And>x. preserves (at_version DB x) m) \<Longrightarrow> records DB v n \<Longrightarrow> records DB v (seq m n)"
  by (simp add: seq_def records_bind)

lemma records_if: "records DB v m \<Longrightarrow> records DB v n \<Longrightarrow> records DB v (if b then m else n)"
  by simp

lemma records_version_if:
  assumes "mig_db_ok (mdb D)" and "v \<noteq> []" and "succeeds m" and "\<And>x. preserves (at_version (mdb D) x) m"
  shows "records (mdb D) v (set_version_if D m v)"
  unfolding records_def
proof (intro allI impI)
  fix x w w'
  assume x: "at_version (mdb D) x w" and "set_version_if D m v w = (Inr (), w')"
  then obtain b u where m: "m w = (Inr b, u)" and s: "act_when b (set_version D (Some v)) u = (Inr (), w')"
    by (auto simp: set_version_if_def act_simps)
  have "b" using assms(3) m by (auto simp: succeeds_def)
  with s have "set_version D (Some v) u = (Inr (), w')" by (simp add: act_when_def)
  moreover have "at_version (mdb D) x u" using preservesD[OF assms(4) m x] .
  ultimately show "at_version (mdb D) (Some v) w'" using records_set[OF assms(1,2)] by (auto simp: records_def)
qed

lemma at_and_then: "preserves I m \<Longrightarrow> preserves I n \<Longrightarrow> preserves I (and_then m n)"
  unfolding and_then_def by (intro preserving)

lemma at_steps: "mig_db_ok (mdb D) \<Longrightarrow> preserves (at_version (mdb D) x) (mlnx_steps D v v')"
  unfolding mlnx_steps_def by (intro at_and_then at_pool_size at_profile at_flush)

lemma in_chain: "(''version_1_0_2'', ''version_1_0_3'') \<in> set mlnx_chain" "(''version_1_0_3'', ''version_1_0_4'') \<in> set mlnx_chain"
  "(''version_1_0_4'', ''version_1_0_5'') \<in> set mlnx_chain" "(''version_1_0_5'', ''version_1_0_6'') \<in> set mlnx_chain"
  "(''version_1_0_6'', ''version_2_0_0'') \<in> set mlnx_chain"
  by (simp_all add: mlnx_chain_def)

lemmas recording = records_seq records_bind records_if records_version_if records_set preserving at_pfc_wd at_interface_table at_intf_table
  at_feature_table at_dynamic at_prepare at_auto_neg at_references at_vxlan at_add_missing at_metadata at_qos_global at_loglevel
  at_and_then at_steps at_pool_size at_profile at_flush at_flags at_reclaim at_write safe_tables
  succeeds_and_then succeeds_bind succeeds_if succeeds_return succeeds_dynamic succeeds_prepare succeeds_steps pool_size_succeeds profile_succeeds flush_succeeds in_chain

lemma handlers_record:
  assumes "mig_db_ok (mdb D)" and "(v, h, Some v') \<in> set version_handlers"
  shows "records (mdb D) v' (h D)"
proof -
  note ok = assms(1)
  have 1: "records (mdb D) ''version_1_0_2'' (version_unknown D)" "records (mdb D) ''version_1_0_2'' (version_1_0_1 D)"
    "records (mdb D) ''version_1_0_3'' (version_1_0_2 D)" "records (mdb D) ''version_1_0_4'' (version_1_0_3 D)"
    "records (mdb D) ''version_1_0_5'' (version_1_0_4 D)" "records (mdb D) ''version_1_0_6'' (version_1_0_5 D)"
    unfolding version_unknown_def version_1_0_1_def version_1_0_2_def version_1_0_3_def version_1_0_4_def version_1_0_5_def
    by (intro recording ok; simp)+
  have 2: "records (mdb D) ''version_2_0_0'' (version_1_0_6 D)"
    unfolding version_1_0_6_def by (intro recording ok; simp)
  have 3: "records (mdb D) ''version_2_0_1'' (version_2_0_0 D)" "records (mdb D) ''version_2_0_2'' (version_2_0_1 D)"
    "records (mdb D) ''version_3_0_0'' (version_2_0_2 D)" "records (mdb D) ''version_3_0_1'' (version_3_0_0 D)"
    "records (mdb D) ''version_3_0_2'' (version_3_0_1 D)" "records (mdb D) ''version_3_0_3'' (version_3_0_2 D)"
    "records (mdb D) ''version_3_0_4'' (version_3_0_3 D)"
    unfolding version_2_0_0_def version_2_0_1_def version_2_0_2_def version_3_0_0_def version_3_0_1_def version_3_0_2_def version_3_0_3_def
      migrate_restapi_def migrate_telemetry_def migrate_console_switch_def case_prod_beta
    by (intro recording ok; simp)+
  have 4: "records (mdb D) ''version_3_0_5'' (version_3_0_4 D)" "records (mdb D) ''version_3_0_6'' (version_3_0_5 D)"
    "records (mdb D) ''version_4_0_0'' (version_3_0_6 D)"
    unfolding version_3_0_4_def version_3_0_5_def version_3_0_6_def case_prod_beta
    by (intro recording preserves_option ok; simp)+
  show ?thesis using assms(2) 1 2 3 4 by (auto simp: version_handlers_def)
qed

section \<open>The loop runs a chain of handlers\<close>

type_synonym 'd handler = "string \<times> ('d db_migrator \<Rightarrow> ('d, unit) mig) \<times> string option"

text \<open>Each handler returns the version of the next one, the last none.\<close>

fun linked :: "'d handler list \<Rightarrow> bool" where
  "linked [] = False"
| "linked [(v, h, next)] \<longleftrightarrow> v \<noteq> [] \<and> next = None"
| "linked ((v, h, next) # (v', h', next') # hs) \<longleftrightarrow> v \<noteq> [] \<and> v \<noteq> v' \<and> next = Some v' \<and> linked ((v', h', next') # hs)"

text \<open>The handlers run from a version: the unknown one skips that of 1.0.1.\<close>

definition chain_from :: "string \<Rightarrow> 'd handler list" where
  "chain_from v = (if v = ''version_unknown'' then hd version_handlers # drop 2 version_handlers else dropWhile (\<lambda>(u, _). u \<noteq> v) version_handlers)"

lemma linked_tail: "linked (xs @ ys) \<Longrightarrow> ys \<noteq> [] \<Longrightarrow> linked ys"
proof (induction xs)
  case (Cons x xs)
  then obtain z zs where "xs @ ys = z # zs" by (cases "xs @ ys") auto
  with Cons show ?case by (cases x; cases z) auto
qed simp

lemma distinct_handlers: "distinct (map fst (version_handlers :: 'd handler list))"
  by (simp add: version_handlers_def)

lemma chain_ok:
  assumes "map_of (version_handlers :: 'd handler list) v \<noteq> None"
  shows "linked (chain_from v :: 'd handler list)" and "set (chain_from v :: 'd handler list) \<subseteq> set version_handlers"
    and "fst (hd (chain_from v :: 'd handler list)) = v" and "length (chain_from v :: 'd handler list) \<le> length (version_handlers :: 'd handler list)"
proof -
  have l: "linked (tl (version_handlers :: 'd handler list))" "linked (hd (version_handlers :: 'd handler list) # drop 2 version_handlers)"
    by (simp_all add: version_handlers_def)
  have "linked (chain_from v :: 'd handler list) \<and> set (chain_from v :: 'd handler list) \<subseteq> set version_handlers \<and>
      fst (hd (chain_from v :: 'd handler list)) = v \<and> length (chain_from v :: 'd handler list) \<le> length (version_handlers :: 'd handler list)"
  proof (cases "v = ''version_unknown''")
    case True
    then show ?thesis using l(2) by (simp add: chain_from_def version_handlers_def)
  next
    case False
    let ?P = "\<lambda>(u, _). u \<noteq> v"
    have mem: "v \<in> fst ` set (version_handlers :: 'd handler list)" using assms by (simp add: map_of_eq_None_iff)
    have ne: "dropWhile ?P (version_handlers :: 'd handler list) \<noteq> []" using mem by (force simp: dropWhile_eq_Nil_conv)
    have "dropWhile ?P (version_handlers :: 'd handler list) = dropWhile ?P (tl version_handlers)" using False by (simp add: version_handlers_def)
    moreover have "linked (dropWhile ?P (tl (version_handlers :: 'd handler list)))"
      using linked_tail[of "takeWhile ?P (tl version_handlers)"] l(1) ne calculation by (metis takeWhile_dropWhile_id)
    moreover have "fst (hd (dropWhile ?P (version_handlers :: 'd handler list))) = v"
      using hd_dropWhile[OF ne] by (simp add: case_prod_beta)
    ultimately show ?thesis using False
      using set_dropWhileD[of _ ?P "version_handlers :: 'd handler list"] length_dropWhile_le[of ?P "version_handlers :: 'd handler list"]
      by (auto simp: chain_from_def)
  qed
  then show "linked (chain_from v :: 'd handler list)" and "set (chain_from v :: 'd handler list) \<subseteq> set version_handlers"
    and "fst (hd (chain_from v :: 'd handler list)) = v" and "length (chain_from v :: 'd handler list) \<le> length (version_handlers :: 'd handler list)"
    by simp_all
qed

lemma loop_chain:
  fixes D :: "'d db_migrator"
  assumes "linked hs" and "set hs \<subseteq> set version_handlers" and "length hs \<le> n"
  shows "migrate_loop n D (Some (fst (hd hs))) = act_each (\<lambda>(_, h, _). h D) hs"
  using assms
proof (induction hs arbitrary: n rule: linked.induct)
  case (2 v h nxt)
  then have "map_of version_handlers v = Some (h, nxt)" by (intro map_of_is_SomeI[OF distinct_handlers]) simp
  with 2 show ?case by (cases n) (simp_all add: seq_def)
next
  case (3 v h nxt v' h' next' hs)
  then have "map_of version_handlers v = Some (h, nxt)" by (intro map_of_is_SomeI[OF distinct_handlers]) simp
  with 3 show ?case by (cases n) (auto simp: seq_def)
qed simp

text \<open>C18. The loop of \<open>migrate\<close> ends: with as many turns as there are handlers, or more, it runs the handlers of the chain
  from the version, one after the other, and stops at an unknown version with an \<open>AttributeError\<close>.\<close>

theorem migrate_loop_ends:
  fixes D :: "'d db_migrator"
  assumes "v \<noteq> []" and "n \<ge> length (version_handlers :: 'd handler list)"
  shows "migrate_loop n D (Some v) =
    (if map_of (version_handlers :: 'd handler list) v = None then act_of (Inl AttributeError)
     else act_each (\<lambda>(_, h, _). h D) (chain_from v))"
proof (cases "map_of (version_handlers :: 'd handler list) v")
  case None
  have "n \<noteq> 0" using assms(2) by (auto simp: version_handlers_def)
  with None assms(1) show ?thesis by (cases n) simp_all
next
  case (Some hn)
  then have v: "map_of (version_handlers :: 'd handler list) v \<noteq> None" by simp
  from loop_chain[OF chain_ok(1,2)[OF v], of n D] chain_ok(3,4)[OF v] assms(2) Some show ?thesis by simp
qed

lemma chain_records:
  fixes D :: "'d db_migrator"
  assumes "mig_db_ok (mdb D)" and "linked hs" and "set hs \<subseteq> set version_handlers" and "at_version (mdb D) x w"
    and "fst (hd hs) = CURRENT_VERSION \<longrightarrow> x = Some CURRENT_VERSION"
    and "act_each (\<lambda>(_, h, _). h D) hs w = (Inr (), w')"
  shows "at_version (mdb D) (Some CURRENT_VERSION) w'"
  using assms(2-)
proof (induction hs arbitrary: x w rule: linked.induct)
  case (2 v h nxt)
  then have "(v, h, None) \<in> set version_handlers" by simp
  then have v: "v = CURRENT_VERSION" "h = version_4_0_0" by (auto simp: version_handlers_def CURRENT_VERSION_def)
  then have "w' = w" using 2 by (auto simp: version_4_0_0_def act_simps)
  with 2 v show ?case by simp
next
  case (3 v h nxt v' h' next' hs)
  obtain u where u: "h D w = (Inr (), u)" and rest: "act_each (\<lambda>(_, h, _). h D) ((v', h', next') # hs) u = (Inr (), w')"
    using 3(6) by (auto simp: act_simps)
  have "records (mdb D) v' (h D)" using 3(2,3) by (intro handlers_record[OF assms(1), of v]) auto
  then have at: "at_version (mdb D) (Some v') u" using 3(4) u by (auto simp: records_def)
  from 3(1)[OF _ _ at _ rest] 3(2,3) show ?case by auto
qed simp

section \<open>The initial configuration\<close>

text \<open>The value the initial configuration has for a field of a row: the first one that sets it.\<close>

definition init_field :: "(string \<times> (string \<times> fields) list) list \<Rightarrow> string \<Rightarrow> string \<Rightarrow> string option" where
  "init_field ts f h = map_of (concat (concat (map (\<lambda>(t, vals). map (\<lambda>(key, d). if row_id t [key] = h then d else []) vals) ts))) f"

lemma merge_entry_run:
  assumes "mig_db_ok (mdb D)" and "f \<noteq> ''NULL''" and "merge_init_cfg D t e w = (r, w')"
  shows "r = Inr () \<and> bm w' = bm w \<and> fld (mdb D) (dbs w') f t' k' =
    (case fld (mdb D) (dbs w) f t' k' of Some x \<Rightarrow> Some x | None \<Rightarrow> map_of (if row_id t [fst e] = row_id t' k' then snd e else []) f)"
proof -
  obtain key d where e: "e = (key, d)" by fastforce
  let ?curr = "cf_entry (mdb D) (dbs w) t [key]"
  have w': "r = Inr ()" "w' = w\<lparr>dbs := cf_set_entry (mdb D) t [key] (Some (dict_merge d ?curr)) (dbs w)\<rparr>"
    using assms(3) by (auto simp: e merge_init_cfg_def reads_bind write_entry_def on_db_def act_do_def)
  have m: "map_of (dict_merge d ?curr) f = (case map_of ?curr f of Some x \<Rightarrow> Some x | None \<Rightarrow> map_of d f)"
    by (simp add: map_of_dict_merge[OF distinct_entry[OF assms(1)]] map_add_def split: option.split)
  have "fld (mdb D) (dbs w) f t' k' = map_of ?curr f" if "row_id t [key] = row_id t' k'"
    using same_row[OF assms(1) that] by (simp add: fld_def)
  then show ?thesis using w' by (auto simp: e fld_set[OF assms(1,2)] m split: option.split)
qed

lemma merge_table_run:
  assumes "mig_db_ok (mdb D)" and "f \<noteq> ''NULL''" and "act_each (merge_init_cfg D t) vals w = (r, w')"
  shows "r = Inr () \<and> bm w' = bm w \<and> fld (mdb D) (dbs w') f t' k' =
    (case fld (mdb D) (dbs w) f t' k' of Some x \<Rightarrow> Some x
     | None \<Rightarrow> map_of (concat (map (\<lambda>(key, d). if row_id t [key] = row_id t' k' then d else []) vals)) f)"
  using assms(3)
proof (induction vals arbitrary: w)
  case (Cons e vals)
  obtain r1 u where m: "merge_init_cfg D t e w = (r1, u)" by fastforce
  note 1 = merge_entry_run[OF assms(1,2) m, of t' k']
  then have "act_each (merge_init_cfg D t) vals u = (r, w')" using Cons.prems m by (simp add: act_bind_def)
  note 2 = Cons.IH[OF this]
  obtain key d where e: "e = (key, d)" by (cases e)
  show ?case using 1 2 by (auto simp: e map_add_def split: option.splits)
qed (simp add: act_return_def split: option.split)

lemma merge_init_run:
  assumes "mig_db_ok (mdb D)" and "f \<noteq> ''NULL''" and "merge_init_db D ts w = (r, w')"
  shows "r = Inr () \<and> bm w' = bm w \<and> fld (mdb D) (dbs w') f t' k' =
    (case fld (mdb D) (dbs w) f t' k' of Some x \<Rightarrow> Some x | None \<Rightarrow> init_field ts f (row_id t' k'))"
  using assms(3)
proof (induction ts arbitrary: w)
  case Nil
  then show ?case by (simp add: merge_init_db_def act_return_def init_field_def split: option.split)
next
  case (Cons e ts)
  obtain t vals where e: "e = (t, vals)" by fastforce
  obtain r1 u where m: "act_each (merge_init_cfg D t) vals w = (r1, u)" by fastforce
  note 1 = merge_table_run[OF assms(1,2) m, of t' k']
  then have "merge_init_db D ts u = (r, w')" using Cons.prems m by (simp add: merge_init_db_def act_bind_def e)
  note 2 = Cons.IH[OF this]
  show ?case using 1 2 by (auto simp: e init_field_def map_add_def split: option.splits)
qed

text \<open>C27. Merging the initial configuration never fails and never overrides: a field that was set keeps its value, a
  field that was not has the value of the initial configuration, if there is one.\<close>

theorem init_cfg_merged:
  assumes "mig_db_ok (mdb D)" and "f \<noteq> ''NULL''"
  shows "\<exists>w'. merge_init_db D ts w = (Inr (), w') \<and> fld (mdb D) (dbs w') f t k =
    (case fld (mdb D) (dbs w) f t k of Some x \<Rightarrow> Some x | None \<Rightarrow> init_field ts f (row_id t k))"
proof -
  obtain r w' where m: "merge_init_db D ts w = (r, w')" by fastforce
  from merge_init_run[OF assms m] m show ?thesis by auto
qed

lemma at_common:
  assumes "mig_db_ok (mdb D)"
  shows "preserves (at_version (mdb D) (Some v)) (common_migration_ops D)"
proof -
  have "preserves (at_version (mdb D) (Some v)) (merge_init_db D ts)" for ts
    unfolding preserves_def
  proof (intro allI impI)
    fix w assume "at_version (mdb D) (Some v) w"
    then show "at_version (mdb D) (Some v) (snd (merge_init_db D ts w))"
      using merge_init_run[OF assms, of "''VERSION''" ts w _ _ "''VERSIONS''" "[''DATABASE'']", OF _ prod.collapse[symmetric]]
      by (simp add: at_version_def)
  qed
  then show ?thesis
    unfolding common_migration_ops_def by (intro preserving at_copp_table at_mgmt_ports assms)
qed

section \<open>A migration reaches the current version\<close>

lemma version_iff:
  "get_version D d = Inr v \<Longrightarrow> v = CURRENT_VERSION \<Longrightarrow> version_field (mdb D) d = Some CURRENT_VERSION"
  by (auto simp: get_version_def fld_def CURRENT_VERSION_def split: list.splits option.splits if_splits)

lemma get_version_of:
  assumes "version_field (mdb D) d = Some v" and "v \<noteq> []"
  shows "get_version D d = Inr v"
  using assms by (cases "cf_entry (mdb D) d ''VERSIONS'' [''DATABASE'']") (auto simp: get_version_def fld_def)

text \<open>C6. A migration that ends without an exception leaves the current version recorded, whatever the version it
  started at and whatever the vendor: no step of the vendor reports a failure.\<close>

theorem migrate_reaches_current:
  fixes D :: "'d db_migrator"
  assumes "mig_db_ok (mdb D)" and "migrate D (new_world D d) = (Inr (), w')"
  shows "get_version D (dbs w') = Inr CURRENT_VERSION"
proof -
  obtain v u where v: "get_version D d = Inr v"
    and loop: "migrate_loop (length (version_handlers :: 'd handler list)) D (Some v) (new_world D d) = (Inr (), u)"
    and common: "common_migration_ops D u = (Inr (), w')"
    using assms(2) by (auto simp: migrate_def act_simps seq_def new_world_def)
  have ne: "v \<noteq> []" using v by (auto simp: get_version_def split: list.splits option.splits if_splits)
  have known: "map_of (version_handlers :: 'd handler list) v \<noteq> None"
    using loop migrate_loop_ends[OF ne order_refl, of D] by (auto simp: act_of_def split: if_splits)
  then have run: "act_each (\<lambda>(_, h, _). h D) (chain_from v) (new_world D d) = (Inr (), u)"
    using loop migrate_loop_ends[OF ne order_refl, of D] by auto
  have at: "at_version (mdb D) (version_field (mdb D) d) (new_world D d)"
    by (simp add: at_version_def new_world_def mlnx_init_def Let_def)
  have "fst (hd (chain_from v :: 'd handler list)) = CURRENT_VERSION \<longrightarrow> version_field (mdb D) d = Some CURRENT_VERSION"
    using chain_ok(3)[OF known] version_iff[OF v] by simp
  from chain_records[OF assms(1) chain_ok(1,2)[OF known] at this run]
  have "at_version (mdb D) (Some CURRENT_VERSION) w'"
    by (rule preservesD[OF at_common[OF assms(1)] common])
  then show ?thesis by (intro get_version_of) (simp_all add: at_version_def CURRENT_VERSION_def)
qed

section \<open>Default buffer pools become the next default\<close>





section \<open>References without brackets\<close>

text \<open>A reference as the old format writes it.\<close>

definition abnf_reference :: "char \<Rightarrow> string \<times> string \<Rightarrow> string" where
  "abnf_reference delim r = CHR ''['' # fst r @ delim # snd r @ '']''"

lemma abnf_item_reference:
  assumes "delim \<notin> set (fst r)" and "delim \<notin> set (snd r)"
  shows "abnf_item delim (abnf_reference delim r) = Inr (snd r @ '','')"
  using assms by (simp add: abnf_item_def abnf_reference_def butlast_append nth_part_def split_on_Cons_sep split_on_no_sep)

lemma concat_commas: "ns \<noteq> [] \<Longrightarrow> butlast (concat (map (\<lambda>n. n @ '','') ns)) = join_with '','' ns"
proof (induction ns)
  case (Cons n ns)
  then show ?case by (cases ns) (auto simp: butlast_append)
qed simp

text \<open>A list of references in the old format becomes the list of the names it refers to.\<close>

theorem abnf_value_names:
  assumes "rs \<noteq> []" and "delim \<noteq> CHR '',''"
    and "\<forall>r \<in> set rs. delim \<notin> set (fst r @ snd r) \<and> CHR '','' \<notin> set (fst r @ snd r)"
  shows "abnf_value delim (join_with '','' (map (abnf_reference delim) rs)) = Inr (join_with '','' (map snd rs))"
proof -
  have "split_on CHR '','' (join_with '','' (map (abnf_reference delim) rs)) = map (abnf_reference delim) rs"
    using assms by (intro split_on_join) (auto simp: abnf_reference_def)
  moreover have "rmapM (abnf_item delim) (map (abnf_reference delim) rs) = Inr (map (\<lambda>n. n @ '','') (map snd rs))"
    using assms(3) by (induction rs) (simp_all add: abnf_item_reference)
  ultimately show ?thesis using assms(1) by (simp add: abnf_value_def concat_commas del: map_map)
qed

theorem abnf_value_names_witness:
  "abnf_value CHR ''|'' ''[BUFFER_PROFILE|ingress_lossless_profile],[BUFFER_PROFILE|ingress_lossy_profile]'' =
     Inr ''ingress_lossless_profile,ingress_lossy_profile''"
  using abnf_value_names[of "[(''BUFFER_PROFILE'', ''ingress_lossless_profile''), (''BUFFER_PROFILE'', ''ingress_lossy_profile'')]" "CHR ''|''"]
  by (simp add: abnf_reference_def)

section \<open>A switch in memory\<close>

definition old_dbs :: mem_dbs where
  "old_dbs = \<lparr>m_conf = [(''VERSIONS|DATABASE'', [(''VERSION'', ''version_3_0_0'')]),
     (''DEVICE_METADATA|localhost'', [(''platform'', ''x86_64-mlnx_msn2700-r0''), (''hwsku'', ''ACS-MSN2700'')]),
     (''PORT|Ethernet0'', [(''autoneg'', ''1''), (''speed'', ''100000'')])],
     m_app = [], m_state = [], m_log = []\<rparr>"

definition old_switch :: "mem_dbs db_migrator" where
  "old_switch = \<lparr>mdb = dict_dbs, asic_type = ''mellanox'', hwsku = ''ACS-MSN2700''\<rparr>"

theorem migrate_reaches_current_witness:
  "get_version old_switch old_dbs = Inr ''version_3_0_0'' \<and>
   get_version old_switch (dbs (snd (migrate old_switch (new_world old_switch old_dbs)))) = Inr CURRENT_VERSION"
proof
  show "get_version old_switch old_dbs = Inr ''version_3_0_0''" by code_simp
  have "fst (migrate old_switch (new_world old_switch old_dbs)) = Inr ()" by code_simp
  then have "migrate old_switch (new_world old_switch old_dbs) = (Inr (), snd (migrate old_switch (new_world old_switch old_dbs)))"
    by (metis prod.collapse)
  then show "get_version old_switch (dbs (snd (migrate old_switch (new_world old_switch old_dbs)))) = Inr CURRENT_VERSION"
    by (intro migrate_reaches_current) (simp_all add: old_switch_def dict_dbs_ok)
qed

theorem migrate_loop_ends_witness:
  "migrate_loop 18 old_switch (Some ''version_9_9_9'') = act_of (Inl AttributeError)"
  using migrate_loop_ends[of "''version_9_9_9''" 18 old_switch] by (simp add: version_handlers_def)

theorem init_cfg_merged_witness:
  "\<exists>w'. merge_init_db old_switch [(''DEVICE_METADATA'', [(''localhost'', [(''hwsku'', ''other''), (''buffer_model'', ''traditional'')])])]
      (new_world old_switch old_dbs) = (Inr (), w') \<and>
    fld dict_dbs (dbs w') ''hwsku'' ''DEVICE_METADATA'' [''localhost''] = Some ''ACS-MSN2700''"
proof -
  have "fld dict_dbs (dbs (new_world old_switch old_dbs)) ''hwsku'' ''DEVICE_METADATA'' [''localhost''] = Some ''ACS-MSN2700''" by code_simp
  then show ?thesis
    using init_cfg_merged[of old_switch "''hwsku''" "[(''DEVICE_METADATA'', [(''localhost'', [(''hwsku'', ''other''), (''buffer_model'', ''traditional'')])])]"
        "new_world old_switch old_dbs" "''DEVICE_METADATA''" "[''localhost'']"]
    by (auto simp: old_switch_def dict_dbs_ok)
qed



end
