(* ===== verification/ConfigCmd.thy ===== *)
theory ConfigCmd
  imports PyIpAddress MigDb
begin

text \<open>
  What the commands of \<open>config\<close> work on: the configuration database, through the connector \<open>ConfigDBConnector\<close>
  (third-party code, the parameter \<open>conf_db\<close>), and the lines a command prints. A command that calls \<open>ctx.fail\<close>
  ends with \<open>Usage\<close> and its message.
\<close>

section \<open>Commands\<close>

datatype cmd_exn = Usage string | ClickException string | Raised err

text \<open>
  A table is read with its keys split into parts, a key of one part being a string and the others tuples; a row is
  addressed by the text of its key.
\<close>

record 'd conf_db =
  cd_table :: "'d \<Rightarrow> string \<Rightarrow> row list"
  cd_entry :: "'d \<Rightarrow> string \<Rightarrow> string \<Rightarrow> fields"
  cd_keys :: "'d \<Rightarrow> string \<Rightarrow> string list list"
  cd_set :: "string \<Rightarrow> string \<Rightarrow> fields option \<Rightarrow> 'd \<Rightarrow> 'd"
  cd_mod :: "string \<Rightarrow> string \<Rightarrow> fields \<Rightarrow> 'd \<Rightarrow> 'd"
  cd_counters :: "'d \<Rightarrow> string \<Rightarrow> fields option"

record 'd session =
  conf :: 'd
  echoed :: "string list"

type_synonym ('d, 'a) cmd = "('d session, cmd_exn, 'a) act"

definition get_tab :: "'d conf_db \<Rightarrow> string \<Rightarrow> ('d, row list) cmd" where
  "get_tab DB t w = (Inr (cd_table DB (conf w) t), w)"

definition get_ent :: "'d conf_db \<Rightarrow> string \<Rightarrow> string \<Rightarrow> ('d, fields) cmd" where
  "get_ent DB t k w = (Inr (cd_entry DB (conf w) t k), w)"

definition get_row_keys :: "'d conf_db \<Rightarrow> string \<Rightarrow> ('d, string list list) cmd" where
  "get_row_keys DB t w = (Inr (cd_keys DB (conf w) t), w)"

definition get_counters :: "'d conf_db \<Rightarrow> string \<Rightarrow> ('d, fields option) cmd" where
  "get_counters DB h w = (Inr (cd_counters DB (conf w) h), w)"

definition set_ent :: "'d conf_db \<Rightarrow> string \<Rightarrow> string \<Rightarrow> fields option \<Rightarrow> ('d, unit) cmd" where
  "set_ent DB t k d = act_do (\<lambda>w. w\<lparr>conf := cd_set DB t k d (conf w)\<rparr>)"

definition mod_ent :: "'d conf_db \<Rightarrow> string \<Rightarrow> string \<Rightarrow> fields \<Rightarrow> ('d, unit) cmd" where
  "mod_ent DB t k d = act_do (\<lambda>w. w\<lparr>conf := cd_mod DB t k d (conf w)\<rparr>)"

definition echo :: "string \<Rightarrow> ('d, unit) cmd" where
  "echo s = act_do (\<lambda>w. w\<lparr>echoed := echoed w @ [s]\<rparr>)"

definition fail :: "string \<Rightarrow> ('d, 'a) cmd" where
  "fail s = act_of (Inl (Usage s))"

text \<open>A computation of the library or of the program that may raise.\<close>

definition py :: "err + 'a \<Rightarrow> ('d, 'a) cmd" where
  "py r = act_of (case r of Inl e \<Rightarrow> Inl (Raised e) | Inr a \<Rightarrow> Inr a)"

text \<open>A function of the program that reads the database and may raise.\<close>

definition conf_py :: "('d \<Rightarrow> err + 'a) \<Rightarrow> ('d, 'a) cmd" where
  "conf_py f w = py (f (conf w)) w"

definition py_field :: "fields \<Rightarrow> string \<Rightarrow> err + string" where
  "py_field d f = (case map_of d f of None \<Rightarrow> Inl KeyError | Some v \<Rightarrow> Inr v)"

text \<open>A key as the text of its row.\<close>

definition serialize_key :: "string list \<Rightarrow> string" where
  "serialize_key k = join_with ''|'' k"

text \<open>A number that was written is read back.\<close>

lemma strip_none: "list_all (\<lambda>c. \<not> py_space c) s \<Longrightarrow> py_strip s = s"
proof -
  assume s: "list_all (\<lambda>c. \<not> py_space c) s"
  have d: "list_all (\<lambda>c. \<not> py_space c) t \<Longrightarrow> dropWhile py_space t = t" for t by (cases t) auto
  have "list_all (\<lambda>c. \<not> py_space c) (rev s)" using s by (simp add: list_all_iff)
  with s show ?thesis by (simp add: py_strip_def d)
qed

lemma py_int_str [simp]: "py_int (int_str i) = Inr i"
proof -
  have digit: "is_digit c \<Longrightarrow> \<not> py_space c \<and> c \<noteq> CHR ''-'' \<and> c \<noteq> CHR ''+''" for c
    by (auto simp: is_digit_def py_space_def Let_def)
  have read: "\<exists>c r. nat_str n = c # r \<and> is_digit c \<and> py_strip (nat_str n) = c # r \<and> py_strip (CHR ''-'' # nat_str n) = CHR ''-'' # c # r" for n
  proof -
    have all: "list_all is_digit (nat_str n)" by (rule nat_str_digits)
    then have "list_all (\<lambda>c. \<not> py_space c) (nat_str n)" using digit by (auto simp: list_all_iff)
    moreover have "\<not> py_space CHR ''-''" by code_simp
    moreover have "nat_str n \<noteq> []" by (subst nat_str.simps) simp
    ultimately show ?thesis using all by (cases "nat_str n") (simp_all add: strip_none)
  qed
  show ?thesis
  proof (cases "i < 0")
    case True
    with read[of "nat (- i)"] digits_nat_str[of "nat (- i)"] show ?thesis by (auto simp: py_int_def int_str_def Let_def)
  next
    case False
    from read[of "nat i"] obtain c r where c: "nat_str (nat i) = c # r" "is_digit c" "py_strip (nat_str (nat i)) = c # r" by blast
    with digit[OF c(2)] digits_nat_str[of "nat i"] False show ?thesis by (auto simp: py_int_def int_str_def Let_def)
  qed
qed

section \<open>What the connector documents\<close>

text \<open>
  \<open>rows w t\<close> is what table \<open>t\<close> holds: the fields of each row by the text of its key. The names of tables are
  upper case words. \<open>conf_db_ok\<close>: a table and a row are read as \<open>rows\<close> has them, a row that is set has the fields
  given and no others, a row that is modified has them in addition; \<open>get_keys(t)\<close> lists the rows whose name matches
  \<open>t|*\<close>, where \<open>t\<close> itself may end in \<open>|*\<close>.
\<close>

type_synonym rows = "string \<Rightarrow> (string \<Rightarrow> string option) option"

definition upper_name :: "string \<Rightarrow> bool" where
  "upper_name t \<longleftrightarrow> to_upper t = t \<and> CHR ''|'' \<notin> set t \<and> CHR ''*'' \<notin> set t"

definition table_shows :: "row list \<Rightarrow> rows \<Rightarrow> bool" where
  "table_shows rs m \<longleftrightarrow>
     distinct (map (serialize_key \<circ> fst) rs) \<and>
     (\<forall>(k, d) \<in> set rs. k = split_on CHR ''|'' (serialize_key k) \<and> m (serialize_key k) = Some (map_of d)) \<and>
     (\<forall>k fs. m k = Some fs \<longrightarrow> (\<exists>d. (split_on CHR ''|'' k, d) \<in> set rs))"

definition conf_db_ok :: "'d conf_db \<Rightarrow> ('d \<Rightarrow> string \<Rightarrow> rows) \<Rightarrow> bool" where
  "conf_db_ok DB rows \<longleftrightarrow>
     (\<forall>w t. upper_name t \<longrightarrow> table_shows (cd_table DB w t) (rows w t)) \<and>
     (\<forall>w t k. upper_name t \<longrightarrow> map_of (cd_entry DB w t k) = (case rows w t k of None \<Rightarrow> Map.empty | Some fs \<Rightarrow> fs)) \<and>
     (\<forall>w t k d t'. upper_name t \<longrightarrow> upper_name t' \<longrightarrow>
        rows (cd_set DB t k d w) t' = (if t' = t then (rows w t)(k := map_option map_of d) else rows w t')) \<and>
     (\<forall>w t k d t'. upper_name t \<longrightarrow> upper_name t' \<longrightarrow> distinct (map fst d) \<longrightarrow>
        rows (cd_mod DB t k d w) t' =
          (if t' = t then (rows w t)(k := Some ((case rows w t k of None \<Rightarrow> Map.empty | Some fs \<Rightarrow> fs) ++ map_of d))
           else rows w t')) \<and>
     (\<forall>w t k. upper_name t \<longrightarrow> k \<in> serialize_key ` set (cd_keys DB w t) \<longleftrightarrow> rows w t k \<noteq> None) \<and>
     (\<forall>w t k. upper_name t \<longrightarrow>
        k \<in> serialize_key ` set (cd_keys DB w (t @ ''|*'')) \<longleftrightarrow> rows w t k \<noteq> None \<and> CHR ''|'' \<in> set k)"

lemmas conf_table = conf_db_ok_def[THEN iffD1, THEN conjunct1, rule_format]
lemmas conf_entry = conf_db_ok_def[THEN iffD1, THEN conjunct2, THEN conjunct1, rule_format]
lemmas conf_set = conf_db_ok_def[THEN iffD1, THEN conjunct2, THEN conjunct2, THEN conjunct1, rule_format]
lemmas conf_mod = conf_db_ok_def[THEN iffD1, THEN conjunct2, THEN conjunct2, THEN conjunct2, THEN conjunct1, rule_format]
lemmas conf_keys = conf_db_ok_def[THEN iffD1, THEN conjunct2, THEN conjunct2, THEN conjunct2, THEN conjunct2, THEN conjunct1, rule_format]
lemmas conf_keys_star = conf_db_ok_def[THEN iffD1, THEN conjunct2, THEN conjunct2, THEN conjunct2, THEN conjunct2, THEN conjunct2, rule_format]

lemma table_showsD:
  assumes "table_shows rs m"
  shows "(k, d) \<in> set rs \<Longrightarrow> m (serialize_key k) = Some (map_of d)"
    and "(k, d) \<in> set rs \<Longrightarrow> k = split_on CHR ''|'' (serialize_key k)"
    and "m t = Some fs \<Longrightarrow> \<exists>d. (split_on CHR ''|'' t, d) \<in> set rs \<and> fs = map_of d"
    and "distinct (map (serialize_key \<circ> fst) rs)"
proof -
  show "distinct (map (serialize_key \<circ> fst) rs)"
    and row: "(k, d) \<in> set rs \<Longrightarrow> m (serialize_key k) = Some (map_of d)"
    and "(k, d) \<in> set rs \<Longrightarrow> k = split_on CHR ''|'' (serialize_key k)" for k d
    using assms by (auto simp: table_shows_def)
  assume t: "m t = Some fs"
  then obtain d where d: "(split_on CHR ''|'' t, d) \<in> set rs" using assms by (auto simp: table_shows_def)
  from row[OF this] t have "fs = map_of d" by (simp add: serialize_key_def join_split_on)
  with d show "\<exists>d. (split_on CHR ''|'' t, d) \<in> set rs \<and> fs = map_of d" by blast
qed

lemma length_table: "table_shows rs m \<Longrightarrow> finite (dom m) \<and> length rs = card (dom m)"
proof -
  assume sh: "table_shows rs m"
  have "dom m = set (map (serialize_key \<circ> fst) rs)"
  proof (intro set_eqI iffI)
    fix k assume "k \<in> dom m"
    then obtain d where "(split_on CHR ''|'' k, d) \<in> set rs" using table_showsD(3)[OF sh] by blast
    then have "(serialize_key \<circ> fst) (split_on CHR ''|'' k, d) \<in> set (map (serialize_key \<circ> fst) rs)"
      unfolding set_map by (rule imageI)
    then show "k \<in> set (map (serialize_key \<circ> fst) rs)" by (simp add: serialize_key_def join_split_on)
  qed (use table_showsD(1)[OF sh] in auto)
  moreover have "length rs = card (set (map (serialize_key \<circ> fst) rs))"
    using distinct_card[OF table_showsD(4)[OF sh]] by simp
  ultimately show ?thesis by simp
qed

section \<open>Running a command\<close>

named_theorems cmd_run \<open>running the reads and writes of a command\<close>

lemma get_tab_bind [cmd_run]: "act_bind (get_tab DB t) f w = f (cd_table DB (conf w) t) w"
  by (simp add: act_bind_def get_tab_def)

lemma get_ent_bind [cmd_run]: "act_bind (get_ent DB t k) f w = f (cd_entry DB (conf w) t k) w"
  by (simp add: act_bind_def get_ent_def)

lemma get_row_keys_bind [cmd_run]: "act_bind (get_row_keys DB t) f w = f (cd_keys DB (conf w) t) w"
  by (simp add: act_bind_def get_row_keys_def)

lemma get_counters_bind [cmd_run]: "act_bind (get_counters DB h) f w = f (cd_counters DB (conf w) h) w"
  by (simp add: act_bind_def get_counters_def)

lemma set_ent_run [cmd_run]: "set_ent DB t k d w = (Inr (), w\<lparr>conf := cd_set DB t k d (conf w)\<rparr>)"
  by (simp add: set_ent_def act_do_def)

lemma mod_ent_run [cmd_run]: "mod_ent DB t k d w = (Inr (), w\<lparr>conf := cd_mod DB t k d (conf w)\<rparr>)"
  by (simp add: mod_ent_def act_do_def)

lemma echo_run [cmd_run]: "echo s w = (Inr (), w\<lparr>echoed := echoed w @ [s]\<rparr>)"
  by (simp add: echo_def act_do_def)

lemma fail_run [cmd_run]: "fail s w = (Inl (Usage s), w)" "act_bind (fail s) f w = (Inl (Usage s), w)" "seq (fail s) n w = (Inl (Usage s), w)"
  by (simp_all add: fail_def act_of_def act_bind_def seq_def)

lemma guard_run [cmd_run]: "seq (act_when b (fail s)) n w = (if b then (Inl (Usage s), w) else n w)"
  by (simp add: seq_def act_bind_def act_when_def fail_def act_of_def act_return_def)

lemma when_fail_run [cmd_run]: "act_when b (fail s) w = (if b then (Inl (Usage s), w) else (Inr (), w))"
  by (simp add: act_when_def fail_def act_of_def act_return_def)

lemma py_bind [cmd_run]: "act_bind (py r) f w = (case r of Inl e \<Rightarrow> (Inl (Raised e), w) | Inr a \<Rightarrow> f a w)"
  by (auto simp: py_def act_bind_def act_of_def split: sum.splits)

lemma conf_py_bind [cmd_run]:
  "act_bind (conf_py f) g w = (case f (conf w) of Inl e \<Rightarrow> (Inl (Raised e), w) | Inr a \<Rightarrow> g a w)"
  by (auto simp: conf_py_def py_def act_bind_def act_of_def split: sum.splits)

text \<open>Only \<open>set_ent\<close> and \<open>mod_ent\<close> change the database.\<close>

lemma preserves_gets [preserving]:
  "preserves I (get_tab DB t)" "preserves I (get_ent DB t k)" "preserves I (get_row_keys DB t)" "preserves I (get_counters DB h)"
  "preserves I (fail s)" "preserves I (py r)" "preserves I (conf_py f)"
  by (simp_all add: preserves_def conf_py_def get_tab_def get_ent_def get_row_keys_def get_counters_def fail_def py_def act_of_def)

lemma preserves_echo [preserving]: "preserves (\<lambda>w. P (conf w)) (echo s)"
  by (simp add: preserves_def echo_run)

lemma preserves_py: "(\<And>a. r = Inr a \<Longrightarrow> preserves I (f a)) \<Longrightarrow> preserves I (act_bind (py r) f)"
  by (auto simp: preserves_def cmd_run split: sum.split)

lemma keeps_gets [keeping]:
  "keeps v (get_tab DB t)" "keeps v (get_ent DB t k)" "keeps v (get_row_keys DB t)" "keeps v (get_counters DB h)"
  "keeps v (fail s)" "keeps v (py r)" "keeps v (conf_py f)"
  by (simp_all add: keeps_iff preserves_gets)

lemma keeps_echo [keeping]: "keeps conf (echo s)"
  by (simp add: keeps_def echo_run)

section \<open>What a command leaves in the database\<close>

text \<open>\<open>leaves_db m w Q\<close>: \<open>Q\<close> holds of the database after \<open>m\<close> has run in \<open>w\<close>, whether it has ended or failed.\<close>

definition leaves_db :: "('d, 'a) cmd \<Rightarrow> 'd session \<Rightarrow> ('d \<Rightarrow> bool) \<Rightarrow> bool" where
  "leaves_db m w Q \<longleftrightarrow> Q (conf (snd (m w)))"

named_theorems leaving \<open>what a command leaves in the database\<close>

lemma leaves_gets [leaving]:
  "leaves_db (act_bind (get_tab DB t) f) w Q \<longleftrightarrow> leaves_db (f (cd_table DB (conf w) t)) w Q"
  "leaves_db (act_bind (get_ent DB t k) g) w Q \<longleftrightarrow> leaves_db (g (cd_entry DB (conf w) t k)) w Q"
  "leaves_db (act_bind (get_row_keys DB t) h) w Q \<longleftrightarrow> leaves_db (h (cd_keys DB (conf w) t)) w Q"
  "leaves_db (act_bind (get_counters DB c) i) w Q \<longleftrightarrow> leaves_db (i (cd_counters DB (conf w) c)) w Q"
  by (simp_all add: leaves_db_def cmd_run)

lemma leaves_writes [leaving]:
  "leaves_db (set_ent DB t k d) w Q \<longleftrightarrow> Q (cd_set DB t k d (conf w))"
  "leaves_db (mod_ent DB t k m) w Q \<longleftrightarrow> Q (cd_mod DB t k m (conf w))"
  "leaves_db (echo s) w Q \<longleftrightarrow> Q (conf w)"
  "leaves_db (fail s) w Q \<longleftrightarrow> Q (conf w)"
  "leaves_db (act_return a) w Q \<longleftrightarrow> Q (conf w)"
  by (simp_all add: leaves_db_def cmd_run act_return_def)

lemma leaves_py [leaving]: "leaves_db (act_bind (py r) f) w Q \<longleftrightarrow> (case r of Inl e \<Rightarrow> Q (conf w) | Inr a \<Rightarrow> leaves_db (f a) w Q)"
  by (auto simp: leaves_db_def cmd_run split: sum.split)

lemma leaves_conf_py [leaving]:
  "leaves_db (act_bind (conf_py g) f) w Q \<longleftrightarrow> (case g (conf w) of Inl e \<Rightarrow> Q (conf w) | Inr a \<Rightarrow> leaves_db (f a) w Q)"
  by (auto simp: leaves_db_def cmd_run split: sum.split)

lemma leaves_guard [leaving]:
  "leaves_db (seq (act_when b (fail s)) n) w Q \<longleftrightarrow> (if b then Q (conf w) else leaves_db n w Q)"
  by (simp add: leaves_db_def cmd_run)

lemma leaves_say [leaving]:
  "leaves_db (seq (act_when b (echo s)) n) w Q \<longleftrightarrow> (if b then leaves_db n (w\<lparr>echoed := echoed w @ [s]\<rparr>) Q else leaves_db n w Q)"
  by (simp add: leaves_db_def seq_def act_bind_def act_when_def echo_def act_do_def act_return_def)

lemma leaves_when [leaving]: "leaves_db (act_when b m) w Q \<longleftrightarrow> (if b then leaves_db m w Q else Q (conf w))"
  by (simp add: leaves_db_def act_when_def act_return_def)

lemma leaves_bind:
  "keeps conf m \<Longrightarrow> Q (conf w) \<Longrightarrow> (\<And>a u. m w = (Inr a, u) \<Longrightarrow> conf u = conf w \<Longrightarrow> leaves_db (f a) u Q) \<Longrightarrow> leaves_db (act_bind m f) w Q"
  by (auto simp: leaves_db_def act_bind_def keeps_def split: prod.split sum.split) (metis snd_conv)+

lemma leaves_seq:
  "keeps conf m \<Longrightarrow> Q (conf w) \<Longrightarrow> (\<And>u. m w = (Inr (), u) \<Longrightarrow> conf u = conf w \<Longrightarrow> leaves_db n u Q) \<Longrightarrow> leaves_db (seq m n) w Q"
  unfolding seq_def by (rule leaves_bind) auto

text \<open>The same as rules, one per kind of step: what is left to show is the postcondition where the command ends.\<close>

named_theorems vcg \<open>rules that reduce what a command leaves to conditions on the database\<close>

lemma leaves_get_rules [vcg]:
  "leaves_db (f (cd_table DB (conf w) t)) w Q \<Longrightarrow> leaves_db (act_bind (get_tab DB t) f) w Q"
  "leaves_db (g (cd_entry DB (conf w) t k)) w Q \<Longrightarrow> leaves_db (act_bind (get_ent DB t k) g) w Q"
  "leaves_db (h (cd_keys DB (conf w) t)) w Q \<Longrightarrow> leaves_db (act_bind (get_row_keys DB t) h) w Q"
  by (simp_all add: leaving)

lemma leaves_end_rules [vcg]:
  "Q (cd_set DB t k d (conf w)) \<Longrightarrow> leaves_db (set_ent DB t k d) w Q"
  "Q (cd_mod DB t k m (conf w)) \<Longrightarrow> leaves_db (mod_ent DB t k m) w Q"
  "Q (conf w) \<Longrightarrow> leaves_db (echo s) w Q"
  "Q (conf w) \<Longrightarrow> leaves_db (fail s) w Q"
  "Q (conf w) \<Longrightarrow> leaves_db (act_return a) w Q"
  by (simp_all add: leaving)

lemma leaves_py_rules [vcg]:
  "Q (conf w) \<Longrightarrow> (\<And>a. r = Inr a \<Longrightarrow> leaves_db (f a) w Q) \<Longrightarrow> leaves_db (act_bind (py r) f) w Q"
  "Q (conf w) \<Longrightarrow> (\<And>a. g (conf w) = Inr a \<Longrightarrow> leaves_db (f a) w Q) \<Longrightarrow> leaves_db (act_bind (conf_py g) f) w Q"
  by (simp_all add: leaving split: sum.split)

lemma leaves_guard_rule [vcg]:
  "Q (conf w) \<Longrightarrow> (\<not> b \<Longrightarrow> leaves_db n w Q) \<Longrightarrow> leaves_db (seq (act_when b (fail s)) n) w Q"
  by (simp add: leaving)

lemma leaves_say_rule [vcg]:
  "(\<And>u. conf u = conf w \<Longrightarrow> leaves_db n u Q) \<Longrightarrow> leaves_db (seq (act_when b (echo s)) n) w Q"
  by (simp add: leaving)

lemma leaves_when_rule [vcg]: "Q (conf w) \<Longrightarrow> (b \<Longrightarrow> leaves_db m w Q) \<Longrightarrow> leaves_db (act_when b m) w Q"
  by (simp add: leaving)

lemma leaves_if_rule [vcg]: "(b \<Longrightarrow> leaves_db m w Q) \<Longrightarrow> (\<not> b \<Longrightarrow> leaves_db n w Q) \<Longrightarrow> leaves_db (if b then m else n) w Q"
  by simp

lemma preserves_leaves: "(\<And>w. I (conf w) \<Longrightarrow> leaves_db m w I) \<Longrightarrow> preserves (\<lambda>w. I (conf w)) m"
  by (simp add: preserves_def leaves_db_def)

text \<open>A command that has failed has written nothing.\<close>

definition refuses_clean :: "('d, 'a) cmd \<Rightarrow> bool" where
  "refuses_clean m \<longleftrightarrow> (\<forall>w e w'. m w = (Inl e, w') \<longrightarrow> conf w' = conf w)"

named_theorems clean \<open>commands that write nothing when they fail\<close>

lemma clean_reads: "keeps conf m \<Longrightarrow> refuses_clean m"
  by (auto simp: refuses_clean_def dest: keepsD)

lemma clean_basic [clean]:
  "refuses_clean (act_return a)" "refuses_clean (fail s)" "refuses_clean (echo s)" "refuses_clean (py r)"
  "refuses_clean (set_ent DB t k d)" "refuses_clean (mod_ent DB t k m)"
  by (auto simp: refuses_clean_def act_return_def cmd_run py_def act_of_def)

lemma clean_bind: "keeps conf m \<Longrightarrow> (\<And>a. refuses_clean (f a)) \<Longrightarrow> refuses_clean (act_bind m f)"
  by (auto simp: refuses_clean_def act_bind_Inl dest: keepsD)

lemma clean_seq [clean]: "keeps conf m \<Longrightarrow> refuses_clean n \<Longrightarrow> refuses_clean (seq m n)"
  by (simp add: seq_def clean_bind)

lemma clean_when [clean]: "refuses_clean m \<Longrightarrow> refuses_clean (act_when b m)"
  by (simp add: act_when_def clean_basic)

lemma clean_if [clean]: "refuses_clean m \<Longrightarrow> refuses_clean n \<Longrightarrow> refuses_clean (if b then m else n)"
  by simp

text \<open>A loop that never fails.\<close>

definition never_fails :: "('d, 'a) cmd \<Rightarrow> bool" where
  "never_fails m \<longleftrightarrow> (\<forall>w e w'. m w \<noteq> (Inl e, w'))"

lemma clean_never: "never_fails m \<Longrightarrow> refuses_clean m"
  by (simp add: never_fails_def refuses_clean_def)

lemma never_basic:
  "never_fails (act_return a)" "never_fails (echo s)" "never_fails (set_ent DB t k d)" "never_fails (mod_ent DB t k m)" "never_fails (get_tab DB t)"
  by (simp_all add: never_fails_def act_return_def cmd_run get_tab_def)

lemma never_bind: "never_fails m \<Longrightarrow> (\<And>a. never_fails (f a)) \<Longrightarrow> never_fails (act_bind m f)"
  by (auto simp: never_fails_def act_bind_Inl)

lemma never_each: "(\<And>x. never_fails (f x)) \<Longrightarrow> never_fails (act_each f xs)"
  by (induction xs) (simp_all add: never_basic never_bind)

lemma never_when: "never_fails m \<Longrightarrow> never_fails (act_when b m)"
  by (simp add: act_when_def never_basic)

lemma each_step: "never_fails (f x) \<Longrightarrow> snd (act_each f (x # xs) w) = snd (act_each f xs (snd (f x w)))"
  by (cases "f x w") (auto simp: never_fails_def act_bind_def split: sum.split)

lemmas never = never_basic never_bind never_each never_when

section \<open>A database in memory\<close>

text \<open>Rows by table and key; this instance shows that the laws can hold.\<close>

type_synonym dict_conf = "((string \<times> string) \<times> fields) list"

definition dict_rows :: "dict_conf \<Rightarrow> string \<Rightarrow> rows" where
  "dict_rows w t k = map_option map_of (map_of w (t, k))"

definition dict_table :: "dict_conf \<Rightarrow> string \<Rightarrow> row list" where
  "dict_table w t = map (\<lambda>((_, k), d). (split_on CHR ''|'' k, d)) (filter (\<lambda>p. fst (fst p) = t) (AList.clearjunk w))"

definition dict_entry :: "dict_conf \<Rightarrow> string \<Rightarrow> string \<Rightarrow> fields" where
  "dict_entry w t k = (case map_of w (t, k) of None \<Rightarrow> [] | Some d \<Rightarrow> d)"

definition dict_keys :: "dict_conf \<Rightarrow> string \<Rightarrow> string list list" where
  "dict_keys w t = (if suffix ''|*'' t then filter (\<lambda>k. length k > 1) (map fst (dict_table w (take (length t - 2) t)))
                    else map fst (dict_table w t))"

definition dict_conf :: "dict_conf conf_db" where
  "dict_conf =
    \<lparr>cd_table = dict_table, cd_entry = dict_entry, cd_keys = dict_keys,
     cd_set = (\<lambda>t k d w. case d of None \<Rightarrow> AList.delete (t, k) w | Some x \<Rightarrow> AList.update (t, k) x w),
     cd_mod = (\<lambda>t k d w. AList.update (t, k) (dict_merge (dict_entry w t k) d) w),
     cd_counters = (\<lambda>w h. map_of w (''COUNTERS_DB'', h))\<rparr>"

lemma dict_table_iff: "(p, d) \<in> set (dict_table w t) \<longleftrightarrow> (\<exists>k. p = split_on CHR ''|'' k \<and> map_of w (t, k) = Some d)"
proof -
  have "(h, d) \<in> set (AList.clearjunk w) \<longleftrightarrow> map_of w h = Some d" for h
    by (metis distinct_clearjunk map_of_clearjunk map_of_eq_Some_iff)
  then show ?thesis by (force simp: dict_table_def)
qed

lemma dict_table_shows: "table_shows (dict_table w t) (dict_rows w t)"
  unfolding table_shows_def
proof (intro conjI)
  have "inj_on (\<lambda>h. snd h) (set (filter (\<lambda>h. fst h = t) (map fst (AList.clearjunk w))))" by (auto intro: inj_onI)
  then have "distinct (map snd (filter (\<lambda>h. fst h = t) (map fst (AList.clearjunk w))))"
    unfolding distinct_map by (intro conjI distinct_filter distinct_clearjunk)
  moreover have "map (serialize_key \<circ> fst) (dict_table w t) = map snd (filter (\<lambda>h. fst h = t) (map fst (AList.clearjunk w)))"
    by (simp add: dict_table_def filter_map comp_def case_prod_beta serialize_key_def join_split_on)
  ultimately show "distinct (map (serialize_key \<circ> fst) (dict_table w t))" by simp
qed (auto simp: dict_table_iff dict_rows_def serialize_key_def join_split_on)

lemma split_on_single: "length (split_on c s) > 1 \<longleftrightarrow> c \<in> set s"
proof
  assume "length (split_on c s) > 1"
  then show "c \<in> set s" using split_on_no_sep[of c s] by fastforce
next
  assume "c \<in> set s"
  then obtain a b where "s = a @ c # b" "c \<notin> set a" using split_list_first by metis
  then show "length (split_on c s) > 1" by (simp add: split_on_Cons_sep)
qed

lemma dict_table_keys: "serialize_key ` {p \<in> fst ` set (dict_table w t). P p} = {k. dict_rows w t k \<noteq> None \<and> P (split_on CHR ''|'' k)}"
proof -
  have "p \<in> fst ` set (dict_table w t) \<longleftrightarrow> (\<exists>k. p = split_on CHR ''|'' k \<and> map_of w (t, k) \<noteq> None)" for p
    using dict_table_iff[of p _ w t] by (force simp: image_iff)
  then show ?thesis
    by (intro set_eqI iffI) (force simp: serialize_key_def join_split_on dict_rows_def)+
qed

lemma dict_conf_ok: "conf_db_ok dict_conf dict_rows"
  unfolding conf_db_ok_def
proof (intro conjI allI impI)
  fix w t k assume t: "upper_name t"
  then have "\<not> suffix ''|*'' t" by (auto simp: upper_name_def suffix_def)
  then show "k \<in> serialize_key ` set (cd_keys dict_conf w t) \<longleftrightarrow> dict_rows w t k \<noteq> None"
    using dict_table_keys[of w t "\<lambda>_. True"] by (simp add: dict_conf_def dict_keys_def)
next
  fix w t k
  have "set (dict_keys w (t @ ''|*'')) = {p \<in> fst ` set (dict_table w t). length p > 1}"
    by (auto simp: dict_keys_def suffix_def)
  then have "serialize_key ` set (dict_keys w (t @ ''|*'')) = {k. dict_rows w t k \<noteq> None \<and> length (split_on CHR ''|'' k) > 1}"
    using dict_table_keys[of w t "\<lambda>p. length p > 1"] by simp
  then show "k \<in> serialize_key ` set (cd_keys dict_conf w (t @ ''|*'')) \<longleftrightarrow> dict_rows w t k \<noteq> None \<and> CHR ''|'' \<in> set k"
    using split_on_single[of "CHR ''|''" k] by (simp add: dict_conf_def)
qed (auto simp: dict_conf_def dict_table_shows dict_entry_def dict_rows_def fun_eq_iff map_of_dict_merge update_conv' delete_conv'
  split: option.splits)

end
