(* ===== verification/NatConfig.thy ===== *)
theory NatConfig
  imports ConfigCmd
begin

text \<open>
  The commands of \<open>config nat\<close> (\<open>config/nat.py\<close>): static NAT and NAPT entries, pools and bindings of dynamic NAT,
  zones of interfaces, the feature and its timeouts. The arguments are those click has parsed: numbers in their
  ranges, choices among their values.
\<close>

section \<open>Addresses and ports\<close>

definition v4_reserved :: "32 word \<Rightarrow> bool" where
  "v4_reserved w \<longleftrightarrow> drop_bit 28 w = 0xF"

definition v4_multicast :: "32 word \<Rightarrow> bool" where
  "v4_multicast w \<longleftrightarrow> drop_bit 28 w = 0xE"

definition v4_loopback :: "32 word \<Rightarrow> bool" where
  "v4_loopback w \<longleftrightarrow> drop_bit 24 w = 0x7F"

definition is_valid_ipv4_address :: "string \<Rightarrow> bool" where
  "is_valid_ipv4_address address = (case parse_v4 address of
     Inl _ \<Rightarrow> False
   | Inr ip \<Rightarrow> \<not> (v4_reserved ip \<or> v4_multicast ip \<or> v4_loopback ip \<or> address \<in> {''0.0.0.0'', ''255.255.255.255''}))"

definition is_valid_port_address :: "string \<Rightarrow> bool" where
  "is_valid_port_address address = (case py_int address of Inl _ \<Rightarrow> False | Inr port \<Rightarrow> 1 \<le> port \<and> port < 65535)"

text \<open>\<open>int(ipaddress.IPv4Address(s))\<close>.\<close>

definition v4_int :: "string \<Rightarrow> err + int" where
  "v4_int s = rbind (parse_v4 s) (\<lambda>w. Inr (uint w))"

section \<open>Looking at the tables\<close>

definition nat_interface_name_is_valid :: "'d conf_db \<Rightarrow> 'd \<Rightarrow> string \<Rightarrow> bool" where
  "nat_interface_name_is_valid DB w name =
     (let among = (\<lambda>t. [name] \<in> fst ` set (cd_table DB w t)) in
      if prefix ''Ethernet'' name then among ''PORT''
      else if prefix ''PortChannel'' name then among ''PORTCHANNEL''
      else if prefix ''Vlan'' name then among ''VLAN''
      else prefix ''Loopback'' name)"

text \<open>The address a static entry translates: the global one, or the local one of an entry of type \<open>snat\<close>.\<close>

definition nat_type_of :: "fields \<Rightarrow> string" where
  "nat_type_of values = (case map_of values ''nat_type'' of None \<Rightarrow> ''dnat'' | Some t \<Rightarrow> t)"

definition global_ip_of :: "string \<Rightarrow> string list \<Rightarrow> string option" where
  "global_ip_of table key =
     (if table = ''STATIC_NAPT'' then (if length key = 3 then Some (hd key) else None)
      else if table = ''STATIC_NAT'' then (if length key = 1 then Some (hd key) else None)
      else Some ''---'')"

definition static_overlap :: "string \<Rightarrow> string \<Rightarrow> row \<Rightarrow> err + bool" where
  "static_overlap ip table = (\<lambda>(key, values). case global_ip_of table key of
     None \<Rightarrow> Inr False
   | Some global_ip \<Rightarrow> rbind (py_field values ''local_ip'') (\<lambda>local_ip.
       Inr ((if nat_type_of values = ''snat'' then local_ip else global_ip) = ip)))"

definition is_ip_overlapping_with_any_static_entry :: "'d conf_db \<Rightarrow> 'd \<Rightarrow> string \<Rightarrow> string \<Rightarrow> err + bool" where
  "is_ip_overlapping_with_any_static_entry DB w ip table = rexists (static_overlap ip table) (cd_table DB w table)"

text \<open>The range of addresses of a pool.\<close>

definition pool_range :: "string \<Rightarrow> err + int \<times> int" where
  "pool_range text = (let parts = split_on CHR ''-'' text in
     if length parts = 1 then rbind (v4_int (hd parts)) (\<lambda>a. Inr (a, a))
     else rbind (v4_int (parts ! 0)) (\<lambda>a. rbind (v4_int (parts ! 1)) (\<lambda>b. Inr (a, b))))"

definition pool_overlap :: "int \<Rightarrow> row \<Rightarrow> err + bool" where
  "pool_overlap ip = (\<lambda>(_, values). rbind (py_field values ''nat_ip'') (\<lambda>global_ip.
     rbind (pool_range global_ip) (\<lambda>(lo, hi). Inr (lo \<le> ip \<and> ip \<le> hi))))"

definition is_overlapping_with_any_dynamic_entry :: "'d conf_db \<Rightarrow> 'd \<Rightarrow> string \<Rightarrow> err + bool" where
  "is_overlapping_with_any_dynamic_entry DB w ip =
     rbind (v4_int ip) (\<lambda>n. rexists (pool_overlap n) (cd_table DB w ''NAT_POOL''))"

text \<open>
  How many entries use a twice NAT id. An id is a number, or the text \<open>NULL\<close> of a binding without one, which
  equals no number.
\<close>

definition twice_static :: "int option \<Rightarrow> int \<Rightarrow> row \<Rightarrow> err + int" where
  "twice_static twice_nat_id count = (\<lambda>(_, values). case map_of values ''twice_nat_id'' of
     None \<Rightarrow> Inr count
   | Some s \<Rightarrow> rbind (py_int s) (\<lambda>n. Inr (if Some n = twice_nat_id then count + 1 else count)))"

definition twice_id_count_static :: "'d conf_db \<Rightarrow> 'd \<Rightarrow> int option \<Rightarrow> string \<Rightarrow> int \<Rightarrow> err + int" where
  "twice_id_count_static DB w twice_nat_id table count =
     rfoldM (twice_static twice_nat_id) count (cd_table DB w table)"

definition twice_binding :: "'d conf_db \<Rightarrow> 'd \<Rightarrow> int option \<Rightarrow> string option \<Rightarrow> int \<Rightarrow> row \<Rightarrow> err + int" where
  "twice_binding DB w twice_nat_id dynamic_key count = (\<lambda>(key, values).
     rbind (py_field values ''nat_pool'') (\<lambda>pool.
       if (case dynamic_key of None \<Rightarrow> False | Some k \<Rightarrow> key = [k]) then Inr count
       else if cd_entry DB w ''NAT_POOL'' pool = [] then Inr count
       else if map_of values ''twice_nat_id'' = Some ''NULL'' then Inr count
       else twice_static twice_nat_id count (key, values)))"

definition twice_id_count_binding :: "'d conf_db \<Rightarrow> 'd \<Rightarrow> int option \<Rightarrow> int \<Rightarrow> string option \<Rightarrow> err + int" where
  "twice_id_count_binding DB w twice_nat_id count dynamic_key =
     rfoldM (twice_binding DB w twice_nat_id dynamic_key) count (cd_table DB w ''NAT_BINDINGS'')"

section \<open>Static entries\<close>

definition check_addresses :: "string \<Rightarrow> string \<Rightarrow> ('d, unit) cmd" where
  "check_addresses global_ip local_ip =
     seq (act_when (\<not> is_valid_ipv4_address local_ip)
       (fail (''Given local ip address '' @ local_ip @ '' is invalid. Please enter a valid local ip address !!'')))
     (act_when (\<not> is_valid_ipv4_address global_ip)
       (fail (''Given global ip address '' @ global_ip @ '' is invalid. Please enter a valid global ip address !!'')))"

text \<open>The limit on the number of entries, as the counters have it; true when it is reached.\<close>

definition counter_value :: "fields option \<Rightarrow> string \<Rightarrow> err + int" where
  "counter_value entry f = (case entry of None \<Rightarrow> Inr 0 | Some d \<Rightarrow> (case map_of d f of None \<Rightarrow> Inr 0 | Some s \<Rightarrow> py_int s))"

definition max_entries_reached :: "'d conf_db \<Rightarrow> ('d, bool) cmd" where
  "max_entries_reached DB =
     act_bind (get_counters DB ''COUNTERS_GLOBAL_NAT:Values'') (\<lambda>entry.
     act_bind (py (counter_value entry ''SNAT_ENTRIES'')) (\<lambda>snat.
     act_bind (py (counter_value entry ''MAX_NAT_ENTRIES'')) (\<lambda>maximum.
     if maximum \<le> snat
     then seq (echo ''Max limit is reached for NAT entries, skipping adding the entry.'') (act_return True)
     else act_return False)))"

definition optional_field :: "string \<Rightarrow> string option \<Rightarrow> fields" where
  "optional_field f v = (case v of None \<Rightarrow> [] | Some s \<Rightarrow> [(f, s)])"

text \<open>The end of the static commands: the limit, the twice NAT id, and the entry with the options given.\<close>

definition put_static :: "'d conf_db \<Rightarrow> string \<Rightarrow> string \<Rightarrow> fields \<Rightarrow> string option \<Rightarrow> int option \<Rightarrow> ('d, unit) cmd" where
  "put_static DB table key data nat_type twice_nat_id =
     act_bind (max_entries_reached DB) (\<lambda>reached.
     act_when (\<not> reached)
       (seq (case twice_nat_id of
           None \<Rightarrow> act_return ()
         | Some n \<Rightarrow>
             act_bind (conf_py (\<lambda>w. twice_id_count_static DB w (Some n) table 0)) (\<lambda>count.
             act_bind (conf_py (\<lambda>w. twice_id_count_binding DB w (Some n) count None)) (\<lambda>count.
             act_when (count > 1) (fail ''Same Twice nat id is not allowed for more than 2 entries!!''))))
        (set_ent DB table key
          (Some (data @ optional_field ''nat_type'' nat_type @ optional_field ''twice_nat_id'' (map_option int_str twice_nat_id))))))"

definition translated_ip :: "string \<Rightarrow> string \<Rightarrow> string option \<Rightarrow> string" where
  "translated_ip global_ip local_ip nat_type = (if nat_type = Some ''snat'' then local_ip else global_ip)"

definition add_basic :: "'d conf_db \<Rightarrow> string \<Rightarrow> string \<Rightarrow> string option \<Rightarrow> int option \<Rightarrow> ('d, unit) cmd" where
  "add_basic DB global_ip local_ip nat_type twice_nat_id =
     seq (check_addresses global_ip local_ip)
     (act_bind (get_ent DB ''STATIC_NAT'' global_ip) (\<lambda>data.
      act_bind (py (if data = [] then Inr False else rbind (py_field data ''local_ip'') (\<lambda>l. Inr (l = local_ip)))) (\<lambda>found.
      seq (act_when found (echo ''Trying to add static nat entry, which is already present.''))
      (act_bind (conf_py (\<lambda>w. is_ip_overlapping_with_any_static_entry DB w (translated_ip global_ip local_ip nat_type) ''STATIC_NAPT'')) (\<lambda>napt.
      seq (act_when napt (fail ''Given entry is overlapping with existing NAPT entry !!''))
      (act_bind (conf_py (\<lambda>w. is_overlapping_with_any_dynamic_entry DB w (translated_ip global_ip local_ip nat_type))) (\<lambda>dynamic.
      seq (act_when dynamic (fail ''Given entry is overlapping with existing Dynamic entry !!''))
      (act_when (\<not> found) (put_static DB ''STATIC_NAT'' global_ip [(''local_ip'', local_ip)] nat_type twice_nat_id)))))))))"

text \<open>The entry of a protocol's port. The stored port is a text.\<close>

definition napt_key :: "string \<Rightarrow> string \<Rightarrow> int \<Rightarrow> string" where
  "napt_key protocol global_ip global_port = serialize_key [global_ip, protocol, int_str global_port]"

definition same_napt :: "fields \<Rightarrow> string \<Rightarrow> int \<Rightarrow> err + bool" where
  "same_napt data local_ip local_port =
     (if data = [] then Inr False
      else rbind (py_field data ''local_ip'') (\<lambda>l.
        if l \<noteq> local_ip then Inr False else rbind (py_field data ''local_port'') (\<lambda>p. Inr (p = int_str local_port))))"

definition add_napt :: "string \<Rightarrow> 'd conf_db \<Rightarrow> string \<Rightarrow> int \<Rightarrow> string \<Rightarrow> int \<Rightarrow> string option \<Rightarrow> int option \<Rightarrow> ('d, unit) cmd" where
  "add_napt protocol DB global_ip global_port local_ip local_port nat_type twice_nat_id =
     seq (check_addresses global_ip local_ip)
     (act_bind (get_ent DB ''STATIC_NAPT'' (napt_key protocol global_ip global_port)) (\<lambda>data.
      act_bind (py (same_napt data local_ip local_port)) (\<lambda>found.
      seq (act_when found (echo ''Trying to add static napt entry, which is already present.''))
      (act_bind (conf_py (\<lambda>w. is_ip_overlapping_with_any_static_entry DB w (translated_ip global_ip local_ip nat_type) ''STATIC_NAT'')) (\<lambda>nat.
      seq (act_when nat (fail ''Given entry is overlapping with existing NAT entry !!''))
      (act_when (\<not> found)
        (put_static DB ''STATIC_NAPT'' (napt_key protocol global_ip global_port)
          [(''local_ip'', local_ip), (''local_port'', int_str local_port)] nat_type twice_nat_id)))))))"

definition add_tcp :: "'d conf_db \<Rightarrow> string \<Rightarrow> int \<Rightarrow> string \<Rightarrow> int \<Rightarrow> string option \<Rightarrow> int option \<Rightarrow> ('d, unit) cmd" where
  "add_tcp = add_napt ''TCP''"

definition add_udp :: "'d conf_db \<Rightarrow> string \<Rightarrow> int \<Rightarrow> string \<Rightarrow> int \<Rightarrow> string option \<Rightarrow> int option \<Rightarrow> ('d, unit) cmd" where
  "add_udp = add_napt ''UDP''"

definition remove_basic :: "'d conf_db \<Rightarrow> string \<Rightarrow> string \<Rightarrow> ('d, unit) cmd" where
  "remove_basic DB global_ip local_ip =
     seq (check_addresses global_ip local_ip)
     (act_bind (get_ent DB ''STATIC_NAT'' global_ip) (\<lambda>data.
      act_bind (py (if data = [] then Inr False else rbind (py_field data ''local_ip'') (\<lambda>l. Inr (l = local_ip)))) (\<lambda>found.
      if found then set_ent DB ''STATIC_NAT'' global_ip None
      else echo ''Trying to delete static nat entry, which is not present.'')))"

definition remove_napt :: "string \<Rightarrow> 'd conf_db \<Rightarrow> string \<Rightarrow> int \<Rightarrow> string \<Rightarrow> int \<Rightarrow> ('d, unit) cmd" where
  "remove_napt protocol DB global_ip global_port local_ip local_port =
     seq (check_addresses global_ip local_ip)
     (act_bind (get_ent DB ''STATIC_NAPT'' (napt_key protocol global_ip global_port)) (\<lambda>data.
      act_bind (py (same_napt data local_ip local_port)) (\<lambda>found.
      if found then set_ent DB ''STATIC_NAPT'' (napt_key protocol global_ip global_port) None
      else echo ''Trying to delete static napt entry, which is not present.'')))"

definition remove_tcp :: "'d conf_db \<Rightarrow> string \<Rightarrow> int \<Rightarrow> string \<Rightarrow> int \<Rightarrow> ('d, unit) cmd" where
  "remove_tcp = remove_napt ''TCP''"

definition remove_udp :: "'d conf_db \<Rightarrow> string \<Rightarrow> int \<Rightarrow> string \<Rightarrow> int \<Rightarrow> ('d, unit) cmd" where
  "remove_udp = remove_napt ''UDP''"

definition clear_table :: "'d conf_db \<Rightarrow> string \<Rightarrow> ('d, unit) cmd" where
  "clear_table DB t = act_bind (get_tab DB t) (act_each (\<lambda>(key, _). set_ent DB t (serialize_key key) None))"

definition remove_static_all :: "'d conf_db \<Rightarrow> ('d, unit) cmd" where
  "remove_static_all DB = act_each (clear_table DB) [''STATIC_NAT'', ''STATIC_NAPT'']"

section \<open>Pools and bindings\<close>

definition check_pool_addresses :: "string \<Rightarrow> ('d, int \<times> int) cmd" where
  "check_pool_addresses addresses =
     (let ip = split_on CHR ''-'' addresses;
          bad = (\<lambda>a. fail (''Given ip address '' @ a @ '' is not valid global address. Please enter a valid ip address !!''));
          bad_range = fail (''Given ip address range '' @ addresses @ '' is invalid. Please enter a valid ip address range !!'') in
      if length ip > 2 then bad_range
      else if length ip = 2 then
        seq (act_when (\<not> is_valid_ipv4_address (ip ! 0)) (bad (ip ! 0)))
        (seq (act_when (\<not> is_valid_ipv4_address (ip ! 1)) (bad (ip ! 1)))
        (act_bind (py (v4_int (ip ! 0))) (\<lambda>low. act_bind (py (v4_int (ip ! 1))) (\<lambda>high.
         if low \<ge> high then bad_range else act_return (low, high)))))
      else
        seq (act_when (\<not> is_valid_ipv4_address (ip ! 0)) (bad (ip ! 0)))
        (act_bind (py (v4_int (ip ! 0))) (\<lambda>a. act_return (a, a))))"

definition check_pool_ports :: "string \<Rightarrow> ('d, unit) cmd" where
  "check_pool_ports ports =
     (let port = split_on CHR ''-'' ports;
          bad = (\<lambda>p. fail (''Given port value '' @ p @ '' is invalid. Please enter a valid port value !!''));
          bad_range = fail (''Given port address range '' @ ports @ '' is invalid. Please enter a valid port address range !!'') in
      if length port > 2 then bad_range
      else if length port = 2 then
        seq (act_when (\<not> is_valid_port_address (port ! 0)) (bad (port ! 0)))
        (seq (act_when (\<not> is_valid_port_address (port ! 1)) (bad (port ! 1)))
        (act_bind (py (py_int (port ! 0))) (\<lambda>low. act_bind (py (py_int (port ! 1))) (\<lambda>high.
         act_when (low \<ge> high) bad_range))))
      else act_when (\<not> is_valid_port_address (port ! 0)) (bad (port ! 0)))"

text \<open>A static entry inside the range of the new pool ends the command.\<close>

definition static_in_range :: "int \<Rightarrow> int \<Rightarrow> row \<Rightarrow> err + bool" where
  "static_in_range low high = (\<lambda>(key, values). case global_ip_of ''STATIC_NAT'' key of
     None \<Rightarrow> Inr False
   | Some global_ip \<Rightarrow> rbind (py_field values ''local_ip'') (\<lambda>local_ip.
       rbind (v4_int (if nat_type_of values = ''snat'' then local_ip else global_ip)) (\<lambda>ip.
         Inr (low \<le> ip \<and> ip \<le> high))))"

definition same_pair :: "fields \<Rightarrow> string \<Rightarrow> string \<Rightarrow> string \<Rightarrow> string \<Rightarrow> err + bool" where
  "same_pair data f v f' v' =
     (if data = [] then Inr False
      else rbind (py_field data f) (\<lambda>a. if a \<noteq> v then Inr False else rbind (py_field data f') (\<lambda>b. Inr (b = v'))))"

definition add_pool :: "'d conf_db \<Rightarrow> string \<Rightarrow> string \<Rightarrow> string option \<Rightarrow> ('d, unit) cmd" where
  "add_pool DB pool_name global_ip_range global_port_range =
     seq (act_when (length pool_name > 32) (fail ''Invalid pool name. Maximum allowed pool name is 32 characters !!''))
     (act_bind (check_pool_addresses global_ip_range) (\<lambda>(low, high).
      seq (case global_port_range of None \<Rightarrow> act_return () | Some r \<Rightarrow> check_pool_ports r)
      (let ports = (case global_port_range of None \<Rightarrow> ''NULL'' | Some r \<Rightarrow> r) in
       act_bind (get_ent DB ''NAT_POOL'' pool_name) (\<lambda>data.
       act_bind (py (same_pair data ''nat_ip'' global_ip_range ''nat_port'' ports)) (\<lambda>present.
       seq (act_when present (echo ''Trying to add pool, which is already present.''))
       (act_bind (get_tab DB ''NAT_POOL'') (\<lambda>pool_dict.
       seq (act_when (length pool_dict = 16) (echo ''Failed to add pool, as already reached maximum pool limit 16.''))
       (act_when (\<not> present \<and> length pool_dict \<noteq> 16)
         (act_bind (conf_py (\<lambda>w. rexists (static_in_range low high) (cd_table DB w ''STATIC_NAT''))) (\<lambda>overlap.
          seq (act_when overlap (fail ''Given Ip address entry is overlapping with existing Static NAT entry !!''))
          (set_ent DB ''NAT_POOL'' pool_name (Some [(''nat_ip'', global_ip_range), (''nat_port'', ports)]))))))))))))"

definition add_binding :: "'d conf_db \<Rightarrow> string \<Rightarrow> string \<Rightarrow> string option \<Rightarrow> string option \<Rightarrow> int option \<Rightarrow> ('d, unit) cmd" where
  "add_binding DB binding_name pool_name acl_name nat_type twice_nat_id =
     (let acl = (case acl_name of None \<Rightarrow> '''' | Some a \<Rightarrow> a) in
      seq (act_when (length binding_name > 32) (fail ''Invalid binding name. Maximum allowed binding name is 32 characters !!''))
      (act_bind (get_ent DB ''NAT_BINDINGS'' binding_name) (\<lambda>data.
       act_bind (py (same_pair data ''access_list'' acl ''nat_pool'' pool_name)) (\<lambda>present.
       seq (act_when present (echo ''Trying to add binding, which is already present.''))
       (act_bind (get_tab DB ''NAT_BINDINGS'') (\<lambda>binding_dict.
       seq (act_when (length binding_dict = 16) (echo ''Failed to add binding, as already reached maximum binding limit 16.''))
       (seq (act_when (nat_type = Some ''dnat'') (echo ''Ignored, DNAT is not yet suported for Binding ''))
       (act_when (\<not> present \<and> length binding_dict \<noteq> 16 \<and> nat_type \<noteq> Some ''dnat'')
         (act_bind (conf_py (\<lambda>w. twice_id_count_static DB w twice_nat_id ''STATIC_NAT'' 0)) (\<lambda>count.
          act_bind (conf_py (\<lambda>w. twice_id_count_static DB w twice_nat_id ''STATIC_NAPT'' count)) (\<lambda>count.
          act_bind (conf_py (\<lambda>w. twice_id_count_binding DB w twice_nat_id count (Some binding_name))) (\<lambda>count.
          seq (act_when (count > 1) (fail ''Same Twice nat id is not allowed for more than 2 entries!!''))
          (set_ent DB ''NAT_BINDINGS'' binding_name
            (Some [(''access_list'', acl), (''nat_pool'', pool_name),
                   (''nat_type'', case nat_type of None \<Rightarrow> ''snat'' | Some t \<Rightarrow> t),
                   (''twice_nat_id'', case twice_nat_id of None \<Rightarrow> ''NULL'' | Some n \<Rightarrow> int_str n)]))))))))))))))"

text \<open>The first binding that uses a pool.\<close>

fun binding_of_pool :: "row list \<Rightarrow> string \<Rightarrow> err + string option" where
  "binding_of_pool [] pool = Inr None"
| "binding_of_pool ((name, values) # rows) pool =
     rbind (py_field values ''nat_pool'') (\<lambda>p. if p = pool then Inr (Some (key_text name)) else binding_of_pool rows pool)"

definition remove_pool :: "'d conf_db \<Rightarrow> string \<Rightarrow> ('d, unit) cmd" where
  "remove_pool DB pool_name =
     seq (act_when (length pool_name > 32) (fail ''Invalid pool name. Maximum allowed pool name is 32 characters !!''))
     (act_bind (get_ent DB ''NAT_POOL'' pool_name) (\<lambda>data.
      if data = [] then echo ''Trying to delete pool, which is not present.''
      else act_bind (get_tab DB ''NAT_BINDINGS'') (\<lambda>binding_dict.
        act_bind (py (binding_of_pool binding_dict pool_name)) (\<lambda>binding. case binding of
          Some b \<Rightarrow> echo (''Pool is not removed, as it is mapped to Binding '' @ b @ '', remove the pool binding first !!'')
        | None \<Rightarrow> set_ent DB ''NAT_POOL'' pool_name None))))"

definition remove_pools :: "'d conf_db \<Rightarrow> ('d, unit) cmd" where
  "remove_pools DB =
     act_bind (get_tab DB ''NAT_BINDINGS'') (\<lambda>binding_dict.
     act_bind (get_tab DB ''NAT_POOL'') (act_each (\<lambda>(pool, _).
       act_bind (py (if length pool = 1 then binding_of_pool binding_dict (hd pool)
                     else rbind (rmapM (\<lambda>(_, values). py_field values ''nat_pool'') binding_dict) (\<lambda>_. Inr None))) (\<lambda>binding. case binding of
         Some b \<Rightarrow> echo (''Pool '' @ key_text pool @ '' is not removed, as it is mapped to Binding '' @ b @ '', remove the pool binding first !!'')
       | None \<Rightarrow> set_ent DB ''NAT_POOL'' (serialize_key pool) None))))"

definition remove_binding :: "'d conf_db \<Rightarrow> string \<Rightarrow> ('d, unit) cmd" where
  "remove_binding DB binding_name =
     seq (act_when (length binding_name > 32) (fail ''Invalid binding name. Maximum allowed binding name is 32 characters !!''))
     (act_bind (get_ent DB ''NAT_BINDINGS'' binding_name) (\<lambda>data.
      if data = [] then echo ''Trying to delete binding, which is not present.''
      else set_ent DB ''NAT_BINDINGS'' binding_name None))"

definition remove_bindings :: "'d conf_db \<Rightarrow> ('d, unit) cmd" where
  "remove_bindings DB = clear_table DB ''NAT_BINDINGS''"

section \<open>Interfaces, the feature, timeouts\<close>

definition interface_table_type :: "string \<Rightarrow> err + string" where
  "interface_table_type name =
     (if prefix ''Ethernet'' name then Inr ''INTERFACE''
      else if prefix ''PortChannel'' name then Inr ''PORTCHANNEL_INTERFACE''
      else if prefix ''Vlan'' name then Inr ''VLAN_INTERFACE''
      else if prefix ''Loopback'' name then Inr ''LOOPBACK_INTERFACE''
      else Inl NameError)"

definition set_zone :: "'d conf_db \<Rightarrow> string \<Rightarrow> string \<Rightarrow> string \<Rightarrow> ('d, unit) cmd" where
  "set_zone DB name missing zone =
     act_bind (conf_py (\<lambda>w. Inr (nat_interface_name_is_valid DB w name))) (\<lambda>valid.
     seq (act_when (\<not> valid) (fail ''Interface name is invalid. Please enter a  valid interface name!!''))
     (act_bind (py (interface_table_type name)) (\<lambda>t.
      act_bind (get_tab DB t) (\<lambda>interface_table_dict.
      seq (act_when ([name] \<notin> fst ` set interface_table_dict) (fail missing))
      (mod_ent DB t name [(''nat_zone'', zone)])))))"

definition nat_add_interface :: "'d conf_db \<Rightarrow> string \<Rightarrow> int \<Rightarrow> ('d, unit) cmd" where
  "nat_add_interface DB name nat_zone =
     set_zone DB name (''Interface table is not present. Please configure ip-address on '' @ name @ '' and apply the nat zone !!'')
       (int_str nat_zone)"

definition nat_remove_interface :: "'d conf_db \<Rightarrow> string \<Rightarrow> ('d, unit) cmd" where
  "nat_remove_interface DB name = set_zone DB name ''Interface table is not present. Ignoring the nat zone configuration'' ''0''"

definition reset_zone :: "'d conf_db \<Rightarrow> string \<Rightarrow> row \<Rightarrow> ('d, unit) cmd" where
  "reset_zone DB t = (\<lambda>(key, _). act_when (length key = 1) (set_ent DB t (serialize_key key) (Some [(''nat_zone'', ''0'')])))"

definition reset_zones :: "'d conf_db \<Rightarrow> string \<Rightarrow> ('d, unit) cmd" where
  "reset_zones DB t = act_bind (get_tab DB t) (act_each (reset_zone DB t))"

definition nat_remove_interfaces :: "'d conf_db \<Rightarrow> ('d, unit) cmd" where
  "nat_remove_interfaces DB =
     act_each (reset_zones DB) [''INTERFACE'', ''PORTCHANNEL_INTERFACE'', ''VLAN_INTERFACE'', ''LOOPBACK_INTERFACE'']"

definition nat_global :: "'d conf_db \<Rightarrow> string \<Rightarrow> string \<Rightarrow> ('d, unit) cmd" where
  "nat_global DB f v = mod_ent DB ''NAT_GLOBAL'' ''Values'' [(f, v)]"

definition nat_feature :: "'d conf_db \<Rightarrow> bool \<Rightarrow> ('d, unit) cmd" where
  "nat_feature DB on = nat_global DB ''admin_mode'' (if on then ''enabled'' else ''disabled'')"

text \<open>Setting a timeout, or setting it back to its default.\<close>

datatype nat_timer = Timeout | TcpTimeout | UdpTimeout

fun timer_field :: "nat_timer \<Rightarrow> string" where
  "timer_field Timeout = ''nat_timeout''"
| "timer_field TcpTimeout = ''nat_tcp_timeout''"
| "timer_field UdpTimeout = ''nat_udp_timeout''"

fun timer_default :: "nat_timer \<Rightarrow> int" where
  "timer_default Timeout = 600"
| "timer_default TcpTimeout = 86400"
| "timer_default UdpTimeout = 300"

definition set_timeout :: "'d conf_db \<Rightarrow> nat_timer \<Rightarrow> int \<Rightarrow> ('d, unit) cmd" where
  "set_timeout DB timer seconds = nat_global DB (timer_field timer) (int_str seconds)"

definition reset_timeout :: "'d conf_db \<Rightarrow> nat_timer \<Rightarrow> ('d, unit) cmd" where
  "reset_timeout DB timer = set_timeout DB timer (timer_default timer)"

section \<open>Sessions\<close>

datatype nat_command =
    AddBasic string string "string option" "int option"
  | AddTcp string int string int "string option" "int option"
  | AddUdp string int string int "string option" "int option"
  | RemoveBasic string string
  | RemoveTcp string int string int
  | RemoveUdp string int string int
  | RemoveStaticAll
  | AddPool string string "string option"
  | AddBinding string string "string option" "string option" "int option"
  | RemovePool string
  | RemovePools
  | RemoveBinding string
  | RemoveBindings
  | AddInterface string int
  | RemoveInterface string
  | RemoveInterfaces
  | Feature bool
  | SetTimeout nat_timer int
  | ResetTimeout nat_timer

fun run_nat :: "'d conf_db \<Rightarrow> nat_command \<Rightarrow> ('d, unit) cmd" where
  "run_nat DB (AddBasic g l t n) = add_basic DB g l t n"
| "run_nat DB (AddTcp g gp l lp t n) = add_tcp DB g gp l lp t n"
| "run_nat DB (AddUdp g gp l lp t n) = add_udp DB g gp l lp t n"
| "run_nat DB (RemoveBasic g l) = remove_basic DB g l"
| "run_nat DB (RemoveTcp g gp l lp) = remove_tcp DB g gp l lp"
| "run_nat DB (RemoveUdp g gp l lp) = remove_udp DB g gp l lp"
| "run_nat DB RemoveStaticAll = remove_static_all DB"
| "run_nat DB (AddPool p r ports) = add_pool DB p r ports"
| "run_nat DB (AddBinding b p a t n) = add_binding DB b p a t n"
| "run_nat DB (RemovePool p) = remove_pool DB p"
| "run_nat DB RemovePools = remove_pools DB"
| "run_nat DB (RemoveBinding b) = remove_binding DB b"
| "run_nat DB RemoveBindings = remove_bindings DB"
| "run_nat DB (AddInterface i z) = nat_add_interface DB i z"
| "run_nat DB (RemoveInterface i) = nat_remove_interface DB i"
| "run_nat DB RemoveInterfaces = nat_remove_interfaces DB"
| "run_nat DB (Feature on) = nat_feature DB on"
| "run_nat DB (SetTimeout timer s) = set_timeout DB timer s"
| "run_nat DB (ResetTimeout timer) = reset_timeout DB timer"

text \<open>A session is a sequence of commands; one that fails leaves what it has written so far.\<close>

inductive nat_session :: "'d conf_db \<Rightarrow> 'd session \<Rightarrow> 'd session \<Rightarrow> bool" for DB where
  start: "nat_session DB w w"
| next_command: "nat_session DB w u \<Longrightarrow> run_nat DB c u = (r, v) \<Longrightarrow> nat_session DB w v"

end
