(* ===== verification/NatSessions.thy ===== *)
theory NatSessions
  imports NatConfig
begin

text \<open>
  What the commands of \<open>config nat\<close> guarantee over a session: the entries they keep apart, the limits they keep,
  that a command that fails writes nothing, and that a pool in use stays, but for one case.
\<close>

section \<open>The state the commands keep\<close>

lemma nat_tables [simp]:
  "upper_name ''STATIC_NAT''" "upper_name ''STATIC_NAPT''" "upper_name ''NAT_POOL''" "upper_name ''NAT_BINDINGS''" "upper_name ''NAT_GLOBAL''"
  "upper_name ''INTERFACE''" "upper_name ''PORTCHANNEL_INTERFACE''" "upper_name ''VLAN_INTERFACE''" "upper_name ''LOOPBACK_INTERFACE''"
  by code_simp+

text \<open>The address a row of a static table translates.\<close>

definition row_ip :: "string \<Rightarrow> string \<Rightarrow> (string \<Rightarrow> string option) \<Rightarrow> string option" where
  "row_ip table k fs = (case global_ip_of table (split_on CHR ''|'' k) of
     None \<Rightarrow> None
   | Some g \<Rightarrow> (case fs ''local_ip'' of None \<Rightarrow> None
                | Some l \<Rightarrow> Some (if fs ''nat_type'' = Some ''snat'' then l else g)))"

definition nat_napt_apart :: "(string \<Rightarrow> rows) \<Rightarrow> bool" where
  "nat_napt_apart m \<longleftrightarrow> (\<forall>k fs k' fs' a. m ''STATIC_NAT'' k = Some fs \<longrightarrow> m ''STATIC_NAPT'' k' = Some fs' \<longrightarrow>
     row_ip ''STATIC_NAT'' k fs = Some a \<longrightarrow> row_ip ''STATIC_NAPT'' k' fs' \<noteq> Some a)"

definition outside :: "string \<Rightarrow> string \<Rightarrow> bool" where
  "outside ip range_text \<longleftrightarrow> (case (v4_int ip, pool_range range_text) of
     (Inr n, Inr (lo, hi)) \<Rightarrow> \<not> (lo \<le> n \<and> n \<le> hi) | _ \<Rightarrow> True)"

definition nat_pools_apart :: "(string \<Rightarrow> rows) \<Rightarrow> bool" where
  "nat_pools_apart m \<longleftrightarrow> (\<forall>k fs a p ps r. m ''STATIC_NAT'' k = Some fs \<longrightarrow> row_ip ''STATIC_NAT'' k fs = Some a \<longrightarrow>
     m ''NAT_POOL'' p = Some ps \<longrightarrow> ps ''nat_ip'' = Some r \<longrightarrow> outside a r)"

definition at_most_16 :: "rows \<Rightarrow> bool" where
  "at_most_16 m \<longleftrightarrow> finite (dom m) \<and> card (dom m) \<le> 16"

definition users_of :: "int \<Rightarrow> rows \<Rightarrow> string set" where
  "users_of n m = {k. \<exists>fs s. m k = Some fs \<and> fs ''twice_nat_id'' = Some s \<and> py_int s = Inr n}"

definition twice_ids_ok :: "rows \<Rightarrow> bool" where
  "twice_ids_ok m \<longleftrightarrow> (\<forall>n. finite (users_of n m) \<and> card (users_of n m) \<le> 2)"

text \<open>
  A static NAT entry translates no address that a NAPT entry translates or a pool holds; there are at most 16 pools and
  16 bindings; a twice NAT id is used by at most two entries of a static table.
\<close>

definition nat_ok :: "(string \<Rightarrow> rows) \<Rightarrow> bool" where
  "nat_ok m \<longleftrightarrow> nat_napt_apart m \<and> nat_pools_apart m \<and> at_most_16 (m ''NAT_POOL'') \<and> at_most_16 (m ''NAT_BINDINGS'') \<and>
     twice_ids_ok (m ''STATIC_NAT'') \<and> twice_ids_ok (m ''STATIC_NAPT'')"

section \<open>Removing rows\<close>

lemma users_of_subset: "(\<And>k fs. m' k = Some fs \<Longrightarrow> m k = Some fs) \<Longrightarrow> users_of n m' \<subseteq> users_of n m"
  by (auto simp: users_of_def)

lemma twice_ids_sub: "twice_ids_ok m \<Longrightarrow> (\<And>k fs. m' k = Some fs \<Longrightarrow> m k = Some fs) \<Longrightarrow> twice_ids_ok m'"
  unfolding twice_ids_ok_def using users_of_subset[of m' m] by (meson card_mono finite_subset le_trans)

lemma at_most_sub: "at_most_16 m \<Longrightarrow> dom m' \<subseteq> dom m \<Longrightarrow> at_most_16 m'"
  unfolding at_most_16_def by (meson card_mono finite_subset le_trans)

lemma nat_ok_sub:
  assumes "nat_ok m" and sub: "\<And>t k fs. t \<in> {''STATIC_NAT'', ''STATIC_NAPT'', ''NAT_POOL'', ''NAT_BINDINGS''} \<Longrightarrow> m' t k = Some fs \<Longrightarrow> m t k = Some fs"
  shows "nat_ok m'"
proof -
  note ok = assms(1)[unfolded nat_ok_def]
  have "nat_napt_apart m'" unfolding nat_napt_apart_def
  proof (intro allI impI)
    fix k fs k' fs' a
    assume "m' ''STATIC_NAT'' k = Some fs" "m' ''STATIC_NAPT'' k' = Some fs'" and a: "row_ip ''STATIC_NAT'' k fs = Some a"
    then have "m ''STATIC_NAT'' k = Some fs" "m ''STATIC_NAPT'' k' = Some fs'" using sub by auto
    then show "row_ip ''STATIC_NAPT'' k' fs' \<noteq> Some a" using ok a unfolding nat_napt_apart_def by blast
  qed
  moreover have "nat_pools_apart m'" unfolding nat_pools_apart_def
  proof (intro allI impI)
    fix k fs a p ps r
    assume "m' ''STATIC_NAT'' k = Some fs" "m' ''NAT_POOL'' p = Some ps" and a: "row_ip ''STATIC_NAT'' k fs = Some a" "ps ''nat_ip'' = Some r"
    then have "m ''STATIC_NAT'' k = Some fs" "m ''NAT_POOL'' p = Some ps" using sub by auto
    then show "outside a r" using ok a unfolding nat_pools_apart_def by blast
  qed
  moreover have "at_most_16 (m' ''NAT_POOL'')" "at_most_16 (m' ''NAT_BINDINGS'')" using ok sub by (blast intro: at_most_sub)+
  moreover have "twice_ids_ok (m' ''STATIC_NAT'')" "twice_ids_ok (m' ''STATIC_NAPT'')" using ok sub by (blast intro: twice_ids_sub)+
  ultimately show ?thesis by (simp add: nat_ok_def)
qed

section \<open>What the checks find\<close>

lemma no_static_overlap:
  assumes ok: "conf_db_ok DB rows" and t: "t = ''STATIC_NAT'' \<or> t = ''STATIC_NAPT''"
    and none: "is_ip_overlapping_with_any_static_entry DB w ip t = Inr False" and row: "rows w t k = Some fs"
  shows "row_ip t k fs \<noteq> Some ip"
proof -
  from t have "upper_name t" by auto
  from table_showsD(3)[OF conf_table[OF ok this] row] obtain d
    where d: "(split_on CHR ''|'' k, d) \<in> set (cd_table DB w t)" "fs = map_of d" by blast
  from none d(1) have "static_overlap ip t (split_on CHR ''|'' k, d) = Inr False"
    by (simp add: is_ip_overlapping_with_any_static_entry_def rexists_False)
  then show ?thesis
    by (auto simp: d(2) row_ip_def static_overlap_def py_field_def nat_type_of_def split: option.splits if_splits)
qed

lemma no_pool_overlap:
  assumes ok: "conf_db_ok DB rows" and none: "is_overlapping_with_any_dynamic_entry DB w ip = Inr False"
    and row: "rows w ''NAT_POOL'' p = Some ps" and r: "ps ''nat_ip'' = Some r"
  shows "outside ip r"
proof -
  from table_showsD(3)[OF conf_table[OF ok nat_tables(3)] row] obtain d
    where d: "(split_on CHR ''|'' p, d) \<in> set (cd_table DB w ''NAT_POOL'')" "ps = map_of d" by blast
  from none obtain n where n: "v4_int ip = Inr n" and "rexists (pool_overlap n) (cd_table DB w ''NAT_POOL'') = Inr False"
    by (auto simp: is_overlapping_with_any_dynamic_entry_def rbind_eq_Inr)
  with d(1) have "pool_overlap n (split_on CHR ''|'' p, d) = Inr False" by (simp add: rexists_False)
  with r n show ?thesis
    by (auto simp: d(2) outside_def pool_overlap_def py_field_def rbind_eq_Inr)
qed

lemma no_static_in_range:
  assumes ok: "conf_db_ok DB rows" and none: "rexists (static_in_range lo hi) (cd_table DB w ''STATIC_NAT'') = Inr False"
    and row: "rows w ''STATIC_NAT'' k = Some fs" and a: "row_ip ''STATIC_NAT'' k fs = Some a" and r: "pool_range r = Inr (lo, hi)"
  shows "outside a r"
proof -
  from table_showsD(3)[OF conf_table[OF ok nat_tables(1)] row] obtain d
    where d: "(split_on CHR ''|'' k, d) \<in> set (cd_table DB w ''STATIC_NAT'')" "fs = map_of d" by blast
  from none d(1) have "static_in_range lo hi (split_on CHR ''|'' k, d) = Inr False" by (simp add: rexists_False)
  with a r show ?thesis
    by (auto simp: d(2) outside_def static_in_range_def row_ip_def py_field_def nat_type_of_def rbind_eq_Inr
      split: option.splits sum.splits if_splits)
qed

text \<open>The range that was checked is the one the stored text stands for.\<close>

lemma pool_addresses_read:
  "leaves_db (act_bind (check_pool_addresses r) f) w Q \<longleftrightarrow>
     (case fst (check_pool_addresses r w) of Inl e \<Rightarrow> Q (conf w) | Inr a \<Rightarrow> leaves_db (f a) w Q)"
proof -
  have "snd (check_pool_addresses r w) = w"
    by (auto simp: check_pool_addresses_def Let_def cmd_run act_return_def split: sum.split)
  then show ?thesis by (cases "check_pool_addresses r w") (auto simp: leaves_db_def act_bind_def split: sum.split)
qed

lemma pool_addresses_range:
  assumes "fst (check_pool_addresses r w) = Inr (lo, hi)"
  shows "pool_range r = Inr (lo, hi)"
proof -
  have "length (split_on CHR ''-'' r) = 1" if "\<not> length (split_on CHR ''-'' r) > 2" "length (split_on CHR ''-'' r) \<noteq> 2"
  proof -
    have "length (split_on CHR ''-'' r) \<noteq> 0" by simp
    with that show ?thesis by linarith
  qed
  with assms show ?thesis
    by (auto simp: check_pool_addresses_def pool_range_def Let_def cmd_run act_return_def hd_conv_nth rbind_eq_Inr split: sum.splits if_splits)
qed

section \<open>Counting the users of an id\<close>

definition uses :: "int \<Rightarrow> row \<Rightarrow> bool" where
  "uses n = (\<lambda>(_, d). \<exists>s. map_of d ''twice_nat_id'' = Some s \<and> py_int s = Inr n)"

lemma twice_static_count:
  "rfoldM (twice_static (Some n)) c rs = Inr c' \<Longrightarrow> c' = c + int (length (filter (uses n) rs))"
proof (induction rs arbitrary: c)
  case (Cons row rs)
  from Cons.prems obtain b where b: "twice_static (Some n) c row = Inr b" and "rfoldM (twice_static (Some n)) b rs = Inr c'"
    by (auto simp: rbind_eq_Inr)
  with Cons.IH have "c' = b + int (length (filter (uses n) rs))" by blast
  moreover from b have "b = c + (if uses n row then 1 else 0)"
    by (auto simp: twice_static_def uses_def rbind_eq_Inr split: prod.splits option.splits)
  ultimately show ?case by simp
qed simp

lemma users_counted:
  assumes "table_shows rs m"
  shows "finite (users_of n m) \<and> card (users_of n m) = length (filter (uses n) rs)"
proof -
  let ?ks = "map (serialize_key \<circ> fst) (filter (uses n) rs)"
  have "users_of n m = set ?ks"
  proof (intro set_eqI iffI)
    fix k assume "k \<in> users_of n m"
    then obtain fs s where row: "m k = Some fs" and u: "fs ''twice_nat_id'' = Some s" "py_int s = Inr n" by (auto simp: users_of_def)
    from table_showsD(3)[OF assms row] obtain d where d: "(split_on CHR ''|'' k, d) \<in> set rs" "fs = map_of d" by blast
    with u have "(split_on CHR ''|'' k, d) \<in> set (filter (uses n) rs)" by (simp add: uses_def)
    then have "(serialize_key \<circ> fst) (split_on CHR ''|'' k, d) \<in> set ?ks" unfolding set_map by (rule imageI)
    then show "k \<in> set ?ks" by (simp add: serialize_key_def join_split_on)
  next
    fix k assume "k \<in> set ?ks"
    then show "k \<in> users_of n m" using table_showsD(1)[OF assms] by (auto simp: uses_def users_of_def)
  qed
  moreover have "distinct ?ks"
    using table_showsD(4)[OF assms] distinct_map_filter by (simp only: comp_def)
  ultimately show ?thesis using distinct_card[of ?ks] by simp
qed

lemma twice_binding_grows: "rfoldM (twice_binding DB w tid k) c rs = Inr c' \<Longrightarrow> c \<le> c'"
proof (induction rs arbitrary: c)
  case (Cons row rs)
  obtain key vals where [simp]: "row = (key, vals)" by fastforce
  from Cons.prems obtain b where b: "twice_binding DB w tid k c row = Inr b" and "rfoldM (twice_binding DB w tid k) b rs = Inr c'"
    by (auto simp: rbind_eq_Inr)
  with Cons.IH have "b \<le> c'" by blast
  moreover from b have "c \<le> b"
    by (auto simp: twice_binding_def twice_static_def rbind_eq_Inr split: option.splits if_splits)
  ultimately show ?case by simp
qed simp

lemma few_users:
  assumes ok: "conf_db_ok DB rows" and t: "upper_name t" and c: "twice_id_count_static DB w (Some n) t 0 = Inr c"
    and c': "twice_id_count_binding DB w (Some n) c None = Inr c'" and le: "c' \<le> 1"
  shows "finite (users_of n (rows w t)) \<and> card (users_of n (rows w t)) \<le> 1"
proof -
  from twice_static_count[OF c[unfolded twice_id_count_static_def]] twice_binding_grows[OF c'[unfolded twice_id_count_binding_def]] le
  have "length (filter (uses n) (cd_table DB w t)) \<le> 1" by simp
  with users_counted[OF conf_table[OF ok t, of w], of n] show ?thesis by simp
qed

lemma twice_ids_put:
  assumes ok: "twice_ids_ok m"
    and new: "\<And>n s. fs ''twice_nat_id'' = Some s \<Longrightarrow> py_int s = Inr n \<Longrightarrow> card (users_of n m) \<le> 1"
  shows "twice_ids_ok (m(k \<mapsto> fs))"
  unfolding twice_ids_ok_def
proof
  fix n
  from ok have old: "finite (users_of n m) \<and> card (users_of n m) \<le> 2" by (simp add: twice_ids_ok_def)
  show "finite (users_of n (m(k \<mapsto> fs))) \<and> card (users_of n (m(k \<mapsto> fs))) \<le> 2"
  proof (cases "k \<in> users_of n (m(k \<mapsto> fs))")
    case True
    then obtain s where "fs ''twice_nat_id'' = Some s" "py_int s = Inr n" by (auto simp: users_of_def)
    with new have "card (users_of n m) \<le> 1" by blast
    moreover have "card (insert k (users_of n m)) \<le> Suc (card (users_of n m))" using old by (simp add: card_insert_if)
    ultimately have two: "card (insert k (users_of n m)) \<le> 2" by linarith
    have sub: "users_of n (m(k \<mapsto> fs)) \<subseteq> insert k (users_of n m)" by (auto simp: users_of_def split: if_splits)
    have fin: "finite (insert k (users_of n m))" using old by simp
    from finite_subset[OF sub fin] card_mono[OF fin sub] two show ?thesis by linarith
  next
    case False
    then have "users_of n (m(k \<mapsto> fs)) \<subseteq> users_of n m" by (auto simp: users_of_def split: if_splits)
    with old show ?thesis by (meson card_mono finite_subset le_trans)
  qed
qed

section \<open>Each command keeps the state\<close>

lemma check_addresses_rule [vcg]:
  "Q (conf w) \<Longrightarrow> (is_valid_ipv4_address l \<Longrightarrow> is_valid_ipv4_address g \<Longrightarrow> leaves_db n w Q) \<Longrightarrow> leaves_db (seq (check_addresses g l) n) w Q"
  by (auto simp: leaves_db_def check_addresses_def seq_def act_bind_def act_when_def fail_def act_of_def act_return_def)

lemma check_addresses_leaves [leaving]:
  "leaves_db (seq (check_addresses g l) n) w Q \<longleftrightarrow>
     (if is_valid_ipv4_address l \<and> is_valid_ipv4_address g then leaves_db n w Q else Q (conf w))"
  by (auto simp: leaves_db_def check_addresses_def seq_def act_bind_def act_when_def fail_def act_of_def act_return_def)

lemma max_entries_keeps [keeping]: "keeps conf (max_entries_reached DB)"
  by (simp add: max_entries_reached_def keeping)

lemma leaves_put_static:
  assumes ok: "conf_db_ok DB rows" and t: "upper_name t" and now: "Q (conf w)"
    and d: "map_of d ''nat_type'' = None" "map_of d ''twice_nat_id'' = None"
    and put: "\<And>d'. (\<And>f. f \<notin> {''nat_type'', ''twice_nat_id''} \<Longrightarrow> map_of d' f = map_of d f) \<Longrightarrow> map_of d' ''nat_type'' = nat_type \<Longrightarrow>
      (twice_ids_ok (rows (conf w) t) \<Longrightarrow> twice_ids_ok ((rows (conf w) t)(k \<mapsto> map_of d'))) \<Longrightarrow>
      Q (cd_set DB t k (Some d') (conf w))"
  shows "leaves_db (put_static DB t k d nat_type tid) w Q"
  unfolding put_static_def
proof (rule leaves_bind[where Q = Q])
  fix reached u assume "max_entries_reached DB w = (Inr reached, u)" and u: "conf u = conf w"
  let ?d = "d @ optional_field ''nat_type'' nat_type @ optional_field ''twice_nat_id'' (map_option int_str tid)"
  have new: "map_of ?d f = map_of d f" if "f \<notin> {''nat_type'', ''twice_nat_id''}" for f
    using that by (auto simp: optional_field_def map_add_def split: option.split)
  have nt: "map_of ?d ''nat_type'' = nat_type" and ti: "map_of ?d ''twice_nat_id'' = map_option int_str tid"
    using d by (auto simp: optional_field_def map_add_def split: option.split)
  have put': "Q (cd_set DB t k (Some ?d) (conf w))"
    if few: "\<And>n. tid = Some n \<Longrightarrow> card (users_of n (rows (conf w) t)) \<le> 1"
  proof (rule put[OF new nt])
    assume "twice_ids_ok (rows (conf w) t)"
    then show "twice_ids_ok ((rows (conf w) t)(k \<mapsto> map_of ?d))"
    proof (rule twice_ids_put)
      fix n s assume "map_of ?d ''twice_nat_id'' = Some s" "py_int s = Inr n"
      then show "card (users_of n (rows (conf w) t)) \<le> 1" using few[of n] unfolding ti by auto
    qed
  qed
  show "leaves_db (act_when (\<not> reached) (seq (case tid of
       None \<Rightarrow> act_return ()
     | Some n \<Rightarrow>
         act_bind (conf_py (\<lambda>w. twice_id_count_static DB w (Some n) t 0)) (\<lambda>count.
         act_bind (conf_py (\<lambda>w. twice_id_count_binding DB w (Some n) count None)) (\<lambda>count.
         act_when (count > 1) (fail ''Same Twice nat id is not allowed for more than 2 entries!!''))))
     (set_ent DB t k (Some ?d)))) u Q"
  proof (cases tid)
    case None
    with put' u now show ?thesis by (simp add: leaving seq_def)
  next
    case (Some n)
    show ?thesis unfolding Some option.case
    proof (rule leaves_when_rule, simp add: u now, rule leaves_seq)
      fix v assume run: "act_bind (conf_py (\<lambda>w. twice_id_count_static DB w (Some n) t 0)) (\<lambda>count.
         act_bind (conf_py (\<lambda>w. twice_id_count_binding DB w (Some n) count None)) (\<lambda>count.
         act_when (count > 1) (fail ''Same Twice nat id is not allowed for more than 2 entries!!''))) u = (Inr (), v)"
        and v: "conf v = conf u"
      then obtain c c' where "twice_id_count_static DB (conf w) (Some n) t 0 = Inr c"
          "twice_id_count_binding DB (conf w) (Some n) c None = Inr c'" "c' \<le> 1"
        by (auto simp: cmd_run u act_when_def act_return_def split: sum.splits if_splits)
      from few_users[OF ok t this] put' u v Some show "leaves_db (set_ent DB t k (Some (d @ optional_field ''nat_type'' nat_type @
          optional_field ''twice_nat_id'' (map_option int_str (Some n))))) v Q"
        by (simp add: leaving)
    qed (use u now in \<open>auto intro!: keeping\<close>)
  qed
qed (use now in \<open>auto intro: keeping\<close>)

text \<open>Adding a row.\<close>

lemma nat_napt_put_nat:
  "nat_napt_apart m \<Longrightarrow> m' ''STATIC_NAT'' = (m ''STATIC_NAT'')(k \<mapsto> fs) \<Longrightarrow> m' ''STATIC_NAPT'' = m ''STATIC_NAPT'' \<Longrightarrow>
   (\<And>k' fs' a. m ''STATIC_NAPT'' k' = Some fs' \<Longrightarrow> row_ip ''STATIC_NAT'' k fs = Some a \<Longrightarrow> row_ip ''STATIC_NAPT'' k' fs' \<noteq> Some a) \<Longrightarrow>
   nat_napt_apart m'"
  by (auto simp: nat_napt_apart_def split: if_splits)

lemma nat_napt_put_napt:
  "nat_napt_apart m \<Longrightarrow> m' ''STATIC_NAPT'' = (m ''STATIC_NAPT'')(k \<mapsto> fs) \<Longrightarrow> m' ''STATIC_NAT'' = m ''STATIC_NAT'' \<Longrightarrow>
   (\<And>k' fs' a. m ''STATIC_NAT'' k' = Some fs' \<Longrightarrow> row_ip ''STATIC_NAPT'' k fs = Some a \<Longrightarrow> row_ip ''STATIC_NAT'' k' fs' \<noteq> Some a) \<Longrightarrow>
   nat_napt_apart m'"
  by (auto simp: nat_napt_apart_def split: if_splits)

lemma nat_pools_put_nat:
  "nat_pools_apart m \<Longrightarrow> m' ''STATIC_NAT'' = (m ''STATIC_NAT'')(k \<mapsto> fs) \<Longrightarrow> m' ''NAT_POOL'' = m ''NAT_POOL'' \<Longrightarrow>
   (\<And>a p ps r. row_ip ''STATIC_NAT'' k fs = Some a \<Longrightarrow> m ''NAT_POOL'' p = Some ps \<Longrightarrow> ps ''nat_ip'' = Some r \<Longrightarrow> outside a r) \<Longrightarrow>
   nat_pools_apart m'"
  by (auto simp: nat_pools_apart_def split: if_splits)

lemma nat_pools_put_pool:
  "nat_pools_apart m \<Longrightarrow> m' ''NAT_POOL'' = (m ''NAT_POOL'')(p \<mapsto> ps) \<Longrightarrow> m' ''STATIC_NAT'' = m ''STATIC_NAT'' \<Longrightarrow>
   (\<And>k fs a r. m ''STATIC_NAT'' k = Some fs \<Longrightarrow> row_ip ''STATIC_NAT'' k fs = Some a \<Longrightarrow> ps ''nat_ip'' = Some r \<Longrightarrow> outside a r) \<Longrightarrow>
   nat_pools_apart m'"
  by (auto simp: nat_pools_apart_def split: if_splits)

lemma nat_napt_same: "nat_napt_apart m \<Longrightarrow> m' ''STATIC_NAT'' = m ''STATIC_NAT'' \<Longrightarrow> m' ''STATIC_NAPT'' = m ''STATIC_NAPT'' \<Longrightarrow> nat_napt_apart m'"
  by (simp add: nat_napt_apart_def)

lemma nat_pools_same: "nat_pools_apart m \<Longrightarrow> m' ''STATIC_NAT'' = m ''STATIC_NAT'' \<Longrightarrow> m' ''NAT_POOL'' = m ''NAT_POOL'' \<Longrightarrow> nat_pools_apart m'"
  by (simp add: nat_pools_apart_def)

lemma at_most_put: "at_most_16 m \<Longrightarrow> card (dom m) \<noteq> 16 \<Longrightarrow> at_most_16 (m(k \<mapsto> fs))"
  by (auto simp: at_most_16_def card_insert_if)

lemma piece_with: "x \<in> set s \<Longrightarrow> x \<noteq> c \<Longrightarrow> \<exists>p \<in> set (split_on c s). x \<in> set p"
  by (induction s) (auto split: list.splits)

lemma valid_no_bar: "is_valid_ipv4_address g \<Longrightarrow> CHR ''|'' \<notin> set g"
proof
  assume "is_valid_ipv4_address g" and bar: "CHR ''|'' \<in> set g"
  then obtain ns where ns: "rmapM parse_octet (split_on CHR ''.'' g) = Inr ns"
    by (auto simp: is_valid_ipv4_address_def parse_v4_def Let_def rbind_eq_Inr split: sum.splits if_splits)
  from piece_with[OF bar, of "CHR ''.''"] obtain p where "p \<in> set (split_on CHR ''.'' g)" and p: "CHR ''|'' \<in> set p" by auto
  with ns obtain n where "parse_octet p = Inr n" by (blast dest: rmapM_Inr_mem)
  then have "list_all is_digit p" by (auto simp: parse_octet_def py_isdigit_def split: if_splits)
  with p show False by (auto simp: list_all_iff is_digit_def)
qed

lemma add_basic_keeps:
  assumes ok: "conf_db_ok DB rows" and inv: "nat_ok (rows (conf w))"
  shows "leaves_db (add_basic DB g l t n) w (\<lambda>d. nat_ok (rows d))"
proof -
  have put: "nat_ok (rows (cd_set DB ''STATIC_NAT'' g (Some d') (conf w)))"
    if g: "is_valid_ipv4_address g"
      and napt: "is_ip_overlapping_with_any_static_entry DB (conf w) (translated_ip g l t) ''STATIC_NAPT'' = Inr False"
      and dyn: "is_overlapping_with_any_dynamic_entry DB (conf w) (translated_ip g l t) = Inr False"
      and d': "map_of d' ''local_ip'' = Some l" "map_of d' ''nat_type'' = t"
      and ids: "twice_ids_ok (rows (conf w) ''STATIC_NAT'') \<Longrightarrow> twice_ids_ok ((rows (conf w) ''STATIC_NAT'')(g \<mapsto> map_of d'))"
    for d'
  proof -
    have ip: "row_ip ''STATIC_NAT'' g (map_of d') = Some (translated_ip g l t)"
      by (simp add: row_ip_def global_ip_of_def split_on_no_sep d' translated_ip_def valid_no_bar[OF g])
    note m = conf_set[OF ok]
    have "nat_napt_apart (rows (cd_set DB ''STATIC_NAT'' g (Some d') (conf w)))"
      by (rule nat_napt_put_nat[of "rows (conf w)"])
        (use inv no_static_overlap[OF ok _ napt] in \<open>auto simp: m nat_ok_def ip\<close>)
    moreover have "nat_pools_apart (rows (cd_set DB ''STATIC_NAT'' g (Some d') (conf w)))"
      by (rule nat_pools_put_nat[of "rows (conf w)"])
        (use inv no_pool_overlap[OF ok dyn] in \<open>auto simp: m nat_ok_def ip\<close>)
    ultimately show ?thesis using inv ids by (simp add: m nat_ok_def)
  qed
  show ?thesis
    unfolding add_basic_def
    by (intro vcg leaves_put_static[OF ok]) (simp_all add: inv put)
qed

lemma int_str_no_bar: "CHR ''|'' \<notin> set (int_str i)"
proof -
  have "CHR ''|'' \<notin> set (nat_str n)" for n
    using nat_str_digits[of n] by (auto simp: list_all_iff is_digit_def)
  then show ?thesis by (simp add: int_str_def)
qed

lemma napt_key_parts:
  "is_valid_ipv4_address g \<Longrightarrow> CHR ''|'' \<notin> set protocol \<Longrightarrow> split_on CHR ''|'' (napt_key protocol g port) = [g, protocol, int_str port]"
  unfolding napt_key_def serialize_key_def by (rule split_on_join) (auto simp: valid_no_bar int_str_no_bar)

lemma add_napt_keeps:
  assumes ok: "conf_db_ok DB rows" and inv: "nat_ok (rows (conf w))" and bar: "CHR ''|'' \<notin> set protocol"
  shows "leaves_db (add_napt protocol DB g gp l lp t n) w (\<lambda>d. nat_ok (rows d))"
proof -
  have put: "nat_ok (rows (cd_set DB ''STATIC_NAPT'' (napt_key protocol g gp) (Some d') (conf w)))"
    if g: "is_valid_ipv4_address g"
      and nat: "is_ip_overlapping_with_any_static_entry DB (conf w) (translated_ip g l t) ''STATIC_NAT'' = Inr False"
      and d': "map_of d' ''local_ip'' = Some l" "map_of d' ''nat_type'' = t"
      and ids: "twice_ids_ok (rows (conf w) ''STATIC_NAPT'') \<Longrightarrow>
        twice_ids_ok ((rows (conf w) ''STATIC_NAPT'')(napt_key protocol g gp \<mapsto> map_of d'))"
    for d'
  proof -
    have ip: "row_ip ''STATIC_NAPT'' (napt_key protocol g gp) (map_of d') = Some (translated_ip g l t)"
      by (simp add: row_ip_def global_ip_of_def napt_key_parts[OF g bar] d' translated_ip_def)
    note m = conf_set[OF ok]
    have "nat_napt_apart (rows (cd_set DB ''STATIC_NAPT'' (napt_key protocol g gp) (Some d') (conf w)))"
      by (rule nat_napt_put_napt[of "rows (conf w)"])
        (use inv no_static_overlap[OF ok _ nat] in \<open>auto simp: m nat_ok_def ip\<close>)
    moreover have "nat_pools_apart (rows (cd_set DB ''STATIC_NAPT'' (napt_key protocol g gp) (Some d') (conf w)))"
      by (rule nat_pools_same[of "rows (conf w)"]) (use inv in \<open>simp_all add: m nat_ok_def\<close>)
    ultimately show ?thesis using inv ids by (simp add: m nat_ok_def)
  qed
  show ?thesis
    unfolding add_napt_def
    by (intro vcg leaves_put_static[OF ok]) (simp_all add: inv put)
qed

lemma check_ports_rule [vcg]:
  assumes "Q (conf w)" and "leaves_db n w Q"
  shows "leaves_db (seq (case ports of None \<Rightarrow> act_return () | Some r \<Rightarrow> check_pool_ports r) n) w Q"
proof (cases ports)
  case None
  with assms show ?thesis by (simp add: seq_def)
next
  case (Some r)
  have u: "snd (check_pool_ports r w) = w"
    by (auto simp: check_pool_ports_def Let_def cmd_run split: sum.split)
  with assms Some show ?thesis
    by (cases "check_pool_ports r w") (auto simp: leaves_db_def seq_def act_bind_def split: sum.split)
qed

lemma add_pool_keeps:
  assumes ok: "conf_db_ok DB rows" and inv: "nat_ok (rows (conf w))"
  shows "leaves_db (add_pool DB p r ports) w (\<lambda>d. nat_ok (rows d))"
proof -
  have put: "nat_ok (rows (cd_set DB ''NAT_POOL'' p (Some [(''nat_ip'', r), (''nat_port'', po)]) (conf w)))"
    if range: "fst (check_pool_addresses r u) = Inr (lo, hi)"
      and few: "length (cd_table DB (conf w) ''NAT_POOL'') \<noteq> 16"
      and none: "rexists (static_in_range lo hi) (cd_table DB (conf w) ''STATIC_NAT'') = Inr False"
    for lo hi po u
  proof -
    let ?d = "[(''nat_ip'', r), (''nat_port'', po)]"
    note m = conf_set[OF ok]
    have "nat_pools_apart (rows (cd_set DB ''NAT_POOL'' p (Some ?d) (conf w)))"
      by (rule nat_pools_put_pool[of "rows (conf w)"])
        (use inv no_static_in_range[OF ok none _ _ pool_addresses_range[OF range]] in \<open>auto simp: m nat_ok_def\<close>)
    moreover have "nat_napt_apart (rows (cd_set DB ''NAT_POOL'' p (Some ?d) (conf w)))"
      by (rule nat_napt_same[of "rows (conf w)"]) (use inv in \<open>simp_all add: m nat_ok_def\<close>)
    moreover have "at_most_16 ((rows (conf w) ''NAT_POOL'')(p \<mapsto> map_of ?d))"
      using inv few length_table[OF conf_table[OF ok nat_tables(3), of "conf w"]] by (simp add: nat_ok_def at_most_put)
    ultimately show ?thesis using inv by (simp add: m nat_ok_def)
  qed
  show ?thesis
    unfolding add_pool_def pool_addresses_read Let_def
    by (intro vcg) (auto simp: inv pool_addresses_read put split: sum.split prod.split intro!: vcg)
qed

lemma add_binding_keeps:
  assumes ok: "conf_db_ok DB rows" and inv: "nat_ok (rows (conf w))"
  shows "leaves_db (add_binding DB b p a t n) w (\<lambda>d. nat_ok (rows d))"
proof -
  have put: "nat_ok (rows (cd_set DB ''NAT_BINDINGS'' b (Some d) (conf w)))"
    if few: "length (cd_table DB (conf w) ''NAT_BINDINGS'') \<noteq> 16" for d
  proof -
    note m = conf_set[OF ok]
    have "at_most_16 ((rows (conf w) ''NAT_BINDINGS'')(b \<mapsto> map_of d))"
      using inv few length_table[OF conf_table[OF ok nat_tables(4), of "conf w"]] by (simp add: nat_ok_def at_most_put)
    moreover have "nat_napt_apart (rows (cd_set DB ''NAT_BINDINGS'' b (Some d) (conf w)))"
      by (rule nat_napt_same[of "rows (conf w)"]) (use inv in \<open>simp_all add: m nat_ok_def\<close>)
    moreover have "nat_pools_apart (rows (cd_set DB ''NAT_BINDINGS'' b (Some d) (conf w)))"
      by (rule nat_pools_same[of "rows (conf w)"]) (use inv in \<open>simp_all add: m nat_ok_def\<close>)
    ultimately show ?thesis using inv by (simp add: m nat_ok_def)
  qed
  show ?thesis
    unfolding add_binding_def Let_def by (intro vcg) (simp_all add: inv put)
qed

text \<open>Rows that go, and rows of other tables.\<close>

lemma remove_keeps [preserving]:
  "conf_db_ok DB rows \<Longrightarrow> upper_name t \<Longrightarrow> preserves (\<lambda>w. nat_ok (rows (conf w))) (set_ent DB t k None)"
  by (intro preserves_leaves vcg) (erule nat_ok_sub; auto simp: conf_set split: if_splits)

definition nat_table :: "string \<Rightarrow> bool" where
  "nat_table t \<longleftrightarrow> t \<in> {''STATIC_NAT'', ''STATIC_NAPT'', ''NAT_POOL'', ''NAT_BINDINGS''}"

lemma other_keeps:
  assumes ok: "conf_db_ok DB rows" and t: "upper_name t" "\<not> nat_table t" and inv: "nat_ok (rows d)"
  shows "nat_ok (rows (cd_set DB t k x d))" and "distinct (map fst m) \<Longrightarrow> nat_ok (rows (cd_mod DB t k m d))"
proof -
  have other: "t' \<noteq> t \<and> upper_name t'" if "t' \<in> {''STATIC_NAT'', ''STATIC_NAPT'', ''NAT_POOL'', ''NAT_BINDINGS''}" for t'
    using that t by (auto simp: nat_table_def)
  show "nat_ok (rows (cd_set DB t k x d))"
    by (rule nat_ok_sub[OF inv]) (use other in \<open>auto simp: conf_set[OF ok t(1)]\<close>)
  show "distinct (map fst m) \<Longrightarrow> nat_ok (rows (cd_mod DB t k m d))"
    by (rule nat_ok_sub[OF inv]) (use other in \<open>auto simp: conf_mod[OF ok t(1)]\<close>)
qed

lemma clear_keeps: "conf_db_ok DB rows \<Longrightarrow> upper_name t \<Longrightarrow> preserves (\<lambda>w. nat_ok (rows (conf w))) (clear_table DB t)"
  by (auto simp: clear_table_def intro!: preserving)

lemma nat_global_keeps:
  assumes ok: "conf_db_ok DB rows"
  shows "preserves (\<lambda>w. nat_ok (rows (conf w))) (nat_global DB f v)"
  unfolding nat_global_def by (intro preserves_leaves vcg other_keeps(2)[OF ok]) (simp_all add: nat_table_def)

lemma zone_keeps:
  assumes ok: "conf_db_ok DB rows"
  shows "preserves (\<lambda>w. nat_ok (rows (conf w))) (set_zone DB i s z)"
  unfolding set_zone_def
  by (intro preserves_leaves vcg other_keeps(2)[OF ok]) (auto simp: interface_table_type_def nat_table_def split: if_splits)

lemma zones_keeps: "conf_db_ok DB rows \<Longrightarrow> preserves (\<lambda>w. nat_ok (rows (conf w))) (nat_remove_interfaces DB)"
proof -
  assume ok: "conf_db_ok DB rows"
  have "preserves (\<lambda>w. nat_ok (rows (conf w))) (set_ent DB t k x)" if "upper_name t" "\<not> nat_table t" for t k x
    by (intro preserves_leaves vcg other_keeps[OF ok that])
  then show ?thesis unfolding nat_remove_interfaces_def reset_zones_def reset_zone_def by (auto intro!: preserving simp: nat_table_def)
qed

lemma option_keeps [preserving]:
  "preserves I m \<Longrightarrow> (\<And>b. preserves I (f b)) \<Longrightarrow> preserves I (case x of None \<Rightarrow> m | Some b \<Rightarrow> f b)"
  by (cases x) simp_all

lemma command_keeps:
  assumes ok: "conf_db_ok DB rows"
  shows "preserves (\<lambda>w. nat_ok (rows (conf w))) (run_nat DB c)"
proof (cases c)
  case (AddBasic g l t n)
  then show ?thesis using preserves_leaves[of "\<lambda>d. nat_ok (rows d)", OF add_basic_keeps[OF ok]] by simp
next
  case (AddTcp g gp l lp t n)
  then show ?thesis using preserves_leaves[of "\<lambda>d. nat_ok (rows d)", OF add_napt_keeps[OF ok]] by (simp add: add_tcp_def)
next
  case (AddUdp g gp l lp t n)
  then show ?thesis using preserves_leaves[of "\<lambda>d. nat_ok (rows d)", OF add_napt_keeps[OF ok]] by (simp add: add_udp_def)
next
  case (AddPool p r ports)
  then show ?thesis using preserves_leaves[of "\<lambda>d. nat_ok (rows d)", OF add_pool_keeps[OF ok]] by simp
next
  case (AddBinding b p a t n)
  then show ?thesis using preserves_leaves[of "\<lambda>d. nat_ok (rows d)", OF add_binding_keeps[OF ok]] by simp
qed (auto intro!: preserving clear_keeps[OF ok] nat_global_keeps[OF ok] zone_keeps[OF ok] zones_keeps[OF ok] remove_keeps[OF ok]
  simp: remove_basic_def check_addresses_def remove_tcp_def remove_udp_def remove_napt_def remove_static_all_def remove_pool_def
    remove_pools_def remove_binding_def remove_bindings_def nat_add_interface_def nat_remove_interface_def nat_feature_def set_timeout_def reset_timeout_def)

section \<open>What a session guarantees\<close>

text \<open>C8. Whatever sequence of \<open>config nat\<close> commands is run, failing ones included, the state stays well formed: a
  static NAT entry translates no address that a static NAPT entry translates or that a pool holds, there are at most
  16 pools and 16 bindings, and a twice NAT id is used by at most two entries of each static table.\<close>

theorem nat_session_keeps:
  assumes ok: "conf_db_ok DB rows" and session: "nat_session DB w w'" and inv: "nat_ok (rows (conf w))"
  shows "nat_ok (rows (conf w'))"
  using session inv
proof induction
  case (next_command w u c r v)
  then show ?case using preservesD[OF command_keeps[OF ok]] by blast
qed

definition nat_start :: "dict_conf session" where
  "nat_start = \<lparr>conf = [((''COUNTERS_DB'', ''COUNTERS_GLOBAL_NAT:Values''), [(''MAX_NAT_ENTRIES'', ''1024'')]),
                        ((''NAT_POOL'', ''p1''), [(''nat_ip'', ''65.55.42.1-65.55.42.9''), (''nat_port'', ''NULL'')])], echoed = []\<rparr>"

lemma nat_start_rows:
  "dict_rows (conf nat_start) ''STATIC_NAT'' = Map.empty" "dict_rows (conf nat_start) ''STATIC_NAPT'' = Map.empty"
  "dict_rows (conf nat_start) ''NAT_BINDINGS'' = Map.empty" "dom (dict_rows (conf nat_start) ''NAT_POOL'') = {''p1''}"
  by (auto simp: dict_rows_def nat_start_def fun_eq_iff dom_def)

lemma nat_start_ok: "nat_ok (dict_rows (conf nat_start))"
  by (simp add: nat_ok_def nat_napt_apart_def nat_pools_apart_def at_most_16_def twice_ids_ok_def users_of_def nat_start_rows)

theorem nat_session_keeps_witness:
  "\<exists>w'. nat_session dict_conf nat_start w' \<and> nat_ok (dict_rows (conf w')) \<and>
    dict_rows (conf w') ''STATIC_NAT'' ''65.55.43.1'' = Some [''local_ip'' \<mapsto> ''10.0.0.1'']"
proof -
  let ?add = "AddBasic ''65.55.43.1'' ''10.0.0.1'' None None"
  obtain r w' where run: "run_nat dict_conf ?add nat_start = (r, w')" by fastforce
  have "map_of (conf (snd (run_nat dict_conf ?add nat_start))) (''STATIC_NAT'', ''65.55.43.1'') = Some [(''local_ip'', ''10.0.0.1'')]"
    by code_simp
  with run have "dict_rows (conf w') ''STATIC_NAT'' ''65.55.43.1'' = Some [''local_ip'' \<mapsto> ''10.0.0.1'']"
    by (auto simp: dict_rows_def)
  moreover from run have "nat_session dict_conf nat_start w'" by (blast intro: nat_session.intros)
  ultimately show ?thesis using nat_session_keeps[OF dict_conf_ok _ nat_start_ok] by blast
qed

section \<open>A command that fails writes nothing\<close>

lemma check_addresses_keeps [keeping]: "keeps conf (check_addresses g l)"
  by (simp add: check_addresses_def keeping)

lemma put_static_clean [clean]: "refuses_clean (put_static DB t k d nt tid)"
  unfolding put_static_def
  by (auto intro!: clean_bind clean keeping split: option.split)

lemma clear_table_never: "never_fails (clear_table DB t)"
  by (auto simp: clear_table_def intro!: never)

lemma pool_checks_keep [keeping]: "keeps conf (check_pool_addresses r)" "keeps conf (check_pool_ports ports)"
  by (auto simp: check_pool_addresses_def check_pool_ports_def Let_def intro!: keeping)

lemma option_keeps_view [keeping]:
  "keeps v m \<Longrightarrow> (\<And>b. keeps v (f b)) \<Longrightarrow> keeps v (case x of None \<Rightarrow> m | Some b \<Rightarrow> f b)"
  by (cases x) simp_all

lemma option_clean [clean]:
  "refuses_clean m \<Longrightarrow> (\<And>b. refuses_clean (f b)) \<Longrightarrow> refuses_clean (case x of None \<Rightarrow> m | Some b \<Rightarrow> f b)"
  by (cases x) simp_all

lemma set_zone_clean: "refuses_clean (set_zone DB i s z)"
  unfolding set_zone_def by (intro clean clean_bind keeping)

lemma static_clean:
  "refuses_clean (add_basic DB g l t n)" "refuses_clean (add_napt protocol DB g gp l lp t n)"
  "refuses_clean (remove_basic DB g l)" "refuses_clean (remove_napt protocol DB g gp l lp)"
  unfolding add_basic_def add_napt_def remove_basic_def remove_napt_def by (intro clean clean_bind keeping)+

lemma pool_clean: "refuses_clean (add_pool DB p r ports)" "refuses_clean (add_binding DB b p a t n)"
  "refuses_clean (remove_pool DB p)" "refuses_clean (remove_binding DB b)"
  unfolding add_pool_def add_binding_def remove_pool_def remove_binding_def Let_def case_prod_beta
  by (intro clean clean_bind keeping)+

lemma nat_command_clean: "c \<noteq> RemovePools \<Longrightarrow> refuses_clean (run_nat DB c)"
  by (cases c)
    (auto simp: add_tcp_def add_udp_def remove_tcp_def remove_udp_def remove_static_all_def remove_bindings_def nat_add_interface_def
        nat_remove_interface_def nat_remove_interfaces_def nat_feature_def nat_global_def set_timeout_def reset_timeout_def
      reset_zones_def reset_zone_def
      intro!: static_clean pool_clean set_zone_clean clean clean_never[OF clear_table_never] clean_never never clear_table_never)

text \<open>C34. A \<open>config nat\<close> command that ends with an error has not touched the database (all commands but
  \<open>remove pools\<close>, which may fail between two pools).\<close>

theorem failed_command_writes_nothing:
  assumes "run_nat DB c w = (Inl e, w')" and "c \<noteq> RemovePools"
  shows "conf w' = conf w"
  using nat_command_clean[OF assms(2), of DB] assms(1) by (simp add: refuses_clean_def)

theorem failed_command_writes_nothing_witness:
  "conf (snd (run_nat dict_conf (AddBasic ''65.55.42.3'' ''10.0.0.1'' None None) nat_start)) = conf nat_start"
proof -
  have "fst (run_nat dict_conf (AddBasic ''65.55.42.3'' ''10.0.0.1'' None None) nat_start) =
      Inl (Usage ''Given entry is overlapping with existing Dynamic entry !!'')" by code_simp
  then show ?thesis
    using failed_command_writes_nothing[of dict_conf "AddBasic ''65.55.42.3'' ''10.0.0.1'' None None" nat_start]
    by (cases "run_nat dict_conf (AddBasic ''65.55.42.3'' ''10.0.0.1'' None None) nat_start") auto
qed

section \<open>A pool in use is not removed\<close>

lemma binding_found: "binding_of_pool rs p = Inr None \<Longrightarrow> (k, d) \<in> set rs \<Longrightarrow> map_of d ''nat_pool'' \<noteq> Some p"
  by (induction rs p rule: binding_of_pool.induct) (auto simp: rbind_eq_Inr py_field_def split: if_splits option.splits)

lemma used_pool_found:
  assumes ok: "conf_db_ok DB rows" and row: "rows d ''NAT_BINDINGS'' b = Some bs" "bs ''nat_pool'' = Some p"
  shows "binding_of_pool (cd_table DB d ''NAT_BINDINGS'') p \<noteq> Inr None"
proof -
  from table_showsD(3)[OF conf_table[OF ok nat_tables(4)] row(1)] obtain e
    where "(split_on CHR ''|'' b, e) \<in> set (cd_table DB d ''NAT_BINDINGS'')" "bs = map_of e" by blast
  with row(2) binding_found[of "cd_table DB d ''NAT_BINDINGS''" p] show ?thesis by auto
qed

lemma pool_row_stays:
  assumes ok: "conf_db_ok DB rows" and p: "CHR ''|'' \<notin> set p" and k: "k = split_on CHR ''|'' (serialize_key k)" "length k = 1 \<longrightarrow> hd k \<noteq> p"
  shows "preserves (\<lambda>u. rows (conf u) ''NAT_POOL'' p = x) (set_ent DB ''NAT_POOL'' (serialize_key k) None)"
proof -
  have "serialize_key k \<noteq> p"
  proof
    assume "serialize_key k = p"
    with k(1) split_on_no_sep[OF p] have "k = [p]" by simp
    with k(2) show False by simp
  qed
  then show ?thesis by (simp add: preserves_def set_ent_run conf_set[OF ok])
qed

lemma remove_pools_stays:
  assumes ok: "conf_db_ok DB rows" and p: "CHR ''|'' \<notin> set p" and found: "binding_of_pool (cd_table DB (conf w) ''NAT_BINDINGS'') p \<noteq> Inr None"
  shows "leaves_db (remove_pools DB) w (\<lambda>d. rows d ''NAT_POOL'' p = rows (conf w) ''NAT_POOL'' p)"
proof -
  let ?bs = "cd_table DB (conf w) ''NAT_BINDINGS''" and ?I = "\<lambda>u. rows (conf u) ''NAT_POOL'' p = rows (conf w) ''NAT_POOL'' p"
  let ?f = "\<lambda>(pool, _). act_bind (py (if length pool = 1 then binding_of_pool ?bs (hd pool)
                     else rbind (rmapM (\<lambda>(_, values). py_field values ''nat_pool'') ?bs) (\<lambda>_. Inr None))) (\<lambda>binding. case binding of
         Some b \<Rightarrow> echo (''Pool '' @ key_text pool @ '' is not removed, as it is mapped to Binding '' @ b @ '', remove the pool binding first !!'')
       | None \<Rightarrow> set_ent DB ''NAT_POOL'' (serialize_key pool) None)"
  have "preserves ?I (act_each ?f (cd_table DB (conf w) ''NAT_POOL''))"
  proof (rule preserves_each)
    fix x assume x: "x \<in> set (cd_table DB (conf w) ''NAT_POOL'')"
    obtain k d where kd: "x = (k, d)" by fastforce
    from table_showsD(2)[OF conf_table[OF ok nat_tables(3)]] x kd have k: "k = split_on CHR ''|'' (serialize_key k)" by blast
    show "preserves ?I (?f x)" unfolding kd prod.case
    proof (rule preserves_py)
      fix a assume a: "(if length k = 1 then binding_of_pool ?bs (hd k)
                     else rbind (rmapM (\<lambda>(_, values). py_field values ''nat_pool'') ?bs) (\<lambda>_. Inr None)) = Inr a"
      show "preserves ?I (case a of
             Some b \<Rightarrow> echo (''Pool '' @ key_text k @ '' is not removed, as it is mapped to Binding '' @ b @ '', remove the pool binding first !!'')
           | None \<Rightarrow> set_ent DB ''NAT_POOL'' (serialize_key k) None)"
      proof (cases a)
        case None
        with a found have "length k = 1 \<longrightarrow> hd k \<noteq> p" by auto
        with None show ?thesis by (simp add: pool_row_stays[OF ok p k])
      qed (simp add: preserves_def echo_run)
    qed
  qed
  then show ?thesis unfolding remove_pools_def by (intro vcg) (simp add: leaves_db_def preserves_def)
qed

text \<open>C16. \<open>remove pool\<close> never removes or changes a pool that a binding refers to, and neither does \<open>remove pools\<close>, if the
  name of the pool has no bar in it. The loop of \<open>remove pools\<close> compares the key of a pool, a tuple when there is a bar in
  it, with the name in a binding: a bound pool with a bar in its name is removed (\<open>barred_pool_removed\<close>).\<close>

theorem used_pool_stays:
  assumes ok: "conf_db_ok DB rows" and c: "c = RemovePool q \<or> c = RemovePools \<and> CHR ''|'' \<notin> set p" and run: "run_nat DB c w = (r, w')"
    and b: "rows (conf w) ''NAT_BINDINGS'' b = Some bs" "bs ''nat_pool'' = Some p"
  shows "rows (conf w') ''NAT_POOL'' p = rows (conf w) ''NAT_POOL'' p"
proof -
  have found: "binding_of_pool (cd_table DB (conf w) ''NAT_BINDINGS'') p \<noteq> Inr None"
    by (rule used_pool_found[OF ok]) (rule b)+
  have "leaves_db (remove_pool DB q) w (\<lambda>d. rows d ''NAT_POOL'' p = rows (conf w) ''NAT_POOL'' p)"
  proof (cases "q = p")
    case True
    with found show ?thesis unfolding remove_pool_def by (intro vcg) (auto simp: leaving split: option.split)
  next
    case False
    then show ?thesis unfolding remove_pool_def by (intro vcg) (auto simp: leaving conf_set[OF ok] split: option.split)
  qed
  with remove_pools_stays[OF ok _ found] c run show ?thesis by (auto simp: leaves_db_def)
qed

text \<open>The two commands that make and bind the pool succeed; the third removes it from under the binding.\<close>

definition barred :: "dict_conf session" where
  "barred = snd (run_nat dict_conf (AddBinding ''b1'' ''a|b'' (Some ''acl'') None None)
     (snd (run_nat dict_conf (AddPool ''a|b'' ''65.55.42.1'' None) \<lparr>conf = [], echoed = []\<rparr>)))"

theorem barred_pool_removed:
  "map_of (conf barred) (''NAT_POOL'', ''a|b'') = Some [(''nat_ip'', ''65.55.42.1''), (''nat_port'', ''NULL'')] \<and>
   map_option (\<lambda>d. map_of d ''nat_pool'') (map_of (conf barred) (''NAT_BINDINGS'', ''b1'')) = Some (Some ''a|b'') \<and>
   map_of (conf (snd (run_nat dict_conf RemovePools barred))) (''NAT_POOL'', ''a|b'') = None \<and>
   map_of (conf (snd (run_nat dict_conf RemovePools barred))) (''NAT_BINDINGS'', ''b1'') = map_of (conf barred) (''NAT_BINDINGS'', ''b1'')"
  by code_simp

definition bound_pool :: "dict_conf session" where
  "bound_pool = \<lparr>conf = [((''NAT_POOL'', ''p1''), [(''nat_ip'', ''65.55.42.1''), (''nat_port'', ''NULL'')]),
                         ((''NAT_POOL'', ''p2''), [(''nat_ip'', ''65.55.42.2''), (''nat_port'', ''NULL'')]),
                         ((''NAT_BINDINGS'', ''b1''), [(''access_list'', ''acl''), (''nat_pool'', ''p1'')])], echoed = []\<rparr>"

theorem used_pool_stays_witness:
  "dict_rows (conf (snd (run_nat dict_conf RemovePools bound_pool))) ''NAT_POOL'' ''p2'' = None \<and>
   dict_rows (conf (snd (run_nat dict_conf RemovePools bound_pool))) ''NAT_POOL'' ''p1'' =
     Some [''nat_ip'' \<mapsto> ''65.55.42.1'', ''nat_port'' \<mapsto> ''NULL'']"
proof
  have "map_of (conf (snd (run_nat dict_conf RemovePools bound_pool))) (''NAT_POOL'', ''p2'') = None" by code_simp
  then show "dict_rows (conf (snd (run_nat dict_conf RemovePools bound_pool))) ''NAT_POOL'' ''p2'' = None" by (simp add: dict_rows_def)
  have b: "dict_rows (conf bound_pool) ''NAT_BINDINGS'' ''b1'' = Some [''access_list'' \<mapsto> ''acl'', ''nat_pool'' \<mapsto> ''p1'']"
    by (auto simp: dict_rows_def bound_pool_def)
  have "dict_rows (conf bound_pool) ''NAT_POOL'' ''p1'' = Some [''nat_ip'' \<mapsto> ''65.55.42.1'', ''nat_port'' \<mapsto> ''NULL'']"
    by (auto simp: dict_rows_def bound_pool_def)
  then show "dict_rows (conf (snd (run_nat dict_conf RemovePools bound_pool))) ''NAT_POOL'' ''p1'' =
      Some [''nat_ip'' \<mapsto> ''65.55.42.1'', ''nat_port'' \<mapsto> ''NULL'']"
    using used_pool_stays[OF dict_conf_ok _ prod.collapse[symmetric] b, of RemovePools _ "''p1''"] by simp
qed

section \<open>Adding and removing a static entry\<close>

text \<open>What \<open>add static basic\<close> does to the table: nothing, or the entry it was given, with the local address.\<close>

lemma put_static_writes:
  assumes "Q (conf w)"
    and put: "\<And>e. (\<And>f v. map_of data f = Some v \<Longrightarrow> map_of e f = Some v) \<Longrightarrow> Q (cd_set DB t k (Some e) (conf w))"
  shows "leaves_db (put_static DB t k data nt tid) w Q"
  unfolding put_static_def
proof (rule leaves_bind[where Q = Q])
  fix reached u assume "max_entries_reached DB w = (Inr reached, u)" and u: "conf u = conf w"
  show "leaves_db (act_when (\<not> reached) (seq (case tid of
       None \<Rightarrow> act_return ()
     | Some n \<Rightarrow>
         act_bind (conf_py (\<lambda>w. twice_id_count_static DB w (Some n) t 0)) (\<lambda>count.
         act_bind (conf_py (\<lambda>w. twice_id_count_binding DB w (Some n) count None)) (\<lambda>count.
         act_when (count > 1) (fail ''Same Twice nat id is not allowed for more than 2 entries!!''))))
     (set_ent DB t k (Some (data @ optional_field ''nat_type'' nt @ optional_field ''twice_nat_id'' (map_option int_str tid)))))) u Q"
    by (intro vcg leaves_seq keeping) (use assms u in \<open>auto intro!: vcg put\<close>)
qed (use assms in \<open>auto intro: keeping\<close>)

lemma add_basic_writes:
  "leaves_db (add_basic DB g l t n) w (\<lambda>d. d = conf w \<or>
     is_valid_ipv4_address g \<and> is_valid_ipv4_address l \<and> (\<exists>e. map_of e ''local_ip'' = Some l \<and> d = cd_set DB ''STATIC_NAT'' g (Some e) (conf w)))"
proof -
  let ?Q = "\<lambda>d. d = conf w \<or> is_valid_ipv4_address g \<and> is_valid_ipv4_address l \<and>
    (\<exists>e. map_of e ''local_ip'' = Some l \<and> d = cd_set DB ''STATIC_NAT'' g (Some e) (conf w))"
  have put: "is_valid_ipv4_address g \<Longrightarrow> is_valid_ipv4_address l \<Longrightarrow> map_of e ''local_ip'' = Some l \<Longrightarrow>
    ?Q (cd_set DB ''STATIC_NAT'' g (Some e) (conf u))" if "conf u = conf w" for e u
    using that by auto
  show ?thesis unfolding add_basic_def by (intro vcg put_static_writes put) auto
qed

text \<open>C25. Adding a static NAT entry that was not there and removing it again leaves every table as it was, whether
  the entry was added, or refused, or skipped because the limit was reached.\<close>

theorem add_remove_static:
  assumes ok: "conf_db_ok DB rows" and new: "rows (conf w) ''STATIC_NAT'' g = None" and t: "upper_name t"
    and add: "run_nat DB (AddBasic g l nt tid) w = (r, u)" and remove: "run_nat DB (RemoveBasic g l) u = (r', v)"
  shows "rows (conf v) t = rows (conf w) t"
proof -
  have entry: "map_of (cd_entry DB d ''STATIC_NAT'' g) = (case rows d ''STATIC_NAT'' g of None \<Rightarrow> Map.empty | Some fs \<Rightarrow> fs)" for d
    by (simp add: conf_entry[OF ok])
  from add_basic_writes[of DB g l nt tid w] add consider "conf u = conf w"
    | e where "is_valid_ipv4_address g" "is_valid_ipv4_address l" "map_of e ''local_ip'' = Some l" "conf u = cd_set DB ''STATIC_NAT'' g (Some e) (conf w)"
    by (auto simp: leaves_db_def)
  then have "leaves_db (remove_basic DB g l) u (\<lambda>d. rows d t = rows (conf w) t)"
  proof cases
    case 1
    with entry[of "conf w"] new have "cd_entry DB (conf u) ''STATIC_NAT'' g = []" by simp
    with 1 show ?thesis unfolding remove_basic_def by (intro vcg) auto
  next
    case 2
    then have "map_of (cd_entry DB (conf u) ''STATIC_NAT'' g) = map_of e" by (simp add: entry conf_set[OF ok])
    with 2 have f: "cd_entry DB (conf u) ''STATIC_NAT'' g \<noteq> []" "py_field (cd_entry DB (conf u) ''STATIC_NAT'' g) ''local_ip'' = Inr l"
      by (auto simp: py_field_def)
    have "rows (cd_set DB ''STATIC_NAT'' g None (conf u)) t = rows (conf w) t"
      using 2 new by (simp add: conf_set[OF ok] t fun_upd_idem)
    with 2 f show ?thesis by (simp add: remove_basic_def leaving check_addresses_leaves)
  qed
  with remove show ?thesis by (simp add: leaves_db_def)
qed

theorem add_remove_static_witness:
  "conf (snd (run_nat dict_conf (AddBasic ''65.55.43.1'' ''10.0.0.1'' None None) nat_start)) \<noteq> conf nat_start \<and>
   dict_rows (conf (snd (run_nat dict_conf (RemoveBasic ''65.55.43.1'' ''10.0.0.1'')
     (snd (run_nat dict_conf (AddBasic ''65.55.43.1'' ''10.0.0.1'' None None) nat_start))))) ''NAT_POOL'' = dict_rows (conf nat_start) ''NAT_POOL''"
proof
  show "conf (snd (run_nat dict_conf (AddBasic ''65.55.43.1'' ''10.0.0.1'' None None) nat_start)) \<noteq> conf nat_start" by code_simp
  show "dict_rows (conf (snd (run_nat dict_conf (RemoveBasic ''65.55.43.1'' ''10.0.0.1'')
     (snd (run_nat dict_conf (AddBasic ''65.55.43.1'' ''10.0.0.1'' None None) nat_start))))) ''NAT_POOL'' = dict_rows (conf nat_start) ''NAT_POOL''"
    by (rule add_remove_static[OF dict_conf_ok _ _ prod.collapse[symmetric] prod.collapse[symmetric]])
      (simp_all add: nat_start_rows)
qed

section \<open>What the interface and id commands do not keep\<close>

text \<open>The loop over a table sets the row of each interface.\<close>

lemma reset_zone_never: "never_fails (reset_zone DB t p)" "never_fails (reset_zones DB t)"
  by (auto simp: reset_zone_def reset_zones_def split: prod.split intro!: never)

lemma reset_zone_row:
  assumes ok: "conf_db_ok DB rows" and t: "upper_name t" and t': "upper_name t'"
  shows "rows (conf (snd (reset_zone DB t p w))) t' k =
    (if t' = t \<and> length (fst p) = 1 \<and> serialize_key (fst p) = k then Some (map_of [(''nat_zone'', ''0'')]) else rows (conf w) t' k)"
  by (cases p) (simp add: reset_zone_def act_when_def set_ent_run act_return_def conf_set[OF ok t t'] conf_set[OF ok t t])

lemma reset_zones_other:
  assumes ok: "conf_db_ok DB rows" and t: "upper_name t" "upper_name t'" "t' \<noteq> t"
  shows "preserves (\<lambda>w. rows (conf w) t' k = x) (reset_zones DB t)"
proof -
  have "preserves (\<lambda>w. rows (conf w) t' k = x) (reset_zone DB t p)" for p
    by (simp add: preserves_def reset_zone_row[OF ok t(1,2)] t(3))
  then show ?thesis unfolding reset_zones_def by (intro preserving)
qed

lemma zone_rows:
  assumes ok: "conf_db_ok DB rows" and t: "upper_name t" and x: "([k], d) \<in> set xs"
  shows "rows (conf (snd (act_each (reset_zone DB t) xs w))) t k = Some (map_of [(''nat_zone'', ''0'')])"
  using x
proof (induction xs arbitrary: w)
  case (Cons p xs)
  note step = each_step[of "reset_zone DB t", OF reset_zone_never(1)]
  show ?case
  proof (cases "([k], d) \<in> set xs")
    case True
    with Cons.IH show ?thesis unfolding step by blast
  next
    case False
    with Cons.prems have "rows (conf (snd (reset_zone DB t p w))) t k = Some (map_of [(''nat_zone'', ''0'')])"
      by (auto simp: reset_zone_row[OF ok t t] serialize_key_def)
    moreover have "preserves (\<lambda>w. rows (conf w) t k = Some (map_of [(''nat_zone'', ''0'')])) (act_each (reset_zone DB t) xs)"
      by (rule preserves_each) (simp add: preserves_def reset_zone_row[OF ok t t])
    ultimately show ?thesis unfolding step preserves_def by blast
  qed
qed simp

lemma reset_zones_sets:
  assumes ok: "conf_db_ok DB rows" and t: "upper_name t" and k: "CHR ''|'' \<notin> set k" and row: "rows (conf w) t k = Some fs"
  shows "rows (conf (snd (reset_zones DB t w))) t k = Some (map_of [(''nat_zone'', ''0'')])"
proof -
  from table_showsD(3)[OF conf_table[OF ok t] row] obtain d where "([k], d) \<in> set (cd_table DB (conf w) t)"
    using split_on_no_sep[OF k] by auto
  from zone_rows[OF ok t this] show ?thesis by (simp only: reset_zones_def get_tab_bind)
qed

lemma reset_all_zones:
  assumes ok: "conf_db_ok DB rows" and k: "CHR ''|'' \<notin> set k" and t: "upper_name t"
  shows "\<forall>t \<in> set ts. upper_name t \<Longrightarrow> distinct ts \<Longrightarrow> rows (conf w) t k = Some fs \<Longrightarrow>
    rows (conf (snd (act_each (reset_zones DB) ts w))) t k = (if t \<in> set ts then Some (map_of [(''nat_zone'', ''0'')]) else Some fs)"
proof (induction ts arbitrary: w fs)
  case (Cons a ts)
  let ?u = "snd (reset_zones DB a w)"
  note step = each_step[of "reset_zones DB", OF reset_zone_never(2)]
  show ?case
  proof (cases "a = t")
    case True
    with reset_zones_sets[OF ok t k Cons.prems(3)] have u: "rows (conf ?u) t k = Some (map_of [(''nat_zone'', ''0'')])" by simp
    from Cons.IH[OF _ _ u] Cons.prems True show ?thesis unfolding step by simp
  next
    case False
    with reset_zones_other[OF ok _ t] Cons.prems have u: "rows (conf ?u) t k = Some fs" by (auto simp: preserves_def)
    from Cons.IH[OF _ _ u] Cons.prems False show ?thesis unfolding step by simp
  qed
qed (simp add: act_return_def)

text \<open>C40. \<open>remove interfaces\<close> replaces the row of every interface by one that has only a zone: whatever else was
  configured there, for example its VRF, is lost.\<close>

theorem remove_interfaces_replaces:
  assumes ok: "conf_db_ok DB rows" and t: "t \<in> {''INTERFACE'', ''PORTCHANNEL_INTERFACE'', ''VLAN_INTERFACE'', ''LOOPBACK_INTERFACE''}"
    and k: "CHR ''|'' \<notin> set k" and row: "rows (conf w) t k = Some fs" and run: "run_nat DB RemoveInterfaces w = (r, w')"
  shows "rows (conf w') t k = Some (map_of [(''nat_zone'', ''0'')])"
proof -
  let ?ts = "[''INTERFACE'', ''PORTCHANNEL_INTERFACE'', ''VLAN_INTERFACE'', ''LOOPBACK_INTERFACE'']"
  have "rows (conf (snd (act_each (reset_zones DB) ?ts w))) t k = (if t \<in> set ?ts then Some (map_of [(''nat_zone'', ''0'')]) else Some fs)"
    by (rule reset_all_zones[OF ok k _ _ _ row]) (use t in auto)
  with t run show ?thesis by (auto simp: nat_remove_interfaces_def)
qed

definition vrf_interface :: "dict_conf session" where
  "vrf_interface = \<lparr>conf = [((''PORT'', ''Ethernet0''), [(''lanes'', ''1'')]), ((''INTERFACE'', ''Ethernet0''), [(''vrf_name'', ''Vrf1'')])], echoed = []\<rparr>"

theorem remove_interfaces_replaces_witness:
  "dict_rows (conf (snd (run_nat dict_conf RemoveInterfaces vrf_interface))) ''INTERFACE'' ''Ethernet0'' = Some (map_of [(''nat_zone'', ''0'')]) \<and>
   map_of (conf (snd (run_nat dict_conf (RemoveInterface ''Ethernet0'') vrf_interface))) (''INTERFACE'', ''Ethernet0'') =
     Some [(''vrf_name'', ''Vrf1''), (''nat_zone'', ''0'')]"
proof
  show "map_of (conf (snd (run_nat dict_conf (RemoveInterface ''Ethernet0'') vrf_interface))) (''INTERFACE'', ''Ethernet0'') =
     Some [(''vrf_name'', ''Vrf1''), (''nat_zone'', ''0'')]" by code_simp
  have "dict_rows (conf vrf_interface) ''INTERFACE'' ''Ethernet0'' = Some [''vrf_name'' \<mapsto> ''Vrf1'']"
    by (simp add: dict_rows_def vrf_interface_def)
  from remove_interfaces_replaces[OF dict_conf_ok _ _ this prod.collapse[symmetric]]
  show "dict_rows (conf (snd (run_nat dict_conf RemoveInterfaces vrf_interface))) ''INTERFACE'' ''Ethernet0'' = Some (map_of [(''nat_zone'', ''0'')])"
    by simp
qed

text \<open>
  The check of a twice NAT id in \<open>add static\<close> counts the entries of one static table only, so that three entries
  and more may share an id although the command refuses \<open>more than 2 entries\<close>; \<open>add binding\<close> counts both tables.
\<close>

definition twice_session :: "dict_conf session" where
  "twice_session = foldl (\<lambda>w c. snd (run_nat dict_conf c w)) nat_start
     [AddBasic ''65.55.43.1'' ''10.0.0.1'' None (Some 7), AddBasic ''65.55.43.2'' ''10.0.0.2'' None (Some 7),
      AddTcp ''65.55.43.3'' 80 ''10.0.0.3'' 80 None (Some 7)]"

lemma twice_id_shared_by_three:
  "map_of (conf twice_session) (''STATIC_NAT'', ''65.55.43.1'') = Some [(''local_ip'', ''10.0.0.1''), (''twice_nat_id'', ''7'')] \<and>
   map_of (conf twice_session) (''STATIC_NAT'', ''65.55.43.2'') = Some [(''local_ip'', ''10.0.0.2''), (''twice_nat_id'', ''7'')] \<and>
   map_of (conf twice_session) (''STATIC_NAPT'', ''65.55.43.3|TCP|80'') =
     Some [(''local_ip'', ''10.0.0.3''), (''local_port'', ''80''), (''twice_nat_id'', ''7'')]"
  by code_simp

text \<open>The largest port number is refused for a pool, although \<open>add static tcp\<close> takes it.\<close>

lemma last_port_refused: "\<not> is_valid_port_address ''65535''" "is_valid_port_address ''65534''"
  by (simp_all add: is_valid_port_address_def py_int_def Let_def py_strip_def py_space_def is_digit_def digit_val_def)

end
