(* ===== verification/Spec2Isabelle.thy ===== *)
theory Spec2Isabelle
  imports SwitchUpdates RouteCheck PackageManager AclLoader PortBreakout DbMigration NatSessions
begin

text \<open>
  The SONiC utilities: the parts of the repository that decide how the configuration of a switch changes.

  \<^bold>\<open>The program.\<close> A SONiC switch keeps its configuration in a database of tables of entries of fields. Seven
  parts of the repository are modelled here.
  \<^item> \<open>generic_config_updater/\<close> applies a JsonPatch to the configuration, replaces it, or rolls it back. A
    patch is split into moves, the moves are sorted so that every configuration on the way is valid
    under the YANG models, and the sorted changes are written entry by entry, the services being told.
  \<^item> \<open>config/config_mgmt.py\<close> changes the breakout of ports: the old ports and what depends on them are deleted,
    the new ones added with their defaults, first on a YANG tree and then in the database.
  \<^item> \<open>sonic_package_manager/\<close> installs, removes, upgrades and migrates packages: containers with a manifest,
    registered as features of the switch and recorded in a database of their own.
  \<^item> \<open>acl_loader/main.py\<close> turns access lists in the OpenConfig format into rules of the configuration database and
    writes them to the databases of the switch and of its ASICs.
  \<^item> \<open>config/nat.py\<close> holds the commands of address translation: checks on what is configured, then one entry written.
  \<^item> \<open>scripts/db_migrator.py\<close> brings the databases of an older image to the current version, one version at a time, with
    \<open>scripts/mellanox_buffer_migrator.py\<close> for the buffers of one vendor.
  \<^item> \<open>scripts/route_check.py\<close> compares the routes the control plane asked for with those the forwarding
    hardware has.

  \<^bold>\<open>Shared theories.\<close> Prelude holds the result type (a sum whose left side is the Python exception, \<open>rbind\<close>,
  \<open>rmapM\<close>, \<open>rfoldM\<close>, \<open>rforall\<close>, \<open>rexists\<close>), generators that may raise after some yields (\<open>gen\<close>), computations
  over a state of the world (\<open>act\<close>), and the string operations of Python. PyJson is JSON as Python holds it:
  an object keeps the order of its keys, \<open>json_eq\<close> is \<open>==\<close>. JsonLibs and JsonCongr are the interface to the
  packages \<open>jsonpointer\<close> and \<open>jsonpatch\<close>; PyIpAddress is the part of \<open>ipaddress\<close> that is used.

  \<^bold>\<open>The configuration updater.\<close>
  \<^item> XpathTokens, PathAddressing (\<open>gu_common.py\<close>, \<open>PathAddressing\<close>): JsonPatch paths, YANG XPATHs, their translation
    in both directions, the references to a path. Shown: tokens and XPATHs, table keys, and the path of a
    field of a row survive the round trip.
  \<^item> ConfigWrapper (\<open>gu_common.py\<close>, the three wrapper classes): reading and validating a configuration. Shown: what
    the lane, peer group, empty table and YANG coverage checks accept.
  \<^item> Sorters, SorterBfs, SorterMemo (\<open>patch_sorter.py\<close>, the sorters) over the record \<open>search_ops\<close>. Shown: soundness,
    completeness, shortest plans of the breadth-first sorter, enough fuel, and a case in which the
    memoizing sorter is not shortest.
  \<^item> JsonMove, MoveWrapper, MoveFilters, MoveValidators, MoveGenerators, MoveExtenders (\<open>patch_sorter.py\<close>, the moves and
    what makes, extends and judges them). Shown: what an added, replaced or removed value does, what each
    safety validator rules out, that the low-level generator yields moves, no exception, as long as the configurations
    differ, that the wrapper offers the moves of the generators and of repeated extension, each operation once.
  \<^item> PatchSorter, ConfigSplitters (\<open>patch_sorter.py\<close>, the patch sorters). Shown: every prefix of the changes leads to a
    valid configuration, the last one to the target; splitting and merging; adjusting changes.
  \<^item> ServicesValidator, ChangeApplier, GenericUpdater, SwitchUpdates (\<open>services_validator.py\<close>, \<open>change_applier.py\<close>,
    \<open>generic_updater.py\<close>). Shown: the database follows the changes of the sorted patch one by one, a dry run
    predicts the result, a rollback restores a checkpoint.

  \<^bold>\<open>Port breakout.\<close>
  \<^item> ConfigTree (\<open>config_mgmt.py\<close>, \<open>_mergeConfigs\<close>, \<open>_searchKeysInConfig\<close>): merging and searching configurations, over the
    datatype \<open>config\<close> of texts, lists of texts and dictionaries. Shown: what a merge keeps and a search finds.
  \<^item> ConfigDelta (same file, \<open>_createConfigToLoad\<close>): from a difference of \<open>jsondiff\<close> to what is written. Shown:
    every path it writes gets the value of the output, and on the others input and output agree; which changes are lost,
    and which have no documented meaning for the connector.
  \<^item> PortBreakout (same file, \<open>ConfigMgmt\<close>, \<open>ConfigMgmtDPB\<close>): the breakout itself, and YANG modules. Shown: only validated
    configurations are written, and a successful breakout whose differences are plain (\<open>plain_step\<close>) ends at the validated target.

  \<^bold>\<open>The package manager.\<close>
  \<^item> PkgVersion (\<open>version.py\<close>, \<open>constraint.py\<close>, \<open>reference.py\<close>), PkgDatabase (\<open>database.py\<close>), PkgManifest (\<open>manifest.py\<close>),
    PkgMetadata (\<open>metadata.py\<close>, \<open>utils.py\<close>): the data. Shown: round trips of every format, the database as a
    finite map with protected entries, the type of an accepted manifest.
  \<^item> SonicDb, FeatureRegistry (\<open>service_creator/sonic_db.py\<close>, \<open>feature.py\<close>): the three configuration stores and the FEATURE
    tables in them. Shown: what registration writes, and that an update and its inverse cancel.
  \<^item> PkgChecks (\<open>manager.py\<close>, the checks; \<open>package.py\<close>): exactly the consistent sets of packages pass in which
    no declared conflict names an installed package with components.
  \<^item> ServiceCreator (\<open>service_creator/creator.py\<close>): the files, YANG modules and initial configuration of a service. Shown:
    what creation and removal touch, what a removal leaves behind, what leaks between the databases.
  \<^item> PackageManager (\<open>manager.py\<close>, \<open>source.py\<close>, \<open>config/feature.py\<close>): the transactions with their undo callbacks. Shown: the
    database records what was installed, upgraded or removed, exactly when the operation succeeds; removing a service
    takes away what its creation wrote, but for the timers.

  \<^bold>\<open>The ACL loader.\<close>
  \<^item> AclRules (\<open>acl_loader/main.py\<close>, \<open>AclLoader.convert_*\<close>): rules of a file into rules of the database, over the
    records \<open>acl_loader\<close> (the attributes of the class) and \<open>acl_rule\<close> (the leaves \<open>pyangbind\<close> reads). Shown: the fields,
    ranges and priority of what is converted, which tables get a deny rule, which errors skip a rule and which abort.
  \<^item> AclLoader (same file, the rest of the class and the commands): reading, full and incremental update,
    deletion. Shown: what the databases hold after each, down to the entries of the file, and that the two updates
    agree.

  \<^bold>\<open>The configuration commands.\<close> A command reads the database, prints, fails with a message, or writes.
  \<^item> ConfigCmd: the connector (\<open>conf_db\<close>), what it promises (\<open>conf_db_ok\<close>), a database in memory, and the rules
    (\<open>leaves_db\<close>, \<open>refuses_clean\<close>) that reduce what a command leaves behind to conditions on the database.
  \<^item> NatConfig (\<open>config/nat.py\<close>): one definition per command and per check, the datatype of commands, and sessions as a
    step relation. NatSessions: every session keeps the entries apart and within their limits; a failing command writes
    nothing; a pool in use stays, unless \<open>remove pools\<close> meets a bar in its name; what \<open>remove interfaces\<close> loses.

  \<^bold>\<open>The migration of the databases.\<close> The world is a record of the databases and of the buffer migrator, an object.
  \<^item> MigDb: the connectors (\<open>mig_db\<close>), what they promise (\<open>mig_db_ok\<close>), and databases in memory that keep it.
  \<^item> MlnxParameters, MlnxBufferMigrator (\<open>mellanox_buffer_migrator.py\<close>): the tables of default buffer configurations and
    the class. MlnxMigration: no step of the chain of versions lacks a configuration it maps to; reclaiming buffers leaves the ports alone that are up.
  \<^item> DbMigrator (\<open>db_migrator.py\<close>, \<open>db_migrator_constants.py\<close>): one definition per method and per handler, and the loop. DbMigration:
    through the handlers of four versions, default buffer pools become the ones they are mapped to; the loop runs a fixed chain of handlers, the current version is recorded when it ends, and the initial
    configuration never overrides what is there.

  \<^bold>\<open>The route check.\<close> RouteCheck (\<open>scripts/route_check.py\<close>, \<open>utilities_common/chassis.py\<close>). Shown: the report is the multiset
  difference of the two route tables, less the exempt routes and the late updates; bounds of a message
  and of the scan interval; the loop that collects late updates ends after one round.

  \<^bold>\<open>Interfaces.\<close> The locales are \<open>config_splitting\<close> (what a splitter promises, interpreted for both splitters),
  \<open>change_target\<close> (what a sequence of changes needs of a change applier, interpreted for the real and the
  dry-run applier), \<open>entry_store\<close> (reading after writing, interpreted for the file store) and those of
  the sorters. Code that is not in the repository is a parameter; what a theorem needs of it is a named
  hypothesis that states its documentation: \<open>pointer_ok\<close>, \<open>patch_op_ok\<close>, \<open>make_patch_ok\<close>, \<open>patch_congr_ok\<close>
  (RFC 6901 and 6902), \<open>crop_ok\<close> (\<open>sonic_yang\<close> removes the tables without model), \<open>db_ok\<close> and \<open>switch_ok\<close> (the
  connector of the database stores what is written, and the command that shows it prints it), \<open>acl_db_ok\<close>,
  \<open>dpb_ok\<close>, \<open>run_ok\<close>, \<open>conf_db_ok\<close> and \<open>mig_db_ok\<close> (the same for the ACL loader, the port breakout, the package manager, the
  configuration commands and the migration), \<open>semver_ok\<close> and \<open>semver_expr_ok\<close> (printing and parsing versions). The
  witnesses instantiate every parameter with a concrete function.

  \<^bold>\<open>Bounds.\<close> The recursion of the sorters and the queue of the wrapper have a fuel argument, and running out is the
  exception \<open>OutOfFuel\<close>, which the source never raises. \<open>dfs_sorter_correct\<close>, \<open>bfs_sorter_correct\<close> and
  \<open>wrapper_generate_correct\<close> say how much is enough: the number of configurations reachable, and of moves that can be
  offered. Waiting for an event that never comes (\<open>wait_state\<close>) ends with \<open>OutOfFuel\<close> when the given events end.
  The loop of \<open>migrate\<close> has as many turns as there are handlers, eighteen; \<open>migrate_loop_ends\<close> says that more change nothing.
  All other recursion terminates by its own measure.

  \<^bold>\<open>Not modelled.\<close> Loggers and printed text, file locks (operations run one at a time), signal handlers and
  argument parsers; \<open>ServiceCreator.validate_config\<close>, which only calls \<open>sonic_yang\<close>; the client of the Docker daemon
  and of the registries (parameters of \<open>env\<close>); floats in JSON. The other commands under \<open>config/\<close>, \<open>show/\<close>, \<open>clear/\<close>, \<open>sfputil/\<close>
  and most scripts translate arguments into calls of a database or of a platform library and print what
  they read: they have little state of their own and are left out.
\<close>

end
